(* ===== verification/Prelude.thy ===== *)
theory Prelude
  imports Main "HOL-Library.Word" "HOL-Library.AList" "HOL-Library.Multiset"
begin

section \<open>Prelude: machine types, containers and shared automation\<close>

text \<open>
  Names and facts every component of the battle server shares: the C++ integer types as
  words, byte strings, the standard containers the program uses and the named collections
  that carry the component proofs.

  \<^item> \<open>std::unordered_map\<close> is an association list in iteration order with distinct keys
    (\<open>umap_ok\<close>): \<open>find\<close> is \<open>map_of\<close>, \<open>m[k] = v\<close> is \<open>AList.update\<close>, \<open>erase\<close> is
    \<open>AList.delete\<close>, \<open>emplace\<close> is \<open>umap_emplace\<close>. The standard leaves the iteration order
    open; every theorem quantifies over the list, so over every order.
  \<^item> \<open>std::unordered_set\<close> is a list in iteration order with distinct elements.
\<close>

named_theorems codec_simps \<open>evaluation of the byte-level readers and writers\<close>
named_theorems frame_simps \<open>fields an operation leaves unchanged\<close>
named_theorems inv_intros \<open>preservation of a component's invariant by an operation\<close>

type_synonym u8 = "8 word"
type_synonym u16 = "16 word"
type_synonym u32 = "32 word"
type_synonym u64 = "64 word"
type_synonym i32 = "32 word"
type_synonym i64 = "64 word"

type_synonym bytes = "u8 list"
type_synonym ('k, 'v) umap = "('k \<times> 'v) list"

subsection \<open>Containers\<close>

abbreviation umap_find :: "('k, 'v) umap \<Rightarrow> 'k \<Rightarrow> 'v option" where
  "umap_find m k \<equiv> map_of m k"

abbreviation umap_ok :: "('k, 'v) umap \<Rightarrow> bool" where
  "umap_ok m \<equiv> distinct (map fst m)"

abbreviation umap_assign :: "'k \<Rightarrow> 'v \<Rightarrow> ('k, 'v) umap \<Rightarrow> ('k, 'v) umap" where
  "umap_assign k v m \<equiv> AList.update k v m"

abbreviation umap_erase :: "'k \<Rightarrow> ('k, 'v) umap \<Rightarrow> ('k, 'v) umap" where
  "umap_erase k m \<equiv> AList.delete k m"

definition umap_emplace :: "'k \<Rightarrow> 'v \<Rightarrow> ('k, 'v) umap \<Rightarrow> ('k, 'v) umap" where
  "umap_emplace k v m = (case map_of m k of None \<Rightarrow> m @ [(k, v)] | Some _ \<Rightarrow> m)"

lemma umap_emplace_find:
  "umap_find (umap_emplace k v m) =
     (case map_of m k of None \<Rightarrow> (map_of m)(k \<mapsto> v) | Some _ \<Rightarrow> map_of m)"
  by (auto simp: umap_emplace_def map_add_def fun_eq_iff split: option.splits)

lemma umap_emplace_ok [simp, intro]: "umap_ok m \<Longrightarrow> umap_ok (umap_emplace k v m)"
  by (auto simp: umap_emplace_def map_of_eq_None_iff split: option.splits)

lemma length_umap_emplace:
  "length (umap_emplace k v m) = (if map_of m k = None then Suc (length m) else length m)"
  by (auto simp: umap_emplace_def split: option.splits)

lemma umap_erase_ok [simp, intro]: "umap_ok m \<Longrightarrow> umap_ok (umap_erase k m)"
  by (rule distinct_delete)

lemma umap_assign_ok [simp, intro]: "umap_ok m \<Longrightarrow> umap_ok (umap_assign k v m)"
  by (rule distinct_update)

lemma umap_assign_find [simp]: "umap_find (umap_assign k v m) = (umap_find m)(k \<mapsto> v)"
  by (rule update_conv')

lemma umap_erase_find [simp]: "umap_find (umap_erase k m) = (umap_find m)(k := None)"
  by (rule delete_conv')

lemma umap_erase_absent [simp]: "umap_find m k = None \<Longrightarrow> umap_erase k m = m"
  by (simp add: map_of_eq_None_iff delete_id)

lemma length_umap_assign:
  "length (umap_assign k v m) = (if map_of m k = None then Suc (length m) else length m)"
  by (induction m) auto

lemma length_umap_erase_le: "length (umap_erase k m) \<le> length m"
  by (rule length_delete_le)

lemma umap_erase_Cons:
  "umap_erase k ((a, b) # m) = (if a = k then umap_erase k m else (a, b) # umap_erase k m)"
  by (simp add: AList.delete_eq)

lemma mset_umap_erase:
  assumes "umap_ok m" and "umap_find m k = Some v"
  shows "mset m = add_mset (k, v) (mset (umap_erase k m))"
  using assms
proof (induction m)
  case Nil
  then show ?case by simp
next
  case (Cons p m)
  obtain a b where p: "p = (a, b)" by (cases p)
  show ?case
  proof (cases "a = k")
    case True
    with Cons.prems p have "b = v" and "map_of m k = None"
      by (simp_all add: map_of_eq_None_iff)
    with True p show ?thesis by (simp add: umap_erase_Cons)
  next
    case False
    with Cons p show ?thesis by (simp add: umap_erase_Cons)
  qed
qed

lemma length_umap_erase:
  assumes "umap_ok m" and "umap_find m k = Some v"
  shows "Suc (length (umap_erase k m)) = length m"
  using mset_umap_erase [OF assms] by (metis size_add_mset size_mset)

lemma map_of_map_snd:
  "map_of (map (\<lambda>(k, v). (k, f k v)) m) k = map_option (f k) (map_of m k)"
  by (induction m) auto

lemma map_fst_map_snd [simp]: "map fst (map (\<lambda>(k, v). (k, f k v)) m) = map fst m"
  by (induction m) auto

end
