(* ===== verification/Codec.thy ===== *)
theory Codec
  imports Prelude
begin

section \<open>The backend frame codec\<close>

text \<open>
  \<open>battle/src/framework/BackendCodec.cpp\<close> and the constants of \<open>Protocol.h\<close>: big-endian
  readers and writers, the encoder of a backend frame and its two decoders. A byte is an
  \<open>8 word\<close>, a \<open>std::string\<close> buffer a list of bytes, \<open>data[i] = c\<close> is a list update.
  A decoder's \<open>false\<close> with its error string is \<open>Inl\<close>.
\<close>

unbundle bit_operations_syntax

subsection \<open>Protocol constants\<close>

definition kBackendFrameHeaderSize :: nat where "kBackendFrameHeaderSize = 15"
definition kBackendFrameBodyHeaderSize :: nat where "kBackendFrameBodyHeaderSize = 11"
definition kMaxBackendPacketSize :: u32 where "kMaxBackendPacketSize = 1024 * 1024"
definition kBackendCmdBusiness :: u8 where "kBackendCmdBusiness = 101"
definition kBackendCmdControl :: u8 where "kBackendCmdControl = 102"
definition kServiceIdGame :: u32 where "kServiceIdGame = 0"
definition kServiceIdBattle :: u32 where "kServiceIdBattle = 1"
definition kServiceIdTown :: u32 where "kServiceIdTown = 2"
definition kRegisterSerial :: i32 where "kRegisterSerial = - 1"

lemmas size_consts = kBackendFrameHeaderSize_def kBackendFrameBodyHeaderSize_def
  kMaxBackendPacketSize_def

record BackendFrame =
  cmd :: u8
  msgId :: u16
  serial :: i32
  sessionId :: u32
  payload :: bytes

datatype frame_error =
    BodyTooShort          \<comment> \<open>backend frame body too short\<close>
  | FrameTooShort         \<comment> \<open>backend frame too short\<close>
  | InvalidFrameLength    \<comment> \<open>invalid backend frame length\<close>
  | FrameTooLarge         \<comment> \<open>backend frame too large\<close>
  | IncompleteFrame       \<comment> \<open>incomplete backend frame\<close>

subsection \<open>Readers and writers\<close>

definition readU16BE :: "bytes \<Rightarrow> u16" where
  "readU16BE d = push_bit 8 (ucast (d ! 0)) OR ucast (d ! 1)"

definition readU32BE :: "bytes \<Rightarrow> u32" where
  "readU32BE d = push_bit 24 (ucast (d ! 0)) OR push_bit 16 (ucast (d ! 1)) OR
     push_bit 8 (ucast (d ! 2)) OR ucast (d ! 3)"

definition readI32BE :: "bytes \<Rightarrow> i32" where
  "readI32BE d = readU32BE d"

definition writeU16BE :: "bytes \<Rightarrow> nat \<Rightarrow> u16 \<Rightarrow> bytes" where
  "writeU16BE d off v =
     d[off := ucast (drop_bit 8 v AND 0xFF), off + 1 := ucast (v AND 0xFF)]"

definition writeU32BE :: "bytes \<Rightarrow> nat \<Rightarrow> u32 \<Rightarrow> bytes" where
  "writeU32BE d off v =
     d[off := ucast (drop_bit 24 v AND 0xFF), off + 1 := ucast (drop_bit 16 v AND 0xFF),
       off + 2 := ucast (drop_bit 8 v AND 0xFF), off + 3 := ucast (v AND 0xFF)]"

definition writeI32BE :: "bytes \<Rightarrow> nat \<Rightarrow> i32 \<Rightarrow> bytes" where
  "writeI32BE d off v = writeU32BE d off v"

subsection \<open>Encoding and decoding frames\<close>

text \<open>
  \<open>memcpy_at\<close> overwrites the bytes from an offset on, staying inside the buffer. The
  buffer has the length the 32-bit \<open>frameLen\<close> says, so for a payload of 4 GiB or more the
  code's \<open>memcpy\<close> would run over the buffer's end; below that the two agree.
\<close>

definition memcpy_at :: "nat \<Rightarrow> bytes \<Rightarrow> bytes \<Rightarrow> bytes" where
  "memcpy_at off src dst =
     take (length dst) (take off dst @ src @ drop (off + length src) dst)"

definition encodeBackendFrame :: "u8 \<Rightarrow> u16 \<Rightarrow> i32 \<Rightarrow> u32 \<Rightarrow> bytes \<Rightarrow> bytes" where
  "encodeBackendFrame c m s sid pl =
     (let frameLen = (of_nat (kBackendFrameHeaderSize + length pl) :: u32);
          frame = replicate (unat frameLen) 0;
          frame = writeU32BE frame 0 frameLen;
          frame = frame[4 := c];
          frame = writeU16BE frame 5 m;
          frame = writeI32BE frame 7 s;
          frame = writeU32BE frame 11 sid
      in if 0 < length pl then memcpy_at kBackendFrameHeaderSize pl frame else frame)"

definition decodeBackendFrameBody :: "bytes \<Rightarrow> frame_error + BackendFrame" where
  "decodeBackendFrameBody d =
     (if length d < kBackendFrameBodyHeaderSize then Inl BodyTooShort
      else Inr \<lparr>cmd = d ! 0, msgId = readU16BE (drop 1 d), serial = readI32BE (drop 3 d),
                sessionId = readU32BE (drop 7 d),
                payload = drop kBackendFrameBodyHeaderSize d\<rparr>)"

definition decodeBackendFrame :: "bytes \<Rightarrow> frame_error + BackendFrame" where
  "decodeBackendFrame d =
     (if length d < kBackendFrameHeaderSize then Inl FrameTooShort
      else let frameLen = readU32BE d in
        if unat frameLen < kBackendFrameHeaderSize then Inl InvalidFrameLength
        else if frameLen > kMaxBackendPacketSize then Inl FrameTooLarge
        else if unat frameLen > length d then Inl IncompleteFrame
        else decodeBackendFrameBody (take (unat frameLen - 4) (drop 4 d)))"

subsection \<open>The byte layout of a frame\<close>

text \<open>
  \<open>be16\<close> and \<open>be32\<close> are the big-endian digits of a word: the abstract layout the
  index-wise writers produce and the readers invert.
\<close>

definition be32 :: "u32 \<Rightarrow> bytes" where
  "be32 v = [ucast (drop_bit 24 v AND 0xFF), ucast (drop_bit 16 v AND 0xFF),
             ucast (drop_bit 8 v AND 0xFF), ucast (v AND 0xFF)]"
definition be16 :: "u16 \<Rightarrow> bytes" where
  "be16 v = [ucast (drop_bit 8 v AND 0xFF), ucast (v AND 0xFF)]"

lemma mask8: "(0xFF :: 'a::len word) = mask 8"
  by (simp add: mask_eq_exp_minus_1)

lemma bit_u8_lt: "bit (b :: u8) n \<Longrightarrow> n < 8"
  by (drule bit_imp_le_length) simp

lemma bit_add_sub: "m \<le> n \<Longrightarrow> bit v (m + (n - m)) = bit v n" for n m :: nat
  by simp

lemma read32_be32 [codec_simps]: "readU32BE (be32 v @ r) = v"
proof (rule bit_word_eqI)
  fix n assume n: "n < LENGTH(32)"
  consider "n < 8" | "8 \<le> n" "n < 16" | "16 \<le> n" "n < 24" | "24 \<le> n" by linarith
  then show "bit (readU32BE (be32 v @ r)) n = bit v n"
    using n by cases (auto simp: readU32BE_def be32_def mask8 bit_simps)
qed

lemma read16_be16 [codec_simps]: "readU16BE (be16 v @ r) = v"
  by (rule bit_word_eqI) (auto simp: readU16BE_def be16_def mask8 bit_simps)

lemma be32_read32 [codec_simps]: "be32 (readU32BE (a # b # c # d # r)) = [a,b,c,d]"
  unfolding readU32BE_def be32_def mask8
  by (intro list.inject [THEN iffD2] conjI refl bit_word_eqI)
     (auto simp: bit_simps dest: bit_u8_lt)

lemma be16_read16 [codec_simps]: "be16 (readU16BE (a # b # r)) = [a,b]"
  unfolding readU16BE_def be16_def mask8
  by (intro list.inject [THEN iffD2] conjI refl bit_word_eqI)
     (auto simp: bit_simps dest: bit_u8_lt)
lemma length_be32 [codec_simps]: "length (be32 v) = 4"
  by (simp add: be32_def)

lemma length_be16 [codec_simps]: "length (be16 v) = 2"
  by (simp add: be16_def)

lemma memcpy_at_append:
  "length pre = off \<Longrightarrow> length src = length dst \<Longrightarrow> memcpy_at off src (pre @ dst) = pre @ src"
  by (simp add: memcpy_at_def)

definition frame_fits :: "bytes \<Rightarrow> bool" where
  "frame_fits pl \<longleftrightarrow> length pl + kBackendFrameHeaderSize < 2 ^ 32"

definition frame_bytes :: "u8 \<Rightarrow> u16 \<Rightarrow> i32 \<Rightarrow> u32 \<Rightarrow> bytes \<Rightarrow> bytes" where
  "frame_bytes c m s sid pl =
     be32 (of_nat (kBackendFrameHeaderSize + length pl)) @ [c] @ be16 m @ be32 s @ be32 sid @ pl"

lemma writeU32BE_at:
  assumes "length pre = off" and "length old = 4"
  shows "writeU32BE (pre @ old @ post) off v = pre @ be32 v @ post"
proof -
  from assms(2) obtain a b c e where "old = [a, b, c, e]"
    by (auto simp: eval_nat_numeral length_Suc_conv)
  with assms(1) show ?thesis
    by (simp add: writeU32BE_def be32_def list_update_append)
qed

lemma writeU16BE_at:
  assumes "length pre = off" and "length old = 2"
  shows "writeU16BE (pre @ old @ post) off v = pre @ be16 v @ post"
proof -
  from assms(2) obtain a b where "old = [a, b]"
    by (auto simp: eval_nat_numeral length_Suc_conv)
  with assms(1) show ?thesis
    by (simp add: writeU16BE_def be16_def list_update_append)
qed

lemma write_header:
  "writeU32BE (writeI32BE (writeU16BE ((writeU32BE (replicate (15 + k) 0) 0 n)[4 := c]) 5 m) 7 s) 11 sid
    = be32 n @ [c] @ be16 m @ be32 s @ be32 sid @ replicate k 0"
proof -
  let ?z = "\<lambda>n. replicate n (0 :: u8)"
  have z: "?z (15 + k) = [] @ ?z 4 @ [0] @ ?z 2 @ ?z 4 @ ?z 4 @ ?z k"
    by (simp flip: replicate_add replicate_Suc add: replicate_append_same)
  have 1: "writeU32BE (?z (15 + k)) 0 n = be32 n @ [0] @ ?z 2 @ ?z 4 @ ?z 4 @ ?z k"
    unfolding z by (subst writeU32BE_at) simp_all
  have 2: "(be32 n @ [0] @ ?z 2 @ ?z 4 @ ?z 4 @ ?z k)[4 := c]
      = (be32 n @ [c]) @ ?z 2 @ ?z 4 @ ?z 4 @ ?z k"
    by (simp add: list_update_append length_be32)
  have 3: "writeU16BE ((be32 n @ [c]) @ ?z 2 @ ?z 4 @ ?z 4 @ ?z k) 5 m
      = (be32 n @ [c] @ be16 m) @ ?z 4 @ ?z 4 @ ?z k"
    by (subst writeU16BE_at) (simp_all add: length_be32)
  have 4: "writeI32BE ((be32 n @ [c] @ be16 m) @ ?z 4 @ ?z 4 @ ?z k) 7 s
      = (be32 n @ [c] @ be16 m @ be32 s) @ ?z 4 @ ?z k"
    unfolding writeI32BE_def by (subst writeU32BE_at) (simp_all add: length_be32 length_be16)
  have 5: "writeU32BE ((be32 n @ [c] @ be16 m @ be32 s) @ ?z 4 @ ?z k) 11 sid
      = (be32 n @ [c] @ be16 m @ be32 s) @ be32 sid @ ?z k"
    by (rule writeU32BE_at) (simp_all add: length_be32 length_be16)
  show ?thesis unfolding 1 2 3 4 5 by simp
qed

lemma unat_frameLen:
  assumes "frame_fits pl" 
  shows "unat (of_nat (kBackendFrameHeaderSize + length pl) :: u32)
     = kBackendFrameHeaderSize + length pl"
proof -
  have "kBackendFrameHeaderSize + length pl < 2 ^ LENGTH(32)"
    using assms by (simp only: frame_fits_def add.commute len_num0 len_num1 len_bit0 len_bit1) simp
  then show ?thesis by (simp only: unat_of_nat mod_less)
qed

lemma encodeBackendFrame_bytes:
  assumes "frame_fits pl"
  shows "encodeBackendFrame c m s sid pl = frame_bytes c m s sid pl"
proof -
  let ?n = "of_nat (kBackendFrameHeaderSize + length pl) :: u32"
  let ?hdr = "be32 ?n @ [c] @ be16 m @ be32 s @ be32 sid"
  have frame: "writeU32BE (writeI32BE (writeU16BE ((writeU32BE (replicate (unat ?n) 0) 0 ?n)[4 := c]) 5 m) 7 s) 11 sid
      = ?hdr @ replicate (length pl) 0"
    by (simp only: unat_frameLen [OF assms]) (simp only: kBackendFrameHeaderSize_def write_header append_assoc)
  have "memcpy_at kBackendFrameHeaderSize pl (?hdr @ replicate (length pl) 0) = ?hdr @ pl"
    by (rule memcpy_at_append) (simp_all add: length_be32 length_be16 kBackendFrameHeaderSize_def)
  then show ?thesis
    unfolding encodeBackendFrame_def Let_def frame by (simp add: frame_bytes_def)
qed

lemma decode_body_bytes:
  "decodeBackendFrameBody ([c] @ be16 m @ be32 s @ be32 sid @ pl)
     = Inr \<lparr>cmd = c, msgId = m, serial = s, sessionId = sid, payload = pl\<rparr>"
proof -
  have "drop 3 ([c] @ be16 m @ be32 s @ be32 sid @ pl) = be32 s @ be32 sid @ pl"
    and "drop 7 ([c] @ be16 m @ be32 s @ be32 sid @ pl) = be32 sid @ pl"
    and "drop 11 ([c] @ be16 m @ be32 s @ be32 sid @ pl) = pl"
    by (simp_all add: be16_def be32_def)
  then show ?thesis
    by (simp add: decodeBackendFrameBody_def readI32BE_def size_consts codec_simps)
qed

lemma max_packet_nat: "unat kMaxBackendPacketSize = 2 ^ 20"
  by (simp add: kMaxBackendPacketSize_def)

subsection \<open>Round trips and errors\<close>

lemma decode_encoded:
  assumes "length pl + kBackendFrameHeaderSize \<le> 2 ^ 20"
  shows "decodeBackendFrame (encodeBackendFrame c m s sid pl @ rest)
     = Inr \<lparr>cmd = c, msgId = m, serial = s, sessionId = sid, payload = pl\<rparr>"
proof -
  have fits: "frame_fits pl" using assms by (simp add: frame_fits_def)
  let ?n = "of_nat (kBackendFrameHeaderSize + length pl) :: u32"
  let ?body = "[c] @ be16 m @ be32 s @ be32 sid @ pl"
  have n: "unat ?n = kBackendFrameHeaderSize + length pl" by (rule unat_frameLen [OF fits])
  have d: "encodeBackendFrame c m s sid pl @ rest = be32 ?n @ ?body @ rest"
    by (simp add: encodeBackendFrame_bytes [OF fits] frame_bytes_def)
  have "\<not> ?n > kMaxBackendPacketSize"
    using assms by (simp only: word_less_nat_alt n max_packet_nat not_less add.commute)
  moreover have "take (unat ?n - 4) (drop 4 (be32 ?n @ ?body @ rest)) = ?body"
  proof -
    have "unat ?n - 4 = length ?body" and "length (be32 ?n) = 4"
      by (simp_all only: n length_append length_be32 length_be16) (simp add: kBackendFrameHeaderSize_def)
    then show ?thesis by (simp only: append_eq_conv_conj [THEN iffD1, THEN conjunct2] drop_append take_append) simp
  qed
  ultimately show ?thesis
    unfolding d decodeBackendFrame_def Let_def read32_be32 n
    by (simp only: if_False if_True decode_body_bytes)
       (simp add: length_be32 length_be16 kBackendFrameHeaderSize_def)
qed

text \<open>C24. A stream of bytes that starts with an encoded frame is decoded exactly when the
  frame is complete and within the 1 MiB packet limit, whatever follows it: its first \<open>k\<close> bytes
  are too short while the header is incomplete, incomplete while the frame is, and then give
  back command, message id, serial, session id and payload. The encoder has no size check:
  a frame above the limit is written all the same, and rejected as soon as its header is there.\<close>
theorem decode_stream:
  assumes "length pl + kBackendFrameHeaderSize < 2 ^ 32"
  shows "decodeBackendFrame (take k (encodeBackendFrame c m s sid pl @ rest)) =
    (if k < kBackendFrameHeaderSize then Inl FrameTooShort
     else if 2 ^ 20 < length pl + kBackendFrameHeaderSize then Inl FrameTooLarge
     else if k < length pl + kBackendFrameHeaderSize then Inl IncompleteFrame
     else Inr \<lparr>cmd = c, msgId = m, serial = s, sessionId = sid, payload = pl\<rparr>)"
proof (cases "k < kBackendFrameHeaderSize")
  case True
  then show ?thesis by (simp add: decodeBackendFrame_def min_less_iff_disj del: take_append)
next
  case False
  have fits: "frame_fits pl" using assms by (simp add: frame_fits_def)
  let ?n = "of_nat (kBackendFrameHeaderSize + length pl) :: u32"
  let ?enc = "encodeBackendFrame c m s sid pl"
  note n = unat_frameLen [OF fits]
  have enc: "?enc = be32 ?n @ [c] @ be16 m @ be32 s @ be32 sid @ pl"
    by (simp add: encodeBackendFrame_bytes [OF fits] frame_bytes_def)
  have len: "length ?enc = length pl + kBackendFrameHeaderSize"
    by (simp add: enc length_be32 length_be16 kBackendFrameHeaderSize_def)
  have read: "readU32BE (take k (?enc @ rest)) = ?n"
    using False by (simp add: enc length_be32 kBackendFrameHeaderSize_def read32_be32)
  have large: "?n > kMaxBackendPacketSize \<longleftrightarrow> 2 ^ 20 < length pl + kBackendFrameHeaderSize"
    by (simp only: word_less_nat_alt n max_packet_nat add.commute)
  show ?thesis
  proof (cases "2 ^ 20 < length pl + kBackendFrameHeaderSize \<or> k < length pl + kBackendFrameHeaderSize")
    case True
    then show ?thesis
      using False unfolding decodeBackendFrame_def Let_def read large n
      by (auto simp: len kBackendFrameHeaderSize_def)
  next
    case False
    then have "take k (?enc @ rest) = ?enc @ take (k - length ?enc) rest" by (simp add: len)
    with False \<open>\<not> k < kBackendFrameHeaderSize\<close> show ?thesis by (simp add: decode_encoded)
  qed
qed

theorem decode_stream_witness:
  "decodeBackendFrame (take 16 (encodeBackendFrame 101 901 (- 7) 42 [1, 2, 3] @ [9])) = Inl IncompleteFrame
     \<and> decodeBackendFrame (take 18 (encodeBackendFrame 101 901 (- 7) 42 [1, 2, 3] @ [9]))
         = Inr \<lparr>cmd = 101, msgId = 901, serial = - 7, sessionId = 42, payload = [1, 2, 3]\<rparr>"
  using decode_stream [of "[1, 2, 3]" 16 101 901 "- 7" 42 "[9]"] decode_stream [of "[1, 2, 3]" 18 101 901 "- 7" 42 "[9]"]
  by (simp add: kBackendFrameHeaderSize_def)

lemma list_split11:
  assumes "11 \<le> length d"
  obtains a b1 b2 c1 c2 c3 c4 e1 e2 e3 e4 r
  where "d = a # b1 # b2 # c1 # c2 # c3 # c4 # e1 # e2 # e3 # e4 # r"
  using assms by (auto simp: eval_nat_numeral Suc_le_length_iff)

lemma decode_body_inverse:
  assumes "decodeBackendFrameBody d = Inr f"
  shows "d = [cmd f] @ be16 (msgId f) @ be32 (serial f) @ be32 (sessionId f) @ payload f"
proof -
  have "11 \<le> length d" using assms
    by (simp add: decodeBackendFrameBody_def size_consts split: if_splits)
  then obtain a b1 b2 c1 c2 c3 c4 e1 e2 e3 e4 r where
    "d = a # b1 # b2 # c1 # c2 # c3 # c4 # e1 # e2 # e3 # e4 # r"
    by (rule list_split11)
  with assms show ?thesis
    by (auto simp: decodeBackendFrameBody_def size_consts readI32BE_def codec_simps)
qed

text \<open>What the decoder accepts is exactly an encoded frame within the size limit: the
  accepted prefix of the input is the encoding of the decoded fields.\<close>
theorem decode_inverse:
  assumes "decodeBackendFrame d = Inr f"
  shows "length (payload f) + kBackendFrameHeaderSize \<le> 2 ^ 20 \<and>
    take (kBackendFrameHeaderSize + length (payload f)) d
      = encodeBackendFrame (cmd f) (msgId f) (serial f) (sessionId f) (payload f)"
proof -
  let ?n = "readU32BE d"
  have len: "15 \<le> length d" "15 \<le> unat ?n" "unat ?n \<le> length d" "\<not> ?n > kMaxBackendPacketSize"
    and body: "decodeBackendFrameBody (take (unat ?n - 4) (drop 4 d)) = Inr f"
    using assms by (auto simp: decodeBackendFrame_def Let_def kBackendFrameHeaderSize_def split: if_splits)
  note split = decode_body_inverse [OF body]
  from arg_cong [OF split, of length] len
  have n: "unat ?n = kBackendFrameHeaderSize + length (payload f)"
    by (simp add: length_be16 length_be32 kBackendFrameHeaderSize_def)
  then have n': "?n = of_nat (kBackendFrameHeaderSize + length (payload f))"
    by (simp flip: n)
  have max: "length (payload f) + kBackendFrameHeaderSize \<le> 2 ^ 20"
    using len(4) by (simp only: word_less_nat_alt n max_packet_nat not_less add.commute)
  have hd: "take 4 d = be32 ?n"
  proof -
    obtain a b c e r where "d = a # b # c # e # r"
      using len(1) by (auto simp: eval_nat_numeral Suc_le_length_iff)
    then show ?thesis by (simp add: codec_simps)
  qed
  have "take (unat ?n) d = take 4 d @ take (unat ?n - 4) (drop 4 d)"
    using len(2) by (simp flip: take_add)
  also have "\<dots> = frame_bytes (cmd f) (msgId f) (serial f) (sessionId f) (payload f)"
    by (simp only: hd split frame_bytes_def n' [symmetric])
  finally have "take (unat ?n) d = frame_bytes (cmd f) (msgId f) (serial f) (sessionId f) (payload f)" .
  moreover have "frame_fits (payload f)" using max by (simp add: frame_fits_def)
  ultimately show ?thesis
    using max by (simp only: encodeBackendFrame_bytes n)
qed

theorem decode_inverse_witness:
  "length ([5] :: bytes) + kBackendFrameHeaderSize \<le> 2 ^ 20 \<and>
   take (kBackendFrameHeaderSize + 1) (encodeBackendFrame 101 901 (- 7) 42 [5] @ [9])
     = encodeBackendFrame 101 901 (- 7) 42 [5]"
proof -
  have "decodeBackendFrame (encodeBackendFrame 101 901 (- 7) 42 [5] @ [9])
     = Inr \<lparr>cmd = 101, msgId = 901, serial = - 7, sessionId = 42, payload = [5]\<rparr>"
    by code_simp
  from decode_inverse [OF this] show ?thesis by simp
qed

end
