(* ===== verification/Float32.thy ===== *)
theory Float32
  imports Prelude
begin

section \<open>Single-precision floats\<close>

text \<open>
  The C++ \<open>float\<close> values the server computes with: request timeouts, the load-report timer,
  the tick length, the elapsed time of a room. A finite IEEE-754 binary32 value is an integer
  multiple of \<open>2 ^ -149\<close>; \<open>Fin n\<close> stands for \<open>n * 2 ^ -149\<close>. Every operation computes
  the exact result and rounds it to 24 significant bits, ties to even, overflow to
  infinity. The sign of a zero is not recorded: no operation of the server observes it.
\<close>

datatype f32 = Fin int | PInf | NInf | FNaN

subsection \<open>Rounding\<close>

text \<open>Bits of a natural number.\<close>

fun bitlen :: "nat \<Rightarrow> nat" where
  "bitlen n = (if n = 0 then 0 else Suc (bitlen (n div 2)))"

declare bitlen.simps [simp del]

text \<open>\<open>rne p q\<close> is the integer nearest to \<open>p / q\<close>, ties to the even one.\<close>

definition rne :: "nat \<Rightarrow> nat \<Rightarrow> nat" where
  "rne p q = (let k = p div q; r = p mod q
     in if q < 2 * r \<or> (2 * r = q \<and> odd k) then Suc k else k)"

text \<open>The rational \<open>p / q\<close> (in units of \<open>2 ^ -149\<close>) rounded to 24 bits.\<close>

definition round_mag :: "nat \<Rightarrow> nat \<Rightarrow> nat" where
  "round_mag p q = (let s = bitlen (p div q) - 24 in rne p (q * 2 ^ s) * 2 ^ s)"

definition f32_max_unit :: nat where
  "f32_max_unit = 2 ^ 277"

definition f32_round :: "int \<Rightarrow> nat \<Rightarrow> f32" where
  "f32_round p q = (let m = round_mag (nat \<bar>p\<bar>) q
     in if m \<ge> f32_max_unit then (if p < 0 then NInf else PInf) else Fin (sgn p * int m))"

subsection \<open>Operations\<close>

definition f32_unit :: int where "f32_unit = 2 ^ 149"

abbreviation f32_zero :: f32 where "f32_zero \<equiv> Fin 0"

definition f32_of_int :: "int \<Rightarrow> f32" where
  "f32_of_int n = f32_round (n * f32_unit) 1"

fun f32_neg :: "f32 \<Rightarrow> f32" where
  "f32_neg (Fin a) = Fin (- a)"
| "f32_neg PInf = NInf"
| "f32_neg NInf = PInf"
| "f32_neg FNaN = FNaN"

fun f32_add :: "f32 \<Rightarrow> f32 \<Rightarrow> f32" where
  "f32_add (Fin a) (Fin b) = f32_round (a + b) 1"
| "f32_add FNaN _ = FNaN"
| "f32_add _ FNaN = FNaN"
| "f32_add PInf NInf = FNaN"
| "f32_add NInf PInf = FNaN"
| "f32_add PInf _ = PInf"
| "f32_add NInf _ = NInf"
| "f32_add (Fin _) y = y"

definition f32_sub :: "f32 \<Rightarrow> f32 \<Rightarrow> f32" where
  "f32_sub x y = f32_add x (f32_neg y)"

definition f32_of_sign :: "int \<Rightarrow> f32" where
  "f32_of_sign a = (if a > 0 then PInf else if a < 0 then NInf else FNaN)"

fun f32_mul :: "f32 \<Rightarrow> f32 \<Rightarrow> f32" where
  "f32_mul (Fin a) (Fin b) = f32_round (a * b) (nat f32_unit)"
| "f32_mul FNaN _ = FNaN"
| "f32_mul _ FNaN = FNaN"
| "f32_mul PInf (Fin b) = f32_of_sign b"
| "f32_mul NInf (Fin b) = f32_of_sign (- b)"
| "f32_mul (Fin a) PInf = f32_of_sign a"
| "f32_mul (Fin a) NInf = f32_of_sign (- a)"
| "f32_mul PInf PInf = PInf"
| "f32_mul NInf NInf = PInf"
| "f32_mul PInf NInf = NInf"
| "f32_mul NInf PInf = NInf"

fun f32_div :: "f32 \<Rightarrow> f32 \<Rightarrow> f32" where
  "f32_div (Fin a) (Fin b) =
     (if b = 0 then f32_of_sign a else f32_round (sgn b * a * f32_unit) (nat \<bar>b\<bar>))"
| "f32_div FNaN _ = FNaN"
| "f32_div _ FNaN = FNaN"
| "f32_div PInf (Fin b) = (if b < 0 then NInf else PInf)"
| "f32_div NInf (Fin b) = (if b < 0 then PInf else NInf)"
| "f32_div (Fin _) _ = f32_zero"
| "f32_div _ _ = FNaN"

fun f32_le :: "f32 \<Rightarrow> f32 \<Rightarrow> bool" where
  "f32_le (Fin a) (Fin b) = (a \<le> b)"
| "f32_le FNaN _ = False"
| "f32_le _ FNaN = False"
| "f32_le NInf _ = True"
| "f32_le _ PInf = True"
| "f32_le _ _ = False"

text \<open>Conversion to an unsigned 64-bit integer truncates; out of range it is undefined.\<close>

fun f32_to_u64 :: "f32 \<Rightarrow> u64 option" where
  "f32_to_u64 (Fin a) =
     (let t = sgn a * (\<bar>a\<bar> div f32_unit)
      in if 0 \<le> t \<and> t < 2 ^ 64 then Some (of_int t) else None)"
| "f32_to_u64 _ = None"

subsection \<open>Facts about rounding\<close>

lemma bitlen_0 [simp]: "bitlen 0 = 0"
  by (simp add: bitlen.simps)

lemma bitlen_bounds: "0 < n \<Longrightarrow> 2 ^ (bitlen n - 1) \<le> n \<and> n < 2 ^ bitlen n \<and> 0 < bitlen n"
proof (induction n rule: bitlen.induct)
  case (1 n)
  show ?case
  proof (cases "n div 2 = 0")
    case True
    with "1.prems" have "n = 1" by auto
    then show ?thesis by (simp add: bitlen.simps)
  next
    case False
    then have IH: "2 ^ (bitlen (n div 2) - 1) \<le> n div 2" "n div 2 < 2 ^ bitlen (n div 2)"
      "0 < bitlen (n div 2)"
      using 1 by auto
    have b: "bitlen n = Suc (bitlen (n div 2))" using "1.prems" by (subst bitlen.simps) simp
    have p: "(2::nat) ^ bitlen (n div 2) = 2 * 2 ^ (bitlen (n div 2) - 1)"
      using IH(3) by (simp flip: power_Suc)
    have "2 * 2 ^ (bitlen (n div 2) - 1) \<le> n" and "n < 2 * 2 ^ bitlen (n div 2)"
      using IH(1,2) by arith+
    then show ?thesis unfolding b by (simp add: p)
  qed
qed

lemma bitlen_mono: assumes "m \<le> n" shows "bitlen m \<le> bitlen n"
proof (rule ccontr)
  assume less: "\<not> bitlen m \<le> bitlen n"
  then have "0 < m" by (cases "m = 0") auto
  have "2 ^ bitlen n \<le> (2::nat) ^ (bitlen m - 1)" using less by (intro power_increasing) auto
  also have "\<dots> \<le> n" using bitlen_bounds [OF \<open>0 < m\<close>] assms by linarith
  finally have "2 ^ bitlen n \<le> n" .
  moreover have "n < 2 ^ bitlen n" using bitlen_bounds [of n] by (cases "n = 0") auto
  ultimately show False by simp
qed

lemma bitlen_le: assumes "n < 2 ^ k" shows "bitlen n \<le> k"
proof (cases "n = 0")
  case False
  then have "(2::nat) ^ (bitlen n - 1) < 2 ^ k" using bitlen_bounds [of n] assms by linarith
  then show ?thesis by (simp add: power_strict_increasing_iff)
qed simp

lemma rne_exact [simp]: "0 < q \<Longrightarrow> rne (k * q) q = k"
  by (simp add: rne_def)

lemma rne_cases:
  assumes "0 < q"
  obtains k r where "p = k * q + r" and "r < q" and "rne p q = k" and "2 * r \<le> q"
    | k r where "p = k * q + r" and "r < q" and "rne p q = Suc k" and "q \<le> 2 * r"
proof -
  have p: "p = p div q * q + p mod q" and r: "p mod q < q" using assms by simp_all
  show thesis
  proof (cases "q < 2 * (p mod q) \<or> (2 * (p mod q) = q \<and> odd (p div q))")
    case True
    then have "rne p q = Suc (p div q)" by (simp add: rne_def Let_def)
    with True show thesis using that(2) [OF p r] by auto
  next
    case False
    then have "rne p q = p div q" by (auto simp: rne_def Let_def)
    with False show thesis using that(1) [OF p r] by auto
  qed
qed

lemma rne_bounds:
  assumes "0 < q"
  shows "2 * (rne p q * q) \<le> 2 * p + q" and "2 * p \<le> 2 * (rne p q * q) + q"
  by (rule rne_cases [OF assms, of p]; simp)+

lemma rne_mono:
  assumes "0 < q" and "p \<le> p'"
  shows "rne p q \<le> rne p' q"
proof (cases "p div q = p' div q")
  case True
  have "p mod q \<le> p' mod q"
    using assms(2) True by (metis add_le_cancel_left div_mult_mod_eq)
  with True show ?thesis by (auto simp: rne_def Let_def)
next
  case False
  have "p div q \<le> p' div q" using assms(2) by (rule div_le_mono)
  with False have "Suc (p div q) \<le> p' div q" by simp
  moreover have "rne p q \<le> Suc (p div q)" and "p' div q \<le> rne p' q"
    by (auto simp: rne_def Let_def)
  ultimately show ?thesis by linarith
qed

text \<open>Rounding an integer number of units: exact up to 24 bits, otherwise off by at most
  one part in \<open>2 ^ 24\<close>, and monotone.\<close>

lemma round_mag_1: "round_mag p (Suc 0) = rne p (2 ^ (bitlen p - 24)) * 2 ^ (bitlen p - 24)"
  by (simp add: round_mag_def Let_def)

lemma round_mag_small:
  assumes "p < 2 ^ 24" shows "round_mag p (Suc 0) = p"
proof -
  have "bitlen p - 24 = 0" using bitlen_le [OF assms] by simp
  then show ?thesis using rne_exact [of "Suc 0" p] by (simp add: round_mag_1)
qed

lemma round_mag_large:
  assumes "24 \<le> bitlen p"
  shows "2 ^ 23 * 2 ^ (bitlen p - 24) \<le> p" and "p < 2 ^ 24 * 2 ^ (bitlen p - 24)"
proof -
  have "0 < p" using assms by (cases "p = 0") auto
  have "bitlen p - 1 = 23 + (bitlen p - 24)" and "bitlen p = 24 + (bitlen p - 24)"
    using assms by simp_all
  with bitlen_bounds [OF \<open>0 < p\<close>]
  show "2 ^ 23 * 2 ^ (bitlen p - 24) \<le> p" and "p < 2 ^ 24 * 2 ^ (bitlen p - 24)"
    by (metis power_add)+
qed

lemma round_mag_err:
  "2 ^ 24 * round_mag p (Suc 0) \<le> (2 ^ 24 + 1) * p \<and> 2 ^ 24 * p \<le> 2 ^ 24 * round_mag p (Suc 0) + p"
proof (cases "bitlen p < 24")
  case True
  then have "bitlen p - 24 = 0" by simp
  then have "round_mag p (Suc 0) = p" using rne_exact [of "Suc 0" p] by (simp add: round_mag_1)
  then show ?thesis by simp
next
  case False
  let ?Q = "2 ^ (bitlen p - 24) :: nat"
  have "2 ^ 23 * ?Q \<le> p" using False by (intro round_mag_large) simp
  then show ?thesis
    using rne_bounds [of ?Q p] unfolding round_mag_1 by simp
qed

lemmas round_mag_upper = round_mag_err [THEN conjunct1]
lemmas round_mag_lower = round_mag_err [THEN conjunct2]

lemma round_mag_mono:
  assumes "p \<le> p'" shows "round_mag p (Suc 0) \<le> round_mag p' (Suc 0)"
proof (cases "bitlen p - 24 = bitlen p' - 24")
  case True
  then show ?thesis using rne_mono [OF _ assms, of "2 ^ (bitlen p - 24)"] by (simp add: round_mag_1)
next
  case False
  let ?Q = "2 ^ (bitlen p - 24) :: nat" and ?Q' = "2 ^ (bitlen p' - 24) :: nat"
  have lt: "bitlen p - 24 < bitlen p' - 24" using bitlen_mono [OF assms] False by simp
  have "p < 2 ^ 24 * ?Q"
  proof (cases "24 \<le> bitlen p")
    case True then show ?thesis by (rule round_mag_large(2))
  next
    case False
    then have "(2::nat) ^ bitlen p \<le> 2 ^ 24" by (intro power_increasing) auto
    moreover have "p < 2 ^ bitlen p" using bitlen_bounds [of p] by (cases "p = 0") auto
    ultimately have "p < 2 ^ 24" by linarith
    then show ?thesis by (rule less_le_trans) simp
  qed
  then have "rne p ?Q \<le> rne (2 ^ 24 * ?Q) ?Q" by (intro rne_mono) auto
  then have "round_mag p (Suc 0) \<le> 2 ^ 24 * ?Q" by (simp add: round_mag_1)
  also have "\<dots> \<le> 2 ^ 23 * ?Q'"
  proof -
    have "2 ^ 24 * ?Q = 2 ^ 23 * 2 ^ Suc (bitlen p - 24)" by simp
    also have "\<dots> \<le> 2 ^ 23 * ?Q'" using lt by (intro mult_le_mono2 power_increasing) auto
    finally show ?thesis .
  qed
  also have "2 ^ 23 * ?Q' \<le> round_mag p' (Suc 0)"
  proof -
    have "rne (2 ^ 23 * ?Q') ?Q' \<le> rne p' ?Q'"
      using lt by (intro rne_mono round_mag_large) auto
    then show ?thesis by (simp add: round_mag_1)
  qed
  finally show ?thesis .
qed

lemma round_mag_pos: "0 < p \<Longrightarrow> 0 < round_mag p (Suc 0)"
  using round_mag_lower [of p] by (cases "round_mag p (Suc 0)") auto

lemma round_mag_0 [simp]: "round_mag 0 (Suc 0) = 0"
  using round_mag_small [of 0] by simp

lemma f32_round_Fin:
  assumes "\<bar>p\<bar> < 2 ^ 276"
  shows "f32_round p (Suc 0) = Fin (sgn p * int (round_mag (nat \<bar>p\<bar>) (Suc 0)))"
proof -
  have "nat \<bar>p\<bar> < 2 ^ 276" using assms by (simp add: nat_less_iff)
  then have "round_mag (nat \<bar>p\<bar>) (Suc 0) < f32_max_unit"
    using round_mag_upper [of "nat \<bar>p\<bar>"] by (simp add: f32_max_unit_def)
  then show ?thesis by (simp add: f32_round_def Let_def)
qed

lemma f32_round_pos: "0 < p \<Longrightarrow> \<not> f32_le (f32_round p (Suc 0)) f32_zero"
  using round_mag_pos [of "nat p"] by (simp add: f32_round_def Let_def)

lemma f32_round_nonpos: "p \<le> 0 \<Longrightarrow> f32_le (f32_round p (Suc 0)) f32_zero"
  by (cases "p = 0") (simp_all add: f32_round_def Let_def f32_max_unit_def)

text \<open>A difference compares with zero as the exact difference does (gradual underflow).\<close>

lemma f32_sub_le_zero_iff: "f32_le (f32_sub (Fin a) (Fin b)) f32_zero \<longleftrightarrow> a \<le> b"
  using f32_round_pos [of "a - b"] f32_round_nonpos [of "a - b"]
  by (cases "a \<le> b") (simp_all add: f32_sub_def)

text \<open>Subtracting an amount that is not negligible beside the minuend takes off at least
  half of it, rounding included.\<close>

lemma f32_sub_progress:
  assumes "0 < d" and "d < t" and "t \<le> 2 ^ 23 * d" and "t < 2 ^ 276"
  obtains t' where "f32_sub (Fin t) (Fin d) = Fin t'" and "0 < t'" and "2 * t' \<le> 2 * t - d"
proof -
  let ?p = "nat (t - d)"
  have p: "0 < ?p" "int ?p = t - d" using assms by simp_all
  have sub: "f32_sub (Fin t) (Fin d) = Fin (int (round_mag ?p (Suc 0)))"
    using assms by (simp add: f32_sub_def f32_round_Fin)
  have "2 ^ 24 * int (round_mag ?p (Suc 0)) \<le> (2 ^ 24 + 1) * (t - d)"
  proof -
    have "int (2 ^ 24 * round_mag ?p (Suc 0)) \<le> int ((2 ^ 24 + 1) * ?p)"
      using round_mag_upper [of ?p] by (rule of_nat_mono)
    then show ?thesis using p(2) by simp
  qed
  then have "2 * int (round_mag ?p (Suc 0)) \<le> 2 * t - d" using assms by simp
  moreover have "0 < int (round_mag ?p (Suc 0))" using round_mag_pos [OF p(1)] by simp
  ultimately show thesis using that sub by blast
qed

text \<open>Values of at most 24 significant bits are exact: in particular the integers up to
  \<open>2 ^ 24\<close>, and sums and differences of such integers.\<close>

lemma round_mag_exact:
  assumes "k < 2 ^ 24" shows "round_mag (k * 2 ^ j) (Suc 0) = k * 2 ^ j"
proof -
  let ?s = "bitlen (k * 2 ^ j) - 24"
  have "k * 2 ^ j < 2 ^ (24 + j)" using assms by (simp add: power_add)
  then have "?s \<le> j" using bitlen_le by fastforce
  then have "k * 2 ^ j = (k * 2 ^ (j - ?s)) * 2 ^ ?s" by (simp flip: power_add)
  then have "rne (k * 2 ^ j) (2 ^ ?s) = k * 2 ^ (j - ?s)"
    by (metis rne_exact zero_less_numeral zero_less_power)
  with \<open>?s \<le> j\<close> show ?thesis by (simp add: round_mag_1 flip: power_add)
qed

lemma round_mag_idem: "round_mag (round_mag p (Suc 0)) (Suc 0) = round_mag p (Suc 0)"
proof -
  let ?s = "bitlen p - 24" and ?k = "rne p (2 ^ (bitlen p - 24))"
  have "p < 2 ^ 24 * 2 ^ ?s"
  proof (cases "24 \<le> bitlen p")
    case True
    then show ?thesis by (rule round_mag_large(2))
  next
    case False
    then have "(2::nat) ^ bitlen p \<le> 2 ^ 24" by (intro power_increasing) auto
    moreover have "p < 2 ^ bitlen p" using bitlen_bounds [of p] by (cases "p = 0") auto
    ultimately show ?thesis using False by simp
  qed
  then have "?k \<le> rne (2 ^ 24 * 2 ^ ?s) (2 ^ ?s)" by (intro rne_mono) auto
  then have "?k \<le> 2 ^ 24" by simp
  then consider "?k < 2 ^ 24" | "?k = 2 ^ 24" by linarith
  then show ?thesis
  proof cases
    case 1
    then show ?thesis by (simp only: round_mag_1 [of p] round_mag_exact)
  next
    case 2
    then have "round_mag p (Suc 0) = 2 ^ 23 * 2 ^ Suc ?s" by (simp add: round_mag_1)
    then show ?thesis using round_mag_exact [of "2 ^ 23" "Suc ?s"] by simp
  qed
qed

lemma round_mag_quotient_pos:
  assumes "0 < q" and "q \<le> p" shows "0 < round_mag p q"
proof -
  let ?s = "bitlen (p div q) - 24"
  have pos: "0 < p div q" using assms by (simp add: div_greater_zero_iff)
  have "2 ^ ?s \<le> (2::nat) ^ (bitlen (p div q) - 1)" by (intro power_increasing) auto
  also have "\<dots> \<le> p div q" using bitlen_bounds [OF pos] by blast
  finally have "0 < p div (q * 2 ^ ?s)" by (simp add: div_mult2_eq div_greater_zero_iff)
  then have "0 < rne p (q * 2 ^ ?s)" by (simp add: rne_def Let_def)
  then show ?thesis by (simp add: round_mag_def Let_def)
qed

lemma f32_round_scale:
  assumes "0 < q" shows "f32_round (p * int q) q = f32_round p (Suc 0)"
proof -
  have rne: "rne (k * q) (q * m) = rne k m" for k m
    using assms by (simp add: rne_def Let_def mult.commute [of k q] mult_mod_right [symmetric])
  have "nat \<bar>p * int q\<bar> = nat \<bar>p\<bar> * q" by (simp add: abs_mult nat_mult_distrib)
  then have "round_mag (nat \<bar>p * int q\<bar>) q = round_mag (nat \<bar>p\<bar>) (Suc 0)"
    using assms by (simp add: round_mag_def Let_def rne)
  moreover have "sgn (p * int q) = sgn p" "p * int q < 0 \<longleftrightarrow> p < 0"
    using assms by (simp_all add: sgn_mult mult_less_0_iff)
  ultimately show ?thesis by (simp only: f32_round_def)
qed

text \<open>Rounding does not exceed a representable bound of the exact value.\<close>

lemma round_mag_le:
  assumes "0 < q" and "p \<le> c * 2 ^ j * q" and "c < 2 ^ 24"
  shows "round_mag p q \<le> c * 2 ^ j"
proof -
  let ?s = "bitlen (p div q) - 24"
  have "p div q \<le> c * 2 ^ j" using div_le_mono [OF assms(2), of q] assms(1) by simp
  also have "\<dots> < 2 ^ (24 + j)" using assms(3) by (simp add: power_add)
  finally have "?s \<le> j" using bitlen_le by fastforce
  then have bound: "c * 2 ^ j = c * 2 ^ (j - ?s) * 2 ^ ?s" by (simp flip: power_add)
  have "rne p (q * 2 ^ ?s) \<le> rne (c * 2 ^ (j - ?s) * (q * 2 ^ ?s)) (q * 2 ^ ?s)"
    using assms(1,2) bound by (intro rne_mono) (simp_all add: ac_simps)
  also have "\<dots> = c * 2 ^ (j - ?s)" using assms(1) by (intro rne_exact) simp
  finally show ?thesis by (simp add: round_mag_def Let_def bound)
qed

lemma f32_round_le:
  assumes "0 < q" and "0 \<le> p" and "nat p \<le> c * 2 ^ j * q" and "c < 2 ^ 24" and "j \<le> 252"
  obtains v where "f32_round p q = Fin v" and "0 \<le> v" and "v \<le> int (c * 2 ^ j)"
proof -
  have le: "round_mag (nat p) q \<le> c * 2 ^ j" by (rule round_mag_le [OF assms(1,3,4)])
  also have "\<dots> < 2 ^ 24 * 2 ^ 252" using assms(4,5) by (intro mult_less_le_imp_less power_increasing) auto
  finally have "round_mag (nat p) q < f32_max_unit" by (simp add: f32_max_unit_def)
  then have r: "f32_round p q = Fin (sgn p * int (round_mag (nat p) q))"
    using assms(2) by (simp add: f32_round_def Let_def)
  have "sgn p * int (round_mag (nat p) q) \<le> int (c * 2 ^ j)"
    using le [THEN zle_int [THEN iffD2]] assms(2) by (cases "p = 0") (simp_all add: sgn_if)
  moreover have "0 \<le> sgn p * int (round_mag (nat p) q)" using assms(2) by (simp add: sgn_if)
  ultimately show thesis using r by (intro that)
qed

text \<open>At \<open>2 ^ (24 + j)\<close> half of the spacing of the values above is \<open>2 ^ j\<close>: adding less is lost.\<close>

lemma bitlen_eq: "2 ^ k \<le> n \<Longrightarrow> n < 2 ^ Suc k \<Longrightarrow> bitlen n = Suc k"
proof (rule antisym)
  assume n: "2 ^ k \<le> n" "n < 2 ^ Suc k"
  show "bitlen n \<le> Suc k" by (rule bitlen_le [OF n(2)])
  have "0 < n" by (rule less_le_trans [OF _ n(1)]) simp
  with bitlen_bounds [of n] n(1) have "(2::nat) ^ k < 2 ^ bitlen n" by linarith
  then show "Suc k \<le> bitlen n" by (simp add: power_strict_increasing_iff Suc_leI)
qed

lemma round_mag_stall: "round_mag (2 ^ (24 + j) + 2 ^ j) (Suc 0) = 2 ^ (24 + j)"
proof -
  have "bitlen (2 ^ (24 + j) + 2 ^ j) = Suc (24 + j)" by (rule bitlen_eq) (simp_all add: power_add)
  then have "round_mag (2 ^ (24 + j) + 2 ^ j) (Suc 0) = rne (2 ^ 23 * 2 ^ Suc j + 2 ^ j) (2 ^ Suc j) * 2 ^ Suc j"
    by (simp add: round_mag_1 power_add)
  moreover have "rne (2 ^ 23 * 2 ^ Suc j + 2 ^ j) (2 ^ Suc j) = 2 ^ 23" by (simp add: rne_def Let_def)
  ultimately show ?thesis by (simp add: power_add)
qed

lemma f32_add_stall:
  assumes "0 \<le> a" and "a \<le> 2 ^ (24 + j)" and "0 \<le> b" and "b \<le> 2 ^ j" and "j \<le> 251"
  obtains v where "f32_add (Fin a) (Fin b) = Fin v" and "0 \<le> v" and "v \<le> 2 ^ (24 + j)"
proof -
  have "nat (a + b) \<le> 2 ^ (24 + j) + 2 ^ j"
    using assms by (simp add: nat_le_iff)
  then have "round_mag (nat (a + b)) (Suc 0) \<le> 2 ^ (24 + j)"
    using round_mag_mono round_mag_stall by metis
  then have "int (round_mag (nat (a + b)) (Suc 0)) \<le> int (2 ^ (24 + j))" by (simp only: of_nat_le_iff)
  then have le: "int (round_mag (nat (a + b)) (Suc 0)) \<le> 2 ^ (24 + j)" by simp
  have "(2::int) ^ (24 + j) \<le> 2 ^ 275" and "(2::int) ^ j \<le> 2 ^ 251"
    by (rule power_increasing, use assms(5) in linarith, simp)+
  then have "a + b \<le> 2 ^ 275 + 2 ^ 251" using assms(2,4) by linarith
  then have "f32_add (Fin a) (Fin b) = Fin (int (round_mag (nat (a + b)) (Suc 0)))"
    using assms(1,3) f32_round_Fin [of "a + b"] by (cases "a + b = 0") (simp_all add: sgn_if)
  then show thesis by (rule that [OF _ of_nat_0_le_iff le])
qed

lemma f32_round_units:
  assumes "\<bar>n\<bar> < 2 ^ 24"
  shows "f32_round (n * f32_unit) (Suc 0) = Fin (n * f32_unit)"
proof -
  have "nat \<bar>n * f32_unit\<bar> = nat \<bar>n\<bar> * 2 ^ 149" by (simp add: f32_unit_def abs_mult nat_mult_distrib)
  moreover have "nat \<bar>n\<bar> < 2 ^ 24" using assms by (simp add: nat_less_iff)
  moreover have "\<bar>n * f32_unit\<bar> < 2 ^ 276" using assms by (simp add: f32_unit_def abs_mult)
  ultimately show ?thesis
    by (simp only: f32_round_Fin round_mag_exact)
       (simp add: f32_unit_def sgn_mult abs_mult_sgn flip: mult.assoc, simp add: mult.commute abs_mult_sgn)
qed

lemma f32_of_int_small: "\<bar>n\<bar> < 2 ^ 24 \<Longrightarrow> f32_of_int n = Fin (n * f32_unit)"
  by (simp add: f32_of_int_def f32_round_units)

lemma f32_add_units:
  "\<bar>a + b\<bar> < 2 ^ 24 \<Longrightarrow> f32_add (Fin (a * f32_unit)) (Fin (b * f32_unit)) = Fin ((a + b) * f32_unit)"
  using f32_round_units [of "a + b"] by (simp add: algebra_simps)

lemma f32_sub_units:
  "\<bar>a - b\<bar> < 2 ^ 24 \<Longrightarrow> f32_sub (Fin (a * f32_unit)) (Fin (b * f32_unit)) = Fin ((a - b) * f32_unit)"
  using f32_round_units [of "a - b"] by (simp add: f32_sub_def algebra_simps)

lemma f32_le_units: "f32_le (Fin (a * f32_unit)) f32_zero \<longleftrightarrow> a \<le> 0"
  by (simp add: f32_unit_def mult_le_0_iff)

lemmas f32_units = f32_of_int_small f32_add_units f32_sub_units f32_le_units

end
