(* ===== verification/RpcManager.thy ===== *)
theory RpcManager
  imports Codec Float32
begin

section \<open>The RPC manager\<close>

text \<open>
  \<open>battle/src/framework/RpcManager.cpp\<close>: request ids, the table of pending requests, their
  resolution by a response frame, by timeout and by failure. A callback is a value \<open>'cb\<close>;
  every operation that calls callbacks does so after its last change to the table, so the
  calls are returned as a list, in call order, with the arguments they receive.
  \<open>++m_nextRequestId\<close> at \<open>INT32_MAX\<close> is undefined in C++; the model wraps it, which is
  what the test \<open>m_nextRequestId <= 0\<close> after it expects.
\<close>

record 'cb PendingRequest =
  callback :: 'cb
  timeout :: f32

record 'cb RpcManager =
  m_nextRequestId :: i32
  m_pending :: "(i32, 'cb PendingRequest) umap"

datatype 'cb rpc_call = Call (call_cb: 'cb) (call_frame: "BackendFrame option") (call_error: string)

definition init_rpc :: "'cb RpcManager" where
  "init_rpc = \<lparr>m_nextRequestId = 1, m_pending = []\<rparr>"

definition nextRequestId :: "'cb RpcManager \<Rightarrow> i32 \<times> 'cb RpcManager" where
  "nextRequestId m =
     (let requestId = m_nextRequestId m;
          n = requestId + 1;
          n = (if sint n \<le> 0 then 1 else n)
      in (requestId, m\<lparr>m_nextRequestId := n\<rparr>))"

definition addPending :: "i32 \<Rightarrow> 'cb option \<Rightarrow> f32 \<Rightarrow> 'cb RpcManager \<Rightarrow> 'cb RpcManager" where
  "addPending requestId cb timeoutSeconds m =
     (case cb of None \<Rightarrow> m
      | Some c \<Rightarrow> m\<lparr>m_pending := umap_assign requestId \<lparr>callback = c, timeout = timeoutSeconds\<rparr>
                                   (m_pending m)\<rparr>)"

definition resolve :: "BackendFrame \<Rightarrow> 'cb RpcManager \<Rightarrow> bool \<times> 'cb rpc_call list \<times> 'cb RpcManager" where
  "resolve fr m =
     (if sint (serial fr) \<le> 0 then (False, [], m)
      else case umap_find (m_pending m) (serial fr) of
        None \<Rightarrow> (False, [], m)
      | Some req \<Rightarrow> (True, [Call (callback req) (Some fr) ''''],
                     m\<lparr>m_pending := umap_erase (serial fr) (m_pending m)\<rparr>))"

definition remove :: "i32 \<Rightarrow> 'cb RpcManager \<Rightarrow> 'cb RpcManager" where
  "remove requestId m = m\<lparr>m_pending := umap_erase requestId (m_pending m)\<rparr>"

fun update_loop :: "f32 \<Rightarrow> (i32, 'cb PendingRequest) umap \<Rightarrow>
    'cb list \<times> (i32, 'cb PendingRequest) umap" where
  "update_loop dt [] = ([], [])"
| "update_loop dt ((k, req) # it) =
     (let req = req\<lparr>timeout := f32_sub (timeout req) dt\<rparr>;
          (callbacks, rest) = update_loop dt it
      in if f32_le (timeout req) f32_zero then (callback req # callbacks, rest)
         else (callbacks, (k, req) # rest))"

definition update :: "f32 \<Rightarrow> 'cb RpcManager \<Rightarrow> 'cb rpc_call list \<times> 'cb RpcManager" where
  "update dt m =
     (if m_pending m = [] then ([], m)
      else let (callbacks, pending) = update_loop dt (m_pending m)
        in (map (\<lambda>cb. Call cb None ''request timeout'') callbacks, m\<lparr>m_pending := pending\<rparr>))"

definition failAll :: "string \<Rightarrow> 'cb RpcManager \<Rightarrow> 'cb rpc_call list \<times> 'cb RpcManager" where
  "failAll err m =
     (map (\<lambda>(_, req). Call (callback req) None err) (m_pending m), m\<lparr>m_pending := []\<rparr>)"

subsection \<open>Basic facts\<close>

abbreviation pending_ids :: "'cb RpcManager \<Rightarrow> i32 set" where
  "pending_ids m \<equiv> fst ` set (m_pending m)"

abbreviation pending_cbs :: "'cb RpcManager \<Rightarrow> 'cb multiset" where
  "pending_cbs m \<equiv> mset (map (\<lambda>p. callback (snd p)) (m_pending m))"

definition rpc_ok :: "'cb RpcManager \<Rightarrow> bool" where
  "rpc_ok m \<longleftrightarrow> umap_ok (m_pending m) \<and> 0 < sint (m_nextRequestId m)"

text \<open>The aged request of an entry and whether it has expired.\<close>

definition aged :: "f32 \<Rightarrow> 'cb PendingRequest \<Rightarrow> 'cb PendingRequest" where
  "aged dt req = req\<lparr>timeout := f32_sub (timeout req) dt\<rparr>"

definition expires :: "f32 \<Rightarrow> 'cb PendingRequest \<Rightarrow> bool" where
  "expires dt req \<longleftrightarrow> f32_le (f32_sub (timeout req) dt) f32_zero"

lemma callback_aged [simp]: "callback (aged dt req) = callback req"
  by (simp add: aged_def)

lemma update_loop_eq:
  "update_loop dt ps =
     (map (\<lambda>p. callback (snd p)) (filter (\<lambda>p. expires dt (snd p)) ps),
      map (\<lambda>p. (fst p, aged dt (snd p))) (filter (\<lambda>p. \<not> expires dt (snd p)) ps))"
  by (induction dt ps rule: update_loop.induct) (auto simp: Let_def expires_def aged_def)

lemma update_eq:
  "update dt m =
     (map (\<lambda>p. Call (callback (snd p)) None ''request timeout'') (filter (\<lambda>p. expires dt (snd p)) (m_pending m)),
      m\<lparr>m_pending := map (\<lambda>p. (fst p, aged dt (snd p))) (filter (\<lambda>p. \<not> expires dt (snd p)) (m_pending m))\<rparr>)"
  by (simp add: update_def update_loop_eq)

lemma update_pending_find:
  assumes "umap_ok (m_pending m)"
  shows "umap_find (m_pending (snd (update dt m))) k =
    (case umap_find (m_pending m) k of None \<Rightarrow> None
     | Some req \<Rightarrow> if expires dt req then None else Some (aged dt req))"
proof -
  have "umap_ok ps \<Longrightarrow> map_of (map (\<lambda>p. (fst p, aged dt (snd p))) (filter (\<lambda>p. \<not> expires dt (snd p)) ps)) k =
    (case map_of ps k of None \<Rightarrow> None | Some req \<Rightarrow> if expires dt req then None else Some (aged dt req))"
    for ps :: "(i32, 'a PendingRequest) umap"
    by (induction ps) (auto simp: map_of_eq_None_iff image_iff split: option.splits)
  with assms show ?thesis by (simp add: update_eq)
qed

subsection \<open>Request ids\<close>

lemma sint_succ:
  fixes w :: i32
  assumes "0 < sint w" and "sint w < 2 ^ 31 - 1"
  shows "sint (w + 1) = sint w + 1"
  using assms by (simp add: sint_word_ariths signed_take_bit_int_eq_self)

lemma sint_succ_max:
  fixes w :: i32
  assumes "sint w = 2 ^ 31 - 1"
  shows "sint (w + 1) = - (2 ^ 31)"
  using assms by (simp add: sint_word_ariths)

lemma sint_i32_le: "sint (w :: i32) \<le> 2 ^ 31 - 1"
  using sint_lt [of w] by simp

text \<open>The id counter runs through \<open>1, \<dots>, 2 ^ 31 - 1\<close> cyclically.\<close>

definition next_id :: "int \<Rightarrow> int" where
  "next_id i = (i mod (2 ^ 31 - 1)) + 1"

lemma nextRequestId_sint:
  assumes "0 < sint (m_nextRequestId m)"
  shows "fst (nextRequestId m) = m_nextRequestId m"
    and "sint (m_nextRequestId (snd (nextRequestId m))) = next_id (sint (m_nextRequestId m))"
proof -
  show "fst (nextRequestId m) = m_nextRequestId m" by (simp add: nextRequestId_def Let_def)
  show "sint (m_nextRequestId (snd (nextRequestId m))) = next_id (sint (m_nextRequestId m))"
  proof (cases "sint (m_nextRequestId m) = 2 ^ 31 - 1")
    case True
    then show ?thesis
      using sint_succ_max [OF True] by (simp add: nextRequestId_def Let_def next_id_def)
  next
    case False
    then have "sint (m_nextRequestId m) < 2 ^ 31 - 1"
      using sint_i32_le [of "m_nextRequestId m"] by simp
    then show ?thesis
      using sint_succ [OF assms] assms by (simp add: nextRequestId_def Let_def next_id_def)
  qed
qed

lemma next_id_pos [simp]: "0 < next_id i"
  by (simp add: next_id_def add_pos_nonneg)

lemma nextRequestId_pending [frame_simps]: "m_pending (snd (nextRequestId m)) = m_pending m"
  by (simp add: nextRequestId_def Let_def)

lemma rpc_ok_nextRequestId [inv_intros]: "rpc_ok m \<Longrightarrow> rpc_ok (snd (nextRequestId m))"
  by (simp add: rpc_ok_def nextRequestId_sint frame_simps)

text \<open>The ids \<open>n\<close> successive calls hand out.\<close>

fun request_ids :: "nat \<Rightarrow> 'cb RpcManager \<Rightarrow> i32 list" where
  "request_ids 0 m = []"
| "request_ids (Suc n) m = (let (i, m') = nextRequestId m in i # request_ids n m')"

lemma request_ids_sint:
  assumes "0 < sint (m_nextRequestId m)"
  shows "map sint (request_ids n m) =
    map (\<lambda>k. (sint (m_nextRequestId m) - 1 + int k) mod (2 ^ 31 - 1) + 1) [0..<n]"
  using assms
proof (induction n arbitrary: m)
  case 0
  then show ?case by simp
next
  case (Suc n)
  let ?m' = "snd (nextRequestId m)" and ?i = "sint (m_nextRequestId m)"
  note next' = nextRequestId_sint [OF Suc.prems]
  have IH: "map sint (request_ids n ?m') =
      map (\<lambda>k. (?i mod (2 ^ 31 - 1) + int k) mod (2 ^ 31 - 1) + 1) [0..<n]"
    using Suc.IH [of ?m'] by (simp add: next' next_id_def add_pos_nonneg)
  have first: "?i = (?i - 1) mod (2 ^ 31 - 1) + 1"
    using Suc.prems sint_i32_le [of "m_nextRequestId m"] by simp
  have "map sint (request_ids (Suc n) m) = ?i # map sint (request_ids n ?m')"
    by (simp add: next'(1) case_prod_beta)
  also have "\<dots> = map (\<lambda>k. (?i - 1 + int k) mod (2 ^ 31 - 1) + 1) (0 # map Suc [0..<n])"
    using first by (simp add: IH mod_add_left_eq mod_add_right_eq algebra_simps)
  finally show ?case by (simp only: map_Suc_upt upt_conv_Cons zero_less_Suc)
qed

text \<open>Request ids are positive, so a request's serial \<open>-id\<close> is negative and its
  response's serial positive, and no id is handed out twice within \<open>2 ^ 31 - 1\<close> successive
  requests.\<close>
theorem request_ids_distinct:
  assumes "0 < sint (m_nextRequestId m)" and "n \<le> 2 ^ 31 - 1"
  shows "distinct (request_ids n m) \<and> list_all (\<lambda>i. 0 < sint i) (request_ids n m)"
proof
  let ?f = "\<lambda>k. (sint (m_nextRequestId m) - 1 + int k) mod (2 ^ 31 - 1) + 1"
  have "inj_on ?f {0..<n}"
  proof (rule inj_onI)
    fix j k assume jk: "j \<in> {0..<n}" "k \<in> {0..<n}" "?f j = ?f k"
    then have "(int j - int k) mod (2 ^ 31 - 1) = 0"
      by (simp add: mod_eq_dvd_iff)
    moreover have "\<bar>int j - int k\<bar> < 2 ^ 31 - 1" using jk assms(2) by auto
    ultimately show "j = k"
      using zdvd_not_zless [of "\<bar>int j - int k\<bar>" "2 ^ 31 - 1"] by (auto simp: mod_eq_0_iff_dvd)
  qed
  then have "distinct (map sint (request_ids n m))"
    by (simp add: request_ids_sint [OF assms(1)] distinct_map)
  then show "distinct (request_ids n m)" by (simp add: distinct_map)
  have "list_all (\<lambda>i. 0 < i) (map sint (request_ids n m))"
    by (simp add: request_ids_sint [OF assms(1)] list_all_iff add_pos_nonneg)
  then show "list_all (\<lambda>i. 0 < sint i) (request_ids n m)" by (simp add: list_all_iff)
qed

theorem request_ids_distinct_witness:
  "distinct (request_ids 3 \<lparr>m_nextRequestId = 2147483646, m_pending = ([] :: (i32, nat PendingRequest) umap)\<rparr>)
   \<and> request_ids 3 \<lparr>m_nextRequestId = 2147483646, m_pending = ([] :: (i32, nat PendingRequest) umap)\<rparr>
     = [2147483646, 2147483647, 1]"
proof
  show "distinct (request_ids 3 \<lparr>m_nextRequestId = 2147483646, m_pending = ([] :: (i32, nat PendingRequest) umap)\<rparr>)"
    by (rule request_ids_distinct [THEN conjunct1]) simp_all
  show "request_ids 3 \<lparr>m_nextRequestId = 2147483646, m_pending = ([] :: (i32, nat PendingRequest) umap)\<rparr>
     = [2147483646, 2147483647, 1]"
    by code_simp
qed

subsection \<open>Resolution\<close>

lemma addPending_find:
  "umap_find (m_pending (addPending i (Some c) t m)) =
     (umap_find (m_pending m))(i \<mapsto> \<lparr>callback = c, timeout = t\<rparr>)"
  by (auto simp: addPending_def fun_eq_iff)

lemma rpc_ok_addPending [inv_intros]: "rpc_ok m \<Longrightarrow> rpc_ok (addPending i cb t m)"
  by (auto simp: rpc_ok_def addPending_def split: option.splits)

lemma rpc_ok_resolve [inv_intros]: "rpc_ok m \<Longrightarrow> rpc_ok (snd (snd (resolve fr m)))"
  by (auto simp: rpc_ok_def resolve_def split: option.splits)

lemma rpc_ok_remove [inv_intros]: "rpc_ok m \<Longrightarrow> rpc_ok (remove i m)"
  by (auto simp: rpc_ok_def remove_def)

lemma rpc_ok_update [inv_intros]:
  assumes "rpc_ok m" shows "rpc_ok (snd (update dt m))"
proof -
  have "umap_ok ps \<Longrightarrow> umap_ok (map (\<lambda>p. (fst p, aged dt (snd p))) (filter (\<lambda>p. \<not> expires dt (snd p)) ps))"
    for ps :: "(i32, 'a PendingRequest) umap"
    by (simp add: o_def distinct_map_filter)
  with assms show ?thesis by (simp add: rpc_ok_def update_eq)
qed

lemma rpc_ok_failAll [inv_intros]: "rpc_ok m \<Longrightarrow> rpc_ok (snd (failAll e m))"
  by (simp add: rpc_ok_def failAll_def)

lemma rpc_ok_init [inv_intros]: "rpc_ok init_rpc"
  by (simp add: rpc_ok_def init_rpc_def)

subsection \<open>Every callback is called exactly once\<close>

text \<open>
  The operations as the client issues them: \<open>RAdd\<close> takes a fresh id and registers the
  callback under it. Beside the calls, an execution returns the callbacks \<open>remove\<close> drops
  without calling.
\<close>

datatype 'cb rpc_op =
    RAdd 'cb f32
  | RResolve BackendFrame
  | RRemove i32
  | RUpdate f32
  | RFailAll string

definition dropped :: "i32 \<Rightarrow> 'cb RpcManager \<Rightarrow> 'cb list" where
  "dropped i m = (case umap_find (m_pending m) i of None \<Rightarrow> [] | Some req \<Rightarrow> [callback req])"

fun rpc_exec :: "'cb rpc_op \<Rightarrow> 'cb RpcManager \<Rightarrow> 'cb rpc_call list \<times> 'cb list \<times> 'cb RpcManager" where
  "rpc_exec (RAdd cb t) m = (let (i, m') = nextRequestId m in ([], [], addPending i (Some cb) t m'))"
| "rpc_exec (RResolve fr) m = (let (_, calls, m') = resolve fr m in (calls, [], m'))"
| "rpc_exec (RRemove i) m = ([], dropped i m, remove i m)"
| "rpc_exec (RUpdate dt) m = (let (calls, m') = update dt m in (calls, [], m'))"
| "rpc_exec (RFailAll e) m = (let (calls, m') = failAll e m in (calls, [], m'))"

fun rpc_run :: "'cb rpc_op list \<Rightarrow> 'cb RpcManager \<Rightarrow> 'cb rpc_call list \<times> 'cb list \<times> 'cb RpcManager" where
  "rpc_run [] m = ([], [], m)"
| "rpc_run (x # xs) m =
     (let (calls, drops, m') = rpc_exec x m; (calls', drops', m'') = rpc_run xs m'
      in (calls @ calls', drops @ drops', m''))"

fun added :: "'cb rpc_op list \<Rightarrow> 'cb list" where
  "added [] = []"
| "added (RAdd cb t # xs) = cb # added xs"
| "added (_ # xs) = added xs"

lemma pending_cbs_add:
  assumes "i \<notin> pending_ids m"
  shows "pending_cbs (addPending i (Some cb) t m) = add_mset cb (pending_cbs m)"
proof -
  have "i \<notin> fst ` set ps \<Longrightarrow> umap_assign i r ps = ps @ [(i, r)]" for ps :: "(i32, 'a PendingRequest) umap" and r
    by (induction ps) auto
  with assms show ?thesis by (simp add: addPending_def)
qed

lemma pending_cbs_erase:
  assumes "umap_ok (m_pending m)" and "umap_find (m_pending m) i = Some req"
  shows "pending_cbs m = add_mset (callback req)
    (pending_cbs (m\<lparr>m_pending := umap_erase i (m_pending m)\<rparr>))"
  using mset_umap_erase [OF assms] by simp

lemma pending_cbs_split:
  "image_mset f (mset ps) =
     image_mset f (mset (filter P ps)) + image_mset f (mset (filter (\<lambda>p. \<not> P p) ps))"
  by (induction ps) auto

lemma rpc_exec_account:
  assumes "rpc_ok m" and "\<And>cb t. x = RAdd cb t \<Longrightarrow> m_nextRequestId m \<notin> pending_ids m"
    and "rpc_exec x m = (calls, drops, m')"
  shows "rpc_ok m' \<and> mset (added [x]) + pending_cbs m
    = mset (map call_cb calls) + mset drops + pending_cbs m'"
proof (cases x)
  case (RAdd cb t)
  let ?m = "snd (nextRequestId m)"
  have i: "fst (nextRequestId m) = m_nextRequestId m" by (simp add: nextRequestId_def Let_def)
  have "m_nextRequestId m \<notin> pending_ids ?m" using assms(2) [OF RAdd] by (simp add: frame_simps)
  from pending_cbs_add [OF this, of cb t] show ?thesis
    using assms(1,3) RAdd by (auto simp: i case_prod_beta frame_simps intro!: inv_intros)
next
  case (RResolve fr)
  then show ?thesis
    using assms(1,3) rpc_ok_resolve [OF assms(1), of fr]
      pending_cbs_erase [of m "serial fr"]
    by (auto simp: resolve_def rpc_ok_def split: option.splits if_splits)
next
  case (RRemove i)
  then show ?thesis
    using assms(1,3) rpc_ok_remove [OF assms(1), of i] pending_cbs_erase [of m i]
    by (auto simp: dropped_def remove_def rpc_ok_def split: option.splits)
next
  case (RUpdate dt)
  then have m': "calls = fst (update dt m)" "drops = []" "m' = snd (update dt m)"
    using assms(3) by (auto simp: case_prod_beta)
  have "pending_cbs m = mset (map call_cb calls) + pending_cbs m'"
    unfolding m' update_eq
    using pending_cbs_split [of "\<lambda>p. callback (snd p)" "m_pending m" "\<lambda>p. expires dt (snd p)"]
    by (simp add: o_def image_mset.compositionality)
  then show ?thesis using RUpdate m' rpc_ok_update [OF assms(1), of dt] by simp
next
  case (RFailAll e)
  then show ?thesis
    using assms(1,3) by (auto simp: failAll_def rpc_ok_def case_prod_unfold multiset.map_comp o_def)
qed

text \<open>Ids stay ahead of the pending ones as long as the counter has not wrapped.\<close>

definition ids_ahead :: "'cb RpcManager \<Rightarrow> bool" where
  "ids_ahead m \<longleftrightarrow> (\<forall>i \<in> pending_ids m. sint i < sint (m_nextRequestId m))"

lemma pending_ids_exec:
  assumes "rpc_ok m" and "rpc_exec x m = (calls, drops, m')"
  shows "pending_ids m' \<subseteq> pending_ids m \<union> (if added [x] = [] then {} else {m_nextRequestId m})"
proof (cases x)
  case (RAdd cb t)
  then show ?thesis using assms(2)
    by (auto simp: case_prod_beta nextRequestId_def Let_def addPending_def dom_update
        simp flip: dom_map_of_conv_image_fst)
next
  case (RUpdate dt)
  then show ?thesis using assms(2) by (auto simp: case_prod_beta update_eq)
qed (use assms in \<open>auto simp: resolve_def remove_def failAll_def AList.delete_eq
      split: option.splits if_splits\<close>)

lemma next_id_exec:
  assumes "rpc_ok m" and "rpc_exec x m = (calls, drops, m')"
    and "added [x] \<noteq> [] \<Longrightarrow> sint (m_nextRequestId m) < 2 ^ 31 - 1"
  shows "sint (m_nextRequestId m') = sint (m_nextRequestId m) + int (length (added [x]))"
proof (cases x)
  case (RAdd cb t)
  then show ?thesis
    using assms nextRequestId_sint(2) [of m]
    by (auto simp: case_prod_beta rpc_ok_def addPending_def next_id_def)
next
  case (RUpdate dt)
  then show ?thesis using assms(2) by (auto simp: case_prod_beta update_eq)
qed (use assms in \<open>auto simp: resolve_def remove_def failAll_def split: option.splits if_splits\<close>)

lemma added_Cons: "added (x # xs) = added [x] @ added xs"
  by (cases x) auto

lemma added_single_le: "length (added [x]) \<le> 1"
  by (cases x) auto

lemma rpc_run_account:
  assumes "rpc_ok m" and "ids_ahead m" and "rpc_run xs m = (calls, drops, m')"
    and "sint (m_nextRequestId m) + int (length (added xs)) < 2 ^ 31"
  shows "mset (added xs) + pending_cbs m = mset (map call_cb calls) + mset drops + pending_cbs m'"
  using assms
proof (induction xs arbitrary: m calls drops)
  case Nil
  then show ?case by simp
next
  case (Cons x xs)
  obtain c1 d1 m1 where x: "rpc_exec x m = (c1, d1, m1)" by (metis prod_cases3)
  obtain c2 d2 m2 where xs': "rpc_run xs m1 = (c2, d2, m2)" by (metis prod_cases3)
  with x Cons.prems(3) have cd: "calls = c1 @ c2" "drops = d1 @ d2" "m2 = m'" by auto
  note xs = xs' [unfolded cd(3)]
  have fresh: "m_nextRequestId m \<notin> pending_ids m"
    using Cons.prems(2) by (auto simp: ids_ahead_def)
  from rpc_exec_account [OF Cons.prems(1) _ x] fresh
  have acc: "rpc_ok m1" "mset (added [x]) + pending_cbs m = mset (map call_cb c1) + mset d1 + pending_cbs m1"
    by blast+
  have len: "sint (m_nextRequestId m) + (int (length (added [x])) + int (length (added xs))) < 2 ^ 31"
    using Cons.prems(4) by (subst (asm) added_Cons) simp
  have n: "sint (m_nextRequestId m1) = sint (m_nextRequestId m) + int (length (added [x]))"
    using len by (intro next_id_exec [OF Cons.prems(1) x]) (cases "added [x]"; simp)
  have "ids_ahead m1"
    using Cons.prems(2) pending_ids_exec [OF Cons.prems(1) x] n
    by (fastforce simp: ids_ahead_def split: if_splits)
  moreover have "sint (m_nextRequestId m1) + int (length (added xs)) < 2 ^ 31"
    using len n by simp
  ultimately have "mset (added xs) + pending_cbs m1 = mset (map call_cb c2) + mset d2 + pending_cbs m'"
    by (intro Cons.IH [OF acc(1) _ xs])
  moreover have "mset (added (x # xs)) = mset (added [x]) + mset (added xs)"
    by (subst added_Cons) simp
  ultimately show ?case
    using acc(2) unfolding cd(1,2) by (simp del: added.simps) (metis (no_types, lifting) add.assoc add.left_commute)
qed

text \<open>C8. Every callback that is registered is called exactly once, dropped by \<open>remove\<close>
  exactly once, or still pending: nothing is called twice and nothing is lost, over any
  sequence of requests, responses, removals, timer updates and failures with fewer than
  \<open>2 ^ 31 - 1\<close> requests.\<close>
theorem rpc_exactly_once:
  assumes "rpc_run xs init_rpc = (calls, drops, m)" and "length (added xs) < 2 ^ 31 - 1"
  shows "mset (added xs) = mset (map call_cb calls) + mset drops + pending_cbs m"
  using rpc_run_account [OF rpc_ok_init _ assms(1)] assms(2)
  by (simp add: ids_ahead_def init_rpc_def)

theorem rpc_exactly_once_witness:
  "mset (added [RAdd (7::nat) (f32_of_int 10), RAdd 8 (f32_of_int 1), RUpdate (f32_of_int 1)]) =
    mset (map call_cb [Call 8 None ''request timeout'']) + mset [] +
    pending_cbs \<lparr>m_nextRequestId = 3,
      m_pending = [(1, \<lparr>callback = 7, timeout = f32_of_int 9\<rparr>)]\<rparr>"
proof (rule rpc_exactly_once)
  show "rpc_run [RAdd (7::nat) (f32_of_int 10), RAdd 8 (f32_of_int 1), RUpdate (f32_of_int 1)] init_rpc =
    ([Call 8 None ''request timeout''], [],
     \<lparr>m_nextRequestId = 3, m_pending = [(1, \<lparr>callback = 7, timeout = f32_of_int 9\<rparr>)]\<rparr>)"
    using f32_sub_units [of 10 1] f32_sub_units [of 1 1] f32_le_units [of 9]
    by (simp add: init_rpc_def nextRequestId_def addPending_def update_def f32_of_int_small Let_def)
qed simp

subsection \<open>Timeouts\<close>

lemma update_fires:
  assumes "umap_ok (m_pending m)" and "umap_find (m_pending m) i = Some req"
    and "timeout req = Fin t" and "update (Fin d) m = (calls, m')"
  shows "(t \<le> d \<longrightarrow> Call (callback req) None ''request timeout'' \<in> set calls
            \<and> umap_find (m_pending m') i = None)
    \<and> (d < t \<longrightarrow> (\<exists>req'. umap_find (m_pending m') i = Some req' \<and> callback req' = callback req
            \<and> timeout req' = f32_sub (Fin t) (Fin d)))"
proof -
  have e: "expires (Fin d) req \<longleftrightarrow> t \<le> d"
    unfolding expires_def assms(3) by (rule f32_sub_le_zero_iff)
  have m': "m' = snd (update (Fin d) m)" "calls = fst (update (Fin d) m)" using assms(4) by simp_all
  from map_of_SomeD [OF assms(2)] have mem: "(i, req) \<in> set (m_pending m)" .
  have "t \<le> d \<Longrightarrow> Call (callback req) None ''request timeout'' \<in> set calls"
    using mem e unfolding m' update_eq by force
  then show ?thesis
    using update_pending_find [OF assms(1), of "Fin d" i] assms(2,3) e unfolding m'
    by (auto simp: aged_def)
qed

text \<open>A timer update fires exactly the requests whose remaining time is at most the
  elapsed time, with the timeout error and no frame; every other request stays registered
  under its id with its callback.\<close>
theorem update_fires_expired:
  assumes "umap_ok (m_pending m)" and "umap_find (m_pending m) i = Some req"
    and "timeout req = Fin t" and "update (Fin d) m = (calls, m')"
  shows "(t \<le> d \<longrightarrow> Call (callback req) None ''request timeout'' \<in> set calls
            \<and> umap_find (m_pending m') i = None)
    \<and> (d < t \<longrightarrow> (\<exists>req'. umap_find (m_pending m') i = Some req' \<and> callback req' = callback req
            \<and> timeout req' = f32_sub (Fin t) (Fin d)))"
  by (rule update_fires [OF assms])

theorem update_fires_expired_witness:
  "umap_find (m_pending (snd (update (f32_of_int 1)
      \<lparr>m_nextRequestId = 2, m_pending = [(1, \<lparr>callback = 8 :: nat, timeout = f32_of_int 1\<rparr>)]\<rparr>))) 1 = None"
proof -
  let ?m = "\<lparr>m_nextRequestId = 2, m_pending = [(1, \<lparr>callback = 8 :: nat, timeout = f32_of_int 1\<rparr>)]\<rparr>"
  have "f32_of_int 1 = Fin (1 * f32_unit)" by (rule f32_of_int_small) simp
  then show ?thesis
    using update_fires_expired [of ?m 1 "\<lparr>callback = 8, timeout = f32_of_int 1\<rparr>" "1 * f32_unit"
        "1 * f32_unit" "fst (update (f32_of_int 1) ?m)" "snd (update (f32_of_int 1) ?m)"]
    by simp
qed

lemma rpc_run_update_absent:
  assumes "umap_ok (m_pending m)" and "umap_find (m_pending m) i = None"
    and "rpc_run (map (\<lambda>x. RUpdate (Fin x)) dts) m = (calls, drops, m')"
  shows "umap_find (m_pending m') i = None"
  using assms
proof (induction dts arbitrary: m calls drops)
  case Nil
  then show ?case by simp
next
  case (Cons d dts)
  let ?m = "snd (update (Fin d) m)"
  obtain c2 d2 m2 where r: "rpc_run (map (\<lambda>x. RUpdate (Fin x)) dts) ?m = (c2, d2, m2)" by (metis prod_cases3)
  with Cons.prems(3) have m2: "m2 = m'" by (auto simp: case_prod_beta)
  have "umap_ok (m_pending ?m)"
    using rpc_ok_update [of "m\<lparr>m_nextRequestId := 1\<rparr>" "Fin d"] Cons.prems(1)
    by (simp add: rpc_ok_def update_eq)
  moreover have "umap_find (m_pending ?m) i = None"
    using update_pending_find [OF Cons.prems(1), of "Fin d" i] Cons.prems(2) by simp
  ultimately show ?case using Cons.IH r m2 by blast
qed

text \<open>C36. Every request ends: with updates of at least \<open>d\<close> each, where \<open>d\<close> is not
  negligible in single precision beside the timeout \<open>t\<close> (at least \<open>t / 2 ^ 23\<close>), the
  callback of a pending request has been called with the timeout error, and its entry is
  gone, after at most \<open>2 t / d\<close> updates, rounding included.\<close>
theorem request_times_out:
  assumes "rpc_ok m" and "umap_find (m_pending m) i = Some req" and "timeout req = Fin t"
    and "0 < d" and "t \<le> 2 ^ 23 * d" and "t < 2 ^ 276" and "\<forall>x \<in> set dts. d \<le> x"
    and "2 * t \<le> int (length dts) * d" and "dts \<noteq> []"
    and "rpc_run (map (\<lambda>x. RUpdate (Fin x)) dts) m = (calls, drops, m')"
  shows "Call (callback req) None ''request timeout'' \<in> set calls \<and> umap_find (m_pending m') i = None"
  using assms
proof (induction dts arbitrary: m t req calls drops)
  case Nil
  then show ?case by simp
next
  case (Cons x dts)
  let ?m = "snd (update (Fin x) m)"
  have ok: "umap_ok (m_pending m)" using Cons.prems(1) by (simp add: rpc_ok_def)
  obtain c2 d2 m2 where r: "rpc_run (map (\<lambda>x. RUpdate (Fin x)) dts) ?m = (c2, d2, m2)" by (metis prod_cases3)
  with Cons.prems(10) have calls: "calls = fst (update (Fin x) m) @ c2" "m2 = m'"
    by (auto simp: case_prod_beta)
  note r = r [unfolded calls(2)]
  have okm: "rpc_ok ?m" by (rule rpc_ok_update [OF Cons.prems(1)])
  have dx: "d \<le> x" using Cons.prems(7) by simp
  note fire = update_fires [OF ok Cons.prems(2,3), of x "fst (update (Fin x) m)" ?m]
  show ?case
  proof (cases "t \<le> x")
    case True
    with fire have "umap_find (m_pending ?m) i = None"
      and "Call (callback req) None ''request timeout'' \<in> set (fst (update (Fin x) m))" by simp_all
    moreover have "umap_find (m_pending m') i = None"
      using rpc_run_update_absent [of ?m i dts] okm r calculation(1)
      by (simp add: rpc_ok_def)
    ultimately show ?thesis by (simp add: calls)
  next
    case False
    with fire obtain req' where req': "umap_find (m_pending ?m) i = Some req'"
      "callback req' = callback req" "timeout req' = f32_sub (Fin t) (Fin x)" by auto
    obtain t' where t': "f32_sub (Fin t) (Fin x) = Fin t'" "0 < t'" "2 * t' \<le> 2 * t - x"
      by (rule f32_sub_progress [of x t]) (use False Cons.prems dx in auto)
    have "2 * t' \<le> int (length dts) * d" using t'(3) Cons.prems(8) dx by (simp add: algebra_simps)
    moreover from this t'(2) have "dts \<noteq> []" by auto
    ultimately have "Call (callback req') None ''request timeout'' \<in> set c2 \<and> umap_find (m_pending m') i = None"
      using t' Cons.prems dx by (intro Cons.IH [OF okm req'(1) _ _ _ _ _ _ _ r]) (auto simp: req'(3))
    then show ?thesis by (simp add: calls req'(2))
  qed
qed

theorem request_times_out_witness:
  "umap_find (m_pending (snd (snd (rpc_run
      (map (\<lambda>x. RUpdate (Fin x)) [f32_unit, f32_unit, f32_unit, f32_unit])
      \<lparr>m_nextRequestId = 2, m_pending = [(1, \<lparr>callback = 8 :: nat, timeout = Fin (2 * f32_unit)\<rparr>)]\<rparr>)))) 1
   = None"
proof -
  let ?m = "\<lparr>m_nextRequestId = 2, m_pending = [(1, \<lparr>callback = 8 :: nat, timeout = Fin (2 * f32_unit)\<rparr>)]\<rparr>"
  let ?r = "rpc_run (map (\<lambda>x. RUpdate (Fin x)) [f32_unit, f32_unit, f32_unit, f32_unit]) ?m"
  have "?r = (fst ?r, fst (snd ?r), snd (snd ?r))" by (simp only: prod.collapse)
  from request_times_out [OF _ _ _ _ _ _ _ _ _ this, where d = f32_unit and t = "2 * f32_unit" and i = 1
      and req = "\<lparr>callback = 8, timeout = Fin (2 * f32_unit)\<rparr>"]
  show ?thesis by (simp add: rpc_ok_def f32_unit_def del: rpc_run.simps)
qed

end
