(* ===== verification/PbRuntime.thy ===== *)
theory PbRuntime
  imports Prelude
begin

section \<open>The protobuf runtime the generated messages call\<close>

text \<open>
  The generated files \<open>battle/src/protocol/*.pb.cc\<close> call the protobuf-lite runtime, which
  is not part of the repository. Its primitives are the fields of a record \<open>pb_rt\<close>; a
  read returns the value and the rest of the input, \<open>None\<close> where the runtime returns a
  null pointer. The locale \<open>pb_laws\<close> states the documented behaviour the generated code
  relies on: what is written is read back, the size functions give the written length,
  and a read consumes input. \<open>wire_rt\<close> at the end is the documented wire encoding; it
  satisfies the laws.

  The loop of every \<open>_InternalParse\<close> is the same generated text around a \<open>switch\<close> on the
  field number; it is \<open>parse_loop\<close>, with the message's \<open>switch\<close> as an argument. Its fuel
  is the input length plus one: every round consumes a byte.
\<close>

unbundle bit_operations_syntax

record pb_rt =
  ReadTag :: "bytes \<Rightarrow> (u32 \<times> bytes) option"
  ReadVarint32 :: "bytes \<Rightarrow> (u32 \<times> bytes) option"
  ReadVarint64 :: "bytes \<Rightarrow> (u64 \<times> bytes) option"
  ReadString :: "bytes \<Rightarrow> (bytes \<times> bytes) option"  \<comment> \<open>length-delimited block\<close>
  VerifyUTF8 :: "bytes \<Rightarrow> bool"
  UnknownFieldParse :: "u32 \<Rightarrow> bytes \<Rightarrow> (bytes \<times> bytes) option"  \<comment> \<open>raw field, rest\<close>
  WriteUInt32ToArray :: "nat \<Rightarrow> u32 \<Rightarrow> bytes"
  WriteInt32ToArray :: "nat \<Rightarrow> i32 \<Rightarrow> bytes"
  WriteUInt64ToArray :: "nat \<Rightarrow> u64 \<Rightarrow> bytes"
  WriteBoolToArray :: "nat \<Rightarrow> bool \<Rightarrow> bytes"
  WriteStringMaybeAliased :: "nat \<Rightarrow> bytes \<Rightarrow> bytes"
  InternalWriteMessage :: "nat \<Rightarrow> bytes \<Rightarrow> bytes"
  UInt32SizePlusOne :: "u32 \<Rightarrow> nat"
  Int32SizePlusOne :: "i32 \<Rightarrow> nat"
  UInt64SizePlusOne :: "u64 \<Rightarrow> nat"
  LengthDelimitedSize :: "nat \<Rightarrow> nat"

datatype 'm field_result = Continue 'm bytes | Unusual | Failure

text \<open>Reading one field of each wire kind.\<close>

definition varint32_field :: "pb_rt \<Rightarrow> bytes \<Rightarrow> (u32 \<Rightarrow> 'm) \<Rightarrow> 'm field_result" where
  "varint32_field rt ptr upd =
     (case ReadVarint32 rt ptr of None \<Rightarrow> Failure | Some (v, ptr) \<Rightarrow> Continue (upd v) ptr)"

definition varint64_field :: "pb_rt \<Rightarrow> bytes \<Rightarrow> (u64 \<Rightarrow> 'm) \<Rightarrow> 'm field_result" where
  "varint64_field rt ptr upd =
     (case ReadVarint64 rt ptr of None \<Rightarrow> Failure | Some (v, ptr) \<Rightarrow> Continue (upd v) ptr)"

definition string_field :: "pb_rt \<Rightarrow> bytes \<Rightarrow> (bytes \<Rightarrow> 'm) \<Rightarrow> 'm field_result" where
  "string_field rt ptr upd =
     (case ReadString rt ptr of None \<Rightarrow> Failure
      | Some (s, ptr) \<Rightarrow> if VerifyUTF8 rt s then Continue (upd s) ptr else Failure)"

definition bytes_field :: "pb_rt \<Rightarrow> bytes \<Rightarrow> (bytes \<Rightarrow> 'm) \<Rightarrow> 'm field_result" where
  "bytes_field rt ptr upd =
     (case ReadString rt ptr of None \<Rightarrow> Failure | Some (s, ptr) \<Rightarrow> Continue (upd s) ptr)"

text \<open>
  A repeated message field: \<open>ParseMessage\<close> reads a block and parses it; as long as input is
  left and the next byte is the field's tag again, the \<open>do\<close> loop reads the next element.
\<close>

fun repeated_field :: "pb_rt \<Rightarrow> (bytes \<Rightarrow> 'x option) \<Rightarrow> ('x \<Rightarrow> 'm \<Rightarrow> 'm) \<Rightarrow> u8 \<Rightarrow> nat \<Rightarrow> 'm \<Rightarrow> bytes \<Rightarrow>
    'm field_result" where
  "repeated_field rt parse add tag 0 m ptr = Failure"
| "repeated_field rt parse add tag (Suc fuel) m ptr =
     (case ReadString rt ptr of None \<Rightarrow> Failure
      | Some (block, ptr) \<Rightarrow>
          (case parse block of None \<Rightarrow> Failure
           | Some x \<Rightarrow>
               (case ptr of [] \<Rightarrow> Continue (add x m) []
                | b # ptr' \<Rightarrow> if b = tag then repeated_field rt parse add tag fuel (add x m) ptr'
                              else Continue (add x m) ptr)))"

text \<open>
  The parse loop. A tag of 0 or an end-group tag stops the generated code before the end
  of the input; \<open>ParseFromArray\<close> and \<open>ParseMessage\<close> then report failure.
\<close>

fun parse_loop :: "pb_rt \<Rightarrow> (u32 \<Rightarrow> 'm \<Rightarrow> bytes \<Rightarrow> 'm field_result) \<Rightarrow> (bytes \<Rightarrow> 'm \<Rightarrow> 'm) \<Rightarrow> nat \<Rightarrow>
    'm \<Rightarrow> bytes \<Rightarrow> 'm option" where
  "parse_loop rt switch unknown 0 m ptr = None"
| "parse_loop rt switch unknown (Suc fuel) m ptr =
     (if ptr = [] then Some m
      else case ReadTag rt ptr of None \<Rightarrow> None
      | Some (tag, ptr) \<Rightarrow>
          (case switch tag m ptr of
             Continue m ptr \<Rightarrow> parse_loop rt switch unknown fuel m ptr
           | Failure \<Rightarrow> None
           | Unusual \<Rightarrow>
               if tag = 0 \<or> tag AND 7 = 4 then None
               else (case UnknownFieldParse rt tag ptr of None \<Rightarrow> None
                     | Some (raw, ptr) \<Rightarrow> parse_loop rt switch unknown fuel (unknown raw m) ptr)))"

definition parse_message :: "pb_rt \<Rightarrow> (u32 \<Rightarrow> 'm \<Rightarrow> bytes \<Rightarrow> 'm field_result) \<Rightarrow> (bytes \<Rightarrow> 'm \<Rightarrow> 'm) \<Rightarrow>
    'm \<Rightarrow> bytes \<Rightarrow> 'm option" where
  "parse_message rt switch unknown m ptr = parse_loop rt switch unknown (Suc (length ptr)) m ptr"

declare parse_loop.simps [simp del]

text \<open>\<open>SerializeToString\<close> fails for a message of more than \<open>INT_MAX\<close> bytes.\<close>

definition serialize_to_string :: "nat \<Rightarrow> bytes \<Rightarrow> bytes option" where
  "serialize_to_string byte_size s = (if byte_size > 2 ^ 31 - 1 then None else Some s)"

subsection \<open>What the generated code relies on\<close>

definition consumes :: "(u32 \<Rightarrow> 'm \<Rightarrow> bytes \<Rightarrow> 'm field_result) \<Rightarrow> bool" where
  "consumes switch \<longleftrightarrow>
     (\<forall>tag m ptr m' ptr'. switch tag m ptr = Continue m' ptr' \<longrightarrow> length ptr' \<le> length ptr)"

definition field_tag :: "nat \<Rightarrow> nat \<Rightarrow> u32" where
  "field_tag f wire = of_nat (8 * f + wire)"

locale pb_laws =
  fixes rt :: pb_rt
  assumes tag_consumes: "ReadTag rt p = Some (t, q) \<Longrightarrow> length q < length p"
    and varint32_consumes: "ReadVarint32 rt p = Some (v, q) \<Longrightarrow> length q \<le> length p"
    and varint64_consumes: "ReadVarint64 rt p = Some (w, q) \<Longrightarrow> length q \<le> length p"
    and string_consumes: "ReadString rt p = Some (s, q) \<Longrightarrow> length s + length q < length p"
    and utf8_Nil: "VerifyUTF8 rt []"
    and unknown_consumes: "UnknownFieldParse rt t p = Some (raw, q) \<Longrightarrow> length q \<le> length p"
    and tag_law: "unat c < 128 \<Longrightarrow> ReadTag rt (c # p) = Some (ucast c, p)"
    and uint32_law: "0 < f \<Longrightarrow> f < 16 \<Longrightarrow> \<exists>q. WriteUInt32ToArray rt f v @ r \<noteq> [] \<and>
      ReadTag rt (WriteUInt32ToArray rt f v @ r) = Some (field_tag f 0, q) \<and>
      ReadVarint32 rt q = Some (v, r)"
    and int32_law: "0 < f \<Longrightarrow> f < 16 \<Longrightarrow> \<exists>q. WriteInt32ToArray rt f v @ r \<noteq> [] \<and>
      ReadTag rt (WriteInt32ToArray rt f v @ r) = Some (field_tag f 0, q) \<and>
      ReadVarint32 rt q = Some (v, r)"
    and uint64_law: "0 < f \<Longrightarrow> f < 16 \<Longrightarrow> \<exists>q. WriteUInt64ToArray rt f w @ r \<noteq> [] \<and>
      ReadTag rt (WriteUInt64ToArray rt f w @ r) = Some (field_tag f 0, q) \<and>
      ReadVarint64 rt q = Some (w, r)"
    and bool_law: "0 < f \<Longrightarrow> f < 16 \<Longrightarrow> \<exists>q. WriteBoolToArray rt f b @ r \<noteq> [] \<and>
      ReadTag rt (WriteBoolToArray rt f b @ r) = Some (field_tag f 0, q) \<and>
      ReadVarint64 rt q = Some (if b then 1 else 0, r)"
    and string_law: "0 < f \<Longrightarrow> f < 16 \<Longrightarrow> length s + 16 < 2 ^ 31 \<Longrightarrow>
      \<exists>q. WriteStringMaybeAliased rt f s @ r \<noteq> [] \<and>
      ReadTag rt (WriteStringMaybeAliased rt f s @ r) = Some (field_tag f 2, q) \<and>
      ReadString rt q = Some (s, r)"
    and message_law: "0 < f \<Longrightarrow> f < 16 \<Longrightarrow> length s + 16 < 2 ^ 31 \<Longrightarrow>
      \<exists>q. InternalWriteMessage rt f s = of_nat (8 * f + 2) # q \<and>
      ReadTag rt (InternalWriteMessage rt f s @ r) = Some (field_tag f 2, q @ r) \<and>
      ReadString rt (q @ r) = Some (s, r)"
    and uint32_size: "length (WriteUInt32ToArray rt f v) = UInt32SizePlusOne rt v"
    and int32_size: "length (WriteInt32ToArray rt f v) = Int32SizePlusOne rt v"
    and uint64_size: "length (WriteUInt64ToArray rt f w) = UInt64SizePlusOne rt w"
    and bool_size: "length (WriteBoolToArray rt f b) = 2"
    and string_size: "length (WriteStringMaybeAliased rt f s) = 1 + LengthDelimitedSize rt (length s)"
    and message_size: "length (InternalWriteMessage rt f s) = 1 + LengthDelimitedSize rt (length s)"
    and uint32_bound: "UInt32SizePlusOne rt v \<le> 6"
    and int32_bound: "Int32SizePlusOne rt v \<le> 11"
    and uint64_bound: "UInt64SizePlusOne rt w \<le> 11"
    and block_bound: "n < 2 ^ 31 \<Longrightarrow> LengthDelimitedSize rt n \<le> n + 5"

begin

lemma varint32_field_consumes:
  "varint32_field rt p upd = Continue m q \<Longrightarrow> length q \<le> length p"
  by (auto simp: varint32_field_def split: option.splits dest: varint32_consumes)

lemma varint64_field_consumes:
  "varint64_field rt p upd = Continue m q \<Longrightarrow> length q \<le> length p"
  by (auto simp: varint64_field_def split: option.splits dest: varint64_consumes)

lemma string_field_consumes:
  "string_field rt p upd = Continue m q \<Longrightarrow> length q \<le> length p"
  by (auto simp: string_field_def split: option.splits if_splits dest: string_consumes)

lemma bytes_field_consumes:
  "bytes_field rt p upd = Continue m q \<Longrightarrow> length q \<le> length p"
  by (auto simp: bytes_field_def split: option.splits dest: string_consumes)

lemma repeated_field_consumes:
  "repeated_field rt parse add tag fuel m p = Continue m' q \<Longrightarrow> length q \<le> length p"
proof (induction fuel arbitrary: m p)
  case 0
  then show ?case by simp
next
  case (Suc fuel)
  then obtain block p' where s: "ReadString rt p = Some (block, p')"
    by (auto split: option.splits)
  from string_consumes [OF s] Suc s show ?case
    by (fastforce split: option.splits list.splits if_splits)
qed

lemmas field_sizes = uint32_size int32_size uint64_size bool_size string_size message_size
  length_concat o_def sum_list_Suc

lemmas field_consumes = varint32_field_consumes varint64_field_consumes string_field_consumes
  bytes_field_consumes repeated_field_consumes

text \<open>Any fuel above the input length gives the same result.\<close>

lemma parse_loop_fuel:
  assumes "consumes switch" and "length p < n" and "length p < k"
  shows "parse_loop rt switch unk n m p = parse_loop rt switch unk k m p"
  using assms(2,3)
proof (induction n arbitrary: m p k)
  case 0
  then show ?case by simp
next
  case (Suc n)
  then obtain k' where k: "k = Suc k'" by (cases k) auto
  show ?case
  proof (cases "p = [] \<or> ReadTag rt p = None")
    case True
    then show ?thesis by (auto simp: k parse_loop.simps)
  next
    case False
    then obtain t q where tq: "p \<noteq> []" "ReadTag rt p = Some (t, q)" by auto
    from tag_consumes [OF tq(2)] have q: "length q < length p" .
    have 1: "parse_loop rt switch unk n m' r = parse_loop rt switch unk k' m' r"
      if "length r \<le> length q" for m' r
      using Suc.IH [of r k' m'] Suc.prems k q that by simp
    have 2: "length r \<le> length q" if "switch t m q = Continue m' r" for m' r
      using assms(1) that by (auto simp: consumes_def)
    show ?thesis
      using tq 1 2 unknown_consumes
      by (auto simp: k parse_loop.simps split: field_result.splits option.splits)
  qed
qed

text \<open>One field the \<open>switch\<close> accepts is consumed, one it does not know is kept aside.\<close>

lemma parse_message_Nil [simp]: "parse_message rt switch unk m [] = Some m"
  by (simp add: parse_message_def parse_loop.simps)

lemma parse_message_Continue:
  assumes "consumes switch" and "p \<noteq> []" and "ReadTag rt p = Some (t, q)"
    and "switch t m q = Continue m' r"
  shows "parse_message rt switch unk m p = parse_message rt switch unk m' r"
proof -
  have "length r \<le> length q" using assms(1,4) by (auto simp: consumes_def)
  then have "length r < length p" using tag_consumes [OF assms(3)] by simp
  then have "parse_loop rt switch unk (length p) m' r = parse_loop rt switch unk (Suc (length r)) m' r"
    by (intro parse_loop_fuel [OF assms(1)]) auto
  with assms show ?thesis by (simp add: parse_message_def parse_loop.simps)
qed

lemma parse_message_Unusual:
  assumes "consumes switch" and "p \<noteq> []" and "ReadTag rt p = Some (t, q)"
    and "switch t m q = Unusual" and "t \<noteq> 0" and "t AND 7 \<noteq> 4"
    and "UnknownFieldParse rt t q = Some (raw, r)"
  shows "parse_message rt switch unk m p = parse_message rt switch unk (unk raw m) r"
proof -
  have "length r < length p"
    using tag_consumes [OF assms(3)] unknown_consumes [OF assms(7)] by simp
  then have "parse_loop rt switch unk (length p) (unk raw m) r = parse_loop rt switch unk (Suc (length r)) (unk raw m) r"
    by (intro parse_loop_fuel [OF assms(1)]) auto
  with assms show ?thesis by (simp add: parse_message_def parse_loop.simps)
qed

text \<open>What a field accepted by the \<open>switch\<close> stores, and what it keeps of a predicate.\<close>

lemma varint32_field_ContinueD: "varint32_field rt p upd = Continue m q \<Longrightarrow> \<exists>v. m = upd v"
  by (auto simp: varint32_field_def split: option.splits)

lemma varint64_field_ContinueD: "varint64_field rt p upd = Continue m q \<Longrightarrow> \<exists>v. m = upd v"
  by (auto simp: varint64_field_def split: option.splits)

lemma string_field_ContinueD:
  "string_field rt p upd = Continue m q \<Longrightarrow> \<exists>s. m = upd s \<and> VerifyUTF8 rt s \<and> length s < length p"
  by (auto simp: string_field_def split: option.splits if_splits dest!: string_consumes)

lemma bytes_field_ContinueD:
  "bytes_field rt p upd = Continue m q \<Longrightarrow> \<exists>s. m = upd s \<and> length s < length p"
  by (auto simp: bytes_field_def split: option.splits dest!: string_consumes)

lemmas field_ContinueD = varint32_field_ContinueD varint64_field_ContinueD string_field_ContinueD bytes_field_ContinueD

lemma parse_message_keeps:
  assumes "consumes switch" and unk: "\<And>raw m. P m \<Longrightarrow> P (unk raw m)"
    and sw: "\<And>t m q m' r. P m \<Longrightarrow> length q < length p \<Longrightarrow> switch t m q = Continue m' r \<Longrightarrow> P m'"
    and "P m" and "parse_message rt switch unk m p = Some m'"
  shows "P m'"
proof -
  have "parse_loop rt switch unk n m q = Some m' \<Longrightarrow> P m \<Longrightarrow> length q \<le> length p \<Longrightarrow> P m'" for n m q
  proof (induction n arbitrary: m q)
    case 0
    then show ?case by (simp add: parse_loop.simps)
  next
    case (Suc n)
    show ?case
    proof (cases "q = []")
      case True
      with Suc.prems show ?thesis by (simp add: parse_loop.simps)
    next
      case False
      with Suc.prems obtain t r where t: "ReadTag rt q = Some (t, r)" by (auto simp: parse_loop.simps split: option.splits)
      note r = tag_consumes [OF t]
      show ?thesis
      proof (cases "switch t m r")
        case (Continue m1 r1)
        have "length r1 \<le> length r" using assms(1) Continue by (auto simp: consumes_def)
        with Suc.prems False t r Continue sw [OF Suc.prems(2) _ Continue] show ?thesis
          by (intro Suc.IH [of m1 r1]) (auto simp: parse_loop.simps)
      next
        case Unusual
        with Suc.prems False t obtain raw r1 where u: "UnknownFieldParse rt t r = Some (raw, r1)"
            "parse_loop rt switch unk n (unk raw m) r1 = Some m'"
          by (auto simp: parse_loop.simps split: option.splits if_splits)
        show ?thesis
          using Suc.prems(3) r unknown_consumes [OF u(1)] by (intro Suc.IH [OF u(2) unk [OF Suc.prems(2)]]) simp
      qed (use Suc.prems False t in \<open>simp add: parse_loop.simps\<close>)
    qed
  qed
  from this [of "Suc (length p)" m p] assms(4,5) show ?thesis by (simp add: parse_message_def)
qed

text \<open>
  Reading back one optional scalar field, as the serializers write it: nothing for the
  default value. \<open>upd v\<close> is the message with the field set to \<open>v\<close>, \<open>c\<close> its value before.
\<close>

lemma uint32_step:
  assumes "consumes switch" and "0 < f" and "f < 16"
    and "\<And>q. switch (field_tag f 0) m q = varint32_field rt q upd" and "upd c = m"
  shows "parse_message rt switch unk m ((if v \<noteq> 0 then WriteUInt32ToArray rt f v else []) @ r)
    = parse_message rt switch unk (upd (if v \<noteq> 0 then v else c)) r"
proof (cases "v = 0")
  case False
  obtain q where "WriteUInt32ToArray rt f v @ r \<noteq> []"
    "ReadTag rt (WriteUInt32ToArray rt f v @ r) = Some (field_tag f 0, q)" "ReadVarint32 rt q = Some (v, r)"
    using uint32_law [OF assms(2,3)] by blast
  with False show ?thesis
    by (simp add: parse_message_Continue [OF assms(1)] assms(4) varint32_field_def)
qed (simp add: assms(5))

lemma int32_step:
  assumes "consumes switch" and "0 < f" and "f < 16"
    and "\<And>q. switch (field_tag f 0) m q = varint32_field rt q upd" and "upd c = m"
  shows "parse_message rt switch unk m ((if v \<noteq> 0 then WriteInt32ToArray rt f v else []) @ r)
    = parse_message rt switch unk (upd (if v \<noteq> 0 then v else c)) r"
proof (cases "v = 0")
  case False
  obtain q where "WriteInt32ToArray rt f v @ r \<noteq> []"
    "ReadTag rt (WriteInt32ToArray rt f v @ r) = Some (field_tag f 0, q)" "ReadVarint32 rt q = Some (v, r)"
    using int32_law [OF assms(2,3)] by blast
  with False show ?thesis
    by (simp add: parse_message_Continue [OF assms(1)] assms(4) varint32_field_def)
qed (simp add: assms(5))

lemma uint64_step:
  assumes "consumes switch" and "0 < f" and "f < 16"
    and "\<And>q. switch (field_tag f 0) m q = varint64_field rt q upd" and "upd c = m"
  shows "parse_message rt switch unk m ((if v \<noteq> 0 then WriteUInt64ToArray rt f v else []) @ r)
    = parse_message rt switch unk (upd (if v \<noteq> 0 then v else c)) r"
proof (cases "v = 0")
  case False
  obtain q where "WriteUInt64ToArray rt f v @ r \<noteq> []"
    "ReadTag rt (WriteUInt64ToArray rt f v @ r) = Some (field_tag f 0, q)" "ReadVarint64 rt q = Some (v, r)"
    using uint64_law [OF assms(2,3)] by blast
  with False show ?thesis
    by (simp add: parse_message_Continue [OF assms(1)] assms(4) varint64_field_def)
qed (simp add: assms(5))

lemma bool_step:
  assumes "consumes switch" and "0 < f" and "f < 16"
    and "\<And>q. switch (field_tag f 0) m q = varint64_field rt q (\<lambda>w. upd (w \<noteq> 0))" and "upd c = m"
  shows "parse_message rt switch unk m ((if b then WriteBoolToArray rt f b else []) @ r)
    = parse_message rt switch unk (upd (if b then b else c)) r"
proof (cases b)
  case True
  obtain q where "WriteBoolToArray rt f b @ r \<noteq> []"
    "ReadTag rt (WriteBoolToArray rt f b @ r) = Some (field_tag f 0, q)"
    "ReadVarint64 rt q = Some (if b then 1 else 0, r)"
    using bool_law [OF assms(2,3)] by blast
  with True show ?thesis
    by (simp add: parse_message_Continue [OF assms(1)] assms(4) varint64_field_def)
qed (simp add: assms(5))

lemma string_step:
  assumes "consumes switch" and "0 < f" and "f < 16" and "length s + 16 < 2 ^ 31" and "VerifyUTF8 rt s"
    and "\<And>q. switch (field_tag f 2) m q = string_field rt q upd" and "upd c = m"
  shows "parse_message rt switch unk m ((if s \<noteq> [] then WriteStringMaybeAliased rt f s else []) @ r)
    = parse_message rt switch unk (upd (if s \<noteq> [] then s else c)) r"
proof (cases "s = []")
  case False
  obtain q where "WriteStringMaybeAliased rt f s @ r \<noteq> []"
    "ReadTag rt (WriteStringMaybeAliased rt f s @ r) = Some (field_tag f 2, q)" "ReadString rt q = Some (s, r)"
    using string_law [OF assms(2-4)] by blast
  with False show ?thesis
    by (simp add: parse_message_Continue [OF assms(1)] assms(5,6) string_field_def)
qed (simp add: assms(7))

lemma bytes_step:
  assumes "consumes switch" and "0 < f" and "f < 16" and "length s + 16 < 2 ^ 31"
    and "\<And>q. switch (field_tag f 2) m q = bytes_field rt q upd" and "upd c = m"
  shows "parse_message rt switch unk m ((if s \<noteq> [] then WriteStringMaybeAliased rt f s else []) @ r)
    = parse_message rt switch unk (upd (if s \<noteq> [] then s else c)) r"
proof (cases "s = []")
  case False
  obtain q where "WriteStringMaybeAliased rt f s @ r \<noteq> []"
    "ReadTag rt (WriteStringMaybeAliased rt f s @ r) = Some (field_tag f 2, q)" "ReadString rt q = Some (s, r)"
    using string_law [OF assms(2-4)] by blast
  with False show ?thesis
    by (simp add: parse_message_Continue [OF assms(1)] assms(5) bytes_field_def)
qed (simp add: assms(6))

text \<open>
  A repeated message field. The inner \<open>do\<close> loop and the outer loop agree: reading one
  element and going on with the rest is the same whether the rest starts with the field's
  tag again or not.
\<close>

lemma repeated_field_not_Unusual: "repeated_field rt parse add tag n m p \<noteq> Unusual"
  by (induction rt parse add tag n m p rule: repeated_field.induct)
     (auto split: option.splits list.splits)

lemma repeated_field_fuel:
  assumes "length p < n" and "length p < k"
  shows "repeated_field rt parse add tag n m p = repeated_field rt parse add tag k m p"
  using assms
proof (induction n arbitrary: m p k)
  case 0
  then show ?case by simp
next
  case (Suc n)
  then obtain k' where k: "k = Suc k'" by (cases k) auto
  have "repeated_field rt parse add tag n m' q = repeated_field rt parse add tag k' m' q"
    if "ReadString rt p = Some (s, b # q)" for m' s b q
    using string_consumes [OF that] Suc k by (intro Suc.IH) auto
  then show ?case by (auto simp: k split: option.splits list.splits)
qed

lemma field_tag_byte: "f < 16 \<Longrightarrow> w < 8 \<Longrightarrow> ucast (of_nat (8 * f + w) :: u8) = field_tag f w"
  by (simp add: field_tag_def unsigned_of_nat take_bit_nat_eq_self del: of_nat_add of_nat_mult)

lemma repeated_step:
  assumes "consumes switch" and "0 < f" and "f < 16" and "length s + 16 < 2 ^ 31"
    and sw: "\<And>m q. switch (field_tag f 2) m q = repeated_field rt parse add (of_nat (8 * f + 2)) (Suc (length q)) m q"
    and "parse s = Some x"
  shows "parse_message rt switch unk m (InternalWriteMessage rt f s @ r)
    = parse_message rt switch unk (add x m) r"
proof -
  let ?tag = "of_nat (8 * f + 2) :: u8"
  obtain q where q: "InternalWriteMessage rt f s = ?tag # q"
    "ReadTag rt (InternalWriteMessage rt f s @ r) = Some (field_tag f 2, q @ r)"
    "ReadString rt (q @ r) = Some (s, r)"
    using message_law [OF assms(2-4)] by blast
  have r: "length r < length (q @ r)" using string_consumes [OF q(3)] by linarith
  note cont = parse_message_Continue [OF assms(1) _ q(2)]
  show ?thesis
  proof (cases r)
    case Nil
    then show ?thesis using q assms(6) by (subst cont) (auto simp: sw)
  next
    case (Cons b r')
    show ?thesis
    proof (cases "b = ?tag")
      case False
      then show ?thesis using q assms(6) Cons by (subst cont) (auto simp: sw)
    next
      case True
      have "unat b < 128"
        using True assms(3) by (simp only: unat_of_nat) simp
      from tag_law [OF this, of r'] have t: "ReadTag rt r = Some (field_tag f 2, r')"
        using True Cons assms(3) field_tag_byte [of f 2] by simp
      have "switch (field_tag f 2) m (q @ r) = repeated_field rt parse add ?tag (length (q @ r)) (add x m) r'"
        using q(3) assms(6) Cons True by (simp add: sw)
      also have "\<dots> = repeated_field rt parse add ?tag (Suc (length r')) (add x m) r'"
        using r Cons by (intro repeated_field_fuel) auto
      also have "\<dots> = switch (field_tag f 2) (add x m) r'" by (simp add: sw)
      finally have same: "switch (field_tag f 2) m (q @ r) = switch (field_tag f 2) (add x m) r'" .
      show ?thesis
      proof (cases "switch (field_tag f 2) (add x m) r'")
        case (Continue m'' r'')
        have "parse_message rt switch unk m (InternalWriteMessage rt f s @ r) = parse_message rt switch unk m'' r''"
          by (rule cont) (simp_all add: q(1) same Continue)
        moreover have "parse_message rt switch unk (add x m) r = parse_message rt switch unk m'' r''"
          by (rule parse_message_Continue [OF assms(1) _ t Continue]) (simp add: Cons)
        ultimately show ?thesis by simp
      next
        case Unusual
        then show ?thesis unfolding sw using repeated_field_not_Unusual by fastforce
      next
        case Failure
        with same q t Cons show ?thesis
          by (simp add: parse_message_def parse_loop.simps)
      qed
    qed
  qed
qed

lemma repeated_steps:
  assumes "consumes switch" and "0 < f" and "f < 16"
    and "\<And>m q. switch (field_tag f 2) m q = repeated_field rt parse add (of_nat (8 * f + 2)) (Suc (length q)) m q"
    and "\<And>x. x \<in> set xs \<Longrightarrow> length (ser x) + 16 < 2 ^ 31 \<and> parse (ser x) = Some x"
  shows "parse_message rt switch unk m (concat (map (\<lambda>x. InternalWriteMessage rt f (ser x)) xs) @ r)
    = parse_message rt switch unk (fold add xs m) r"
  using assms(5)
proof (induction xs arbitrary: m)
  case Nil
  then show ?case by simp
next
  case (Cons x xs)
  then show ?case by (simp add: repeated_step [OF assms(1-3) _ assms(4)])
qed

end

declare repeated_field.simps [simp del]

subsection \<open>The wire encoding\<close>

text \<open>
  The documented encoding: base-128 varints, fixed-width and length-delimited fields, UTF-8
  strings. Deprecated groups are rejected. It instantiates the parameter in the witnesses.
\<close>

fun varint_enc :: "nat \<Rightarrow> bytes" where
  "varint_enc n = (if n < 128 then [of_nat n] else of_nat (n mod 128 + 128) # varint_enc (n div 128))"

declare varint_enc.simps [simp del]

fun varint_dec :: "nat \<Rightarrow> bytes \<Rightarrow> (nat \<times> bytes) option" where
  "varint_dec 0 p = None"
| "varint_dec (Suc k) [] = None"
| "varint_dec (Suc k) (b # p) =
     (if unat b < 128 then Some (unat b, p)
      else case varint_dec k p of None \<Rightarrow> None | Some (v, q) \<Rightarrow> Some (unat b - 128 + 128 * v, q))"

definition wire_ReadString :: "bytes \<Rightarrow> (bytes \<times> bytes) option" where
  "wire_ReadString p =
     (case varint_dec 5 p of None \<Rightarrow> None
      | Some (n, q) \<Rightarrow> if n + 16 < 2 ^ 31 \<and> n \<le> length q then Some (take n q, drop n q) else None)"

fun utf8_ok :: "nat list \<Rightarrow> bool" where
  "utf8_ok [] = True"
| "utf8_ok (a # p) =
     (if a < 128 then utf8_ok p
      else if 194 \<le> a \<and> a < 224 then
        (case p of b # q \<Rightarrow> 128 \<le> b \<and> b < 192 \<and> utf8_ok q | _ \<Rightarrow> False)
      else if 224 \<le> a \<and> a < 240 then
        (case p of b # c # q \<Rightarrow> (if a = 224 then 160 else 128) \<le> b \<and> b < (if a = 237 then 160 else 192)
            \<and> 128 \<le> c \<and> c < 192 \<and> utf8_ok q | _ \<Rightarrow> False)
      else if 240 \<le> a \<and> a < 245 then
        (case p of b # c # d # q \<Rightarrow> (if a = 240 then 144 else 128) \<le> b \<and> b < (if a = 244 then 144 else 192)
            \<and> 128 \<le> c \<and> c < 192 \<and> 128 \<le> d \<and> d < 192 \<and> utf8_ok q | _ \<Rightarrow> False)
      else False)"

definition wire_Unknown :: "u32 \<Rightarrow> bytes \<Rightarrow> (bytes \<times> bytes) option" where
  "wire_Unknown t p =
     (let rest = (if t AND 7 = 0 then map_option snd (varint_dec 10 p)
                  else if t AND 7 = 1 then (if 8 \<le> length p then Some (drop 8 p) else None)
                  else if t AND 7 = 2 then map_option snd (wire_ReadString p)
                  else if t AND 7 = 5 then (if 4 \<le> length p then Some (drop 4 p) else None)
                  else None)
      in map_option (\<lambda>q. (varint_enc (unat t) @ take (length p - length q) p, q)) rest)"

definition wire_tag :: "nat \<Rightarrow> nat \<Rightarrow> u8" where
  "wire_tag f w = of_nat (8 * f + w)"

definition wire_rt :: pb_rt where
  "wire_rt = \<lparr>
     ReadTag = (\<lambda>p. map_option (\<lambda>(v, q). (of_nat v, q)) (varint_dec 5 p)),
     ReadVarint32 = (\<lambda>p. map_option (\<lambda>(v, q). (of_nat v, q)) (varint_dec 10 p)),
     ReadVarint64 = (\<lambda>p. map_option (\<lambda>(v, q). (of_nat v, q)) (varint_dec 10 p)),
     ReadString = wire_ReadString,
     VerifyUTF8 = (\<lambda>s. utf8_ok (map unat s)),
     UnknownFieldParse = wire_Unknown,
     WriteUInt32ToArray = (\<lambda>f v. wire_tag f 0 # varint_enc (unat v)),
     WriteInt32ToArray = (\<lambda>f v. wire_tag f 0 # varint_enc (unat (scast v :: u64))),
     WriteUInt64ToArray = (\<lambda>f v. wire_tag f 0 # varint_enc (unat v)),
     WriteBoolToArray = (\<lambda>f b. [wire_tag f 0, if b then 1 else 0]),
     WriteStringMaybeAliased = (\<lambda>f s. wire_tag f 2 # varint_enc (length s) @ s),
     InternalWriteMessage = (\<lambda>f s. wire_tag f 2 # varint_enc (length s) @ s),
     UInt32SizePlusOne = (\<lambda>v. 1 + length (varint_enc (unat v))),
     Int32SizePlusOne = (\<lambda>v. 1 + length (varint_enc (unat (scast v :: u64)))),
     UInt64SizePlusOne = (\<lambda>v. 1 + length (varint_enc (unat v))),
     LengthDelimitedSize = (\<lambda>n. n + length (varint_enc n))\<rparr>"

lemma varint_dec_consumes: "varint_dec k p = Some (v, q) \<Longrightarrow> length q < length p"
  by (induction k p arbitrary: v q rule: varint_dec.induct)
     (auto split: if_splits option.splits prod.splits dest: less_SucI)

lemma varint_dec_enc:
  "0 < k \<Longrightarrow> n < 128 ^ k \<Longrightarrow> varint_dec k (varint_enc n @ r) = Some (n, r)"
proof (induction k arbitrary: n)
  case 0
  then show ?case by simp
next
  case (Suc k)
  show ?case
  proof (cases "n < 128")
    case True
    then show ?thesis by (simp add: varint_enc.simps [of n] unat_of_nat)
  next
    case False
    have u: "unat (of_nat (n mod 128 + 128) :: u8) = n mod 128 + 128"
      by (simp only: unat_of_nat) (simp add: Suc_le_eq)
    have "n div 128 < 128 ^ k" using Suc.prems by (simp add: div_less_iff_less_mult mult.commute)
    moreover from this False have "0 < k" by (cases k) auto
    ultimately have "varint_dec k (varint_enc (n div 128) @ r) = Some (n div 128, r)"
      by (intro Suc.IH)
    with False show ?thesis
      by (simp add: varint_enc.simps [of n] u del: of_nat_add)
  qed
qed

lemma varint_dec_byte: "unat c < 128 \<Longrightarrow> 0 < k \<Longrightarrow> varint_dec k (c # p) = Some (unat c, p)"
  by (cases k) auto

lemma wire_tag_dec:
  assumes "f < 16" and "w < 8"
  shows "varint_dec 5 (wire_tag f w # p) = Some (8 * f + w, p)"
proof -
  have "unat (wire_tag f w) = 8 * f + w"
    unfolding wire_tag_def using assms by (simp only: unat_of_nat) simp
  with assms show ?thesis by (simp add: varint_dec_byte)
qed

lemma scast_ucast_i32: "ucast (scast (v :: i32) :: u64) = v"
  by (rule bit_word_eqI) (simp add: bit_simps)

lemma varint_dec_word:
  "varint_dec 10 (varint_enc (unat (v :: u32)) @ r) = Some (unat v, r)"
  "varint_dec 10 (varint_enc (unat (w :: u64)) @ r) = Some (unat w, r)"
proof -
  have "unat v < 2 ^ 32" and "unat w < 2 ^ 64"
    by (rule unsigned_less [THEN less_le_trans], simp)+
  then show "varint_dec 10 (varint_enc (unat v) @ r) = Some (unat v, r)"
    and "varint_dec 10 (varint_enc (unat w) @ r) = Some (unat w, r)"
    by (simp_all add: varint_dec_enc)
qed

lemma wire_ReadString_enc:
  "length s + 16 < 2 ^ 31 \<Longrightarrow> wire_ReadString (varint_enc (length s) @ s @ r) = Some (s, r)"
  by (simp add: wire_ReadString_def varint_dec_enc)

lemma wire_ReadString_consumes: "wire_ReadString p = Some (s, q) \<Longrightarrow> length s + length q < length p"
  by (auto simp: wire_ReadString_def split: option.splits if_splits dest!: varint_dec_consumes)

lemma wire_Unknown_consumes: "wire_Unknown t p = Some (raw, q) \<Longrightarrow> length q \<le> length p"
  by (auto simp: wire_Unknown_def Let_def split: if_splits
      dest!: varint_dec_consumes wire_ReadString_consumes)

lemma varint_enc_small: "n < 128 \<Longrightarrow> varint_enc n = [of_nat n]"
  by (simp add: varint_enc.simps)

lemma length_varint_enc: "0 < k \<Longrightarrow> n < 128 ^ k \<Longrightarrow> length (varint_enc n) \<le> k"
proof (induction k arbitrary: n)
  case 0
  then show ?case by simp
next
  case (Suc k)
  have "n div 128 < 128 ^ k" using Suc.prems by (simp add: div_less_iff_less_mult mult.commute)
  then show ?case
    using Suc.IH [of "n div 128"] Suc.prems by (cases k) (simp_all add: varint_enc.simps [of n])
qed

lemma length_varint_word:
  "length (varint_enc (unat (v :: u32))) \<le> 5" "length (varint_enc (unat (w :: u64))) \<le> 10"
  using unsigned_less [of v, where 'a = nat] unsigned_less [of w, where 'a = nat] by (auto intro!: length_varint_enc)

interpretation wire: pb_laws wire_rt
proof
  fix c :: u8 and p
  assume "unat c < 128"
  then show "ReadTag wire_rt (c # p) = Some (ucast c, p)"
    by (simp add: wire_rt_def varint_dec_byte)
next
  fix f :: nat and v r assume f: "0 < f" "f < 16"
  show "\<exists>q. WriteUInt32ToArray wire_rt f v @ r \<noteq> [] \<and>
      ReadTag wire_rt (WriteUInt32ToArray wire_rt f v @ r) = Some (field_tag f 0, q) \<and>
      ReadVarint32 wire_rt q = Some (v, r)"
    using f by (simp add: wire_rt_def wire_tag_dec varint_dec_word field_tag_def)
next
  fix f :: nat and v r assume f: "0 < f" "f < 16"
  show "\<exists>q. WriteInt32ToArray wire_rt f v @ r \<noteq> [] \<and>
      ReadTag wire_rt (WriteInt32ToArray wire_rt f v @ r) = Some (field_tag f 0, q) \<and>
      ReadVarint32 wire_rt q = Some (v, r)"
    using f by (simp add: wire_rt_def wire_tag_dec varint_dec_word field_tag_def scast_ucast_i32)
next
  fix f :: nat and v r assume f: "0 < f" "f < 16"
  show "\<exists>q. WriteUInt64ToArray wire_rt f v @ r \<noteq> [] \<and>
      ReadTag wire_rt (WriteUInt64ToArray wire_rt f v @ r) = Some (field_tag f 0, q) \<and>
      ReadVarint64 wire_rt q = Some (v, r)"
    using f by (simp add: wire_rt_def wire_tag_dec varint_dec_word field_tag_def)
next
  fix f :: nat and b r assume f: "0 < f" "f < 16"
  show "\<exists>q. WriteBoolToArray wire_rt f b @ r \<noteq> [] \<and>
      ReadTag wire_rt (WriteBoolToArray wire_rt f b @ r) = Some (field_tag f 0, q) \<and>
      ReadVarint64 wire_rt q = Some (if b then 1 else 0, r)"
    using f by (simp add: wire_rt_def wire_tag_dec field_tag_def varint_dec_byte)
next
  fix f :: nat and s r assume f: "0 < f" "f < 16" and s: "length (s :: bytes) + 16 < 2 ^ 31"
  show "\<exists>q. WriteStringMaybeAliased wire_rt f s @ r \<noteq> [] \<and>
      ReadTag wire_rt (WriteStringMaybeAliased wire_rt f s @ r) = Some (field_tag f 2, q) \<and>
      ReadString wire_rt q = Some (s, r)"
    using f s by (simp add: wire_rt_def wire_tag_dec wire_ReadString_enc field_tag_def)
  show "\<exists>q. InternalWriteMessage wire_rt f s = of_nat (8 * f + 2) # q \<and>
      ReadTag wire_rt (InternalWriteMessage wire_rt f s @ r) = Some (field_tag f 2, q @ r) \<and>
      ReadString wire_rt (q @ r) = Some (s, r)"
    using f s by (simp add: wire_rt_def wire_tag_dec wire_ReadString_enc field_tag_def)
      (simp add: wire_tag_def)
qed (auto simp: wire_rt_def length_varint_word intro!: length_varint_enc
    dest: varint_dec_consumes wire_ReadString_consumes wire_Unknown_consumes intro: less_imp_le)

end
