(* ===== verification/PbGateway.thy ===== *)
theory PbGateway
  imports PbRuntime
begin

section \<open>Gateway messages: registration, binding, kicking\<close>

text \<open>
  The generated classes of \<open>battle/src/protocol/gateway_internal.pb.h\<close> and \<open>.pb.cc\<close> for
  service registration and the binding, unbinding and kicking of sessions. For each message:
  the record of its fields and its unknown bytes, the constructor's defaults, \<open>Clear\<close>,
  the \<open>switch\<close> of \<open>_InternalParse\<close> and the parser, \<open>_InternalSerialize\<close>, \<open>ByteSizeLong\<close>,
  \<open>MergeFrom\<close> and \<open>CopyFrom\<close>. The lemmas: parsing a serialization on top of a message is
  \<open>MergeFrom\<close>, hence the round trip; \<open>ByteSizeLong\<close> is the length of the serialization;
  \<open>CopyFrom\<close> copies.
\<close>

subsection \<open>ServiceEndpoint\<close>

record ServiceEndpoint =
  ServiceEndpoint_service_id :: u32
  ServiceEndpoint_instance_id :: u32
  ServiceEndpoint_unknown :: bytes

definition ServiceEndpoint_default :: ServiceEndpoint where
  "ServiceEndpoint_default = \<lparr>ServiceEndpoint_service_id = 0,
     ServiceEndpoint_instance_id = 0, ServiceEndpoint_unknown = []\<rparr>"

definition ServiceEndpoint_Clear :: "ServiceEndpoint \<Rightarrow> ServiceEndpoint" where
  "ServiceEndpoint_Clear m = m\<lparr>ServiceEndpoint_service_id := 0,
     ServiceEndpoint_instance_id := 0, ServiceEndpoint_unknown := []\<rparr>"

definition ServiceEndpoint_switch :: "pb_rt \<Rightarrow> u32 \<Rightarrow> ServiceEndpoint \<Rightarrow> bytes \<Rightarrow> ServiceEndpoint field_result" where
  "ServiceEndpoint_switch rt tag m ptr =
     (if drop_bit 3 tag = 1 then
        if (ucast tag :: u8) = 8 then varint32_field rt ptr (\<lambda>v. m\<lparr>ServiceEndpoint_service_id := v\<rparr>)
        else Unusual
      else if drop_bit 3 tag = 2 then
        if (ucast tag :: u8) = 16 then varint32_field rt ptr (\<lambda>v. m\<lparr>ServiceEndpoint_instance_id := v\<rparr>)
        else Unusual
      else Unusual)"

definition ServiceEndpoint_parse :: "pb_rt \<Rightarrow> bytes \<Rightarrow> ServiceEndpoint option" where
  "ServiceEndpoint_parse rt p =
     parse_message rt (ServiceEndpoint_switch rt) (\<lambda>raw m. m\<lparr>ServiceEndpoint_unknown := ServiceEndpoint_unknown m @ raw\<rparr>) ServiceEndpoint_default p"

definition ServiceEndpoint_serialize :: "pb_rt \<Rightarrow> ServiceEndpoint \<Rightarrow> bytes" where
  "ServiceEndpoint_serialize rt m =
     (if ServiceEndpoint_service_id m \<noteq> 0 then WriteUInt32ToArray rt 1 (ServiceEndpoint_service_id m) else []) @
     (if ServiceEndpoint_instance_id m \<noteq> 0 then WriteUInt32ToArray rt 2 (ServiceEndpoint_instance_id m) else []) @
     ServiceEndpoint_unknown m"

definition ServiceEndpoint_ByteSizeLong :: "pb_rt \<Rightarrow> ServiceEndpoint \<Rightarrow> nat" where
  "ServiceEndpoint_ByteSizeLong rt m =
     (if ServiceEndpoint_service_id m \<noteq> 0 then UInt32SizePlusOne rt (ServiceEndpoint_service_id m) else 0) +
     (if ServiceEndpoint_instance_id m \<noteq> 0 then UInt32SizePlusOne rt (ServiceEndpoint_instance_id m) else 0) +
     length (ServiceEndpoint_unknown m)"

definition ServiceEndpoint_MergeFrom :: "ServiceEndpoint \<Rightarrow> ServiceEndpoint \<Rightarrow> ServiceEndpoint" where
  "ServiceEndpoint_MergeFrom frm m = m\<lparr>
     ServiceEndpoint_service_id := (if ServiceEndpoint_service_id frm \<noteq> 0 then ServiceEndpoint_service_id frm else ServiceEndpoint_service_id m),
     ServiceEndpoint_instance_id := (if ServiceEndpoint_instance_id frm \<noteq> 0 then ServiceEndpoint_instance_id frm else ServiceEndpoint_instance_id m),
     ServiceEndpoint_unknown := ServiceEndpoint_unknown m @ ServiceEndpoint_unknown frm\<rparr>"

definition ServiceEndpoint_CopyFrom :: "ServiceEndpoint \<Rightarrow> ServiceEndpoint \<Rightarrow> ServiceEndpoint" where
  "ServiceEndpoint_CopyFrom frm m = ServiceEndpoint_MergeFrom frm (ServiceEndpoint_Clear m)"

text \<open>No unknown fields, valid UTF-8 strings, blocks below the runtime's size limit.\<close>

definition ServiceEndpoint_ok :: "pb_rt \<Rightarrow> ServiceEndpoint \<Rightarrow> bool" where
  "ServiceEndpoint_ok rt m \<longleftrightarrow>
     ServiceEndpoint_unknown m = []"

context pb_laws begin

lemma ServiceEndpoint_consumes: "consumes (ServiceEndpoint_switch rt)"
  by (auto simp: consumes_def ServiceEndpoint_switch_def split: if_splits dest: field_consumes)

lemma ServiceEndpoint_service_id_step:
  "parse_message rt (ServiceEndpoint_switch rt) unk m ((if ServiceEndpoint_service_id a \<noteq> 0 then WriteUInt32ToArray rt 1 (ServiceEndpoint_service_id a) else []) @ r)
    = parse_message rt (ServiceEndpoint_switch rt) unk (m\<lparr>ServiceEndpoint_service_id := (if ServiceEndpoint_service_id a \<noteq> 0 then ServiceEndpoint_service_id a else ServiceEndpoint_service_id m)\<rparr>) r"
  by (rule uint32_step [OF ServiceEndpoint_consumes, where upd = "\<lambda>v. m\<lparr>ServiceEndpoint_service_id := v\<rparr>"])
     (simp_all add: ServiceEndpoint_switch_def field_tag_def)

lemma ServiceEndpoint_instance_id_step:
  "parse_message rt (ServiceEndpoint_switch rt) unk m ((if ServiceEndpoint_instance_id a \<noteq> 0 then WriteUInt32ToArray rt 2 (ServiceEndpoint_instance_id a) else []) @ r)
    = parse_message rt (ServiceEndpoint_switch rt) unk (m\<lparr>ServiceEndpoint_instance_id := (if ServiceEndpoint_instance_id a \<noteq> 0 then ServiceEndpoint_instance_id a else ServiceEndpoint_instance_id m)\<rparr>) r"
  by (rule uint32_step [OF ServiceEndpoint_consumes, where upd = "\<lambda>v. m\<lparr>ServiceEndpoint_instance_id := v\<rparr>"])
     (simp_all add: ServiceEndpoint_switch_def field_tag_def)

lemma ServiceEndpoint_MergeFrom_fields:
  "ServiceEndpoint_MergeFrom a m = m\<lparr>ServiceEndpoint_service_id := (if ServiceEndpoint_service_id a \<noteq> 0 then ServiceEndpoint_service_id a else ServiceEndpoint_service_id m),
     ServiceEndpoint_instance_id := (if ServiceEndpoint_instance_id a \<noteq> 0 then ServiceEndpoint_instance_id a else ServiceEndpoint_instance_id m), ServiceEndpoint_unknown := ServiceEndpoint_unknown m @ ServiceEndpoint_unknown a\<rparr>"
  by (rule ServiceEndpoint.equality) (simp_all add: ServiceEndpoint_MergeFrom_def)

lemma ServiceEndpoint_merge:
  assumes "ServiceEndpoint_ok rt a"
  shows "parse_message rt (ServiceEndpoint_switch rt) unk m (ServiceEndpoint_serialize rt a @ r)
    = parse_message rt (ServiceEndpoint_switch rt) unk (ServiceEndpoint_MergeFrom a m) r"
  using assms
  by (simp add: ServiceEndpoint_ok_def ServiceEndpoint_serialize_def ServiceEndpoint_MergeFrom_fields
      ServiceEndpoint_service_id_step ServiceEndpoint_instance_id_step)

lemma ServiceEndpoint_roundtrip:
  assumes "ServiceEndpoint_ok rt a"
  shows "ServiceEndpoint_parse rt (ServiceEndpoint_serialize rt a) = Some a"
  using ServiceEndpoint_merge [OF assms, where r = "[]"] assms
  by (simp add: ServiceEndpoint_parse_def ServiceEndpoint_MergeFrom_def ServiceEndpoint_default_def ServiceEndpoint_ok_def)

lemma ServiceEndpoint_size: "ServiceEndpoint_ByteSizeLong rt a = length (ServiceEndpoint_serialize rt a)"
  by (simp add: ServiceEndpoint_ByteSizeLong_def ServiceEndpoint_serialize_def field_sizes)

end

lemma ServiceEndpoint_CopyFrom_eq: "ServiceEndpoint_CopyFrom a m = a"
  by (simp add: ServiceEndpoint_CopyFrom_def ServiceEndpoint_MergeFrom_def ServiceEndpoint_Clear_def)

subsection \<open>ServerRegReq\<close>

record ServerRegReq =
  ServerRegReq_service_id :: u32
  ServerRegReq_instance_id :: u32
  ServerRegReq_load_score :: u32
  ServerRegReq_accepting_bindings :: bool
  ServerRegReq_load_message :: bytes
  ServerRegReq_unknown :: bytes

definition ServerRegReq_Id :: u16 where "ServerRegReq_Id = 100"

definition ServerRegReq_default :: ServerRegReq where
  "ServerRegReq_default = \<lparr>ServerRegReq_service_id = 0,
     ServerRegReq_instance_id = 0,
     ServerRegReq_load_score = 0,
     ServerRegReq_accepting_bindings = False,
     ServerRegReq_load_message = [], ServerRegReq_unknown = []\<rparr>"

definition ServerRegReq_Clear :: "ServerRegReq \<Rightarrow> ServerRegReq" where
  "ServerRegReq_Clear m = m\<lparr>ServerRegReq_service_id := 0,
     ServerRegReq_instance_id := 0,
     ServerRegReq_load_score := 0,
     ServerRegReq_accepting_bindings := False,
     ServerRegReq_load_message := [], ServerRegReq_unknown := []\<rparr>"

definition ServerRegReq_switch :: "pb_rt \<Rightarrow> u32 \<Rightarrow> ServerRegReq \<Rightarrow> bytes \<Rightarrow> ServerRegReq field_result" where
  "ServerRegReq_switch rt tag m ptr =
     (if drop_bit 3 tag = 1 then
        if (ucast tag :: u8) = 8 then varint32_field rt ptr (\<lambda>v. m\<lparr>ServerRegReq_service_id := v\<rparr>)
        else Unusual
      else if drop_bit 3 tag = 2 then
        if (ucast tag :: u8) = 16 then varint32_field rt ptr (\<lambda>v. m\<lparr>ServerRegReq_instance_id := v\<rparr>)
        else Unusual
      else if drop_bit 3 tag = 3 then
        if (ucast tag :: u8) = 24 then varint32_field rt ptr (\<lambda>v. m\<lparr>ServerRegReq_load_score := v\<rparr>)
        else Unusual
      else if drop_bit 3 tag = 4 then
        if (ucast tag :: u8) = 32 then varint64_field rt ptr (\<lambda>v. m\<lparr>ServerRegReq_accepting_bindings := (v \<noteq> 0)\<rparr>)
        else Unusual
      else if drop_bit 3 tag = 5 then
        if (ucast tag :: u8) = 42 then string_field rt ptr (\<lambda>s. m\<lparr>ServerRegReq_load_message := s\<rparr>)
        else Unusual
      else Unusual)"

definition ServerRegReq_parse :: "pb_rt \<Rightarrow> bytes \<Rightarrow> ServerRegReq option" where
  "ServerRegReq_parse rt p =
     parse_message rt (ServerRegReq_switch rt) (\<lambda>raw m. m\<lparr>ServerRegReq_unknown := ServerRegReq_unknown m @ raw\<rparr>) ServerRegReq_default p"

definition ServerRegReq_serialize :: "pb_rt \<Rightarrow> ServerRegReq \<Rightarrow> bytes" where
  "ServerRegReq_serialize rt m =
     (if ServerRegReq_service_id m \<noteq> 0 then WriteUInt32ToArray rt 1 (ServerRegReq_service_id m) else []) @
     (if ServerRegReq_instance_id m \<noteq> 0 then WriteUInt32ToArray rt 2 (ServerRegReq_instance_id m) else []) @
     (if ServerRegReq_load_score m \<noteq> 0 then WriteUInt32ToArray rt 3 (ServerRegReq_load_score m) else []) @
     (if ServerRegReq_accepting_bindings m then WriteBoolToArray rt 4 (ServerRegReq_accepting_bindings m) else []) @
     (if ServerRegReq_load_message m \<noteq> [] then WriteStringMaybeAliased rt 5 (ServerRegReq_load_message m) else []) @
     ServerRegReq_unknown m"

definition ServerRegReq_ByteSizeLong :: "pb_rt \<Rightarrow> ServerRegReq \<Rightarrow> nat" where
  "ServerRegReq_ByteSizeLong rt m =
     (if ServerRegReq_load_message m \<noteq> [] then 1 + LengthDelimitedSize rt (length (ServerRegReq_load_message m)) else 0) +
     (if ServerRegReq_service_id m \<noteq> 0 then UInt32SizePlusOne rt (ServerRegReq_service_id m) else 0) +
     (if ServerRegReq_instance_id m \<noteq> 0 then UInt32SizePlusOne rt (ServerRegReq_instance_id m) else 0) +
     (if ServerRegReq_load_score m \<noteq> 0 then UInt32SizePlusOne rt (ServerRegReq_load_score m) else 0) +
     (if ServerRegReq_accepting_bindings m then 1 + 1 else 0) +
     length (ServerRegReq_unknown m)"

definition ServerRegReq_MergeFrom :: "ServerRegReq \<Rightarrow> ServerRegReq \<Rightarrow> ServerRegReq" where
  "ServerRegReq_MergeFrom frm m = m\<lparr>
     ServerRegReq_load_message := (if ServerRegReq_load_message frm \<noteq> [] then ServerRegReq_load_message frm else ServerRegReq_load_message m),
     ServerRegReq_service_id := (if ServerRegReq_service_id frm \<noteq> 0 then ServerRegReq_service_id frm else ServerRegReq_service_id m),
     ServerRegReq_instance_id := (if ServerRegReq_instance_id frm \<noteq> 0 then ServerRegReq_instance_id frm else ServerRegReq_instance_id m),
     ServerRegReq_load_score := (if ServerRegReq_load_score frm \<noteq> 0 then ServerRegReq_load_score frm else ServerRegReq_load_score m),
     ServerRegReq_accepting_bindings := (if ServerRegReq_accepting_bindings frm then ServerRegReq_accepting_bindings frm else ServerRegReq_accepting_bindings m),
     ServerRegReq_unknown := ServerRegReq_unknown m @ ServerRegReq_unknown frm\<rparr>"

definition ServerRegReq_CopyFrom :: "ServerRegReq \<Rightarrow> ServerRegReq \<Rightarrow> ServerRegReq" where
  "ServerRegReq_CopyFrom frm m = ServerRegReq_MergeFrom frm (ServerRegReq_Clear m)"

text \<open>No unknown fields, valid UTF-8 strings, blocks below the runtime's size limit.\<close>

definition ServerRegReq_ok :: "pb_rt \<Rightarrow> ServerRegReq \<Rightarrow> bool" where
  "ServerRegReq_ok rt m \<longleftrightarrow>
     ServerRegReq_unknown m = [] \<and>
     VerifyUTF8 rt (ServerRegReq_load_message m) \<and>
     length (ServerRegReq_load_message m) + 16 < 2 ^ 31"

context pb_laws begin

lemma ServerRegReq_consumes: "consumes (ServerRegReq_switch rt)"
  by (auto simp: consumes_def ServerRegReq_switch_def split: if_splits dest: field_consumes)

lemma ServerRegReq_service_id_step:
  "parse_message rt (ServerRegReq_switch rt) unk m ((if ServerRegReq_service_id a \<noteq> 0 then WriteUInt32ToArray rt 1 (ServerRegReq_service_id a) else []) @ r)
    = parse_message rt (ServerRegReq_switch rt) unk (m\<lparr>ServerRegReq_service_id := (if ServerRegReq_service_id a \<noteq> 0 then ServerRegReq_service_id a else ServerRegReq_service_id m)\<rparr>) r"
  by (rule uint32_step [OF ServerRegReq_consumes, where upd = "\<lambda>v. m\<lparr>ServerRegReq_service_id := v\<rparr>"])
     (simp_all add: ServerRegReq_switch_def field_tag_def)

lemma ServerRegReq_instance_id_step:
  "parse_message rt (ServerRegReq_switch rt) unk m ((if ServerRegReq_instance_id a \<noteq> 0 then WriteUInt32ToArray rt 2 (ServerRegReq_instance_id a) else []) @ r)
    = parse_message rt (ServerRegReq_switch rt) unk (m\<lparr>ServerRegReq_instance_id := (if ServerRegReq_instance_id a \<noteq> 0 then ServerRegReq_instance_id a else ServerRegReq_instance_id m)\<rparr>) r"
  by (rule uint32_step [OF ServerRegReq_consumes, where upd = "\<lambda>v. m\<lparr>ServerRegReq_instance_id := v\<rparr>"])
     (simp_all add: ServerRegReq_switch_def field_tag_def)

lemma ServerRegReq_load_score_step:
  "parse_message rt (ServerRegReq_switch rt) unk m ((if ServerRegReq_load_score a \<noteq> 0 then WriteUInt32ToArray rt 3 (ServerRegReq_load_score a) else []) @ r)
    = parse_message rt (ServerRegReq_switch rt) unk (m\<lparr>ServerRegReq_load_score := (if ServerRegReq_load_score a \<noteq> 0 then ServerRegReq_load_score a else ServerRegReq_load_score m)\<rparr>) r"
  by (rule uint32_step [OF ServerRegReq_consumes, where upd = "\<lambda>v. m\<lparr>ServerRegReq_load_score := v\<rparr>"])
     (simp_all add: ServerRegReq_switch_def field_tag_def)

lemma ServerRegReq_accepting_bindings_step:
  "parse_message rt (ServerRegReq_switch rt) unk m ((if ServerRegReq_accepting_bindings a then WriteBoolToArray rt 4 (ServerRegReq_accepting_bindings a) else []) @ r)
    = parse_message rt (ServerRegReq_switch rt) unk (m\<lparr>ServerRegReq_accepting_bindings := (if ServerRegReq_accepting_bindings a then ServerRegReq_accepting_bindings a else ServerRegReq_accepting_bindings m)\<rparr>) r"
  by (rule bool_step [OF ServerRegReq_consumes, where upd = "\<lambda>v. m\<lparr>ServerRegReq_accepting_bindings := v\<rparr>"])
     (simp_all add: ServerRegReq_switch_def field_tag_def)

lemma ServerRegReq_load_message_step:
  "VerifyUTF8 rt (ServerRegReq_load_message a) \<Longrightarrow> length (ServerRegReq_load_message a) + 16 < 2 ^ 31 \<Longrightarrow>
   parse_message rt (ServerRegReq_switch rt) unk m ((if ServerRegReq_load_message a \<noteq> [] then WriteStringMaybeAliased rt 5 (ServerRegReq_load_message a) else []) @ r)
    = parse_message rt (ServerRegReq_switch rt) unk (m\<lparr>ServerRegReq_load_message := (if ServerRegReq_load_message a \<noteq> [] then ServerRegReq_load_message a else ServerRegReq_load_message m)\<rparr>) r"
  by (rule string_step [OF ServerRegReq_consumes, where upd = "\<lambda>v. m\<lparr>ServerRegReq_load_message := v\<rparr>"])
     (simp_all add: ServerRegReq_switch_def field_tag_def)

lemma ServerRegReq_MergeFrom_fields:
  "ServerRegReq_MergeFrom a m = m\<lparr>ServerRegReq_service_id := (if ServerRegReq_service_id a \<noteq> 0 then ServerRegReq_service_id a else ServerRegReq_service_id m),
     ServerRegReq_instance_id := (if ServerRegReq_instance_id a \<noteq> 0 then ServerRegReq_instance_id a else ServerRegReq_instance_id m),
     ServerRegReq_load_score := (if ServerRegReq_load_score a \<noteq> 0 then ServerRegReq_load_score a else ServerRegReq_load_score m),
     ServerRegReq_accepting_bindings := (if ServerRegReq_accepting_bindings a then ServerRegReq_accepting_bindings a else ServerRegReq_accepting_bindings m),
     ServerRegReq_load_message := (if ServerRegReq_load_message a \<noteq> [] then ServerRegReq_load_message a else ServerRegReq_load_message m), ServerRegReq_unknown := ServerRegReq_unknown m @ ServerRegReq_unknown a\<rparr>"
  by (rule ServerRegReq.equality) (simp_all add: ServerRegReq_MergeFrom_def)

lemma ServerRegReq_merge:
  assumes "ServerRegReq_ok rt a"
  shows "parse_message rt (ServerRegReq_switch rt) unk m (ServerRegReq_serialize rt a @ r)
    = parse_message rt (ServerRegReq_switch rt) unk (ServerRegReq_MergeFrom a m) r"
  using assms
  by (simp add: ServerRegReq_ok_def ServerRegReq_serialize_def ServerRegReq_MergeFrom_fields
      ServerRegReq_service_id_step ServerRegReq_instance_id_step ServerRegReq_load_score_step ServerRegReq_accepting_bindings_step ServerRegReq_load_message_step)

lemma ServerRegReq_roundtrip:
  assumes "ServerRegReq_ok rt a"
  shows "ServerRegReq_parse rt (ServerRegReq_serialize rt a) = Some a"
  using ServerRegReq_merge [OF assms, where r = "[]"] assms
  by (simp add: ServerRegReq_parse_def ServerRegReq_MergeFrom_def ServerRegReq_default_def ServerRegReq_ok_def)

lemma ServerRegReq_size: "ServerRegReq_ByteSizeLong rt a = length (ServerRegReq_serialize rt a)"
  by (simp add: ServerRegReq_ByteSizeLong_def ServerRegReq_serialize_def field_sizes)

end

lemma ServerRegReq_CopyFrom_eq: "ServerRegReq_CopyFrom a m = a"
  by (simp add: ServerRegReq_CopyFrom_def ServerRegReq_MergeFrom_def ServerRegReq_Clear_def)

subsection \<open>ServerRegResp\<close>

record ServerRegResp =
  ServerRegResp_code :: u32
  ServerRegResp_servers :: "ServiceEndpoint list"
  ServerRegResp_unknown :: bytes

definition ServerRegResp_Id :: u16 where "ServerRegResp_Id = 101"

definition ServerRegResp_default :: ServerRegResp where
  "ServerRegResp_default = \<lparr>ServerRegResp_code = 0,
     ServerRegResp_servers = [], ServerRegResp_unknown = []\<rparr>"

definition ServerRegResp_Clear :: "ServerRegResp \<Rightarrow> ServerRegResp" where
  "ServerRegResp_Clear m = m\<lparr>ServerRegResp_code := 0,
     ServerRegResp_servers := [], ServerRegResp_unknown := []\<rparr>"

definition ServerRegResp_switch :: "pb_rt \<Rightarrow> u32 \<Rightarrow> ServerRegResp \<Rightarrow> bytes \<Rightarrow> ServerRegResp field_result" where
  "ServerRegResp_switch rt tag m ptr =
     (if drop_bit 3 tag = 1 then
        if (ucast tag :: u8) = 8 then varint32_field rt ptr (\<lambda>v. m\<lparr>ServerRegResp_code := v\<rparr>)
        else Unusual
      else if drop_bit 3 tag = 2 then
        if (ucast tag :: u8) = 18 then repeated_field rt (ServiceEndpoint_parse rt) (\<lambda>x m. m\<lparr>ServerRegResp_servers := ServerRegResp_servers m @ [x]\<rparr>) 18 (Suc (length ptr)) m ptr
        else Unusual
      else Unusual)"

definition ServerRegResp_parse :: "pb_rt \<Rightarrow> bytes \<Rightarrow> ServerRegResp option" where
  "ServerRegResp_parse rt p =
     parse_message rt (ServerRegResp_switch rt) (\<lambda>raw m. m\<lparr>ServerRegResp_unknown := ServerRegResp_unknown m @ raw\<rparr>) ServerRegResp_default p"

definition ServerRegResp_serialize :: "pb_rt \<Rightarrow> ServerRegResp \<Rightarrow> bytes" where
  "ServerRegResp_serialize rt m =
     (if ServerRegResp_code m \<noteq> 0 then WriteUInt32ToArray rt 1 (ServerRegResp_code m) else []) @
     concat (map (\<lambda>x. InternalWriteMessage rt 2 (ServiceEndpoint_serialize rt x)) (ServerRegResp_servers m)) @
     ServerRegResp_unknown m"

definition ServerRegResp_ByteSizeLong :: "pb_rt \<Rightarrow> ServerRegResp \<Rightarrow> nat" where
  "ServerRegResp_ByteSizeLong rt m =
     length (ServerRegResp_servers m) +
     sum_list (map (\<lambda>x. LengthDelimitedSize rt (ServiceEndpoint_ByteSizeLong rt x)) (ServerRegResp_servers m)) +
     (if ServerRegResp_code m \<noteq> 0 then UInt32SizePlusOne rt (ServerRegResp_code m) else 0) +
     length (ServerRegResp_unknown m)"

definition ServerRegResp_MergeFrom :: "ServerRegResp \<Rightarrow> ServerRegResp \<Rightarrow> ServerRegResp" where
  "ServerRegResp_MergeFrom frm m = m\<lparr>
     ServerRegResp_servers := ServerRegResp_servers m @ ServerRegResp_servers frm,
     ServerRegResp_code := (if ServerRegResp_code frm \<noteq> 0 then ServerRegResp_code frm else ServerRegResp_code m),
     ServerRegResp_unknown := ServerRegResp_unknown m @ ServerRegResp_unknown frm\<rparr>"

definition ServerRegResp_CopyFrom :: "ServerRegResp \<Rightarrow> ServerRegResp \<Rightarrow> ServerRegResp" where
  "ServerRegResp_CopyFrom frm m = ServerRegResp_MergeFrom frm (ServerRegResp_Clear m)"

text \<open>No unknown fields, valid UTF-8 strings, blocks below the runtime's size limit.\<close>

definition ServerRegResp_ok :: "pb_rt \<Rightarrow> ServerRegResp \<Rightarrow> bool" where
  "ServerRegResp_ok rt m \<longleftrightarrow>
     ServerRegResp_unknown m = [] \<and>
     (\<forall>x \<in> set (ServerRegResp_servers m). ServiceEndpoint_ok rt x \<and> length (ServiceEndpoint_serialize rt x) + 16 < 2 ^ 31)"

context pb_laws begin

lemma ServerRegResp_consumes: "consumes (ServerRegResp_switch rt)"
  by (auto simp: consumes_def ServerRegResp_switch_def split: if_splits dest: field_consumes)

lemma ServerRegResp_code_step:
  "parse_message rt (ServerRegResp_switch rt) unk m ((if ServerRegResp_code a \<noteq> 0 then WriteUInt32ToArray rt 1 (ServerRegResp_code a) else []) @ r)
    = parse_message rt (ServerRegResp_switch rt) unk (m\<lparr>ServerRegResp_code := (if ServerRegResp_code a \<noteq> 0 then ServerRegResp_code a else ServerRegResp_code m)\<rparr>) r"
  by (rule uint32_step [OF ServerRegResp_consumes, where upd = "\<lambda>v. m\<lparr>ServerRegResp_code := v\<rparr>"])
     (simp_all add: ServerRegResp_switch_def field_tag_def)

lemma ServerRegResp_servers_step:
  assumes "\<forall>x \<in> set (ServerRegResp_servers a). ServiceEndpoint_ok rt x \<and> length (ServiceEndpoint_serialize rt x) + 16 < 2 ^ 31"
  shows "parse_message rt (ServerRegResp_switch rt) unk m (concat (map (\<lambda>x. InternalWriteMessage rt 2 ((ServiceEndpoint_serialize rt) x)) (ServerRegResp_servers a)) @ r)
    = parse_message rt (ServerRegResp_switch rt) unk (m\<lparr>ServerRegResp_servers := ServerRegResp_servers m @ ServerRegResp_servers a\<rparr>) r"
proof -
  let ?add = "\<lambda>x m. m\<lparr>ServerRegResp_servers := ServerRegResp_servers m @ [x]\<rparr>"
  have "fold ?add xs m = m\<lparr>ServerRegResp_servers := ServerRegResp_servers m @ xs\<rparr>" for xs
    by (induction xs arbitrary: m) simp_all
  moreover have "parse_message rt (ServerRegResp_switch rt) unk m (concat (map (\<lambda>x. InternalWriteMessage rt 2 ((ServiceEndpoint_serialize rt) x)) (ServerRegResp_servers a)) @ r)
      = parse_message rt (ServerRegResp_switch rt) unk (fold ?add (ServerRegResp_servers a) m) r"
    by (rule repeated_steps [OF ServerRegResp_consumes, where parse = "ServiceEndpoint_parse rt" and add = ?add])
       (use assms in \<open>simp_all add: ServerRegResp_switch_def field_tag_def ServiceEndpoint_roundtrip\<close>)
  ultimately show ?thesis by simp
qed

lemma ServerRegResp_MergeFrom_fields:
  "ServerRegResp_MergeFrom a m = m\<lparr>ServerRegResp_code := (if ServerRegResp_code a \<noteq> 0 then ServerRegResp_code a else ServerRegResp_code m),
     ServerRegResp_servers := ServerRegResp_servers m @ ServerRegResp_servers a, ServerRegResp_unknown := ServerRegResp_unknown m @ ServerRegResp_unknown a\<rparr>"
  by (rule ServerRegResp.equality) (simp_all add: ServerRegResp_MergeFrom_def)

lemma ServerRegResp_merge:
  assumes "ServerRegResp_ok rt a"
  shows "parse_message rt (ServerRegResp_switch rt) unk m (ServerRegResp_serialize rt a @ r)
    = parse_message rt (ServerRegResp_switch rt) unk (ServerRegResp_MergeFrom a m) r"
  using assms
  by (simp add: ServerRegResp_ok_def ServerRegResp_serialize_def ServerRegResp_MergeFrom_fields
      ServerRegResp_code_step ServerRegResp_servers_step)

lemma ServerRegResp_roundtrip:
  assumes "ServerRegResp_ok rt a"
  shows "ServerRegResp_parse rt (ServerRegResp_serialize rt a) = Some a"
  using ServerRegResp_merge [OF assms, where r = "[]"] assms
  by (simp add: ServerRegResp_parse_def ServerRegResp_MergeFrom_def ServerRegResp_default_def ServerRegResp_ok_def)

lemma ServerRegResp_size: "ServerRegResp_ByteSizeLong rt a = length (ServerRegResp_serialize rt a)"
  by (simp add: ServerRegResp_ByteSizeLong_def ServerRegResp_serialize_def field_sizes ServiceEndpoint_size)

end

lemma ServerRegResp_CopyFrom_eq: "ServerRegResp_CopyFrom a m = a"
  by (simp add: ServerRegResp_CopyFrom_def ServerRegResp_MergeFrom_def ServerRegResp_Clear_def)

subsection \<open>BindServiceReq\<close>

record BindServiceReq =
  BindServiceReq_session_id :: u32
  BindServiceReq_service_id :: u32
  BindServiceReq_target_instance_id :: i32
  BindServiceReq_unknown :: bytes

definition BindServiceReq_Id :: u16 where "BindServiceReq_Id = 102"

definition BindServiceReq_default :: BindServiceReq where
  "BindServiceReq_default = \<lparr>BindServiceReq_session_id = 0,
     BindServiceReq_service_id = 0,
     BindServiceReq_target_instance_id = 0, BindServiceReq_unknown = []\<rparr>"

definition BindServiceReq_Clear :: "BindServiceReq \<Rightarrow> BindServiceReq" where
  "BindServiceReq_Clear m = m\<lparr>BindServiceReq_session_id := 0,
     BindServiceReq_service_id := 0,
     BindServiceReq_target_instance_id := 0, BindServiceReq_unknown := []\<rparr>"

definition BindServiceReq_switch :: "pb_rt \<Rightarrow> u32 \<Rightarrow> BindServiceReq \<Rightarrow> bytes \<Rightarrow> BindServiceReq field_result" where
  "BindServiceReq_switch rt tag m ptr =
     (if drop_bit 3 tag = 1 then
        if (ucast tag :: u8) = 8 then varint32_field rt ptr (\<lambda>v. m\<lparr>BindServiceReq_session_id := v\<rparr>)
        else Unusual
      else if drop_bit 3 tag = 2 then
        if (ucast tag :: u8) = 16 then varint32_field rt ptr (\<lambda>v. m\<lparr>BindServiceReq_service_id := v\<rparr>)
        else Unusual
      else if drop_bit 3 tag = 3 then
        if (ucast tag :: u8) = 24 then varint32_field rt ptr (\<lambda>v. m\<lparr>BindServiceReq_target_instance_id := v\<rparr>)
        else Unusual
      else Unusual)"

definition BindServiceReq_parse :: "pb_rt \<Rightarrow> bytes \<Rightarrow> BindServiceReq option" where
  "BindServiceReq_parse rt p =
     parse_message rt (BindServiceReq_switch rt) (\<lambda>raw m. m\<lparr>BindServiceReq_unknown := BindServiceReq_unknown m @ raw\<rparr>) BindServiceReq_default p"

definition BindServiceReq_serialize :: "pb_rt \<Rightarrow> BindServiceReq \<Rightarrow> bytes" where
  "BindServiceReq_serialize rt m =
     (if BindServiceReq_session_id m \<noteq> 0 then WriteUInt32ToArray rt 1 (BindServiceReq_session_id m) else []) @
     (if BindServiceReq_service_id m \<noteq> 0 then WriteUInt32ToArray rt 2 (BindServiceReq_service_id m) else []) @
     (if BindServiceReq_target_instance_id m \<noteq> 0 then WriteInt32ToArray rt 3 (BindServiceReq_target_instance_id m) else []) @
     BindServiceReq_unknown m"

definition BindServiceReq_ByteSizeLong :: "pb_rt \<Rightarrow> BindServiceReq \<Rightarrow> nat" where
  "BindServiceReq_ByteSizeLong rt m =
     (if BindServiceReq_session_id m \<noteq> 0 then UInt32SizePlusOne rt (BindServiceReq_session_id m) else 0) +
     (if BindServiceReq_service_id m \<noteq> 0 then UInt32SizePlusOne rt (BindServiceReq_service_id m) else 0) +
     (if BindServiceReq_target_instance_id m \<noteq> 0 then Int32SizePlusOne rt (BindServiceReq_target_instance_id m) else 0) +
     length (BindServiceReq_unknown m)"

definition BindServiceReq_MergeFrom :: "BindServiceReq \<Rightarrow> BindServiceReq \<Rightarrow> BindServiceReq" where
  "BindServiceReq_MergeFrom frm m = m\<lparr>
     BindServiceReq_session_id := (if BindServiceReq_session_id frm \<noteq> 0 then BindServiceReq_session_id frm else BindServiceReq_session_id m),
     BindServiceReq_service_id := (if BindServiceReq_service_id frm \<noteq> 0 then BindServiceReq_service_id frm else BindServiceReq_service_id m),
     BindServiceReq_target_instance_id := (if BindServiceReq_target_instance_id frm \<noteq> 0 then BindServiceReq_target_instance_id frm else BindServiceReq_target_instance_id m),
     BindServiceReq_unknown := BindServiceReq_unknown m @ BindServiceReq_unknown frm\<rparr>"

definition BindServiceReq_CopyFrom :: "BindServiceReq \<Rightarrow> BindServiceReq \<Rightarrow> BindServiceReq" where
  "BindServiceReq_CopyFrom frm m = BindServiceReq_MergeFrom frm (BindServiceReq_Clear m)"

text \<open>No unknown fields, valid UTF-8 strings, blocks below the runtime's size limit.\<close>

definition BindServiceReq_ok :: "pb_rt \<Rightarrow> BindServiceReq \<Rightarrow> bool" where
  "BindServiceReq_ok rt m \<longleftrightarrow>
     BindServiceReq_unknown m = []"

context pb_laws begin

lemma BindServiceReq_consumes: "consumes (BindServiceReq_switch rt)"
  by (auto simp: consumes_def BindServiceReq_switch_def split: if_splits dest: field_consumes)

lemma BindServiceReq_session_id_step:
  "parse_message rt (BindServiceReq_switch rt) unk m ((if BindServiceReq_session_id a \<noteq> 0 then WriteUInt32ToArray rt 1 (BindServiceReq_session_id a) else []) @ r)
    = parse_message rt (BindServiceReq_switch rt) unk (m\<lparr>BindServiceReq_session_id := (if BindServiceReq_session_id a \<noteq> 0 then BindServiceReq_session_id a else BindServiceReq_session_id m)\<rparr>) r"
  by (rule uint32_step [OF BindServiceReq_consumes, where upd = "\<lambda>v. m\<lparr>BindServiceReq_session_id := v\<rparr>"])
     (simp_all add: BindServiceReq_switch_def field_tag_def)

lemma BindServiceReq_service_id_step:
  "parse_message rt (BindServiceReq_switch rt) unk m ((if BindServiceReq_service_id a \<noteq> 0 then WriteUInt32ToArray rt 2 (BindServiceReq_service_id a) else []) @ r)
    = parse_message rt (BindServiceReq_switch rt) unk (m\<lparr>BindServiceReq_service_id := (if BindServiceReq_service_id a \<noteq> 0 then BindServiceReq_service_id a else BindServiceReq_service_id m)\<rparr>) r"
  by (rule uint32_step [OF BindServiceReq_consumes, where upd = "\<lambda>v. m\<lparr>BindServiceReq_service_id := v\<rparr>"])
     (simp_all add: BindServiceReq_switch_def field_tag_def)

lemma BindServiceReq_target_instance_id_step:
  "parse_message rt (BindServiceReq_switch rt) unk m ((if BindServiceReq_target_instance_id a \<noteq> 0 then WriteInt32ToArray rt 3 (BindServiceReq_target_instance_id a) else []) @ r)
    = parse_message rt (BindServiceReq_switch rt) unk (m\<lparr>BindServiceReq_target_instance_id := (if BindServiceReq_target_instance_id a \<noteq> 0 then BindServiceReq_target_instance_id a else BindServiceReq_target_instance_id m)\<rparr>) r"
  by (rule int32_step [OF BindServiceReq_consumes, where upd = "\<lambda>v. m\<lparr>BindServiceReq_target_instance_id := v\<rparr>"])
     (simp_all add: BindServiceReq_switch_def field_tag_def)

lemma BindServiceReq_MergeFrom_fields:
  "BindServiceReq_MergeFrom a m = m\<lparr>BindServiceReq_session_id := (if BindServiceReq_session_id a \<noteq> 0 then BindServiceReq_session_id a else BindServiceReq_session_id m),
     BindServiceReq_service_id := (if BindServiceReq_service_id a \<noteq> 0 then BindServiceReq_service_id a else BindServiceReq_service_id m),
     BindServiceReq_target_instance_id := (if BindServiceReq_target_instance_id a \<noteq> 0 then BindServiceReq_target_instance_id a else BindServiceReq_target_instance_id m), BindServiceReq_unknown := BindServiceReq_unknown m @ BindServiceReq_unknown a\<rparr>"
  by (rule BindServiceReq.equality) (simp_all add: BindServiceReq_MergeFrom_def)

lemma BindServiceReq_merge:
  assumes "BindServiceReq_ok rt a"
  shows "parse_message rt (BindServiceReq_switch rt) unk m (BindServiceReq_serialize rt a @ r)
    = parse_message rt (BindServiceReq_switch rt) unk (BindServiceReq_MergeFrom a m) r"
  using assms
  by (simp add: BindServiceReq_ok_def BindServiceReq_serialize_def BindServiceReq_MergeFrom_fields
      BindServiceReq_session_id_step BindServiceReq_service_id_step BindServiceReq_target_instance_id_step)

lemma BindServiceReq_roundtrip:
  assumes "BindServiceReq_ok rt a"
  shows "BindServiceReq_parse rt (BindServiceReq_serialize rt a) = Some a"
  using BindServiceReq_merge [OF assms, where r = "[]"] assms
  by (simp add: BindServiceReq_parse_def BindServiceReq_MergeFrom_def BindServiceReq_default_def BindServiceReq_ok_def)

lemma BindServiceReq_size: "BindServiceReq_ByteSizeLong rt a = length (BindServiceReq_serialize rt a)"
  by (simp add: BindServiceReq_ByteSizeLong_def BindServiceReq_serialize_def field_sizes)

end

lemma BindServiceReq_CopyFrom_eq: "BindServiceReq_CopyFrom a m = a"
  by (simp add: BindServiceReq_CopyFrom_def BindServiceReq_MergeFrom_def BindServiceReq_Clear_def)

subsection \<open>BindServiceResp\<close>

record BindServiceResp =
  BindServiceResp_session_id :: u32
  BindServiceResp_service_id :: u32
  BindServiceResp_instance_id :: u32
  BindServiceResp_code :: u32
  BindServiceResp_message :: bytes
  BindServiceResp_unknown :: bytes

definition BindServiceResp_Id :: u16 where "BindServiceResp_Id = 103"

definition BindServiceResp_default :: BindServiceResp where
  "BindServiceResp_default = \<lparr>BindServiceResp_session_id = 0,
     BindServiceResp_service_id = 0,
     BindServiceResp_instance_id = 0,
     BindServiceResp_code = 0,
     BindServiceResp_message = [], BindServiceResp_unknown = []\<rparr>"

definition BindServiceResp_Clear :: "BindServiceResp \<Rightarrow> BindServiceResp" where
  "BindServiceResp_Clear m = m\<lparr>BindServiceResp_session_id := 0,
     BindServiceResp_service_id := 0,
     BindServiceResp_instance_id := 0,
     BindServiceResp_code := 0,
     BindServiceResp_message := [], BindServiceResp_unknown := []\<rparr>"

definition BindServiceResp_switch :: "pb_rt \<Rightarrow> u32 \<Rightarrow> BindServiceResp \<Rightarrow> bytes \<Rightarrow> BindServiceResp field_result" where
  "BindServiceResp_switch rt tag m ptr =
     (if drop_bit 3 tag = 1 then
        if (ucast tag :: u8) = 8 then varint32_field rt ptr (\<lambda>v. m\<lparr>BindServiceResp_session_id := v\<rparr>)
        else Unusual
      else if drop_bit 3 tag = 2 then
        if (ucast tag :: u8) = 16 then varint32_field rt ptr (\<lambda>v. m\<lparr>BindServiceResp_service_id := v\<rparr>)
        else Unusual
      else if drop_bit 3 tag = 3 then
        if (ucast tag :: u8) = 24 then varint32_field rt ptr (\<lambda>v. m\<lparr>BindServiceResp_instance_id := v\<rparr>)
        else Unusual
      else if drop_bit 3 tag = 4 then
        if (ucast tag :: u8) = 32 then varint32_field rt ptr (\<lambda>v. m\<lparr>BindServiceResp_code := v\<rparr>)
        else Unusual
      else if drop_bit 3 tag = 5 then
        if (ucast tag :: u8) = 42 then string_field rt ptr (\<lambda>s. m\<lparr>BindServiceResp_message := s\<rparr>)
        else Unusual
      else Unusual)"

definition BindServiceResp_parse :: "pb_rt \<Rightarrow> bytes \<Rightarrow> BindServiceResp option" where
  "BindServiceResp_parse rt p =
     parse_message rt (BindServiceResp_switch rt) (\<lambda>raw m. m\<lparr>BindServiceResp_unknown := BindServiceResp_unknown m @ raw\<rparr>) BindServiceResp_default p"

definition BindServiceResp_serialize :: "pb_rt \<Rightarrow> BindServiceResp \<Rightarrow> bytes" where
  "BindServiceResp_serialize rt m =
     (if BindServiceResp_session_id m \<noteq> 0 then WriteUInt32ToArray rt 1 (BindServiceResp_session_id m) else []) @
     (if BindServiceResp_service_id m \<noteq> 0 then WriteUInt32ToArray rt 2 (BindServiceResp_service_id m) else []) @
     (if BindServiceResp_instance_id m \<noteq> 0 then WriteUInt32ToArray rt 3 (BindServiceResp_instance_id m) else []) @
     (if BindServiceResp_code m \<noteq> 0 then WriteUInt32ToArray rt 4 (BindServiceResp_code m) else []) @
     (if BindServiceResp_message m \<noteq> [] then WriteStringMaybeAliased rt 5 (BindServiceResp_message m) else []) @
     BindServiceResp_unknown m"

definition BindServiceResp_ByteSizeLong :: "pb_rt \<Rightarrow> BindServiceResp \<Rightarrow> nat" where
  "BindServiceResp_ByteSizeLong rt m =
     (if BindServiceResp_message m \<noteq> [] then 1 + LengthDelimitedSize rt (length (BindServiceResp_message m)) else 0) +
     (if BindServiceResp_session_id m \<noteq> 0 then UInt32SizePlusOne rt (BindServiceResp_session_id m) else 0) +
     (if BindServiceResp_service_id m \<noteq> 0 then UInt32SizePlusOne rt (BindServiceResp_service_id m) else 0) +
     (if BindServiceResp_instance_id m \<noteq> 0 then UInt32SizePlusOne rt (BindServiceResp_instance_id m) else 0) +
     (if BindServiceResp_code m \<noteq> 0 then UInt32SizePlusOne rt (BindServiceResp_code m) else 0) +
     length (BindServiceResp_unknown m)"

definition BindServiceResp_MergeFrom :: "BindServiceResp \<Rightarrow> BindServiceResp \<Rightarrow> BindServiceResp" where
  "BindServiceResp_MergeFrom frm m = m\<lparr>
     BindServiceResp_message := (if BindServiceResp_message frm \<noteq> [] then BindServiceResp_message frm else BindServiceResp_message m),
     BindServiceResp_session_id := (if BindServiceResp_session_id frm \<noteq> 0 then BindServiceResp_session_id frm else BindServiceResp_session_id m),
     BindServiceResp_service_id := (if BindServiceResp_service_id frm \<noteq> 0 then BindServiceResp_service_id frm else BindServiceResp_service_id m),
     BindServiceResp_instance_id := (if BindServiceResp_instance_id frm \<noteq> 0 then BindServiceResp_instance_id frm else BindServiceResp_instance_id m),
     BindServiceResp_code := (if BindServiceResp_code frm \<noteq> 0 then BindServiceResp_code frm else BindServiceResp_code m),
     BindServiceResp_unknown := BindServiceResp_unknown m @ BindServiceResp_unknown frm\<rparr>"

definition BindServiceResp_CopyFrom :: "BindServiceResp \<Rightarrow> BindServiceResp \<Rightarrow> BindServiceResp" where
  "BindServiceResp_CopyFrom frm m = BindServiceResp_MergeFrom frm (BindServiceResp_Clear m)"

text \<open>No unknown fields, valid UTF-8 strings, blocks below the runtime's size limit.\<close>

definition BindServiceResp_ok :: "pb_rt \<Rightarrow> BindServiceResp \<Rightarrow> bool" where
  "BindServiceResp_ok rt m \<longleftrightarrow>
     BindServiceResp_unknown m = [] \<and>
     VerifyUTF8 rt (BindServiceResp_message m) \<and>
     length (BindServiceResp_message m) + 16 < 2 ^ 31"

context pb_laws begin

lemma BindServiceResp_consumes: "consumes (BindServiceResp_switch rt)"
  by (auto simp: consumes_def BindServiceResp_switch_def split: if_splits dest: field_consumes)

lemma BindServiceResp_session_id_step:
  "parse_message rt (BindServiceResp_switch rt) unk m ((if BindServiceResp_session_id a \<noteq> 0 then WriteUInt32ToArray rt 1 (BindServiceResp_session_id a) else []) @ r)
    = parse_message rt (BindServiceResp_switch rt) unk (m\<lparr>BindServiceResp_session_id := (if BindServiceResp_session_id a \<noteq> 0 then BindServiceResp_session_id a else BindServiceResp_session_id m)\<rparr>) r"
  by (rule uint32_step [OF BindServiceResp_consumes, where upd = "\<lambda>v. m\<lparr>BindServiceResp_session_id := v\<rparr>"])
     (simp_all add: BindServiceResp_switch_def field_tag_def)

lemma BindServiceResp_service_id_step:
  "parse_message rt (BindServiceResp_switch rt) unk m ((if BindServiceResp_service_id a \<noteq> 0 then WriteUInt32ToArray rt 2 (BindServiceResp_service_id a) else []) @ r)
    = parse_message rt (BindServiceResp_switch rt) unk (m\<lparr>BindServiceResp_service_id := (if BindServiceResp_service_id a \<noteq> 0 then BindServiceResp_service_id a else BindServiceResp_service_id m)\<rparr>) r"
  by (rule uint32_step [OF BindServiceResp_consumes, where upd = "\<lambda>v. m\<lparr>BindServiceResp_service_id := v\<rparr>"])
     (simp_all add: BindServiceResp_switch_def field_tag_def)

lemma BindServiceResp_instance_id_step:
  "parse_message rt (BindServiceResp_switch rt) unk m ((if BindServiceResp_instance_id a \<noteq> 0 then WriteUInt32ToArray rt 3 (BindServiceResp_instance_id a) else []) @ r)
    = parse_message rt (BindServiceResp_switch rt) unk (m\<lparr>BindServiceResp_instance_id := (if BindServiceResp_instance_id a \<noteq> 0 then BindServiceResp_instance_id a else BindServiceResp_instance_id m)\<rparr>) r"
  by (rule uint32_step [OF BindServiceResp_consumes, where upd = "\<lambda>v. m\<lparr>BindServiceResp_instance_id := v\<rparr>"])
     (simp_all add: BindServiceResp_switch_def field_tag_def)

lemma BindServiceResp_code_step:
  "parse_message rt (BindServiceResp_switch rt) unk m ((if BindServiceResp_code a \<noteq> 0 then WriteUInt32ToArray rt 4 (BindServiceResp_code a) else []) @ r)
    = parse_message rt (BindServiceResp_switch rt) unk (m\<lparr>BindServiceResp_code := (if BindServiceResp_code a \<noteq> 0 then BindServiceResp_code a else BindServiceResp_code m)\<rparr>) r"
  by (rule uint32_step [OF BindServiceResp_consumes, where upd = "\<lambda>v. m\<lparr>BindServiceResp_code := v\<rparr>"])
     (simp_all add: BindServiceResp_switch_def field_tag_def)

lemma BindServiceResp_message_step:
  "VerifyUTF8 rt (BindServiceResp_message a) \<Longrightarrow> length (BindServiceResp_message a) + 16 < 2 ^ 31 \<Longrightarrow>
   parse_message rt (BindServiceResp_switch rt) unk m ((if BindServiceResp_message a \<noteq> [] then WriteStringMaybeAliased rt 5 (BindServiceResp_message a) else []) @ r)
    = parse_message rt (BindServiceResp_switch rt) unk (m\<lparr>BindServiceResp_message := (if BindServiceResp_message a \<noteq> [] then BindServiceResp_message a else BindServiceResp_message m)\<rparr>) r"
  by (rule string_step [OF BindServiceResp_consumes, where upd = "\<lambda>v. m\<lparr>BindServiceResp_message := v\<rparr>"])
     (simp_all add: BindServiceResp_switch_def field_tag_def)

lemma BindServiceResp_MergeFrom_fields:
  "BindServiceResp_MergeFrom a m = m\<lparr>BindServiceResp_session_id := (if BindServiceResp_session_id a \<noteq> 0 then BindServiceResp_session_id a else BindServiceResp_session_id m),
     BindServiceResp_service_id := (if BindServiceResp_service_id a \<noteq> 0 then BindServiceResp_service_id a else BindServiceResp_service_id m),
     BindServiceResp_instance_id := (if BindServiceResp_instance_id a \<noteq> 0 then BindServiceResp_instance_id a else BindServiceResp_instance_id m),
     BindServiceResp_code := (if BindServiceResp_code a \<noteq> 0 then BindServiceResp_code a else BindServiceResp_code m),
     BindServiceResp_message := (if BindServiceResp_message a \<noteq> [] then BindServiceResp_message a else BindServiceResp_message m), BindServiceResp_unknown := BindServiceResp_unknown m @ BindServiceResp_unknown a\<rparr>"
  by (rule BindServiceResp.equality) (simp_all add: BindServiceResp_MergeFrom_def)

lemma BindServiceResp_merge:
  assumes "BindServiceResp_ok rt a"
  shows "parse_message rt (BindServiceResp_switch rt) unk m (BindServiceResp_serialize rt a @ r)
    = parse_message rt (BindServiceResp_switch rt) unk (BindServiceResp_MergeFrom a m) r"
  using assms
  by (simp add: BindServiceResp_ok_def BindServiceResp_serialize_def BindServiceResp_MergeFrom_fields
      BindServiceResp_session_id_step BindServiceResp_service_id_step BindServiceResp_instance_id_step BindServiceResp_code_step BindServiceResp_message_step)

lemma BindServiceResp_roundtrip:
  assumes "BindServiceResp_ok rt a"
  shows "BindServiceResp_parse rt (BindServiceResp_serialize rt a) = Some a"
  using BindServiceResp_merge [OF assms, where r = "[]"] assms
  by (simp add: BindServiceResp_parse_def BindServiceResp_MergeFrom_def BindServiceResp_default_def BindServiceResp_ok_def)

lemma BindServiceResp_size: "BindServiceResp_ByteSizeLong rt a = length (BindServiceResp_serialize rt a)"
  by (simp add: BindServiceResp_ByteSizeLong_def BindServiceResp_serialize_def field_sizes)

end

lemma BindServiceResp_CopyFrom_eq: "BindServiceResp_CopyFrom a m = a"
  by (simp add: BindServiceResp_CopyFrom_def BindServiceResp_MergeFrom_def BindServiceResp_Clear_def)

subsection \<open>UnbindServiceReq\<close>

record UnbindServiceReq =
  UnbindServiceReq_session_id :: u32
  UnbindServiceReq_service_id :: u32
  UnbindServiceReq_unknown :: bytes

definition UnbindServiceReq_Id :: u16 where "UnbindServiceReq_Id = 104"

definition UnbindServiceReq_default :: UnbindServiceReq where
  "UnbindServiceReq_default = \<lparr>UnbindServiceReq_session_id = 0,
     UnbindServiceReq_service_id = 0, UnbindServiceReq_unknown = []\<rparr>"

definition UnbindServiceReq_Clear :: "UnbindServiceReq \<Rightarrow> UnbindServiceReq" where
  "UnbindServiceReq_Clear m = m\<lparr>UnbindServiceReq_session_id := 0,
     UnbindServiceReq_service_id := 0, UnbindServiceReq_unknown := []\<rparr>"

definition UnbindServiceReq_switch :: "pb_rt \<Rightarrow> u32 \<Rightarrow> UnbindServiceReq \<Rightarrow> bytes \<Rightarrow> UnbindServiceReq field_result" where
  "UnbindServiceReq_switch rt tag m ptr =
     (if drop_bit 3 tag = 1 then
        if (ucast tag :: u8) = 8 then varint32_field rt ptr (\<lambda>v. m\<lparr>UnbindServiceReq_session_id := v\<rparr>)
        else Unusual
      else if drop_bit 3 tag = 2 then
        if (ucast tag :: u8) = 16 then varint32_field rt ptr (\<lambda>v. m\<lparr>UnbindServiceReq_service_id := v\<rparr>)
        else Unusual
      else Unusual)"

definition UnbindServiceReq_parse :: "pb_rt \<Rightarrow> bytes \<Rightarrow> UnbindServiceReq option" where
  "UnbindServiceReq_parse rt p =
     parse_message rt (UnbindServiceReq_switch rt) (\<lambda>raw m. m\<lparr>UnbindServiceReq_unknown := UnbindServiceReq_unknown m @ raw\<rparr>) UnbindServiceReq_default p"

definition UnbindServiceReq_serialize :: "pb_rt \<Rightarrow> UnbindServiceReq \<Rightarrow> bytes" where
  "UnbindServiceReq_serialize rt m =
     (if UnbindServiceReq_session_id m \<noteq> 0 then WriteUInt32ToArray rt 1 (UnbindServiceReq_session_id m) else []) @
     (if UnbindServiceReq_service_id m \<noteq> 0 then WriteUInt32ToArray rt 2 (UnbindServiceReq_service_id m) else []) @
     UnbindServiceReq_unknown m"

definition UnbindServiceReq_ByteSizeLong :: "pb_rt \<Rightarrow> UnbindServiceReq \<Rightarrow> nat" where
  "UnbindServiceReq_ByteSizeLong rt m =
     (if UnbindServiceReq_session_id m \<noteq> 0 then UInt32SizePlusOne rt (UnbindServiceReq_session_id m) else 0) +
     (if UnbindServiceReq_service_id m \<noteq> 0 then UInt32SizePlusOne rt (UnbindServiceReq_service_id m) else 0) +
     length (UnbindServiceReq_unknown m)"

definition UnbindServiceReq_MergeFrom :: "UnbindServiceReq \<Rightarrow> UnbindServiceReq \<Rightarrow> UnbindServiceReq" where
  "UnbindServiceReq_MergeFrom frm m = m\<lparr>
     UnbindServiceReq_session_id := (if UnbindServiceReq_session_id frm \<noteq> 0 then UnbindServiceReq_session_id frm else UnbindServiceReq_session_id m),
     UnbindServiceReq_service_id := (if UnbindServiceReq_service_id frm \<noteq> 0 then UnbindServiceReq_service_id frm else UnbindServiceReq_service_id m),
     UnbindServiceReq_unknown := UnbindServiceReq_unknown m @ UnbindServiceReq_unknown frm\<rparr>"

definition UnbindServiceReq_CopyFrom :: "UnbindServiceReq \<Rightarrow> UnbindServiceReq \<Rightarrow> UnbindServiceReq" where
  "UnbindServiceReq_CopyFrom frm m = UnbindServiceReq_MergeFrom frm (UnbindServiceReq_Clear m)"

text \<open>No unknown fields, valid UTF-8 strings, blocks below the runtime's size limit.\<close>

definition UnbindServiceReq_ok :: "pb_rt \<Rightarrow> UnbindServiceReq \<Rightarrow> bool" where
  "UnbindServiceReq_ok rt m \<longleftrightarrow>
     UnbindServiceReq_unknown m = []"

context pb_laws begin

lemma UnbindServiceReq_consumes: "consumes (UnbindServiceReq_switch rt)"
  by (auto simp: consumes_def UnbindServiceReq_switch_def split: if_splits dest: field_consumes)

lemma UnbindServiceReq_session_id_step:
  "parse_message rt (UnbindServiceReq_switch rt) unk m ((if UnbindServiceReq_session_id a \<noteq> 0 then WriteUInt32ToArray rt 1 (UnbindServiceReq_session_id a) else []) @ r)
    = parse_message rt (UnbindServiceReq_switch rt) unk (m\<lparr>UnbindServiceReq_session_id := (if UnbindServiceReq_session_id a \<noteq> 0 then UnbindServiceReq_session_id a else UnbindServiceReq_session_id m)\<rparr>) r"
  by (rule uint32_step [OF UnbindServiceReq_consumes, where upd = "\<lambda>v. m\<lparr>UnbindServiceReq_session_id := v\<rparr>"])
     (simp_all add: UnbindServiceReq_switch_def field_tag_def)

lemma UnbindServiceReq_service_id_step:
  "parse_message rt (UnbindServiceReq_switch rt) unk m ((if UnbindServiceReq_service_id a \<noteq> 0 then WriteUInt32ToArray rt 2 (UnbindServiceReq_service_id a) else []) @ r)
    = parse_message rt (UnbindServiceReq_switch rt) unk (m\<lparr>UnbindServiceReq_service_id := (if UnbindServiceReq_service_id a \<noteq> 0 then UnbindServiceReq_service_id a else UnbindServiceReq_service_id m)\<rparr>) r"
  by (rule uint32_step [OF UnbindServiceReq_consumes, where upd = "\<lambda>v. m\<lparr>UnbindServiceReq_service_id := v\<rparr>"])
     (simp_all add: UnbindServiceReq_switch_def field_tag_def)

lemma UnbindServiceReq_MergeFrom_fields:
  "UnbindServiceReq_MergeFrom a m = m\<lparr>UnbindServiceReq_session_id := (if UnbindServiceReq_session_id a \<noteq> 0 then UnbindServiceReq_session_id a else UnbindServiceReq_session_id m),
     UnbindServiceReq_service_id := (if UnbindServiceReq_service_id a \<noteq> 0 then UnbindServiceReq_service_id a else UnbindServiceReq_service_id m), UnbindServiceReq_unknown := UnbindServiceReq_unknown m @ UnbindServiceReq_unknown a\<rparr>"
  by (rule UnbindServiceReq.equality) (simp_all add: UnbindServiceReq_MergeFrom_def)

lemma UnbindServiceReq_merge:
  assumes "UnbindServiceReq_ok rt a"
  shows "parse_message rt (UnbindServiceReq_switch rt) unk m (UnbindServiceReq_serialize rt a @ r)
    = parse_message rt (UnbindServiceReq_switch rt) unk (UnbindServiceReq_MergeFrom a m) r"
  using assms
  by (simp add: UnbindServiceReq_ok_def UnbindServiceReq_serialize_def UnbindServiceReq_MergeFrom_fields
      UnbindServiceReq_session_id_step UnbindServiceReq_service_id_step)

lemma UnbindServiceReq_roundtrip:
  assumes "UnbindServiceReq_ok rt a"
  shows "UnbindServiceReq_parse rt (UnbindServiceReq_serialize rt a) = Some a"
  using UnbindServiceReq_merge [OF assms, where r = "[]"] assms
  by (simp add: UnbindServiceReq_parse_def UnbindServiceReq_MergeFrom_def UnbindServiceReq_default_def UnbindServiceReq_ok_def)

lemma UnbindServiceReq_size: "UnbindServiceReq_ByteSizeLong rt a = length (UnbindServiceReq_serialize rt a)"
  by (simp add: UnbindServiceReq_ByteSizeLong_def UnbindServiceReq_serialize_def field_sizes)

end

lemma UnbindServiceReq_CopyFrom_eq: "UnbindServiceReq_CopyFrom a m = a"
  by (simp add: UnbindServiceReq_CopyFrom_def UnbindServiceReq_MergeFrom_def UnbindServiceReq_Clear_def)

subsection \<open>UnbindServiceResp\<close>

record UnbindServiceResp =
  UnbindServiceResp_session_id :: u32
  UnbindServiceResp_service_id :: u32
  UnbindServiceResp_code :: u32
  UnbindServiceResp_message :: bytes
  UnbindServiceResp_unknown :: bytes

definition UnbindServiceResp_Id :: u16 where "UnbindServiceResp_Id = 105"

definition UnbindServiceResp_default :: UnbindServiceResp where
  "UnbindServiceResp_default = \<lparr>UnbindServiceResp_session_id = 0,
     UnbindServiceResp_service_id = 0,
     UnbindServiceResp_code = 0,
     UnbindServiceResp_message = [], UnbindServiceResp_unknown = []\<rparr>"

definition UnbindServiceResp_Clear :: "UnbindServiceResp \<Rightarrow> UnbindServiceResp" where
  "UnbindServiceResp_Clear m = m\<lparr>UnbindServiceResp_session_id := 0,
     UnbindServiceResp_service_id := 0,
     UnbindServiceResp_code := 0,
     UnbindServiceResp_message := [], UnbindServiceResp_unknown := []\<rparr>"

definition UnbindServiceResp_switch :: "pb_rt \<Rightarrow> u32 \<Rightarrow> UnbindServiceResp \<Rightarrow> bytes \<Rightarrow> UnbindServiceResp field_result" where
  "UnbindServiceResp_switch rt tag m ptr =
     (if drop_bit 3 tag = 1 then
        if (ucast tag :: u8) = 8 then varint32_field rt ptr (\<lambda>v. m\<lparr>UnbindServiceResp_session_id := v\<rparr>)
        else Unusual
      else if drop_bit 3 tag = 2 then
        if (ucast tag :: u8) = 16 then varint32_field rt ptr (\<lambda>v. m\<lparr>UnbindServiceResp_service_id := v\<rparr>)
        else Unusual
      else if drop_bit 3 tag = 3 then
        if (ucast tag :: u8) = 24 then varint32_field rt ptr (\<lambda>v. m\<lparr>UnbindServiceResp_code := v\<rparr>)
        else Unusual
      else if drop_bit 3 tag = 4 then
        if (ucast tag :: u8) = 34 then string_field rt ptr (\<lambda>s. m\<lparr>UnbindServiceResp_message := s\<rparr>)
        else Unusual
      else Unusual)"

definition UnbindServiceResp_parse :: "pb_rt \<Rightarrow> bytes \<Rightarrow> UnbindServiceResp option" where
  "UnbindServiceResp_parse rt p =
     parse_message rt (UnbindServiceResp_switch rt) (\<lambda>raw m. m\<lparr>UnbindServiceResp_unknown := UnbindServiceResp_unknown m @ raw\<rparr>) UnbindServiceResp_default p"

definition UnbindServiceResp_serialize :: "pb_rt \<Rightarrow> UnbindServiceResp \<Rightarrow> bytes" where
  "UnbindServiceResp_serialize rt m =
     (if UnbindServiceResp_session_id m \<noteq> 0 then WriteUInt32ToArray rt 1 (UnbindServiceResp_session_id m) else []) @
     (if UnbindServiceResp_service_id m \<noteq> 0 then WriteUInt32ToArray rt 2 (UnbindServiceResp_service_id m) else []) @
     (if UnbindServiceResp_code m \<noteq> 0 then WriteUInt32ToArray rt 3 (UnbindServiceResp_code m) else []) @
     (if UnbindServiceResp_message m \<noteq> [] then WriteStringMaybeAliased rt 4 (UnbindServiceResp_message m) else []) @
     UnbindServiceResp_unknown m"

definition UnbindServiceResp_ByteSizeLong :: "pb_rt \<Rightarrow> UnbindServiceResp \<Rightarrow> nat" where
  "UnbindServiceResp_ByteSizeLong rt m =
     (if UnbindServiceResp_message m \<noteq> [] then 1 + LengthDelimitedSize rt (length (UnbindServiceResp_message m)) else 0) +
     (if UnbindServiceResp_session_id m \<noteq> 0 then UInt32SizePlusOne rt (UnbindServiceResp_session_id m) else 0) +
     (if UnbindServiceResp_service_id m \<noteq> 0 then UInt32SizePlusOne rt (UnbindServiceResp_service_id m) else 0) +
     (if UnbindServiceResp_code m \<noteq> 0 then UInt32SizePlusOne rt (UnbindServiceResp_code m) else 0) +
     length (UnbindServiceResp_unknown m)"

definition UnbindServiceResp_MergeFrom :: "UnbindServiceResp \<Rightarrow> UnbindServiceResp \<Rightarrow> UnbindServiceResp" where
  "UnbindServiceResp_MergeFrom frm m = m\<lparr>
     UnbindServiceResp_message := (if UnbindServiceResp_message frm \<noteq> [] then UnbindServiceResp_message frm else UnbindServiceResp_message m),
     UnbindServiceResp_session_id := (if UnbindServiceResp_session_id frm \<noteq> 0 then UnbindServiceResp_session_id frm else UnbindServiceResp_session_id m),
     UnbindServiceResp_service_id := (if UnbindServiceResp_service_id frm \<noteq> 0 then UnbindServiceResp_service_id frm else UnbindServiceResp_service_id m),
     UnbindServiceResp_code := (if UnbindServiceResp_code frm \<noteq> 0 then UnbindServiceResp_code frm else UnbindServiceResp_code m),
     UnbindServiceResp_unknown := UnbindServiceResp_unknown m @ UnbindServiceResp_unknown frm\<rparr>"

definition UnbindServiceResp_CopyFrom :: "UnbindServiceResp \<Rightarrow> UnbindServiceResp \<Rightarrow> UnbindServiceResp" where
  "UnbindServiceResp_CopyFrom frm m = UnbindServiceResp_MergeFrom frm (UnbindServiceResp_Clear m)"

text \<open>No unknown fields, valid UTF-8 strings, blocks below the runtime's size limit.\<close>

definition UnbindServiceResp_ok :: "pb_rt \<Rightarrow> UnbindServiceResp \<Rightarrow> bool" where
  "UnbindServiceResp_ok rt m \<longleftrightarrow>
     UnbindServiceResp_unknown m = [] \<and>
     VerifyUTF8 rt (UnbindServiceResp_message m) \<and>
     length (UnbindServiceResp_message m) + 16 < 2 ^ 31"

context pb_laws begin

lemma UnbindServiceResp_consumes: "consumes (UnbindServiceResp_switch rt)"
  by (auto simp: consumes_def UnbindServiceResp_switch_def split: if_splits dest: field_consumes)

lemma UnbindServiceResp_session_id_step:
  "parse_message rt (UnbindServiceResp_switch rt) unk m ((if UnbindServiceResp_session_id a \<noteq> 0 then WriteUInt32ToArray rt 1 (UnbindServiceResp_session_id a) else []) @ r)
    = parse_message rt (UnbindServiceResp_switch rt) unk (m\<lparr>UnbindServiceResp_session_id := (if UnbindServiceResp_session_id a \<noteq> 0 then UnbindServiceResp_session_id a else UnbindServiceResp_session_id m)\<rparr>) r"
  by (rule uint32_step [OF UnbindServiceResp_consumes, where upd = "\<lambda>v. m\<lparr>UnbindServiceResp_session_id := v\<rparr>"])
     (simp_all add: UnbindServiceResp_switch_def field_tag_def)

lemma UnbindServiceResp_service_id_step:
  "parse_message rt (UnbindServiceResp_switch rt) unk m ((if UnbindServiceResp_service_id a \<noteq> 0 then WriteUInt32ToArray rt 2 (UnbindServiceResp_service_id a) else []) @ r)
    = parse_message rt (UnbindServiceResp_switch rt) unk (m\<lparr>UnbindServiceResp_service_id := (if UnbindServiceResp_service_id a \<noteq> 0 then UnbindServiceResp_service_id a else UnbindServiceResp_service_id m)\<rparr>) r"
  by (rule uint32_step [OF UnbindServiceResp_consumes, where upd = "\<lambda>v. m\<lparr>UnbindServiceResp_service_id := v\<rparr>"])
     (simp_all add: UnbindServiceResp_switch_def field_tag_def)

lemma UnbindServiceResp_code_step:
  "parse_message rt (UnbindServiceResp_switch rt) unk m ((if UnbindServiceResp_code a \<noteq> 0 then WriteUInt32ToArray rt 3 (UnbindServiceResp_code a) else []) @ r)
    = parse_message rt (UnbindServiceResp_switch rt) unk (m\<lparr>UnbindServiceResp_code := (if UnbindServiceResp_code a \<noteq> 0 then UnbindServiceResp_code a else UnbindServiceResp_code m)\<rparr>) r"
  by (rule uint32_step [OF UnbindServiceResp_consumes, where upd = "\<lambda>v. m\<lparr>UnbindServiceResp_code := v\<rparr>"])
     (simp_all add: UnbindServiceResp_switch_def field_tag_def)

lemma UnbindServiceResp_message_step:
  "VerifyUTF8 rt (UnbindServiceResp_message a) \<Longrightarrow> length (UnbindServiceResp_message a) + 16 < 2 ^ 31 \<Longrightarrow>
   parse_message rt (UnbindServiceResp_switch rt) unk m ((if UnbindServiceResp_message a \<noteq> [] then WriteStringMaybeAliased rt 4 (UnbindServiceResp_message a) else []) @ r)
    = parse_message rt (UnbindServiceResp_switch rt) unk (m\<lparr>UnbindServiceResp_message := (if UnbindServiceResp_message a \<noteq> [] then UnbindServiceResp_message a else UnbindServiceResp_message m)\<rparr>) r"
  by (rule string_step [OF UnbindServiceResp_consumes, where upd = "\<lambda>v. m\<lparr>UnbindServiceResp_message := v\<rparr>"])
     (simp_all add: UnbindServiceResp_switch_def field_tag_def)

lemma UnbindServiceResp_MergeFrom_fields:
  "UnbindServiceResp_MergeFrom a m = m\<lparr>UnbindServiceResp_session_id := (if UnbindServiceResp_session_id a \<noteq> 0 then UnbindServiceResp_session_id a else UnbindServiceResp_session_id m),
     UnbindServiceResp_service_id := (if UnbindServiceResp_service_id a \<noteq> 0 then UnbindServiceResp_service_id a else UnbindServiceResp_service_id m),
     UnbindServiceResp_code := (if UnbindServiceResp_code a \<noteq> 0 then UnbindServiceResp_code a else UnbindServiceResp_code m),
     UnbindServiceResp_message := (if UnbindServiceResp_message a \<noteq> [] then UnbindServiceResp_message a else UnbindServiceResp_message m), UnbindServiceResp_unknown := UnbindServiceResp_unknown m @ UnbindServiceResp_unknown a\<rparr>"
  by (rule UnbindServiceResp.equality) (simp_all add: UnbindServiceResp_MergeFrom_def)

lemma UnbindServiceResp_merge:
  assumes "UnbindServiceResp_ok rt a"
  shows "parse_message rt (UnbindServiceResp_switch rt) unk m (UnbindServiceResp_serialize rt a @ r)
    = parse_message rt (UnbindServiceResp_switch rt) unk (UnbindServiceResp_MergeFrom a m) r"
  using assms
  by (simp add: UnbindServiceResp_ok_def UnbindServiceResp_serialize_def UnbindServiceResp_MergeFrom_fields
      UnbindServiceResp_session_id_step UnbindServiceResp_service_id_step UnbindServiceResp_code_step UnbindServiceResp_message_step)

lemma UnbindServiceResp_roundtrip:
  assumes "UnbindServiceResp_ok rt a"
  shows "UnbindServiceResp_parse rt (UnbindServiceResp_serialize rt a) = Some a"
  using UnbindServiceResp_merge [OF assms, where r = "[]"] assms
  by (simp add: UnbindServiceResp_parse_def UnbindServiceResp_MergeFrom_def UnbindServiceResp_default_def UnbindServiceResp_ok_def)

lemma UnbindServiceResp_size: "UnbindServiceResp_ByteSizeLong rt a = length (UnbindServiceResp_serialize rt a)"
  by (simp add: UnbindServiceResp_ByteSizeLong_def UnbindServiceResp_serialize_def field_sizes)

end

lemma UnbindServiceResp_CopyFrom_eq: "UnbindServiceResp_CopyFrom a m = a"
  by (simp add: UnbindServiceResp_CopyFrom_def UnbindServiceResp_MergeFrom_def UnbindServiceResp_Clear_def)

subsection \<open>KickSessionReq\<close>

record KickSessionReq =
  KickSessionReq_session_id :: u32
  KickSessionReq_unknown :: bytes

definition KickSessionReq_Id :: u16 where "KickSessionReq_Id = 106"

definition KickSessionReq_default :: KickSessionReq where
  "KickSessionReq_default = \<lparr>KickSessionReq_session_id = 0, KickSessionReq_unknown = []\<rparr>"

definition KickSessionReq_Clear :: "KickSessionReq \<Rightarrow> KickSessionReq" where
  "KickSessionReq_Clear m = m\<lparr>KickSessionReq_session_id := 0, KickSessionReq_unknown := []\<rparr>"

definition KickSessionReq_switch :: "pb_rt \<Rightarrow> u32 \<Rightarrow> KickSessionReq \<Rightarrow> bytes \<Rightarrow> KickSessionReq field_result" where
  "KickSessionReq_switch rt tag m ptr =
     (if drop_bit 3 tag = 1 then
        if (ucast tag :: u8) = 8 then varint32_field rt ptr (\<lambda>v. m\<lparr>KickSessionReq_session_id := v\<rparr>)
        else Unusual
      else Unusual)"

definition KickSessionReq_parse :: "pb_rt \<Rightarrow> bytes \<Rightarrow> KickSessionReq option" where
  "KickSessionReq_parse rt p =
     parse_message rt (KickSessionReq_switch rt) (\<lambda>raw m. m\<lparr>KickSessionReq_unknown := KickSessionReq_unknown m @ raw\<rparr>) KickSessionReq_default p"

definition KickSessionReq_serialize :: "pb_rt \<Rightarrow> KickSessionReq \<Rightarrow> bytes" where
  "KickSessionReq_serialize rt m =
     (if KickSessionReq_session_id m \<noteq> 0 then WriteUInt32ToArray rt 1 (KickSessionReq_session_id m) else []) @
     KickSessionReq_unknown m"

definition KickSessionReq_ByteSizeLong :: "pb_rt \<Rightarrow> KickSessionReq \<Rightarrow> nat" where
  "KickSessionReq_ByteSizeLong rt m =
     (if KickSessionReq_session_id m \<noteq> 0 then UInt32SizePlusOne rt (KickSessionReq_session_id m) else 0) +
     length (KickSessionReq_unknown m)"

definition KickSessionReq_MergeFrom :: "KickSessionReq \<Rightarrow> KickSessionReq \<Rightarrow> KickSessionReq" where
  "KickSessionReq_MergeFrom frm m = m\<lparr>
     KickSessionReq_session_id := (if KickSessionReq_session_id frm \<noteq> 0 then KickSessionReq_session_id frm else KickSessionReq_session_id m),
     KickSessionReq_unknown := KickSessionReq_unknown m @ KickSessionReq_unknown frm\<rparr>"

definition KickSessionReq_CopyFrom :: "KickSessionReq \<Rightarrow> KickSessionReq \<Rightarrow> KickSessionReq" where
  "KickSessionReq_CopyFrom frm m = KickSessionReq_MergeFrom frm (KickSessionReq_Clear m)"

text \<open>No unknown fields, valid UTF-8 strings, blocks below the runtime's size limit.\<close>

definition KickSessionReq_ok :: "pb_rt \<Rightarrow> KickSessionReq \<Rightarrow> bool" where
  "KickSessionReq_ok rt m \<longleftrightarrow>
     KickSessionReq_unknown m = []"

context pb_laws begin

lemma KickSessionReq_consumes: "consumes (KickSessionReq_switch rt)"
  by (auto simp: consumes_def KickSessionReq_switch_def split: if_splits dest: field_consumes)

lemma KickSessionReq_session_id_step:
  "parse_message rt (KickSessionReq_switch rt) unk m ((if KickSessionReq_session_id a \<noteq> 0 then WriteUInt32ToArray rt 1 (KickSessionReq_session_id a) else []) @ r)
    = parse_message rt (KickSessionReq_switch rt) unk (m\<lparr>KickSessionReq_session_id := (if KickSessionReq_session_id a \<noteq> 0 then KickSessionReq_session_id a else KickSessionReq_session_id m)\<rparr>) r"
  by (rule uint32_step [OF KickSessionReq_consumes, where upd = "\<lambda>v. m\<lparr>KickSessionReq_session_id := v\<rparr>"])
     (simp_all add: KickSessionReq_switch_def field_tag_def)

lemma KickSessionReq_MergeFrom_fields:
  "KickSessionReq_MergeFrom a m = m\<lparr>KickSessionReq_session_id := (if KickSessionReq_session_id a \<noteq> 0 then KickSessionReq_session_id a else KickSessionReq_session_id m), KickSessionReq_unknown := KickSessionReq_unknown m @ KickSessionReq_unknown a\<rparr>"
  by (rule KickSessionReq.equality) (simp_all add: KickSessionReq_MergeFrom_def)

lemma KickSessionReq_merge:
  assumes "KickSessionReq_ok rt a"
  shows "parse_message rt (KickSessionReq_switch rt) unk m (KickSessionReq_serialize rt a @ r)
    = parse_message rt (KickSessionReq_switch rt) unk (KickSessionReq_MergeFrom a m) r"
  using assms
  by (simp add: KickSessionReq_ok_def KickSessionReq_serialize_def KickSessionReq_MergeFrom_fields
      KickSessionReq_session_id_step)

lemma KickSessionReq_roundtrip:
  assumes "KickSessionReq_ok rt a"
  shows "KickSessionReq_parse rt (KickSessionReq_serialize rt a) = Some a"
  using KickSessionReq_merge [OF assms, where r = "[]"] assms
  by (simp add: KickSessionReq_parse_def KickSessionReq_MergeFrom_def KickSessionReq_default_def KickSessionReq_ok_def)

lemma KickSessionReq_size: "KickSessionReq_ByteSizeLong rt a = length (KickSessionReq_serialize rt a)"
  by (simp add: KickSessionReq_ByteSizeLong_def KickSessionReq_serialize_def field_sizes)

end

lemma KickSessionReq_CopyFrom_eq: "KickSessionReq_CopyFrom a m = a"
  by (simp add: KickSessionReq_CopyFrom_def KickSessionReq_MergeFrom_def KickSessionReq_Clear_def)

subsection \<open>KickSessionRsp\<close>

record KickSessionRsp =
  KickSessionRsp_code :: u32
  KickSessionRsp_session_id :: u32
  KickSessionRsp_unknown :: bytes

definition KickSessionRsp_Id :: u16 where "KickSessionRsp_Id = 107"

definition KickSessionRsp_default :: KickSessionRsp where
  "KickSessionRsp_default = \<lparr>KickSessionRsp_code = 0,
     KickSessionRsp_session_id = 0, KickSessionRsp_unknown = []\<rparr>"

definition KickSessionRsp_Clear :: "KickSessionRsp \<Rightarrow> KickSessionRsp" where
  "KickSessionRsp_Clear m = m\<lparr>KickSessionRsp_code := 0,
     KickSessionRsp_session_id := 0, KickSessionRsp_unknown := []\<rparr>"

definition KickSessionRsp_switch :: "pb_rt \<Rightarrow> u32 \<Rightarrow> KickSessionRsp \<Rightarrow> bytes \<Rightarrow> KickSessionRsp field_result" where
  "KickSessionRsp_switch rt tag m ptr =
     (if drop_bit 3 tag = 1 then
        if (ucast tag :: u8) = 8 then varint32_field rt ptr (\<lambda>v. m\<lparr>KickSessionRsp_code := v\<rparr>)
        else Unusual
      else if drop_bit 3 tag = 2 then
        if (ucast tag :: u8) = 16 then varint32_field rt ptr (\<lambda>v. m\<lparr>KickSessionRsp_session_id := v\<rparr>)
        else Unusual
      else Unusual)"

definition KickSessionRsp_parse :: "pb_rt \<Rightarrow> bytes \<Rightarrow> KickSessionRsp option" where
  "KickSessionRsp_parse rt p =
     parse_message rt (KickSessionRsp_switch rt) (\<lambda>raw m. m\<lparr>KickSessionRsp_unknown := KickSessionRsp_unknown m @ raw\<rparr>) KickSessionRsp_default p"

definition KickSessionRsp_serialize :: "pb_rt \<Rightarrow> KickSessionRsp \<Rightarrow> bytes" where
  "KickSessionRsp_serialize rt m =
     (if KickSessionRsp_code m \<noteq> 0 then WriteUInt32ToArray rt 1 (KickSessionRsp_code m) else []) @
     (if KickSessionRsp_session_id m \<noteq> 0 then WriteUInt32ToArray rt 2 (KickSessionRsp_session_id m) else []) @
     KickSessionRsp_unknown m"

definition KickSessionRsp_ByteSizeLong :: "pb_rt \<Rightarrow> KickSessionRsp \<Rightarrow> nat" where
  "KickSessionRsp_ByteSizeLong rt m =
     (if KickSessionRsp_code m \<noteq> 0 then UInt32SizePlusOne rt (KickSessionRsp_code m) else 0) +
     (if KickSessionRsp_session_id m \<noteq> 0 then UInt32SizePlusOne rt (KickSessionRsp_session_id m) else 0) +
     length (KickSessionRsp_unknown m)"

definition KickSessionRsp_MergeFrom :: "KickSessionRsp \<Rightarrow> KickSessionRsp \<Rightarrow> KickSessionRsp" where
  "KickSessionRsp_MergeFrom frm m = m\<lparr>
     KickSessionRsp_code := (if KickSessionRsp_code frm \<noteq> 0 then KickSessionRsp_code frm else KickSessionRsp_code m),
     KickSessionRsp_session_id := (if KickSessionRsp_session_id frm \<noteq> 0 then KickSessionRsp_session_id frm else KickSessionRsp_session_id m),
     KickSessionRsp_unknown := KickSessionRsp_unknown m @ KickSessionRsp_unknown frm\<rparr>"

definition KickSessionRsp_CopyFrom :: "KickSessionRsp \<Rightarrow> KickSessionRsp \<Rightarrow> KickSessionRsp" where
  "KickSessionRsp_CopyFrom frm m = KickSessionRsp_MergeFrom frm (KickSessionRsp_Clear m)"

text \<open>No unknown fields, valid UTF-8 strings, blocks below the runtime's size limit.\<close>

definition KickSessionRsp_ok :: "pb_rt \<Rightarrow> KickSessionRsp \<Rightarrow> bool" where
  "KickSessionRsp_ok rt m \<longleftrightarrow>
     KickSessionRsp_unknown m = []"

context pb_laws begin

lemma KickSessionRsp_consumes: "consumes (KickSessionRsp_switch rt)"
  by (auto simp: consumes_def KickSessionRsp_switch_def split: if_splits dest: field_consumes)

lemma KickSessionRsp_code_step:
  "parse_message rt (KickSessionRsp_switch rt) unk m ((if KickSessionRsp_code a \<noteq> 0 then WriteUInt32ToArray rt 1 (KickSessionRsp_code a) else []) @ r)
    = parse_message rt (KickSessionRsp_switch rt) unk (m\<lparr>KickSessionRsp_code := (if KickSessionRsp_code a \<noteq> 0 then KickSessionRsp_code a else KickSessionRsp_code m)\<rparr>) r"
  by (rule uint32_step [OF KickSessionRsp_consumes, where upd = "\<lambda>v. m\<lparr>KickSessionRsp_code := v\<rparr>"])
     (simp_all add: KickSessionRsp_switch_def field_tag_def)

lemma KickSessionRsp_session_id_step:
  "parse_message rt (KickSessionRsp_switch rt) unk m ((if KickSessionRsp_session_id a \<noteq> 0 then WriteUInt32ToArray rt 2 (KickSessionRsp_session_id a) else []) @ r)
    = parse_message rt (KickSessionRsp_switch rt) unk (m\<lparr>KickSessionRsp_session_id := (if KickSessionRsp_session_id a \<noteq> 0 then KickSessionRsp_session_id a else KickSessionRsp_session_id m)\<rparr>) r"
  by (rule uint32_step [OF KickSessionRsp_consumes, where upd = "\<lambda>v. m\<lparr>KickSessionRsp_session_id := v\<rparr>"])
     (simp_all add: KickSessionRsp_switch_def field_tag_def)

lemma KickSessionRsp_MergeFrom_fields:
  "KickSessionRsp_MergeFrom a m = m\<lparr>KickSessionRsp_code := (if KickSessionRsp_code a \<noteq> 0 then KickSessionRsp_code a else KickSessionRsp_code m),
     KickSessionRsp_session_id := (if KickSessionRsp_session_id a \<noteq> 0 then KickSessionRsp_session_id a else KickSessionRsp_session_id m), KickSessionRsp_unknown := KickSessionRsp_unknown m @ KickSessionRsp_unknown a\<rparr>"
  by (rule KickSessionRsp.equality) (simp_all add: KickSessionRsp_MergeFrom_def)

lemma KickSessionRsp_merge:
  assumes "KickSessionRsp_ok rt a"
  shows "parse_message rt (KickSessionRsp_switch rt) unk m (KickSessionRsp_serialize rt a @ r)
    = parse_message rt (KickSessionRsp_switch rt) unk (KickSessionRsp_MergeFrom a m) r"
  using assms
  by (simp add: KickSessionRsp_ok_def KickSessionRsp_serialize_def KickSessionRsp_MergeFrom_fields
      KickSessionRsp_code_step KickSessionRsp_session_id_step)

lemma KickSessionRsp_roundtrip:
  assumes "KickSessionRsp_ok rt a"
  shows "KickSessionRsp_parse rt (KickSessionRsp_serialize rt a) = Some a"
  using KickSessionRsp_merge [OF assms, where r = "[]"] assms
  by (simp add: KickSessionRsp_parse_def KickSessionRsp_MergeFrom_def KickSessionRsp_default_def KickSessionRsp_ok_def)

lemma KickSessionRsp_size: "KickSessionRsp_ByteSizeLong rt a = length (KickSessionRsp_serialize rt a)"
  by (simp add: KickSessionRsp_ByteSizeLong_def KickSessionRsp_serialize_def field_sizes)

end

lemma KickSessionRsp_CopyFrom_eq: "KickSessionRsp_CopyFrom a m = a"
  by (simp add: KickSessionRsp_CopyFrom_def KickSessionRsp_MergeFrom_def KickSessionRsp_Clear_def)

end
