(* ===== verification/PbGatewayPush.thy ===== *)
theory PbGatewayPush
  imports PbGateway
begin

section \<open>Gateway messages: pushes, forwarding, load, heartbeat\<close>

text \<open>
  The remaining generated classes of \<open>battle/src/protocol/gateway_internal.pb.h\<close> and \<open>.pb.cc\<close>:
  session and server notifications, the forwarding envelope, load reports and the
  heartbeat, with the same definitions and lemmas per message as the registration messages.
\<close>

subsection \<open>SessionOnlinePush\<close>

record SessionOnlinePush =
  SessionOnlinePush_session_id :: u32
  SessionOnlinePush_unknown :: bytes

definition SessionOnlinePush_Id :: u16 where "SessionOnlinePush_Id = 108"

definition SessionOnlinePush_default :: SessionOnlinePush where
  "SessionOnlinePush_default = \<lparr>SessionOnlinePush_session_id = 0, SessionOnlinePush_unknown = []\<rparr>"

definition SessionOnlinePush_Clear :: "SessionOnlinePush \<Rightarrow> SessionOnlinePush" where
  "SessionOnlinePush_Clear m = m\<lparr>SessionOnlinePush_session_id := 0, SessionOnlinePush_unknown := []\<rparr>"

definition SessionOnlinePush_switch :: "pb_rt \<Rightarrow> u32 \<Rightarrow> SessionOnlinePush \<Rightarrow> bytes \<Rightarrow> SessionOnlinePush field_result" where
  "SessionOnlinePush_switch rt tag m ptr =
     (if drop_bit 3 tag = 1 then
        if (ucast tag :: u8) = 8 then varint32_field rt ptr (\<lambda>v. m\<lparr>SessionOnlinePush_session_id := v\<rparr>)
        else Unusual
      else Unusual)"

definition SessionOnlinePush_parse :: "pb_rt \<Rightarrow> bytes \<Rightarrow> SessionOnlinePush option" where
  "SessionOnlinePush_parse rt p =
     parse_message rt (SessionOnlinePush_switch rt) (\<lambda>raw m. m\<lparr>SessionOnlinePush_unknown := SessionOnlinePush_unknown m @ raw\<rparr>) SessionOnlinePush_default p"

definition SessionOnlinePush_serialize :: "pb_rt \<Rightarrow> SessionOnlinePush \<Rightarrow> bytes" where
  "SessionOnlinePush_serialize rt m =
     (if SessionOnlinePush_session_id m \<noteq> 0 then WriteUInt32ToArray rt 1 (SessionOnlinePush_session_id m) else []) @
     SessionOnlinePush_unknown m"

definition SessionOnlinePush_ByteSizeLong :: "pb_rt \<Rightarrow> SessionOnlinePush \<Rightarrow> nat" where
  "SessionOnlinePush_ByteSizeLong rt m =
     (if SessionOnlinePush_session_id m \<noteq> 0 then UInt32SizePlusOne rt (SessionOnlinePush_session_id m) else 0) +
     length (SessionOnlinePush_unknown m)"

definition SessionOnlinePush_MergeFrom :: "SessionOnlinePush \<Rightarrow> SessionOnlinePush \<Rightarrow> SessionOnlinePush" where
  "SessionOnlinePush_MergeFrom frm m = m\<lparr>
     SessionOnlinePush_session_id := (if SessionOnlinePush_session_id frm \<noteq> 0 then SessionOnlinePush_session_id frm else SessionOnlinePush_session_id m),
     SessionOnlinePush_unknown := SessionOnlinePush_unknown m @ SessionOnlinePush_unknown frm\<rparr>"

definition SessionOnlinePush_CopyFrom :: "SessionOnlinePush \<Rightarrow> SessionOnlinePush \<Rightarrow> SessionOnlinePush" where
  "SessionOnlinePush_CopyFrom frm m = SessionOnlinePush_MergeFrom frm (SessionOnlinePush_Clear m)"

text \<open>No unknown fields, valid UTF-8 strings, blocks below the runtime's size limit.\<close>

definition SessionOnlinePush_ok :: "pb_rt \<Rightarrow> SessionOnlinePush \<Rightarrow> bool" where
  "SessionOnlinePush_ok rt m \<longleftrightarrow>
     SessionOnlinePush_unknown m = []"

context pb_laws begin

lemma SessionOnlinePush_consumes: "consumes (SessionOnlinePush_switch rt)"
  by (auto simp: consumes_def SessionOnlinePush_switch_def split: if_splits dest: field_consumes)

lemma SessionOnlinePush_session_id_step:
  "parse_message rt (SessionOnlinePush_switch rt) unk m ((if SessionOnlinePush_session_id a \<noteq> 0 then WriteUInt32ToArray rt 1 (SessionOnlinePush_session_id a) else []) @ r)
    = parse_message rt (SessionOnlinePush_switch rt) unk (m\<lparr>SessionOnlinePush_session_id := (if SessionOnlinePush_session_id a \<noteq> 0 then SessionOnlinePush_session_id a else SessionOnlinePush_session_id m)\<rparr>) r"
  by (rule uint32_step [OF SessionOnlinePush_consumes, where upd = "\<lambda>v. m\<lparr>SessionOnlinePush_session_id := v\<rparr>"])
     (simp_all add: SessionOnlinePush_switch_def field_tag_def)

lemma SessionOnlinePush_MergeFrom_fields:
  "SessionOnlinePush_MergeFrom a m = m\<lparr>SessionOnlinePush_session_id := (if SessionOnlinePush_session_id a \<noteq> 0 then SessionOnlinePush_session_id a else SessionOnlinePush_session_id m), SessionOnlinePush_unknown := SessionOnlinePush_unknown m @ SessionOnlinePush_unknown a\<rparr>"
  by (rule SessionOnlinePush.equality) (simp_all add: SessionOnlinePush_MergeFrom_def)

lemma SessionOnlinePush_merge:
  assumes "SessionOnlinePush_ok rt a"
  shows "parse_message rt (SessionOnlinePush_switch rt) unk m (SessionOnlinePush_serialize rt a @ r)
    = parse_message rt (SessionOnlinePush_switch rt) unk (SessionOnlinePush_MergeFrom a m) r"
  using assms
  by (simp add: SessionOnlinePush_ok_def SessionOnlinePush_serialize_def SessionOnlinePush_MergeFrom_fields
      SessionOnlinePush_session_id_step)

lemma SessionOnlinePush_roundtrip:
  assumes "SessionOnlinePush_ok rt a"
  shows "SessionOnlinePush_parse rt (SessionOnlinePush_serialize rt a) = Some a"
  using SessionOnlinePush_merge [OF assms, where r = "[]"] assms
  by (simp add: SessionOnlinePush_parse_def SessionOnlinePush_MergeFrom_def SessionOnlinePush_default_def SessionOnlinePush_ok_def)

lemma SessionOnlinePush_size: "SessionOnlinePush_ByteSizeLong rt a = length (SessionOnlinePush_serialize rt a)"
  by (simp add: SessionOnlinePush_ByteSizeLong_def SessionOnlinePush_serialize_def field_sizes)

end

lemma SessionOnlinePush_CopyFrom_eq: "SessionOnlinePush_CopyFrom a m = a"
  by (simp add: SessionOnlinePush_CopyFrom_def SessionOnlinePush_MergeFrom_def SessionOnlinePush_Clear_def)

subsection \<open>SessionOfflinePush\<close>

record SessionOfflinePush =
  SessionOfflinePush_session_id :: u32
  SessionOfflinePush_unknown :: bytes

definition SessionOfflinePush_Id :: u16 where "SessionOfflinePush_Id = 109"

definition SessionOfflinePush_default :: SessionOfflinePush where
  "SessionOfflinePush_default = \<lparr>SessionOfflinePush_session_id = 0, SessionOfflinePush_unknown = []\<rparr>"

definition SessionOfflinePush_Clear :: "SessionOfflinePush \<Rightarrow> SessionOfflinePush" where
  "SessionOfflinePush_Clear m = m\<lparr>SessionOfflinePush_session_id := 0, SessionOfflinePush_unknown := []\<rparr>"

definition SessionOfflinePush_switch :: "pb_rt \<Rightarrow> u32 \<Rightarrow> SessionOfflinePush \<Rightarrow> bytes \<Rightarrow> SessionOfflinePush field_result" where
  "SessionOfflinePush_switch rt tag m ptr =
     (if drop_bit 3 tag = 1 then
        if (ucast tag :: u8) = 8 then varint32_field rt ptr (\<lambda>v. m\<lparr>SessionOfflinePush_session_id := v\<rparr>)
        else Unusual
      else Unusual)"

definition SessionOfflinePush_parse :: "pb_rt \<Rightarrow> bytes \<Rightarrow> SessionOfflinePush option" where
  "SessionOfflinePush_parse rt p =
     parse_message rt (SessionOfflinePush_switch rt) (\<lambda>raw m. m\<lparr>SessionOfflinePush_unknown := SessionOfflinePush_unknown m @ raw\<rparr>) SessionOfflinePush_default p"

definition SessionOfflinePush_serialize :: "pb_rt \<Rightarrow> SessionOfflinePush \<Rightarrow> bytes" where
  "SessionOfflinePush_serialize rt m =
     (if SessionOfflinePush_session_id m \<noteq> 0 then WriteUInt32ToArray rt 1 (SessionOfflinePush_session_id m) else []) @
     SessionOfflinePush_unknown m"

definition SessionOfflinePush_ByteSizeLong :: "pb_rt \<Rightarrow> SessionOfflinePush \<Rightarrow> nat" where
  "SessionOfflinePush_ByteSizeLong rt m =
     (if SessionOfflinePush_session_id m \<noteq> 0 then UInt32SizePlusOne rt (SessionOfflinePush_session_id m) else 0) +
     length (SessionOfflinePush_unknown m)"

definition SessionOfflinePush_MergeFrom :: "SessionOfflinePush \<Rightarrow> SessionOfflinePush \<Rightarrow> SessionOfflinePush" where
  "SessionOfflinePush_MergeFrom frm m = m\<lparr>
     SessionOfflinePush_session_id := (if SessionOfflinePush_session_id frm \<noteq> 0 then SessionOfflinePush_session_id frm else SessionOfflinePush_session_id m),
     SessionOfflinePush_unknown := SessionOfflinePush_unknown m @ SessionOfflinePush_unknown frm\<rparr>"

definition SessionOfflinePush_CopyFrom :: "SessionOfflinePush \<Rightarrow> SessionOfflinePush \<Rightarrow> SessionOfflinePush" where
  "SessionOfflinePush_CopyFrom frm m = SessionOfflinePush_MergeFrom frm (SessionOfflinePush_Clear m)"

text \<open>No unknown fields, valid UTF-8 strings, blocks below the runtime's size limit.\<close>

definition SessionOfflinePush_ok :: "pb_rt \<Rightarrow> SessionOfflinePush \<Rightarrow> bool" where
  "SessionOfflinePush_ok rt m \<longleftrightarrow>
     SessionOfflinePush_unknown m = []"

context pb_laws begin

lemma SessionOfflinePush_consumes: "consumes (SessionOfflinePush_switch rt)"
  by (auto simp: consumes_def SessionOfflinePush_switch_def split: if_splits dest: field_consumes)

lemma SessionOfflinePush_session_id_step:
  "parse_message rt (SessionOfflinePush_switch rt) unk m ((if SessionOfflinePush_session_id a \<noteq> 0 then WriteUInt32ToArray rt 1 (SessionOfflinePush_session_id a) else []) @ r)
    = parse_message rt (SessionOfflinePush_switch rt) unk (m\<lparr>SessionOfflinePush_session_id := (if SessionOfflinePush_session_id a \<noteq> 0 then SessionOfflinePush_session_id a else SessionOfflinePush_session_id m)\<rparr>) r"
  by (rule uint32_step [OF SessionOfflinePush_consumes, where upd = "\<lambda>v. m\<lparr>SessionOfflinePush_session_id := v\<rparr>"])
     (simp_all add: SessionOfflinePush_switch_def field_tag_def)

lemma SessionOfflinePush_MergeFrom_fields:
  "SessionOfflinePush_MergeFrom a m = m\<lparr>SessionOfflinePush_session_id := (if SessionOfflinePush_session_id a \<noteq> 0 then SessionOfflinePush_session_id a else SessionOfflinePush_session_id m), SessionOfflinePush_unknown := SessionOfflinePush_unknown m @ SessionOfflinePush_unknown a\<rparr>"
  by (rule SessionOfflinePush.equality) (simp_all add: SessionOfflinePush_MergeFrom_def)

lemma SessionOfflinePush_merge:
  assumes "SessionOfflinePush_ok rt a"
  shows "parse_message rt (SessionOfflinePush_switch rt) unk m (SessionOfflinePush_serialize rt a @ r)
    = parse_message rt (SessionOfflinePush_switch rt) unk (SessionOfflinePush_MergeFrom a m) r"
  using assms
  by (simp add: SessionOfflinePush_ok_def SessionOfflinePush_serialize_def SessionOfflinePush_MergeFrom_fields
      SessionOfflinePush_session_id_step)

lemma SessionOfflinePush_roundtrip:
  assumes "SessionOfflinePush_ok rt a"
  shows "SessionOfflinePush_parse rt (SessionOfflinePush_serialize rt a) = Some a"
  using SessionOfflinePush_merge [OF assms, where r = "[]"] assms
  by (simp add: SessionOfflinePush_parse_def SessionOfflinePush_MergeFrom_def SessionOfflinePush_default_def SessionOfflinePush_ok_def)

lemma SessionOfflinePush_size: "SessionOfflinePush_ByteSizeLong rt a = length (SessionOfflinePush_serialize rt a)"
  by (simp add: SessionOfflinePush_ByteSizeLong_def SessionOfflinePush_serialize_def field_sizes)

end

lemma SessionOfflinePush_CopyFrom_eq: "SessionOfflinePush_CopyFrom a m = a"
  by (simp add: SessionOfflinePush_CopyFrom_def SessionOfflinePush_MergeFrom_def SessionOfflinePush_Clear_def)

subsection \<open>ServerOnlinePush\<close>

record ServerOnlinePush =
  ServerOnlinePush_service_id :: u32
  ServerOnlinePush_instance_id :: u32
  ServerOnlinePush_unknown :: bytes

definition ServerOnlinePush_Id :: u16 where "ServerOnlinePush_Id = 110"

definition ServerOnlinePush_default :: ServerOnlinePush where
  "ServerOnlinePush_default = \<lparr>ServerOnlinePush_service_id = 0,
     ServerOnlinePush_instance_id = 0, ServerOnlinePush_unknown = []\<rparr>"

definition ServerOnlinePush_Clear :: "ServerOnlinePush \<Rightarrow> ServerOnlinePush" where
  "ServerOnlinePush_Clear m = m\<lparr>ServerOnlinePush_service_id := 0,
     ServerOnlinePush_instance_id := 0, ServerOnlinePush_unknown := []\<rparr>"

definition ServerOnlinePush_switch :: "pb_rt \<Rightarrow> u32 \<Rightarrow> ServerOnlinePush \<Rightarrow> bytes \<Rightarrow> ServerOnlinePush field_result" where
  "ServerOnlinePush_switch rt tag m ptr =
     (if drop_bit 3 tag = 1 then
        if (ucast tag :: u8) = 8 then varint32_field rt ptr (\<lambda>v. m\<lparr>ServerOnlinePush_service_id := v\<rparr>)
        else Unusual
      else if drop_bit 3 tag = 2 then
        if (ucast tag :: u8) = 16 then varint32_field rt ptr (\<lambda>v. m\<lparr>ServerOnlinePush_instance_id := v\<rparr>)
        else Unusual
      else Unusual)"

definition ServerOnlinePush_parse :: "pb_rt \<Rightarrow> bytes \<Rightarrow> ServerOnlinePush option" where
  "ServerOnlinePush_parse rt p =
     parse_message rt (ServerOnlinePush_switch rt) (\<lambda>raw m. m\<lparr>ServerOnlinePush_unknown := ServerOnlinePush_unknown m @ raw\<rparr>) ServerOnlinePush_default p"

definition ServerOnlinePush_serialize :: "pb_rt \<Rightarrow> ServerOnlinePush \<Rightarrow> bytes" where
  "ServerOnlinePush_serialize rt m =
     (if ServerOnlinePush_service_id m \<noteq> 0 then WriteUInt32ToArray rt 1 (ServerOnlinePush_service_id m) else []) @
     (if ServerOnlinePush_instance_id m \<noteq> 0 then WriteUInt32ToArray rt 2 (ServerOnlinePush_instance_id m) else []) @
     ServerOnlinePush_unknown m"

definition ServerOnlinePush_ByteSizeLong :: "pb_rt \<Rightarrow> ServerOnlinePush \<Rightarrow> nat" where
  "ServerOnlinePush_ByteSizeLong rt m =
     (if ServerOnlinePush_service_id m \<noteq> 0 then UInt32SizePlusOne rt (ServerOnlinePush_service_id m) else 0) +
     (if ServerOnlinePush_instance_id m \<noteq> 0 then UInt32SizePlusOne rt (ServerOnlinePush_instance_id m) else 0) +
     length (ServerOnlinePush_unknown m)"

definition ServerOnlinePush_MergeFrom :: "ServerOnlinePush \<Rightarrow> ServerOnlinePush \<Rightarrow> ServerOnlinePush" where
  "ServerOnlinePush_MergeFrom frm m = m\<lparr>
     ServerOnlinePush_service_id := (if ServerOnlinePush_service_id frm \<noteq> 0 then ServerOnlinePush_service_id frm else ServerOnlinePush_service_id m),
     ServerOnlinePush_instance_id := (if ServerOnlinePush_instance_id frm \<noteq> 0 then ServerOnlinePush_instance_id frm else ServerOnlinePush_instance_id m),
     ServerOnlinePush_unknown := ServerOnlinePush_unknown m @ ServerOnlinePush_unknown frm\<rparr>"

definition ServerOnlinePush_CopyFrom :: "ServerOnlinePush \<Rightarrow> ServerOnlinePush \<Rightarrow> ServerOnlinePush" where
  "ServerOnlinePush_CopyFrom frm m = ServerOnlinePush_MergeFrom frm (ServerOnlinePush_Clear m)"

text \<open>No unknown fields, valid UTF-8 strings, blocks below the runtime's size limit.\<close>

definition ServerOnlinePush_ok :: "pb_rt \<Rightarrow> ServerOnlinePush \<Rightarrow> bool" where
  "ServerOnlinePush_ok rt m \<longleftrightarrow>
     ServerOnlinePush_unknown m = []"

context pb_laws begin

lemma ServerOnlinePush_consumes: "consumes (ServerOnlinePush_switch rt)"
  by (auto simp: consumes_def ServerOnlinePush_switch_def split: if_splits dest: field_consumes)

lemma ServerOnlinePush_service_id_step:
  "parse_message rt (ServerOnlinePush_switch rt) unk m ((if ServerOnlinePush_service_id a \<noteq> 0 then WriteUInt32ToArray rt 1 (ServerOnlinePush_service_id a) else []) @ r)
    = parse_message rt (ServerOnlinePush_switch rt) unk (m\<lparr>ServerOnlinePush_service_id := (if ServerOnlinePush_service_id a \<noteq> 0 then ServerOnlinePush_service_id a else ServerOnlinePush_service_id m)\<rparr>) r"
  by (rule uint32_step [OF ServerOnlinePush_consumes, where upd = "\<lambda>v. m\<lparr>ServerOnlinePush_service_id := v\<rparr>"])
     (simp_all add: ServerOnlinePush_switch_def field_tag_def)

lemma ServerOnlinePush_instance_id_step:
  "parse_message rt (ServerOnlinePush_switch rt) unk m ((if ServerOnlinePush_instance_id a \<noteq> 0 then WriteUInt32ToArray rt 2 (ServerOnlinePush_instance_id a) else []) @ r)
    = parse_message rt (ServerOnlinePush_switch rt) unk (m\<lparr>ServerOnlinePush_instance_id := (if ServerOnlinePush_instance_id a \<noteq> 0 then ServerOnlinePush_instance_id a else ServerOnlinePush_instance_id m)\<rparr>) r"
  by (rule uint32_step [OF ServerOnlinePush_consumes, where upd = "\<lambda>v. m\<lparr>ServerOnlinePush_instance_id := v\<rparr>"])
     (simp_all add: ServerOnlinePush_switch_def field_tag_def)

lemma ServerOnlinePush_MergeFrom_fields:
  "ServerOnlinePush_MergeFrom a m = m\<lparr>ServerOnlinePush_service_id := (if ServerOnlinePush_service_id a \<noteq> 0 then ServerOnlinePush_service_id a else ServerOnlinePush_service_id m),
     ServerOnlinePush_instance_id := (if ServerOnlinePush_instance_id a \<noteq> 0 then ServerOnlinePush_instance_id a else ServerOnlinePush_instance_id m), ServerOnlinePush_unknown := ServerOnlinePush_unknown m @ ServerOnlinePush_unknown a\<rparr>"
  by (rule ServerOnlinePush.equality) (simp_all add: ServerOnlinePush_MergeFrom_def)

lemma ServerOnlinePush_merge:
  assumes "ServerOnlinePush_ok rt a"
  shows "parse_message rt (ServerOnlinePush_switch rt) unk m (ServerOnlinePush_serialize rt a @ r)
    = parse_message rt (ServerOnlinePush_switch rt) unk (ServerOnlinePush_MergeFrom a m) r"
  using assms
  by (simp add: ServerOnlinePush_ok_def ServerOnlinePush_serialize_def ServerOnlinePush_MergeFrom_fields
      ServerOnlinePush_service_id_step ServerOnlinePush_instance_id_step)

lemma ServerOnlinePush_roundtrip:
  assumes "ServerOnlinePush_ok rt a"
  shows "ServerOnlinePush_parse rt (ServerOnlinePush_serialize rt a) = Some a"
  using ServerOnlinePush_merge [OF assms, where r = "[]"] assms
  by (simp add: ServerOnlinePush_parse_def ServerOnlinePush_MergeFrom_def ServerOnlinePush_default_def ServerOnlinePush_ok_def)

lemma ServerOnlinePush_size: "ServerOnlinePush_ByteSizeLong rt a = length (ServerOnlinePush_serialize rt a)"
  by (simp add: ServerOnlinePush_ByteSizeLong_def ServerOnlinePush_serialize_def field_sizes)

end

lemma ServerOnlinePush_CopyFrom_eq: "ServerOnlinePush_CopyFrom a m = a"
  by (simp add: ServerOnlinePush_CopyFrom_def ServerOnlinePush_MergeFrom_def ServerOnlinePush_Clear_def)

subsection \<open>ServerOfflinePush\<close>

record ServerOfflinePush =
  ServerOfflinePush_service_id :: u32
  ServerOfflinePush_instance_id :: u32
  ServerOfflinePush_unknown :: bytes

definition ServerOfflinePush_Id :: u16 where "ServerOfflinePush_Id = 111"

definition ServerOfflinePush_default :: ServerOfflinePush where
  "ServerOfflinePush_default = \<lparr>ServerOfflinePush_service_id = 0,
     ServerOfflinePush_instance_id = 0, ServerOfflinePush_unknown = []\<rparr>"

definition ServerOfflinePush_Clear :: "ServerOfflinePush \<Rightarrow> ServerOfflinePush" where
  "ServerOfflinePush_Clear m = m\<lparr>ServerOfflinePush_service_id := 0,
     ServerOfflinePush_instance_id := 0, ServerOfflinePush_unknown := []\<rparr>"

definition ServerOfflinePush_switch :: "pb_rt \<Rightarrow> u32 \<Rightarrow> ServerOfflinePush \<Rightarrow> bytes \<Rightarrow> ServerOfflinePush field_result" where
  "ServerOfflinePush_switch rt tag m ptr =
     (if drop_bit 3 tag = 1 then
        if (ucast tag :: u8) = 8 then varint32_field rt ptr (\<lambda>v. m\<lparr>ServerOfflinePush_service_id := v\<rparr>)
        else Unusual
      else if drop_bit 3 tag = 2 then
        if (ucast tag :: u8) = 16 then varint32_field rt ptr (\<lambda>v. m\<lparr>ServerOfflinePush_instance_id := v\<rparr>)
        else Unusual
      else Unusual)"

definition ServerOfflinePush_parse :: "pb_rt \<Rightarrow> bytes \<Rightarrow> ServerOfflinePush option" where
  "ServerOfflinePush_parse rt p =
     parse_message rt (ServerOfflinePush_switch rt) (\<lambda>raw m. m\<lparr>ServerOfflinePush_unknown := ServerOfflinePush_unknown m @ raw\<rparr>) ServerOfflinePush_default p"

definition ServerOfflinePush_serialize :: "pb_rt \<Rightarrow> ServerOfflinePush \<Rightarrow> bytes" where
  "ServerOfflinePush_serialize rt m =
     (if ServerOfflinePush_service_id m \<noteq> 0 then WriteUInt32ToArray rt 1 (ServerOfflinePush_service_id m) else []) @
     (if ServerOfflinePush_instance_id m \<noteq> 0 then WriteUInt32ToArray rt 2 (ServerOfflinePush_instance_id m) else []) @
     ServerOfflinePush_unknown m"

definition ServerOfflinePush_ByteSizeLong :: "pb_rt \<Rightarrow> ServerOfflinePush \<Rightarrow> nat" where
  "ServerOfflinePush_ByteSizeLong rt m =
     (if ServerOfflinePush_service_id m \<noteq> 0 then UInt32SizePlusOne rt (ServerOfflinePush_service_id m) else 0) +
     (if ServerOfflinePush_instance_id m \<noteq> 0 then UInt32SizePlusOne rt (ServerOfflinePush_instance_id m) else 0) +
     length (ServerOfflinePush_unknown m)"

definition ServerOfflinePush_MergeFrom :: "ServerOfflinePush \<Rightarrow> ServerOfflinePush \<Rightarrow> ServerOfflinePush" where
  "ServerOfflinePush_MergeFrom frm m = m\<lparr>
     ServerOfflinePush_service_id := (if ServerOfflinePush_service_id frm \<noteq> 0 then ServerOfflinePush_service_id frm else ServerOfflinePush_service_id m),
     ServerOfflinePush_instance_id := (if ServerOfflinePush_instance_id frm \<noteq> 0 then ServerOfflinePush_instance_id frm else ServerOfflinePush_instance_id m),
     ServerOfflinePush_unknown := ServerOfflinePush_unknown m @ ServerOfflinePush_unknown frm\<rparr>"

definition ServerOfflinePush_CopyFrom :: "ServerOfflinePush \<Rightarrow> ServerOfflinePush \<Rightarrow> ServerOfflinePush" where
  "ServerOfflinePush_CopyFrom frm m = ServerOfflinePush_MergeFrom frm (ServerOfflinePush_Clear m)"

text \<open>No unknown fields, valid UTF-8 strings, blocks below the runtime's size limit.\<close>

definition ServerOfflinePush_ok :: "pb_rt \<Rightarrow> ServerOfflinePush \<Rightarrow> bool" where
  "ServerOfflinePush_ok rt m \<longleftrightarrow>
     ServerOfflinePush_unknown m = []"

context pb_laws begin

lemma ServerOfflinePush_consumes: "consumes (ServerOfflinePush_switch rt)"
  by (auto simp: consumes_def ServerOfflinePush_switch_def split: if_splits dest: field_consumes)

lemma ServerOfflinePush_service_id_step:
  "parse_message rt (ServerOfflinePush_switch rt) unk m ((if ServerOfflinePush_service_id a \<noteq> 0 then WriteUInt32ToArray rt 1 (ServerOfflinePush_service_id a) else []) @ r)
    = parse_message rt (ServerOfflinePush_switch rt) unk (m\<lparr>ServerOfflinePush_service_id := (if ServerOfflinePush_service_id a \<noteq> 0 then ServerOfflinePush_service_id a else ServerOfflinePush_service_id m)\<rparr>) r"
  by (rule uint32_step [OF ServerOfflinePush_consumes, where upd = "\<lambda>v. m\<lparr>ServerOfflinePush_service_id := v\<rparr>"])
     (simp_all add: ServerOfflinePush_switch_def field_tag_def)

lemma ServerOfflinePush_instance_id_step:
  "parse_message rt (ServerOfflinePush_switch rt) unk m ((if ServerOfflinePush_instance_id a \<noteq> 0 then WriteUInt32ToArray rt 2 (ServerOfflinePush_instance_id a) else []) @ r)
    = parse_message rt (ServerOfflinePush_switch rt) unk (m\<lparr>ServerOfflinePush_instance_id := (if ServerOfflinePush_instance_id a \<noteq> 0 then ServerOfflinePush_instance_id a else ServerOfflinePush_instance_id m)\<rparr>) r"
  by (rule uint32_step [OF ServerOfflinePush_consumes, where upd = "\<lambda>v. m\<lparr>ServerOfflinePush_instance_id := v\<rparr>"])
     (simp_all add: ServerOfflinePush_switch_def field_tag_def)

lemma ServerOfflinePush_MergeFrom_fields:
  "ServerOfflinePush_MergeFrom a m = m\<lparr>ServerOfflinePush_service_id := (if ServerOfflinePush_service_id a \<noteq> 0 then ServerOfflinePush_service_id a else ServerOfflinePush_service_id m),
     ServerOfflinePush_instance_id := (if ServerOfflinePush_instance_id a \<noteq> 0 then ServerOfflinePush_instance_id a else ServerOfflinePush_instance_id m), ServerOfflinePush_unknown := ServerOfflinePush_unknown m @ ServerOfflinePush_unknown a\<rparr>"
  by (rule ServerOfflinePush.equality) (simp_all add: ServerOfflinePush_MergeFrom_def)

lemma ServerOfflinePush_merge:
  assumes "ServerOfflinePush_ok rt a"
  shows "parse_message rt (ServerOfflinePush_switch rt) unk m (ServerOfflinePush_serialize rt a @ r)
    = parse_message rt (ServerOfflinePush_switch rt) unk (ServerOfflinePush_MergeFrom a m) r"
  using assms
  by (simp add: ServerOfflinePush_ok_def ServerOfflinePush_serialize_def ServerOfflinePush_MergeFrom_fields
      ServerOfflinePush_service_id_step ServerOfflinePush_instance_id_step)

lemma ServerOfflinePush_roundtrip:
  assumes "ServerOfflinePush_ok rt a"
  shows "ServerOfflinePush_parse rt (ServerOfflinePush_serialize rt a) = Some a"
  using ServerOfflinePush_merge [OF assms, where r = "[]"] assms
  by (simp add: ServerOfflinePush_parse_def ServerOfflinePush_MergeFrom_def ServerOfflinePush_default_def ServerOfflinePush_ok_def)

lemma ServerOfflinePush_size: "ServerOfflinePush_ByteSizeLong rt a = length (ServerOfflinePush_serialize rt a)"
  by (simp add: ServerOfflinePush_ByteSizeLong_def ServerOfflinePush_serialize_def field_sizes)

end

lemma ServerOfflinePush_CopyFrom_eq: "ServerOfflinePush_CopyFrom a m = a"
  by (simp add: ServerOfflinePush_CopyFrom_def ServerOfflinePush_MergeFrom_def ServerOfflinePush_Clear_def)

subsection \<open>ForwardToServerReq\<close>

record ForwardToServerReq =
  ForwardToServerReq_target_service_id :: u32
  ForwardToServerReq_target_instance_id :: i32
  ForwardToServerReq_payload :: bytes
  ForwardToServerReq_source_service_id :: u32
  ForwardToServerReq_source_instance_id :: u32
  ForwardToServerReq_unknown :: bytes

definition ForwardToServerReq_Id :: u16 where "ForwardToServerReq_Id = 112"

definition ForwardToServerReq_default :: ForwardToServerReq where
  "ForwardToServerReq_default = \<lparr>ForwardToServerReq_target_service_id = 0,
     ForwardToServerReq_target_instance_id = 0,
     ForwardToServerReq_payload = [],
     ForwardToServerReq_source_service_id = 0,
     ForwardToServerReq_source_instance_id = 0, ForwardToServerReq_unknown = []\<rparr>"

definition ForwardToServerReq_Clear :: "ForwardToServerReq \<Rightarrow> ForwardToServerReq" where
  "ForwardToServerReq_Clear m = m\<lparr>ForwardToServerReq_target_service_id := 0,
     ForwardToServerReq_target_instance_id := 0,
     ForwardToServerReq_payload := [],
     ForwardToServerReq_source_service_id := 0,
     ForwardToServerReq_source_instance_id := 0, ForwardToServerReq_unknown := []\<rparr>"

definition ForwardToServerReq_switch :: "pb_rt \<Rightarrow> u32 \<Rightarrow> ForwardToServerReq \<Rightarrow> bytes \<Rightarrow> ForwardToServerReq field_result" where
  "ForwardToServerReq_switch rt tag m ptr =
     (if drop_bit 3 tag = 1 then
        if (ucast tag :: u8) = 8 then varint32_field rt ptr (\<lambda>v. m\<lparr>ForwardToServerReq_target_service_id := v\<rparr>)
        else Unusual
      else if drop_bit 3 tag = 2 then
        if (ucast tag :: u8) = 16 then varint32_field rt ptr (\<lambda>v. m\<lparr>ForwardToServerReq_target_instance_id := v\<rparr>)
        else Unusual
      else if drop_bit 3 tag = 3 then
        if (ucast tag :: u8) = 26 then bytes_field rt ptr (\<lambda>s. m\<lparr>ForwardToServerReq_payload := s\<rparr>)
        else Unusual
      else if drop_bit 3 tag = 4 then
        if (ucast tag :: u8) = 32 then varint32_field rt ptr (\<lambda>v. m\<lparr>ForwardToServerReq_source_service_id := v\<rparr>)
        else Unusual
      else if drop_bit 3 tag = 5 then
        if (ucast tag :: u8) = 40 then varint32_field rt ptr (\<lambda>v. m\<lparr>ForwardToServerReq_source_instance_id := v\<rparr>)
        else Unusual
      else Unusual)"

definition ForwardToServerReq_parse :: "pb_rt \<Rightarrow> bytes \<Rightarrow> ForwardToServerReq option" where
  "ForwardToServerReq_parse rt p =
     parse_message rt (ForwardToServerReq_switch rt) (\<lambda>raw m. m\<lparr>ForwardToServerReq_unknown := ForwardToServerReq_unknown m @ raw\<rparr>) ForwardToServerReq_default p"

definition ForwardToServerReq_serialize :: "pb_rt \<Rightarrow> ForwardToServerReq \<Rightarrow> bytes" where
  "ForwardToServerReq_serialize rt m =
     (if ForwardToServerReq_target_service_id m \<noteq> 0 then WriteUInt32ToArray rt 1 (ForwardToServerReq_target_service_id m) else []) @
     (if ForwardToServerReq_target_instance_id m \<noteq> 0 then WriteInt32ToArray rt 2 (ForwardToServerReq_target_instance_id m) else []) @
     (if ForwardToServerReq_payload m \<noteq> [] then WriteStringMaybeAliased rt 3 (ForwardToServerReq_payload m) else []) @
     (if ForwardToServerReq_source_service_id m \<noteq> 0 then WriteUInt32ToArray rt 4 (ForwardToServerReq_source_service_id m) else []) @
     (if ForwardToServerReq_source_instance_id m \<noteq> 0 then WriteUInt32ToArray rt 5 (ForwardToServerReq_source_instance_id m) else []) @
     ForwardToServerReq_unknown m"

definition ForwardToServerReq_ByteSizeLong :: "pb_rt \<Rightarrow> ForwardToServerReq \<Rightarrow> nat" where
  "ForwardToServerReq_ByteSizeLong rt m =
     (if ForwardToServerReq_payload m \<noteq> [] then 1 + LengthDelimitedSize rt (length (ForwardToServerReq_payload m)) else 0) +
     (if ForwardToServerReq_target_service_id m \<noteq> 0 then UInt32SizePlusOne rt (ForwardToServerReq_target_service_id m) else 0) +
     (if ForwardToServerReq_target_instance_id m \<noteq> 0 then Int32SizePlusOne rt (ForwardToServerReq_target_instance_id m) else 0) +
     (if ForwardToServerReq_source_service_id m \<noteq> 0 then UInt32SizePlusOne rt (ForwardToServerReq_source_service_id m) else 0) +
     (if ForwardToServerReq_source_instance_id m \<noteq> 0 then UInt32SizePlusOne rt (ForwardToServerReq_source_instance_id m) else 0) +
     length (ForwardToServerReq_unknown m)"

definition ForwardToServerReq_MergeFrom :: "ForwardToServerReq \<Rightarrow> ForwardToServerReq \<Rightarrow> ForwardToServerReq" where
  "ForwardToServerReq_MergeFrom frm m = m\<lparr>
     ForwardToServerReq_payload := (if ForwardToServerReq_payload frm \<noteq> [] then ForwardToServerReq_payload frm else ForwardToServerReq_payload m),
     ForwardToServerReq_target_service_id := (if ForwardToServerReq_target_service_id frm \<noteq> 0 then ForwardToServerReq_target_service_id frm else ForwardToServerReq_target_service_id m),
     ForwardToServerReq_target_instance_id := (if ForwardToServerReq_target_instance_id frm \<noteq> 0 then ForwardToServerReq_target_instance_id frm else ForwardToServerReq_target_instance_id m),
     ForwardToServerReq_source_service_id := (if ForwardToServerReq_source_service_id frm \<noteq> 0 then ForwardToServerReq_source_service_id frm else ForwardToServerReq_source_service_id m),
     ForwardToServerReq_source_instance_id := (if ForwardToServerReq_source_instance_id frm \<noteq> 0 then ForwardToServerReq_source_instance_id frm else ForwardToServerReq_source_instance_id m),
     ForwardToServerReq_unknown := ForwardToServerReq_unknown m @ ForwardToServerReq_unknown frm\<rparr>"

definition ForwardToServerReq_CopyFrom :: "ForwardToServerReq \<Rightarrow> ForwardToServerReq \<Rightarrow> ForwardToServerReq" where
  "ForwardToServerReq_CopyFrom frm m = ForwardToServerReq_MergeFrom frm (ForwardToServerReq_Clear m)"

text \<open>No unknown fields, valid UTF-8 strings, blocks below the runtime's size limit.\<close>

definition ForwardToServerReq_ok :: "pb_rt \<Rightarrow> ForwardToServerReq \<Rightarrow> bool" where
  "ForwardToServerReq_ok rt m \<longleftrightarrow>
     ForwardToServerReq_unknown m = [] \<and>
     length (ForwardToServerReq_payload m) + 16 < 2 ^ 31"

context pb_laws begin

lemma ForwardToServerReq_consumes: "consumes (ForwardToServerReq_switch rt)"
  by (auto simp: consumes_def ForwardToServerReq_switch_def split: if_splits dest: field_consumes)

lemma ForwardToServerReq_target_service_id_step:
  "parse_message rt (ForwardToServerReq_switch rt) unk m ((if ForwardToServerReq_target_service_id a \<noteq> 0 then WriteUInt32ToArray rt 1 (ForwardToServerReq_target_service_id a) else []) @ r)
    = parse_message rt (ForwardToServerReq_switch rt) unk (m\<lparr>ForwardToServerReq_target_service_id := (if ForwardToServerReq_target_service_id a \<noteq> 0 then ForwardToServerReq_target_service_id a else ForwardToServerReq_target_service_id m)\<rparr>) r"
  by (rule uint32_step [OF ForwardToServerReq_consumes, where upd = "\<lambda>v. m\<lparr>ForwardToServerReq_target_service_id := v\<rparr>"])
     (simp_all add: ForwardToServerReq_switch_def field_tag_def)

lemma ForwardToServerReq_target_instance_id_step:
  "parse_message rt (ForwardToServerReq_switch rt) unk m ((if ForwardToServerReq_target_instance_id a \<noteq> 0 then WriteInt32ToArray rt 2 (ForwardToServerReq_target_instance_id a) else []) @ r)
    = parse_message rt (ForwardToServerReq_switch rt) unk (m\<lparr>ForwardToServerReq_target_instance_id := (if ForwardToServerReq_target_instance_id a \<noteq> 0 then ForwardToServerReq_target_instance_id a else ForwardToServerReq_target_instance_id m)\<rparr>) r"
  by (rule int32_step [OF ForwardToServerReq_consumes, where upd = "\<lambda>v. m\<lparr>ForwardToServerReq_target_instance_id := v\<rparr>"])
     (simp_all add: ForwardToServerReq_switch_def field_tag_def)

lemma ForwardToServerReq_payload_step:
  "length (ForwardToServerReq_payload a) + 16 < 2 ^ 31 \<Longrightarrow>
   parse_message rt (ForwardToServerReq_switch rt) unk m ((if ForwardToServerReq_payload a \<noteq> [] then WriteStringMaybeAliased rt 3 (ForwardToServerReq_payload a) else []) @ r)
    = parse_message rt (ForwardToServerReq_switch rt) unk (m\<lparr>ForwardToServerReq_payload := (if ForwardToServerReq_payload a \<noteq> [] then ForwardToServerReq_payload a else ForwardToServerReq_payload m)\<rparr>) r"
  by (rule bytes_step [OF ForwardToServerReq_consumes, where upd = "\<lambda>v. m\<lparr>ForwardToServerReq_payload := v\<rparr>"])
     (simp_all add: ForwardToServerReq_switch_def field_tag_def)

lemma ForwardToServerReq_source_service_id_step:
  "parse_message rt (ForwardToServerReq_switch rt) unk m ((if ForwardToServerReq_source_service_id a \<noteq> 0 then WriteUInt32ToArray rt 4 (ForwardToServerReq_source_service_id a) else []) @ r)
    = parse_message rt (ForwardToServerReq_switch rt) unk (m\<lparr>ForwardToServerReq_source_service_id := (if ForwardToServerReq_source_service_id a \<noteq> 0 then ForwardToServerReq_source_service_id a else ForwardToServerReq_source_service_id m)\<rparr>) r"
  by (rule uint32_step [OF ForwardToServerReq_consumes, where upd = "\<lambda>v. m\<lparr>ForwardToServerReq_source_service_id := v\<rparr>"])
     (simp_all add: ForwardToServerReq_switch_def field_tag_def)

lemma ForwardToServerReq_source_instance_id_step:
  "parse_message rt (ForwardToServerReq_switch rt) unk m ((if ForwardToServerReq_source_instance_id a \<noteq> 0 then WriteUInt32ToArray rt 5 (ForwardToServerReq_source_instance_id a) else []) @ r)
    = parse_message rt (ForwardToServerReq_switch rt) unk (m\<lparr>ForwardToServerReq_source_instance_id := (if ForwardToServerReq_source_instance_id a \<noteq> 0 then ForwardToServerReq_source_instance_id a else ForwardToServerReq_source_instance_id m)\<rparr>) r"
  by (rule uint32_step [OF ForwardToServerReq_consumes, where upd = "\<lambda>v. m\<lparr>ForwardToServerReq_source_instance_id := v\<rparr>"])
     (simp_all add: ForwardToServerReq_switch_def field_tag_def)

lemma ForwardToServerReq_MergeFrom_fields:
  "ForwardToServerReq_MergeFrom a m = m\<lparr>ForwardToServerReq_target_service_id := (if ForwardToServerReq_target_service_id a \<noteq> 0 then ForwardToServerReq_target_service_id a else ForwardToServerReq_target_service_id m),
     ForwardToServerReq_target_instance_id := (if ForwardToServerReq_target_instance_id a \<noteq> 0 then ForwardToServerReq_target_instance_id a else ForwardToServerReq_target_instance_id m),
     ForwardToServerReq_payload := (if ForwardToServerReq_payload a \<noteq> [] then ForwardToServerReq_payload a else ForwardToServerReq_payload m),
     ForwardToServerReq_source_service_id := (if ForwardToServerReq_source_service_id a \<noteq> 0 then ForwardToServerReq_source_service_id a else ForwardToServerReq_source_service_id m),
     ForwardToServerReq_source_instance_id := (if ForwardToServerReq_source_instance_id a \<noteq> 0 then ForwardToServerReq_source_instance_id a else ForwardToServerReq_source_instance_id m), ForwardToServerReq_unknown := ForwardToServerReq_unknown m @ ForwardToServerReq_unknown a\<rparr>"
  by (rule ForwardToServerReq.equality) (simp_all add: ForwardToServerReq_MergeFrom_def)

lemma ForwardToServerReq_merge:
  assumes "ForwardToServerReq_ok rt a"
  shows "parse_message rt (ForwardToServerReq_switch rt) unk m (ForwardToServerReq_serialize rt a @ r)
    = parse_message rt (ForwardToServerReq_switch rt) unk (ForwardToServerReq_MergeFrom a m) r"
  using assms
  by (simp add: ForwardToServerReq_ok_def ForwardToServerReq_serialize_def ForwardToServerReq_MergeFrom_fields
      ForwardToServerReq_target_service_id_step ForwardToServerReq_target_instance_id_step ForwardToServerReq_payload_step ForwardToServerReq_source_service_id_step ForwardToServerReq_source_instance_id_step)

lemma ForwardToServerReq_roundtrip:
  assumes "ForwardToServerReq_ok rt a"
  shows "ForwardToServerReq_parse rt (ForwardToServerReq_serialize rt a) = Some a"
  using ForwardToServerReq_merge [OF assms, where r = "[]"] assms
  by (simp add: ForwardToServerReq_parse_def ForwardToServerReq_MergeFrom_def ForwardToServerReq_default_def ForwardToServerReq_ok_def)

lemma ForwardToServerReq_size: "ForwardToServerReq_ByteSizeLong rt a = length (ForwardToServerReq_serialize rt a)"
  by (simp add: ForwardToServerReq_ByteSizeLong_def ForwardToServerReq_serialize_def field_sizes)

end

lemma ForwardToServerReq_CopyFrom_eq: "ForwardToServerReq_CopyFrom a m = a"
  by (simp add: ForwardToServerReq_CopyFrom_def ForwardToServerReq_MergeFrom_def ForwardToServerReq_Clear_def)

subsection \<open>ServiceLoadReportPush\<close>

record ServiceLoadReportPush =
  ServiceLoadReportPush_load_score :: u32
  ServiceLoadReportPush_accepting_bindings :: bool
  ServiceLoadReportPush_message :: bytes
  ServiceLoadReportPush_unknown :: bytes

definition ServiceLoadReportPush_Id :: u16 where "ServiceLoadReportPush_Id = 113"

definition ServiceLoadReportPush_default :: ServiceLoadReportPush where
  "ServiceLoadReportPush_default = \<lparr>ServiceLoadReportPush_load_score = 0,
     ServiceLoadReportPush_accepting_bindings = False,
     ServiceLoadReportPush_message = [], ServiceLoadReportPush_unknown = []\<rparr>"

definition ServiceLoadReportPush_Clear :: "ServiceLoadReportPush \<Rightarrow> ServiceLoadReportPush" where
  "ServiceLoadReportPush_Clear m = m\<lparr>ServiceLoadReportPush_load_score := 0,
     ServiceLoadReportPush_accepting_bindings := False,
     ServiceLoadReportPush_message := [], ServiceLoadReportPush_unknown := []\<rparr>"

definition ServiceLoadReportPush_switch :: "pb_rt \<Rightarrow> u32 \<Rightarrow> ServiceLoadReportPush \<Rightarrow> bytes \<Rightarrow> ServiceLoadReportPush field_result" where
  "ServiceLoadReportPush_switch rt tag m ptr =
     (if drop_bit 3 tag = 1 then
        if (ucast tag :: u8) = 8 then varint32_field rt ptr (\<lambda>v. m\<lparr>ServiceLoadReportPush_load_score := v\<rparr>)
        else Unusual
      else if drop_bit 3 tag = 2 then
        if (ucast tag :: u8) = 16 then varint64_field rt ptr (\<lambda>v. m\<lparr>ServiceLoadReportPush_accepting_bindings := (v \<noteq> 0)\<rparr>)
        else Unusual
      else if drop_bit 3 tag = 3 then
        if (ucast tag :: u8) = 26 then string_field rt ptr (\<lambda>s. m\<lparr>ServiceLoadReportPush_message := s\<rparr>)
        else Unusual
      else Unusual)"

definition ServiceLoadReportPush_parse :: "pb_rt \<Rightarrow> bytes \<Rightarrow> ServiceLoadReportPush option" where
  "ServiceLoadReportPush_parse rt p =
     parse_message rt (ServiceLoadReportPush_switch rt) (\<lambda>raw m. m\<lparr>ServiceLoadReportPush_unknown := ServiceLoadReportPush_unknown m @ raw\<rparr>) ServiceLoadReportPush_default p"

definition ServiceLoadReportPush_serialize :: "pb_rt \<Rightarrow> ServiceLoadReportPush \<Rightarrow> bytes" where
  "ServiceLoadReportPush_serialize rt m =
     (if ServiceLoadReportPush_load_score m \<noteq> 0 then WriteUInt32ToArray rt 1 (ServiceLoadReportPush_load_score m) else []) @
     (if ServiceLoadReportPush_accepting_bindings m then WriteBoolToArray rt 2 (ServiceLoadReportPush_accepting_bindings m) else []) @
     (if ServiceLoadReportPush_message m \<noteq> [] then WriteStringMaybeAliased rt 3 (ServiceLoadReportPush_message m) else []) @
     ServiceLoadReportPush_unknown m"

definition ServiceLoadReportPush_ByteSizeLong :: "pb_rt \<Rightarrow> ServiceLoadReportPush \<Rightarrow> nat" where
  "ServiceLoadReportPush_ByteSizeLong rt m =
     (if ServiceLoadReportPush_message m \<noteq> [] then 1 + LengthDelimitedSize rt (length (ServiceLoadReportPush_message m)) else 0) +
     (if ServiceLoadReportPush_load_score m \<noteq> 0 then UInt32SizePlusOne rt (ServiceLoadReportPush_load_score m) else 0) +
     (if ServiceLoadReportPush_accepting_bindings m then 1 + 1 else 0) +
     length (ServiceLoadReportPush_unknown m)"

definition ServiceLoadReportPush_MergeFrom :: "ServiceLoadReportPush \<Rightarrow> ServiceLoadReportPush \<Rightarrow> ServiceLoadReportPush" where
  "ServiceLoadReportPush_MergeFrom frm m = m\<lparr>
     ServiceLoadReportPush_message := (if ServiceLoadReportPush_message frm \<noteq> [] then ServiceLoadReportPush_message frm else ServiceLoadReportPush_message m),
     ServiceLoadReportPush_load_score := (if ServiceLoadReportPush_load_score frm \<noteq> 0 then ServiceLoadReportPush_load_score frm else ServiceLoadReportPush_load_score m),
     ServiceLoadReportPush_accepting_bindings := (if ServiceLoadReportPush_accepting_bindings frm then ServiceLoadReportPush_accepting_bindings frm else ServiceLoadReportPush_accepting_bindings m),
     ServiceLoadReportPush_unknown := ServiceLoadReportPush_unknown m @ ServiceLoadReportPush_unknown frm\<rparr>"

definition ServiceLoadReportPush_CopyFrom :: "ServiceLoadReportPush \<Rightarrow> ServiceLoadReportPush \<Rightarrow> ServiceLoadReportPush" where
  "ServiceLoadReportPush_CopyFrom frm m = ServiceLoadReportPush_MergeFrom frm (ServiceLoadReportPush_Clear m)"

text \<open>No unknown fields, valid UTF-8 strings, blocks below the runtime's size limit.\<close>

definition ServiceLoadReportPush_ok :: "pb_rt \<Rightarrow> ServiceLoadReportPush \<Rightarrow> bool" where
  "ServiceLoadReportPush_ok rt m \<longleftrightarrow>
     ServiceLoadReportPush_unknown m = [] \<and>
     VerifyUTF8 rt (ServiceLoadReportPush_message m) \<and>
     length (ServiceLoadReportPush_message m) + 16 < 2 ^ 31"

context pb_laws begin

lemma ServiceLoadReportPush_consumes: "consumes (ServiceLoadReportPush_switch rt)"
  by (auto simp: consumes_def ServiceLoadReportPush_switch_def split: if_splits dest: field_consumes)

lemma ServiceLoadReportPush_load_score_step:
  "parse_message rt (ServiceLoadReportPush_switch rt) unk m ((if ServiceLoadReportPush_load_score a \<noteq> 0 then WriteUInt32ToArray rt 1 (ServiceLoadReportPush_load_score a) else []) @ r)
    = parse_message rt (ServiceLoadReportPush_switch rt) unk (m\<lparr>ServiceLoadReportPush_load_score := (if ServiceLoadReportPush_load_score a \<noteq> 0 then ServiceLoadReportPush_load_score a else ServiceLoadReportPush_load_score m)\<rparr>) r"
  by (rule uint32_step [OF ServiceLoadReportPush_consumes, where upd = "\<lambda>v. m\<lparr>ServiceLoadReportPush_load_score := v\<rparr>"])
     (simp_all add: ServiceLoadReportPush_switch_def field_tag_def)

lemma ServiceLoadReportPush_accepting_bindings_step:
  "parse_message rt (ServiceLoadReportPush_switch rt) unk m ((if ServiceLoadReportPush_accepting_bindings a then WriteBoolToArray rt 2 (ServiceLoadReportPush_accepting_bindings a) else []) @ r)
    = parse_message rt (ServiceLoadReportPush_switch rt) unk (m\<lparr>ServiceLoadReportPush_accepting_bindings := (if ServiceLoadReportPush_accepting_bindings a then ServiceLoadReportPush_accepting_bindings a else ServiceLoadReportPush_accepting_bindings m)\<rparr>) r"
  by (rule bool_step [OF ServiceLoadReportPush_consumes, where upd = "\<lambda>v. m\<lparr>ServiceLoadReportPush_accepting_bindings := v\<rparr>"])
     (simp_all add: ServiceLoadReportPush_switch_def field_tag_def)

lemma ServiceLoadReportPush_message_step:
  "VerifyUTF8 rt (ServiceLoadReportPush_message a) \<Longrightarrow> length (ServiceLoadReportPush_message a) + 16 < 2 ^ 31 \<Longrightarrow>
   parse_message rt (ServiceLoadReportPush_switch rt) unk m ((if ServiceLoadReportPush_message a \<noteq> [] then WriteStringMaybeAliased rt 3 (ServiceLoadReportPush_message a) else []) @ r)
    = parse_message rt (ServiceLoadReportPush_switch rt) unk (m\<lparr>ServiceLoadReportPush_message := (if ServiceLoadReportPush_message a \<noteq> [] then ServiceLoadReportPush_message a else ServiceLoadReportPush_message m)\<rparr>) r"
  by (rule string_step [OF ServiceLoadReportPush_consumes, where upd = "\<lambda>v. m\<lparr>ServiceLoadReportPush_message := v\<rparr>"])
     (simp_all add: ServiceLoadReportPush_switch_def field_tag_def)

lemma ServiceLoadReportPush_MergeFrom_fields:
  "ServiceLoadReportPush_MergeFrom a m = m\<lparr>ServiceLoadReportPush_load_score := (if ServiceLoadReportPush_load_score a \<noteq> 0 then ServiceLoadReportPush_load_score a else ServiceLoadReportPush_load_score m),
     ServiceLoadReportPush_accepting_bindings := (if ServiceLoadReportPush_accepting_bindings a then ServiceLoadReportPush_accepting_bindings a else ServiceLoadReportPush_accepting_bindings m),
     ServiceLoadReportPush_message := (if ServiceLoadReportPush_message a \<noteq> [] then ServiceLoadReportPush_message a else ServiceLoadReportPush_message m), ServiceLoadReportPush_unknown := ServiceLoadReportPush_unknown m @ ServiceLoadReportPush_unknown a\<rparr>"
  by (rule ServiceLoadReportPush.equality) (simp_all add: ServiceLoadReportPush_MergeFrom_def)

lemma ServiceLoadReportPush_merge:
  assumes "ServiceLoadReportPush_ok rt a"
  shows "parse_message rt (ServiceLoadReportPush_switch rt) unk m (ServiceLoadReportPush_serialize rt a @ r)
    = parse_message rt (ServiceLoadReportPush_switch rt) unk (ServiceLoadReportPush_MergeFrom a m) r"
  using assms
  by (simp add: ServiceLoadReportPush_ok_def ServiceLoadReportPush_serialize_def ServiceLoadReportPush_MergeFrom_fields
      ServiceLoadReportPush_load_score_step ServiceLoadReportPush_accepting_bindings_step ServiceLoadReportPush_message_step)

lemma ServiceLoadReportPush_roundtrip:
  assumes "ServiceLoadReportPush_ok rt a"
  shows "ServiceLoadReportPush_parse rt (ServiceLoadReportPush_serialize rt a) = Some a"
  using ServiceLoadReportPush_merge [OF assms, where r = "[]"] assms
  by (simp add: ServiceLoadReportPush_parse_def ServiceLoadReportPush_MergeFrom_def ServiceLoadReportPush_default_def ServiceLoadReportPush_ok_def)

lemma ServiceLoadReportPush_size: "ServiceLoadReportPush_ByteSizeLong rt a = length (ServiceLoadReportPush_serialize rt a)"
  by (simp add: ServiceLoadReportPush_ByteSizeLong_def ServiceLoadReportPush_serialize_def field_sizes)

end

lemma ServiceLoadReportPush_CopyFrom_eq: "ServiceLoadReportPush_CopyFrom a m = a"
  by (simp add: ServiceLoadReportPush_CopyFrom_def ServiceLoadReportPush_MergeFrom_def ServiceLoadReportPush_Clear_def)

subsection \<open>ServerPingReq\<close>

record ServerPingReq =
  ServerPingReq_nonce :: u64
  ServerPingReq_unknown :: bytes

definition ServerPingReq_Id :: u16 where "ServerPingReq_Id = 114"

definition ServerPingReq_default :: ServerPingReq where
  "ServerPingReq_default = \<lparr>ServerPingReq_nonce = 0, ServerPingReq_unknown = []\<rparr>"

definition ServerPingReq_Clear :: "ServerPingReq \<Rightarrow> ServerPingReq" where
  "ServerPingReq_Clear m = m\<lparr>ServerPingReq_nonce := 0, ServerPingReq_unknown := []\<rparr>"

definition ServerPingReq_switch :: "pb_rt \<Rightarrow> u32 \<Rightarrow> ServerPingReq \<Rightarrow> bytes \<Rightarrow> ServerPingReq field_result" where
  "ServerPingReq_switch rt tag m ptr =
     (if drop_bit 3 tag = 1 then
        if (ucast tag :: u8) = 8 then varint64_field rt ptr (\<lambda>v. m\<lparr>ServerPingReq_nonce := v\<rparr>)
        else Unusual
      else Unusual)"

definition ServerPingReq_parse :: "pb_rt \<Rightarrow> bytes \<Rightarrow> ServerPingReq option" where
  "ServerPingReq_parse rt p =
     parse_message rt (ServerPingReq_switch rt) (\<lambda>raw m. m\<lparr>ServerPingReq_unknown := ServerPingReq_unknown m @ raw\<rparr>) ServerPingReq_default p"

definition ServerPingReq_serialize :: "pb_rt \<Rightarrow> ServerPingReq \<Rightarrow> bytes" where
  "ServerPingReq_serialize rt m =
     (if ServerPingReq_nonce m \<noteq> 0 then WriteUInt64ToArray rt 1 (ServerPingReq_nonce m) else []) @
     ServerPingReq_unknown m"

definition ServerPingReq_ByteSizeLong :: "pb_rt \<Rightarrow> ServerPingReq \<Rightarrow> nat" where
  "ServerPingReq_ByteSizeLong rt m =
     (if ServerPingReq_nonce m \<noteq> 0 then UInt64SizePlusOne rt (ServerPingReq_nonce m) else 0) +
     length (ServerPingReq_unknown m)"

definition ServerPingReq_MergeFrom :: "ServerPingReq \<Rightarrow> ServerPingReq \<Rightarrow> ServerPingReq" where
  "ServerPingReq_MergeFrom frm m = m\<lparr>
     ServerPingReq_nonce := (if ServerPingReq_nonce frm \<noteq> 0 then ServerPingReq_nonce frm else ServerPingReq_nonce m),
     ServerPingReq_unknown := ServerPingReq_unknown m @ ServerPingReq_unknown frm\<rparr>"

definition ServerPingReq_CopyFrom :: "ServerPingReq \<Rightarrow> ServerPingReq \<Rightarrow> ServerPingReq" where
  "ServerPingReq_CopyFrom frm m = ServerPingReq_MergeFrom frm (ServerPingReq_Clear m)"

text \<open>No unknown fields, valid UTF-8 strings, blocks below the runtime's size limit.\<close>

definition ServerPingReq_ok :: "pb_rt \<Rightarrow> ServerPingReq \<Rightarrow> bool" where
  "ServerPingReq_ok rt m \<longleftrightarrow>
     ServerPingReq_unknown m = []"

context pb_laws begin

lemma ServerPingReq_consumes: "consumes (ServerPingReq_switch rt)"
  by (auto simp: consumes_def ServerPingReq_switch_def split: if_splits dest: field_consumes)

lemma ServerPingReq_nonce_step:
  "parse_message rt (ServerPingReq_switch rt) unk m ((if ServerPingReq_nonce a \<noteq> 0 then WriteUInt64ToArray rt 1 (ServerPingReq_nonce a) else []) @ r)
    = parse_message rt (ServerPingReq_switch rt) unk (m\<lparr>ServerPingReq_nonce := (if ServerPingReq_nonce a \<noteq> 0 then ServerPingReq_nonce a else ServerPingReq_nonce m)\<rparr>) r"
  by (rule uint64_step [OF ServerPingReq_consumes, where upd = "\<lambda>v. m\<lparr>ServerPingReq_nonce := v\<rparr>"])
     (simp_all add: ServerPingReq_switch_def field_tag_def)

lemma ServerPingReq_MergeFrom_fields:
  "ServerPingReq_MergeFrom a m = m\<lparr>ServerPingReq_nonce := (if ServerPingReq_nonce a \<noteq> 0 then ServerPingReq_nonce a else ServerPingReq_nonce m), ServerPingReq_unknown := ServerPingReq_unknown m @ ServerPingReq_unknown a\<rparr>"
  by (rule ServerPingReq.equality) (simp_all add: ServerPingReq_MergeFrom_def)

lemma ServerPingReq_merge:
  assumes "ServerPingReq_ok rt a"
  shows "parse_message rt (ServerPingReq_switch rt) unk m (ServerPingReq_serialize rt a @ r)
    = parse_message rt (ServerPingReq_switch rt) unk (ServerPingReq_MergeFrom a m) r"
  using assms
  by (simp add: ServerPingReq_ok_def ServerPingReq_serialize_def ServerPingReq_MergeFrom_fields
      ServerPingReq_nonce_step)

lemma ServerPingReq_roundtrip:
  assumes "ServerPingReq_ok rt a"
  shows "ServerPingReq_parse rt (ServerPingReq_serialize rt a) = Some a"
  using ServerPingReq_merge [OF assms, where r = "[]"] assms
  by (simp add: ServerPingReq_parse_def ServerPingReq_MergeFrom_def ServerPingReq_default_def ServerPingReq_ok_def)

lemma ServerPingReq_size: "ServerPingReq_ByteSizeLong rt a = length (ServerPingReq_serialize rt a)"
  by (simp add: ServerPingReq_ByteSizeLong_def ServerPingReq_serialize_def field_sizes)

end

lemma ServerPingReq_CopyFrom_eq: "ServerPingReq_CopyFrom a m = a"
  by (simp add: ServerPingReq_CopyFrom_def ServerPingReq_MergeFrom_def ServerPingReq_Clear_def)

subsection \<open>ServerPongResp\<close>

record ServerPongResp =
  ServerPongResp_nonce :: u64
  ServerPongResp_unknown :: bytes

definition ServerPongResp_Id :: u16 where "ServerPongResp_Id = 115"

definition ServerPongResp_default :: ServerPongResp where
  "ServerPongResp_default = \<lparr>ServerPongResp_nonce = 0, ServerPongResp_unknown = []\<rparr>"

definition ServerPongResp_Clear :: "ServerPongResp \<Rightarrow> ServerPongResp" where
  "ServerPongResp_Clear m = m\<lparr>ServerPongResp_nonce := 0, ServerPongResp_unknown := []\<rparr>"

definition ServerPongResp_switch :: "pb_rt \<Rightarrow> u32 \<Rightarrow> ServerPongResp \<Rightarrow> bytes \<Rightarrow> ServerPongResp field_result" where
  "ServerPongResp_switch rt tag m ptr =
     (if drop_bit 3 tag = 1 then
        if (ucast tag :: u8) = 8 then varint64_field rt ptr (\<lambda>v. m\<lparr>ServerPongResp_nonce := v\<rparr>)
        else Unusual
      else Unusual)"

definition ServerPongResp_parse :: "pb_rt \<Rightarrow> bytes \<Rightarrow> ServerPongResp option" where
  "ServerPongResp_parse rt p =
     parse_message rt (ServerPongResp_switch rt) (\<lambda>raw m. m\<lparr>ServerPongResp_unknown := ServerPongResp_unknown m @ raw\<rparr>) ServerPongResp_default p"

definition ServerPongResp_serialize :: "pb_rt \<Rightarrow> ServerPongResp \<Rightarrow> bytes" where
  "ServerPongResp_serialize rt m =
     (if ServerPongResp_nonce m \<noteq> 0 then WriteUInt64ToArray rt 1 (ServerPongResp_nonce m) else []) @
     ServerPongResp_unknown m"

definition ServerPongResp_ByteSizeLong :: "pb_rt \<Rightarrow> ServerPongResp \<Rightarrow> nat" where
  "ServerPongResp_ByteSizeLong rt m =
     (if ServerPongResp_nonce m \<noteq> 0 then UInt64SizePlusOne rt (ServerPongResp_nonce m) else 0) +
     length (ServerPongResp_unknown m)"

definition ServerPongResp_MergeFrom :: "ServerPongResp \<Rightarrow> ServerPongResp \<Rightarrow> ServerPongResp" where
  "ServerPongResp_MergeFrom frm m = m\<lparr>
     ServerPongResp_nonce := (if ServerPongResp_nonce frm \<noteq> 0 then ServerPongResp_nonce frm else ServerPongResp_nonce m),
     ServerPongResp_unknown := ServerPongResp_unknown m @ ServerPongResp_unknown frm\<rparr>"

definition ServerPongResp_CopyFrom :: "ServerPongResp \<Rightarrow> ServerPongResp \<Rightarrow> ServerPongResp" where
  "ServerPongResp_CopyFrom frm m = ServerPongResp_MergeFrom frm (ServerPongResp_Clear m)"

text \<open>No unknown fields, valid UTF-8 strings, blocks below the runtime's size limit.\<close>

definition ServerPongResp_ok :: "pb_rt \<Rightarrow> ServerPongResp \<Rightarrow> bool" where
  "ServerPongResp_ok rt m \<longleftrightarrow>
     ServerPongResp_unknown m = []"

context pb_laws begin

lemma ServerPongResp_consumes: "consumes (ServerPongResp_switch rt)"
  by (auto simp: consumes_def ServerPongResp_switch_def split: if_splits dest: field_consumes)

lemma ServerPongResp_nonce_step:
  "parse_message rt (ServerPongResp_switch rt) unk m ((if ServerPongResp_nonce a \<noteq> 0 then WriteUInt64ToArray rt 1 (ServerPongResp_nonce a) else []) @ r)
    = parse_message rt (ServerPongResp_switch rt) unk (m\<lparr>ServerPongResp_nonce := (if ServerPongResp_nonce a \<noteq> 0 then ServerPongResp_nonce a else ServerPongResp_nonce m)\<rparr>) r"
  by (rule uint64_step [OF ServerPongResp_consumes, where upd = "\<lambda>v. m\<lparr>ServerPongResp_nonce := v\<rparr>"])
     (simp_all add: ServerPongResp_switch_def field_tag_def)

lemma ServerPongResp_MergeFrom_fields:
  "ServerPongResp_MergeFrom a m = m\<lparr>ServerPongResp_nonce := (if ServerPongResp_nonce a \<noteq> 0 then ServerPongResp_nonce a else ServerPongResp_nonce m), ServerPongResp_unknown := ServerPongResp_unknown m @ ServerPongResp_unknown a\<rparr>"
  by (rule ServerPongResp.equality) (simp_all add: ServerPongResp_MergeFrom_def)

lemma ServerPongResp_merge:
  assumes "ServerPongResp_ok rt a"
  shows "parse_message rt (ServerPongResp_switch rt) unk m (ServerPongResp_serialize rt a @ r)
    = parse_message rt (ServerPongResp_switch rt) unk (ServerPongResp_MergeFrom a m) r"
  using assms
  by (simp add: ServerPongResp_ok_def ServerPongResp_serialize_def ServerPongResp_MergeFrom_fields
      ServerPongResp_nonce_step)

lemma ServerPongResp_roundtrip:
  assumes "ServerPongResp_ok rt a"
  shows "ServerPongResp_parse rt (ServerPongResp_serialize rt a) = Some a"
  using ServerPongResp_merge [OF assms, where r = "[]"] assms
  by (simp add: ServerPongResp_parse_def ServerPongResp_MergeFrom_def ServerPongResp_default_def ServerPongResp_ok_def)

lemma ServerPongResp_size: "ServerPongResp_ByteSizeLong rt a = length (ServerPongResp_serialize rt a)"
  by (simp add: ServerPongResp_ByteSizeLong_def ServerPongResp_serialize_def field_sizes)

end

lemma ServerPongResp_CopyFrom_eq: "ServerPongResp_CopyFrom a m = a"
  by (simp add: ServerPongResp_CopyFrom_def ServerPongResp_MergeFrom_def ServerPongResp_Clear_def)

end
