(* ===== verification/PbBattle.thy ===== *)
theory PbBattle
  imports PbRuntime
begin

section \<open>Battle messages\<close>

text \<open>
  The generated classes of \<open>battle/src/protocol/game_battle.pb.h\<close> and \<open>.pb.cc\<close>. A player of
  a create request is a \<open>PB::Types::BattlePlayerSpec\<close>, whose generated code is not in the
  repository: its fields are those of \<open>game/protocol/pb/game_types.proto\<close>, its parser, serializer
  and size are the arguments \<open>psp\<close>, \<open>pss\<close> and \<open>psz\<close>.
\<close>

record BattlePlayerSpec =
  session_id :: u32
  player_id :: i64
  class_id :: i32
  name :: bytes
  character_id :: i64

subsection \<open>BattlePlayerSpawn\<close>

record BattlePlayerSpawn =
  BattlePlayerSpawn_session_id :: u32
  BattlePlayerSpawn_actor_entity_id :: u32
  BattlePlayerSpawn_unknown :: bytes

definition BattlePlayerSpawn_default :: BattlePlayerSpawn where
  "BattlePlayerSpawn_default = \<lparr>BattlePlayerSpawn_session_id = 0,
     BattlePlayerSpawn_actor_entity_id = 0, BattlePlayerSpawn_unknown = []\<rparr>"

definition BattlePlayerSpawn_Clear :: "BattlePlayerSpawn \<Rightarrow> BattlePlayerSpawn" where
  "BattlePlayerSpawn_Clear m = m\<lparr>BattlePlayerSpawn_session_id := 0,
     BattlePlayerSpawn_actor_entity_id := 0, BattlePlayerSpawn_unknown := []\<rparr>"

definition BattlePlayerSpawn_switch :: "pb_rt \<Rightarrow> u32 \<Rightarrow> BattlePlayerSpawn \<Rightarrow> bytes \<Rightarrow> BattlePlayerSpawn field_result" where
  "BattlePlayerSpawn_switch rt tag m ptr =
     (if drop_bit 3 tag = 1 then
        if (ucast tag :: u8) = 8 then varint32_field rt ptr (\<lambda>v. m\<lparr>BattlePlayerSpawn_session_id := v\<rparr>)
        else Unusual
      else if drop_bit 3 tag = 2 then
        if (ucast tag :: u8) = 16 then varint32_field rt ptr (\<lambda>v. m\<lparr>BattlePlayerSpawn_actor_entity_id := v\<rparr>)
        else Unusual
      else Unusual)"

definition BattlePlayerSpawn_parse :: "pb_rt \<Rightarrow> bytes \<Rightarrow> BattlePlayerSpawn option" where
  "BattlePlayerSpawn_parse rt p =
     parse_message rt (BattlePlayerSpawn_switch rt) (\<lambda>raw m. m\<lparr>BattlePlayerSpawn_unknown := BattlePlayerSpawn_unknown m @ raw\<rparr>) BattlePlayerSpawn_default p"

definition BattlePlayerSpawn_serialize :: "pb_rt \<Rightarrow> BattlePlayerSpawn \<Rightarrow> bytes" where
  "BattlePlayerSpawn_serialize rt m =
     (if BattlePlayerSpawn_session_id m \<noteq> 0 then WriteUInt32ToArray rt 1 (BattlePlayerSpawn_session_id m) else []) @
     (if BattlePlayerSpawn_actor_entity_id m \<noteq> 0 then WriteUInt32ToArray rt 2 (BattlePlayerSpawn_actor_entity_id m) else []) @
     BattlePlayerSpawn_unknown m"

definition BattlePlayerSpawn_ByteSizeLong :: "pb_rt \<Rightarrow> BattlePlayerSpawn \<Rightarrow> nat" where
  "BattlePlayerSpawn_ByteSizeLong rt m =
     (if BattlePlayerSpawn_session_id m \<noteq> 0 then UInt32SizePlusOne rt (BattlePlayerSpawn_session_id m) else 0) +
     (if BattlePlayerSpawn_actor_entity_id m \<noteq> 0 then UInt32SizePlusOne rt (BattlePlayerSpawn_actor_entity_id m) else 0) +
     length (BattlePlayerSpawn_unknown m)"

definition BattlePlayerSpawn_MergeFrom :: "BattlePlayerSpawn \<Rightarrow> BattlePlayerSpawn \<Rightarrow> BattlePlayerSpawn" where
  "BattlePlayerSpawn_MergeFrom frm m = m\<lparr>
     BattlePlayerSpawn_session_id := (if BattlePlayerSpawn_session_id frm \<noteq> 0 then BattlePlayerSpawn_session_id frm else BattlePlayerSpawn_session_id m),
     BattlePlayerSpawn_actor_entity_id := (if BattlePlayerSpawn_actor_entity_id frm \<noteq> 0 then BattlePlayerSpawn_actor_entity_id frm else BattlePlayerSpawn_actor_entity_id m),
     BattlePlayerSpawn_unknown := BattlePlayerSpawn_unknown m @ BattlePlayerSpawn_unknown frm\<rparr>"

definition BattlePlayerSpawn_CopyFrom :: "BattlePlayerSpawn \<Rightarrow> BattlePlayerSpawn \<Rightarrow> BattlePlayerSpawn" where
  "BattlePlayerSpawn_CopyFrom frm m = BattlePlayerSpawn_MergeFrom frm (BattlePlayerSpawn_Clear m)"

text \<open>No unknown fields, valid UTF-8 strings, blocks below the runtime's size limit.\<close>

definition BattlePlayerSpawn_ok :: "pb_rt \<Rightarrow> BattlePlayerSpawn \<Rightarrow> bool" where
  "BattlePlayerSpawn_ok rt m \<longleftrightarrow>
     BattlePlayerSpawn_unknown m = []"

context pb_laws begin

lemma BattlePlayerSpawn_consumes: "consumes (BattlePlayerSpawn_switch rt)"
  by (auto simp: consumes_def BattlePlayerSpawn_switch_def split: if_splits dest: field_consumes)

lemma BattlePlayerSpawn_session_id_step:
  "parse_message rt (BattlePlayerSpawn_switch rt) unk m ((if BattlePlayerSpawn_session_id a \<noteq> 0 then WriteUInt32ToArray rt 1 (BattlePlayerSpawn_session_id a) else []) @ r)
    = parse_message rt (BattlePlayerSpawn_switch rt) unk (m\<lparr>BattlePlayerSpawn_session_id := (if BattlePlayerSpawn_session_id a \<noteq> 0 then BattlePlayerSpawn_session_id a else BattlePlayerSpawn_session_id m)\<rparr>) r"
  by (rule uint32_step [OF BattlePlayerSpawn_consumes, where upd = "\<lambda>v. m\<lparr>BattlePlayerSpawn_session_id := v\<rparr>"])
     (simp_all add: BattlePlayerSpawn_switch_def field_tag_def)

lemma BattlePlayerSpawn_actor_entity_id_step:
  "parse_message rt (BattlePlayerSpawn_switch rt) unk m ((if BattlePlayerSpawn_actor_entity_id a \<noteq> 0 then WriteUInt32ToArray rt 2 (BattlePlayerSpawn_actor_entity_id a) else []) @ r)
    = parse_message rt (BattlePlayerSpawn_switch rt) unk (m\<lparr>BattlePlayerSpawn_actor_entity_id := (if BattlePlayerSpawn_actor_entity_id a \<noteq> 0 then BattlePlayerSpawn_actor_entity_id a else BattlePlayerSpawn_actor_entity_id m)\<rparr>) r"
  by (rule uint32_step [OF BattlePlayerSpawn_consumes, where upd = "\<lambda>v. m\<lparr>BattlePlayerSpawn_actor_entity_id := v\<rparr>"])
     (simp_all add: BattlePlayerSpawn_switch_def field_tag_def)

lemma BattlePlayerSpawn_MergeFrom_fields:
  "BattlePlayerSpawn_MergeFrom a m = m\<lparr>BattlePlayerSpawn_session_id := (if BattlePlayerSpawn_session_id a \<noteq> 0 then BattlePlayerSpawn_session_id a else BattlePlayerSpawn_session_id m),
     BattlePlayerSpawn_actor_entity_id := (if BattlePlayerSpawn_actor_entity_id a \<noteq> 0 then BattlePlayerSpawn_actor_entity_id a else BattlePlayerSpawn_actor_entity_id m), BattlePlayerSpawn_unknown := BattlePlayerSpawn_unknown m @ BattlePlayerSpawn_unknown a\<rparr>"
  by (rule BattlePlayerSpawn.equality) (simp_all add: BattlePlayerSpawn_MergeFrom_def)

lemma BattlePlayerSpawn_merge:
  assumes "BattlePlayerSpawn_ok rt a"
  shows "parse_message rt (BattlePlayerSpawn_switch rt) unk m (BattlePlayerSpawn_serialize rt a @ r)
    = parse_message rt (BattlePlayerSpawn_switch rt) unk (BattlePlayerSpawn_MergeFrom a m) r"
  using assms
  by (simp add: BattlePlayerSpawn_ok_def BattlePlayerSpawn_serialize_def BattlePlayerSpawn_MergeFrom_fields
      BattlePlayerSpawn_session_id_step BattlePlayerSpawn_actor_entity_id_step)

lemma BattlePlayerSpawn_roundtrip:
  assumes "BattlePlayerSpawn_ok rt a"
  shows "BattlePlayerSpawn_parse rt (BattlePlayerSpawn_serialize rt a) = Some a"
  using BattlePlayerSpawn_merge [OF assms, where r = "[]"] assms
  by (simp add: BattlePlayerSpawn_parse_def BattlePlayerSpawn_MergeFrom_def BattlePlayerSpawn_default_def BattlePlayerSpawn_ok_def)

lemma BattlePlayerSpawn_size: "BattlePlayerSpawn_ByteSizeLong rt a = length (BattlePlayerSpawn_serialize rt a)"
  by (simp add: BattlePlayerSpawn_ByteSizeLong_def BattlePlayerSpawn_serialize_def field_sizes)

end

lemma BattlePlayerSpawn_CopyFrom_eq: "BattlePlayerSpawn_CopyFrom a m = a"
  by (simp add: BattlePlayerSpawn_CopyFrom_def BattlePlayerSpawn_MergeFrom_def BattlePlayerSpawn_Clear_def)

subsection \<open>BattleCreateReq\<close>

record BattleCreateReq =
  BattleCreateReq_battle_id :: u32
  BattleCreateReq_map_id :: i32
  BattleCreateReq_players :: "BattlePlayerSpec list"
  BattleCreateReq_requester_service_id :: u32
  BattleCreateReq_requester_instance_id :: u32
  BattleCreateReq_random_seed :: u64
  BattleCreateReq_unknown :: bytes

definition BattleCreateReq_Id :: u16 where "BattleCreateReq_Id = 60000"

definition BattleCreateReq_default :: BattleCreateReq where
  "BattleCreateReq_default = \<lparr>BattleCreateReq_battle_id = 0,
     BattleCreateReq_map_id = 0,
     BattleCreateReq_players = [],
     BattleCreateReq_requester_service_id = 0,
     BattleCreateReq_requester_instance_id = 0,
     BattleCreateReq_random_seed = 0, BattleCreateReq_unknown = []\<rparr>"

definition BattleCreateReq_Clear :: "BattleCreateReq \<Rightarrow> BattleCreateReq" where
  "BattleCreateReq_Clear m = m\<lparr>BattleCreateReq_battle_id := 0,
     BattleCreateReq_map_id := 0,
     BattleCreateReq_players := [],
     BattleCreateReq_requester_service_id := 0,
     BattleCreateReq_requester_instance_id := 0,
     BattleCreateReq_random_seed := 0, BattleCreateReq_unknown := []\<rparr>"

definition BattleCreateReq_switch :: "pb_rt \<Rightarrow> (bytes \<Rightarrow> BattlePlayerSpec option) \<Rightarrow> u32 \<Rightarrow> BattleCreateReq \<Rightarrow> bytes \<Rightarrow> BattleCreateReq field_result" where
  "BattleCreateReq_switch rt psp tag m ptr =
     (if drop_bit 3 tag = 1 then
        if (ucast tag :: u8) = 8 then varint32_field rt ptr (\<lambda>v. m\<lparr>BattleCreateReq_battle_id := v\<rparr>)
        else Unusual
      else if drop_bit 3 tag = 2 then
        if (ucast tag :: u8) = 16 then varint32_field rt ptr (\<lambda>v. m\<lparr>BattleCreateReq_map_id := v\<rparr>)
        else Unusual
      else if drop_bit 3 tag = 3 then
        if (ucast tag :: u8) = 26 then repeated_field rt psp (\<lambda>x m. m\<lparr>BattleCreateReq_players := BattleCreateReq_players m @ [x]\<rparr>) 26 (Suc (length ptr)) m ptr
        else Unusual
      else if drop_bit 3 tag = 4 then
        if (ucast tag :: u8) = 32 then varint32_field rt ptr (\<lambda>v. m\<lparr>BattleCreateReq_requester_service_id := v\<rparr>)
        else Unusual
      else if drop_bit 3 tag = 5 then
        if (ucast tag :: u8) = 40 then varint32_field rt ptr (\<lambda>v. m\<lparr>BattleCreateReq_requester_instance_id := v\<rparr>)
        else Unusual
      else if drop_bit 3 tag = 6 then
        if (ucast tag :: u8) = 48 then varint64_field rt ptr (\<lambda>v. m\<lparr>BattleCreateReq_random_seed := v\<rparr>)
        else Unusual
      else Unusual)"

definition BattleCreateReq_parse :: "pb_rt \<Rightarrow> (bytes \<Rightarrow> BattlePlayerSpec option) \<Rightarrow> bytes \<Rightarrow> BattleCreateReq option" where
  "BattleCreateReq_parse rt psp p =
     parse_message rt (BattleCreateReq_switch rt psp) (\<lambda>raw m. m\<lparr>BattleCreateReq_unknown := BattleCreateReq_unknown m @ raw\<rparr>) BattleCreateReq_default p"

definition BattleCreateReq_serialize :: "pb_rt \<Rightarrow> (BattlePlayerSpec \<Rightarrow> bytes) \<Rightarrow> BattleCreateReq \<Rightarrow> bytes" where
  "BattleCreateReq_serialize rt pss m =
     (if BattleCreateReq_battle_id m \<noteq> 0 then WriteUInt32ToArray rt 1 (BattleCreateReq_battle_id m) else []) @
     (if BattleCreateReq_map_id m \<noteq> 0 then WriteInt32ToArray rt 2 (BattleCreateReq_map_id m) else []) @
     concat (map (\<lambda>x. InternalWriteMessage rt 3 (pss x)) (BattleCreateReq_players m)) @
     (if BattleCreateReq_requester_service_id m \<noteq> 0 then WriteUInt32ToArray rt 4 (BattleCreateReq_requester_service_id m) else []) @
     (if BattleCreateReq_requester_instance_id m \<noteq> 0 then WriteUInt32ToArray rt 5 (BattleCreateReq_requester_instance_id m) else []) @
     (if BattleCreateReq_random_seed m \<noteq> 0 then WriteUInt64ToArray rt 6 (BattleCreateReq_random_seed m) else []) @
     BattleCreateReq_unknown m"

definition BattleCreateReq_ByteSizeLong :: "pb_rt \<Rightarrow> (BattlePlayerSpec \<Rightarrow> nat) \<Rightarrow> BattleCreateReq \<Rightarrow> nat" where
  "BattleCreateReq_ByteSizeLong rt psz m =
     length (BattleCreateReq_players m) +
     sum_list (map (\<lambda>x. LengthDelimitedSize rt (psz x)) (BattleCreateReq_players m)) +
     (if BattleCreateReq_battle_id m \<noteq> 0 then UInt32SizePlusOne rt (BattleCreateReq_battle_id m) else 0) +
     (if BattleCreateReq_map_id m \<noteq> 0 then Int32SizePlusOne rt (BattleCreateReq_map_id m) else 0) +
     (if BattleCreateReq_requester_service_id m \<noteq> 0 then UInt32SizePlusOne rt (BattleCreateReq_requester_service_id m) else 0) +
     (if BattleCreateReq_requester_instance_id m \<noteq> 0 then UInt32SizePlusOne rt (BattleCreateReq_requester_instance_id m) else 0) +
     (if BattleCreateReq_random_seed m \<noteq> 0 then UInt64SizePlusOne rt (BattleCreateReq_random_seed m) else 0) +
     length (BattleCreateReq_unknown m)"

definition BattleCreateReq_MergeFrom :: "BattleCreateReq \<Rightarrow> BattleCreateReq \<Rightarrow> BattleCreateReq" where
  "BattleCreateReq_MergeFrom frm m = m\<lparr>
     BattleCreateReq_players := BattleCreateReq_players m @ BattleCreateReq_players frm,
     BattleCreateReq_battle_id := (if BattleCreateReq_battle_id frm \<noteq> 0 then BattleCreateReq_battle_id frm else BattleCreateReq_battle_id m),
     BattleCreateReq_map_id := (if BattleCreateReq_map_id frm \<noteq> 0 then BattleCreateReq_map_id frm else BattleCreateReq_map_id m),
     BattleCreateReq_requester_service_id := (if BattleCreateReq_requester_service_id frm \<noteq> 0 then BattleCreateReq_requester_service_id frm else BattleCreateReq_requester_service_id m),
     BattleCreateReq_requester_instance_id := (if BattleCreateReq_requester_instance_id frm \<noteq> 0 then BattleCreateReq_requester_instance_id frm else BattleCreateReq_requester_instance_id m),
     BattleCreateReq_random_seed := (if BattleCreateReq_random_seed frm \<noteq> 0 then BattleCreateReq_random_seed frm else BattleCreateReq_random_seed m),
     BattleCreateReq_unknown := BattleCreateReq_unknown m @ BattleCreateReq_unknown frm\<rparr>"

definition BattleCreateReq_CopyFrom :: "BattleCreateReq \<Rightarrow> BattleCreateReq \<Rightarrow> BattleCreateReq" where
  "BattleCreateReq_CopyFrom frm m = BattleCreateReq_MergeFrom frm (BattleCreateReq_Clear m)"

text \<open>No unknown fields, valid UTF-8 strings, blocks below the runtime's size limit.\<close>

definition BattleCreateReq_ok :: "pb_rt \<Rightarrow> (bytes \<Rightarrow> BattlePlayerSpec option) \<Rightarrow> (BattlePlayerSpec \<Rightarrow> bytes) \<Rightarrow> BattleCreateReq \<Rightarrow> bool" where
  "BattleCreateReq_ok rt psp pss m \<longleftrightarrow>
     BattleCreateReq_unknown m = [] \<and>
     (\<forall>x \<in> set (BattleCreateReq_players m). length (pss x) + 16 < 2 ^ 31 \<and> psp (pss x) = Some x)"

context pb_laws begin

lemma BattleCreateReq_consumes: "consumes (BattleCreateReq_switch rt psp)"
  by (auto simp: consumes_def BattleCreateReq_switch_def split: if_splits dest: field_consumes)

lemma BattleCreateReq_battle_id_step:
  "parse_message rt (BattleCreateReq_switch rt psp) unk m ((if BattleCreateReq_battle_id a \<noteq> 0 then WriteUInt32ToArray rt 1 (BattleCreateReq_battle_id a) else []) @ r)
    = parse_message rt (BattleCreateReq_switch rt psp) unk (m\<lparr>BattleCreateReq_battle_id := (if BattleCreateReq_battle_id a \<noteq> 0 then BattleCreateReq_battle_id a else BattleCreateReq_battle_id m)\<rparr>) r"
  by (rule uint32_step [OF BattleCreateReq_consumes, where upd = "\<lambda>v. m\<lparr>BattleCreateReq_battle_id := v\<rparr>"])
     (simp_all add: BattleCreateReq_switch_def field_tag_def)

lemma BattleCreateReq_map_id_step:
  "parse_message rt (BattleCreateReq_switch rt psp) unk m ((if BattleCreateReq_map_id a \<noteq> 0 then WriteInt32ToArray rt 2 (BattleCreateReq_map_id a) else []) @ r)
    = parse_message rt (BattleCreateReq_switch rt psp) unk (m\<lparr>BattleCreateReq_map_id := (if BattleCreateReq_map_id a \<noteq> 0 then BattleCreateReq_map_id a else BattleCreateReq_map_id m)\<rparr>) r"
  by (rule int32_step [OF BattleCreateReq_consumes, where upd = "\<lambda>v. m\<lparr>BattleCreateReq_map_id := v\<rparr>"])
     (simp_all add: BattleCreateReq_switch_def field_tag_def)

lemma BattleCreateReq_players_step:
  assumes "\<forall>x \<in> set (BattleCreateReq_players a). length (pss x) + 16 < 2 ^ 31 \<and> psp (pss x) = Some x"
  shows "parse_message rt (BattleCreateReq_switch rt psp) unk m (concat (map (\<lambda>x. InternalWriteMessage rt 3 (pss x)) (BattleCreateReq_players a)) @ r)
    = parse_message rt (BattleCreateReq_switch rt psp) unk (m\<lparr>BattleCreateReq_players := BattleCreateReq_players m @ BattleCreateReq_players a\<rparr>) r"
proof -
  let ?add = "\<lambda>x m. m\<lparr>BattleCreateReq_players := BattleCreateReq_players m @ [x]\<rparr>"
  have "fold ?add xs m = m\<lparr>BattleCreateReq_players := BattleCreateReq_players m @ xs\<rparr>" for xs
    by (induction xs arbitrary: m) simp_all
  moreover have "parse_message rt (BattleCreateReq_switch rt psp) unk m (concat (map (\<lambda>x. InternalWriteMessage rt 3 (pss x)) (BattleCreateReq_players a)) @ r)
      = parse_message rt (BattleCreateReq_switch rt psp) unk (fold ?add (BattleCreateReq_players a) m) r"
    by (rule repeated_steps [OF BattleCreateReq_consumes, where parse = "psp" and add = ?add])
       (use assms in \<open>simp_all add: BattleCreateReq_switch_def field_tag_def\<close>)
  ultimately show ?thesis by simp
qed

lemma BattleCreateReq_requester_service_id_step:
  "parse_message rt (BattleCreateReq_switch rt psp) unk m ((if BattleCreateReq_requester_service_id a \<noteq> 0 then WriteUInt32ToArray rt 4 (BattleCreateReq_requester_service_id a) else []) @ r)
    = parse_message rt (BattleCreateReq_switch rt psp) unk (m\<lparr>BattleCreateReq_requester_service_id := (if BattleCreateReq_requester_service_id a \<noteq> 0 then BattleCreateReq_requester_service_id a else BattleCreateReq_requester_service_id m)\<rparr>) r"
  by (rule uint32_step [OF BattleCreateReq_consumes, where upd = "\<lambda>v. m\<lparr>BattleCreateReq_requester_service_id := v\<rparr>"])
     (simp_all add: BattleCreateReq_switch_def field_tag_def)

lemma BattleCreateReq_requester_instance_id_step:
  "parse_message rt (BattleCreateReq_switch rt psp) unk m ((if BattleCreateReq_requester_instance_id a \<noteq> 0 then WriteUInt32ToArray rt 5 (BattleCreateReq_requester_instance_id a) else []) @ r)
    = parse_message rt (BattleCreateReq_switch rt psp) unk (m\<lparr>BattleCreateReq_requester_instance_id := (if BattleCreateReq_requester_instance_id a \<noteq> 0 then BattleCreateReq_requester_instance_id a else BattleCreateReq_requester_instance_id m)\<rparr>) r"
  by (rule uint32_step [OF BattleCreateReq_consumes, where upd = "\<lambda>v. m\<lparr>BattleCreateReq_requester_instance_id := v\<rparr>"])
     (simp_all add: BattleCreateReq_switch_def field_tag_def)

lemma BattleCreateReq_random_seed_step:
  "parse_message rt (BattleCreateReq_switch rt psp) unk m ((if BattleCreateReq_random_seed a \<noteq> 0 then WriteUInt64ToArray rt 6 (BattleCreateReq_random_seed a) else []) @ r)
    = parse_message rt (BattleCreateReq_switch rt psp) unk (m\<lparr>BattleCreateReq_random_seed := (if BattleCreateReq_random_seed a \<noteq> 0 then BattleCreateReq_random_seed a else BattleCreateReq_random_seed m)\<rparr>) r"
  by (rule uint64_step [OF BattleCreateReq_consumes, where upd = "\<lambda>v. m\<lparr>BattleCreateReq_random_seed := v\<rparr>"])
     (simp_all add: BattleCreateReq_switch_def field_tag_def)

lemma BattleCreateReq_MergeFrom_fields:
  "BattleCreateReq_MergeFrom a m = m\<lparr>BattleCreateReq_battle_id := (if BattleCreateReq_battle_id a \<noteq> 0 then BattleCreateReq_battle_id a else BattleCreateReq_battle_id m),
     BattleCreateReq_map_id := (if BattleCreateReq_map_id a \<noteq> 0 then BattleCreateReq_map_id a else BattleCreateReq_map_id m),
     BattleCreateReq_players := BattleCreateReq_players m @ BattleCreateReq_players a,
     BattleCreateReq_requester_service_id := (if BattleCreateReq_requester_service_id a \<noteq> 0 then BattleCreateReq_requester_service_id a else BattleCreateReq_requester_service_id m),
     BattleCreateReq_requester_instance_id := (if BattleCreateReq_requester_instance_id a \<noteq> 0 then BattleCreateReq_requester_instance_id a else BattleCreateReq_requester_instance_id m),
     BattleCreateReq_random_seed := (if BattleCreateReq_random_seed a \<noteq> 0 then BattleCreateReq_random_seed a else BattleCreateReq_random_seed m), BattleCreateReq_unknown := BattleCreateReq_unknown m @ BattleCreateReq_unknown a\<rparr>"
  by (rule BattleCreateReq.equality) (simp_all add: BattleCreateReq_MergeFrom_def)

lemma BattleCreateReq_merge:
  assumes "BattleCreateReq_ok rt psp pss a"
  shows "parse_message rt (BattleCreateReq_switch rt psp) unk m (BattleCreateReq_serialize rt pss a @ r)
    = parse_message rt (BattleCreateReq_switch rt psp) unk (BattleCreateReq_MergeFrom a m) r"
  using assms
  by (simp add: BattleCreateReq_ok_def BattleCreateReq_serialize_def BattleCreateReq_MergeFrom_fields
      BattleCreateReq_battle_id_step BattleCreateReq_map_id_step BattleCreateReq_players_step BattleCreateReq_requester_service_id_step BattleCreateReq_requester_instance_id_step BattleCreateReq_random_seed_step)

lemma BattleCreateReq_roundtrip:
  assumes "BattleCreateReq_ok rt psp pss a"
  shows "BattleCreateReq_parse rt psp (BattleCreateReq_serialize rt pss a) = Some a"
  using BattleCreateReq_merge [OF assms, where r = "[]"] assms
  by (simp add: BattleCreateReq_parse_def BattleCreateReq_MergeFrom_def BattleCreateReq_default_def BattleCreateReq_ok_def)

lemma BattleCreateReq_size: "(\<And>x. psz x = length (pss x)) \<Longrightarrow> BattleCreateReq_ByteSizeLong rt psz a = length (BattleCreateReq_serialize rt pss a)"
  by (simp add: BattleCreateReq_ByteSizeLong_def BattleCreateReq_serialize_def field_sizes)

end

lemma BattleCreateReq_CopyFrom_eq: "BattleCreateReq_CopyFrom a m = a"
  by (simp add: BattleCreateReq_CopyFrom_def BattleCreateReq_MergeFrom_def BattleCreateReq_Clear_def)

subsection \<open>BattleCreateResp\<close>

record BattleCreateResp =
  BattleCreateResp_code :: i32
  BattleCreateResp_message :: bytes
  BattleCreateResp_battle_id :: u32
  BattleCreateResp_battle_instance_id :: u32
  BattleCreateResp_server_frame :: u32
  BattleCreateResp_world_dump :: bytes
  BattleCreateResp_actor_entity_id :: u32
  BattleCreateResp_players :: "BattlePlayerSpawn list"
  BattleCreateResp_unknown :: bytes

definition BattleCreateResp_Id :: u16 where "BattleCreateResp_Id = 60001"

definition BattleCreateResp_default :: BattleCreateResp where
  "BattleCreateResp_default = \<lparr>BattleCreateResp_code = 0,
     BattleCreateResp_message = [],
     BattleCreateResp_battle_id = 0,
     BattleCreateResp_battle_instance_id = 0,
     BattleCreateResp_server_frame = 0,
     BattleCreateResp_world_dump = [],
     BattleCreateResp_actor_entity_id = 0,
     BattleCreateResp_players = [], BattleCreateResp_unknown = []\<rparr>"

definition BattleCreateResp_Clear :: "BattleCreateResp \<Rightarrow> BattleCreateResp" where
  "BattleCreateResp_Clear m = m\<lparr>BattleCreateResp_code := 0,
     BattleCreateResp_message := [],
     BattleCreateResp_battle_id := 0,
     BattleCreateResp_battle_instance_id := 0,
     BattleCreateResp_server_frame := 0,
     BattleCreateResp_world_dump := [],
     BattleCreateResp_actor_entity_id := 0,
     BattleCreateResp_players := [], BattleCreateResp_unknown := []\<rparr>"

definition BattleCreateResp_switch :: "pb_rt \<Rightarrow> u32 \<Rightarrow> BattleCreateResp \<Rightarrow> bytes \<Rightarrow> BattleCreateResp field_result" where
  "BattleCreateResp_switch rt tag m ptr =
     (if drop_bit 3 tag = 1 then
        if (ucast tag :: u8) = 8 then varint32_field rt ptr (\<lambda>v. m\<lparr>BattleCreateResp_code := v\<rparr>)
        else Unusual
      else if drop_bit 3 tag = 2 then
        if (ucast tag :: u8) = 18 then string_field rt ptr (\<lambda>s. m\<lparr>BattleCreateResp_message := s\<rparr>)
        else Unusual
      else if drop_bit 3 tag = 3 then
        if (ucast tag :: u8) = 24 then varint32_field rt ptr (\<lambda>v. m\<lparr>BattleCreateResp_battle_id := v\<rparr>)
        else Unusual
      else if drop_bit 3 tag = 4 then
        if (ucast tag :: u8) = 32 then varint32_field rt ptr (\<lambda>v. m\<lparr>BattleCreateResp_battle_instance_id := v\<rparr>)
        else Unusual
      else if drop_bit 3 tag = 5 then
        if (ucast tag :: u8) = 40 then varint32_field rt ptr (\<lambda>v. m\<lparr>BattleCreateResp_server_frame := v\<rparr>)
        else Unusual
      else if drop_bit 3 tag = 6 then
        if (ucast tag :: u8) = 50 then bytes_field rt ptr (\<lambda>s. m\<lparr>BattleCreateResp_world_dump := s\<rparr>)
        else Unusual
      else if drop_bit 3 tag = 7 then
        if (ucast tag :: u8) = 56 then varint32_field rt ptr (\<lambda>v. m\<lparr>BattleCreateResp_actor_entity_id := v\<rparr>)
        else Unusual
      else if drop_bit 3 tag = 8 then
        if (ucast tag :: u8) = 66 then repeated_field rt (BattlePlayerSpawn_parse rt) (\<lambda>x m. m\<lparr>BattleCreateResp_players := BattleCreateResp_players m @ [x]\<rparr>) 66 (Suc (length ptr)) m ptr
        else Unusual
      else Unusual)"

definition BattleCreateResp_parse :: "pb_rt \<Rightarrow> bytes \<Rightarrow> BattleCreateResp option" where
  "BattleCreateResp_parse rt p =
     parse_message rt (BattleCreateResp_switch rt) (\<lambda>raw m. m\<lparr>BattleCreateResp_unknown := BattleCreateResp_unknown m @ raw\<rparr>) BattleCreateResp_default p"

definition BattleCreateResp_serialize :: "pb_rt \<Rightarrow> BattleCreateResp \<Rightarrow> bytes" where
  "BattleCreateResp_serialize rt m =
     (if BattleCreateResp_code m \<noteq> 0 then WriteInt32ToArray rt 1 (BattleCreateResp_code m) else []) @
     (if BattleCreateResp_message m \<noteq> [] then WriteStringMaybeAliased rt 2 (BattleCreateResp_message m) else []) @
     (if BattleCreateResp_battle_id m \<noteq> 0 then WriteUInt32ToArray rt 3 (BattleCreateResp_battle_id m) else []) @
     (if BattleCreateResp_battle_instance_id m \<noteq> 0 then WriteUInt32ToArray rt 4 (BattleCreateResp_battle_instance_id m) else []) @
     (if BattleCreateResp_server_frame m \<noteq> 0 then WriteUInt32ToArray rt 5 (BattleCreateResp_server_frame m) else []) @
     (if BattleCreateResp_world_dump m \<noteq> [] then WriteStringMaybeAliased rt 6 (BattleCreateResp_world_dump m) else []) @
     (if BattleCreateResp_actor_entity_id m \<noteq> 0 then WriteUInt32ToArray rt 7 (BattleCreateResp_actor_entity_id m) else []) @
     concat (map (\<lambda>x. InternalWriteMessage rt 8 (BattlePlayerSpawn_serialize rt x)) (BattleCreateResp_players m)) @
     BattleCreateResp_unknown m"

definition BattleCreateResp_ByteSizeLong :: "pb_rt \<Rightarrow> BattleCreateResp \<Rightarrow> nat" where
  "BattleCreateResp_ByteSizeLong rt m =
     length (BattleCreateResp_players m) +
     sum_list (map (\<lambda>x. LengthDelimitedSize rt (BattlePlayerSpawn_ByteSizeLong rt x)) (BattleCreateResp_players m)) +
     (if BattleCreateResp_message m \<noteq> [] then 1 + LengthDelimitedSize rt (length (BattleCreateResp_message m)) else 0) +
     (if BattleCreateResp_world_dump m \<noteq> [] then 1 + LengthDelimitedSize rt (length (BattleCreateResp_world_dump m)) else 0) +
     (if BattleCreateResp_code m \<noteq> 0 then Int32SizePlusOne rt (BattleCreateResp_code m) else 0) +
     (if BattleCreateResp_battle_id m \<noteq> 0 then UInt32SizePlusOne rt (BattleCreateResp_battle_id m) else 0) +
     (if BattleCreateResp_battle_instance_id m \<noteq> 0 then UInt32SizePlusOne rt (BattleCreateResp_battle_instance_id m) else 0) +
     (if BattleCreateResp_server_frame m \<noteq> 0 then UInt32SizePlusOne rt (BattleCreateResp_server_frame m) else 0) +
     (if BattleCreateResp_actor_entity_id m \<noteq> 0 then UInt32SizePlusOne rt (BattleCreateResp_actor_entity_id m) else 0) +
     length (BattleCreateResp_unknown m)"

definition BattleCreateResp_MergeFrom :: "BattleCreateResp \<Rightarrow> BattleCreateResp \<Rightarrow> BattleCreateResp" where
  "BattleCreateResp_MergeFrom frm m = m\<lparr>
     BattleCreateResp_players := BattleCreateResp_players m @ BattleCreateResp_players frm,
     BattleCreateResp_message := (if BattleCreateResp_message frm \<noteq> [] then BattleCreateResp_message frm else BattleCreateResp_message m),
     BattleCreateResp_world_dump := (if BattleCreateResp_world_dump frm \<noteq> [] then BattleCreateResp_world_dump frm else BattleCreateResp_world_dump m),
     BattleCreateResp_code := (if BattleCreateResp_code frm \<noteq> 0 then BattleCreateResp_code frm else BattleCreateResp_code m),
     BattleCreateResp_battle_id := (if BattleCreateResp_battle_id frm \<noteq> 0 then BattleCreateResp_battle_id frm else BattleCreateResp_battle_id m),
     BattleCreateResp_battle_instance_id := (if BattleCreateResp_battle_instance_id frm \<noteq> 0 then BattleCreateResp_battle_instance_id frm else BattleCreateResp_battle_instance_id m),
     BattleCreateResp_server_frame := (if BattleCreateResp_server_frame frm \<noteq> 0 then BattleCreateResp_server_frame frm else BattleCreateResp_server_frame m),
     BattleCreateResp_actor_entity_id := (if BattleCreateResp_actor_entity_id frm \<noteq> 0 then BattleCreateResp_actor_entity_id frm else BattleCreateResp_actor_entity_id m),
     BattleCreateResp_unknown := BattleCreateResp_unknown m @ BattleCreateResp_unknown frm\<rparr>"

definition BattleCreateResp_CopyFrom :: "BattleCreateResp \<Rightarrow> BattleCreateResp \<Rightarrow> BattleCreateResp" where
  "BattleCreateResp_CopyFrom frm m = BattleCreateResp_MergeFrom frm (BattleCreateResp_Clear m)"

text \<open>No unknown fields, valid UTF-8 strings, blocks below the runtime's size limit.\<close>

definition BattleCreateResp_ok :: "pb_rt \<Rightarrow> BattleCreateResp \<Rightarrow> bool" where
  "BattleCreateResp_ok rt m \<longleftrightarrow>
     BattleCreateResp_unknown m = [] \<and>
     VerifyUTF8 rt (BattleCreateResp_message m) \<and>
     length (BattleCreateResp_message m) + 16 < 2 ^ 31 \<and>
     length (BattleCreateResp_world_dump m) + 16 < 2 ^ 31 \<and>
     (\<forall>x \<in> set (BattleCreateResp_players m). BattlePlayerSpawn_ok rt x \<and> length (BattlePlayerSpawn_serialize rt x) + 16 < 2 ^ 31)"

context pb_laws begin

lemma BattleCreateResp_consumes: "consumes (BattleCreateResp_switch rt)"
  by (auto simp: consumes_def BattleCreateResp_switch_def split: if_splits dest: field_consumes)

lemma BattleCreateResp_code_step:
  "parse_message rt (BattleCreateResp_switch rt) unk m ((if BattleCreateResp_code a \<noteq> 0 then WriteInt32ToArray rt 1 (BattleCreateResp_code a) else []) @ r)
    = parse_message rt (BattleCreateResp_switch rt) unk (m\<lparr>BattleCreateResp_code := (if BattleCreateResp_code a \<noteq> 0 then BattleCreateResp_code a else BattleCreateResp_code m)\<rparr>) r"
  by (rule int32_step [OF BattleCreateResp_consumes, where upd = "\<lambda>v. m\<lparr>BattleCreateResp_code := v\<rparr>"])
     (simp_all add: BattleCreateResp_switch_def field_tag_def)

lemma BattleCreateResp_message_step:
  "VerifyUTF8 rt (BattleCreateResp_message a) \<Longrightarrow> length (BattleCreateResp_message a) + 16 < 2 ^ 31 \<Longrightarrow>
   parse_message rt (BattleCreateResp_switch rt) unk m ((if BattleCreateResp_message a \<noteq> [] then WriteStringMaybeAliased rt 2 (BattleCreateResp_message a) else []) @ r)
    = parse_message rt (BattleCreateResp_switch rt) unk (m\<lparr>BattleCreateResp_message := (if BattleCreateResp_message a \<noteq> [] then BattleCreateResp_message a else BattleCreateResp_message m)\<rparr>) r"
  by (rule string_step [OF BattleCreateResp_consumes, where upd = "\<lambda>v. m\<lparr>BattleCreateResp_message := v\<rparr>"])
     (simp_all add: BattleCreateResp_switch_def field_tag_def)

lemma BattleCreateResp_battle_id_step:
  "parse_message rt (BattleCreateResp_switch rt) unk m ((if BattleCreateResp_battle_id a \<noteq> 0 then WriteUInt32ToArray rt 3 (BattleCreateResp_battle_id a) else []) @ r)
    = parse_message rt (BattleCreateResp_switch rt) unk (m\<lparr>BattleCreateResp_battle_id := (if BattleCreateResp_battle_id a \<noteq> 0 then BattleCreateResp_battle_id a else BattleCreateResp_battle_id m)\<rparr>) r"
  by (rule uint32_step [OF BattleCreateResp_consumes, where upd = "\<lambda>v. m\<lparr>BattleCreateResp_battle_id := v\<rparr>"])
     (simp_all add: BattleCreateResp_switch_def field_tag_def)

lemma BattleCreateResp_battle_instance_id_step:
  "parse_message rt (BattleCreateResp_switch rt) unk m ((if BattleCreateResp_battle_instance_id a \<noteq> 0 then WriteUInt32ToArray rt 4 (BattleCreateResp_battle_instance_id a) else []) @ r)
    = parse_message rt (BattleCreateResp_switch rt) unk (m\<lparr>BattleCreateResp_battle_instance_id := (if BattleCreateResp_battle_instance_id a \<noteq> 0 then BattleCreateResp_battle_instance_id a else BattleCreateResp_battle_instance_id m)\<rparr>) r"
  by (rule uint32_step [OF BattleCreateResp_consumes, where upd = "\<lambda>v. m\<lparr>BattleCreateResp_battle_instance_id := v\<rparr>"])
     (simp_all add: BattleCreateResp_switch_def field_tag_def)

lemma BattleCreateResp_server_frame_step:
  "parse_message rt (BattleCreateResp_switch rt) unk m ((if BattleCreateResp_server_frame a \<noteq> 0 then WriteUInt32ToArray rt 5 (BattleCreateResp_server_frame a) else []) @ r)
    = parse_message rt (BattleCreateResp_switch rt) unk (m\<lparr>BattleCreateResp_server_frame := (if BattleCreateResp_server_frame a \<noteq> 0 then BattleCreateResp_server_frame a else BattleCreateResp_server_frame m)\<rparr>) r"
  by (rule uint32_step [OF BattleCreateResp_consumes, where upd = "\<lambda>v. m\<lparr>BattleCreateResp_server_frame := v\<rparr>"])
     (simp_all add: BattleCreateResp_switch_def field_tag_def)

lemma BattleCreateResp_world_dump_step:
  "length (BattleCreateResp_world_dump a) + 16 < 2 ^ 31 \<Longrightarrow>
   parse_message rt (BattleCreateResp_switch rt) unk m ((if BattleCreateResp_world_dump a \<noteq> [] then WriteStringMaybeAliased rt 6 (BattleCreateResp_world_dump a) else []) @ r)
    = parse_message rt (BattleCreateResp_switch rt) unk (m\<lparr>BattleCreateResp_world_dump := (if BattleCreateResp_world_dump a \<noteq> [] then BattleCreateResp_world_dump a else BattleCreateResp_world_dump m)\<rparr>) r"
  by (rule bytes_step [OF BattleCreateResp_consumes, where upd = "\<lambda>v. m\<lparr>BattleCreateResp_world_dump := v\<rparr>"])
     (simp_all add: BattleCreateResp_switch_def field_tag_def)

lemma BattleCreateResp_actor_entity_id_step:
  "parse_message rt (BattleCreateResp_switch rt) unk m ((if BattleCreateResp_actor_entity_id a \<noteq> 0 then WriteUInt32ToArray rt 7 (BattleCreateResp_actor_entity_id a) else []) @ r)
    = parse_message rt (BattleCreateResp_switch rt) unk (m\<lparr>BattleCreateResp_actor_entity_id := (if BattleCreateResp_actor_entity_id a \<noteq> 0 then BattleCreateResp_actor_entity_id a else BattleCreateResp_actor_entity_id m)\<rparr>) r"
  by (rule uint32_step [OF BattleCreateResp_consumes, where upd = "\<lambda>v. m\<lparr>BattleCreateResp_actor_entity_id := v\<rparr>"])
     (simp_all add: BattleCreateResp_switch_def field_tag_def)

lemma BattleCreateResp_players_step:
  assumes "\<forall>x \<in> set (BattleCreateResp_players a). BattlePlayerSpawn_ok rt x \<and> length (BattlePlayerSpawn_serialize rt x) + 16 < 2 ^ 31"
  shows "parse_message rt (BattleCreateResp_switch rt) unk m (concat (map (\<lambda>x. InternalWriteMessage rt 8 ((BattlePlayerSpawn_serialize rt) x)) (BattleCreateResp_players a)) @ r)
    = parse_message rt (BattleCreateResp_switch rt) unk (m\<lparr>BattleCreateResp_players := BattleCreateResp_players m @ BattleCreateResp_players a\<rparr>) r"
proof -
  let ?add = "\<lambda>x m. m\<lparr>BattleCreateResp_players := BattleCreateResp_players m @ [x]\<rparr>"
  have "fold ?add xs m = m\<lparr>BattleCreateResp_players := BattleCreateResp_players m @ xs\<rparr>" for xs
    by (induction xs arbitrary: m) simp_all
  moreover have "parse_message rt (BattleCreateResp_switch rt) unk m (concat (map (\<lambda>x. InternalWriteMessage rt 8 ((BattlePlayerSpawn_serialize rt) x)) (BattleCreateResp_players a)) @ r)
      = parse_message rt (BattleCreateResp_switch rt) unk (fold ?add (BattleCreateResp_players a) m) r"
    by (rule repeated_steps [OF BattleCreateResp_consumes, where parse = "BattlePlayerSpawn_parse rt" and add = ?add])
       (use assms in \<open>simp_all add: BattleCreateResp_switch_def field_tag_def BattlePlayerSpawn_roundtrip\<close>)
  ultimately show ?thesis by simp
qed

lemma BattleCreateResp_MergeFrom_fields:
  "BattleCreateResp_MergeFrom a m = m\<lparr>BattleCreateResp_code := (if BattleCreateResp_code a \<noteq> 0 then BattleCreateResp_code a else BattleCreateResp_code m),
     BattleCreateResp_message := (if BattleCreateResp_message a \<noteq> [] then BattleCreateResp_message a else BattleCreateResp_message m),
     BattleCreateResp_battle_id := (if BattleCreateResp_battle_id a \<noteq> 0 then BattleCreateResp_battle_id a else BattleCreateResp_battle_id m),
     BattleCreateResp_battle_instance_id := (if BattleCreateResp_battle_instance_id a \<noteq> 0 then BattleCreateResp_battle_instance_id a else BattleCreateResp_battle_instance_id m),
     BattleCreateResp_server_frame := (if BattleCreateResp_server_frame a \<noteq> 0 then BattleCreateResp_server_frame a else BattleCreateResp_server_frame m),
     BattleCreateResp_world_dump := (if BattleCreateResp_world_dump a \<noteq> [] then BattleCreateResp_world_dump a else BattleCreateResp_world_dump m),
     BattleCreateResp_actor_entity_id := (if BattleCreateResp_actor_entity_id a \<noteq> 0 then BattleCreateResp_actor_entity_id a else BattleCreateResp_actor_entity_id m),
     BattleCreateResp_players := BattleCreateResp_players m @ BattleCreateResp_players a, BattleCreateResp_unknown := BattleCreateResp_unknown m @ BattleCreateResp_unknown a\<rparr>"
  by (rule BattleCreateResp.equality) (simp_all add: BattleCreateResp_MergeFrom_def)

lemma BattleCreateResp_merge:
  assumes "BattleCreateResp_ok rt a"
  shows "parse_message rt (BattleCreateResp_switch rt) unk m (BattleCreateResp_serialize rt a @ r)
    = parse_message rt (BattleCreateResp_switch rt) unk (BattleCreateResp_MergeFrom a m) r"
  using assms
  by (simp add: BattleCreateResp_ok_def BattleCreateResp_serialize_def BattleCreateResp_MergeFrom_fields
      BattleCreateResp_code_step BattleCreateResp_message_step BattleCreateResp_battle_id_step BattleCreateResp_battle_instance_id_step BattleCreateResp_server_frame_step BattleCreateResp_world_dump_step BattleCreateResp_actor_entity_id_step BattleCreateResp_players_step)

lemma BattleCreateResp_roundtrip:
  assumes "BattleCreateResp_ok rt a"
  shows "BattleCreateResp_parse rt (BattleCreateResp_serialize rt a) = Some a"
  using BattleCreateResp_merge [OF assms, where r = "[]"] assms
  by (simp add: BattleCreateResp_parse_def BattleCreateResp_MergeFrom_def BattleCreateResp_default_def BattleCreateResp_ok_def)

lemma BattleCreateResp_size: "BattleCreateResp_ByteSizeLong rt a = length (BattleCreateResp_serialize rt a)"
  by (simp add: BattleCreateResp_ByteSizeLong_def BattleCreateResp_serialize_def field_sizes BattlePlayerSpawn_size)

end

lemma BattleCreateResp_CopyFrom_eq: "BattleCreateResp_CopyFrom a m = a"
  by (simp add: BattleCreateResp_CopyFrom_def BattleCreateResp_MergeFrom_def BattleCreateResp_Clear_def)

end
