(* ===== verification/PbProps.thy ===== *)
theory PbProps
  imports PbGateway PbGatewayPush PbBattle
begin

section \<open>The messages on the wire\<close>

text \<open>
  What the generated classes of \<open>gateway_internal.proto\<close> and \<open>game_battle.proto\<close> promise
  together: \<open>wire_codec\<close> states it for one class, and the properties for all of them.
\<close>

text \<open>
  For well-formed messages, parsing inverts serializing and \<open>ByteSizeLong\<close> is the length;
  parsing one message's bytes after another's merges them; copying copies.
\<close>

definition wire_codec :: "('m \<Rightarrow> bool) \<Rightarrow> ('m \<Rightarrow> bytes) \<Rightarrow> (bytes \<Rightarrow> 'm option) \<Rightarrow> ('m \<Rightarrow> nat) \<Rightarrow>
    ('m \<Rightarrow> 'm \<Rightarrow> 'm) \<Rightarrow> ('m \<Rightarrow> 'm \<Rightarrow> 'm) \<Rightarrow> bool" where
  "wire_codec ok ser parse len merge copy \<longleftrightarrow>
     (\<forall>a. ok a \<longrightarrow> parse (ser a) = Some a \<and> len a = length (ser a)) \<and>
     (\<forall>a b. ok a \<and> ok b \<longrightarrow> parse (ser a @ ser b) = Some (merge b a)) \<and> (\<forall>a b. copy a b = a)"

lemma wire_codecI:
  assumes "\<And>a m r. ok a \<Longrightarrow> pm m (ser a @ r) = pm (merge a m) r" and "\<And>p. parse p = pm blank p"
    and "\<And>m. pm m [] = Some m" and "\<And>a. ok a \<Longrightarrow> merge a blank = a"
    and "\<And>a. len a = length (ser a)" and "\<And>a b. copy a b = a"
  shows "wire_codec ok ser parse len merge copy"
proof -
  have "parse (ser a) = Some a" if "ok a" for a
    using assms(1) [of a blank "[]"] assms(3) that by (simp add: assms(2,4))
  moreover have "parse (ser a @ ser b) = Some (merge b a)" if "ok a" "ok b" for a b
    using assms(1) [of a blank "ser b"] assms(1) [of b a "[]"] assms(3) that by (simp add: assms(2,4))
  ultimately show ?thesis using assms(5,6) by (simp add: wire_codec_def)
qed

lemma ServiceEndpoint_wire:
  assumes "pb_laws rt"
  shows "wire_codec (ServiceEndpoint_ok rt) (ServiceEndpoint_serialize rt) (ServiceEndpoint_parse rt) (ServiceEndpoint_ByteSizeLong rt) ServiceEndpoint_MergeFrom ServiceEndpoint_CopyFrom"
  by (rule wire_codecI [where pm = "parse_message rt (ServiceEndpoint_switch rt) (\<lambda>raw m. m\<lparr>ServiceEndpoint_unknown := ServiceEndpoint_unknown m @ raw\<rparr>)"
        and blank = ServiceEndpoint_default, OF pb_laws.ServiceEndpoint_merge [OF assms] ServiceEndpoint_parse_def pb_laws.parse_message_Nil [OF assms] _ pb_laws.ServiceEndpoint_size [OF assms] ServiceEndpoint_CopyFrom_eq])
     (simp_all add: ServiceEndpoint_ok_def ServiceEndpoint_MergeFrom_def ServiceEndpoint_default_def)

lemma ServerRegReq_wire:
  assumes "pb_laws rt"
  shows "wire_codec (ServerRegReq_ok rt) (ServerRegReq_serialize rt) (ServerRegReq_parse rt) (ServerRegReq_ByteSizeLong rt) ServerRegReq_MergeFrom ServerRegReq_CopyFrom"
  by (rule wire_codecI [where pm = "parse_message rt (ServerRegReq_switch rt) (\<lambda>raw m. m\<lparr>ServerRegReq_unknown := ServerRegReq_unknown m @ raw\<rparr>)"
        and blank = ServerRegReq_default, OF pb_laws.ServerRegReq_merge [OF assms] ServerRegReq_parse_def pb_laws.parse_message_Nil [OF assms] _ pb_laws.ServerRegReq_size [OF assms] ServerRegReq_CopyFrom_eq])
     (simp_all add: ServerRegReq_ok_def ServerRegReq_MergeFrom_def ServerRegReq_default_def)

lemma ServerRegResp_wire:
  assumes "pb_laws rt"
  shows "wire_codec (ServerRegResp_ok rt) (ServerRegResp_serialize rt) (ServerRegResp_parse rt) (ServerRegResp_ByteSizeLong rt) ServerRegResp_MergeFrom ServerRegResp_CopyFrom"
  by (rule wire_codecI [where pm = "parse_message rt (ServerRegResp_switch rt) (\<lambda>raw m. m\<lparr>ServerRegResp_unknown := ServerRegResp_unknown m @ raw\<rparr>)"
        and blank = ServerRegResp_default, OF pb_laws.ServerRegResp_merge [OF assms] ServerRegResp_parse_def pb_laws.parse_message_Nil [OF assms] _ pb_laws.ServerRegResp_size [OF assms] ServerRegResp_CopyFrom_eq])
     (simp_all add: ServerRegResp_ok_def ServerRegResp_MergeFrom_def ServerRegResp_default_def)

lemma BindServiceReq_wire:
  assumes "pb_laws rt"
  shows "wire_codec (BindServiceReq_ok rt) (BindServiceReq_serialize rt) (BindServiceReq_parse rt) (BindServiceReq_ByteSizeLong rt) BindServiceReq_MergeFrom BindServiceReq_CopyFrom"
  by (rule wire_codecI [where pm = "parse_message rt (BindServiceReq_switch rt) (\<lambda>raw m. m\<lparr>BindServiceReq_unknown := BindServiceReq_unknown m @ raw\<rparr>)"
        and blank = BindServiceReq_default, OF pb_laws.BindServiceReq_merge [OF assms] BindServiceReq_parse_def pb_laws.parse_message_Nil [OF assms] _ pb_laws.BindServiceReq_size [OF assms] BindServiceReq_CopyFrom_eq])
     (simp_all add: BindServiceReq_ok_def BindServiceReq_MergeFrom_def BindServiceReq_default_def)

lemma BindServiceResp_wire:
  assumes "pb_laws rt"
  shows "wire_codec (BindServiceResp_ok rt) (BindServiceResp_serialize rt) (BindServiceResp_parse rt) (BindServiceResp_ByteSizeLong rt) BindServiceResp_MergeFrom BindServiceResp_CopyFrom"
  by (rule wire_codecI [where pm = "parse_message rt (BindServiceResp_switch rt) (\<lambda>raw m. m\<lparr>BindServiceResp_unknown := BindServiceResp_unknown m @ raw\<rparr>)"
        and blank = BindServiceResp_default, OF pb_laws.BindServiceResp_merge [OF assms] BindServiceResp_parse_def pb_laws.parse_message_Nil [OF assms] _ pb_laws.BindServiceResp_size [OF assms] BindServiceResp_CopyFrom_eq])
     (simp_all add: BindServiceResp_ok_def BindServiceResp_MergeFrom_def BindServiceResp_default_def)

lemma UnbindServiceReq_wire:
  assumes "pb_laws rt"
  shows "wire_codec (UnbindServiceReq_ok rt) (UnbindServiceReq_serialize rt) (UnbindServiceReq_parse rt) (UnbindServiceReq_ByteSizeLong rt) UnbindServiceReq_MergeFrom UnbindServiceReq_CopyFrom"
  by (rule wire_codecI [where pm = "parse_message rt (UnbindServiceReq_switch rt) (\<lambda>raw m. m\<lparr>UnbindServiceReq_unknown := UnbindServiceReq_unknown m @ raw\<rparr>)"
        and blank = UnbindServiceReq_default, OF pb_laws.UnbindServiceReq_merge [OF assms] UnbindServiceReq_parse_def pb_laws.parse_message_Nil [OF assms] _ pb_laws.UnbindServiceReq_size [OF assms] UnbindServiceReq_CopyFrom_eq])
     (simp_all add: UnbindServiceReq_ok_def UnbindServiceReq_MergeFrom_def UnbindServiceReq_default_def)

lemma UnbindServiceResp_wire:
  assumes "pb_laws rt"
  shows "wire_codec (UnbindServiceResp_ok rt) (UnbindServiceResp_serialize rt) (UnbindServiceResp_parse rt) (UnbindServiceResp_ByteSizeLong rt) UnbindServiceResp_MergeFrom UnbindServiceResp_CopyFrom"
  by (rule wire_codecI [where pm = "parse_message rt (UnbindServiceResp_switch rt) (\<lambda>raw m. m\<lparr>UnbindServiceResp_unknown := UnbindServiceResp_unknown m @ raw\<rparr>)"
        and blank = UnbindServiceResp_default, OF pb_laws.UnbindServiceResp_merge [OF assms] UnbindServiceResp_parse_def pb_laws.parse_message_Nil [OF assms] _ pb_laws.UnbindServiceResp_size [OF assms] UnbindServiceResp_CopyFrom_eq])
     (simp_all add: UnbindServiceResp_ok_def UnbindServiceResp_MergeFrom_def UnbindServiceResp_default_def)

lemma KickSessionReq_wire:
  assumes "pb_laws rt"
  shows "wire_codec (KickSessionReq_ok rt) (KickSessionReq_serialize rt) (KickSessionReq_parse rt) (KickSessionReq_ByteSizeLong rt) KickSessionReq_MergeFrom KickSessionReq_CopyFrom"
  by (rule wire_codecI [where pm = "parse_message rt (KickSessionReq_switch rt) (\<lambda>raw m. m\<lparr>KickSessionReq_unknown := KickSessionReq_unknown m @ raw\<rparr>)"
        and blank = KickSessionReq_default, OF pb_laws.KickSessionReq_merge [OF assms] KickSessionReq_parse_def pb_laws.parse_message_Nil [OF assms] _ pb_laws.KickSessionReq_size [OF assms] KickSessionReq_CopyFrom_eq])
     (simp_all add: KickSessionReq_ok_def KickSessionReq_MergeFrom_def KickSessionReq_default_def)

lemma KickSessionRsp_wire:
  assumes "pb_laws rt"
  shows "wire_codec (KickSessionRsp_ok rt) (KickSessionRsp_serialize rt) (KickSessionRsp_parse rt) (KickSessionRsp_ByteSizeLong rt) KickSessionRsp_MergeFrom KickSessionRsp_CopyFrom"
  by (rule wire_codecI [where pm = "parse_message rt (KickSessionRsp_switch rt) (\<lambda>raw m. m\<lparr>KickSessionRsp_unknown := KickSessionRsp_unknown m @ raw\<rparr>)"
        and blank = KickSessionRsp_default, OF pb_laws.KickSessionRsp_merge [OF assms] KickSessionRsp_parse_def pb_laws.parse_message_Nil [OF assms] _ pb_laws.KickSessionRsp_size [OF assms] KickSessionRsp_CopyFrom_eq])
     (simp_all add: KickSessionRsp_ok_def KickSessionRsp_MergeFrom_def KickSessionRsp_default_def)

lemma SessionOnlinePush_wire:
  assumes "pb_laws rt"
  shows "wire_codec (SessionOnlinePush_ok rt) (SessionOnlinePush_serialize rt) (SessionOnlinePush_parse rt) (SessionOnlinePush_ByteSizeLong rt) SessionOnlinePush_MergeFrom SessionOnlinePush_CopyFrom"
  by (rule wire_codecI [where pm = "parse_message rt (SessionOnlinePush_switch rt) (\<lambda>raw m. m\<lparr>SessionOnlinePush_unknown := SessionOnlinePush_unknown m @ raw\<rparr>)"
        and blank = SessionOnlinePush_default, OF pb_laws.SessionOnlinePush_merge [OF assms] SessionOnlinePush_parse_def pb_laws.parse_message_Nil [OF assms] _ pb_laws.SessionOnlinePush_size [OF assms] SessionOnlinePush_CopyFrom_eq])
     (simp_all add: SessionOnlinePush_ok_def SessionOnlinePush_MergeFrom_def SessionOnlinePush_default_def)

lemma SessionOfflinePush_wire:
  assumes "pb_laws rt"
  shows "wire_codec (SessionOfflinePush_ok rt) (SessionOfflinePush_serialize rt) (SessionOfflinePush_parse rt) (SessionOfflinePush_ByteSizeLong rt) SessionOfflinePush_MergeFrom SessionOfflinePush_CopyFrom"
  by (rule wire_codecI [where pm = "parse_message rt (SessionOfflinePush_switch rt) (\<lambda>raw m. m\<lparr>SessionOfflinePush_unknown := SessionOfflinePush_unknown m @ raw\<rparr>)"
        and blank = SessionOfflinePush_default, OF pb_laws.SessionOfflinePush_merge [OF assms] SessionOfflinePush_parse_def pb_laws.parse_message_Nil [OF assms] _ pb_laws.SessionOfflinePush_size [OF assms] SessionOfflinePush_CopyFrom_eq])
     (simp_all add: SessionOfflinePush_ok_def SessionOfflinePush_MergeFrom_def SessionOfflinePush_default_def)

lemma ServerOnlinePush_wire:
  assumes "pb_laws rt"
  shows "wire_codec (ServerOnlinePush_ok rt) (ServerOnlinePush_serialize rt) (ServerOnlinePush_parse rt) (ServerOnlinePush_ByteSizeLong rt) ServerOnlinePush_MergeFrom ServerOnlinePush_CopyFrom"
  by (rule wire_codecI [where pm = "parse_message rt (ServerOnlinePush_switch rt) (\<lambda>raw m. m\<lparr>ServerOnlinePush_unknown := ServerOnlinePush_unknown m @ raw\<rparr>)"
        and blank = ServerOnlinePush_default, OF pb_laws.ServerOnlinePush_merge [OF assms] ServerOnlinePush_parse_def pb_laws.parse_message_Nil [OF assms] _ pb_laws.ServerOnlinePush_size [OF assms] ServerOnlinePush_CopyFrom_eq])
     (simp_all add: ServerOnlinePush_ok_def ServerOnlinePush_MergeFrom_def ServerOnlinePush_default_def)

lemma ServerOfflinePush_wire:
  assumes "pb_laws rt"
  shows "wire_codec (ServerOfflinePush_ok rt) (ServerOfflinePush_serialize rt) (ServerOfflinePush_parse rt) (ServerOfflinePush_ByteSizeLong rt) ServerOfflinePush_MergeFrom ServerOfflinePush_CopyFrom"
  by (rule wire_codecI [where pm = "parse_message rt (ServerOfflinePush_switch rt) (\<lambda>raw m. m\<lparr>ServerOfflinePush_unknown := ServerOfflinePush_unknown m @ raw\<rparr>)"
        and blank = ServerOfflinePush_default, OF pb_laws.ServerOfflinePush_merge [OF assms] ServerOfflinePush_parse_def pb_laws.parse_message_Nil [OF assms] _ pb_laws.ServerOfflinePush_size [OF assms] ServerOfflinePush_CopyFrom_eq])
     (simp_all add: ServerOfflinePush_ok_def ServerOfflinePush_MergeFrom_def ServerOfflinePush_default_def)

lemma ForwardToServerReq_wire:
  assumes "pb_laws rt"
  shows "wire_codec (ForwardToServerReq_ok rt) (ForwardToServerReq_serialize rt) (ForwardToServerReq_parse rt) (ForwardToServerReq_ByteSizeLong rt) ForwardToServerReq_MergeFrom ForwardToServerReq_CopyFrom"
  by (rule wire_codecI [where pm = "parse_message rt (ForwardToServerReq_switch rt) (\<lambda>raw m. m\<lparr>ForwardToServerReq_unknown := ForwardToServerReq_unknown m @ raw\<rparr>)"
        and blank = ForwardToServerReq_default, OF pb_laws.ForwardToServerReq_merge [OF assms] ForwardToServerReq_parse_def pb_laws.parse_message_Nil [OF assms] _ pb_laws.ForwardToServerReq_size [OF assms] ForwardToServerReq_CopyFrom_eq])
     (simp_all add: ForwardToServerReq_ok_def ForwardToServerReq_MergeFrom_def ForwardToServerReq_default_def)

lemma ServiceLoadReportPush_wire:
  assumes "pb_laws rt"
  shows "wire_codec (ServiceLoadReportPush_ok rt) (ServiceLoadReportPush_serialize rt) (ServiceLoadReportPush_parse rt) (ServiceLoadReportPush_ByteSizeLong rt) ServiceLoadReportPush_MergeFrom ServiceLoadReportPush_CopyFrom"
  by (rule wire_codecI [where pm = "parse_message rt (ServiceLoadReportPush_switch rt) (\<lambda>raw m. m\<lparr>ServiceLoadReportPush_unknown := ServiceLoadReportPush_unknown m @ raw\<rparr>)"
        and blank = ServiceLoadReportPush_default, OF pb_laws.ServiceLoadReportPush_merge [OF assms] ServiceLoadReportPush_parse_def pb_laws.parse_message_Nil [OF assms] _ pb_laws.ServiceLoadReportPush_size [OF assms] ServiceLoadReportPush_CopyFrom_eq])
     (simp_all add: ServiceLoadReportPush_ok_def ServiceLoadReportPush_MergeFrom_def ServiceLoadReportPush_default_def)

lemma ServerPingReq_wire:
  assumes "pb_laws rt"
  shows "wire_codec (ServerPingReq_ok rt) (ServerPingReq_serialize rt) (ServerPingReq_parse rt) (ServerPingReq_ByteSizeLong rt) ServerPingReq_MergeFrom ServerPingReq_CopyFrom"
  by (rule wire_codecI [where pm = "parse_message rt (ServerPingReq_switch rt) (\<lambda>raw m. m\<lparr>ServerPingReq_unknown := ServerPingReq_unknown m @ raw\<rparr>)"
        and blank = ServerPingReq_default, OF pb_laws.ServerPingReq_merge [OF assms] ServerPingReq_parse_def pb_laws.parse_message_Nil [OF assms] _ pb_laws.ServerPingReq_size [OF assms] ServerPingReq_CopyFrom_eq])
     (simp_all add: ServerPingReq_ok_def ServerPingReq_MergeFrom_def ServerPingReq_default_def)

lemma ServerPongResp_wire:
  assumes "pb_laws rt"
  shows "wire_codec (ServerPongResp_ok rt) (ServerPongResp_serialize rt) (ServerPongResp_parse rt) (ServerPongResp_ByteSizeLong rt) ServerPongResp_MergeFrom ServerPongResp_CopyFrom"
  by (rule wire_codecI [where pm = "parse_message rt (ServerPongResp_switch rt) (\<lambda>raw m. m\<lparr>ServerPongResp_unknown := ServerPongResp_unknown m @ raw\<rparr>)"
        and blank = ServerPongResp_default, OF pb_laws.ServerPongResp_merge [OF assms] ServerPongResp_parse_def pb_laws.parse_message_Nil [OF assms] _ pb_laws.ServerPongResp_size [OF assms] ServerPongResp_CopyFrom_eq])
     (simp_all add: ServerPongResp_ok_def ServerPongResp_MergeFrom_def ServerPongResp_default_def)

lemma BattlePlayerSpawn_wire:
  assumes "pb_laws rt"
  shows "wire_codec (BattlePlayerSpawn_ok rt) (BattlePlayerSpawn_serialize rt) (BattlePlayerSpawn_parse rt) (BattlePlayerSpawn_ByteSizeLong rt) BattlePlayerSpawn_MergeFrom BattlePlayerSpawn_CopyFrom"
  by (rule wire_codecI [where pm = "parse_message rt (BattlePlayerSpawn_switch rt) (\<lambda>raw m. m\<lparr>BattlePlayerSpawn_unknown := BattlePlayerSpawn_unknown m @ raw\<rparr>)"
        and blank = BattlePlayerSpawn_default, OF pb_laws.BattlePlayerSpawn_merge [OF assms] BattlePlayerSpawn_parse_def pb_laws.parse_message_Nil [OF assms] _ pb_laws.BattlePlayerSpawn_size [OF assms] BattlePlayerSpawn_CopyFrom_eq])
     (simp_all add: BattlePlayerSpawn_ok_def BattlePlayerSpawn_MergeFrom_def BattlePlayerSpawn_default_def)

lemma BattleCreateResp_wire:
  assumes "pb_laws rt"
  shows "wire_codec (BattleCreateResp_ok rt) (BattleCreateResp_serialize rt) (BattleCreateResp_parse rt) (BattleCreateResp_ByteSizeLong rt) BattleCreateResp_MergeFrom BattleCreateResp_CopyFrom"
  by (rule wire_codecI [where pm = "parse_message rt (BattleCreateResp_switch rt) (\<lambda>raw m. m\<lparr>BattleCreateResp_unknown := BattleCreateResp_unknown m @ raw\<rparr>)"
        and blank = BattleCreateResp_default, OF pb_laws.BattleCreateResp_merge [OF assms] BattleCreateResp_parse_def pb_laws.parse_message_Nil [OF assms] _ pb_laws.BattleCreateResp_size [OF assms] BattleCreateResp_CopyFrom_eq])
     (simp_all add: BattleCreateResp_ok_def BattleCreateResp_MergeFrom_def BattleCreateResp_default_def)

lemma BattleCreateReq_wire:
  assumes "pb_laws rt" and "\<And>x. psz x = length (pss x)"
  shows "wire_codec (BattleCreateReq_ok rt psp pss) (BattleCreateReq_serialize rt pss) (BattleCreateReq_parse rt psp) (BattleCreateReq_ByteSizeLong rt psz) BattleCreateReq_MergeFrom BattleCreateReq_CopyFrom"
  by (rule wire_codecI [where pm = "parse_message rt (BattleCreateReq_switch rt psp) (\<lambda>raw m. m\<lparr>BattleCreateReq_unknown := BattleCreateReq_unknown m @ raw\<rparr>)"
        and blank = BattleCreateReq_default, OF pb_laws.BattleCreateReq_merge [OF assms(1)] BattleCreateReq_parse_def pb_laws.parse_message_Nil [OF assms(1)] _
        pb_laws.BattleCreateReq_size [OF assms] BattleCreateReq_CopyFrom_eq])
     (simp_all add: BattleCreateReq_ok_def BattleCreateReq_MergeFrom_def BattleCreateReq_default_def)

text \<open>C25. Every message of the gateway's protocol survives the wire. For each of the 17 generated
  classes and every well-formed message, under the laws of the protobuf runtime: parsing the
  serialized bytes gives the message back, \<open>ByteSizeLong\<close> predicts their number, two
  messages' bytes one after the other parse to the merge, and \<open>CopyFrom\<close> copies.\<close>
theorem gateway_messages_wire:
  assumes "pb_laws rt"
  shows "wire_codec (ServiceEndpoint_ok rt) (ServiceEndpoint_serialize rt) (ServiceEndpoint_parse rt) (ServiceEndpoint_ByteSizeLong rt) ServiceEndpoint_MergeFrom ServiceEndpoint_CopyFrom
    \<and> wire_codec (ServerRegReq_ok rt) (ServerRegReq_serialize rt) (ServerRegReq_parse rt) (ServerRegReq_ByteSizeLong rt) ServerRegReq_MergeFrom ServerRegReq_CopyFrom
    \<and> wire_codec (ServerRegResp_ok rt) (ServerRegResp_serialize rt) (ServerRegResp_parse rt) (ServerRegResp_ByteSizeLong rt) ServerRegResp_MergeFrom ServerRegResp_CopyFrom
    \<and> wire_codec (BindServiceReq_ok rt) (BindServiceReq_serialize rt) (BindServiceReq_parse rt) (BindServiceReq_ByteSizeLong rt) BindServiceReq_MergeFrom BindServiceReq_CopyFrom
    \<and> wire_codec (BindServiceResp_ok rt) (BindServiceResp_serialize rt) (BindServiceResp_parse rt) (BindServiceResp_ByteSizeLong rt) BindServiceResp_MergeFrom BindServiceResp_CopyFrom
    \<and> wire_codec (UnbindServiceReq_ok rt) (UnbindServiceReq_serialize rt) (UnbindServiceReq_parse rt) (UnbindServiceReq_ByteSizeLong rt) UnbindServiceReq_MergeFrom UnbindServiceReq_CopyFrom
    \<and> wire_codec (UnbindServiceResp_ok rt) (UnbindServiceResp_serialize rt) (UnbindServiceResp_parse rt) (UnbindServiceResp_ByteSizeLong rt) UnbindServiceResp_MergeFrom UnbindServiceResp_CopyFrom
    \<and> wire_codec (KickSessionReq_ok rt) (KickSessionReq_serialize rt) (KickSessionReq_parse rt) (KickSessionReq_ByteSizeLong rt) KickSessionReq_MergeFrom KickSessionReq_CopyFrom
    \<and> wire_codec (KickSessionRsp_ok rt) (KickSessionRsp_serialize rt) (KickSessionRsp_parse rt) (KickSessionRsp_ByteSizeLong rt) KickSessionRsp_MergeFrom KickSessionRsp_CopyFrom
    \<and> wire_codec (SessionOnlinePush_ok rt) (SessionOnlinePush_serialize rt) (SessionOnlinePush_parse rt) (SessionOnlinePush_ByteSizeLong rt) SessionOnlinePush_MergeFrom SessionOnlinePush_CopyFrom
    \<and> wire_codec (SessionOfflinePush_ok rt) (SessionOfflinePush_serialize rt) (SessionOfflinePush_parse rt) (SessionOfflinePush_ByteSizeLong rt) SessionOfflinePush_MergeFrom SessionOfflinePush_CopyFrom
    \<and> wire_codec (ServerOnlinePush_ok rt) (ServerOnlinePush_serialize rt) (ServerOnlinePush_parse rt) (ServerOnlinePush_ByteSizeLong rt) ServerOnlinePush_MergeFrom ServerOnlinePush_CopyFrom
    \<and> wire_codec (ServerOfflinePush_ok rt) (ServerOfflinePush_serialize rt) (ServerOfflinePush_parse rt) (ServerOfflinePush_ByteSizeLong rt) ServerOfflinePush_MergeFrom ServerOfflinePush_CopyFrom
    \<and> wire_codec (ForwardToServerReq_ok rt) (ForwardToServerReq_serialize rt) (ForwardToServerReq_parse rt) (ForwardToServerReq_ByteSizeLong rt) ForwardToServerReq_MergeFrom ForwardToServerReq_CopyFrom
    \<and> wire_codec (ServiceLoadReportPush_ok rt) (ServiceLoadReportPush_serialize rt) (ServiceLoadReportPush_parse rt) (ServiceLoadReportPush_ByteSizeLong rt) ServiceLoadReportPush_MergeFrom ServiceLoadReportPush_CopyFrom
    \<and> wire_codec (ServerPingReq_ok rt) (ServerPingReq_serialize rt) (ServerPingReq_parse rt) (ServerPingReq_ByteSizeLong rt) ServerPingReq_MergeFrom ServerPingReq_CopyFrom
    \<and> wire_codec (ServerPongResp_ok rt) (ServerPongResp_serialize rt) (ServerPongResp_parse rt) (ServerPongResp_ByteSizeLong rt) ServerPongResp_MergeFrom ServerPongResp_CopyFrom"
  by (intro conjI ServiceEndpoint_wire [OF assms]
    ServerRegReq_wire [OF assms]
    ServerRegResp_wire [OF assms]
    BindServiceReq_wire [OF assms]
    BindServiceResp_wire [OF assms]
    UnbindServiceReq_wire [OF assms]
    UnbindServiceResp_wire [OF assms]
    KickSessionReq_wire [OF assms]
    KickSessionRsp_wire [OF assms]
    SessionOnlinePush_wire [OF assms]
    SessionOfflinePush_wire [OF assms]
    ServerOnlinePush_wire [OF assms]
    ServerOfflinePush_wire [OF assms]
    ForwardToServerReq_wire [OF assms]
    ServiceLoadReportPush_wire [OF assms]
    ServerPingReq_wire [OF assms]
    ServerPongResp_wire [OF assms])

theorem gateway_messages_wire_witness:
  "ServerRegReq_parse wire_rt (ServerRegReq_serialize wire_rt
      (ServerRegReq_default\<lparr>ServerRegReq_service_id := 2, ServerRegReq_instance_id := 70000, ServerRegReq_load_message := [104, 105]\<rparr>))
    = Some (ServerRegReq_default\<lparr>ServerRegReq_service_id := 2, ServerRegReq_instance_id := 70000, ServerRegReq_load_message := [104, 105]\<rparr>)"
proof -
  let ?m = "ServerRegReq_default\<lparr>ServerRegReq_service_id := 2, ServerRegReq_instance_id := 70000, ServerRegReq_load_message := [104, 105]\<rparr>"
  have "ServerRegReq_ok wire_rt ?m"
    by (simp add: ServerRegReq_ok_def ServerRegReq_default_def wire_rt_def)
  moreover have "wire_codec (ServerRegReq_ok wire_rt) (ServerRegReq_serialize wire_rt) (ServerRegReq_parse wire_rt)
      (ServerRegReq_ByteSizeLong wire_rt) ServerRegReq_MergeFrom ServerRegReq_CopyFrom"
    using gateway_messages_wire [OF wire.pb_laws_axioms] by (elim conjE)
  ultimately show ?thesis by (simp only: wire_codec_def)
qed

text \<open>C26. The battle messages survive the wire: the request to create a battle, whatever the
  codec of the players it embeds (a class outside the repository, given by its functions and
  inverse on the players in question), the response with its world dump and its list of
  spawned players, and the spawned player itself.\<close>
theorem battle_messages_wire:
  assumes "pb_laws rt" and "\<And>x. psz x = length (pss x)"
  shows "wire_codec (BattleCreateReq_ok rt psp pss) (BattleCreateReq_serialize rt pss) (BattleCreateReq_parse rt psp) (BattleCreateReq_ByteSizeLong rt psz) BattleCreateReq_MergeFrom BattleCreateReq_CopyFrom
    \<and> wire_codec (BattleCreateResp_ok rt) (BattleCreateResp_serialize rt) (BattleCreateResp_parse rt) (BattleCreateResp_ByteSizeLong rt) BattleCreateResp_MergeFrom BattleCreateResp_CopyFrom
    \<and> wire_codec (BattlePlayerSpawn_ok rt) (BattlePlayerSpawn_serialize rt) (BattlePlayerSpawn_parse rt) (BattlePlayerSpawn_ByteSizeLong rt) BattlePlayerSpawn_MergeFrom BattlePlayerSpawn_CopyFrom"
  by (intro conjI BattleCreateReq_wire [OF assms] BattleCreateResp_wire [OF assms(1)] BattlePlayerSpawn_wire [OF assms(1)])

theorem battle_messages_wire_witness:
  "BattleCreateResp_parse wire_rt (BattleCreateResp_serialize wire_rt
      (BattleCreateResp_default\<lparr>BattleCreateResp_battle_id := 7, BattleCreateResp_world_dump := [1, 2, 0]\<rparr>))
    = Some (BattleCreateResp_default\<lparr>BattleCreateResp_battle_id := 7, BattleCreateResp_world_dump := [1, 2, 0]\<rparr>)"
proof -
  have "BattleCreateResp_ok wire_rt (BattleCreateResp_default\<lparr>BattleCreateResp_battle_id := 7, BattleCreateResp_world_dump := [1, 2, 0]\<rparr>)"
    by (simp add: BattleCreateResp_ok_def BattleCreateResp_default_def wire_rt_def)
  moreover have "wire_codec (BattleCreateResp_ok wire_rt) (BattleCreateResp_serialize wire_rt) (BattleCreateResp_parse wire_rt)
      (BattleCreateResp_ByteSizeLong wire_rt) BattleCreateResp_MergeFrom BattleCreateResp_CopyFrom"
    using battle_messages_wire [OF wire.pb_laws_axioms, of "\<lambda>_. 1" "\<lambda>p. [ucast (session_id p)]"] by simp
  ultimately show ?thesis by (simp only: wire_codec_def)
qed

text \<open>Fields of a newer protocol pass through. A field the class does not know, after a
  well-formed forwarded frame, is kept aside: the message parses with its own fields intact,
  the unknown bytes are stored, and serializing it again writes them back.\<close>
theorem unknown_field_kept:
  assumes "pb_laws rt" and "ForwardToServerReq_ok rt a" and "u \<noteq> []" and "ReadTag rt u = Some (t, q)"
    and "5 < drop_bit 3 t" and "t AND 7 \<noteq> 4" and "UnknownFieldParse rt t q = Some (raw, [])"
  shows "ForwardToServerReq_parse rt (ForwardToServerReq_serialize rt a @ u) = Some (a\<lparr>ForwardToServerReq_unknown := raw\<rparr>)
    \<and> ForwardToServerReq_serialize rt (a\<lparr>ForwardToServerReq_unknown := raw\<rparr>) = ForwardToServerReq_serialize rt a @ raw"
proof -
  let ?unk = "\<lambda>raw m. m\<lparr>ForwardToServerReq_unknown := ForwardToServerReq_unknown m @ raw\<rparr>"
  have merge: "ForwardToServerReq_MergeFrom a ForwardToServerReq_default = a" and unknown: "ForwardToServerReq_unknown a = []"
    using assms(2) by (simp_all add: ForwardToServerReq_ok_def ForwardToServerReq_MergeFrom_def ForwardToServerReq_default_def)
  have sw: "ForwardToServerReq_switch rt t a q = Unusual"
    using assms(5) by (auto simp: ForwardToServerReq_switch_def)
  have "t \<noteq> 0" using assms(5) by auto
  then have "parse_message rt (ForwardToServerReq_switch rt) ?unk a u = Some (?unk raw a)"
    using pb_laws.parse_message_Unusual [OF assms(1) pb_laws.ForwardToServerReq_consumes [OF assms(1)] assms(3,4) sw _ assms(6,7),
        where unk = ?unk] by (simp add: pb_laws.parse_message_Nil [OF assms(1)])
  then show ?thesis
    using pb_laws.ForwardToServerReq_merge [OF assms(1,2), where r = u and unk = ?unk and m = ForwardToServerReq_default]
    by (simp add: ForwardToServerReq_parse_def merge unknown) (simp add: ForwardToServerReq_serialize_def unknown)
qed

theorem unknown_field_kept_witness:
  "ForwardToServerReq_parse wire_rt (ForwardToServerReq_serialize wire_rt
      (ForwardToServerReq_default\<lparr>ForwardToServerReq_payload := [9]\<rparr>) @ [56, 5])
    = Some (ForwardToServerReq_default\<lparr>ForwardToServerReq_payload := [9], ForwardToServerReq_unknown := [56, 5]\<rparr>)"
proof -
  let ?a = "ForwardToServerReq_default\<lparr>ForwardToServerReq_payload := [9]\<rparr>"
  have tag: "ReadTag wire_rt [56, 5] = Some (56, [5])" using wire.tag_law [of 56 "[5]"] by simp
  have ok: "ForwardToServerReq_ok wire_rt ?a" by (simp add: ForwardToServerReq_ok_def ForwardToServerReq_default_def)
  have unk: "UnknownFieldParse wire_rt 56 [5] = Some ([56, 5], [])"
    by code_simp
  have "5 < drop_bit 3 (56 :: u32)" "(56 :: u32) AND 7 \<noteq> 4" by simp_all
  from unknown_field_kept [OF wire.pb_laws_axioms ok _ tag this unk] show ?thesis by simp
qed

subsection \<open>What a parser accepts\<close>

text \<open>
  A message of these classes that was parsed is well-formed but for its unknown fields: its
  strings are valid UTF-8 and of a size that can be written again. So without the unknown
  fields it can be sent on, and is read as itself.
\<close>

definition reencodes :: "(bytes \<Rightarrow> 'm option) \<Rightarrow> ('m \<Rightarrow> bytes) \<Rightarrow> ('m \<Rightarrow> bool) \<Rightarrow> ('m \<Rightarrow> 'm) \<Rightarrow> bool" where
  "reencodes parse ser ok known \<longleftrightarrow>
     (\<forall>p m. length p + 16 < 2 ^ 31 \<and> parse p = Some m \<longrightarrow> ok (known m) \<and> parse (ser (known m)) = Some (known m))"

lemma reencodesI:
  assumes "wire_codec ok ser parse len merge copy"
    and "\<And>p m. length p + 16 < 2 ^ 31 \<Longrightarrow> parse p = Some m \<Longrightarrow> ok (known m)"
  shows "reencodes parse ser ok known"
  using assms by (auto simp: reencodes_def wire_codec_def)

lemma ServiceEndpoint_reencodes:
  assumes "pb_laws rt" shows "reencodes (ServiceEndpoint_parse rt) (ServiceEndpoint_serialize rt) (ServiceEndpoint_ok rt) (\<lambda>m. m\<lparr>ServiceEndpoint_unknown := []\<rparr>)"
  by (rule reencodesI [OF ServiceEndpoint_wire [OF assms]]) (simp add: ServiceEndpoint_ok_def)

lemma ServerRegReq_reencodes:
  assumes "pb_laws rt" shows "reencodes (ServerRegReq_parse rt) (ServerRegReq_serialize rt) (ServerRegReq_ok rt) (\<lambda>m. m\<lparr>ServerRegReq_unknown := []\<rparr>)"
proof (rule reencodesI [OF ServerRegReq_wire [OF assms]])
  fix p m assume "length p + 16 < 2 ^ 31" and "ServerRegReq_parse rt p = Some m"
  then show "ServerRegReq_ok rt (m\<lparr>ServerRegReq_unknown := []\<rparr>)"
    by (intro pb_laws.parse_message_keeps [OF assms pb_laws.ServerRegReq_consumes [OF assms], where p = p and m' = m
          and P = "\<lambda>m. ServerRegReq_ok rt (m\<lparr>ServerRegReq_unknown := []\<rparr>)"])
       (auto simp: ServerRegReq_parse_def ServerRegReq_ok_def ServerRegReq_default_def ServerRegReq_switch_def pb_laws.utf8_Nil [OF assms]
          split: if_splits dest!: pb_laws.field_ContinueD [OF assms])
qed

lemma BindServiceReq_reencodes:
  assumes "pb_laws rt" shows "reencodes (BindServiceReq_parse rt) (BindServiceReq_serialize rt) (BindServiceReq_ok rt) (\<lambda>m. m\<lparr>BindServiceReq_unknown := []\<rparr>)"
  by (rule reencodesI [OF BindServiceReq_wire [OF assms]]) (simp add: BindServiceReq_ok_def)

lemma BindServiceResp_reencodes:
  assumes "pb_laws rt" shows "reencodes (BindServiceResp_parse rt) (BindServiceResp_serialize rt) (BindServiceResp_ok rt) (\<lambda>m. m\<lparr>BindServiceResp_unknown := []\<rparr>)"
proof (rule reencodesI [OF BindServiceResp_wire [OF assms]])
  fix p m assume "length p + 16 < 2 ^ 31" and "BindServiceResp_parse rt p = Some m"
  then show "BindServiceResp_ok rt (m\<lparr>BindServiceResp_unknown := []\<rparr>)"
    by (intro pb_laws.parse_message_keeps [OF assms pb_laws.BindServiceResp_consumes [OF assms], where p = p and m' = m
          and P = "\<lambda>m. BindServiceResp_ok rt (m\<lparr>BindServiceResp_unknown := []\<rparr>)"])
       (auto simp: BindServiceResp_parse_def BindServiceResp_ok_def BindServiceResp_default_def BindServiceResp_switch_def pb_laws.utf8_Nil [OF assms]
          split: if_splits dest!: pb_laws.field_ContinueD [OF assms])
qed

lemma UnbindServiceReq_reencodes:
  assumes "pb_laws rt" shows "reencodes (UnbindServiceReq_parse rt) (UnbindServiceReq_serialize rt) (UnbindServiceReq_ok rt) (\<lambda>m. m\<lparr>UnbindServiceReq_unknown := []\<rparr>)"
  by (rule reencodesI [OF UnbindServiceReq_wire [OF assms]]) (simp add: UnbindServiceReq_ok_def)

lemma UnbindServiceResp_reencodes:
  assumes "pb_laws rt" shows "reencodes (UnbindServiceResp_parse rt) (UnbindServiceResp_serialize rt) (UnbindServiceResp_ok rt) (\<lambda>m. m\<lparr>UnbindServiceResp_unknown := []\<rparr>)"
proof (rule reencodesI [OF UnbindServiceResp_wire [OF assms]])
  fix p m assume "length p + 16 < 2 ^ 31" and "UnbindServiceResp_parse rt p = Some m"
  then show "UnbindServiceResp_ok rt (m\<lparr>UnbindServiceResp_unknown := []\<rparr>)"
    by (intro pb_laws.parse_message_keeps [OF assms pb_laws.UnbindServiceResp_consumes [OF assms], where p = p and m' = m
          and P = "\<lambda>m. UnbindServiceResp_ok rt (m\<lparr>UnbindServiceResp_unknown := []\<rparr>)"])
       (auto simp: UnbindServiceResp_parse_def UnbindServiceResp_ok_def UnbindServiceResp_default_def UnbindServiceResp_switch_def pb_laws.utf8_Nil [OF assms]
          split: if_splits dest!: pb_laws.field_ContinueD [OF assms])
qed

lemma KickSessionReq_reencodes:
  assumes "pb_laws rt" shows "reencodes (KickSessionReq_parse rt) (KickSessionReq_serialize rt) (KickSessionReq_ok rt) (\<lambda>m. m\<lparr>KickSessionReq_unknown := []\<rparr>)"
  by (rule reencodesI [OF KickSessionReq_wire [OF assms]]) (simp add: KickSessionReq_ok_def)

lemma KickSessionRsp_reencodes:
  assumes "pb_laws rt" shows "reencodes (KickSessionRsp_parse rt) (KickSessionRsp_serialize rt) (KickSessionRsp_ok rt) (\<lambda>m. m\<lparr>KickSessionRsp_unknown := []\<rparr>)"
  by (rule reencodesI [OF KickSessionRsp_wire [OF assms]]) (simp add: KickSessionRsp_ok_def)

lemma SessionOnlinePush_reencodes:
  assumes "pb_laws rt" shows "reencodes (SessionOnlinePush_parse rt) (SessionOnlinePush_serialize rt) (SessionOnlinePush_ok rt) (\<lambda>m. m\<lparr>SessionOnlinePush_unknown := []\<rparr>)"
  by (rule reencodesI [OF SessionOnlinePush_wire [OF assms]]) (simp add: SessionOnlinePush_ok_def)

lemma SessionOfflinePush_reencodes:
  assumes "pb_laws rt" shows "reencodes (SessionOfflinePush_parse rt) (SessionOfflinePush_serialize rt) (SessionOfflinePush_ok rt) (\<lambda>m. m\<lparr>SessionOfflinePush_unknown := []\<rparr>)"
  by (rule reencodesI [OF SessionOfflinePush_wire [OF assms]]) (simp add: SessionOfflinePush_ok_def)

lemma ServerOnlinePush_reencodes:
  assumes "pb_laws rt" shows "reencodes (ServerOnlinePush_parse rt) (ServerOnlinePush_serialize rt) (ServerOnlinePush_ok rt) (\<lambda>m. m\<lparr>ServerOnlinePush_unknown := []\<rparr>)"
  by (rule reencodesI [OF ServerOnlinePush_wire [OF assms]]) (simp add: ServerOnlinePush_ok_def)

lemma ServerOfflinePush_reencodes:
  assumes "pb_laws rt" shows "reencodes (ServerOfflinePush_parse rt) (ServerOfflinePush_serialize rt) (ServerOfflinePush_ok rt) (\<lambda>m. m\<lparr>ServerOfflinePush_unknown := []\<rparr>)"
  by (rule reencodesI [OF ServerOfflinePush_wire [OF assms]]) (simp add: ServerOfflinePush_ok_def)

lemma ForwardToServerReq_reencodes:
  assumes "pb_laws rt" shows "reencodes (ForwardToServerReq_parse rt) (ForwardToServerReq_serialize rt) (ForwardToServerReq_ok rt) (\<lambda>m. m\<lparr>ForwardToServerReq_unknown := []\<rparr>)"
proof (rule reencodesI [OF ForwardToServerReq_wire [OF assms]])
  fix p m assume "length p + 16 < 2 ^ 31" and "ForwardToServerReq_parse rt p = Some m"
  then show "ForwardToServerReq_ok rt (m\<lparr>ForwardToServerReq_unknown := []\<rparr>)"
    by (intro pb_laws.parse_message_keeps [OF assms pb_laws.ForwardToServerReq_consumes [OF assms], where p = p and m' = m
          and P = "\<lambda>m. ForwardToServerReq_ok rt (m\<lparr>ForwardToServerReq_unknown := []\<rparr>)"])
       (auto simp: ForwardToServerReq_parse_def ForwardToServerReq_ok_def ForwardToServerReq_default_def ForwardToServerReq_switch_def pb_laws.utf8_Nil [OF assms]
          split: if_splits dest!: pb_laws.field_ContinueD [OF assms])
qed

lemma ServiceLoadReportPush_reencodes:
  assumes "pb_laws rt" shows "reencodes (ServiceLoadReportPush_parse rt) (ServiceLoadReportPush_serialize rt) (ServiceLoadReportPush_ok rt) (\<lambda>m. m\<lparr>ServiceLoadReportPush_unknown := []\<rparr>)"
proof (rule reencodesI [OF ServiceLoadReportPush_wire [OF assms]])
  fix p m assume "length p + 16 < 2 ^ 31" and "ServiceLoadReportPush_parse rt p = Some m"
  then show "ServiceLoadReportPush_ok rt (m\<lparr>ServiceLoadReportPush_unknown := []\<rparr>)"
    by (intro pb_laws.parse_message_keeps [OF assms pb_laws.ServiceLoadReportPush_consumes [OF assms], where p = p and m' = m
          and P = "\<lambda>m. ServiceLoadReportPush_ok rt (m\<lparr>ServiceLoadReportPush_unknown := []\<rparr>)"])
       (auto simp: ServiceLoadReportPush_parse_def ServiceLoadReportPush_ok_def ServiceLoadReportPush_default_def ServiceLoadReportPush_switch_def pb_laws.utf8_Nil [OF assms]
          split: if_splits dest!: pb_laws.field_ContinueD [OF assms])
qed

lemma ServerPingReq_reencodes:
  assumes "pb_laws rt" shows "reencodes (ServerPingReq_parse rt) (ServerPingReq_serialize rt) (ServerPingReq_ok rt) (\<lambda>m. m\<lparr>ServerPingReq_unknown := []\<rparr>)"
  by (rule reencodesI [OF ServerPingReq_wire [OF assms]]) (simp add: ServerPingReq_ok_def)

lemma ServerPongResp_reencodes:
  assumes "pb_laws rt" shows "reencodes (ServerPongResp_parse rt) (ServerPongResp_serialize rt) (ServerPongResp_ok rt) (\<lambda>m. m\<lparr>ServerPongResp_unknown := []\<rparr>)"
  by (rule reencodesI [OF ServerPongResp_wire [OF assms]]) (simp add: ServerPongResp_ok_def)

text \<open>C27. What the parsers accept is well-typed. For every generated class of the gateway's
  protocol without embedded messages, a message parsed from any bytes whatever has valid UTF-8
  in its string fields and sizes the runtime can write; serialized without its unknown fields
  it is accepted again, as the same message.\<close>
theorem parsed_messages_typed:
  assumes "pb_laws rt"
  shows "reencodes (ServiceEndpoint_parse rt) (ServiceEndpoint_serialize rt) (ServiceEndpoint_ok rt) (\<lambda>m. m\<lparr>ServiceEndpoint_unknown := []\<rparr>)
    \<and> reencodes (ServerRegReq_parse rt) (ServerRegReq_serialize rt) (ServerRegReq_ok rt) (\<lambda>m. m\<lparr>ServerRegReq_unknown := []\<rparr>)
    \<and> reencodes (BindServiceReq_parse rt) (BindServiceReq_serialize rt) (BindServiceReq_ok rt) (\<lambda>m. m\<lparr>BindServiceReq_unknown := []\<rparr>)
    \<and> reencodes (BindServiceResp_parse rt) (BindServiceResp_serialize rt) (BindServiceResp_ok rt) (\<lambda>m. m\<lparr>BindServiceResp_unknown := []\<rparr>)
    \<and> reencodes (UnbindServiceReq_parse rt) (UnbindServiceReq_serialize rt) (UnbindServiceReq_ok rt) (\<lambda>m. m\<lparr>UnbindServiceReq_unknown := []\<rparr>)
    \<and> reencodes (UnbindServiceResp_parse rt) (UnbindServiceResp_serialize rt) (UnbindServiceResp_ok rt) (\<lambda>m. m\<lparr>UnbindServiceResp_unknown := []\<rparr>)
    \<and> reencodes (KickSessionReq_parse rt) (KickSessionReq_serialize rt) (KickSessionReq_ok rt) (\<lambda>m. m\<lparr>KickSessionReq_unknown := []\<rparr>)
    \<and> reencodes (KickSessionRsp_parse rt) (KickSessionRsp_serialize rt) (KickSessionRsp_ok rt) (\<lambda>m. m\<lparr>KickSessionRsp_unknown := []\<rparr>)
    \<and> reencodes (SessionOnlinePush_parse rt) (SessionOnlinePush_serialize rt) (SessionOnlinePush_ok rt) (\<lambda>m. m\<lparr>SessionOnlinePush_unknown := []\<rparr>)
    \<and> reencodes (SessionOfflinePush_parse rt) (SessionOfflinePush_serialize rt) (SessionOfflinePush_ok rt) (\<lambda>m. m\<lparr>SessionOfflinePush_unknown := []\<rparr>)
    \<and> reencodes (ServerOnlinePush_parse rt) (ServerOnlinePush_serialize rt) (ServerOnlinePush_ok rt) (\<lambda>m. m\<lparr>ServerOnlinePush_unknown := []\<rparr>)
    \<and> reencodes (ServerOfflinePush_parse rt) (ServerOfflinePush_serialize rt) (ServerOfflinePush_ok rt) (\<lambda>m. m\<lparr>ServerOfflinePush_unknown := []\<rparr>)
    \<and> reencodes (ForwardToServerReq_parse rt) (ForwardToServerReq_serialize rt) (ForwardToServerReq_ok rt) (\<lambda>m. m\<lparr>ForwardToServerReq_unknown := []\<rparr>)
    \<and> reencodes (ServiceLoadReportPush_parse rt) (ServiceLoadReportPush_serialize rt) (ServiceLoadReportPush_ok rt) (\<lambda>m. m\<lparr>ServiceLoadReportPush_unknown := []\<rparr>)
    \<and> reencodes (ServerPingReq_parse rt) (ServerPingReq_serialize rt) (ServerPingReq_ok rt) (\<lambda>m. m\<lparr>ServerPingReq_unknown := []\<rparr>)
    \<and> reencodes (ServerPongResp_parse rt) (ServerPongResp_serialize rt) (ServerPongResp_ok rt) (\<lambda>m. m\<lparr>ServerPongResp_unknown := []\<rparr>)"
  by (intro conjI ServiceEndpoint_reencodes [OF assms]
    ServerRegReq_reencodes [OF assms]
    BindServiceReq_reencodes [OF assms]
    BindServiceResp_reencodes [OF assms]
    UnbindServiceReq_reencodes [OF assms]
    UnbindServiceResp_reencodes [OF assms]
    KickSessionReq_reencodes [OF assms]
    KickSessionRsp_reencodes [OF assms]
    SessionOnlinePush_reencodes [OF assms]
    SessionOfflinePush_reencodes [OF assms]
    ServerOnlinePush_reencodes [OF assms]
    ServerOfflinePush_reencodes [OF assms]
    ForwardToServerReq_reencodes [OF assms]
    ServiceLoadReportPush_reencodes [OF assms]
    ServerPingReq_reencodes [OF assms]
    ServerPongResp_reencodes [OF assms])

theorem parsed_messages_typed_witness:
  "BindServiceResp_parse wire_rt (BindServiceResp_serialize wire_rt (BindServiceResp_default\<lparr>BindServiceResp_message := [104, 105]\<rparr>))
    = Some (BindServiceResp_default\<lparr>BindServiceResp_message := [104, 105]\<rparr>)
    \<and> BindServiceResp_ok wire_rt (BindServiceResp_default\<lparr>BindServiceResp_message := [104, 105]\<rparr>)"
proof -
  let ?m = "BindServiceResp_default\<lparr>BindServiceResp_message := [104, 105]\<rparr>"
  let ?bs = "BindServiceResp_serialize wire_rt ?m"
  have "BindServiceResp_ok wire_rt ?m" by (simp add: BindServiceResp_ok_def BindServiceResp_default_def wire_rt_def)
  with BindServiceResp_wire [OF wire.pb_laws_axioms] have "BindServiceResp_parse wire_rt ?bs = Some ?m"
    by (simp add: wire_codec_def)
  moreover have "length ?bs + 16 < 2 ^ 31"
    by (simp add: BindServiceResp_serialize_def BindServiceResp_default_def wire_rt_def varint_enc_small)
  moreover have "reencodes (BindServiceResp_parse wire_rt) (BindServiceResp_serialize wire_rt) (BindServiceResp_ok wire_rt)
      (\<lambda>m. m\<lparr>BindServiceResp_unknown := []\<rparr>)"
    using parsed_messages_typed [OF wire.pb_laws_axioms] by (elim conjE)
  ultimately have "BindServiceResp_ok wire_rt (?m\<lparr>BindServiceResp_unknown := []\<rparr>)"
    "BindServiceResp_parse wire_rt (BindServiceResp_serialize wire_rt (?m\<lparr>BindServiceResp_unknown := []\<rparr>))
       = Some (?m\<lparr>BindServiceResp_unknown := []\<rparr>)"
    unfolding reencodes_def by blast+
  then show ?thesis by (simp add: BindServiceResp_default_def)
qed

end
