(* ===== verification/BackendClient.thy ===== *)
theory BackendClient
  imports RpcManager PbGatewayPush
begin

section \<open>The backend client\<close>

text \<open>
  \<open>battle/src/framework/BackendClient.h\<close> and \<open>.cpp\<close>: the connection to the gateway as a
  state machine, the frames it sends, the dispatch of received frames, the online sessions
  and the delegate's callbacks.

  The state is the record \<open>client\<close>; the delegate's own state extends it, so a callback that
  uses the client, as the C++ delegate does through its reference, is a function on the
  whole record. What the client does to the outside (writes on the transport, calls of
  the io service, calls of RPC callbacks) is appended to the trace \<open>io\<close>. The io service
  (yasio), the protobuf runtime and the two messages whose generated code is not in the
  repository are fields of \<open>env\<close>: \<open>write_result\<close> is what \<open>io_service::write\<close> returns for
  a buffer, given the trace so far.
\<close>

subsection \<open>Data\<close>

record ServerSource =
  serviceId :: u32
  instanceId :: i32

definition anyInstance :: "u32 \<Rightarrow> ServerSource" where
  "anyInstance sid = \<lparr>serviceId = sid, instanceId = - 1\<rparr>"

record BackendConfig =
  cfg_serviceId :: u32
  cfg_instanceId :: u32
  cfg_gatewayHost :: string
  cfg_gatewayPort :: i32
  cfg_initialLoadScore :: u32
  cfg_initialAcceptingBindings :: bool
  cfg_initialLoadMessage :: bytes

definition default_BackendConfig :: BackendConfig where
  "default_BackendConfig = \<lparr>cfg_serviceId = kServiceIdBattle, cfg_instanceId = 1,
     cfg_gatewayHost = ''127.0.0.1'', cfg_gatewayPort = 17100, cfg_initialLoadScore = 0,
     cfg_initialAcceptingBindings = True, cfg_initialLoadMessage = []\<rparr>"

record SerializedMessage =
  sm_msgId :: u16
  sm_payload :: bytes

definition makeSerializedMessage :: "u16 \<Rightarrow> bytes option \<Rightarrow> SerializedMessage option" where
  "makeSerializedMessage mid serialized =
     (case serialized of None \<Rightarrow> None | Some p \<Rightarrow> Some \<lparr>sm_msgId = mid, sm_payload = p\<rparr>)"

datatype conn_state = Disconnected | Connecting | Connected | Registered

text \<open>An RPC callback: the response type it expects and the user's callback, if any.\<close>

datatype 'u rpc_cb = RpcCb (cb_resp_id: u16) (cb_user: "'u option")

datatype 'u action =
    YWrite nat bytes int                  \<comment> \<open>\<open>io_service::write\<close> on a transport, its result\<close>
  | YClose nat
  | YStart
  | YStop
  | YOptions string int                   \<comment> \<open>channel options of \<open>openConnection\<close>\<close>
  | YOpen
  | YSchedule int                         \<comment> \<open>a timer, microseconds\<close>
  | RpcCalled "'u rpc_cb rpc_call"
  | RpcFailed 'u string                   \<comment> \<open>the user's callback, called before any request\<close>

record 'u client =
  m_config :: BackendConfig
  m_transport :: "nat option"
  m_state :: conn_state
  m_rpc :: "'u rpc_cb RpcManager"
  m_running :: bool
  m_lastRpcUpdate :: int
  m_onlineSessions :: "u32 list"
  io :: "'u action list"

record 'u env =
  rt :: pb_rt
  write_result :: "'u action list \<Rightarrow> bytes \<Rightarrow> int"
  ser_CommonErrorResp :: "i32 \<Rightarrow> bytes \<Rightarrow> bytes option"
  parse_CommonErrorResp :: "bytes \<Rightarrow> (i32 \<times> bytes) option"
  parse_GatewayErrorResp :: "bytes \<Rightarrow> (u32 \<times> bytes) option"

definition CommonErrorResp_Id :: u16 where "CommonErrorResp_Id = 901"
definition GatewayErrorResp_Id :: u16 where "GatewayErrorResp_Id = 3"

definition str_bytes :: "string \<Rightarrow> bytes" where
  "str_bytes s = map of_char s"

subsection \<open>The delegate\<close>

record 's delegate =
  onConnected :: "'s \<Rightarrow> 's"
  onDisconnected :: "'s \<Rightarrow> 's"
  onSessionOnline :: "u32 \<Rightarrow> 's \<Rightarrow> 's"
  onSessionOffline :: "u32 \<Rightarrow> 's \<Rightarrow> 's"
  onClientRequest :: "u32 \<Rightarrow> BackendFrame \<Rightarrow> 's \<Rightarrow> SerializedMessage option \<times> 's"
  onClientPush :: "u32 \<Rightarrow> BackendFrame \<Rightarrow> 's \<Rightarrow> 's"
  onServerRequest :: "ServerSource \<Rightarrow> BackendFrame \<Rightarrow> 's \<Rightarrow> SerializedMessage option \<times> 's"
  onServerPush :: "ServerSource \<Rightarrow> BackendFrame \<Rightarrow> 's \<Rightarrow> 's"
  onServerOnline :: "u32 \<Rightarrow> u32 \<Rightarrow> 's \<Rightarrow> 's"
  onServerOffline :: "u32 \<Rightarrow> u32 \<Rightarrow> 's \<Rightarrow> 's"
  onShutdown :: "'s \<Rightarrow> 's"

definition default_delegate :: "'s delegate" where
  "default_delegate = \<lparr>onConnected = id, onDisconnected = id, onSessionOnline = (\<lambda>_. id),
     onSessionOffline = (\<lambda>_. id), onClientRequest = (\<lambda>_ _ s. (None, s)),
     onClientPush = (\<lambda>_ _. id), onServerRequest = (\<lambda>_ _ s. (None, s)),
     onServerPush = (\<lambda>_ _. id), onServerOnline = (\<lambda>_ _. id), onServerOffline = (\<lambda>_ _. id),
     onShutdown = id\<rparr>"

text \<open>\<open>if (m_delegate) m_delegate->f(...)\<close>\<close>

definition notify :: "'s delegate option \<Rightarrow> ('s delegate \<Rightarrow> 's \<Rightarrow> 's) \<Rightarrow> 's \<Rightarrow> 's" where
  "notify dl f s = (case dl of None \<Rightarrow> s | Some d \<Rightarrow> f d s)"

subsection \<open>Sending\<close>

definition emit :: "'u action list \<Rightarrow> ('u, 'a) client_scheme \<Rightarrow> ('u, 'a) client_scheme" where
  "emit acts s = s\<lparr>io := io s @ acts\<rparr>"

definition isConnected :: "('u, 'a) client_scheme \<Rightarrow> bool" where
  "isConnected s \<longleftrightarrow> m_state s = Registered"

definition sendFrame :: "'u env \<Rightarrow> u8 \<Rightarrow> u16 \<Rightarrow> i32 \<Rightarrow> u32 \<Rightarrow> bytes \<Rightarrow> ('u, 'a) client_scheme \<Rightarrow>
    bool \<times> ('u, 'a) client_scheme" where
  "sendFrame env c mid ser sid pl s =
     (case m_transport s of None \<Rightarrow> (False, s)
      | Some t \<Rightarrow>
          let frame = encodeBackendFrame c mid ser sid pl; r = write_result env (io s) frame
          in (r \<ge> 0, emit [YWrite t frame r] s))"

text \<open>\<open>sendMessage<PbMessage>\<close>: the message id and the result of \<open>SerializeToString\<close>.\<close>

definition sendMessage :: "'u env \<Rightarrow> u8 \<Rightarrow> u32 \<Rightarrow> i32 \<Rightarrow> u16 \<Rightarrow> bytes option \<Rightarrow> ('u, 'a) client_scheme \<Rightarrow>
    bool \<times> ('u, 'a) client_scheme" where
  "sendMessage env c sid ser mid serialized s =
     (case serialized of None \<Rightarrow> (False, s) | Some pl \<Rightarrow> sendFrame env c mid ser sid pl s)"

definition sendToClient :: "'u env \<Rightarrow> u32 \<Rightarrow> i32 \<Rightarrow> u16 \<Rightarrow> bytes option \<Rightarrow> ('u, 'a) client_scheme \<Rightarrow>
    bool \<times> ('u, 'a) client_scheme" where
  "sendToClient env sid ser mid serialized s = sendMessage env kBackendCmdBusiness sid ser mid serialized s"

definition sendPush :: "'u env \<Rightarrow> u32 \<Rightarrow> u16 \<Rightarrow> bytes option \<Rightarrow> ('u, 'a) client_scheme \<Rightarrow>
    bool \<times> ('u, 'a) client_scheme" where
  "sendPush env sid mid serialized s = sendToClient env sid 0 mid serialized s"

definition SerializeToString_BindServiceReq :: "pb_rt \<Rightarrow> BindServiceReq \<Rightarrow> bytes option" where
  "SerializeToString_BindServiceReq r m = serialize_to_string (BindServiceReq_ByteSizeLong r m) (BindServiceReq_serialize r m)"

definition SerializeToString_UnbindServiceReq :: "pb_rt \<Rightarrow> UnbindServiceReq \<Rightarrow> bytes option" where
  "SerializeToString_UnbindServiceReq r m = serialize_to_string (UnbindServiceReq_ByteSizeLong r m) (UnbindServiceReq_serialize r m)"

definition SerializeToString_KickSessionReq :: "pb_rt \<Rightarrow> KickSessionReq \<Rightarrow> bytes option" where
  "SerializeToString_KickSessionReq r m = serialize_to_string (KickSessionReq_ByteSizeLong r m) (KickSessionReq_serialize r m)"

definition SerializeToString_ServiceLoadReportPush :: "pb_rt \<Rightarrow> ServiceLoadReportPush \<Rightarrow> bytes option" where
  "SerializeToString_ServiceLoadReportPush r m =
     serialize_to_string (ServiceLoadReportPush_ByteSizeLong r m) (ServiceLoadReportPush_serialize r m)"

definition SerializeToString_ServerRegReq :: "pb_rt \<Rightarrow> ServerRegReq \<Rightarrow> bytes option" where
  "SerializeToString_ServerRegReq r m = serialize_to_string (ServerRegReq_ByteSizeLong r m) (ServerRegReq_serialize r m)"

definition SerializeToString_ServerPongResp :: "pb_rt \<Rightarrow> ServerPongResp \<Rightarrow> bytes option" where
  "SerializeToString_ServerPongResp r m = serialize_to_string (ServerPongResp_ByteSizeLong r m) (ServerPongResp_serialize r m)"

definition SerializeToString_ForwardToServerReq :: "pb_rt \<Rightarrow> ForwardToServerReq \<Rightarrow> bytes option" where
  "SerializeToString_ForwardToServerReq r m =
     serialize_to_string (ForwardToServerReq_ByteSizeLong r m) (ForwardToServerReq_serialize r m)"

definition bindService :: "'u env \<Rightarrow> u32 \<Rightarrow> u32 \<Rightarrow> i32 \<Rightarrow> ('u, 'a) client_scheme \<Rightarrow>
    bool \<times> ('u, 'a) client_scheme" where
  "bindService env sid svc target s =
     (let req = BindServiceReq_default\<lparr>BindServiceReq_session_id := sid,
            BindServiceReq_service_id := svc, BindServiceReq_target_instance_id := target\<rparr>
      in sendMessage env kBackendCmdControl 0 0 BindServiceReq_Id (SerializeToString_BindServiceReq (rt env) req) s)"

definition unbindService :: "'u env \<Rightarrow> u32 \<Rightarrow> u32 \<Rightarrow> ('u, 'a) client_scheme \<Rightarrow>
    bool \<times> ('u, 'a) client_scheme" where
  "unbindService env sid svc s =
     (let req = UnbindServiceReq_default\<lparr>UnbindServiceReq_session_id := sid,
            UnbindServiceReq_service_id := svc\<rparr>
      in sendMessage env kBackendCmdControl 0 0 UnbindServiceReq_Id (SerializeToString_UnbindServiceReq (rt env) req) s)"

definition kickSession :: "'u env \<Rightarrow> u32 \<Rightarrow> ('u, 'a) client_scheme \<Rightarrow> bool \<times> ('u, 'a) client_scheme" where
  "kickSession env sid s =
     (let req = KickSessionReq_default\<lparr>KickSessionReq_session_id := sid\<rparr>
      in sendMessage env kBackendCmdControl 0 0 KickSessionReq_Id (SerializeToString_KickSessionReq (rt env) req) s)"

definition reportLoad :: "'u env \<Rightarrow> u32 \<Rightarrow> bool \<Rightarrow> bytes \<Rightarrow> ('u, 'a) client_scheme \<Rightarrow>
    bool \<times> ('u, 'a) client_scheme" where
  "reportLoad env loadScore acceptingBindings message s =
     (let push = ServiceLoadReportPush_default\<lparr>
            ServiceLoadReportPush_load_score := (if loadScore > 100 then 100 else loadScore),
            ServiceLoadReportPush_accepting_bindings := acceptingBindings,
            ServiceLoadReportPush_message := message\<rparr>
      in sendMessage env kBackendCmdControl 0 0 ServiceLoadReportPush_Id
           (SerializeToString_ServiceLoadReportPush (rt env) push) s)"

definition sendServerPayload :: "'u env \<Rightarrow> ServerSource \<Rightarrow> u16 \<Rightarrow> i32 \<Rightarrow> u32 \<Rightarrow> bytes \<Rightarrow>
    ('u, 'a) client_scheme \<Rightarrow> bool \<times> ('u, 'a) client_scheme" where
  "sendServerPayload env target mid ser sid pl s =
     (let inner = encodeBackendFrame kBackendCmdBusiness mid ser sid pl;
          req = ForwardToServerReq_default\<lparr>
            ForwardToServerReq_target_service_id := serviceId target,
            ForwardToServerReq_target_instance_id := instanceId target,
            ForwardToServerReq_payload := inner,
            ForwardToServerReq_source_service_id := cfg_serviceId (m_config s),
            ForwardToServerReq_source_instance_id := cfg_instanceId (m_config s)\<rparr>
      in case SerializeToString_ForwardToServerReq (rt env) req of None \<Rightarrow> (False, s)
         | Some forwardPayload \<Rightarrow>
             sendFrame env kBackendCmdControl ForwardToServerReq_Id ser 0 forwardPayload s)"

definition sendServerPush :: "'u env \<Rightarrow> ServerSource \<Rightarrow> u16 \<Rightarrow> bytes option \<Rightarrow> ('u, 'a) client_scheme \<Rightarrow>
    bool \<times> ('u, 'a) client_scheme" where
  "sendServerPush env target mid serialized s =
     (case serialized of None \<Rightarrow> (False, s) | Some pl \<Rightarrow> sendServerPayload env target mid 0 0 pl s)"

subsection \<open>Requests\<close>

text \<open>Calls of RPC callbacks, in order, become actions.\<close>

definition invoke :: "'u rpc_cb rpc_call list \<Rightarrow> ('u, 'a) client_scheme \<Rightarrow> ('u, 'a) client_scheme" where
  "invoke calls s = emit (map RpcCalled calls) s"

fun to_string_nat :: "nat \<Rightarrow> string" where
  "to_string_nat n = (if n < 10 then [char_of (48 + n)] else to_string_nat (n div 10) @ [char_of (48 + n mod 10)])"

declare to_string_nat.simps [simp del]

text \<open>
  What the wrapper \<open>makeRpcCallback\<close> builds passes to the user's callback: the decoded
  response or null, and an error text. \<open>parse\<close> is the response type's parser.
\<close>

definition makeRpcCallback :: "'u env \<Rightarrow> (bytes \<Rightarrow> 'r option) \<Rightarrow> 'u rpc_cb \<Rightarrow> BackendFrame option \<Rightarrow> string \<Rightarrow>
    ('u \<times> 'r option \<times> bytes) option" where
  "makeRpcCallback env parse cb frame err =
     (case cb_user cb of None \<Rightarrow> None
      | Some user \<Rightarrow> Some (user,
          case frame of None \<Rightarrow> (None, str_bytes err)
          | Some fr \<Rightarrow>
              if msgId fr \<noteq> cb_resp_id cb then
                let message = str_bytes (''unexpected rpc response msg_id='' @ to_string_nat (unat (msgId fr)));
                    message =
                      (if msgId fr = GatewayErrorResp_Id then
                         (case parse_GatewayErrorResp env (payload fr) of None \<Rightarrow> message
                          | Some (code, text) \<Rightarrow>
                              str_bytes (''gateway error '' @ to_string_nat (unat code) @ '': '') @ text)
                       else if msgId fr = CommonErrorResp_Id then
                         (case parse_CommonErrorResp env (payload fr) of None \<Rightarrow> message
                          | Some (code, text) \<Rightarrow> text)
                       else message)
                in (None, message)
              else case parse (payload fr) of
                None \<Rightarrow> (None, str_bytes ''decode rpc response failed'')
              | Some response \<Rightarrow> (Some response, [])))"

definition requestServerPayload :: "'u env \<Rightarrow> ServerSource \<Rightarrow> u16 \<Rightarrow> bytes \<Rightarrow> 'u rpc_cb option \<Rightarrow> f32 \<Rightarrow>
    ('u, 'a) client_scheme \<Rightarrow> i32 \<times> ('u, 'a) client_scheme" where
  "requestServerPayload env target mid pl cb timeoutSeconds s =
     (let (requestId, rpc) = nextRequestId (m_rpc s);
          s = s\<lparr>m_rpc := addPending requestId cb timeoutSeconds rpc\<rparr>;
          (ok, s) = sendServerPayload env target mid (- requestId) 0 pl s
      in if \<not> ok then (- 1, s\<lparr>m_rpc := remove requestId (m_rpc s)\<rparr>) else (requestId, s))"

definition requestServer :: "'u env \<Rightarrow> ServerSource \<Rightarrow> u16 \<Rightarrow> bytes option \<Rightarrow> u16 \<Rightarrow> 'u option \<Rightarrow> f32 \<Rightarrow>
    ('u, 'a) client_scheme \<Rightarrow> i32 \<times> ('u, 'a) client_scheme" where
  "requestServer env target mid serialized respId user timeoutSeconds s =
     (case serialized of
        None \<Rightarrow> (- 1, case user of None \<Rightarrow> s | Some u \<Rightarrow> emit [RpcFailed u ''serialize request failed''] s)
      | Some pl \<Rightarrow> requestServerPayload env target mid pl (Some (RpcCb respId user)) timeoutSeconds s)"

definition requestFrame :: "'u env \<Rightarrow> u8 \<Rightarrow> u32 \<Rightarrow> u16 \<Rightarrow> bytes option \<Rightarrow> u16 \<Rightarrow> 'u option \<Rightarrow> f32 \<Rightarrow>
    ('u, 'a) client_scheme \<Rightarrow> i32 \<times> ('u, 'a) client_scheme" where
  "requestFrame env c sid mid serialized respId user timeoutSeconds s =
     (case serialized of
        None \<Rightarrow> (- 1, case user of None \<Rightarrow> s | Some u \<Rightarrow> emit [RpcFailed u ''serialize request failed''] s)
      | Some pl \<Rightarrow>
          let (requestId, rpc) = nextRequestId (m_rpc s);
              s = s\<lparr>m_rpc := addPending requestId (Some (RpcCb respId user)) timeoutSeconds rpc\<rparr>;
              (ok, s) = sendFrame env c mid (- requestId) sid pl s
          in if \<not> ok then (- 1, s\<lparr>m_rpc := remove requestId (m_rpc s)\<rparr>) else (requestId, s))"

definition requestGateway :: "'u env \<Rightarrow> u16 \<Rightarrow> bytes option \<Rightarrow> u16 \<Rightarrow> 'u option \<Rightarrow> f32 \<Rightarrow>
    ('u, 'a) client_scheme \<Rightarrow> i32 \<times> ('u, 'a) client_scheme" where
  "requestGateway env mid serialized respId user timeoutSeconds s =
     requestFrame env kBackendCmdControl 0 mid serialized respId user timeoutSeconds s"

definition kDefaultRpcTimeoutSeconds :: f32 where
  "kDefaultRpcTimeoutSeconds = f32_of_int 10"

subsection \<open>Sessions\<close>

definition stopSession :: "('u, 'a) client_scheme delegate option \<Rightarrow> u32 \<Rightarrow> ('u, 'a) client_scheme \<Rightarrow>
    ('u, 'a) client_scheme" where
  "stopSession dl sid s =
     (if sid \<notin> set (m_onlineSessions s) then s
      else notify dl (\<lambda>d. onSessionOffline d sid) (s\<lparr>m_onlineSessions := removeAll sid (m_onlineSessions s)\<rparr>))"

definition spawnSession :: "('u, 'a) client_scheme delegate option \<Rightarrow> u32 \<Rightarrow> ('u, 'a) client_scheme \<Rightarrow>
    ('u, 'a) client_scheme" where
  "spawnSession dl sid s =
     (let s = stopSession dl sid s;
          s = s\<lparr>m_onlineSessions := List.insert sid (m_onlineSessions s)\<rparr>
      in notify dl (\<lambda>d. onSessionOnline d sid) s)"

definition stopAllSessions :: "('u, 'a) client_scheme delegate option \<Rightarrow> ('u, 'a) client_scheme \<Rightarrow>
    ('u, 'a) client_scheme" where
  "stopAllSessions dl s =
     (let sessions = m_onlineSessions s;
          s = s\<lparr>m_onlineSessions := []\<rparr>
      in case dl of None \<Rightarrow> s | Some d \<Rightarrow> fold (onSessionOffline d) sessions s)"

subsection \<open>Stopping and losing the connection\<close>

definition closeTransport :: "('u, 'a) client_scheme \<Rightarrow> ('u, 'a) client_scheme" where
  "closeTransport s =
     (case m_transport s of None \<Rightarrow> s | Some t \<Rightarrow> (emit [YClose t] s)\<lparr>m_transport := None\<rparr>)"

definition rpcFailAll :: "string \<Rightarrow> ('u, 'a) client_scheme \<Rightarrow> ('u, 'a) client_scheme" where
  "rpcFailAll err s =
     (let (calls, rpc) = failAll err (m_rpc s) in invoke calls (s\<lparr>m_rpc := rpc\<rparr>))"

definition stop :: "('u, 'a) client_scheme delegate option \<Rightarrow> ('u, 'a) client_scheme \<Rightarrow>
    ('u, 'a) client_scheme" where
  "stop dl s =
     (if \<not> m_running s then s
      else let s = s\<lparr>m_running := False\<rparr>;
               s = stopAllSessions dl s;
               s = notify dl onShutdown s;
               s = rpcFailAll ''backend session stopped'' s;
               s = closeTransport s;
               s = emit [YStop] s
           in s\<lparr>m_state := Disconnected\<rparr>)"

definition handleConnectionFailure :: "('u, 'a) client_scheme \<Rightarrow> ('u, 'a) client_scheme" where
  "handleConnectionFailure s =
     (if \<not> m_running s then s
      else emit [YStop] (rpcFailAll ''gateway disconnected'' (s\<lparr>m_running := False\<rparr>)))"

definition onGatewayDisconnected :: "('u, 'a) client_scheme delegate option \<Rightarrow> ('u, 'a) client_scheme \<Rightarrow>
    ('u, 'a) client_scheme" where
  "onGatewayDisconnected dl s =
     notify dl onDisconnected (rpcFailAll ''gateway disconnected'' (stopAllSessions dl s))"

definition onGatewayConnected :: "('u, 'a) client_scheme delegate option \<Rightarrow> ('u, 'a) client_scheme \<Rightarrow>
    ('u, 'a) client_scheme" where
  "onGatewayConnected dl s = notify dl onConnected s"

subsection \<open>Dispatch of frames\<close>

definition commonError :: "'u env \<Rightarrow> string \<Rightarrow> SerializedMessage option" where
  "commonError env message =
     makeSerializedMessage CommonErrorResp_Id
       (ser_CommonErrorResp env (- 1) (str_bytes (''internal error: '' @ message)))"

text \<open>The reply to a client frame, under the negated serial.\<close>

definition replyClient :: "'u env \<Rightarrow> BackendFrame \<Rightarrow> SerializedMessage option \<Rightarrow> ('u, 'a) client_scheme \<Rightarrow>
    ('u, 'a) client_scheme" where
  "replyClient env frame response s =
     (case response of None \<Rightarrow> s
      | Some r \<Rightarrow> snd (sendFrame env kBackendCmdBusiness (sm_msgId r) (- serial frame) (sessionId frame)
                     (sm_payload r) s))"

definition or_else :: "'x option \<Rightarrow> 'x option \<Rightarrow> 'x option" where
  "or_else a b = (case a of None \<Rightarrow> b | Some _ \<Rightarrow> a)"

definition processClientFrame :: "'u env \<Rightarrow> ('u, 'a) client_scheme delegate option \<Rightarrow> BackendFrame \<Rightarrow>
    ('u, 'a) client_scheme \<Rightarrow> ('u, 'a) client_scheme" where
  "processClientFrame env dl frame s =
     (case dl of
        None \<Rightarrow> if serial frame \<noteq> 0 then replyClient env frame (commonError env ''no backend delegate'') s else s
      | Some d \<Rightarrow>
          if serial frame = 0 then onClientPush d (sessionId frame) frame s
          else let (response, s) = onClientRequest d (sessionId frame) frame s
               in replyClient env frame (or_else response (commonError env ''request failed'')) s)"

definition processServerFrame :: "'u env \<Rightarrow> ('u, 'a) client_scheme delegate option \<Rightarrow> ServerSource \<Rightarrow>
    BackendFrame \<Rightarrow> ('u, 'a) client_scheme \<Rightarrow> ('u, 'a) client_scheme" where
  "processServerFrame env dl source frame s =
     (case dl of None \<Rightarrow> s
      | Some d \<Rightarrow>
          if serial frame = 0 then onServerPush d source frame s
          else let (response, s) = onServerRequest d source frame s
               in case or_else response (commonError env ''request failed'') of
                 None \<Rightarrow> s
               | Some r \<Rightarrow> snd (sendServerPayload env source (sm_msgId r) (- serial frame) 0 (sm_payload r) s))"

text \<open>\<open>m_rpc.resolve\<close>, with the callback it calls.\<close>

definition rpcResolve :: "BackendFrame \<Rightarrow> ('u, 'a) client_scheme \<Rightarrow> bool \<times> ('u, 'a) client_scheme" where
  "rpcResolve frame s =
     (let (ok, calls, rpc) = resolve frame (m_rpc s) in (ok, invoke calls (s\<lparr>m_rpc := rpc\<rparr>)))"

definition routeForwardToServer :: "'u env \<Rightarrow> ('u, 'a) client_scheme delegate option \<Rightarrow> ForwardToServerReq \<Rightarrow>
    ('u, 'a) client_scheme \<Rightarrow> ('u, 'a) client_scheme" where
  "routeForwardToServer env dl req s =
     (case decodeBackendFrame (ForwardToServerReq_payload req) of
        Inl e \<Rightarrow> s
      | Inr inner \<Rightarrow>
          if sint (serial inner) > 0 then snd (rpcResolve inner s)
          else processServerFrame env dl
            \<lparr>serviceId = ForwardToServerReq_source_service_id req,
             instanceId = ForwardToServerReq_source_instance_id req\<rparr> inner s)"

definition handleControlFrame :: "'u env \<Rightarrow> ('u, 'a) client_scheme delegate option \<Rightarrow> BackendFrame \<Rightarrow>
    ('u, 'a) client_scheme \<Rightarrow> ('u, 'a) client_scheme" where
  "handleControlFrame env dl frame s =
     (let (resolved, s) = (if sint (serial frame) > 0 then rpcResolve frame s else (False, s))
      in if resolved then s
         else if msgId frame = SessionOnlinePush_Id then
           (case SessionOnlinePush_parse (rt env) (payload frame) of None \<Rightarrow> s
            | Some push \<Rightarrow> spawnSession dl (SessionOnlinePush_session_id push) s)
         else if msgId frame = SessionOfflinePush_Id then
           (case SessionOfflinePush_parse (rt env) (payload frame) of None \<Rightarrow> s
            | Some push \<Rightarrow> stopSession dl (SessionOfflinePush_session_id push) s)
         else if msgId frame = ForwardToServerReq_Id then
           (case ForwardToServerReq_parse (rt env) (payload frame) of None \<Rightarrow> s
            | Some req \<Rightarrow> routeForwardToServer env dl req s)
         else if msgId frame = ServerPingReq_Id then
           (case ServerPingReq_parse (rt env) (payload frame) of None \<Rightarrow> s
            | Some ping \<Rightarrow>
                snd (sendMessage env kBackendCmdControl (sessionId frame) 0 ServerPongResp_Id
                  (SerializeToString_ServerPongResp (rt env)
                     (ServerPongResp_default\<lparr>ServerPongResp_nonce := ServerPingReq_nonce ping\<rparr>)) s))
         else if msgId frame = ServerOnlinePush_Id then
           (case ServerOnlinePush_parse (rt env) (payload frame) of None \<Rightarrow> s
            | Some push \<Rightarrow> notify dl (\<lambda>d. onServerOnline d (ServerOnlinePush_service_id push)
                                         (ServerOnlinePush_instance_id push)) s)
         else if msgId frame = ServerOfflinePush_Id then
           (case ServerOfflinePush_parse (rt env) (payload frame) of None \<Rightarrow> s
            | Some push \<Rightarrow> notify dl (\<lambda>d. onServerOffline d (ServerOfflinePush_service_id push)
                                         (ServerOfflinePush_instance_id push)) s)
         else s)"

definition handleBusinessFrame :: "'u env \<Rightarrow> ('u, 'a) client_scheme delegate option \<Rightarrow> BackendFrame \<Rightarrow>
    ('u, 'a) client_scheme \<Rightarrow> ('u, 'a) client_scheme" where
  "handleBusinessFrame env dl frame s =
     (let (resolved, s) = (if sint (serial frame) > 0 then rpcResolve frame s else (False, s))
      in if resolved then s
         else if sessionId frame \<notin> set (m_onlineSessions s) then
           (if serial frame \<noteq> 0 then replyClient env frame (commonError env ''unknown session'') s else s)
         else processClientFrame env dl frame s)"

definition onGatewayFrame :: "'u env \<Rightarrow> ('u, 'a) client_scheme delegate option \<Rightarrow> BackendFrame \<Rightarrow>
    ('u, 'a) client_scheme \<Rightarrow> ('u, 'a) client_scheme" where
  "onGatewayFrame env dl frame s =
     (if cmd frame = kBackendCmdControl then handleControlFrame env dl frame s
      else if cmd frame = kBackendCmdBusiness then handleBusinessFrame env dl frame s
      else s)"

definition registrationFailed :: "('u, 'a) client_scheme \<Rightarrow> ('u, 'a) client_scheme" where
  "registrationFailed s = handleConnectionFailure ((closeTransport s)\<lparr>m_state := Disconnected\<rparr>)"

definition processFrame :: "'u env \<Rightarrow> ('u, 'a) client_scheme delegate option \<Rightarrow> BackendFrame \<Rightarrow>
    ('u, 'a) client_scheme \<Rightarrow> ('u, 'a) client_scheme" where
  "processFrame env dl frame s =
     (if m_state s \<noteq> Registered then
        if cmd frame \<noteq> kBackendCmdControl \<or> msgId frame \<noteq> ServerRegResp_Id then s
        else case ServerRegResp_parse (rt env) (payload frame) of
          None \<Rightarrow> registrationFailed s
        | Some resp \<Rightarrow>
            if ServerRegResp_code resp \<noteq> 0 then registrationFailed s
            else onGatewayConnected dl (s\<lparr>m_state := Registered\<rparr>)
      else onGatewayFrame env dl frame s)"

definition onRecvFrame :: "'u env \<Rightarrow> ('u, 'a) client_scheme delegate option \<Rightarrow> bytes \<Rightarrow>
    ('u, 'a) client_scheme \<Rightarrow> ('u, 'a) client_scheme" where
  "onRecvFrame env dl body s =
     (case decodeBackendFrameBody body of Inl e \<Rightarrow> s | Inr frame \<Rightarrow> processFrame env dl frame s)"

subsection \<open>Connecting\<close>

definition sendRegisterReq :: "'u env \<Rightarrow> ('u, 'a) client_scheme \<Rightarrow> ('u, 'a) client_scheme" where
  "sendRegisterReq env s =
     (let c = m_config s;
          req = ServerRegReq_default\<lparr>ServerRegReq_service_id := cfg_serviceId c,
            ServerRegReq_instance_id := cfg_instanceId c,
            ServerRegReq_load_score := (if cfg_initialLoadScore c > 100 then 100 else cfg_initialLoadScore c),
            ServerRegReq_accepting_bindings := cfg_initialAcceptingBindings c,
            ServerRegReq_load_message := cfg_initialLoadMessage c\<rparr>
      in case SerializeToString_ServerRegReq (rt env) req of None \<Rightarrow> s
         | Some pl \<Rightarrow> snd (sendFrame env kBackendCmdControl ServerRegReq_Id kRegisterSerial 0 pl s))"

text \<open>The channel options: length-prefixed unpacking (4 bytes at offset 0, big-endian, stripped).\<close>

definition openConnection :: "('u, 'a) client_scheme \<Rightarrow> ('u, 'a) client_scheme" where
  "openConnection s =
     (if \<not> m_running s \<or> m_state s = Connecting \<or> m_state s = Connected \<or> m_state s = Registered then s
      else emit [YOptions ''YOPT_C_UNPACK_PARAMS'' (uint kMaxBackendPacketSize), YOptions ''YOPT_C_UNPACK_STRIP'' 4,
                 YOptions ''YOPT_C_UNPACK_NO_BSWAP'' 0,
                 YOptions (cfg_gatewayHost (m_config s)) (sint (cfg_gatewayPort (m_config s))), YOpen]
             (s\<lparr>m_state := Connecting, m_transport := None\<rparr>))"

text \<open>Events of the io service; the events of other kinds are ignored.\<close>

datatype net_event = Ev_Open int nat | Ev_Close int | Ev_Packet bytes | Ev_Other

fun handleNetworkEvent :: "'u env \<Rightarrow> ('u, 'a) client_scheme delegate option \<Rightarrow> net_event \<Rightarrow>
    ('u, 'a) client_scheme \<Rightarrow> ('u, 'a) client_scheme" where
  "handleNetworkEvent env dl (Ev_Open status t) s =
     (if status = 0 then sendRegisterReq env (s\<lparr>m_transport := Some t, m_state := Connected\<rparr>)
      else handleConnectionFailure (s\<lparr>m_transport := None, m_state := Disconnected\<rparr>))"
| "handleNetworkEvent env dl (Ev_Close status) s =
     handleConnectionFailure (onGatewayDisconnected dl (s\<lparr>m_transport := None, m_state := Disconnected\<rparr>))"
| "handleNetworkEvent env dl (Ev_Packet body) s = onRecvFrame env dl body s"
| "handleNetworkEvent env dl Ev_Other s = s"

definition init_client :: "BackendConfig \<Rightarrow> 'u client" where
  "init_client c = \<lparr>m_config = c, m_transport = None, m_state = Disconnected, m_rpc = init_rpc,
     m_running = False, m_lastRpcUpdate = 0, m_onlineSessions = [], io = []\<rparr>"

definition client_init :: "BackendConfig \<Rightarrow> ('u, 'a) client_scheme \<Rightarrow> bool \<times> ('u, 'a) client_scheme" where
  "client_init c s = (True, s\<lparr>m_config := c\<rparr>)"

text \<open>The 100 ms RPC timer; \<open>now\<close> is the clock in nanoseconds. \<open>True\<close> ends the timer.\<close>

definition startRpcTimer :: "int \<Rightarrow> ('u, 'a) client_scheme \<Rightarrow> ('u, 'a) client_scheme" where
  "startRpcTimer now s = emit [YSchedule 100000] (s\<lparr>m_lastRpcUpdate := now\<rparr>)"

definition rpcTimer :: "int \<Rightarrow> ('u, 'a) client_scheme \<Rightarrow> bool \<times> ('u, 'a) client_scheme" where
  "rpcTimer now s =
     (if \<not> m_running s then (True, s)
      else let dt = f32_div (f32_of_int (now - m_lastRpcUpdate s)) (f32_of_int 1000000000);
               (calls, rpc) = update dt (m_rpc s)
           in (False, invoke calls (s\<lparr>m_lastRpcUpdate := now, m_rpc := rpc\<rparr>)))"

definition start :: "int \<Rightarrow> ('u, 'a) client_scheme \<Rightarrow> ('u, 'a) client_scheme" where
  "start now s =
     (if m_running s then s
      else emit [YStart] (openConnection (startRpcTimer now (s\<lparr>m_running := True\<rparr>))))"

end
