(* ===== verification/ClientContract.thy ===== *)
theory ClientContract
  imports BackendClient
begin

section \<open>The client's invariant and its contract with the delegate\<close>

text \<open>
  What \<open>BackendClient\<close> and its delegate owe each other. The locale \<open>packet_delegate\<close> states
  an invariant's side of every callback that a received frame or \<open>stop\<close> can reach, and the
  locale \<open>backend_delegate\<close> adds \<open>onDisconnected\<close>; inside them every operation of the client
  is shown to keep the invariant. The locale \<open>passive_delegate\<close> describes delegates whose
  \<open>onSessionOffline\<close> and \<open>onShutdown\<close> leave the client's own state alone, and gives the exact
  effect of \<open>stop\<close> and of a lost connection.
\<close>

subsection \<open>The invariant of the client\<close>

definition client_ok :: "('u, 'a) client_scheme \<Rightarrow> bool" where
  "client_ok s \<longleftrightarrow> distinct (m_onlineSessions s) \<and> rpc_ok (m_rpc s)"

lemma emit_simps [frame_simps]:
  "m_config (emit acts s) = m_config s" "m_transport (emit acts s) = m_transport s"
  "m_state (emit acts s) = m_state s" "m_rpc (emit acts s) = m_rpc s"
  "m_running (emit acts s) = m_running s" "m_lastRpcUpdate (emit acts s) = m_lastRpcUpdate s"
  "m_onlineSessions (emit acts s) = m_onlineSessions s" "client.more (emit acts s) = client.more s"
  "io (emit acts s) = io s @ acts"
  by (simp_all add: emit_def)

lemma emit_Nil [simp]: "emit [] s = s"
  by (simp add: emit_def)

lemma emit_emit [simp]: "emit bs (emit acts s) = emit (acts @ bs) s"
  by (simp add: emit_def)

text \<open>Every send appends at most one write and changes nothing else.\<close>

lemma sendFrame_emit: "\<exists>acts. snd (sendFrame env c mid ser sid pl s) = emit acts s"
  by (auto simp: sendFrame_def Let_def split: option.splits intro: exI [of _ "[]"])

lemma sendMessage_emit: "\<exists>acts. snd (sendMessage env c sid ser mid ser' s) = emit acts s"
  using sendFrame_emit by (auto simp: sendMessage_def split: option.splits intro: exI [of _ "[]"])

lemma sendServerPayload_emit: "\<exists>acts. snd (sendServerPayload env target mid ser sid pl s) = emit acts s"
  using sendFrame_emit
  by (auto simp: sendServerPayload_def Let_def split: option.splits intro: exI [of _ "[]"])

lemma sendToClient_emit: "\<exists>acts. snd (sendToClient env sid ser mid m s) = emit acts s"
  by (simp add: sendToClient_def sendMessage_emit)

lemma sendPush_emit: "\<exists>acts. snd (sendPush env sid mid m s) = emit acts s"
  by (simp add: sendPush_def sendToClient_emit)

lemma unbindService_emit: "\<exists>acts. snd (unbindService env sid svc s) = emit acts s"
  by (simp add: unbindService_def Let_def sendMessage_emit)

lemma reportLoad_emit: "\<exists>acts. snd (reportLoad env score acc m s) = emit acts s"
  by (simp add: reportLoad_def Let_def sendMessage_emit)

lemma replyClient_emit: "\<exists>acts. replyClient env frame resp s = emit acts s"
  using sendFrame_emit by (auto simp: replyClient_def split: option.splits intro: exI [of _ "[]"])

lemma sendRegisterReq_emit: "\<exists>acts. sendRegisterReq env s = emit acts s"
  using sendFrame_emit
  by (auto simp: sendRegisterReq_def Let_def split: option.splits intro: exI [of _ "[]"])

lemma invoke_emit: "\<exists>acts. invoke calls s = emit acts s"
  by (auto simp: invoke_def)

lemmas sends_emit = sendFrame_emit sendMessage_emit sendServerPayload_emit sendToClient_emit
  sendPush_emit unbindService_emit reportLoad_emit replyClient_emit sendRegisterReq_emit

subsection \<open>The contract\<close>

locale packet_delegate =
  fixes dl :: "('u, 'a) client_scheme delegate"
    and inv :: "('u, 'a) client_scheme \<Rightarrow> bool"
  assumes inv_client: "inv s \<Longrightarrow> client_ok s"
    and inv_conn: "inv s \<Longrightarrow> inv (s\<lparr>m_transport := t, m_state := st, m_running := r,
      m_lastRpcUpdate := n, io := io s @ acts\<rparr>)"
    and inv_rpc: "inv s \<Longrightarrow> rpc_ok q \<Longrightarrow> inv (s\<lparr>m_rpc := q\<rparr>)"
    and inv_sessions: "inv s \<Longrightarrow> distinct xs \<Longrightarrow> inv (s\<lparr>m_onlineSessions := xs\<rparr>)"
    and inv_onConnected: "inv s \<Longrightarrow> inv (onConnected dl s)"
    and inv_onSessionOnline: "inv s \<Longrightarrow> inv (onSessionOnline dl sid s)"
    and inv_onSessionOffline: "inv s \<Longrightarrow> inv (onSessionOffline dl sid s)"
    and inv_onClientRequest: "inv s \<Longrightarrow> inv (snd (onClientRequest dl sid fr s))"
    and inv_onClientPush: "inv s \<Longrightarrow> inv (onClientPush dl sid fr s)"
    and inv_onServerRequest: "inv s \<Longrightarrow> inv (snd (onServerRequest dl src fr s))"
    and inv_onServerPush: "inv s \<Longrightarrow> inv (onServerPush dl src fr s)"
    and inv_onServerOnline: "inv s \<Longrightarrow> inv (onServerOnline dl svc ins s)"
    and inv_onServerOffline: "inv s \<Longrightarrow> inv (onServerOffline dl svc ins s)"
    and inv_onShutdown: "inv s \<Longrightarrow> inv (onShutdown dl s)"

locale backend_delegate = packet_delegate +
  assumes inv_onDisconnected: "inv s \<Longrightarrow> inv (onDisconnected dl s)"

context packet_delegate begin

lemma inv_transport: "inv s \<Longrightarrow> inv (s\<lparr>m_transport := t\<rparr>)"
  using inv_conn [where acts = "[]" and t = t and st = "m_state s" and r = "m_running s"
      and n = "m_lastRpcUpdate s" and s = s] by simp

lemma inv_state: "inv s \<Longrightarrow> inv (s\<lparr>m_state := st\<rparr>)"
  using inv_conn [where acts = "[]" and t = "m_transport s" and st = st and r = "m_running s"
      and n = "m_lastRpcUpdate s" and s = s] by simp

lemma inv_running: "inv s \<Longrightarrow> inv (s\<lparr>m_running := r\<rparr>)"
  using inv_conn [where acts = "[]" and t = "m_transport s" and st = "m_state s" and r = r
      and n = "m_lastRpcUpdate s" and s = s] by simp

lemma inv_lastUpdate: "inv s \<Longrightarrow> inv (s\<lparr>m_lastRpcUpdate := n\<rparr>)"
  using inv_conn [where acts = "[]" and t = "m_transport s" and st = "m_state s" and r = "m_running s"
      and n = n and s = s] by simp

lemma inv_emit: "inv s \<Longrightarrow> inv (emit acts s)"
  using inv_conn [where acts = acts and t = "m_transport s" and st = "m_state s" and r = "m_running s"
      and n = "m_lastRpcUpdate s" and s = s] by (simp add: emit_def)

lemma inv_sends:
  assumes "inv s"
  shows "inv (snd (sendFrame env c mid ser sid pl s))"
    and "inv (snd (sendMessage env c sid ser mid m s))"
    and "inv (snd (sendServerPayload env target mid ser sid pl s))"
    and "inv (replyClient env frame resp s)" and "inv (sendRegisterReq env s)"
    and "inv (invoke calls s)"
  using assms inv_emit sendFrame_emit sendMessage_emit sendServerPayload_emit replyClient_emit
    sendRegisterReq_emit invoke_emit by metis+

lemma inv_notify:
  assumes "inv s" and "\<And>s. inv s \<Longrightarrow> inv (f dl s)"
  shows "inv (notify (Some dl) f s)"
  using assms by (simp add: notify_def)

lemma inv_fold_offline: "inv s \<Longrightarrow> inv (fold (onSessionOffline dl) xs s)"
  by (induction xs arbitrary: s) (auto intro: inv_onSessionOffline)

lemma inv_stopSession: "inv s \<Longrightarrow> inv (stopSession (Some dl) sid s)"
  using inv_client [of s]
  by (auto simp: stopSession_def client_ok_def intro!: inv_notify inv_onSessionOffline inv_sessions
      distinct_removeAll)

lemma inv_spawnSession: "inv s \<Longrightarrow> inv (spawnSession (Some dl) sid s)"
  using inv_stopSession [of s sid] inv_client [OF inv_stopSession, of s sid]
  by (auto simp: spawnSession_def Let_def client_ok_def intro!: inv_notify inv_onSessionOnline inv_sessions
      distinct_insert)

lemma inv_stopAllSessions: "inv s \<Longrightarrow> inv (stopAllSessions (Some dl) s)"
  by (auto simp: stopAllSessions_def Let_def intro!: inv_fold_offline inv_sessions)

lemma inv_closeTransport: "inv s \<Longrightarrow> inv (closeTransport s)"
  by (auto simp: closeTransport_def intro!: inv_transport inv_emit split: option.splits)

lemma inv_rpcFailAll: "inv s \<Longrightarrow> inv (rpcFailAll e s)"
  using rpc_ok_failAll [of "m_rpc s" e] inv_client [of s]
  by (auto simp: rpcFailAll_def client_ok_def case_prod_beta intro!: inv_sends inv_rpc)

lemma inv_stop: "inv s \<Longrightarrow> inv (stop (Some dl) s)"
  by (auto simp: stop_def Let_def intro!: inv_state inv_emit inv_closeTransport inv_rpcFailAll
      inv_notify inv_onShutdown inv_stopAllSessions inv_running)

lemma inv_handleConnectionFailure: "inv s \<Longrightarrow> inv (handleConnectionFailure s)"
  by (auto simp: handleConnectionFailure_def intro!: inv_emit inv_rpcFailAll inv_running)

lemma inv_registrationFailed: "inv s \<Longrightarrow> inv (registrationFailed s)"
  by (auto simp: registrationFailed_def intro!: inv_handleConnectionFailure inv_state inv_closeTransport)

lemma inv_rpcResolve: "inv s \<Longrightarrow> inv (snd (rpcResolve frame s))"
  using rpc_ok_resolve [of "m_rpc s" frame] inv_client [of s]
  by (auto simp: rpcResolve_def client_ok_def case_prod_beta intro!: inv_sends inv_rpc)

lemma inv_processClientFrame: "inv s \<Longrightarrow> inv (processClientFrame env (Some dl) frame s)"
  using inv_onClientRequest [of s "sessionId frame" frame]
  by (auto simp: processClientFrame_def case_prod_beta Let_def intro!: inv_sends inv_onClientPush)

lemma inv_processServerFrame: "inv s \<Longrightarrow> inv (processServerFrame env (Some dl) source frame s)"
  using inv_onServerRequest [of s source frame]
  by (auto simp: processServerFrame_def case_prod_beta Let_def intro!: inv_sends inv_onServerPush
      split: option.splits)

lemma inv_routeForwardToServer: "inv s \<Longrightarrow> inv (routeForwardToServer env (Some dl) req s)"
  by (auto simp: routeForwardToServer_def intro!: inv_rpcResolve inv_processServerFrame split: sum.splits)

lemma inv_try_resolve:
  "inv s \<Longrightarrow> (if 0 < sint (serial frame) then rpcResolve frame s else (False, s)) = (ok, s') \<Longrightarrow> inv s'"
  using inv_rpcResolve [of s frame] by (auto split: if_splits)

lemma inv_handleControlFrame:
  assumes "inv s" shows "inv (handleControlFrame env (Some dl) frame s)"
proof -
  obtain ok s' where r: "(if 0 < sint (serial frame) then rpcResolve frame s else (False, s)) = (ok, s')"
    by (meson surj_pair)
  note s' = inv_try_resolve [OF assms r]
  show ?thesis
    unfolding handleControlFrame_def r Let_def prod.case
    by (auto intro!: s' inv_spawnSession inv_stopSession inv_routeForwardToServer inv_sends inv_notify
        inv_onServerOnline inv_onServerOffline split: option.splits)
qed

lemma inv_handleBusinessFrame:
  assumes "inv s" shows "inv (handleBusinessFrame env (Some dl) frame s)"
proof -
  obtain ok s' where r: "(if 0 < sint (serial frame) then rpcResolve frame s else (False, s)) = (ok, s')"
    by (meson surj_pair)
  note s' = inv_try_resolve [OF assms r]
  show ?thesis
    unfolding handleBusinessFrame_def r Let_def prod.case
    by (auto intro!: s' inv_sends inv_processClientFrame)
qed

lemma inv_processFrame: "inv s \<Longrightarrow> inv (processFrame env (Some dl) frame s)"
  by (auto simp: processFrame_def onGatewayFrame_def onGatewayConnected_def
      intro!: inv_registrationFailed inv_handleControlFrame inv_handleBusinessFrame inv_notify
        inv_onConnected inv_state split: option.splits)

lemma inv_onRecvFrame: "inv s \<Longrightarrow> inv (onRecvFrame env (Some dl) body s)"
  by (auto simp: onRecvFrame_def intro!: inv_processFrame split: sum.splits)

lemma inv_open_event: "inv s \<Longrightarrow> inv (handleNetworkEvent env (Some dl) (Ev_Open status t) s)"
  by (auto intro!: inv_sends inv_handleConnectionFailure inv_state inv_transport)

lemma inv_rpcTimer: "inv s \<Longrightarrow> inv (snd (rpcTimer now s))"
  using rpc_ok_update [of "m_rpc s"] inv_client [of s]
  by (auto simp: rpcTimer_def Let_def client_ok_def case_prod_beta intro!: inv_sends inv_rpc inv_lastUpdate
      split: prod.splits)

lemma inv_start: "inv s \<Longrightarrow> inv (start now s)"
  by (auto simp: start_def startRpcTimer_def openConnection_def
      intro!: inv_emit inv_transport inv_state inv_lastUpdate inv_running)

lemma inv_requestServerPayload:
  assumes "inv s" shows "inv (snd (requestServerPayload env target mid pl cb t s))"
proof -
  obtain i q where iq: "nextRequestId (m_rpc s) = (i, q)" by fastforce
  let ?s = "s\<lparr>m_rpc := addPending i cb t q\<rparr>"
  have "rpc_ok (addPending i cb t q)"
    using rpc_ok_nextRequestId [of "m_rpc s"] inv_client [OF assms] iq
    by (auto simp: client_ok_def intro!: inv_intros)
  then have s1: "inv (snd (sendServerPayload env target mid (- i) 0 pl ?s))"
    using assms by (intro inv_sends inv_rpc)
  then show ?thesis
    using inv_client [OF s1] unfolding requestServerPayload_def iq
    by (auto simp: Let_def case_prod_beta client_ok_def intro!: inv_rpc rpc_ok_remove)
qed

end

context backend_delegate begin

lemma inv_handleNetworkEvent: "inv s \<Longrightarrow> inv (handleNetworkEvent env (Some dl) ev s)"
proof (cases ev)
  case (Ev_Open status t)
  moreover assume "inv s"
  ultimately show ?thesis by (simp only: inv_open_event)
qed (auto simp: onGatewayDisconnected_def intro!: inv_onRecvFrame inv_handleConnectionFailure inv_notify
    inv_onDisconnected inv_rpcFailAll inv_stopAllSessions inv_state inv_transport)

end

subsection \<open>Stopping, for delegates that leave the client alone\<close>

text \<open>The client's own state without the trace and the delegate's part.\<close>

definition core :: "('u, 'a) client_scheme \<Rightarrow> 'u client" where
  "core s = (client.truncate s)\<lparr>io := []\<rparr>"

lemma core_eq_iff:
  "core s = core s' \<longleftrightarrow> m_config s = m_config s' \<and> m_transport s = m_transport s' \<and> m_state s = m_state s' \<and>
     m_rpc s = m_rpc s' \<and> m_running s = m_running s' \<and> m_lastRpcUpdate s = m_lastRpcUpdate s' \<and>
     m_onlineSessions s = m_onlineSessions s'"
  by (simp add: core_def client.truncate_def)

text \<open>The trace only grows and the client's own state stays.\<close>

definition keeps_client :: "('u, 'a) client_scheme \<Rightarrow> ('u, 'a) client_scheme \<Rightarrow> bool" where
  "keeps_client s s' \<longleftrightarrow> core s' = core s \<and> (\<exists>acts. io s' = io s @ acts)"

lemma keeps_refl [simp]: "keeps_client s s"
  by (simp add: keeps_client_def)

lemma keeps_trans: "keeps_client s s' \<Longrightarrow> keeps_client s' s'' \<Longrightarrow> keeps_client s s''"
  by (force simp: keeps_client_def)

lemma keeps_emit [simp]: "keeps_client s (emit acts s)"
  by (simp add: keeps_client_def core_eq_iff emit_def)

definition failed_calls :: "string \<Rightarrow> ('u, 'a) client_scheme \<Rightarrow> 'u action list" where
  "failed_calls err s = map (\<lambda>(_, req). RpcCalled (Call (callback req) None err)) (m_pending (m_rpc s))"

lemma rpcFailAll_eq:
  "rpcFailAll err s = emit (failed_calls err s) (s\<lparr>m_rpc := (m_rpc s)\<lparr>m_pending := []\<rparr>\<rparr>)"
  by (simp add: rpcFailAll_def failAll_def invoke_def failed_calls_def o_def case_prod_unfold)

definition close_actions :: "nat option \<Rightarrow> 'u action list" where
  "close_actions t = (case t of None \<Rightarrow> [] | Some t \<Rightarrow> [YClose t])"

lemma closeTransport_eq: "closeTransport s = (emit (close_actions (m_transport s)) s)\<lparr>m_transport := None\<rparr>"
  by (auto simp: closeTransport_def close_actions_def split: option.splits)

locale passive_delegate =
  fixes dl :: "('u, 'a) client_scheme delegate"
  assumes offline_passive: "keeps_client s (onSessionOffline dl sid s)"
    and shutdown_passive: "keeps_client s (onShutdown dl s)"

context passive_delegate begin

lemma stopAllSessions_passive:
  "keeps_client (s\<lparr>m_onlineSessions := []\<rparr>) (stopAllSessions (Some dl) s)"
proof -
  have "keeps_client s' (fold (onSessionOffline dl) xs s')" for xs s'
    by (induction xs arbitrary: s') (auto intro: keeps_trans offline_passive)
  then show ?thesis by (simp add: stopAllSessions_def)
qed

lemma stop_effect:
  assumes "m_running s"
  shows "core (stop (Some dl) s) = (core s)\<lparr>m_transport := None, m_state := Disconnected, m_running := False,
      m_rpc := (m_rpc s)\<lparr>m_pending := []\<rparr>, m_onlineSessions := []\<rparr>"
    and "\<exists>acts. io (stop (Some dl) s) =
      io s @ acts @ failed_calls ''backend session stopped'' s @ close_actions (m_transport s) @ [YStop]"
proof -
  let ?s1 = "s\<lparr>m_running := False\<rparr>"
  let ?s2 = "notify (Some dl) onShutdown (stopAllSessions (Some dl) ?s1)"
  have "keeps_client (?s1\<lparr>m_onlineSessions := []\<rparr>) ?s2"
    using stopAllSessions_passive [of ?s1] shutdown_passive
    by (auto simp: notify_def intro: keeps_trans)
  then obtain acts where c: "core ?s2 = core (?s1\<lparr>m_onlineSessions := []\<rparr>)" and i: "io ?s2 = io s @ acts"
    by (auto simp: keeps_client_def)
  have stop: "stop (Some dl) s = (emit [YStop] (closeTransport (rpcFailAll ''backend session stopped'' ?s2)))
      \<lparr>m_state := Disconnected\<rparr>"
    using assms by (simp add: stop_def Let_def)
  show "core (stop (Some dl) s) = (core s)\<lparr>m_transport := None, m_state := Disconnected, m_running := False,
      m_rpc := (m_rpc s)\<lparr>m_pending := []\<rparr>, m_onlineSessions := []\<rparr>"
    using c unfolding stop rpcFailAll_eq closeTransport_eq
    by (simp add: core_def client.truncate_def emit_def)
  have "failed_calls e ?s2 = failed_calls e s" "m_transport ?s2 = m_transport s" for e
    using c by (simp_all add: core_eq_iff failed_calls_def)
  then show "\<exists>acts. io (stop (Some dl) s) =
      io s @ acts @ failed_calls ''backend session stopped'' s @ close_actions (m_transport s) @ [YStop]"
    using i unfolding stop rpcFailAll_eq closeTransport_eq by (auto simp: emit_def)
qed

lemma stop_twice: "stop (Some dl) (stop (Some dl) s) = stop (Some dl) s"
proof (cases "m_running s")
  case True
  have "m_running (stop (Some dl) s) = m_running (core (stop (Some dl) s))"
    by (simp add: core_def client.truncate_def)
  then have "\<not> m_running (stop (Some dl) s)"
    by (simp add: stop_effect(1) [OF True])
  then show ?thesis by (simp add: stop_def)
qed (simp add: stop_def)

end

end
