(* ===== verification/ClientProps.thy ===== *)
theory ClientProps
  imports ClientContract
begin

section \<open>What the client sends and answers\<close>

text \<open>
  The behaviour of \<open>BackendClient\<close> on the wire, for every delegate: each reply is one write
  whose bytes decode to the right frame; requests between servers and their responses meet
  end to end through the gateway; registration, heartbeats, stopping and losing the connection.
  \<open>gateway_forward\<close> models the gateway's side of a forwarded frame (the Rust function
  \<open>handle_server_forward\<close>), whose registry is an argument.
\<close>

subsection \<open>Writing a frame\<close>

text \<open>One write on transport \<open>t\<close>, of bytes that decode to the frame \<open>f\<close>.\<close>

definition wrote_frame :: "nat \<Rightarrow> BackendFrame \<Rightarrow> ('u, 'a) client_scheme \<Rightarrow> ('u, 'a) client_scheme \<Rightarrow> bool" where
  "wrote_frame t f s s' \<longleftrightarrow> (\<exists>bs r. s' = emit [YWrite t bs r] s \<and> decodeBackendFrame bs = Inr f)"

lemma sendFrame_wrote:
  assumes "m_transport s = Some t" and "length pl + kBackendFrameHeaderSize \<le> 2 ^ 20"
  shows "wrote_frame t \<lparr>cmd = c, msgId = mid, serial = ser, sessionId = sid, payload = pl\<rparr> s
    (snd (sendFrame env c mid ser sid pl s))"
  using decode_encoded [OF assms(2), of c mid ser sid "[]"] assms(1)
  by (auto simp: wrote_frame_def sendFrame_def Let_def)

lemma replyClient_wrote:
  assumes "m_transport s = Some t" and "length (sm_payload r) + kBackendFrameHeaderSize \<le> 2 ^ 20"
  shows "wrote_frame t \<lparr>cmd = kBackendCmdBusiness, msgId = sm_msgId r, serial = - serial fr,
      sessionId = sessionId fr, payload = sm_payload r\<rparr> s (replyClient env fr (Some r) s)"
  using sendFrame_wrote [OF assms] by (simp add: replyClient_def)

lemma rpcResolve_none:
  "umap_find (m_pending (m_rpc s)) (serial fr) = None \<Longrightarrow> rpcResolve fr s = (False, s)"
  by (simp add: rpcResolve_def resolve_def invoke_def)

text \<open>A frame resolves nothing when its serial is not that of a pending request.\<close>

definition unmatched :: "BackendFrame \<Rightarrow> ('u, 'a) client_scheme \<Rightarrow> bool" where
  "unmatched fr s \<longleftrightarrow> (0 < sint (serial fr) \<longrightarrow> umap_find (m_pending (m_rpc s)) (serial fr) = None)"

lemma unmatched_resolve:
  "unmatched fr s \<Longrightarrow> (if 0 < sint (serial fr) then rpcResolve fr s else (False, s)) = (False, s)"
  by (simp add: unmatched_def rpcResolve_none)

lemmas cmd_consts = kBackendCmdBusiness_def kBackendCmdControl_def

lemma processFrame_business:
  assumes "m_state s = Registered" and "cmd fr = kBackendCmdBusiness" and "unmatched fr s"
  shows "processFrame env dl fr s =
    (if sessionId fr \<notin> set (m_onlineSessions s) then
       (if serial fr \<noteq> 0 then replyClient env fr (commonError env ''unknown session'') s else s)
     else processClientFrame env dl fr s)"
  using assms unmatched_resolve [OF assms(3)]
  by (simp add: processFrame_def onGatewayFrame_def handleBusinessFrame_def cmd_consts)

subsection \<open>Replies to clients\<close>

text \<open>
  An environment for the concrete instances: the wire format of \<open>PbRuntime\<close>, a transport that
  takes every byte, and \<open>CommonErrorResp\<close> as \<open>client_game.proto\<close> declares it (its code and
  its message are the fields 1 and 2).
\<close>

definition wire_env :: "'u env" where
  "wire_env = \<lparr>rt = wire_rt, write_result = (\<lambda>_ bs. int (length bs)),
     ser_CommonErrorResp = (\<lambda>c m. Some (WriteInt32ToArray wire_rt 1 c @ WriteStringMaybeAliased wire_rt 2 m)),
     parse_CommonErrorResp = (\<lambda>_. None), parse_GatewayErrorResp = (\<lambda>_. None)\<rparr>"

lemma commonError_wire:
  assumes "length m < 2 ^ 20"
  shows "\<exists>p. commonError wire_env m = Some \<lparr>sm_msgId = 901, sm_payload = p\<rparr> \<and> length p \<le> length m + 33"
proof -
  let ?t = "str_bytes (''internal error: '' @ m)"
  have "length (WriteInt32ToArray wire_rt 1 (- 1)) \<le> 11"
    using wire.int32_bound by (simp only: wire.int32_size)
  moreover have "LengthDelimitedSize wire_rt (length ?t) \<le> length ?t + 5"
    using assms by (intro wire.block_bound) (simp add: str_bytes_def)
  ultimately show ?thesis
    by (simp add: commonError_def makeSerializedMessage_def wire_env_def CommonErrorResp_Id_def
        wire.string_size str_bytes_def)
qed

text \<open>C31. A business frame of a session that is not online is answered, when it carries a
  serial and that serial is not the id of a pending request (such a frame completes the request
  instead), by exactly one frame to that session: the common error under the negated serial.
  Nothing else of the client's state changes and no delegate is called. The error message can be
  serialized and fits in a frame.\<close>
theorem unknown_session_reply:
  assumes "m_state s = Registered" and "m_transport s = Some t" and "cmd fr = kBackendCmdBusiness"
    and "serial fr \<noteq> 0" and "sessionId fr \<notin> set (m_onlineSessions s)" and "unmatched fr s"
    and "commonError env ''unknown session'' = Some \<lparr>sm_msgId = mid, sm_payload = p\<rparr>"
    and "length p + kBackendFrameHeaderSize \<le> 2 ^ 20"
  shows "wrote_frame t \<lparr>cmd = kBackendCmdBusiness, msgId = mid, serial = - serial fr,
      sessionId = sessionId fr, payload = p\<rparr> s (processFrame env dl fr s)"
  using replyClient_wrote [of s t "\<lparr>sm_msgId = mid, sm_payload = p\<rparr>" fr env] assms
  by (simp add: processFrame_business)

text \<open>A registered client for the concrete instances, with an empty extension.\<close>

definition registered_client :: "nat \<Rightarrow> u32 list \<Rightarrow> 'u client" where
  "registered_client t online = (init_client default_BackendConfig)
     \<lparr>m_transport := Some t, m_state := Registered, m_running := True, m_onlineSessions := online\<rparr>"

lemma registered_client_simps [simp]:
  "m_transport (registered_client t xs) = Some t" "m_state (registered_client t xs) = Registered"
  "m_onlineSessions (registered_client t xs) = xs" "m_rpc (registered_client t xs) = init_rpc"
  "m_config (registered_client t xs) = default_BackendConfig" "m_running (registered_client t xs)"
  by (simp_all add: registered_client_def init_client_def)

lemma init_rpc_simps [simp]: "m_pending init_rpc = []" "m_nextRequestId init_rpc = 1"
  by (simp_all add: init_rpc_def)

theorem unknown_session_reply_witness:
  "\<exists>p. wrote_frame 0 \<lparr>cmd = 101, msgId = 901, serial = 7, sessionId = 42, payload = p\<rparr>
     (registered_client 0 [41] :: nat client)
     (processFrame wire_env None \<lparr>cmd = 101, msgId = 20012, serial = - 7, sessionId = 42, payload = []\<rparr>
        (registered_client 0 [41]))"
proof -
  let ?fr = "\<lparr>cmd = 101, msgId = 20012, serial = - 7, sessionId = 42, payload = []\<rparr>"
  obtain p where p: "commonError (wire_env :: nat env) ''unknown session'' = Some \<lparr>sm_msgId = 901, sm_payload = p\<rparr>"
    and "length p \<le> 48"
    using commonError_wire [of "''unknown session''"] by auto
  then have "length p + kBackendFrameHeaderSize \<le> 2 ^ 20"
    by (simp add: kBackendFrameHeaderSize_def)
  from unknown_session_reply [OF _ _ _ _ _ _ p this, of "registered_client 0 [41]" 0 ?fr None]
  show ?thesis by (auto simp: unmatched_def cmd_consts)
qed

text \<open>C30. A request of an online session is handed to the delegate once and answered by
  exactly one frame to that session under the negated serial: the delegate's response or,
  when it returns none, the common error. The answer follows everything the delegate did.\<close>
theorem client_request_reply:
  assumes "m_state s = Registered" and "cmd fr = kBackendCmdBusiness"
    and "serial fr \<noteq> 0" and "sessionId fr \<in> set (m_onlineSessions s)" and "unmatched fr s"
    and "onClientRequest d (sessionId fr) fr s = (resp, s')" and "m_transport s' = Some t"
    and "or_else resp (commonError env ''request failed'') = Some r"
    and "length (sm_payload r) + kBackendFrameHeaderSize \<le> 2 ^ 20"
  shows "wrote_frame t \<lparr>cmd = kBackendCmdBusiness, msgId = sm_msgId r, serial = - serial fr,
      sessionId = sessionId fr, payload = sm_payload r\<rparr> s' (processFrame env (Some d) fr s)"
  using replyClient_wrote [OF assms(7,9)] assms
  by (simp add: processFrame_business processClientFrame_def)

theorem client_request_reply_witness:
  "wrote_frame 0 \<lparr>cmd = 101, msgId = 5, serial = 7, sessionId = 42, payload = [1]\<rparr>
     (registered_client 0 [42] :: nat client)
     (processFrame wire_env (Some (default_delegate\<lparr>onClientRequest :=
          (\<lambda>_ _ s. (Some \<lparr>sm_msgId = 5, sm_payload = [1]\<rparr>, s))\<rparr>))
        \<lparr>cmd = 101, msgId = 20012, serial = - 7, sessionId = 42, payload = []\<rparr> (registered_client 0 [42]))"
  using client_request_reply [of "registered_client 0 [42]"
      "\<lparr>cmd = 101, msgId = 20012, serial = - 7, sessionId = 42, payload = []\<rparr>"
      "default_delegate\<lparr>onClientRequest := (\<lambda>_ _ s. (Some \<lparr>sm_msgId = 5, sm_payload = [1]\<rparr>, s))\<rparr>"
      "Some \<lparr>sm_msgId = 5, sm_payload = [1]\<rparr>" "registered_client 0 [42]" 0 wire_env
      "\<lparr>sm_msgId = 5, sm_payload = [1]\<rparr>"]
  by (simp add: unmatched_def cmd_consts or_else_def kBackendFrameHeaderSize_def)

text \<open>C38. A response is matched by its serial alone: a business frame, whichever session it
  names and online or not, whose serial is that of a pending request completes that request
  with the frame's contents; the entry is removed and no reply is sent.\<close>
theorem business_frame_resolves:
  assumes "m_state s = Registered" and "cmd fr = kBackendCmdBusiness" and "0 < sint (serial fr)"
    and "umap_find (m_pending (m_rpc s)) (serial fr) = Some req"
  shows "processFrame env dl fr s =
    emit [RpcCalled (Call (callback req) (Some fr) '''')] (s\<lparr>m_rpc := remove (serial fr) (m_rpc s)\<rparr>)"
  using assms by (simp add: processFrame_def onGatewayFrame_def handleBusinessFrame_def cmd_consts
      rpcResolve_def resolve_def invoke_def remove_def)

theorem business_frame_resolves_witness:
  "processFrame wire_env None \<lparr>cmd = 101, msgId = 60001, serial = 1, sessionId = 666, payload = []\<rparr>
     ((registered_client 0 [42] :: nat client)\<lparr>m_rpc := \<lparr>m_nextRequestId = 2,
        m_pending = [(1, \<lparr>callback = RpcCb 60001 (Some 9), timeout = f32_zero\<rparr>)]\<rparr>\<rparr>) =
   emit [RpcCalled (Call (RpcCb 60001 (Some 9))
      (Some \<lparr>cmd = 101, msgId = 60001, serial = 1, sessionId = 666, payload = []\<rparr>) '''')]
     ((registered_client 0 [42])\<lparr>m_rpc := \<lparr>m_nextRequestId = 2, m_pending = []\<rparr>\<rparr>)"
  using business_frame_resolves [of "(registered_client 0 [42] :: nat client)\<lparr>m_rpc := \<lparr>m_nextRequestId = 2,
        m_pending = [(1, \<lparr>callback = RpcCb 60001 (Some 9), timeout = f32_zero\<rparr>)]\<rparr>\<rparr>"
      "\<lparr>cmd = 101, msgId = 60001, serial = 1, sessionId = 666, payload = []\<rparr>"
      "\<lparr>callback = RpcCb 60001 (Some 9), timeout = f32_zero\<rparr>" wire_env None]
  by (simp add: cmd_consts remove_def umap_erase_Cons)

subsection \<open>Requests between servers, through the gateway\<close>

definition forward_req :: "BackendConfig \<Rightarrow> ServerSource \<Rightarrow> bytes \<Rightarrow> ForwardToServerReq" where
  "forward_req c target inner = ForwardToServerReq_default\<lparr>
     ForwardToServerReq_target_service_id := serviceId target,
     ForwardToServerReq_target_instance_id := instanceId target, ForwardToServerReq_payload := inner,
     ForwardToServerReq_source_service_id := cfg_serviceId c,
     ForwardToServerReq_source_instance_id := cfg_instanceId c\<rparr>"

lemma length_encode: "length pl + 15 < 2 ^ 31 \<Longrightarrow> length (encodeBackendFrame c m ser sid pl) = length pl + 15"
  by (simp add: encodeBackendFrame_bytes frame_fits_def frame_bytes_def kBackendFrameHeaderSize_def codec_simps)

context pb_laws begin

lemma forward_size:
  assumes "ForwardToServerReq_ok rt m"
  shows "length (ForwardToServerReq_serialize rt m) \<le> length (ForwardToServerReq_payload m) + 35"
proof -
  have "LengthDelimitedSize rt (length (ForwardToServerReq_payload m)) \<le> length (ForwardToServerReq_payload m) + 5"
    using assms by (intro block_bound) (simp add: ForwardToServerReq_ok_def)
  then show ?thesis
    using assms uint32_bound [of "ForwardToServerReq_target_service_id m"]
      int32_bound [of "ForwardToServerReq_target_instance_id m"]
      uint32_bound [of "ForwardToServerReq_source_service_id m"]
      uint32_bound [of "ForwardToServerReq_source_instance_id m"]
    by (simp add: ForwardToServerReq_size [symmetric] ForwardToServerReq_ByteSizeLong_def ForwardToServerReq_ok_def)
qed

lemma forward_string:
  assumes "ForwardToServerReq_ok rt m" and "length (ForwardToServerReq_payload m) + 50 \<le> 2 ^ 20"
  shows "SerializeToString_ForwardToServerReq rt m = Some (ForwardToServerReq_serialize rt m)"
    and "length (ForwardToServerReq_serialize rt m) + kBackendFrameHeaderSize \<le> 2 ^ 20"
  using forward_size [OF assms(1)] assms(2)
  by (simp_all add: SerializeToString_ForwardToServerReq_def serialize_to_string_def ForwardToServerReq_size
      kBackendFrameHeaderSize_def)

end

lemma forward_req_ok:
  "length inner + 50 \<le> 2 ^ 20 \<Longrightarrow> ForwardToServerReq_ok r (forward_req c target inner)"
  by (simp add: forward_req_def ForwardToServerReq_ok_def ForwardToServerReq_default_def)

lemma sendServerPayload_write:
  assumes "pb_laws (rt env)" and "m_transport s = Some t" and "length pl + 65 \<le> 2 ^ 20"
  shows "\<exists>bs r. sendServerPayload env target mid ser sid pl s = (0 \<le> r, emit [YWrite t bs r] s) \<and>
    r = write_result env (io s) bs \<and>
    bs = encodeBackendFrame kBackendCmdControl ForwardToServerReq_Id ser 0
      (ForwardToServerReq_serialize (rt env) (forward_req (m_config s) target
         (encodeBackendFrame kBackendCmdBusiness mid ser sid pl)))"
proof -
  let ?inner = "encodeBackendFrame kBackendCmdBusiness mid ser sid pl"
  have len: "length ?inner + 50 \<le> 2 ^ 20" using assms(3) by (simp add: length_encode)
  have "SerializeToString_ForwardToServerReq (rt env) (forward_req (m_config s) target ?inner) =
      Some (ForwardToServerReq_serialize (rt env) (forward_req (m_config s) target ?inner))"
    using pb_laws.forward_string(1) [OF assms(1) forward_req_ok [OF len]] len
    by (simp add: forward_req_def)
  with assms(2) show ?thesis
    unfolding sendServerPayload_def Let_def forward_req_def [symmetric]
    by (simp add: sendFrame_def Let_def)
qed

text \<open>
  The gateway's forwarding of a frame (\<open>handle_server_forward\<close> of \<open>internal_listener.rs\<close>):
  \<open>registered\<close> is the service the sending connection registered as, \<open>find_by_instance\<close> and
  \<open>select_lowest\<close> ask the registry, \<open>opened\<close> tells whether the target's writer accepts. The
  result is an error reply's code and text, or the target and the bytes for it.
\<close>

definition select_target :: "(u8 \<Rightarrow> u32 \<Rightarrow> bool) \<Rightarrow> (u8 \<Rightarrow> u32 option) \<Rightarrow> u8 \<Rightarrow> i32 \<Rightarrow> (u32 \<times> string) + u32" where
  "select_target find_by_instance select_lowest svc ins =
     (if sint ins \<ge> 0 then
        if find_by_instance svc ins then Inr ins else Inl (2, ''target service instance unreachable'')
      else case select_lowest svc of Some i \<Rightarrow> Inr i | None \<Rightarrow> Inl (1, ''no available service''))"

definition handle_server_forward :: "pb_rt \<Rightarrow> (u32 \<times> u32) option \<Rightarrow> (u8 \<Rightarrow> u32 \<Rightarrow> bool) \<Rightarrow> (u8 \<Rightarrow> u32 option) \<Rightarrow>
    (u8 \<Rightarrow> u32 \<Rightarrow> bool) \<Rightarrow> ForwardToServerReq \<Rightarrow> (u32 \<times> string) + (u8 \<times> u32 \<times> bytes)" where
  "handle_server_forward r registered find_by_instance select_lowest opened req =
     (case registered of None \<Rightarrow> Inl (3, ''requester service not registered'')
      | Some (source_service_id, source_instance_id) \<Rightarrow>
          let target_service_id = (ucast (ForwardToServerReq_target_service_id req) :: u8)
          in case select_target find_by_instance select_lowest target_service_id
                    (ForwardToServerReq_target_instance_id req) of
            Inl e \<Rightarrow> Inl e
          | Inr instance_id \<Rightarrow>
              let req = req\<lparr>ForwardToServerReq_target_instance_id := instance_id,
                    ForwardToServerReq_source_service_id := source_service_id,
                    ForwardToServerReq_source_instance_id := source_instance_id\<rparr>;
                  data = encodeBackendFrame kBackendCmdControl ForwardToServerReq_Id 0 0
                    (ForwardToServerReq_serialize r req)
              in if opened target_service_id instance_id then Inr (target_service_id, instance_id, data)
                 else Inl (2, ''target service instance unreachable''))"

text \<open>The bytes of one frame at the gateway, as far as the dispatch to that function.\<close>

definition gateway_receive :: "pb_rt \<Rightarrow> (u32 \<times> u32) option \<Rightarrow> (u8 \<Rightarrow> u32 \<Rightarrow> bool) \<Rightarrow> (u8 \<Rightarrow> u32 option) \<Rightarrow>
    (u8 \<Rightarrow> u32 \<Rightarrow> bool) \<Rightarrow> bytes \<Rightarrow> ((u32 \<times> string) + (u8 \<times> u32 \<times> bytes)) option" where
  "gateway_receive r registered find_by_instance select_lowest opened bs =
     (case decodeBackendFrame bs of Inl e \<Rightarrow> None
      | Inr f \<Rightarrow>
          if cmd f \<noteq> kBackendCmdControl \<or> msgId f \<noteq> ForwardToServerReq_Id then None
          else map_option (handle_server_forward r registered find_by_instance select_lowest opened)
                 (ForwardToServerReq_parse r (payload f)))"

text \<open>The frame the gateway passes on.\<close>

definition forwarded :: "pb_rt \<Rightarrow> u32 \<Rightarrow> u32 \<Rightarrow> u32 \<Rightarrow> u32 \<Rightarrow> bytes \<Rightarrow> bytes" where
  "forwarded r svc ins src_svc src_ins inner =
     encodeBackendFrame kBackendCmdControl ForwardToServerReq_Id 0 0
       (ForwardToServerReq_serialize r \<lparr>ForwardToServerReq_target_service_id = svc,
          ForwardToServerReq_target_instance_id = ins, ForwardToServerReq_payload = inner,
          ForwardToServerReq_source_service_id = src_svc,
          ForwardToServerReq_source_instance_id = src_ins, ForwardToServerReq_unknown = []\<rparr>)"

lemma gateway_receive_forward:
  assumes "pb_laws r" and "length inner + 50 \<le> 2 ^ 20"
    and "select_target findi sel (ucast (serviceId target)) (instanceId target) = Inr ins"
    and "opened (ucast (serviceId target)) ins"
  shows "gateway_receive r (Some (src_svc, src_ins)) findi sel opened
      (encodeBackendFrame kBackendCmdControl ForwardToServerReq_Id ser 0
        (ForwardToServerReq_serialize r (forward_req c target inner)))
    = Some (Inr (ucast (serviceId target), ins, forwarded r (serviceId target) ins src_svc src_ins inner))"
proof -
  let ?m = "forward_req c target inner"
  note ok = forward_req_ok [OF assms(2), of r c target]
  have "length (ForwardToServerReq_serialize r ?m) + kBackendFrameHeaderSize \<le> 2 ^ 20"
    using assms(2) by (intro pb_laws.forward_string(2) [OF assms(1) ok]) (simp add: forward_req_def)
  note d = decode_encoded [OF this, where rest = "[]", simplified]
  have "gateway_receive r (Some (src_svc, src_ins)) findi sel opened
      (encodeBackendFrame kBackendCmdControl ForwardToServerReq_Id ser 0 (ForwardToServerReq_serialize r ?m))
    = Some (handle_server_forward r (Some (src_svc, src_ins)) findi sel opened ?m)"
    using pb_laws.ForwardToServerReq_roundtrip [OF assms(1) ok] by (simp add: gateway_receive_def d)
  then show ?thesis
    using assms(3,4) by (simp add: handle_server_forward_def forward_req_def forwarded_def
        ForwardToServerReq_default_def)
qed

text \<open>The network layer strips the length field before a packet reaches the client.\<close>

lemma packet_encoded:
  assumes "length pl + 15 < 2 ^ 31"
  shows "handleNetworkEvent env dl (Ev_Packet (drop 4 (encodeBackendFrame c m ser sid pl))) s =
    processFrame env dl \<lparr>cmd = c, msgId = m, serial = ser, sessionId = sid, payload = pl\<rparr> s"
proof -
  have "drop 4 (encodeBackendFrame c m ser sid pl) = [c] @ be16 m @ be32 ser @ be32 sid @ pl"
    using assms by (simp add: encodeBackendFrame_bytes frame_fits_def frame_bytes_def
        kBackendFrameHeaderSize_def be32_def)
  then show ?thesis by (simp only: handleNetworkEvent.simps onRecvFrame_def decode_body_bytes sum.case)
qed

lemma packet_forwarded:
  assumes "pb_laws (rt env)" and "length inner + 50 \<le> 2 ^ 20" and "m_state s = Registered"
    and "decodeBackendFrame inner = Inr fr"
  shows "handleNetworkEvent env dl (Ev_Packet (drop 4 (forwarded (rt env) svc ins src_svc src_ins inner))) s =
    (if 0 < sint (serial fr) then snd (rpcResolve fr s)
     else processServerFrame env dl \<lparr>serviceId = src_svc, instanceId = src_ins\<rparr> fr s)"
proof -
  let ?m = "\<lparr>ForwardToServerReq_target_service_id = svc, ForwardToServerReq_target_instance_id = ins,
     ForwardToServerReq_payload = inner, ForwardToServerReq_source_service_id = src_svc,
     ForwardToServerReq_source_instance_id = src_ins, ForwardToServerReq_unknown = []\<rparr>"
  have ok: "ForwardToServerReq_ok (rt env) ?m" using assms(2) by (simp add: ForwardToServerReq_ok_def)
  have "length (ForwardToServerReq_serialize (rt env) ?m) + 15 < 2 ^ 31"
    using pb_laws.forward_string(2) [OF assms(1) ok] assms(2) by (simp add: kBackendFrameHeaderSize_def)
  note packet = packet_encoded [OF this]
  show ?thesis
    unfolding forwarded_def packet
    using assms(3,4) pb_laws.ForwardToServerReq_roundtrip [OF assms(1) ok]
    by (simp add: processFrame_def onGatewayFrame_def handleControlFrame_def
        ForwardToServerReq_Id_def SessionOnlinePush_Id_def SessionOfflinePush_Id_def routeForwardToServer_def)
qed

text \<open>The processing of a request of another server: one write, addressed back to its source.\<close>

lemma processServerFrame_reply:
  assumes "pb_laws (rt env)" and "serial fr \<noteq> 0" and "onServerRequest d src fr s = (resp, s')"
    and "or_else resp (commonError env ''request failed'') = Some r" and "m_transport s' = Some t"
    and "length (sm_payload r) + 65 \<le> 2 ^ 20"
  shows "\<exists>bs w. processServerFrame env (Some d) src fr s = emit [YWrite t bs w] s' \<and>
    bs = encodeBackendFrame kBackendCmdControl ForwardToServerReq_Id (- serial fr) 0
      (ForwardToServerReq_serialize (rt env) (forward_req (m_config s') src
         (encodeBackendFrame kBackendCmdBusiness (sm_msgId r) (- serial fr) 0 (sm_payload r))))"
  using sendServerPayload_write [OF assms(1,5,6), of src "sm_msgId r" "- serial fr" 0] assms(2,3,4)
  by (auto simp: processServerFrame_def)

lemma requestServerPayload_write:
  assumes "pb_laws (rt env)" and "m_transport s = Some t" and "length pl + 65 \<le> 2 ^ 20"
    and "requestServerPayload env target mid pl cb tmo s = (i, s')" and "i \<noteq> - 1"
    and "i = m_nextRequestId (m_rpc s)"
  shows "\<exists>bs w. s' = emit [YWrite t bs w] (s\<lparr>m_rpc := addPending i cb tmo (snd (nextRequestId (m_rpc s)))\<rparr>) \<and>
    bs = encodeBackendFrame kBackendCmdControl ForwardToServerReq_Id (- i) 0
      (ForwardToServerReq_serialize (rt env) (forward_req (m_config s) target
         (encodeBackendFrame kBackendCmdBusiness mid (- i) 0 pl)))"
  using sendServerPayload_write [where env = env and t = t and pl = pl and target = target and mid = mid
      and sid = 0 and ser = "- i" and s = "s\<lparr>m_rpc := addPending i cb tmo (snd (nextRequestId (m_rpc s)))\<rparr>"]
    assms
  by (auto simp: requestServerPayload_def nextRequestId_def Let_def split: if_splits)

lemma sint_uminus_pos:
  fixes i :: i32
  assumes "0 < sint i" shows "\<not> 0 < sint (- i)" and "- i \<noteq> 0"
proof -
  have "sint (- i) = - sint i"
    using assms sint_i32_le [of i] by (simp add: sint_word_ariths signed_take_bit_int_eq_self)
  then show "\<not> 0 < sint (- i)" using assms by simp
  show "- i \<noteq> 0" using assms by auto
qed

text \<open>A forwarded request is served and answered; a forwarded response completes its request.\<close>

lemma forwarded_request_served:
  assumes "pb_laws (rt env)" and "0 < sint i" and "length pl + 65 \<le> 2 ^ 20"
    and "length (sm_payload resp) + 65 \<le> 2 ^ 20" and "m_state b = Registered" and "m_transport b1 = Some tb"
    and "onServerRequest d \<lparr>serviceId = svcA, instanceId = insA\<rparr>
          \<lparr>cmd = kBackendCmdBusiness, msgId = mid, serial = - i, sessionId = 0, payload = pl\<rparr> b = (Some resp, b1)"
  shows "\<exists>bs w. handleNetworkEvent env (Some d) (Ev_Packet (drop 4 (forwarded (rt env) svc ins svcA insA
      (encodeBackendFrame kBackendCmdBusiness mid (- i) 0 pl)))) b = emit [YWrite tb bs w] b1 \<and>
    bs = encodeBackendFrame kBackendCmdControl ForwardToServerReq_Id i 0
      (ForwardToServerReq_serialize (rt env) (forward_req (m_config b1) \<lparr>serviceId = svcA, instanceId = insA\<rparr>
        (encodeBackendFrame kBackendCmdBusiness (sm_msgId resp) i 0 (sm_payload resp))))"
proof -
  let ?in = "encodeBackendFrame kBackendCmdBusiness mid (- i) 0 pl"
  let ?fr = "\<lparr>cmd = kBackendCmdBusiness, msgId = mid, serial = - i, sessionId = 0, payload = pl\<rparr>"
  note neg = sint_uminus_pos [OF assms(2)]
  have "i \<noteq> 0" using assms(2) by auto
  have len: "length ?in + 50 \<le> 2 ^ 20" using assms(3) by (simp add: length_encode)
  have dec: "decodeBackendFrame ?in = Inr ?fr"
    using decode_encoded [of pl _ _ _ _ "[]"] assms(3) by (simp add: kBackendFrameHeaderSize_def)
  show ?thesis
    using processServerFrame_reply [OF assms(1) _ assms(7) _ assms(6,4)] neg \<open>i \<noteq> 0\<close>
      packet_forwarded [OF assms(1) len assms(5) dec]
    by (simp add: or_else_def)
qed

lemma forwarded_response_resolves:
  assumes "pb_laws (rt env)" and "0 < sint i" and "length pl + 65 \<le> 2 ^ 20"
    and "m_state a = Registered" and "umap_find (m_pending (m_rpc a)) i = Some req"
  shows "handleNetworkEvent env dl (Ev_Packet (drop 4 (forwarded (rt env) svc ins svcB insB
      (encodeBackendFrame kBackendCmdBusiness mid i 0 pl)))) a =
    emit [RpcCalled (Call (callback req) (Some \<lparr>cmd = kBackendCmdBusiness, msgId = mid, serial = i,
            sessionId = 0, payload = pl\<rparr>) '''')] (a\<lparr>m_rpc := remove i (m_rpc a)\<rparr>)"
proof -
  let ?in = "encodeBackendFrame kBackendCmdBusiness mid i 0 pl"
  have len: "length ?in + 50 \<le> 2 ^ 20" using assms(3) by (simp add: length_encode)
  have "decodeBackendFrame ?in = Inr \<lparr>cmd = kBackendCmdBusiness, msgId = mid, serial = i, sessionId = 0, payload = pl\<rparr>"
    using decode_encoded [of pl _ _ _ _ "[]"] assms(3) by (simp add: kBackendFrameHeaderSize_def)
  from packet_forwarded [OF assms(1) len assms(4) this] assms(2,5) show ?thesis
    by (simp add: rpcResolve_def resolve_def invoke_def remove_def)
qed

text \<open>C7. A request between servers and its response meet, end to end. The bytes the
  requester writes, passed through the gateway, reach the target as a request of the
  requester's registered service and instance; the target's one written answer, passed back
  through the gateway, completes the request: if it is still pending then, its callback is
  called with the response's message id and payload under the request's id, and the entry
  is gone. The target's callback sees the serial \<open>-id\<close> and session 0.\<close>
theorem server_request_end_to_end:
  assumes "pb_laws (rt envA)" and "rt envB = rt envA"
    and "m_transport a = Some ta" and "0 < sint (m_nextRequestId (m_rpc a))"
    and "requestServerPayload envA target mid pl cb tmo a = (i, a1)" and "i = m_nextRequestId (m_rpc a)"
    and "length pl + 65 \<le> 2 ^ 20" and "length (sm_payload resp) + 65 \<le> 2 ^ 20"
    and "select_target findi sel (ucast (serviceId target)) (instanceId target) = Inr insB"
    and "opened (ucast (serviceId target)) insB"
    and "select_target findi sel (ucast svcA) insA = Inr insA" and "opened (ucast svcA) insA"
    and "m_state b = Registered" and "m_transport b1 = Some tb"
    and "onServerRequest d \<lparr>serviceId = svcA, instanceId = insA\<rparr>
          \<lparr>cmd = kBackendCmdBusiness, msgId = mid, serial = - i, sessionId = 0, payload = pl\<rparr> b = (Some resp, b1)"
    and "m_state a2 = Registered" and "umap_find (m_pending (m_rpc a2)) i = Some req"
  shows "\<exists>bsA wA outA bsB wB outB.
    io a1 = io a @ [YWrite ta bsA wA] \<and>
    gateway_receive (rt envA) (Some (svcA, insA)) findi sel opened bsA
      = Some (Inr (ucast (serviceId target), insB, outA)) \<and>
    handleNetworkEvent envB (Some d) (Ev_Packet (drop 4 outA)) b = emit [YWrite tb bsB wB] b1 \<and>
    gateway_receive (rt envA) (Some (svcB, insB)) findi sel opened bsB = Some (Inr (ucast svcA, insA, outB)) \<and>
    handleNetworkEvent envA dlA (Ev_Packet (drop 4 outB)) a2 =
      emit [RpcCalled (Call (callback req)
          (Some \<lparr>cmd = kBackendCmdBusiness, msgId = sm_msgId resp, serial = i, sessionId = 0,
                 payload = sm_payload resp\<rparr>) '''')] (a2\<lparr>m_rpc := remove i (m_rpc a2)\<rparr>)"
proof -
  let ?src = "\<lparr>serviceId = svcA, instanceId = insA\<rparr>"
  let ?inA = "encodeBackendFrame kBackendCmdBusiness mid (- i) 0 pl"
  let ?inB = "encodeBackendFrame kBackendCmdBusiness (sm_msgId resp) i 0 (sm_payload resp)"
  have i: "0 < sint i" using assms(4,6) by simp
  then have "i \<noteq> - 1" by auto
  with requestServerPayload_write [OF assms(1,3,7,5) _ assms(6)] obtain bsA wA where
    A: "io a1 = io a @ [YWrite ta bsA wA]"
      "bsA = encodeBackendFrame kBackendCmdControl ForwardToServerReq_Id (- i) 0
        (ForwardToServerReq_serialize (rt envA) (forward_req (m_config a) target ?inA))"
    by (auto simp: frame_simps)
  have lenA: "length ?inA + 50 \<le> 2 ^ 20" and lenB: "length ?inB + 50 \<le> 2 ^ 20"
    using assms(7,8) by (simp_all add: length_encode)
  have lawsB: "pb_laws (rt envB)" using assms(1,2) by simp
  obtain bsB wB where B: "handleNetworkEvent envB (Some d)
      (Ev_Packet (drop 4 (forwarded (rt envB) (serviceId target) insB svcA insA ?inA))) b = emit [YWrite tb bsB wB] b1"
    "bsB = encodeBackendFrame kBackendCmdControl ForwardToServerReq_Id i 0
        (ForwardToServerReq_serialize (rt envB) (forward_req (m_config b1) ?src ?inB))"
    using forwarded_request_served [OF lawsB i assms(7,8,13,14,15)] by blast
  have gA: "gateway_receive (rt envA) (Some (svcA, insA)) findi sel opened bsA
      = Some (Inr (ucast (serviceId target), insB, forwarded (rt envA) (serviceId target) insB svcA insA ?inA))"
    unfolding A(2) by (rule gateway_receive_forward [OF assms(1) lenA]) (rule assms)+
  have gB: "gateway_receive (rt envA) (Some (svcB, insB)) findi sel opened bsB
      = Some (Inr (ucast svcA, insA, forwarded (rt envA) svcA insA svcB insB ?inB))"
    unfolding B(2) assms(2) using gateway_receive_forward [OF assms(1) lenB, of findi sel ?src insA opened]
      assms(11,12) by simp
  from A(1) gA B(1) [unfolded assms(2)] gB
    forwarded_response_resolves [OF assms(1) i assms(8,16,17), of dlA svcA insA svcB insB "sm_msgId resp"]
  show ?thesis by blast
qed

lemma wire_env_simps [simp]: "rt wire_env = wire_rt" "pb_laws wire_rt" "VerifyUTF8 wire_rt []"
  by (simp_all add: wire_env_def wire.pb_laws_axioms) (simp add: wire_rt_def)

theorem server_request_end_to_end_witness:
  "\<exists>(bs :: bytes) w out. handleNetworkEvent wire_env None (Ev_Packet out)
      ((registered_client 1 [] :: nat client)\<lparr>m_rpc := addPending 1 (Some (RpcCb 5 (Some 9))) f32_zero init_rpc\<rparr>) =
    emit [RpcCalled (Call (RpcCb 5 (Some 9))
        (Some \<lparr>cmd = 101, msgId = 5, serial = 1, sessionId = 0, payload = [7]\<rparr>) '''')]
      ((registered_client 1 [])\<lparr>m_rpc := init_rpc\<rparr>)"
proof -
  let ?a = "registered_client 1 [] :: nat client"
  let ?cb = "Some (RpcCb 5 (Some (9 :: nat)))"
  let ?a2 = "?a\<lparr>m_rpc := addPending 1 ?cb f32_zero init_rpc\<rparr>"
  let ?r = "requestServerPayload wire_env (anyInstance 1) 60000 [1] ?cb f32_zero ?a"
  let ?d = "default_delegate\<lparr>onServerRequest := (\<lambda>_ _ s. (Some \<lparr>sm_msgId = 5, sm_payload = [7]\<rparr>, s))\<rparr>
    :: nat client delegate"
  have w: "write_result wire_env acts bs \<ge> 0" for acts :: "nat action list" and bs
    by (simp add: wire_env_def)
  have "fst ?r = 1"
    using sendServerPayload_write [where env = "wire_env :: nat env" and t = 1 and pl = "[1]" and target = "anyInstance 1"
        and mid = 60000 and sid = 0 and ser = "- 1"
        and s = "?a\<lparr>m_rpc := addPending 1 ?cb f32_zero (snd (nextRequestId init_rpc))\<rparr>"] w
    by (auto simp: requestServerPayload_def nextRequestId_def Let_def)
  then have req: "?r = (1, snd ?r)" by (metis prod.collapse)
  have "\<exists>bsA wA outA bsB wB outB.
    io (snd ?r) = io ?a @ [YWrite 1 bsA wA] \<and>
    gateway_receive (rt (wire_env :: nat env)) (Some (0, 3)) (\<lambda>_ _. True) (\<lambda>_. Some 4) (\<lambda>_ _. True) bsA
      = Some (Inr (ucast (serviceId (anyInstance 1)), 4, outA)) \<and>
    handleNetworkEvent wire_env (Some ?d) (Ev_Packet (drop 4 outA)) ?a = emit [YWrite 1 bsB wB] ?a \<and>
    gateway_receive (rt (wire_env :: nat env)) (Some (1, 4)) (\<lambda>_ _. True) (\<lambda>_. Some 4) (\<lambda>_ _. True) bsB
      = Some (Inr (ucast (0 :: u32), 3, outB)) \<and>
    handleNetworkEvent wire_env None (Ev_Packet (drop 4 outB)) ?a2 =
      emit [RpcCalled (Call (callback \<lparr>callback = RpcCb 5 (Some 9), timeout = f32_zero\<rparr>)
          (Some \<lparr>cmd = kBackendCmdBusiness, msgId = sm_msgId \<lparr>sm_msgId = 5, sm_payload = [7]\<rparr>, serial = 1,
                 sessionId = 0, payload = sm_payload \<lparr>sm_msgId = 5, sm_payload = [7]\<rparr>\<rparr>) '''')]
        (?a2\<lparr>m_rpc := remove 1 (m_rpc ?a2)\<rparr>)"
    by (rule server_request_end_to_end [where ta = 1 and tb = 1 and d = ?d and b = ?a, OF _ _ _ _ req])
       (simp_all add: select_target_def anyInstance_def addPending_find)
  then show ?thesis
    by (auto simp: cmd_consts addPending_def remove_def init_rpc_def)
qed

subsection \<open>Requests that cannot be sent\<close>

lemma umap_erase_assign: "umap_find m k = None \<Longrightarrow> umap_erase k (umap_assign k v m) = m"
  by (induction m) (auto simp: AList.delete_eq split: if_splits)

text \<open>A request to a server either leaves its callback registered under a fresh positive
  id, with one write whose result is not an error, or returns \<open>-1\<close> and leaves the pending
  table as it was: a request that was not sent can never time out or be answered.\<close>
theorem request_registered_or_not:
  assumes "rpc_ok (m_rpc s)" and "m_nextRequestId (m_rpc s) \<notin> pending_ids (m_rpc s)"
    and "requestServerPayload env target mid pl (Some cb) tmo s = (i, s')"
  shows "(i = - 1 \<longrightarrow> m_pending (m_rpc s') = m_pending (m_rpc s))
    \<and> (i \<noteq> - 1 \<longrightarrow> 0 < sint i \<and> umap_find (m_pending (m_rpc s)) i = None
         \<and> umap_find (m_pending (m_rpc s')) = (umap_find (m_pending (m_rpc s)))(i \<mapsto> \<lparr>callback = cb, timeout = tmo\<rparr>)
         \<and> (\<exists>t bs r. io s' = io s @ [YWrite t bs r] \<and> 0 \<le> r))"
proof -
  let ?i = "m_nextRequestId (m_rpc s)"
  obtain q where q: "nextRequestId (m_rpc s) = (?i, q)" "m_pending q = m_pending (m_rpc s)"
    by (simp add: nextRequestId_def Let_def)
  let ?s = "s\<lparr>m_rpc := addPending ?i (Some cb) tmo q\<rparr>"
  let ?sent = "sendServerPayload env target mid (- ?i) 0 pl ?s"
  have pos: "0 < sint ?i" using assms(1) by (simp add: rpc_ok_def)
  then have ne: "?i \<noteq> - 1" by auto
  have absent: "umap_find (m_pending (m_rpc s)) ?i = None"
    using assms(2) by (simp add: map_of_eq_None_iff)
  obtain acts where acts: "snd ?sent = emit acts ?s" using sendServerPayload_emit by blast
  have res: "(i, s') = (if \<not> fst ?sent then (- 1, (snd ?sent)\<lparr>m_rpc := remove ?i (m_rpc (snd ?sent))\<rparr>)
      else (?i, snd ?sent))"
    using assms(3) by (auto simp: requestServerPayload_def q Let_def case_prod_beta split: if_splits)
  have wr: "\<exists>t bs r. io (snd ?sent) = io s @ [YWrite t bs r] \<and> 0 \<le> r" if "fst ?sent"
    using that by (auto simp: sendServerPayload_def sendFrame_def Let_def emit_def split: option.splits)
  show ?thesis
  proof (cases "fst ?sent")
    case True
    with res wr pos absent ne acts show ?thesis
      by (auto simp: frame_simps addPending_find q split: if_splits)
  next
    case False
    with res ne acts show ?thesis
      by (simp add: frame_simps remove_def addPending_def umap_erase_assign [OF absent] q)
  qed
qed

theorem request_registered_or_not_witness:
  "m_pending (m_rpc (snd (requestServerPayload wire_env (anyInstance 1) 60000 [1] (Some (RpcCb 5 (Some (9 :: nat))))
      f32_zero (init_client default_BackendConfig)))) = []"
proof -
  let ?s = "init_client default_BackendConfig :: nat client"
  let ?r = "requestServerPayload wire_env (anyInstance 1) 60000 [1] (Some (RpcCb 5 (Some (9 :: nat)))) f32_zero ?s"
  have s: "m_rpc ?s = init_rpc" "m_transport ?s = None" by (simp_all add: init_client_def)
  have "fst ?r = - 1"
    by (auto simp: requestServerPayload_def nextRequestId_def sendServerPayload_def sendFrame_def s Let_def
        split: option.splits)
  moreover have "(fst ?r = - 1 \<longrightarrow> m_pending (m_rpc (snd ?r)) = m_pending (m_rpc ?s))
    \<and> (fst ?r \<noteq> - 1 \<longrightarrow> 0 < sint (fst ?r) \<and> umap_find (m_pending (m_rpc ?s)) (fst ?r) = None
         \<and> umap_find (m_pending (m_rpc (snd ?r))) =
             (umap_find (m_pending (m_rpc ?s)))(fst ?r \<mapsto> \<lparr>callback = RpcCb 5 (Some 9), timeout = f32_zero\<rparr>)
         \<and> (\<exists>t bs r. io (snd ?r) = io ?s @ [YWrite t bs r] \<and> 0 \<le> r))"
    by (rule request_registered_or_not) (simp_all add: s rpc_ok_init del: init_rpc_simps, simp add: s)
  ultimately show ?thesis by (simp add: s)
qed

subsection \<open>Heartbeat and registration\<close>

text \<open>A ping of the gateway is answered by exactly one control frame to the same session
  that carries the ping's nonce, and changes nothing else: for every nonce, under the laws of
  the protobuf runtime.\<close>
theorem ping_pong:
  assumes "pb_laws (rt env)" and "m_state s = Registered" and "m_transport s = Some t"
    and "unmatched \<lparr>cmd = kBackendCmdControl, msgId = ServerPingReq_Id, serial = ser, sessionId = sid,
           payload = ServerPingReq_serialize (rt env) ping\<rparr> s"
    and "ServerPingReq_ok (rt env) ping"
  shows "\<exists>p. wrote_frame t \<lparr>cmd = kBackendCmdControl, msgId = ServerPongResp_Id, serial = 0, sessionId = sid,
             payload = p\<rparr> s
      (processFrame env dl \<lparr>cmd = kBackendCmdControl, msgId = ServerPingReq_Id, serial = ser, sessionId = sid,
           payload = ServerPingReq_serialize (rt env) ping\<rparr> s) \<and>
    ServerPongResp_parse (rt env) p = Some \<lparr>ServerPongResp_nonce = ServerPingReq_nonce ping, ServerPongResp_unknown = []\<rparr>"
proof -
  let ?pong = "\<lparr>ServerPongResp_nonce = ServerPingReq_nonce ping, ServerPongResp_unknown = []\<rparr>"
  let ?p = "ServerPongResp_serialize (rt env) ?pong"
  have pong: "ServerPongResp_ok (rt env) ?pong" by (simp add: ServerPongResp_ok_def)
  have size: "ServerPongResp_ByteSizeLong (rt env) ?pong \<le> 11"
    using pb_laws.uint64_bound [OF assms(1)] by (simp add: ServerPongResp_ByteSizeLong_def)
  then have len: "length ?p + kBackendFrameHeaderSize \<le> 2 ^ 20"
    by (simp add: pb_laws.ServerPongResp_size [OF assms(1)] kBackendFrameHeaderSize_def)
  have ser: "SerializeToString_ServerPongResp (rt env) ?pong = Some ?p"
    using size by (simp add: SerializeToString_ServerPongResp_def serialize_to_string_def)
  have def: "ServerPongResp_default\<lparr>ServerPongResp_nonce := n\<rparr> = \<lparr>ServerPongResp_nonce = n, ServerPongResp_unknown = []\<rparr>" for n
    by (simp add: ServerPongResp_default_def)
  have "wrote_frame t \<lparr>cmd = kBackendCmdControl, msgId = ServerPongResp_Id, serial = 0, sessionId = sid,
      payload = ?p\<rparr> s
    (processFrame env dl \<lparr>cmd = kBackendCmdControl, msgId = ServerPingReq_Id, serial = ser, sessionId = sid,
           payload = ServerPingReq_serialize (rt env) ping\<rparr> s)"
    using sendFrame_wrote [OF assms(3) len] assms(2,4)
      pb_laws.ServerPingReq_roundtrip [OF assms(1,5)] ser
    by (cases "0 < sint ser")
      (simp_all add: unmatched_def rpcResolve_none processFrame_def onGatewayFrame_def handleControlFrame_def
        sendMessage_def def SessionOnlinePush_Id_def SessionOfflinePush_Id_def ForwardToServerReq_Id_def ServerPingReq_Id_def)
  with pb_laws.ServerPongResp_roundtrip [OF assms(1) pong] show ?thesis by blast
qed

theorem ping_pong_witness:
  "\<exists>p. wrote_frame 0 \<lparr>cmd = 102, msgId = 115, serial = 0, sessionId = 0, payload = p\<rparr>
      (registered_client 0 [] :: nat client)
      (processFrame wire_env None \<lparr>cmd = 102, msgId = 114, serial = 0, sessionId = 0,
         payload = ServerPingReq_serialize wire_rt \<lparr>ServerPingReq_nonce = 77, ServerPingReq_unknown = []\<rparr>\<rparr>
         (registered_client 0 [])) \<and>
    ServerPongResp_parse wire_rt p = Some \<lparr>ServerPongResp_nonce = 77, ServerPongResp_unknown = []\<rparr>"
  using ping_pong [where env = "wire_env :: nat env" and s = "registered_client 0 [] :: nat client" and t = 0
      and dl = None and ser = 0 and sid = 0 and ping = "\<lparr>ServerPingReq_nonce = 77, ServerPingReq_unknown = []\<rparr>"]
  by (simp add: unmatched_def ServerPingReq_ok_def ServerPingReq_Id_def ServerPongResp_Id_def cmd_consts)

text \<open>A frame that is not the registration response is ignored until the client is registered.\<close>

lemma processFrame_unregistered:
  assumes "m_state s \<noteq> Registered" and "cmd fr \<noteq> kBackendCmdControl \<or> msgId fr \<noteq> ServerRegResp_Id"
  shows "processFrame env dl fr s = s"
  using assms by (simp add: processFrame_def)

lemma fold_processFrame_unregistered:
  assumes "m_state s \<noteq> Registered"
    and "\<forall>fr \<in> set frs. cmd fr \<noteq> kBackendCmdControl \<or> msgId fr \<noteq> ServerRegResp_Id"
  shows "fold (processFrame env dl) frs s = s"
  using assms(2) by (induction frs) (simp_all add: processFrame_unregistered assms(1))

definition register_req :: "BackendConfig \<Rightarrow> ServerRegReq" where
  "register_req c = \<lparr>ServerRegReq_service_id = cfg_serviceId c, ServerRegReq_instance_id = cfg_instanceId c,
     ServerRegReq_load_score = min 100 (cfg_initialLoadScore c),
     ServerRegReq_accepting_bindings = cfg_initialAcceptingBindings c,
     ServerRegReq_load_message = cfg_initialLoadMessage c, ServerRegReq_unknown = []\<rparr>"

lemma register_req_size:
  assumes "pb_laws r" and "length (cfg_initialLoadMessage c) \<le> 1000"
  shows "ServerRegReq_ByteSizeLong r (register_req c) \<le> 1030"
proof -
  have "LengthDelimitedSize r (length (cfg_initialLoadMessage c)) \<le> length (cfg_initialLoadMessage c) + 5"
    using assms(2) by (intro pb_laws.block_bound [OF assms(1)]) simp
  then show ?thesis
    using assms(2) pb_laws.uint32_bound [OF assms(1), of "cfg_serviceId c"]
      pb_laws.uint32_bound [OF assms(1), of "cfg_instanceId c"]
      pb_laws.uint32_bound [OF assms(1), of "min 100 (cfg_initialLoadScore c)"]
    by (simp add: register_req_def ServerRegReq_ByteSizeLong_def)
qed

lemma sendRegisterReq_wrote:
  assumes "pb_laws (rt env)" and "m_transport s = Some t" and "length (cfg_initialLoadMessage (m_config s)) \<le> 1000"
  shows "wrote_frame t \<lparr>cmd = kBackendCmdControl, msgId = ServerRegReq_Id, serial = - 1, sessionId = 0,
      payload = ServerRegReq_serialize (rt env) (register_req (m_config s))\<rparr> s (sendRegisterReq env s)"
proof -
  let ?m = "register_req (m_config s)"
  note size = register_req_size [OF assms(1,3)]
  have len: "length (ServerRegReq_serialize (rt env) ?m) + kBackendFrameHeaderSize \<le> 2 ^ 20"
    using size by (simp add: pb_laws.ServerRegReq_size [OF assms(1)] kBackendFrameHeaderSize_def)
  have req: "ServerRegReq_default\<lparr>ServerRegReq_service_id := cfg_serviceId (m_config s),
      ServerRegReq_instance_id := cfg_instanceId (m_config s),
      ServerRegReq_load_score := (if cfg_initialLoadScore (m_config s) > 100 then 100 else cfg_initialLoadScore (m_config s)),
      ServerRegReq_accepting_bindings := cfg_initialAcceptingBindings (m_config s),
      ServerRegReq_load_message := cfg_initialLoadMessage (m_config s)\<rparr> = ?m"
    by (auto simp: ServerRegReq_default_def register_req_def min_def intro: antisym less_imp_le)
  have ser: "SerializeToString_ServerRegReq (rt env) ?m = Some (ServerRegReq_serialize (rt env) ?m)"
    using size by (simp add: SerializeToString_ServerRegReq_def serialize_to_string_def)
  show ?thesis
    using sendFrame_wrote [OF assms(2) len]
    unfolding sendRegisterReq_def Let_def req ser option.case kRegisterSerial_def by blast
qed

text \<open>C29. The registration handshake. A client that starts and connects writes, before
  anything else, exactly one frame: the registration request, serial \<open>-1\<close>, which the gateway
  parses back to the configured service, instance, capacity and message, with the load score
  cut to 100. Any frames that arrive before the registration response change nothing. A
  response with code 0 makes the client registered; any other code, or a response that
  cannot be parsed, closes the transport and ends the client.\<close>
theorem handshake:
  assumes "pb_laws (rt env)"
    and "length (cfg_initialLoadMessage (m_config s)) \<le> 1000"
    and "VerifyUTF8 (rt env) (cfg_initialLoadMessage (m_config s))"
    and "s1 = start now s" and "s2 = handleNetworkEvent env dl (Ev_Open 0 t) s1"
    and "\<forall>fr \<in> set early. cmd fr \<noteq> kBackendCmdControl \<or> msgId fr \<noteq> ServerRegResp_Id"
    and "cmd fr = kBackendCmdControl" and "msgId fr = ServerRegResp_Id"
    and "s3 = processFrame env dl fr (fold (processFrame env dl) early s2)"
  shows "(\<exists>bs w p. io s2 = io s1 @ [YWrite t bs w] \<and>
       decodeBackendFrame bs = Inr \<lparr>cmd = kBackendCmdControl, msgId = ServerRegReq_Id, serial = - 1,
         sessionId = 0, payload = p\<rparr> \<and>
       ServerRegReq_parse (rt env) p = Some (register_req (m_config s)))
    \<and> m_state s2 = Connected
    \<and> (case ServerRegResp_parse (rt env) (payload fr) of
         Some resp \<Rightarrow> if ServerRegResp_code resp = 0 then s3 = onGatewayConnected dl (s2\<lparr>m_state := Registered\<rparr>)
                      else s3 = registrationFailed s2
       | None \<Rightarrow> s3 = registrationFailed s2)
    \<and> m_transport (registrationFailed s2) = None \<and> \<not> m_running (registrationFailed s2)"
proof -
  let ?s1 = "s1\<lparr>m_transport := Some t, m_state := Connected\<rparr>"
  have conf: "m_config s1 = m_config s"
    by (simp add: assms(4) start_def startRpcTimer_def openConnection_def frame_simps)
  have s2: "s2 = sendRegisterReq env ?s1" by (simp add: assms(5))
  obtain acts where acts: "s2 = emit acts ?s1" using sendRegisterReq_emit s2 by metis
  have ok: "ServerRegReq_ok (rt env) (register_req (m_config s))"
    using assms(2,3) by (simp add: ServerRegReq_ok_def register_req_def)
  have wrote: "\<exists>bs w p. io s2 = io s1 @ [YWrite t bs w] \<and>
       decodeBackendFrame bs = Inr \<lparr>cmd = kBackendCmdControl, msgId = ServerRegReq_Id, serial = - 1,
         sessionId = 0, payload = p\<rparr> \<and>
       ServerRegReq_parse (rt env) p = Some (register_req (m_config s))"
    using sendRegisterReq_wrote [OF assms(1), of ?s1 t] conf assms(2)
      pb_laws.ServerRegReq_roundtrip [OF assms(1) ok]
    by (auto simp: wrote_frame_def s2 frame_simps)
  have st: "m_state s2 = Connected" "m_transport s2 = Some t" by (simp_all add: acts frame_simps)
  have s3: "s3 = processFrame env dl fr s2"
    using assms(9) fold_processFrame_unregistered [of s2 early env dl] st assms(6) by simp
  have failed: "m_transport (registrationFailed s2) = None \<and> \<not> m_running (registrationFailed s2)"
    using st by (simp add: registrationFailed_def handleConnectionFailure_def closeTransport_def rpcFailAll_def
        case_prod_beta invoke_def frame_simps)
  show ?thesis
    using wrote failed st s3 assms(7,8)
    by (simp add: processFrame_def split: option.split)
qed

theorem handshake_witness:
  "\<exists>bs w p. io (handleNetworkEvent wire_env None (Ev_Open 0 1) (start 0 (init_client default_BackendConfig :: nat client)))
      = io (start 0 (init_client default_BackendConfig :: nat client)) @ [YWrite 1 bs w] \<and>
     decodeBackendFrame bs = Inr \<lparr>cmd = kBackendCmdControl, msgId = ServerRegReq_Id, serial = - 1,
         sessionId = 0, payload = p\<rparr> \<and>
     ServerRegReq_parse (rt (wire_env :: nat env)) p = Some (register_req default_BackendConfig)"
proof -
  let ?s = "init_client default_BackendConfig :: nat client"
  let ?fr = "\<lparr>cmd = kBackendCmdControl, msgId = ServerRegResp_Id, serial = 0, sessionId = 0, payload = []\<rparr>"
  have c: "m_config ?s = default_BackendConfig" by (simp add: init_client_def)
  show ?thesis
    by (rule handshake [THEN conjunct1, of _ ?s _ _ _ _ _ "[]" ?fr, unfolded c])
       (simp_all add: default_BackendConfig_def)
qed

end
