(* ===== verification/FrameStream.thy ===== *)
theory FrameStream
  imports ClientProps
begin

section \<open>Cutting the connection's bytes into frames\<close>

text \<open>
  What stands between the socket and \<open>BackendClient::handleNetworkEvent\<close>: the part of yasio
  (\<open>battle/3rd/yasio/yasio/io_service.cpp\<close>) that collects the bytes of a TCP connection and
  hands over one packet per frame, under the options \<open>openConnection\<close> sets. The receive buffer
  is modelled by its valid bytes: \<open>held\<close> are the first \<open>offset_\<close> bytes of \<open>buffer_\<close>, and the
  bytes a call of \<open>recv\<close> delivers come behind them. The count of all bytes received, a statistic,
  is left out. A C++ \<open>int\<close> computed from the peer's bytes is
  a word read as signed; the host is little-endian.

  \<open>packet_step\<close> is the reference definition: the first frame of a byte string, if it is there.
  One \<open>do_read\<close> does one such step on all bytes not yet delivered (\<open>do_read_step\<close>), so the
  packets are the frames the peer wrote, in order, however the network cuts the bytes.
\<close>

subsection \<open>Channel options\<close>

record uparams =
  max_frame_length :: i32
  length_field_offset :: i32
  length_field_length :: i32
  length_adjustment :: i32
  initial_bytes_to_strip :: i32
  no_bswap :: i32

definition default_uparams :: uparams where
  "default_uparams = \<lparr>max_frame_length = 10 * 1024 * 1024, length_field_offset = - 1,
     length_field_length = 4, length_adjustment = 0, initial_bytes_to_strip = 0, no_bswap = 0\<rparr>"

definition clamp :: "i32 \<Rightarrow> i32 \<Rightarrow> i32 \<Rightarrow> i32" where
  "clamp v lo hi = (if sint v < sint lo then lo else if sint hi < sint v then hi else v)"

datatype unpack_option =
    YOPT_C_UNPACK_PARAMS i32 i32 i32 i32
  | YOPT_C_UNPACK_STRIP i32
  | YOPT_C_UNPACK_NO_BSWAP i32

fun set_option :: "unpack_option \<Rightarrow> uparams \<Rightarrow> uparams" where
  "set_option (YOPT_C_UNPACK_PARAMS maxlen off len adj) up =
     up\<lparr>max_frame_length := maxlen, length_field_offset := off,
        length_field_length := clamp len 1 4, length_adjustment := adj\<rparr>"
| "set_option (YOPT_C_UNPACK_STRIP n) up = up\<lparr>initial_bytes_to_strip := clamp n 0 32\<rparr>"
| "set_option (YOPT_C_UNPACK_NO_BSWAP b) up = up\<lparr>no_bswap := b\<rparr>"

text \<open>The options of \<open>BackendClient::openConnection\<close>, in its order.\<close>

definition client_options :: "unpack_option list" where
  "client_options = [YOPT_C_UNPACK_PARAMS kMaxBackendPacketSize 0 4 0, YOPT_C_UNPACK_STRIP 4,
     YOPT_C_UNPACK_NO_BSWAP 0]"

definition client_uparams :: uparams where
  "client_uparams = fold set_option client_options default_uparams"

lemma client_uparams_simps [simp]:
  "max_frame_length client_uparams = kMaxBackendPacketSize" "length_field_offset client_uparams = 0"
  "length_field_length client_uparams = 4" "length_adjustment client_uparams = 0"
  "initial_bytes_to_strip client_uparams = 4" "no_bswap client_uparams = 0"
  by (simp_all add: client_uparams_def client_options_def default_uparams_def clamp_def)

subsection \<open>The length field\<close>

text \<open>\<open>memcpy\<close> of some bytes into an \<open>int\<close> that is 0, on a little-endian host.\<close>

fun int_of_bytes :: "bytes \<Rightarrow> i32" where
  "int_of_bytes [] = 0"
| "int_of_bytes (b # bs) = ucast b OR push_bit 8 (int_of_bytes bs)"

definition ntohl :: "u32 \<Rightarrow> u32" where
  "ntohl v = push_bit 24 (v AND 0xFF) OR push_bit 8 (v AND 0xFF00) OR
     drop_bit 8 (v AND 0xFF0000) OR drop_bit 24 v"

definition network_to_host :: "i32 \<Rightarrow> i32 \<Rightarrow> i32" where
  "network_to_host value sz =
     (let hostval = ntohl value
      in if sint sz < 4 then drop_bit ((4 - nat (sint sz)) * 8) hostval else hostval)"

text \<open>The 2nd argument of \<open>__builtin_decode_len\<close>, the number of valid bytes, is their length.\<close>

definition builtin_decode_len :: "uparams \<Rightarrow> bytes \<Rightarrow> i32" where
  "builtin_decode_len up d =
     (let loffset = sint (length_field_offset up); lsize = length_field_length up
      in if loffset \<ge> 0 then
           if int (length d) \<ge> loffset + sint lsize then
             let len = int_of_bytes (take (nat (sint lsize)) (drop (nat loffset) d));
                 len = (if no_bswap up = 0 then network_to_host len lsize else len);
                 len = len + length_adjustment up
             in if sint len > sint (max_frame_length up) then - 1 else len
           else 0
         else of_nat (length d))"

subsection \<open>Reading from the socket\<close>

text \<open>
  The outcome of \<open>recv\<close> on the non-blocking socket: some bytes (none when the peer has closed
  the connection, or when there is no room for any), or -1 with an error number.
\<close>

datatype recv_result = Received bytes | RecvFailed int

definition not_recv_error :: "int \<Rightarrow> bool" where
  "not_recv_error e \<longleftrightarrow> e = 11 \<or> e = 4"  \<comment> \<open>EWOULDBLOCK and EAGAIN, EINTR\<close>

definition errc_eof :: int where "errc_eof = - 20"
definition errc_invalid_packet :: int where "errc_invalid_packet = - 27"

definition call_read :: "recv_result \<Rightarrow> int + bytes" where
  "call_read r =
     (case r of Received bs \<Rightarrow> if bs \<noteq> [] then Inr bs else Inl errc_eof
      | RecvFailed e \<Rightarrow> if not_recv_error e then Inr [] else Inl e)"

record transport =
  held :: bytes
  expected_size :: int
  expected_packet :: bytes

definition new_transport :: transport where
  "new_transport = \<lparr>held = [], expected_size = - 1, expected_packet = []\<rparr>"

definition kMaxRcvbuf :: nat where "kMaxRcvbuf = 64 * 1024"

definition fetch_packet :: "transport \<Rightarrow> bytes \<times> transport" where
  "fetch_packet t = (expected_packet t, t\<lparr>expected_size := - 1, expected_packet := []\<rparr>)"

definition unpack :: "int \<Rightarrow> bytes \<Rightarrow> nat \<Rightarrow> transport \<Rightarrow> bytes list \<times> transport" where
  "unpack bytes_want d bytes_to_strip t =
     (let t = t\<lparr>expected_packet := expected_packet t @ drop bytes_to_strip (take (nat bytes_want) d)\<rparr>;
          offset = int (length d) - bytes_want
      in if offset \<ge> 0 then
           let (pkt, t) = fetch_packet (t\<lparr>held := drop (nat bytes_want) d\<rparr>) in ([pkt], t)
         else ([], t\<lparr>held := []\<rparr>))"

text \<open>
  \<open>io_do_read\<close> is \<open>io_service::do_read\<close> of a transport: the packets it hands over, or the
  error it leaves. \<open>forward_packet\<close> is the service's option and \<open>is_open\<close> the state of the
  socket. Left out: logging, the reservation of memory and the shortened wait for the next turn
  of the loop when bytes remain. \<open>do_read\<close> is the read of an open socket by a service whose
  \<open>forward_packet\<close> is the default, as the battle server's is.
\<close>

definition io_do_read :: "bool \<Rightarrow> bool \<Rightarrow> uparams \<Rightarrow> recv_result \<Rightarrow> transport \<Rightarrow> int + (bytes list \<times> transport)" where
  "io_do_read forward_packet is_open up r t =
     (if \<not> is_open then Inl 0
      else case call_read r of
        Inl e \<Rightarrow> Inl e
      | Inr bs \<Rightarrow>
          if \<not> forward_packet then
            let d = held t @ bs; bytes_to_strip = initial_bytes_to_strip up
            in if expected_size t = - 1 then
                 let length = builtin_decode_len up d
                 in if sint length > 0 then
                      if sint length < sint bytes_to_strip then Inl errc_invalid_packet
                      else Inr (unpack (sint length) d (nat (sint bytes_to_strip)) (t\<lparr>expected_size := sint length\<rparr>))
                    else if length = 0 then Inr ([], t\<lparr>held := d\<rparr>)
                    else Inl errc_invalid_packet
               else Inr (unpack (expected_size t - (int (List.length (expected_packet t)) + sint bytes_to_strip)) d 0 t)
          else if bs \<noteq> [] then Inr ([bs], t) else Inr ([], t))"

definition do_read :: "uparams \<Rightarrow> recv_result \<Rightarrow> transport \<Rightarrow> int + (bytes list \<times> transport)" where
  "do_read = io_do_read False True"

lemma do_read_eq:
  "do_read up r t =
     (case call_read r of
        Inl e \<Rightarrow> Inl e
      | Inr bs \<Rightarrow>
          let d = held t @ bs; bytes_to_strip = initial_bytes_to_strip up
          in if expected_size t = - 1 then
               let length = builtin_decode_len up d
               in if sint length > 0 then
                    if sint length < sint bytes_to_strip then Inl errc_invalid_packet
                    else Inr (unpack (sint length) d (nat (sint bytes_to_strip)) (t\<lparr>expected_size := sint length\<rparr>))
                  else if length = 0 then Inr ([], t\<lparr>held := d\<rparr>)
                  else Inl errc_invalid_packet
             else Inr (unpack (expected_size t - (int (List.length (expected_packet t)) + sint bytes_to_strip)) d 0 t))"
  by (simp only: do_read_def io_do_read_def not_True_eq_False not_False_eq_True if_False if_True)

text \<open>
  In every turn of its loop the io service reads each transport once, and closes it after a
  read that failed. The events a sequence of reads puts in its queue, and the transport while
  it is open; writes and requests to close come from the client and are not in it.
\<close>

fun transport_events :: "uparams \<Rightarrow> recv_result list \<Rightarrow> transport \<Rightarrow> net_event list \<times> transport option" where
  "transport_events up [] t = ([], Some t)"
| "transport_events up (r # rs) t =
     (case do_read up r t of
        Inl e \<Rightarrow> ([Ev_Close e], None)
      | Inr (pkts, t') \<Rightarrow>
          let (evs, t'') = transport_events up rs t' in (map Ev_Packet pkts @ evs, t''))"

subsection \<open>The length field is read as the codec writes it\<close>

lemma bit_int_of_bytes:
  assumes "m < 8"
  shows "bit (int_of_bytes [a, b, c, d]) m = bit a m"
    "bit (int_of_bytes [a, b, c, d]) (m + 8) = bit b m"
    "bit (int_of_bytes [a, b, c, d]) (m + 16) = bit c m"
    "bit (int_of_bytes [a, b, c, d]) (m + 24) = bit d m"
  using assms by (auto simp: bit_simps dest: bit_u8_lt)

lemma bit_readU32BE:
  assumes "m < 8"
  shows "bit (readU32BE (a # b # c # d # r)) m = bit d m"
    "bit (readU32BE (a # b # c # d # r)) (m + 8) = bit c m"
    "bit (readU32BE (a # b # c # d # r)) (m + 16) = bit b m"
    "bit (readU32BE (a # b # c # d # r)) (m + 24) = bit a m"
  using assms by (auto simp: readU32BE_def bit_simps dest: bit_u8_lt)

lemma bit_ntohl:
  assumes "m < 8"
  shows "bit (ntohl v) m = bit v (m + 24)" "bit (ntohl v) (m + 8) = bit v (m + 16)"
    "bit (ntohl v) (m + 16) = bit v (m + 8)" "bit (ntohl v) (m + 24) = bit v m"
proof -
  have m: "(0xFF00 :: u32) = push_bit 8 (mask 8)" "(0xFF0000 :: u32) = push_bit 16 (mask 8)"
    by (simp_all add: mask_eq_exp_minus_1)
  show "bit (ntohl v) m = bit v (m + 24)" "bit (ntohl v) (m + 8) = bit v (m + 16)"
    "bit (ntohl v) (m + 16) = bit v (m + 8)" "bit (ntohl v) (m + 24) = bit v m"
    using assms unfolding ntohl_def m mask8
    by (auto simp: bit_simps add.commute dest: bit_imp_le_length)
qed

lemma byte_cases:
  assumes "n < (32 :: nat)"
  obtains m where "m < 8" and "n = m \<or> n = m + 8 \<or> n = m + 16 \<or> n = m + 24"
proof (rule that)
  show "n mod 8 < 8" by simp
  show "n = n mod 8 \<or> n = n mod 8 + 8 \<or> n = n mod 8 + 16 \<or> n = n mod 8 + 24"
    using assms by presburger
qed

lemma ntohl_int_of_bytes: "ntohl (int_of_bytes [a, b, c, d]) = readU32BE (a # b # c # d # r)"
proof (rule bit_word_eqI)
  fix n assume "n < LENGTH(32)"
  then obtain m where "m < 8" and "n = m \<or> n = m + 8 \<or> n = m + 16 \<or> n = m + 24"
    using byte_cases [of n] by auto
  then show "bit (ntohl (int_of_bytes [a, b, c, d])) n = bit (readU32BE (a # b # c # d # r)) n"
    by (elim disjE) (simp_all only: bit_ntohl bit_readU32BE bit_int_of_bytes)
qed

lemma four_bytes:
  assumes "4 \<le> length d"
  obtains a b c e r where "d = a # b # c # e # r"
  using assms by (auto simp: numeral_eq_Suc Suc_le_length_iff)

lemma readU32BE_append: "4 \<le> length u \<Longrightarrow> readU32BE (u @ v) = readU32BE u"
  by (erule four_bytes) (simp add: readU32BE_def)

lemma sint_i32: "sint (n :: i32) = signed_take_bit 31 (uint n)"
  by (simp add: sint_uint)

lemma sint_small: "uint (n :: i32) < 2 ^ 31 \<Longrightarrow> sint n = uint n"
  using uint_nonnegative [of n] unfolding sint_i32 by (intro signed_take_bit_int_eq_self) linarith+

lemma sint_large:
  assumes "2 ^ 20 < uint (n :: i32)"
  shows "sint n < 0 \<or> 2 ^ 20 < sint n"
proof (cases "uint n < 2 ^ 31")
  case True
  with assms show ?thesis by (simp add: sint_small)
next
  case False
  then have "sint n \<le> uint n - 2 ^ 32"
    using signed_take_bit_int_less_eq [of 31 "uint n"] by (simp add: sint_i32)
  with uint_bounded [of n] show ?thesis by simp
qed

lemma decode_len_client:
  "builtin_decode_len client_uparams d =
    (if length d < 4 then 0 else if sint (readU32BE d) > 2 ^ 20 then - 1 else readU32BE d)"
proof (cases "length d < 4")
  case False
  then obtain a b c e r where d: "d = a # b # c # e # r"
    using four_bytes by (metis not_less)
  have t: "take (nat (sint (4 :: i32))) (drop (nat (sint (0 :: i32))) d) = [a, b, c, e]"
    by (simp add: d)
  have n: "network_to_host (int_of_bytes [a, b, c, e]) 4 = readU32BE d"
    unfolding network_to_host_def d ntohl_int_of_bytes [of a b c e r] Let_def by simp
  have m: "sint kMaxBackendPacketSize = 2 ^ 20" "(sint (0 :: i32) \<ge> 0) = True"
    "(int (length d) \<ge> sint (0 :: i32) + sint (4 :: i32)) = True" "(0 :: i32) = 0 \<longleftrightarrow> True"
    using False by (simp_all add: kMaxBackendPacketSize_def)
  show ?thesis
    unfolding builtin_decode_len_def Let_def client_uparams_simps t n m if_True add_0_right
    using False by (simp only: if_False)
qed (simp add: builtin_decode_len_def)

subsection \<open>One read is one step of the reference definition\<close>

definition packet_step :: "bytes \<Rightarrow> bytes list \<times> bytes" where
  "packet_step u =
     (let n = unat (readU32BE u)
      in if length u < 4 \<or> length u < n then ([], u) else ([drop 4 (take n u)], drop n u))"

definition length_ok :: "bytes \<Rightarrow> bool" where
  "length_ok u \<longleftrightarrow> length u < 4 \<or> (4 \<le> unat (readU32BE u) \<and> unat (readU32BE u) \<le> 2 ^ 20)"

text \<open>The bytes received and not yet delivered: all held, or a frame's beginning taken over.\<close>

definition pending :: "transport \<Rightarrow> bytes \<Rightarrow> bool" where
  "pending t u \<longleftrightarrow>
     expected_size t = - 1 \<and> expected_packet t = [] \<and> held t = u \<or>
     held t = [] \<and> 4 \<le> length u \<and> length u < unat (readU32BE u) \<and> unat (readU32BE u) \<le> 2 ^ 20 \<and>
       expected_size t = int (unat (readU32BE u)) \<and> expected_packet t = drop 4 u"

lemma pending_new [simp]: "pending new_transport []"
  by (simp add: pending_def new_transport_def)

lemma do_read_fresh:
  assumes "expected_size t = - 1" and "call_read r = Inr bs" and "4 \<le> length (held t @ bs)"
    and "4 \<le> n" and "n \<le> 2 ^ 20" and "uint (readU32BE (held t @ bs)) = int n"
  shows "do_read client_uparams r t = Inr (unpack (int n) (held t @ bs) 4 (t\<lparr>expected_size := int n\<rparr>))"
proof -
  let ?w = "readU32BE (held t @ bs)"
  have s: "sint ?w = int n" using assms(5,6) sint_small [of ?w] by simp
  then have l: "builtin_decode_len client_uparams (held t @ bs) = ?w"
    using assms(3,5) unfolding decode_len_client by simp
  from s assms(4) have "(sint ?w > 0) = True" "(sint ?w < sint (4 :: i32)) = False" by simp_all
  then show ?thesis
    unfolding do_read_eq assms(2) sum.case Let_def client_uparams_simps l
    by (simp only: assms(1) if_True if_False s) simp
qed

lemma do_read_short:
  assumes "expected_size t = - 1" and "call_read r = Inr bs" and "length (held t @ bs) < 4"
  shows "do_read client_uparams r t = Inr ([], t\<lparr>held := held t @ bs\<rparr>)"
  using assms by (simp add: do_read_eq decode_len_client)

lemma do_read_partial:
  assumes "expected_size t \<noteq> - 1" and "call_read r = Inr bs"
  shows "do_read client_uparams r t =
    Inr (unpack (expected_size t - (int (length (expected_packet t)) + 4)) (held t @ bs) 0 t)"
  using assms by (simp add: do_read_eq)

lemma unpack_complete:
  "n \<le> length d \<Longrightarrow> unpack (int n) d k t = ([expected_packet t @ drop k (take n d)],
    t\<lparr>held := drop n d, expected_size := - 1, expected_packet := []\<rparr>)"
  by (simp add: unpack_def fetch_packet_def)

lemma unpack_incomplete:
  "length d < n \<Longrightarrow>
    unpack (int n) d k t = ([], t\<lparr>expected_packet := expected_packet t @ drop k d, held := []\<rparr>)"
  by (simp add: unpack_def)

definition reads :: "transport \<Rightarrow> recv_result \<Rightarrow> bytes \<Rightarrow> bytes \<Rightarrow> bool" where
  "reads t r bs u \<longleftrightarrow> (\<exists>t'. do_read client_uparams r t = Inr (fst (packet_step (u @ bs)), t') \<and>
     pending t' (snd (packet_step (u @ bs))) \<and> length (held t') < max 4 (length (held t @ bs)))"

lemma reads_fresh:
  assumes "expected_size t = - 1" "expected_packet t = []" "held t = u" "call_read r = Inr bs"
    "length_ok (u @ bs)"
  shows "reads t r bs u"
proof (cases "length (u @ bs) < 4")
  case True
  then show ?thesis
    using do_read_short [OF assms(1,4)] assms by (simp add: reads_def packet_step_def pending_def)
next
  case False
  define n where "n = unat (readU32BE (u @ bs))"
  have w: "uint (readU32BE (u @ bs)) = int n" "unat (readU32BE (u @ bs)) = n" by (simp_all add: n_def)
  have n: "4 \<le> n" "n \<le> 2 ^ 20" using False assms(5) by (auto simp: length_ok_def n_def)
  have r: "do_read client_uparams r t = Inr (unpack (int n) (u @ bs) 4 (t\<lparr>expected_size := int n\<rparr>))"
    using do_read_fresh [OF assms(1,4) _ n] assms(3) False w by simp
  show ?thesis
  proof (cases "n \<le> length (u @ bs)")
    case True
    then show ?thesis
      using n r False assms(2,3) unfolding unpack_complete [OF True]
      by (simp add: reads_def packet_step_def pending_def w)
  next
    case incomplete: False
    then have "length (u @ bs) < n" by simp
    then show ?thesis
      using n r False assms(2,3) unfolding unpack_incomplete [OF \<open>length (u @ bs) < n\<close>]
      by (auto simp: reads_def packet_step_def pending_def w)
  qed
qed

lemma reads_partial:
  assumes "held t = []" "4 \<le> length u" "length u < unat (readU32BE u)" "unat (readU32BE u) \<le> 2 ^ 20"
    "expected_size t = int (unat (readU32BE u))" "expected_packet t = drop 4 u" "call_read r = Inr bs"
  shows "reads t r bs u"
proof -
  define n where "n = unat (readU32BE u)"
  have w: "uint (readU32BE u) = int n" "unat (readU32BE u) = n" by (simp_all add: n_def)
  have m: "readU32BE (u @ bs) = readU32BE u" by (rule readU32BE_append [OF assms(2)])
  have "int n - (int (length (drop 4 u)) + 4) = int (n - length u)"
    using assms(2,3) w by simp
  then have r: "do_read client_uparams r t = Inr (unpack (int (n - length u)) bs 0 t)"
    using do_read_partial [of t r bs] assms(1,5,6,7) unfolding w by simp
  show ?thesis
  proof (cases "n - length u \<le> length bs")
    case True
    then have "\<not> length u + length bs < n" "length bs + length u - n < length bs"
      using assms(3) w by auto
    then show ?thesis
      using r assms(1-6) m w unfolding unpack_complete [OF True]
      by (simp add: reads_def packet_step_def pending_def less_max_iff_disj)
  next
    case False
    then have "length bs < n - length u" "length u + length bs < n" by simp_all
    then show ?thesis
      using r assms(1-6) m w unfolding unpack_incomplete [OF \<open>length bs < n - length u\<close>]
      by (simp add: reads_def packet_step_def pending_def less_max_iff_disj)
  qed
qed

lemma do_read_step:
  assumes "pending t u" and "call_read r = Inr bs" and "length_ok (u @ bs)"
  obtains t' where "do_read client_uparams r t = Inr (fst (packet_step (u @ bs)), t')"
    and "pending t' (snd (packet_step (u @ bs)))" and "length (held t') < max 4 (length (held t @ bs))"
proof -
  have "reads t r bs u"
    using assms(1) unfolding pending_def
    by (elim disjE conjE) (simp_all add: reads_fresh reads_partial assms(2,3))
  then show ?thesis using that by (auto simp: reads_def)
qed

subsection \<open>The packets of a stream of frames\<close>

definition encode_frame :: "BackendFrame \<Rightarrow> bytes" where
  "encode_frame fr = encodeBackendFrame (cmd fr) (msgId fr) (serial fr) (sessionId fr) (payload fr)"

definition small_frame :: "BackendFrame \<Rightarrow> bool" where
  "small_frame fr \<longleftrightarrow> length (payload fr) + kBackendFrameHeaderSize \<le> 2 ^ 20"

lemma encode_frame_length:
  assumes "small_frame fr"
  shows "length (encode_frame fr) = length (payload fr) + 15"
    and "unat (readU32BE (encode_frame fr @ v)) = length (payload fr) + 15"
proof -
  have f: "frame_fits (payload fr)" using assms by (simp add: small_frame_def frame_fits_def)
  show "length (encode_frame fr) = length (payload fr) + 15"
    by (simp add: encode_frame_def encodeBackendFrame_bytes [OF f] frame_bytes_def length_be32 length_be16)
  have "readU32BE (encode_frame fr @ v) = of_nat (kBackendFrameHeaderSize + length (payload fr))"
    by (simp add: encode_frame_def encodeBackendFrame_bytes [OF f] frame_bytes_def read32_be32)
  then show "unat (readU32BE (encode_frame fr @ v)) = length (payload fr) + 15"
    by (simp only: unat_frameLen [OF f]) (simp add: kBackendFrameHeaderSize_def)
qed

lemma small_frame_le: "small_frame fr \<Longrightarrow> length (payload fr) + 15 \<le> 2 ^ 20"
  by (simp add: small_frame_def kBackendFrameHeaderSize_def)

lemma packet_step_frame:
  assumes "small_frame fr"
  shows "packet_step (encode_frame fr @ v) = ([drop 4 (encode_frame fr)], v)"
    and "length_ok (encode_frame fr @ v)"
  using encode_frame_length [OF assms] small_frame_le [OF assms]
  by (simp_all add: packet_step_def length_ok_def)

lemma packet_step_frame_part:
  assumes "small_frame fr" and "v @ w = encode_frame fr" and "w \<noteq> []"
  shows "packet_step v = ([], v)" and "length_ok v"
proof -
  have l: "length v < length (payload fr) + 15"
    using assms encode_frame_length(1) [OF assms(1)] by (metis length_append length_greater_0_conv less_add_same_cancel1)
  have n: "4 \<le> length v \<Longrightarrow> unat (readU32BE v) = length (payload fr) + 15"
    using encode_frame_length(2) [OF assms(1), of "[]"] assms(2) readU32BE_append [of v w] by simp
  then show "packet_step v = ([], v)" and "length_ok v"
    using l small_frame_le [OF assms(1)]
    by (cases "length v < 4"; simp add: packet_step_def length_ok_def)+
qed

text \<open>A beginning of a stream of frames holds a whole frame, or only a part of the first.\<close>

lemma stream_step:
  assumes "v @ w = concat (map encode_frame frs)" and "\<forall>fr\<in>set frs. small_frame fr"
  shows "length_ok v \<and> (packet_step v = ([], v) \<or>
    (\<exists>fr frs' v'. frs = fr # frs' \<and> packet_step v = ([drop 4 (encode_frame fr)], v') \<and>
       v' @ w = concat (map encode_frame frs')))"
proof (cases frs)
  case Nil
  with assms show ?thesis by (simp add: packet_step_def length_ok_def)
next
  case (Cons fr frs')
  with assms have s: "small_frame fr" and e: "v @ w = encode_frame fr @ concat (map encode_frame frs')"
    by simp_all
  obtain us where "v = encode_frame fr @ us \<and> us @ w = concat (map encode_frame frs') \<or>
      v @ us = encode_frame fr \<and> w = us @ concat (map encode_frame frs')"
    using e unfolding append_eq_append_conv2 by blast
  then consider (whole) "v = encode_frame fr @ us" "us @ w = concat (map encode_frame frs')"
    | (part) "v @ us = encode_frame fr" "us \<noteq> []"
    by (cases "us = []") auto
  then show ?thesis
  proof cases
    case whole
    with packet_step_frame [OF s] Cons show ?thesis by simp
  next
    case part
    with packet_step_frame_part [OF s part] show ?thesis by simp
  qed
qed

fun received :: "recv_result \<Rightarrow> bytes" where
  "received (Received bs) = bs"
| "received (RecvFailed e) = []"

definition alive :: "recv_result \<Rightarrow> bool" where
  "alive r \<longleftrightarrow> call_read r = Inr (received r)"

text \<open>\<open>recv\<close> is given the free part of the buffer, so it delivers no more than that.\<close>

fun reads_fit :: "uparams \<Rightarrow> recv_result list \<Rightarrow> transport \<Rightarrow> bool" where
  "reads_fit up [] t \<longleftrightarrow> True"
| "reads_fit up (r # rs) t \<longleftrightarrow> length (held t @ received r) \<le> kMaxRcvbuf \<and>
     (case do_read up r t of Inl e \<Rightarrow> True | Inr (pkts, t') \<Rightarrow> reads_fit up rs t')"

definition frame_event :: "BackendFrame \<Rightarrow> net_event" where
  "frame_event fr = Ev_Packet (drop 4 (encode_frame fr))"

lemma stream_run:
  assumes "pending t u" and "u @ concat (map received rs) @ rest = concat (map encode_frame frs)"
    and "\<forall>fr\<in>set frs. small_frame fr" and "\<forall>r\<in>set rs. alive r"
  shows "\<exists>k t' u'. k \<le> length frs \<and>
    transport_events client_uparams rs t = (map frame_event (take k frs), Some t') \<and>
    pending t' u' \<and> u' @ rest = concat (map encode_frame (drop k frs)) \<and>
    (length (held t) < kMaxRcvbuf \<longrightarrow> reads_fit client_uparams rs t \<longrightarrow> length (held t') < kMaxRcvbuf)"
  using assms
proof (induction rs arbitrary: t u frs)
  case Nil
  then show ?case by (intro exI [of _ 0] exI [of _ t] exI [of _ u]) simp
next
  case (Cons r rs)
  let ?v = "u @ received r" and ?w = "concat (map received rs) @ rest"
  have r: "call_read r = Inr (received r)" using Cons.prems(4) by (simp add: alive_def)
  have e: "?v @ ?w = concat (map encode_frame frs)" using Cons.prems(2) by simp
  note step = stream_step [OF e Cons.prems(3)]
  then obtain t1 where t1: "do_read client_uparams r t = Inr (fst (packet_step ?v), t1)"
      "pending t1 (snd (packet_step ?v))" "length (held t1) < max 4 (length (held t @ received r))"
    using do_read_step [OF Cons.prems(1) r] by blast
  have room: "reads_fit client_uparams (r # rs) t \<Longrightarrow>
      length (held t1) < kMaxRcvbuf \<and> reads_fit client_uparams rs t1"
    using t1(1,3) by (auto simp: kMaxRcvbuf_def)
  from step consider (none) "packet_step ?v = ([], ?v)"
    | (some) fr frs' v' where "frs = fr # frs'" "packet_step ?v = ([drop 4 (encode_frame fr)], v')"
        "v' @ ?w = concat (map encode_frame frs')"
    by blast
  then show ?case
  proof cases
    case none
    with t1 e have "pending t1 ?v" "?v @ concat (map received rs) @ rest = concat (map encode_frame frs)"
      by simp_all
    from Cons.IH [OF this Cons.prems(3)] Cons.prems(4) show ?thesis
      using none t1(1) room by fastforce
  next
    case some
    with t1 have "pending t1 v'" by simp
    from Cons.IH [OF this some(3)] Cons.prems(3,4) some(1) obtain k t' u' where
      "k \<le> length frs'" "transport_events client_uparams rs t1 = (map frame_event (take k frs'), Some t')"
      "pending t' u'" "u' @ rest = concat (map encode_frame (drop k frs'))"
      "length (held t1) < kMaxRcvbuf \<longrightarrow> reads_fit client_uparams rs t1 \<longrightarrow> length (held t') < kMaxRcvbuf"
      by auto
    then show ?thesis
      using some t1(1) room
      by (intro exI [of _ "Suc k"] exI [of _ t'] exI [of _ u']) (simp add: frame_event_def)
  qed
qed

lemma transport_events_append:
  "transport_events up (rs @ rs') t =
    (case transport_events up rs t of
       (evs, None) \<Rightarrow> (evs, None)
     | (evs, Some t') \<Rightarrow> (case transport_events up rs' t' of (evs', t'') \<Rightarrow> (evs @ evs', t'')))"
  by (induction rs arbitrary: t) (auto split: sum.split prod.split option.split)

text \<open>A read that finds nothing new still delivers the next frame that is held.\<close>

lemma quiet_run:
  assumes "pending t (concat (map encode_frame frs))" and "\<forall>fr\<in>set frs. small_frame fr"
    and "length frs \<le> m"
  shows "\<exists>t'. transport_events client_uparams (replicate m (RecvFailed 11)) t = (map frame_event frs, Some t')"
  using assms
proof (induction m arbitrary: t frs)
  case 0
  then show ?case by simp
next
  case (Suc m)
  let ?u = "concat (map encode_frame frs)"
  have r: "call_read (RecvFailed 11) = Inr []" by (simp add: call_read_def not_recv_error_def)
  have "length_ok (?u @ [])" using stream_step [of "?u" "[]" frs] Suc.prems(2) by simp
  from do_read_step [OF Suc.prems(1) r this] obtain t1 where
    t1: "do_read client_uparams (RecvFailed 11) t = Inr (fst (packet_step ?u), t1)" "pending t1 (snd (packet_step ?u))"
    by auto
  show ?case
  proof (cases frs)
    case Nil
    with t1 have "pending t1 (concat (map encode_frame []))" by (simp add: packet_step_def)
    from Suc.IH [OF this] show ?thesis using t1(1) Nil by (auto simp: packet_step_def)
  next
    case (Cons fr frs')
    then have s: "small_frame fr" using Suc.prems(2) by simp
    note p = packet_step_frame(1) [OF s, of "concat (map encode_frame frs')"]
    with t1 Cons have "pending t1 (concat (map encode_frame frs'))" by simp
    from Suc.IH [OF this] Suc.prems(2,3) Cons obtain t' where
      "transport_events client_uparams (replicate m (RecvFailed 11)) t1 = (map frame_event frs', Some t')"
      by auto
    then show ?thesis using t1(1) Cons p by (simp add: frame_event_def)
  qed
qed

lemma frame_event_handled:
  assumes "small_frame fr"
  shows "handleNetworkEvent env dl (frame_event fr) s = processFrame env dl fr s"
  using packet_encoded [of "payload fr" env dl "cmd fr" "msgId fr" "serial fr" "sessionId fr" s] small_frame_le [OF assms]
  by (cases fr) (simp add: frame_event_def encode_frame_def)

lemma frame_events_handled:
  assumes "\<forall>fr\<in>set frs. small_frame fr"
  shows "fold (handleNetworkEvent env dl) (map frame_event frs) s = fold (processFrame env dl) frs s"
  using assms by (induction frs arbitrary: s) (simp_all add: frame_event_handled)

text \<open>C14. The client sees the frames its peer wrote, whatever the network does to the bytes. When
  the peer's frames are within the packet limit and the reads bring a beginning of their bytes,
  cut anywhere and mixed with reads that find nothing, the io service delivers exactly the first
  frames, in order, each without its length field; no read fails; the buffer is never full, so
  no read is asked for zero bytes; and handling the delivered packets is processing those frames
  as the peer built them. Once all bytes are there, one further read per frame delivers them all.\<close>
theorem stream_frames:
  assumes "\<forall>fr\<in>set frs. small_frame fr" and "\<forall>r\<in>set rs. alive r"
    and "concat (map received rs) @ rest = concat (map encode_frame frs)"
    and "reads_fit client_uparams rs new_transport"
  shows "\<exists>k t. k \<le> length frs \<and>
    transport_events client_uparams rs new_transport = (map frame_event (take k frs), Some t) \<and>
    length (held t) < kMaxRcvbuf \<and>
    fold (handleNetworkEvent env dl) (map frame_event (take k frs)) s = fold (processFrame env dl) (take k frs) s \<and>
    (rest = [] \<and> (\<exists>rs'. rs = rs' @ replicate (length frs) (RecvFailed 11)) \<longrightarrow> k = length frs)"
proof -
  have p: "pending new_transport []" "length (held new_transport) < kMaxRcvbuf"
    by (rule pending_new) (simp add: new_transport_def kMaxRcvbuf_def)
  have e: "[] @ concat (map received rs) @ rest = concat (map encode_frame frs)" using assms(3) by simp
  from stream_run [OF p(1) e assms(1,2)] p(2) assms(4) obtain k t where k: "k \<le> length frs"
    "transport_events client_uparams rs new_transport = (map frame_event (take k frs), Some t)"
    "length (held t) < kMaxRcvbuf" by blast
  have "k = length frs" if "rest = []" and rs: "rs = rs' @ replicate (length frs) (RecvFailed 11)" for rs'
  proof -
    have e': "[] @ concat (map received rs') @ [] = concat (map encode_frame frs)"
      using assms(3) that by simp
    have "\<forall>r\<in>set rs'. alive r" using assms(2) rs by simp
    from stream_run [OF p(1) e' assms(1) this] obtain j t1 u1 where
      j: "transport_events client_uparams rs' new_transport = (map frame_event (take j frs), Some t1)"
      "pending t1 u1" "u1 @ [] = concat (map encode_frame (drop j frs))" by blast
    then have "pending t1 (concat (map encode_frame (drop j frs)))" by simp
    from quiet_run [OF this, of "length frs"] assms(1) obtain t2 where
      "transport_events client_uparams (replicate (length frs) (RecvFailed 11)) t1
        = (map frame_event (drop j frs), Some t2)" by (auto dest: in_set_dropD)
    with j(1) have "transport_events client_uparams rs new_transport = (map frame_event frs, Some t2)"
      by (simp add: rs transport_events_append flip: map_append)
    with k show ?thesis by (metis fst_conv length_map length_take min.absorb2)
  qed
  moreover have "\<forall>fr\<in>set (take k frs). small_frame fr" using assms(1) by (auto dest: in_set_takeD)
  ultimately show ?thesis using k frame_events_handled by blast
qed

lemma unpack_held: "length (held (snd (unpack n d k t))) \<le> length d"
  by (simp add: unpack_def fetch_packet_def Let_def)

lemma do_read_held:
  assumes "do_read up r t = Inr (pkts, t')"
  shows "length (held t') \<le> length (held t @ received r)"
proof -
  obtain bs where bs: "call_read r = Inr bs" using assms by (auto simp: do_read_eq split: sum.splits)
  then have "bs = received r" by (auto simp: call_read_def split: recv_result.splits if_splits)
  with bs assms show ?thesis
    using unpack_held by (auto simp: do_read_eq Let_def split: if_splits) (metis length_append snd_conv)+
qed

lemma reads_fit_small:
  assumes "length (held t) + length (concat (map received rs)) \<le> kMaxRcvbuf"
  shows "reads_fit up rs t"
  using assms
proof (induction rs arbitrary: t)
  case (Cons r rs)
  then show ?case
    by (auto split: sum.split dest!: do_read_held intro!: Cons.IH)
qed simp

definition sample_frames :: "BackendFrame list" where
  "sample_frames = [\<lparr>cmd = 102, msgId = 114, serial = 1, sessionId = 0, payload = [8, 7]\<rparr>,
     \<lparr>cmd = 101, msgId = 1, serial = - 1, sessionId = 5, payload = []\<rparr>]"

theorem stream_frames_witness:
  "\<exists>t. transport_events client_uparams ([Received (take 2 (concat (map encode_frame sample_frames))), RecvFailed 11,
      Received (drop 2 (concat (map encode_frame sample_frames)))] @ [RecvFailed 11, RecvFailed 11]) new_transport
    = (map frame_event sample_frames, Some t)"
proof -
  define B where "B = concat (map encode_frame sample_frames)"
  define rs where "rs = [Received (take 2 B), RecvFailed 11, Received (drop 2 B)] @ [RecvFailed 11, RecvFailed 11]"
  have small: "\<forall>fr\<in>set sample_frames. small_frame fr"
    by (simp add: sample_frames_def small_frame_def kBackendFrameHeaderSize_def)
  then have l: "length B = 32"
    by (simp add: B_def sample_frames_def encode_frame_length)
  then have "take 2 B \<noteq> []" "drop 2 B \<noteq> []" by auto
  then have alive: "\<forall>r\<in>set rs. alive r"
    by (simp add: rs_def alive_def call_read_def not_recv_error_def)
  have bytes: "concat (map received rs) @ [] = concat (map encode_frame sample_frames)"
    by (simp add: rs_def flip: B_def)
  have fit: "reads_fit client_uparams rs new_transport"
    by (rule reads_fit_small) (simp add: rs_def l new_transport_def kMaxRcvbuf_def)
  have "rs = [Received (take 2 B), RecvFailed 11, Received (drop 2 B)] @ replicate (length sample_frames) (RecvFailed 11)"
    by (simp add: rs_def sample_frames_def)
  then have "\<exists>rs'. rs = rs' @ replicate (length sample_frames) (RecvFailed 11)" by blast
  with stream_frames [OF small alive bytes fit, of wire_env None "init_client default_BackendConfig :: nat client"]
  show ?thesis unfolding rs_def B_def by (metis take_all_iff order_refl)
qed

lemma reads_fit_append:
  "reads_fit up (rs @ rs') t \<longleftrightarrow> reads_fit up rs t \<and>
    (case snd (transport_events up rs t) of None \<Rightarrow> True | Some t' \<Rightarrow> reads_fit up rs' t')"
  by (induction rs arbitrary: t) (auto split: sum.split prod.split)

lemma reads_fit_held:
  assumes "reads_fit up rs t" and "transport_events up rs t = (evs, Some t')" and "length (held t) \<le> kMaxRcvbuf"
  shows "length (held t') \<le> kMaxRcvbuf"
  using assms
proof (induction rs arbitrary: t evs)
  case (Cons r rs)
  then obtain pkts t1 where t1: "do_read up r t = Inr (pkts, t1)" by (auto split: sum.splits)
  then have "length (held t1) \<le> kMaxRcvbuf" using do_read_held [OF t1] Cons.prems(1) by simp
  then show ?case using Cons t1 by (auto split: prod.splits)
qed simp

lemma zero_length_stalls:
  assumes "expected_size t = - 1" and "4 \<le> length (held t)" and "readU32BE (held t) = 0"
    and "\<forall>bs\<in>set bss. bs \<noteq> []"
  shows "transport_events client_uparams (map Received bss) t = ([], Some (t\<lparr>held := held t @ concat bss\<rparr>))"
  using assms
proof (induction bss arbitrary: t)
  case (Cons bs bss)
  then have "do_read client_uparams (Received bs) t = Inr ([], t\<lparr>held := held t @ bs\<rparr>)"
    by (simp add: do_read_eq call_read_def decode_len_client readU32BE_append)
  with Cons.IH [of "t\<lparr>held := held t @ bs\<rparr>"] Cons.prems show ?case by (simp add: readU32BE_append)
qed simp

lemma do_read_invalid:
  assumes "expected_size t = - 1" and "4 \<le> length (held t @ bs)" and "bs \<noteq> []"
    and "0 < unat (readU32BE (held t @ bs)) \<and> unat (readU32BE (held t @ bs)) < 4
      \<or> 2 ^ 20 < unat (readU32BE (held t @ bs))"
  shows "do_read client_uparams (Received bs) t = Inl errc_invalid_packet"
proof -
  let ?w = "readU32BE (held t @ bs)" and ?l = "builtin_decode_len client_uparams (held t @ bs)"
  have r: "call_read (Received bs) = Inr bs" using assms(3) by (simp add: call_read_def)
  have u: "uint ?w = int (unat ?w)" by simp
  have "(0 < sint ?l \<and> sint ?l < 4) \<or> (\<not> 0 < sint ?l \<and> ?l \<noteq> 0)"
  proof (cases "unat ?w < 4")
    case True
    with assms(4) have "0 < uint ?w" "uint ?w < 4" unfolding u by linarith+
    moreover from this have "sint ?w = uint ?w" by (intro sint_small) simp
    ultimately show ?thesis using assms(2) by (simp add: decode_len_client)
  next
    case False
    with assms(4) have "2 ^ 20 < unat ?w" by linarith
    then have "int (2 ^ 20) < int (unat ?w)" by (simp only: of_nat_less_iff)
    then have "2 ^ 20 < uint ?w" unfolding u [symmetric] by simp
    moreover from this have "?w \<noteq> 0" by auto
    ultimately show ?thesis
      using sint_large [of ?w] assms(2) by (auto simp: decode_len_client)
  qed
  then show ?thesis
    unfolding do_read_eq r sum.case Let_def client_uparams_simps by (auto simp: assms(1))
qed

lemma short_packet_dropped:
  assumes "length p < kBackendFrameBodyHeaderSize"
  shows "handleNetworkEvent env dl (Ev_Packet p) s = s"
  using assms by (simp add: onRecvFrame_def decodeBackendFrameBody_def)

lemma first_packet:
  assumes "4 \<le> n" and "n \<le> 2 ^ 20" and "n \<le> length bs" and "unat (readU32BE bs) = n"
  shows "\<exists>evs. fst (transport_events client_uparams (Received bs # rs) new_transport)
    = Ev_Packet (drop 4 (take n bs)) # evs"
proof -
  have "bs \<noteq> []" using assms(1,3) by auto
  then have "call_read (Received bs) = Inr bs" by (simp add: call_read_def)
  moreover have "length_ok ([] @ bs)" using assms by (simp add: length_ok_def)
  ultimately obtain t' where "do_read client_uparams (Received bs) new_transport = Inr (fst (packet_step bs), t')"
    using do_read_step [OF pending_new] by (metis append_Nil)
  then show ?thesis using assms by (auto simp: packet_step_def split: prod.split)
qed

text \<open>C39. What becomes of a frame whose length field is out of range, when the first read brings
  the field. A connection whose first bytes announce a length of 1 to 3, above 1 MiB, or negative as a signed number, is closed with
  the error of an invalid packet, whatever follows. A length of 4 to 14, read whole, is delivered and changes
  nothing: the client drops the frame as too short. A length of 0 is taken for a header still
  incomplete: while reads that fit the buffer bring more bytes, whatever they are, nothing is
  delivered and the connection stays open; once the bytes fill the buffer of 64 KiB, \<open>recv\<close> has no
  room, and its 0 bytes close the connection as if the peer had. The decoder of the codec would
  have refused the frame at once.\<close>
theorem frame_lengths:
  assumes "4 \<le> length bs" and "n = unat (readU32BE bs)"
  shows "(0 < n \<and> n < 4 \<or> 2 ^ 20 < n \<longrightarrow>
      transport_events client_uparams (Received bs # rs) new_transport = ([Ev_Close errc_invalid_packet], None)) \<and>
    (4 \<le> n \<and> n < 15 \<and> n \<le> length bs \<longrightarrow>
      (\<exists>p evs. fst (transport_events client_uparams (Received bs # rs) new_transport) = Ev_Packet p # evs \<and>
         p = drop 4 (take n bs) \<and> handleNetworkEvent env dl (Ev_Packet p) s = s)) \<and>
    (n = 0 \<longrightarrow> (\<forall>b\<in>set bss. b \<noteq> []) \<longrightarrow> reads_fit client_uparams (map Received (bs # bss)) new_transport \<longrightarrow>
      transport_events client_uparams (map Received (bs # bss)) new_transport
        = ([], Some (new_transport\<lparr>held := concat (bs # bss)\<rparr>)) \<and>
      length (concat (bs # bss)) \<le> kMaxRcvbuf \<and>
      (length (concat (bs # bss)) = kMaxRcvbuf \<and>
          reads_fit client_uparams (map Received (bs # bss) @ Received b # rs) new_transport \<longrightarrow>
        transport_events client_uparams (map Received (bs # bss) @ Received b # rs) new_transport
          = ([Ev_Close errc_eof], None)) \<and>
      (15 \<le> length bs \<longrightarrow> decodeBackendFrame bs = Inl InvalidFrameLength))"
proof (intro conjI impI)
  have ne: "bs \<noteq> []" using assms(1) by auto
  have new [simp]: "held new_transport = []" "expected_size new_transport = - 1"
    by (simp_all add: new_transport_def)
  show "transport_events client_uparams (Received bs # rs) new_transport = ([Ev_Close errc_invalid_packet], None)"
    if "0 < n \<and> n < 4 \<or> 2 ^ 20 < n"
    using do_read_invalid [of new_transport bs] assms ne that by simp
  show "\<exists>p evs. fst (transport_events client_uparams (Received bs # rs) new_transport) = Ev_Packet p # evs \<and>
         p = drop 4 (take n bs) \<and> handleNetworkEvent env dl (Ev_Packet p) s = s"
    if "4 \<le> n \<and> n < 15 \<and> n \<le> length bs"
  proof -
    have "4 \<le> n" "n \<le> 2 ^ 20" "n \<le> length bs" using that by simp_all
    from first_packet [OF this assms(2) [symmetric]] obtain evs where
      e: "fst (transport_events client_uparams (Received bs # rs) new_transport) = Ev_Packet (drop 4 (take n bs)) # evs"
      by blast
    have "length (drop 4 (take n bs)) < kBackendFrameBodyHeaderSize"
      using that by (auto simp: kBackendFrameBodyHeaderSize_def)
    from e short_packet_dropped [OF this] show ?thesis by blast
  qed
  assume z: "n = 0"
  then have w: "readU32BE bs = 0" using assms(2) by (simp add: word_unat_eq_iff)
  show "decodeBackendFrame bs = Inl InvalidFrameLength" if "15 \<le> length bs"
    using that by (simp add: decodeBackendFrame_def w kBackendFrameHeaderSize_def)
  assume b: "\<forall>b\<in>set bss. b \<noteq> []"
  have "do_read client_uparams (Received bs) new_transport = Inr ([], new_transport\<lparr>held := bs\<rparr>)"
    using assms(1) ne w by (simp add: do_read_eq call_read_def decode_len_client)
  with b show all: "transport_events client_uparams (map Received (bs # bss)) new_transport
      = ([], Some (new_transport\<lparr>held := concat (bs # bss)\<rparr>))"
    using zero_length_stalls [of "new_transport\<lparr>held := bs\<rparr>" bss] assms(1) w by simp
  assume fit: "reads_fit client_uparams (map Received (bs # bss)) new_transport"
  show "length (concat (bs # bss)) \<le> kMaxRcvbuf"
    using reads_fit_held [OF fit all] by (simp add: new_transport_def kMaxRcvbuf_def)
  assume full: "length (concat (bs # bss)) = kMaxRcvbuf \<and>
    reads_fit client_uparams (map Received (bs # bss) @ Received b # rs) new_transport"
  then have "reads_fit client_uparams (Received b # rs) (new_transport\<lparr>held := concat (bs # bss)\<rparr>)"
    using all by (simp only: reads_fit_append) simp
  then have "length (concat (bs # bss)) + length b \<le> kMaxRcvbuf" by simp
  then have "b = []" using full by (metis add_le_same_cancel1 le_zero_eq length_0_conv)
  then have "transport_events client_uparams (Received b # rs) (new_transport\<lparr>held := concat (bs # bss)\<rparr>) = ([Ev_Close errc_eof], None)"
    by (simp add: do_read_eq call_read_def)
  then show "transport_events client_uparams (map Received (bs # bss) @ Received b # rs) new_transport = ([Ev_Close errc_eof], None)"
    by (simp only: transport_events_append all) simp
qed

theorem frame_lengths_witness:
  "transport_events client_uparams [Received [0, 0, 0, 2], Received [7]] new_transport
     = ([Ev_Close errc_invalid_packet], None)
   \<and> transport_events client_uparams [Received [0xFF, 0xFF, 0xFF, 0xF0]] new_transport
     = ([Ev_Close errc_invalid_packet], None)
   \<and> transport_events client_uparams [Received [0, 0, 0, 0], Received [1, 2]] new_transport
       = ([], Some (new_transport\<lparr>held := [0, 0, 0, 0, 1, 2]\<rparr>))"
proof (intro conjI)
  have r: "readU32BE [0, 0, 0, 2] = 2" "readU32BE [0xFF, 0xFF, 0xFF, 0xF0] = 0xFFFFFFF0"
    "readU32BE [0, 0, 0, 0] = 0"
    by (simp_all add: readU32BE_def)
  show "transport_events client_uparams [Received [0, 0, 0, 2], Received [7]] new_transport
      = ([Ev_Close errc_invalid_packet], None)"
    by (rule frame_lengths [where n = 2, THEN conjunct1, THEN mp]) (simp_all add: r)
  show "transport_events client_uparams [Received [0xFF, 0xFF, 0xFF, 0xF0]] new_transport
      = ([Ev_Close errc_invalid_packet], None)"
    by (rule frame_lengths [where n = "0xFFFFFFF0", THEN conjunct1, THEN mp]) (simp_all add: r)
  show "transport_events client_uparams [Received [0, 0, 0, 0], Received [1, 2]] new_transport
       = ([], Some (new_transport\<lparr>held := [0, 0, 0, 0, 1, 2]\<rparr>))"
    using frame_lengths [where bs = "[0, 0, 0, 0]" and n = 0 and bss = "[[1, 2]]",
        THEN conjunct2, THEN conjunct2, THEN mp, THEN mp, THEN mp, THEN conjunct1]
    by (simp add: r reads_fit_small new_transport_def kMaxRcvbuf_def del: transport_events.simps reads_fit.simps)
qed

end
