(* ===== verification/IoService.thy ===== *)
theory IoService
  imports FrameStream
begin

section \<open>The io service of one TCP client channel\<close>

text \<open>
  \<open>battle/3rd/yasio/yasio/io_service.cpp\<close> as the battle server uses it: one channel, of kind
  TCP client, on the thread that calls \<open>start\<close> (\<open>YOPT_S_NO_NEW_THREAD\<close>), on Linux, with the
  library's default build (no SSL, UDP, KCP, c-ares). Branches for other kinds of channels and
  other builds are left out, as are logging, object pools' memory, waking the poll, socket
  options without effect on the data, and the registration of sockets with the poll.

  A transport of a client channel holds the very socket of its channel, so \<open>ch_sock_open\<close> says
  of both whether it is open. A transport is named by its address; addresses of closed
  transports go to a pool and are used again. The system is a parameter of every turn of the
  loop (\<open>kernel\<close>): clocks, the outcome of each system call, the end of a name query, a signal.
  The program that uses the service is a parameter too (\<open>client_code\<close>): what its callbacks do
  to its own state and the calls they make. \<open>delivered\<close>, \<open>wire\<close>, \<open>tr_written\<close> and \<open>tr_sent\<close>
  record what happened and are read by nothing else.
\<close>

subsection \<open>State\<close>

datatype io_state = CLOSED | RESOLVING | CONNECTING | OPENED

definition EINPROGRESS :: int where "EINPROGRESS = 115"
definition EWOULDBLOCK :: int where "EWOULDBLOCK = 11"
definition EINTR :: int where "EINTR = 4"
definition ENOBUFS :: int where "ENOBUFS = 105"
definition EPERM :: int where "EPERM = 1"
definition ETIMEDOUT :: int where "ETIMEDOUT = 110"
definition errc_shutdown_by_localhost :: int where "errc_shutdown_by_localhost = - 24"
definition errc_no_available_address :: int where "errc_no_available_address = - 25"
definition errc_resolve_host_failed :: int where "errc_resolve_host_failed = - 26"

lemmas errno_defs = EINPROGRESS_def EWOULDBLOCK_def EINTR_def ENOBUFS_def EPERM_def ETIMEDOUT_def
  errc_shutdown_by_localhost_def errc_no_available_address_def errc_resolve_host_failed_def
  errc_eof_def errc_invalid_packet_def

record io_send_op =
  op_offset :: nat
  op_buffer :: bytes

record io_transport =
  tr_state :: io_state
  tr_error :: int
  tr_opm_close :: bool
  tr_rx :: transport
  tr_send_queue :: "io_send_op list"
  tr_pollout :: bool
  tr_written :: bytes
  tr_sent :: bytes

definition new_io_transport :: io_transport where
  "new_io_transport = \<lparr>tr_state = OPENED, tr_error = 0, tr_opm_close = False, tr_rx = new_transport,
     tr_send_queue = [], tr_pollout = False, tr_written = [], tr_sent = []\<rparr>"

record 'ep io_channel =
  ch_state :: io_state
  ch_error :: int
  ch_opm_open :: bool
  ch_opm_close :: bool
  ch_sock_open :: bool
  ch_host_dirty :: bool
  ch_port_dirty :: bool
  ch_needs_query :: bool
  ch_local_host :: string
  ch_local_port :: nat
  ch_remote_host :: string
  ch_remote_port :: nat
  ch_remote_eps :: "'ep list"
  ch_query_success_time :: int
  ch_connect_id :: u32
  ch_bytes_transferred :: int
  ch_uparams :: uparams

definition new_io_channel :: "'ep io_channel" where
  "new_io_channel = \<lparr>ch_state = CLOSED, ch_error = 0, ch_opm_open = False, ch_opm_close = False,
     ch_sock_open = False, ch_host_dirty = False, ch_port_dirty = False, ch_needs_query = False,
     ch_local_host = [], ch_local_port = 0, ch_remote_host = [], ch_remote_port = 0, ch_remote_eps = [],
     ch_query_success_time = 0, ch_connect_id = 0, ch_bytes_transferred = 0, ch_uparams = default_uparams\<rparr>"

text \<open>The timers of the queue: the channel's connect timer and those the program schedules.\<close>

datatype timer_key = ConnectTimer | UserTimer nat

record highp_timer =
  tm_key :: timer_key
  tm_duration :: int
  tm_expire :: int

datatype service_state = UNINITIALIZED | IDLE | RUNNING | AT_EXITING

record ('ep, 'a) io_service =
  sv_state :: service_state
  sv_stop_flag :: u8
  sv_current_time :: int
  sv_channel :: "'ep io_channel"
  sv_channel_ops :: bool                       \<comment> \<open>\<open>channel_ops_\<close> holds the channel\<close>
  sv_transports :: "(nat \<times> io_transport) list"
  sv_tpool :: "nat list"
  sv_fresh :: nat                              \<comment> \<open>the address \<open>operator new\<close> gives next\<close>
  sv_timers :: "highp_timer list"              \<comment> \<open>the last is the earliest to expire\<close>
  sv_queue :: "net_event list"
  sv_deal :: "net_event list"
  sv_wait_duration :: int
  sv_dns_dirty :: bool
  sv_app :: 'a
  delivered :: "net_event list"
  wire :: bytes                                \<comment> \<open>the bytes sockets accepted\<close>

definition sched_freq :: int where "sched_freq = 5 * 60 * 1000 * 1000"

definition new_io_service :: "'a \<Rightarrow> ('ep, 'a) io_service" where
  "new_io_service a = \<lparr>sv_state = IDLE, sv_stop_flag = 0, sv_current_time = 0, sv_channel = new_io_channel,
     sv_channel_ops = False, sv_transports = [], sv_tpool = [], sv_fresh = 0, sv_timers = [],
     sv_queue = [], sv_deal = [], sv_wait_duration = sched_freq, sv_dns_dirty = False, sv_app = a, delivered = [], wire = []\<rparr>"

definition YSTF_STOP :: u8 where "YSTF_STOP = 4"

subsection \<open>The system and the program\<close>

datatype send_result = Accepted nat | SendFailed int

datatype poll_result = PollOk | PollError int

record 'ep kernel =
  k_time :: int                      \<comment> \<open>\<open>steady_clock\<close> at the start of the turn, microseconds\<close>
  k_now :: int                       \<comment> \<open>\<open>steady_clock\<close> and \<open>highp_clock\<close> when timers are set\<close>
  k_poll :: poll_result
  k_recv :: "nat \<Rightarrow> recv_result"
  k_send :: "nat \<Rightarrow> send_result"
  k_as_in :: "string \<Rightarrow> nat \<Rightarrow> 'ep option"   \<comment> \<open>\<open>ip::endpoint::as_in\<close>: a literal address\<close>
  k_set_port :: "nat \<Rightarrow> 'ep \<Rightarrow> 'ep"
  k_resolved :: "('ep list + int) option"    \<comment> \<open>a name query that ended before the turn\<close>
  k_popen :: "'ep \<Rightarrow> int"             \<comment> \<open>0 or the error number\<close>
  k_bind :: "string \<Rightarrow> nat \<Rightarrow> int"
  k_connect :: "'ep \<Rightarrow> int"
  k_ready :: bool                    \<comment> \<open>the connecting socket is ready\<close>
  k_so_error :: "int option"         \<comment> \<open>\<open>getsockopt(SO_ERROR)\<close>, or its failure\<close>
  k_signal :: bool

datatype sv_request =
    ReqWrite nat bytes
  | ReqClose nat
  | ReqStop
  | ReqOpen
  | ReqEndpoint string nat
  | ReqSchedule nat int
  | ReqOption unpack_option

record 'a client_code =
  on_event :: "net_event \<Rightarrow> 'a \<Rightarrow> 'a \<times> sv_request list"
  on_timer :: "nat \<Rightarrow> 'a \<Rightarrow> bool \<times> 'a \<times> sv_request list"
  on_signal :: "'a \<Rightarrow> 'a \<times> sv_request list"

subsection \<open>Sending\<close>

definition not_send_error :: "int \<Rightarrow> bool" where
  "not_send_error e \<longleftrightarrow> e = EWOULDBLOCK \<or> e = EINTR \<or> e = ENOBUFS"

text \<open>The operation at the head of the queue is complete; the client passes no handler.\<close>

definition complete_op :: "io_transport \<Rightarrow> io_transport" where
  "complete_op t = t\<lparr>tr_send_queue := tl (tr_send_queue t)\<rparr>"

text \<open>\<open>call_write\<close> of the operation at the head: its result, the error number, the transport.\<close>

definition call_write :: "send_result \<Rightarrow> io_send_op \<Rightarrow> io_transport \<Rightarrow> int \<times> int \<times> io_transport" where
  "call_write w op t =
     (case w of
        Accepted n \<Rightarrow>
          if n > 0 then
            let chunk = take n (drop (op_offset op) (op_buffer op));
                op = op\<lparr>op_offset := op_offset op + n\<rparr>;
                t = t\<lparr>tr_send_queue := op # tl (tr_send_queue t), tr_sent := tr_sent t @ chunk\<rparr>
            in (int n, 0, if op_offset op = length (op_buffer op) then complete_op t else t)
          else (0, 0, t)
      | SendFailed e \<Rightarrow> if not_send_error e then (0, e, t) else (- 1, e, t))"

definition tr_do_write :: "bool \<Rightarrow> send_result \<Rightarrow> int \<Rightarrow> io_transport \<Rightarrow> (io_transport + int \<times> io_transport)" where
  "tr_do_write is_open w wait t =
     (if \<not> is_open then Inl t
      else let (n, error, t) = (case tr_send_queue t of [] \<Rightarrow> (0, 0, t) | op # _ \<Rightarrow> call_write w op t)
           in if n < 0 then Inl (t\<lparr>tr_error := error\<rparr>)
              else let no_wevent = (tr_send_queue t = []);
                       (no_wevent, wait, t) =
                         (if \<not> no_wevent then
                            let no_wevent = (error \<noteq> EWOULDBLOCK \<and> error \<noteq> ENOBUFS)
                            in if \<not> no_wevent then (no_wevent, wait, t\<lparr>tr_pollout := True\<rparr>) else (no_wevent, 0, t)
                          else (no_wevent, wait, t));
                       t = (if no_wevent \<and> tr_pollout t then t\<lparr>tr_pollout := False\<rparr> else t)
                   in Inr (wait, t))"

definition tr_write :: "bytes \<Rightarrow> io_transport \<Rightarrow> io_transport" where
  "tr_write buffer t = t\<lparr>tr_send_queue := tr_send_queue t @ [\<lparr>op_offset = 0, op_buffer = buffer\<rparr>],
     tr_written := tr_written t @ buffer\<rparr>"

subsection \<open>Events, sockets and transports\<close>

definition fire_event :: "net_event \<Rightarrow> ('ep, 'a) io_service \<Rightarrow> ('ep, 'a) io_service" where
  "fire_event ev sv = sv\<lparr>sv_queue := sv_queue sv @ [ev]\<rparr>"

definition cleanup_channel :: "bool \<Rightarrow> 'ep io_channel \<Rightarrow> 'ep io_channel" where
  "cleanup_channel clear_mask ch =
     (let ch = ch\<lparr>ch_error := 0, ch_state := CLOSED\<rparr>;
          ch = (if clear_mask then ch\<lparr>ch_opm_open := False, ch_opm_close := False\<rparr> else ch)
      in if ch_sock_open ch then ch\<lparr>ch_sock_open := False\<rparr> else ch)"

definition handle_connect_failed :: "int \<Rightarrow> ('ep, 'a) io_service \<Rightarrow> ('ep, 'a) io_service" where
  "handle_connect_failed error sv =
     fire_event (Ev_Open error 0) (sv\<lparr>sv_channel := cleanup_channel True (sv_channel sv)\<rparr>)"

definition allocate_transport :: "('ep, 'a) io_service \<Rightarrow> nat \<times> ('ep, 'a) io_service" where
  "allocate_transport sv =
     (if sv_tpool sv \<noteq> [] then (last (sv_tpool sv), sv\<lparr>sv_tpool := butlast (sv_tpool sv)\<rparr>)
      else (sv_fresh sv, sv\<lparr>sv_fresh := sv_fresh sv + 1\<rparr>))"

definition deallocate_transport :: "nat \<Rightarrow> ('ep, 'a) io_service \<Rightarrow> ('ep, 'a) io_service" where
  "deallocate_transport addr sv = sv\<lparr>sv_tpool := sv_tpool sv @ [addr]\<rparr>"

definition notify_connect_succeed :: "nat \<Rightarrow> ('ep, 'a) io_service \<Rightarrow> ('ep, 'a) io_service" where
  "notify_connect_succeed addr sv = fire_event (Ev_Open 0 addr) sv"

definition active_transport :: "nat \<Rightarrow> io_transport \<Rightarrow> ('ep, 'a) io_service \<Rightarrow> ('ep, 'a) io_service" where
  "active_transport addr t sv =
     notify_connect_succeed addr (sv\<lparr>sv_transports := sv_transports sv @ [(addr, t)]\<rparr>)"

definition handle_connect_succeed :: "('ep, 'a) io_service \<Rightarrow> ('ep, 'a) io_service" where
  "handle_connect_succeed sv =
     (let (addr, sv) = allocate_transport sv;
          sv = sv\<lparr>sv_channel := (sv_channel sv)\<lparr>ch_error := 0, ch_bytes_transferred := 0, ch_state := OPENED\<rparr>\<rparr>
      in active_transport addr new_io_transport sv)"

definition handle_close :: "nat \<Rightarrow> io_transport \<Rightarrow> ('ep, 'a) io_service \<Rightarrow> ('ep, 'a) io_service" where
  "handle_close addr t sv =
     (let sv = (if tr_state t = OPENED then fire_event (Ev_Close (tr_error t)) sv else sv);
          sv = sv\<lparr>sv_channel := (sv_channel sv)\<lparr>ch_sock_open := False\<rparr>\<rparr>;
          sv = deallocate_transport addr sv;
          ch = (sv_channel sv)\<lparr>ch_opm_close := False\<rparr>
      in sv\<lparr>sv_channel := cleanup_channel False ch\<rparr>)"

subsection \<open>Reading and writing transports\<close>

definition sv_do_read :: "'ep kernel \<Rightarrow> nat \<Rightarrow> io_transport \<Rightarrow> ('ep, 'a) io_service \<Rightarrow>
    bool \<times> io_transport \<times> ('ep, 'a) io_service" where
  "sv_do_read k addr t sv =
     (if \<not> ch_sock_open (sv_channel sv) then (False, t, sv)
      else case io_do_read False True (ch_uparams (sv_channel sv)) (k_recv k addr) (tr_rx t) of
        Inl e \<Rightarrow> (False, t\<lparr>tr_error := e\<rparr>, sv)
      | Inr (pkts, rx) \<Rightarrow>
          let sv = sv\<lparr>sv_channel := (sv_channel sv)\<lparr>ch_bytes_transferred :=
                ch_bytes_transferred (sv_channel sv) + int (length (received (k_recv k addr)))\<rparr>\<rparr>;
              sv = (if pkts \<noteq> [] \<and> held rx \<noteq> [] then sv\<lparr>sv_wait_duration := 0\<rparr> else sv)
          in (True, t\<lparr>tr_rx := rx\<rparr>, fold (\<lambda>p. fire_event (Ev_Packet p)) pkts sv))"

definition sv_do_write :: "'ep kernel \<Rightarrow> nat \<Rightarrow> io_transport \<Rightarrow> ('ep, 'a) io_service \<Rightarrow>
    bool \<times> io_transport \<times> ('ep, 'a) io_service" where
  "sv_do_write k addr t sv =
     (case tr_do_write (ch_sock_open (sv_channel sv)) (k_send k addr) (sv_wait_duration sv) t of
        Inl t \<Rightarrow> (False, t, sv)
      | Inr (wait, t') \<Rightarrow>
          (True, t', sv\<lparr>sv_wait_duration := wait, wire := wire sv @ drop (length (tr_sent t)) (tr_sent t')\<rparr>))"

text \<open>One transport in a turn of the loop: kept, or closed and dropped.\<close>

definition process_transport :: "'ep kernel \<Rightarrow> nat \<Rightarrow> io_transport \<Rightarrow> ('ep, 'a) io_service \<Rightarrow>
    io_transport option \<times> ('ep, 'a) io_service" where
  "process_transport k addr t sv =
     (let (ok, t, sv) = sv_do_read k addr t sv;
          (ok, t, sv) = (if ok then sv_do_write k addr t sv else (False, t, sv))
      in if ok \<and> \<not> tr_opm_close t \<and> \<not> ch_opm_open (sv_channel sv) \<and> \<not> ch_opm_close (sv_channel sv)
            \<and> sv_stop_flag sv = 0 then (Some t, sv)
         else let t = (if ok \<and> tr_error t = 0 then t\<lparr>tr_error := errc_shutdown_by_localhost\<rparr> else t)
              in (None, handle_close addr t sv))"

fun process_each :: "'ep kernel \<Rightarrow> (nat \<times> io_transport) list \<Rightarrow> ('ep, 'a) io_service \<Rightarrow>
    (nat \<times> io_transport) list \<times> ('ep, 'a) io_service" where
  "process_each k [] sv = ([], sv)"
| "process_each k ((addr, t) # ts) sv =
     (let (kept, sv) = process_transport k addr t sv; (ts, sv) = process_each k ts sv
      in (case kept of None \<Rightarrow> ts | Some t \<Rightarrow> (addr, t) # ts, sv))"

definition process_transports :: "'ep kernel \<Rightarrow> ('ep, 'a) io_service \<Rightarrow> ('ep, 'a) io_service" where
  "process_transports k sv =
     (let (ts, sv) = process_each k (sv_transports sv) sv in sv\<lparr>sv_transports := ts\<rparr>)"

subsection \<open>Timers\<close>

definition wait_duration :: "highp_timer \<Rightarrow> ('ep, 'a) io_service \<Rightarrow> int" where
  "wait_duration tm sv = tm_expire tm - sv_current_time sv"

definition expired :: "highp_timer \<Rightarrow> ('ep, 'a) io_service \<Rightarrow> bool" where
  "expired tm sv \<longleftrightarrow> wait_duration tm sv \<le> 0"

definition expires_from_now :: "int \<Rightarrow> highp_timer \<Rightarrow> highp_timer" where
  "expires_from_now now tm = tm\<lparr>tm_expire := now + tm_duration tm\<rparr>"

text \<open>\<open>std::sort\<close> leaves the order of timers that expire together open; it is taken to be stable.\<close>

definition sort_timers :: "('ep, 'a) io_service \<Rightarrow> ('ep, 'a) io_service" where
  "sort_timers sv = sv\<lparr>sv_timers := sort_key (\<lambda>tm. - tm_expire tm) (sv_timers sv)\<rparr>"

definition schedule_timer :: "highp_timer \<Rightarrow> ('ep, 'a) io_service \<Rightarrow> ('ep, 'a) io_service" where
  "schedule_timer tm sv =
     sort_timers (sv\<lparr>sv_timers :=
       (if tm_key tm \<in> set (map tm_key (sv_timers sv))
        then map (\<lambda>t. if tm_key t = tm_key tm then tm else t) (sv_timers sv)
        else sv_timers sv @ [tm])\<rparr>)"

definition remove_timer :: "timer_key \<Rightarrow> ('ep, 'a) io_service \<Rightarrow> ('ep, 'a) io_service" where
  "remove_timer key sv =
     (if key \<in> set (map tm_key (sv_timers sv))
      then sort_timers (sv\<lparr>sv_timers := filter (\<lambda>t. tm_key t \<noteq> key) (sv_timers sv)\<rparr>)
      else sv)"

text \<open>\<open>highp_timer::cancel\<close> of the connect timer: a timer that has expired stays in the queue.\<close>

definition cancel_connect_timer :: "('ep, 'a) io_service \<Rightarrow> ('ep, 'a) io_service" where
  "cancel_connect_timer sv =
     (case find (\<lambda>t. tm_key t = ConnectTimer) (sv_timers sv) of
        None \<Rightarrow> sv
      | Some tm \<Rightarrow> if \<not> expired tm sv then remove_timer ConnectTimer sv else sv)"

text \<open>A timer of the program; every call makes a new timer object, here a new number.\<close>

definition schedule :: "int \<Rightarrow> nat \<Rightarrow> int \<Rightarrow> ('ep, 'a) io_service \<Rightarrow> ('ep, 'a) io_service" where
  "schedule now n duration sv =
     schedule_timer (expires_from_now now \<lparr>tm_key = UserTimer n, tm_duration = duration, tm_expire = 0\<rparr>) sv"

subsection \<open>Resolving and connecting\<close>

definition connect_timeout :: int where "connect_timeout = 5 * 1000000"
definition dns_cache_timeout :: int where "dns_cache_timeout = 600 * 1000000"

definition upd_channel :: "('ep io_channel \<Rightarrow> 'ep io_channel) \<Rightarrow> ('ep, 'a) io_service \<Rightarrow> ('ep, 'a) io_service" where
  "upd_channel f sv = sv\<lparr>sv_channel := f (sv_channel sv)\<rparr>"

definition set_host :: "string \<Rightarrow> 'ep io_channel \<Rightarrow> 'ep io_channel" where
  "set_host host ch = (if ch_remote_host ch \<noteq> host then ch\<lparr>ch_remote_host := host, ch_host_dirty := True\<rparr> else ch)"

definition set_port :: "nat \<Rightarrow> 'ep io_channel \<Rightarrow> 'ep io_channel" where
  "set_port port ch =
     (if port = 0 then ch
      else if ch_remote_port ch \<noteq> port then ch\<lparr>ch_remote_port := port, ch_port_dirty := True\<rparr> else ch)"

definition update_dns_status :: "('ep, 'a) io_service \<Rightarrow> ('ep, 'a) io_service" where
  "update_dns_status sv =
     (if sv_dns_dirty sv then upd_channel (\<lambda>ch. ch\<lparr>ch_query_success_time := 0\<rparr>) (sv\<lparr>sv_dns_dirty := False\<rparr>) else sv)"

definition address_expired :: "int \<Rightarrow> 'ep io_channel \<Rightarrow> bool" where
  "address_expired now ch \<longleftrightarrow> now - ch_query_success_time ch > dns_cache_timeout"

text \<open>The start of a name query, and its end, which a thread of its own records.\<close>

definition start_query :: "('ep, 'a) io_service \<Rightarrow> ('ep, 'a) io_service" where
  "start_query sv = upd_channel (\<lambda>ch. ch\<lparr>ch_error := EINPROGRESS\<rparr>) sv"

definition query_done :: "int \<Rightarrow> 'ep list + int \<Rightarrow> ('ep, 'a) io_service \<Rightarrow> ('ep, 'a) io_service" where
  "query_done now r sv =
     (case r of
        Inl eps \<Rightarrow> upd_channel (\<lambda>ch. ch\<lparr>ch_remote_eps := eps, ch_query_success_time := now\<rparr>) sv
      | Inr error \<Rightarrow> upd_channel (\<lambda>ch. ch\<lparr>ch_error := errc_resolve_host_failed\<rparr>) sv)"

definition resolve_host :: "'ep kernel \<Rightarrow> 'ep io_channel \<Rightarrow> 'ep io_channel" where
  "resolve_host k ch =
     (if ch_host_dirty ch then
        let ch = ch\<lparr>ch_host_dirty := False, ch_needs_query := False, ch_remote_eps := []\<rparr>
        in case k_as_in k (ch_remote_host ch) (ch_remote_port ch) of
             Some ep \<Rightarrow> ch\<lparr>ch_remote_eps := [ep]\<rparr>
           | None \<Rightarrow> ch\<lparr>ch_needs_query := True\<rparr>
      else ch)"

definition resolve_port :: "'ep kernel \<Rightarrow> 'ep io_channel \<Rightarrow> 'ep io_channel" where
  "resolve_port k ch =
     (if ch_port_dirty ch
      then ch\<lparr>ch_port_dirty := False, ch_remote_eps := map (k_set_port k (ch_remote_port ch)) (ch_remote_eps ch)\<rparr>
      else ch)"

definition resolve_query :: "('ep, 'a) io_service \<Rightarrow> int \<times> ('ep, 'a) io_service" where
  "resolve_query sv =
     (if ch_remote_host (sv_channel sv) \<noteq> [] then
        (- 1, if ch_error (sv_channel sv) = 0 then start_query sv else sv)
      else (- 1, upd_channel (\<lambda>ch. ch\<lparr>ch_error := errc_no_available_address\<rparr>) sv))"

definition do_resolve :: "'ep kernel \<Rightarrow> ('ep, 'a) io_service \<Rightarrow> int \<times> ('ep, 'a) io_service" where
  "do_resolve k sv =
     (let sv = upd_channel (resolve_port k) (upd_channel (resolve_host k) sv)
      in if ch_remote_eps (sv_channel sv) \<noteq> [] then
           if \<not> ch_needs_query (sv_channel sv) then (0, sv)
           else let sv = update_dns_status sv
                in if ch_error (sv_channel sv) = EINPROGRESS then (0, sv)
                   else if \<not> address_expired (k_now k) (sv_channel sv) then (0, sv)
                   else resolve_query (upd_channel (\<lambda>ch. ch\<lparr>ch_remote_eps := []\<rparr>) sv)
         else resolve_query sv)"

definition do_connect :: "'ep kernel \<Rightarrow> ('ep, 'a) io_service \<Rightarrow> ('ep, 'a) io_service" where
  "do_connect k sv =
     (let sv = (if ch_sock_open (sv_channel sv) then upd_channel (cleanup_channel True) sv else sv);
          sv = upd_channel (\<lambda>ch. ch\<lparr>ch_state := CONNECTING\<rparr>) sv;
          ep = hd (ch_remote_eps (sv_channel sv))
      in if k_popen k ep = 0 then
           let sv = upd_channel (\<lambda>ch. ch\<lparr>ch_sock_open := True\<rparr>) sv; ch = sv_channel sv;
               ret = (if ch_local_host ch \<noteq> [] \<or> ch_local_port ch \<noteq> 0 then
                        let e = k_bind k (ch_local_host ch) (ch_local_port ch)
                        in if e = EPERM then 0 else e
                      else 0);
               error = (if ret = 0 then k_connect k ep else ret)
           in if error \<noteq> 0 then
                if error \<noteq> EINPROGRESS \<and> error \<noteq> EWOULDBLOCK then handle_connect_failed error sv
                else let sv = upd_channel (\<lambda>ch. ch\<lparr>ch_error := EINPROGRESS\<rparr>) sv
                     in schedule_timer (expires_from_now (k_now k)
                          \<lparr>tm_key = ConnectTimer, tm_duration = connect_timeout, tm_expire = 0\<rparr>) sv
              else handle_connect_succeed sv
         else handle_connect_failed (k_popen k ep) sv)"

definition do_connect_completion :: "'ep kernel \<Rightarrow> ('ep, 'a) io_service \<Rightarrow> ('ep, 'a) io_service" where
  "do_connect_completion k sv =
     (if ch_state (sv_channel sv) = CONNECTING then
        if k_ready k then
          cancel_connect_timer
            (case k_so_error k of
               Some e \<Rightarrow> if e = 0 then handle_connect_succeed sv else handle_connect_failed e sv
             | None \<Rightarrow> handle_connect_failed (- 1) sv)
        else sv
      else sv)"

definition process_channels :: "'ep kernel \<Rightarrow> ('ep, 'a) io_service \<Rightarrow> ('ep, 'a) io_service" where
  "process_channels k sv =
     (if sv_channel_ops sv then
        let sv = (if ch_opm_open (sv_channel sv)
                  then upd_channel (\<lambda>ch. ch\<lparr>ch_opm_open := False, ch_state := RESOLVING\<rparr>) sv else sv);
            sv = (if ch_state (sv_channel sv) = RESOLVING then
                    let (r, sv) = do_resolve k sv
                    in if r = 0 then do_connect k sv
                       else if ch_error (sv_channel sv) \<noteq> EINPROGRESS
                         then handle_connect_failed (ch_error (sv_channel sv)) sv
                       else sv
                  else if ch_state (sv_channel sv) = CONNECTING then do_connect_completion k sv
                  else sv);
            finish = (ch_error (sv_channel sv) \<noteq> EINPROGRESS)
        in if finish then sv\<lparr>sv_channel_ops := False\<rparr> else sv
      else sv)"

subsection \<open>The program's calls\<close>

definition sv_channel_is_busy :: "('ep, 'a) io_service \<Rightarrow> bool" where
  "sv_channel_is_busy sv \<longleftrightarrow> ch_state (sv_channel sv) = CONNECTING \<or> ch_state (sv_channel sv) = RESOLVING"

definition open_internal :: "('ep, 'a) io_service \<Rightarrow> ('ep, 'a) io_service" where
  "open_internal sv =
     (if sv_channel_is_busy sv then sv
      else (upd_channel (\<lambda>ch. ch\<lparr>ch_opm_close := False, ch_opm_open := True, ch_connect_id := ch_connect_id ch + 1\<rparr>) sv)
        \<lparr>sv_channel_ops := True\<rparr>)"

definition close_channel :: "('ep, 'a) io_service \<Rightarrow> ('ep, 'a) io_service" where
  "close_channel sv =
     upd_channel (\<lambda>ch.
       if \<not> ch_opm_close ch then
         let ch = ch\<lparr>ch_opm_open := False\<rparr> in if ch_sock_open ch then ch\<lparr>ch_opm_close := True\<rparr> else ch
       else ch) sv"

text \<open>
  A call on a transport names its address. An address that is not in use belongs to a transport
  that is closed, and memory that is kept: writing to it fails and closing it does nothing.
\<close>

definition upd_transport :: "nat \<Rightarrow> (io_transport \<Rightarrow> io_transport) \<Rightarrow> ('ep, 'a) io_service \<Rightarrow> ('ep, 'a) io_service" where
  "upd_transport addr f sv =
     sv\<lparr>sv_transports := map (\<lambda>(a, t). (a, if a = addr then f t else t)) (sv_transports sv)\<rparr>"

definition close_transport :: "nat \<Rightarrow> ('ep, 'a) io_service \<Rightarrow> ('ep, 'a) io_service" where
  "close_transport addr sv = upd_transport addr (\<lambda>t. t\<lparr>tr_opm_close := True\<rparr>) sv"

definition sv_write :: "nat \<Rightarrow> bytes \<Rightarrow> ('ep, 'a) io_service \<Rightarrow> int \<times> ('ep, 'a) io_service" where
  "sv_write addr buffer sv =
     (case map_of (sv_transports sv) addr of
        Some t \<Rightarrow>
          if tr_state t = OPENED \<and> ch_sock_open (sv_channel sv)
          then if buffer \<noteq> [] then (int (length buffer), upd_transport addr (tr_write buffer) sv) else (0, sv)
          else (- 1, sv)
      | None \<Rightarrow> (- 1, sv))"

text \<open>\<open>do_stop\<close> of a service that runs: the loop ends it; before and after, there is nothing to stop.\<close>

definition do_stop :: "u8 \<Rightarrow> ('ep, 'a) io_service \<Rightarrow> ('ep, 'a) io_service" where
  "do_stop flags sv =
     (if sv_state sv = UNINITIALIZED \<or> sv_state sv = IDLE then sv
      else if sv_stop_flag sv = 0 then
        let sv = sv\<lparr>sv_stop_flag := flags\<rparr> in if sv_state sv = RUNNING then close_channel sv else sv
      else sv)"

fun io_request :: "'ep kernel \<Rightarrow> sv_request \<Rightarrow> ('ep, 'a) io_service \<Rightarrow> ('ep, 'a) io_service" where
  "io_request k (ReqWrite addr buffer) sv = snd (sv_write addr buffer sv)"
| "io_request k (ReqClose addr) sv = close_transport addr sv"
| "io_request k ReqStop sv = do_stop YSTF_STOP sv"
| "io_request k ReqOpen sv = open_internal sv"
| "io_request k (ReqEndpoint host port) sv = upd_channel (set_port port \<circ> set_host host) sv"
| "io_request k (ReqSchedule n duration) sv = schedule (k_now k) n duration sv"
| "io_request k (ReqOption opt) sv =
     upd_channel (\<lambda>ch. ch\<lparr>ch_uparams := FrameStream.set_option opt (ch_uparams ch)\<rparr>) sv"

definition io_requests :: "'ep kernel \<Rightarrow> sv_request list \<Rightarrow> ('ep, 'a) io_service \<Rightarrow> ('ep, 'a) io_service" where
  "io_requests k reqs sv = fold (io_request k) reqs sv"

definition handle_event :: "'a client_code \<Rightarrow> 'ep kernel \<Rightarrow> net_event \<Rightarrow> ('ep, 'a) io_service \<Rightarrow> ('ep, 'a) io_service" where
  "handle_event code k ev sv =
     (let (a, reqs) = on_event code ev (sv_app sv)
      in io_requests k reqs (sv\<lparr>sv_app := a, delivered := delivered sv @ [ev]\<rparr>))"

subsection \<open>Dispatching events and timers\<close>

fun consume :: "'a client_code \<Rightarrow> 'ep kernel \<Rightarrow> nat \<Rightarrow> ('ep, 'a) io_service \<Rightarrow> ('ep, 'a) io_service" where
  "consume code k n sv =
     (case sv_deal sv of [] \<Rightarrow> sv
      | ev # evs \<Rightarrow>
          if n = 0 then sv
          else consume code k (n - 1) (handle_event code k ev (sv\<lparr>sv_deal := evs\<rparr>)))"

declare consume.simps [simp del]

definition dispatch :: "'a client_code \<Rightarrow> 'ep kernel \<Rightarrow> nat \<Rightarrow> ('ep, 'a) io_service \<Rightarrow> nat \<times> ('ep, 'a) io_service" where
  "dispatch code k max_count sv =
     (let sv = (if sv_deal sv = [] then
                  if sv_queue sv = [] then sv
                  else consume code k max_count (sv\<lparr>sv_deal := sv_queue sv, sv_queue := []\<rparr>)
                else consume code k max_count sv)
      in (length (sv_queue sv) + length (sv_deal sv), sv))"

definition process_deferred_events :: "'a client_code \<Rightarrow> 'ep kernel \<Rightarrow> ('ep, 'a) io_service \<Rightarrow> ('ep, 'a) io_service" where
  "process_deferred_events code k sv =
     (let (n, sv) = dispatch code k 128 sv in if n > 0 then sv\<lparr>sv_wait_duration := 0\<rparr> else sv)"

text \<open>The callback of a timer: whether the timer has waited for the last time.\<close>

definition timer_callback :: "'a client_code \<Rightarrow> 'ep kernel \<Rightarrow> timer_key \<Rightarrow> ('ep, 'a) io_service \<Rightarrow>
    bool \<times> ('ep, 'a) io_service" where
  "timer_callback code k key sv =
     (case key of
        ConnectTimer \<Rightarrow>
          (True, if ch_state (sv_channel sv) \<noteq> OPENED then handle_connect_failed ETIMEDOUT sv else sv)
      | UserTimer n \<Rightarrow>
          let (once, a, reqs) = on_timer code n (sv_app sv) in (once, io_requests k reqs (sv\<lparr>sv_app := a\<rparr>)))"

text \<open>
  The loop over expired timers, with the number of timers that wait again. It need not end
  when a timer's duration is not positive: then it has no result.
\<close>

partial_function (option) timers_loop :: "'a client_code \<Rightarrow> 'ep kernel \<Rightarrow> nat \<Rightarrow> ('ep, 'a) io_service \<Rightarrow>
    (nat \<times> ('ep, 'a) io_service) option" where
  "timers_loop code k n sv =
     (if sv_timers sv = [] then Some (n, sv)
      else let tm = last (sv_timers sv)
           in if expired tm sv then
                let (once, sv) = timer_callback code k (tm_key tm) (sv\<lparr>sv_timers := butlast (sv_timers sv)\<rparr>)
                in if \<not> once
                   then timers_loop code k (n + 1)
                          (sv\<lparr>sv_timers := sv_timers sv @ [expires_from_now (k_now k) tm]\<rparr>)
                   else timers_loop code k n sv
              else Some (n, sv))"

definition process_timers :: "'a client_code \<Rightarrow> 'ep kernel \<Rightarrow> ('ep, 'a) io_service \<Rightarrow> ('ep, 'a) io_service option" where
  "process_timers code k sv =
     (if sv_timers sv = [] then Some sv
      else map_option (\<lambda>(n, sv). if n > 0 then sort_timers sv else sv) (timers_loop code k 0 sv))"

subsection \<open>The loop\<close>

definition get_timeout :: "int \<Rightarrow> ('ep, 'a) io_service \<Rightarrow> int \<times> ('ep, 'a) io_service" where
  "get_timeout usec sv =
     (let sv = sv\<lparr>sv_wait_duration := sched_freq\<rparr>
      in if sv_timers sv = [] then (usec, sv)
         else let duration = wait_duration (last (sv_timers sv)) sv
              in (if usec > duration then duration else usec, sv))"

definition EBADF :: int where "EBADF = 9"

text \<open>
  One turn of the loop; the first component says that the loop is left at once. What other
  threads did since the last turn (the end of a name query, a signal) comes first.
\<close>

definition io_turn :: "'a client_code \<Rightarrow> 'ep kernel \<Rightarrow> ('ep, 'a) io_service \<Rightarrow> (bool \<times> ('ep, 'a) io_service) option" where
  "io_turn code k sv =
     (let sv = (case k_resolved k of None \<Rightarrow> sv | Some r \<Rightarrow> query_done (k_now k) r sv);
          sv = (if k_signal k then let (a, reqs) = on_signal code (sv_app sv) in io_requests k reqs (sv\<lparr>sv_app := a\<rparr>)
                else sv);
          sv = sv\<lparr>sv_current_time := k_time k\<rparr>;
          (usec, sv) = get_timeout (sv_wait_duration sv) sv
      in case (if usec > 0 then k_poll k else PollOk) of
           PollError e \<Rightarrow> Some (e = EBADF, sv)
         | PollOk \<Rightarrow>
             map_option (\<lambda>sv. (False, process_deferred_events code k sv))
               (process_timers code k (process_channels k (process_transports k sv))))"

definition handle_worker_exit :: "('ep, 'a) io_service \<Rightarrow> ('ep, 'a) io_service" where
  "handle_worker_exit sv = sv\<lparr>sv_state := AT_EXITING\<rparr>"

definition clear_transports :: "('ep, 'a) io_service \<Rightarrow> ('ep, 'a) io_service" where
  "clear_transports sv =
     (if sv_transports sv = [] then sv
      else upd_channel (\<lambda>ch. ch\<lparr>ch_sock_open := False\<rparr>)
             (sv\<lparr>sv_tpool := sv_tpool sv @ map fst (sv_transports sv), sv_transports := []\<rparr>))"

text \<open>
  \<open>handle_stop\<close> after the loop, on the thread that ran it: events still in the queue are
  dispatched, or only those an earlier dispatch has left behind when there are any.
  A call of \<open>stop\<close> in a handler of this last dispatch would dispatch the events after it from
  inside the handler; it is left out.
\<close>

definition handle_stop :: "'a client_code \<Rightarrow> 'ep kernel \<Rightarrow> ('ep, 'a) io_service \<Rightarrow> ('ep, 'a) io_service" where
  "handle_stop code k sv =
     (if sv_state sv \<noteq> AT_EXITING then sv
      else let sv = (if sv_queue sv \<noteq> [] then snd (dispatch code k (2 ^ 31 - 1) sv) else sv);
               sv = clear_transports sv
           in sv\<lparr>sv_timers := [], sv_stop_flag := 0, sv_state := IDLE\<rparr>)"

text \<open>The turns of a loop that is still running (\<open>True\<close>) or has been left (\<open>False\<close>).\<close>

fun io_run :: "'a client_code \<Rightarrow> 'ep kernel list \<Rightarrow> ('ep, 'a) io_service \<Rightarrow> (bool \<times> ('ep, 'a) io_service) option" where
  "io_run code [] sv = Some (True, sv)"
| "io_run code (k # ks) sv =
     (case io_turn code k sv of
        None \<Rightarrow> None
      | Some (left, sv) \<Rightarrow>
          if \<not> left \<and> (sv_stop_flag sv = 0 \<or> sv_transports sv \<noteq> []) then io_run code ks sv
          else Some (False, handle_stop code k (handle_worker_exit sv)))"

text \<open>\<open>start\<close>: the requests are those the program made before, with the service idle.\<close>

definition sv_start :: "('ep, 'a) io_service \<Rightarrow> ('ep, 'a) io_service" where
  "sv_start sv = (if sv_state sv = IDLE then sv\<lparr>sv_state := RUNNING\<rparr> else sv)"

subsection \<open>The order of the events\<close>

text \<open>
  The events of a connection: it opens, packets come while it is open, it closes; or it fails to
  open. \<open>link up evs\<close>: whether the connection is open after the events, \<open>None\<close> if they are out
  of order.
\<close>

fun link_after :: "bool \<Rightarrow> net_event list \<Rightarrow> bool option" where
  "link_after up [] = Some up"
| "link_after up (Ev_Open status t # evs) = (if up then None else link_after (status = 0) evs)"
| "link_after up (Ev_Packet p # evs) = (if up then link_after True evs else None)"
| "link_after up (Ev_Close status # evs) = (if up then link_after False evs else None)"
| "link_after up (Ev_Other # evs) = link_after up evs"

lemma link_after_append:
  "link_after up (xs @ ys) = (case link_after up xs of None \<Rightarrow> None | Some u \<Rightarrow> link_after u ys)"
  by (induction up xs rule: link_after.induct) auto

text \<open>All events fired so far, in order.\<close>

definition fired :: "('ep, 'a) io_service \<Rightarrow> net_event list" where
  "fired sv = delivered sv @ sv_deal sv @ sv_queue sv"

text \<open>
  The invariant: at most one transport, open and on an open channel, and the events fired are in
  order and leave the connection open exactly when there is the transport.
\<close>

definition link_inv :: "('ep, 'a) io_service \<Rightarrow> bool" where
  "link_inv sv \<longleftrightarrow>
     link_after False (fired sv) = Some (sv_transports sv \<noteq> []) \<and>
     length (sv_transports sv) \<le> 1 \<and>
     (\<forall>(a, t) \<in> set (sv_transports sv). tr_state t = OPENED) \<and>
     (sv_transports sv \<noteq> [] \<longrightarrow> ch_state (sv_channel sv) = OPENED)"

lemma fired_simps [simp]:
  "fired (sv\<lparr>sv_state := x1\<rparr>) = fired sv" "fired (sv\<lparr>sv_stop_flag := x2\<rparr>) = fired sv"
  "fired (sv\<lparr>sv_current_time := x3\<rparr>) = fired sv" "fired (sv\<lparr>sv_channel := x4\<rparr>) = fired sv"
  "fired (sv\<lparr>sv_channel_ops := x5\<rparr>) = fired sv" "fired (sv\<lparr>sv_transports := x6\<rparr>) = fired sv"
  "fired (sv\<lparr>sv_tpool := x7\<rparr>) = fired sv" "fired (sv\<lparr>sv_fresh := x8\<rparr>) = fired sv"
  "fired (sv\<lparr>sv_timers := x9\<rparr>) = fired sv" "fired (sv\<lparr>sv_wait_duration := x10\<rparr>) = fired sv"
  "fired (sv\<lparr>wire := x13\<rparr>) = fired sv"
  "fired (sv\<lparr>sv_dns_dirty := x11\<rparr>) = fired sv" "fired (sv\<lparr>sv_app := x12\<rparr>) = fired sv"
  by (simp_all add: fired_def)

lemma fired_fire [simp]: "fired (fire_event ev sv) = fired sv @ [ev]"
  by (simp add: fired_def fire_event_def)

lemma fire_simps [simp]:
  "sv_transports (fire_event ev sv) = sv_transports sv" "sv_channel (fire_event ev sv) = sv_channel sv"
  "sv_stop_flag (fire_event ev sv) = sv_stop_flag sv" "sv_tpool (fire_event ev sv) = sv_tpool sv"
  by (simp_all add: fire_event_def)

lemma upd_channel_simps [simp]:
  "fired (upd_channel f sv) = fired sv" "sv_transports (upd_channel f sv) = sv_transports sv"
  "sv_channel (upd_channel f sv) = f (sv_channel sv)" "sv_timers (upd_channel f sv) = sv_timers sv"
  by (simp_all add: upd_channel_def)

lemma cleanup_channel_state [simp]: "ch_state (cleanup_channel m ch) = CLOSED"
  by (simp add: cleanup_channel_def Let_def)

lemma handle_connect_failed_simps [simp]:
  "fired (handle_connect_failed e sv) = fired sv @ [Ev_Open e 0]"
  "sv_transports (handle_connect_failed e sv) = sv_transports sv"
  by (simp_all add: handle_connect_failed_def)

lemma link_inv_failed [inv_intros]:
  "link_inv sv \<Longrightarrow> sv_transports sv = [] \<Longrightarrow> e \<noteq> 0 \<Longrightarrow> link_inv (handle_connect_failed e sv)"
  by (simp add: link_inv_def link_after_append)

lemma link_inv_succeed [inv_intros]:
  "link_inv sv \<Longrightarrow> sv_transports sv = [] \<Longrightarrow> link_inv (handle_connect_succeed sv)"
  by (auto simp: link_inv_def handle_connect_succeed_def allocate_transport_def active_transport_def
      notify_connect_succeed_def link_after_append new_io_transport_def)

text \<open>Changes that leave events, transports and an open channel as they are.\<close>

lemma link_inv_channel [inv_intros]:
  "link_inv sv \<Longrightarrow> (sv_transports sv \<noteq> [] \<Longrightarrow> ch_state (sv_channel sv) = OPENED \<Longrightarrow> ch_state (f (sv_channel sv)) = OPENED) \<Longrightarrow>
     link_inv (upd_channel f sv)"
  by (auto simp: link_inv_def)

lemma link_inv_same:
  assumes "link_inv sv" and "fired sv' = fired sv" and "sv_transports sv' = sv_transports sv"
    and "ch_state (sv_channel sv') = ch_state (sv_channel sv)"
  shows "link_inv sv'"
  using assms by (simp add: link_inv_def)

lemma link_inv_updates [simp]:
  "link_inv (sv\<lparr>sv_state := x1\<rparr>) = link_inv sv" "link_inv (sv\<lparr>sv_stop_flag := x2\<rparr>) = link_inv sv"
  "link_inv (sv\<lparr>sv_current_time := x3\<rparr>) = link_inv sv" "link_inv (sv\<lparr>sv_channel_ops := x5\<rparr>) = link_inv sv"
  "link_inv (sv\<lparr>sv_tpool := x7\<rparr>) = link_inv sv" "link_inv (sv\<lparr>sv_timers := x9\<rparr>) = link_inv sv"
  "link_inv (sv\<lparr>sv_wait_duration := x10\<rparr>) = link_inv sv" "link_inv (sv\<lparr>sv_dns_dirty := x11\<rparr>) = link_inv sv"
  "link_inv (sv\<lparr>sv_app := x12\<rparr>) = link_inv sv"
  by (simp_all add: link_inv_def)

lemma link_idle: "link_inv sv \<Longrightarrow> ch_state (sv_channel sv) \<noteq> OPENED \<Longrightarrow> sv_transports sv = []"
  by (auto simp: link_inv_def)

subsubsection \<open>Transports\<close>

lemma fold_packets:
  "fired (fold (\<lambda>p. fire_event (Ev_Packet p)) ps sv) = fired sv @ map Ev_Packet ps"
  "sv_transports (fold (\<lambda>p. fire_event (Ev_Packet p)) ps sv) = sv_transports sv"
  "sv_channel (fold (\<lambda>p. fire_event (Ev_Packet p)) ps sv) = sv_channel sv"
  "sv_stop_flag (fold (\<lambda>p. fire_event (Ev_Packet p)) ps sv) = sv_stop_flag sv"
  by (induction ps arbitrary: sv) simp_all

lemma link_packets: "link_after True (map Ev_Packet ps) = Some True"
  by (induction ps) simp_all

lemma sv_do_read_frame:
  assumes "sv_do_read k addr t sv = (ok, t', sv')"
  obtains ps where "fired sv' = fired sv @ map Ev_Packet ps" and "sv_transports sv' = sv_transports sv"
    and "ch_state (sv_channel sv') = ch_state (sv_channel sv)" and "tr_state t' = tr_state t"
proof -
  have "\<exists>ps. fired sv' = fired sv @ map Ev_Packet ps \<and> sv_transports sv' = sv_transports sv \<and>
      ch_state (sv_channel sv') = ch_state (sv_channel sv) \<and> tr_state t' = tr_state t"
  proof (cases "ch_sock_open (sv_channel sv)")
    case False
    with assms show ?thesis by (auto simp: sv_do_read_def)
  next
    case True
    show ?thesis
    proof (cases "io_do_read False True (ch_uparams (sv_channel sv)) (k_recv k addr) (tr_rx t)")
      case (Inl e)
      with True assms show ?thesis by (auto simp: sv_do_read_def)
    next
      case (Inr p)
      obtain pkts rx where "p = (pkts, rx)" by (cases p)
      with Inr True assms show ?thesis
        by (auto simp: sv_do_read_def Let_def fold_packets)
    qed
  qed
  with that show ?thesis by blast
qed

lemma tr_do_write_state:
  "tr_do_write opn w wait t = Inl t' \<Longrightarrow> tr_state t' = tr_state t"
  "tr_do_write opn w wait t = Inr (wait', t') \<Longrightarrow> tr_state t' = tr_state t"
  by (auto simp: tr_do_write_def call_write_def complete_op_def Let_def
      split: if_splits list.splits send_result.splits prod.splits)

lemma sv_do_write_frame:
  assumes "sv_do_write k addr t sv = (ok, t', sv')"
  shows "fired sv' = fired sv" "sv_transports sv' = sv_transports sv"
    "ch_state (sv_channel sv') = ch_state (sv_channel sv)" "tr_state t' = tr_state t"
  using assms tr_do_write_state [of _ _ _ t]
  by (auto simp: sv_do_write_def split: sum.splits prod.splits)

lemma handle_close_frame:
  "fired (handle_close addr t sv) = (if tr_state t = OPENED then fired sv @ [Ev_Close (tr_error t)] else fired sv)"
  "sv_transports (handle_close addr t sv) = sv_transports sv"
  by (simp_all add: handle_close_def Let_def deallocate_transport_def)

lemma process_transport_frame:
  assumes "process_transport k addr t sv = (kept, sv')" and "tr_state t = OPENED"
  obtains ps where
    "kept = None \<and> (\<exists>e. fired sv' = fired sv @ map Ev_Packet ps @ [Ev_Close e]) \<or>
     (\<exists>t'. kept = Some t' \<and> tr_state t' = OPENED \<and> fired sv' = fired sv @ map Ev_Packet ps \<and>
        ch_state (sv_channel sv') = ch_state (sv_channel sv) \<and> \<not> ch_opm_open (sv_channel sv'))"
    and "sv_transports sv' = sv_transports sv"
proof -
  obtain ok1 t1 sv1 where r: "sv_do_read k addr t sv = (ok1, t1, sv1)" by (cases "sv_do_read k addr t sv")
  obtain ok2 t2 sv2 where w: "(if ok1 then sv_do_write k addr t1 sv1 else (False, t1, sv1)) = (ok2, t2, sv2)"
    by (cases "if ok1 then sv_do_write k addr t1 sv1 else (False, t1, sv1)")
  from sv_do_read_frame [OF r] obtain ps where r': "fired sv1 = fired sv @ map Ev_Packet ps"
    "sv_transports sv1 = sv_transports sv" "ch_state (sv_channel sv1) = ch_state (sv_channel sv)" "tr_state t1 = tr_state t" .
  have w': "fired sv2 = fired sv1" "sv_transports sv2 = sv_transports sv1"
    "ch_state (sv_channel sv2) = ch_state (sv_channel sv1)" "tr_state t2 = tr_state t1"
    using w sv_do_write_frame [of k addr t1 sv1 ok2 t2 sv2] by (auto split: if_splits)
  have p: "process_transport k addr t sv =
      (if ok2 \<and> \<not> tr_opm_close t2 \<and> \<not> ch_opm_open (sv_channel sv2) \<and> \<not> ch_opm_close (sv_channel sv2)
            \<and> sv_stop_flag sv2 = 0 then (Some t2, sv2)
         else (None, handle_close addr (if ok2 \<and> tr_error t2 = 0 then t2\<lparr>tr_error := errc_shutdown_by_localhost\<rparr> else t2) sv2))"
    unfolding process_transport_def r Let_def prod.case w ..
  show ?thesis
    using that [of ps] assms r' w' unfolding p by (auto simp: handle_close_frame split: if_splits)
qed

lemma link_inv_process_transports:
  assumes "link_inv sv"
  shows "link_inv (process_transports k sv)"
    and "ch_opm_open (sv_channel (process_transports k sv)) \<Longrightarrow> sv_transports (process_transports k sv) = []"
proof -
  have "link_inv (process_transports k sv) \<and>
    (ch_opm_open (sv_channel (process_transports k sv)) \<longrightarrow> sv_transports (process_transports k sv) = [])"
  proof (cases "sv_transports sv")
    case Nil
    then have "process_transports k sv = sv" by (simp add: process_transports_def)
    with Nil assms show ?thesis by simp
  next
    case (Cons p ts)
    obtain addr t where p: "p = (addr, t)" by (cases p)
    with assms Cons have one: "sv_transports sv = [(addr, t)]" and t: "tr_state t = OPENED"
      by (auto simp: link_inv_def)
    obtain kept sv' where k: "process_transport k addr t sv = (kept, sv')"
      by (cases "process_transport k addr t sv")
    have eq: "process_transports k sv =
        sv'\<lparr>sv_transports := (case kept of None \<Rightarrow> [] | Some t' \<Rightarrow> [(addr, t')])\<rparr>"
      by (simp add: process_transports_def one k split: option.split)
    from process_transport_frame [OF k t] obtain ps where
      "kept = None \<and> (\<exists>e. fired sv' = fired sv @ map Ev_Packet ps @ [Ev_Close e]) \<or>
       (\<exists>t'. kept = Some t' \<and> tr_state t' = OPENED \<and> fired sv' = fired sv @ map Ev_Packet ps \<and>
          ch_state (sv_channel sv') = ch_state (sv_channel sv) \<and> \<not> ch_opm_open (sv_channel sv'))"
      by metis
    with assms one show ?thesis
      unfolding eq by (elim disjE conjE exE) (auto simp: link_inv_def link_after_append link_packets)
  qed
  then show "link_inv (process_transports k sv)"
    and "ch_opm_open (sv_channel (process_transports k sv)) \<Longrightarrow> sv_transports (process_transports k sv) = []"
    by auto
qed

subsubsection \<open>Channels\<close>

lemma update_dns_status_frame [simp]:
  "sv_transports (update_dns_status sv) = sv_transports sv"
  "ch_state (sv_channel (update_dns_status sv)) = ch_state (sv_channel sv)"
  "fired (update_dns_status sv) = fired sv" "ch_error (sv_channel (update_dns_status sv)) = ch_error (sv_channel sv)"
  by (simp_all add: update_dns_status_def upd_channel_def)

lemma resolve_host_state [simp]:
  "ch_state (resolve_host k ch) = ch_state ch" "ch_error (resolve_host k ch) = ch_error ch"
  "ch_state (resolve_port k ch) = ch_state ch" "ch_error (resolve_port k ch) = ch_error ch"
  by (simp_all add: resolve_host_def resolve_port_def Let_def split: option.split)

lemma resolve_query_frame:
  assumes "resolve_query sv = (r, sv')"
  shows "fired sv' = fired sv \<and> sv_transports sv' = sv_transports sv \<and> ch_state (sv_channel sv') = ch_state (sv_channel sv)
    \<and> r \<noteq> 0 \<and> ch_error (sv_channel sv') \<noteq> 0"
  using assms by (auto simp: resolve_query_def start_query_def errno_defs split: if_splits)

lemma do_resolve_frame:
  assumes "do_resolve k sv = (r, sv')"
  shows "fired sv' = fired sv" "sv_transports sv' = sv_transports sv"
    "ch_state (sv_channel sv') = ch_state (sv_channel sv)" "r \<noteq> 0 \<Longrightarrow> ch_error (sv_channel sv') \<noteq> 0"
  using assms unfolding do_resolve_def Let_def
  by (auto split: if_splits dest!: resolve_query_frame)

lemma schedule_timer_frame [simp]:
  "link_inv (schedule_timer tm sv) = link_inv sv" "sv_transports (schedule_timer tm sv) = sv_transports sv"
  "sv_channel (schedule_timer tm sv) = sv_channel sv"
  by (simp_all add: schedule_timer_def sort_timers_def)

lemma cancel_connect_timer_frame [simp]:
  "link_inv (cancel_connect_timer sv) = link_inv sv"
  by (simp add: cancel_connect_timer_def remove_timer_def sort_timers_def split: option.split)

lemma link_inv_idle: "link_inv sv \<Longrightarrow> sv_transports sv = [] \<Longrightarrow> link_inv (upd_channel f sv)"
  by (rule link_inv_channel) simp_all

lemma link_inv_do_connect:
  assumes "link_inv sv" and "sv_transports sv = []"
  shows "link_inv (do_connect k sv)"
proof -
  define sv1 where "sv1 = upd_channel (\<lambda>ch. ch\<lparr>ch_state := CONNECTING\<rparr>)
      (if ch_sock_open (sv_channel sv) then upd_channel (cleanup_channel True) sv else sv)"
  have 1: "link_inv sv1" "sv_transports sv1 = []"
    using assms by (simp_all add: sv1_def link_inv_idle)
  define sv2 where "sv2 = upd_channel (\<lambda>ch. ch\<lparr>ch_sock_open := True\<rparr>) sv1"
  have 2: "link_inv sv2" "sv_transports sv2 = []" using 1 by (simp_all add: sv2_def link_inv_idle)
  have cases: "link_inv (if e \<noteq> 0 then
        if e \<noteq> EINPROGRESS \<and> e \<noteq> EWOULDBLOCK then handle_connect_failed e sv2
        else schedule_timer tm (upd_channel g sv2)
      else handle_connect_succeed sv2)" for e tm g
    using 2 by (simp add: link_inv_failed link_inv_succeed link_inv_idle)
  show ?thesis
  proof (cases "k_popen k (hd (ch_remote_eps (sv_channel sv1))) = 0")
    case True
    show ?thesis
      unfolding do_connect_def Let_def sv1_def [symmetric] if_P [OF True] sv2_def [symmetric] by (rule cases)
  next
    case False
    show ?thesis
      unfolding do_connect_def Let_def sv1_def [symmetric] if_not_P [OF False]
      by (rule link_inv_failed [OF 1 False])
  qed
qed

lemma link_inv_do_connect_completion:
  assumes "link_inv sv" shows "link_inv (do_connect_completion k sv)"
proof (cases "ch_state (sv_channel sv) = CONNECTING")
  case True
  then have "sv_transports sv = []" using link_idle [OF assms] by simp
  then show ?thesis
    using assms by (auto simp: do_connect_completion_def intro: inv_intros split: option.split)
qed (simp add: do_connect_completion_def assms)

lemma link_inv_process_channels:
  assumes "link_inv sv" and "ch_opm_open (sv_channel sv) \<Longrightarrow> sv_transports sv = []"
  shows "link_inv (process_channels k sv)"
proof -
  define sv1 where "sv1 = (if ch_opm_open (sv_channel sv)
      then upd_channel (\<lambda>ch. ch\<lparr>ch_opm_open := False, ch_state := RESOLVING\<rparr>) sv else sv)"
  have 1: "link_inv sv1" using assms by (auto simp: sv1_def intro: link_inv_channel)
  define sv2 where "sv2 = (if ch_state (sv_channel sv1) = RESOLVING then
        let (r, sv) = do_resolve k sv1
        in if r = 0 then do_connect k sv
           else if ch_error (sv_channel sv) \<noteq> EINPROGRESS then handle_connect_failed (ch_error (sv_channel sv)) sv else sv
      else if ch_state (sv_channel sv1) = CONNECTING then do_connect_completion k sv1 else sv1)"
  have 2: "link_inv sv2"
  proof (cases "ch_state (sv_channel sv1) = RESOLVING")
    case True
    then have idle: "sv_transports sv1 = []" using link_idle [OF 1] by simp
    obtain r sv3 where r: "do_resolve k sv1 = (r, sv3)" by (cases "do_resolve k sv1")
    note f = do_resolve_frame [OF r]
    have "link_inv sv3" using link_inv_same [OF 1 f(1-3)] .
    then show ?thesis
      using True idle f by (auto simp: sv2_def r intro: link_inv_do_connect link_inv_failed)
  next
    case False
    then show ?thesis using 1 by (simp add: sv2_def link_inv_do_connect_completion)
  qed
  have "process_channels k sv = (if sv_channel_ops sv then
      if ch_error (sv_channel sv2) \<noteq> EINPROGRESS then sv2\<lparr>sv_channel_ops := False\<rparr> else sv2 else sv)"
    by (simp only: process_channels_def Let_def sv1_def sv2_def)
  then show ?thesis using 2 assms(1) by simp
qed

subsubsection \<open>The program's calls, timers and the loop\<close>

lemma upd_transport_frame:
  assumes "\<And>t. tr_state (f t) = tr_state t"
  shows "link_inv (upd_transport addr f sv) = link_inv sv"
    "sv_transports (upd_transport addr f sv) = [] \<longleftrightarrow> sv_transports sv = []"
proof -
  have "(\<forall>(a, t) \<in> set (map (\<lambda>(a, t). (a, if a = addr then f t else t)) ts). tr_state t = OPENED) \<longleftrightarrow>
      (\<forall>(a, t) \<in> set ts. tr_state t = OPENED)" for ts
    using assms by (induction ts) (auto split: prod.splits)
  then show "link_inv (upd_transport addr f sv) = link_inv sv"
    unfolding upd_transport_def link_inv_def by simp
qed (simp add: upd_transport_def)

lemma link_inv_io_request: "link_inv sv \<Longrightarrow> link_inv (io_request k r sv)"
proof (cases r)
  case (ReqWrite addr buffer)
  moreover assume "link_inv sv"
  ultimately show ?thesis
    using upd_transport_frame(1) [of "tr_write buffer" addr sv]
    by (auto simp: sv_write_def tr_write_def split: option.split)
next
  case (ReqClose addr)
  moreover assume "link_inv sv"
  ultimately show ?thesis
    using upd_transport_frame(1) [of "\<lambda>t. t\<lparr>tr_opm_close := True\<rparr>" addr sv] by (simp add: close_transport_def)
qed (auto simp: do_stop_def close_channel_def open_internal_def schedule_def set_port_def set_host_def Let_def
      intro!: link_inv_channel)

lemma link_inv_io_requests: "link_inv sv \<Longrightarrow> link_inv (io_requests k reqs sv)"
  unfolding io_requests_def by (induction reqs arbitrary: sv) (simp_all add: link_inv_io_request)

lemma link_inv_handle_event:
  assumes "link_inv sv" and "sv_deal sv = ev # evs"
  shows "link_inv (handle_event code k ev (sv\<lparr>sv_deal := evs\<rparr>))"
proof -
  have "fired (sv\<lparr>sv_deal := evs, sv_app := a, delivered := delivered sv @ [ev]\<rparr>) = fired sv" for a
    using assms(2) by (simp add: fired_def)
  then have "link_inv (sv\<lparr>sv_deal := evs, sv_app := a, delivered := delivered sv @ [ev]\<rparr>)" for a
    using assms(1) by (simp add: link_inv_def)
  then show ?thesis
    by (simp add: handle_event_def link_inv_io_requests split: prod.split)
qed

lemma link_inv_consume: "link_inv sv \<Longrightarrow> link_inv (consume code k n sv)"
proof (induction code k n sv rule: consume.induct)
  case (1 code k n sv)
  show ?case
  proof (cases "sv_deal sv = [] \<or> n = 0")
    case True
    with 1(2) show ?thesis by (subst consume.simps) (auto split: list.split)
  next
    case False
    then obtain ev evs where d: "sv_deal sv = ev # evs" and "n \<noteq> 0" by (cases "sv_deal sv") auto
    then show ?thesis
      using 1(1) [OF d \<open>n \<noteq> 0\<close> link_inv_handle_event [OF 1(2) d]] by (subst consume.simps) simp
  qed
qed

lemma link_inv_dispatch: "link_inv sv \<Longrightarrow> link_inv (snd (dispatch code k n sv))"
proof -
  assume a: "link_inv sv"
  have "sv_deal sv = [] \<Longrightarrow> link_inv (sv\<lparr>sv_deal := sv_queue sv, sv_queue := []\<rparr>)"
    using a by (simp add: link_inv_def fired_def)
  with a show ?thesis by (simp add: dispatch_def Let_def link_inv_consume)
qed

lemma link_inv_timer_callback: "link_inv sv \<Longrightarrow> link_inv (snd (timer_callback code k key sv))"
  by (auto simp: timer_callback_def errno_defs link_inv_io_requests intro: link_inv_failed link_idle
      split: timer_key.split prod.split)

lemma link_inv_timers_loop:
  fixes code :: "'a client_code" and k :: "'ep kernel" and sv :: "('ep, 'a) io_service"
  assumes "timers_loop code k n sv = Some r"
  shows "link_inv sv \<longrightarrow> link_inv (snd r)"
proof (rule timers_loop.raw_induct [where P = "\<lambda>code k n sv r. link_inv sv \<longrightarrow> link_inv (snd r)", OF _ assms],
    rule impI)
  fix rec and code :: "'a client_code" and k :: "'ep kernel" and n :: nat and sv :: "('ep, 'a) io_service" and r
  assume 1: "\<And>code k n sv r. rec code k n sv = Some r \<Longrightarrow> link_inv sv \<longrightarrow> link_inv (snd r)"
    "(if sv_timers sv = [] then Some (n, sv)
      else let tm = last (sv_timers sv)
           in if expired tm sv then
                let (once, sv) = timer_callback code k (tm_key tm) (sv\<lparr>sv_timers := butlast (sv_timers sv)\<rparr>)
                in if \<not> once
                   then rec code k (n + 1) (sv\<lparr>sv_timers := sv_timers sv @ [expires_from_now (k_now k) tm]\<rparr>)
                   else rec code k n sv
              else Some (n, sv)) = Some r"
    and inv: "link_inv sv"
    show "link_inv (snd r)"
    proof (cases "sv_timers sv = [] \<or> \<not> expired (last (sv_timers sv)) sv")
      case True
      with 1(2) inv show ?thesis by (auto simp: Let_def split: if_splits)
    next
      case False
      define tm where "tm = last (sv_timers sv)"
      define c where "c = timer_callback code k (tm_key tm) (sv\<lparr>sv_timers := butlast (sv_timers sv)\<rparr>)"
      have c: "link_inv (snd c)" using inv by (simp add: c_def link_inv_timer_callback)
      have "(if \<not> fst c then rec code k (Suc n) ((snd c)\<lparr>sv_timers := sv_timers (snd c) @ [expires_from_now (k_now k) tm]\<rparr>)
          else rec code k n (snd c)) = Some r"
        using False 1(2) by (auto simp: Let_def tm_def c_def case_prod_beta split: if_splits)
      then show ?thesis
        using c 1(1) by (auto split: if_splits)
    qed
qed

lemma link_inv_process_timers:
  assumes "link_inv sv" and "process_timers code k sv = Some sv'" shows "link_inv sv'"
  using assms link_inv_timers_loop [of code k 0 sv]
  by (auto simp: process_timers_def sort_timers_def split: if_splits)

lemma link_inv_io_turn:
  assumes "link_inv sv" and "io_turn code k sv = Some (b, sv')" shows "link_inv sv'"
proof -
  define sv1 where "sv1 = (case k_resolved k of None \<Rightarrow> sv | Some r \<Rightarrow> query_done (k_now k) r sv)"
  have 1: "link_inv sv1" using assms(1) by (auto simp: sv1_def query_done_def intro: link_inv_channel split: option.split sum.split)
  define sv2 where "sv2 = (if k_signal k then let (a, reqs) = on_signal code (sv_app sv1) in io_requests k reqs (sv1\<lparr>sv_app := a\<rparr>)
                else sv1)"
  have 2: "link_inv sv2" using 1 by (simp add: sv2_def link_inv_io_requests split: prod.split)
  obtain usec sv3 where 3: "get_timeout (sv_wait_duration (sv2\<lparr>sv_current_time := k_time k\<rparr>)) (sv2\<lparr>sv_current_time := k_time k\<rparr>) = (usec, sv3)"
    by (cases "get_timeout (sv_wait_duration (sv2\<lparr>sv_current_time := k_time k\<rparr>)) (sv2\<lparr>sv_current_time := k_time k\<rparr>)")
  have inv3: "link_inv sv3" using 2 3 by (auto simp: get_timeout_def Let_def split: if_splits)
  have t: "io_turn code k sv = (case (if usec > 0 then k_poll k else PollOk) of
           PollError e \<Rightarrow> Some (e = EBADF, sv3)
         | PollOk \<Rightarrow> map_option (\<lambda>sv. (False, process_deferred_events code k sv))
               (process_timers code k (process_channels k (process_transports k sv3))))"
    by (simp only: io_turn_def Let_def 3 [unfolded sv2_def Let_def] sv1_def [symmetric] prod.case)
  have "link_inv (process_channels k (process_transports k sv3))"
    using link_inv_process_transports [OF inv3] by (rule link_inv_process_channels)
  then have "process_timers code k (process_channels k (process_transports k sv3)) = Some sv4 \<Longrightarrow>
      link_inv (process_deferred_events code k sv4)" for sv4
    using link_inv_dispatch [of sv4 code k 128] link_inv_process_timers
    by (cases "dispatch code k 128 sv4") (auto simp: process_deferred_events_def)
  with assms(2) inv3 show ?thesis
    unfolding t by (auto split: poll_result.splits)
qed

lemma link_inv_handle_stop:
  assumes "link_inv sv" shows "link_after False (fired (handle_stop code k sv)) \<noteq> None"
proof -
  define sv1 where "sv1 = (if sv_queue sv \<noteq> [] then snd (dispatch code k (2 ^ 31 - 1) sv) else sv)"
  have "link_inv sv1" using assms by (simp add: sv1_def link_inv_dispatch)
  then have "link_after False (fired sv1) \<noteq> None" by (simp add: link_inv_def)
  moreover have "fired (clear_transports sv1) = fired sv1"
    by (simp add: clear_transports_def)
  ultimately show ?thesis using assms
    by (simp add: handle_stop_def Let_def sv1_def [symmetric] link_inv_def)
qed

lemma link_inv_new: "link_inv (new_io_service a)"
  by (simp add: link_inv_def new_io_service_def fired_def)

lemma link_inv_io_run:
  assumes "io_run code ks sv = Some (b, sv')" and "link_inv sv"
  shows "link_after False (fired sv') \<noteq> None"
  using assms
proof (induction ks arbitrary: sv)
  case Nil
  then show ?case by (simp add: link_inv_def)
next
  case (Cons k ks)
  from Cons.prems(1) obtain left sv1 where t: "io_turn code k sv = Some (left, sv1)"
    by (auto split: option.splits)
  have 1: "link_inv sv1" by (rule link_inv_io_turn [OF Cons.prems(2) t])
  have "link_inv (handle_worker_exit sv1)" using 1 by (simp add: handle_worker_exit_def)
  then have "link_after False (fired (handle_stop code k (handle_worker_exit sv1))) \<noteq> None"
    by (rule link_inv_handle_stop)
  with t Cons.prems(1) Cons.IH [OF _ 1] show ?case by (auto split: if_splits)
qed

subsection \<open>The loop over timers ends\<close>

definition expired_timers :: "('ep, 'a) io_service \<Rightarrow> nat" where
  "expired_timers sv = size (filter_mset (\<lambda>tm. expired tm sv) (mset (sv_timers sv)))"

fun positive_request :: "sv_request \<Rightarrow> bool" where
  "positive_request (ReqSchedule n duration) \<longleftrightarrow> 0 < duration"
| "positive_request r \<longleftrightarrow> True"

text \<open>A program all of whose timers have positive durations.\<close>

definition positive_code :: "'a client_code \<Rightarrow> bool" where
  "positive_code code \<longleftrightarrow>
     (\<forall>ev a. list_all positive_request (snd (on_event code ev a))) \<and>
     (\<forall>n a. list_all positive_request (snd (snd (on_timer code n a)))) \<and>
     (\<forall>a. list_all positive_request (snd (on_signal code a)))"

definition timers_ok :: "('ep, 'a) io_service \<Rightarrow> bool" where
  "timers_ok sv \<longleftrightarrow> (\<forall>tm \<in> set (sv_timers sv). 0 < tm_duration tm)"

text \<open>A step that keeps the clock, adds no expired timer and only timers of positive duration.\<close>

definition calm_timers :: "('ep, 'a) io_service \<Rightarrow> ('ep, 'a) io_service \<Rightarrow> bool" where
  "calm_timers sv sv' \<longleftrightarrow> sv_current_time sv' = sv_current_time sv \<and>
     expired_timers sv' \<le> expired_timers sv \<and> (timers_ok sv \<longrightarrow> timers_ok sv')"

lemma calm_trans: "calm_timers a b \<Longrightarrow> calm_timers b c \<Longrightarrow> calm_timers a c"
  by (simp add: calm_timers_def)

lemma calm_same: "sv_current_time sv' = sv_current_time sv \<Longrightarrow> sv_timers sv' = sv_timers sv \<Longrightarrow> calm_timers sv sv'"
  by (simp add: calm_timers_def expired_timers_def timers_ok_def expired_def wait_duration_def)

lemma expired_cong: "sv_current_time sv' = sv_current_time sv \<Longrightarrow> expired tm sv' = expired tm sv"
  by (simp add: expired_def wait_duration_def)

lemma calm_sort: "calm_timers sv sv' \<Longrightarrow> calm_timers sv (sort_timers sv')"
  by (auto simp: calm_timers_def expired_timers_def timers_ok_def sort_timers_def expired_def wait_duration_def)

lemma filter_replace_le:
  assumes "\<not> P x"
  shows "size (filter_mset P (mset (map (\<lambda>t. if Q t then x else t) ts))) \<le> size (filter_mset P (mset ts))"
  using assms by (induction ts) auto

lemma calm_schedule_timer:
  assumes "\<not> expired tm sv" and "0 < tm_duration tm"
  shows "calm_timers sv (schedule_timer tm sv)"
  unfolding schedule_timer_def
proof (rule calm_sort)
  let ?ts = "if tm_key tm \<in> set (map tm_key (sv_timers sv))
        then map (\<lambda>t. if tm_key t = tm_key tm then tm else t) (sv_timers sv) else sv_timers sv @ [tm]"
  have "size (filter_mset (\<lambda>t. expired t sv) (mset ?ts)) \<le> size (filter_mset (\<lambda>t. expired t sv) (mset (sv_timers sv)))"
    using assms(1) filter_replace_le [of "\<lambda>t. expired t sv" tm "\<lambda>t. tm_key t = tm_key tm" "sv_timers sv"] by auto
  moreover have "expired t (sv\<lparr>sv_timers := ?ts\<rparr>) = expired t sv" for t by (rule expired_cong) simp
  ultimately show "calm_timers sv (sv\<lparr>sv_timers := ?ts\<rparr>)"
    using assms(2) by (auto simp: calm_timers_def expired_timers_def timers_ok_def)
qed

lemma calm_io_request:
  assumes "sv_current_time sv \<le> k_now k" and "positive_request r"
  shows "calm_timers sv (io_request k r sv)"
proof (cases r)
  case (ReqSchedule n duration)
  then show ?thesis
    using assms by (auto simp: schedule_def intro!: calm_schedule_timer simp: expired_def wait_duration_def expires_from_now_def)
next
  case (ReqWrite addr buffer)
  then show ?thesis by (auto intro!: calm_same simp: sv_write_def upd_transport_def split: option.split)
qed (auto intro!: calm_same simp: close_transport_def upd_transport_def do_stop_def close_channel_def
      open_internal_def upd_channel_def Let_def)

lemma calm_io_requests:
  assumes "sv_current_time sv \<le> k_now k" and "list_all positive_request reqs"
  shows "calm_timers sv (io_requests k reqs sv)"
  using assms unfolding io_requests_def
proof (induction reqs arbitrary: sv)
  case Nil
  then show ?case by (simp add: calm_same)
next
  case (Cons r reqs)
  then have 1: "calm_timers sv (io_request k r sv)" by (auto intro: calm_io_request)
  with Cons.prems Cons.IH [of "io_request k r sv"] show ?case
    by (auto simp: calm_timers_def)
qed

lemma calm_timer_callback:
  assumes "sv_current_time sv \<le> k_now k" and "positive_code code"
  shows "calm_timers sv (snd (timer_callback code k key sv))"
proof (cases key)
  case ConnectTimer
  then show ?thesis
    by (auto simp: timer_callback_def handle_connect_failed_def fire_event_def intro!: calm_same)
next
  case (UserTimer n)
  obtain once a reqs where t: "on_timer code n (sv_app sv) = (once, a, reqs)" by (cases "on_timer code n (sv_app sv)")
  then have "list_all positive_request reqs" using assms(2) by (metis positive_code_def snd_conv)
  then have "calm_timers (sv\<lparr>sv_app := a\<rparr>) (io_requests k reqs (sv\<lparr>sv_app := a\<rparr>))"
    using assms(1) by (intro calm_io_requests) simp_all
  moreover have "calm_timers sv (sv\<lparr>sv_app := a\<rparr>)" by (rule calm_same) simp_all
  ultimately show ?thesis using UserTimer t by (auto simp: timer_callback_def intro: calm_trans)
qed

lemma timers_loop_total:
  assumes "positive_code code" and "sv_current_time sv \<le> k_now k" and "timers_ok sv"
  shows "\<exists>n' sv'. timers_loop code k n sv = Some (n', sv') \<and> timers_ok sv'"
  using assms(2,3)
proof (induction "expired_timers sv" arbitrary: sv n rule: less_induct)
  case less
  show ?case
  proof (cases "sv_timers sv = [] \<or> \<not> expired (last (sv_timers sv)) sv")
    case True
    with less.prems show ?thesis by (subst timers_loop.simps) (auto simp: Let_def)
  next
    case False
    define tm where "tm = last (sv_timers sv)"
    have timers: "sv_timers sv = butlast (sv_timers sv) @ [tm]" and "expired tm sv"
      using False by (simp_all add: tm_def)
    let ?sv0 = "sv\<lparr>sv_timers := butlast (sv_timers sv)\<rparr>"
    obtain once sv1 where c: "timer_callback code k (tm_key tm) ?sv0 = (once, sv1)"
      by (cases "timer_callback code k (tm_key tm) ?sv0")
    have ok0: "timers_ok ?sv0" "0 < tm_duration tm"
      using less.prems(2) timers unfolding timers_ok_def by (auto dest: in_set_butlastD) (metis in_set_conv_decomp)
    have "expired_timers sv = Suc (expired_timers ?sv0)"
      unfolding expired_timers_def expired_def wait_duration_def
      by (subst timers) (use \<open>expired tm sv\<close> in \<open>simp add: expired_def wait_duration_def\<close>)
    moreover have calm: "calm_timers ?sv0 sv1"
      using calm_timer_callback [of ?sv0 k code "tm_key tm"] less.prems(1) assms(1) c by simp
    ultimately have lt: "expired_timers sv1 < expired_timers sv" and now: "sv_current_time sv1 \<le> k_now k"
      and ok: "timers_ok sv1"
      using less.prems(1) ok0 by (auto simp: calm_timers_def)
    let ?sv2 = "sv1\<lparr>sv_timers := sv_timers sv1 @ [expires_from_now (k_now k) tm]\<rparr>"
    have "\<not> expired (expires_from_now (k_now k) tm) sv1"
      using now ok0(2) by (simp add: expired_def wait_duration_def expires_from_now_def)
    then have "expired_timers ?sv2 = expired_timers sv1"
      by (simp add: expired_timers_def expired_def wait_duration_def)
    moreover have "timers_ok ?sv2" using ok ok0(2) by (auto simp: timers_ok_def expires_from_now_def)
    moreover have "timers_loop code k n sv =
        (if \<not> once then timers_loop code k (n + 1) ?sv2 else timers_loop code k n sv1)"
      by (subst timers_loop.simps) (use False c in \<open>simp add: Let_def tm_def\<close>)
    ultimately show ?thesis
      using less.hyps [of sv1] less.hyps [of ?sv2] lt now ok by simp
  qed
qed

text \<open>The other steps of a turn leave the timers and the clock, or start the connect timer.\<close>

definition clocks :: "('ep, 'a) io_service \<Rightarrow> int \<times> highp_timer list" where
  "clocks sv = (sv_current_time sv, sv_timers sv)"

lemma clocks_simps [simp]:
  "clocks (fire_event ev sv) = clocks sv" "clocks (upd_channel f sv) = clocks sv"
  "clocks (sv\<lparr>sv_transports := x1\<rparr>) = clocks sv" "clocks (sv\<lparr>sv_channel := x2\<rparr>) = clocks sv"
  "clocks (sv\<lparr>sv_wait_duration := x3\<rparr>) = clocks sv" "clocks (sv\<lparr>wire := x4\<rparr>) = clocks sv"
  "clocks (sv\<lparr>sv_tpool := x5\<rparr>) = clocks sv" "clocks (sv\<lparr>sv_fresh := x6\<rparr>) = clocks sv"
  "clocks (sv\<lparr>sv_channel_ops := x7\<rparr>) = clocks sv" "clocks (sv\<lparr>sv_dns_dirty := x8\<rparr>) = clocks sv"
  "clocks (handle_close addr t sv) = clocks sv" "clocks (handle_connect_failed e sv) = clocks sv"
  "clocks (handle_connect_succeed sv) = clocks sv" "clocks (update_dns_status sv) = clocks sv"
  by (simp_all add: clocks_def fire_event_def upd_channel_def handle_close_def Let_def deallocate_transport_def
      handle_connect_failed_def handle_connect_succeed_def allocate_transport_def active_transport_def
      notify_connect_succeed_def update_dns_status_def)

lemma calm_clocks: "clocks sv' = clocks sv \<Longrightarrow> calm_timers sv sv'"
  by (rule calm_same) (simp_all add: clocks_def)

lemma clocks_fold: "clocks (fold (\<lambda>p. fire_event (Ev_Packet p)) ps sv) = clocks sv"
  by (induction ps arbitrary: sv) simp_all

lemma clocks_process_transport: "clocks (snd (process_transport k addr t sv)) = clocks sv"
proof -
  have r: "clocks (snd (snd (sv_do_read k addr t sv))) = clocks sv"
    by (auto simp: sv_do_read_def Let_def clocks_fold split: sum.split prod.split)
  have w: "clocks (snd (snd (sv_do_write k addr t sv))) = clocks sv" for t and sv :: "('a, 'b) io_service"
    by (auto simp: sv_do_write_def split: sum.split prod.split)
  obtain ok1 t1 sv1 where 1: "sv_do_read k addr t sv = (ok1, t1, sv1)" by (cases "sv_do_read k addr t sv")
  obtain ok2 t2 sv2 where 2: "(if ok1 then sv_do_write k addr t1 sv1 else (False, t1, sv1)) = (ok2, t2, sv2)"
    by (cases "if ok1 then sv_do_write k addr t1 sv1 else (False, t1, sv1)")
  have "clocks sv2 = clocks sv" using r 1 2 w [of t1 sv1] by (auto split: if_splits)
  then show ?thesis
    unfolding process_transport_def 1 Let_def prod.case 2 by simp
qed

lemma clocks_process_each: "clocks (snd (process_each k ts sv)) = clocks sv"
proof (induction ts arbitrary: sv)
  case (Cons p ts)
  obtain addr t where p: "p = (addr, t)" by (cases p)
  obtain kept sv1 where 1: "process_transport k addr t sv = (kept, sv1)" by (cases "process_transport k addr t sv")
  obtain ts2 sv2 where 2: "process_each k ts sv1 = (ts2, sv2)" by (cases "process_each k ts sv1")
  show ?case using clocks_process_transport [of k addr t sv] Cons.IH [of sv1] by (simp add: p 1 2)
qed simp

lemma clocks_process_transports [simp]: "clocks (process_transports k sv) = clocks sv"
proof -
  obtain ts sv1 where 1: "process_each k (sv_transports sv) sv = (ts, sv1)"
    by (cases "process_each k (sv_transports sv) sv")
  show ?thesis using clocks_process_each [of k "sv_transports sv" sv] by (simp add: process_transports_def 1)
qed

lemma clocks_do_resolve: "do_resolve k sv = (r, sv') \<Longrightarrow> clocks sv' = clocks sv"
  by (auto simp: do_resolve_def resolve_query_def start_query_def Let_def split: if_splits)

lemma calm_do_connect:
  assumes "sv_current_time sv \<le> k_now k"
  shows "calm_timers sv (do_connect k sv)"
proof -
  have tm: "calm_timers sv (schedule_timer (expires_from_now (k_now k)
      \<lparr>tm_key = ConnectTimer, tm_duration = connect_timeout, tm_expire = 0\<rparr>) sv')" if "clocks sv' = clocks sv" for sv'
  proof (rule calm_trans [OF calm_clocks [OF that]], rule calm_schedule_timer)
    have "sv_current_time sv' = sv_current_time sv" using that by (simp add: clocks_def)
    then show "\<not> expired (expires_from_now (k_now k)
        \<lparr>tm_key = ConnectTimer, tm_duration = connect_timeout, tm_expire = 0\<rparr>) sv'"
      using assms by (simp add: expired_def wait_duration_def expires_from_now_def connect_timeout_def)
  qed (simp add: expires_from_now_def connect_timeout_def)
  show ?thesis
    unfolding do_connect_def Let_def
    by (intro if_split [where P = "calm_timers sv", THEN iffD2] conjI impI tm calm_clocks) simp_all
qed

lemma calm_cancel: "calm_timers sv sv' \<Longrightarrow> calm_timers sv (cancel_connect_timer sv')"
proof -
  have rem: "calm_timers sv' (sv'\<lparr>sv_timers := filter P (sv_timers sv')\<rparr>)" for P
    by (auto simp: calm_timers_def timers_ok_def expired_timers_def expired_def wait_duration_def
        intro!: size_mset_mono multiset_filter_mono)
  assume "calm_timers sv sv'"
  then show ?thesis
    unfolding cancel_connect_timer_def remove_timer_def
    by (auto split: option.split intro: calm_trans [OF _ calm_sort [OF rem]])
qed

lemma calm_process_channels:
  assumes "sv_current_time sv \<le> k_now k"
  shows "calm_timers sv (process_channels k sv)"
proof -
  have ops: "calm_timers sv sv1 \<Longrightarrow> calm_timers sv (if c then sv1\<lparr>sv_channel_ops := False\<rparr> else sv1)" for sv1 c
    using calm_trans [of sv sv1 "sv1\<lparr>sv_channel_ops := False\<rparr>"] by (simp add: calm_clocks)
  have conn: "calm_timers sv (do_connect k sv1)" if "clocks sv1 = clocks sv" for sv1
    using that assms by (intro calm_trans [OF calm_clocks calm_do_connect]) (simp_all add: clocks_def)
  have compl: "calm_timers sv (do_connect_completion k sv1)" if "clocks sv1 = clocks sv" for sv1
    using that by (auto simp: do_connect_completion_def intro!: calm_clocks calm_cancel split: option.split)
  define sv1 where "sv1 = (if ch_opm_open (sv_channel sv)
      then upd_channel (\<lambda>ch. ch\<lparr>ch_opm_open := False, ch_state := RESOLVING\<rparr>) sv else sv)"
  have 1: "clocks sv1 = clocks sv" by (simp add: sv1_def)
  define sv2 where "sv2 = (if ch_state (sv_channel sv1) = RESOLVING then
        let (r, sv) = do_resolve k sv1
        in if r = 0 then do_connect k sv
           else if ch_error (sv_channel sv) \<noteq> EINPROGRESS then handle_connect_failed (ch_error (sv_channel sv)) sv else sv
      else if ch_state (sv_channel sv1) = CONNECTING then do_connect_completion k sv1 else sv1)"
  have "calm_timers sv sv2"
  proof (cases "do_resolve k sv1")
    case (Pair r sv3)
    then have "clocks sv3 = clocks sv" using clocks_do_resolve [OF Pair] 1 by simp
    then show ?thesis
      using 1 Pair by (auto simp: sv2_def intro: conn compl calm_clocks)
  qed
  moreover have "process_channels k sv = (if sv_channel_ops sv then
      if ch_error (sv_channel sv2) \<noteq> EINPROGRESS then sv2\<lparr>sv_channel_ops := False\<rparr> else sv2 else sv)"
    by (simp only: process_channels_def Let_def sv1_def sv2_def)
  ultimately show ?thesis using ops [of sv2 "ch_error (sv_channel sv2) \<noteq> EINPROGRESS"] by (simp add: calm_clocks)
qed

lemma timers_ok_same [simp]:
  "timers_ok (sv\<lparr>sv_transports := x1\<rparr>) = timers_ok sv" "timers_ok (sv\<lparr>sv_channel := x2\<rparr>) = timers_ok sv"
  "timers_ok (sv\<lparr>sv_wait_duration := x3\<rparr>) = timers_ok sv" "timers_ok (sv\<lparr>sv_state := x4\<rparr>) = timers_ok sv"
  "timers_ok (sv\<lparr>sv_app := x5\<rparr>) = timers_ok sv" "timers_ok (sv\<lparr>delivered := x6\<rparr>) = timers_ok sv"
  "timers_ok (sv\<lparr>sv_deal := x7\<rparr>) = timers_ok sv" "timers_ok (sv\<lparr>sv_queue := x8\<rparr>) = timers_ok sv"
  "timers_ok (sv\<lparr>sv_current_time := x9\<rparr>) = timers_ok sv" "timers_ok (sv\<lparr>sv_stop_flag := x10\<rparr>) = timers_ok sv"
  "timers_ok (sv\<lparr>sv_channel_ops := x11\<rparr>) = timers_ok sv" "timers_ok (upd_channel f sv) = timers_ok sv"
  by (simp_all add: timers_ok_def)

lemma timers_ok_io_request:
  assumes "timers_ok sv" and "positive_request r" shows "timers_ok (io_request k r sv)"
proof (cases r)
  case (ReqSchedule n duration)
  then show ?thesis
    using assms by (auto simp: schedule_def schedule_timer_def sort_timers_def timers_ok_def expires_from_now_def)
next
  case (ReqWrite addr buffer)
  then show ?thesis using assms by (simp add: sv_write_def upd_transport_def split: option.split)
qed (use assms in \<open>simp_all add: close_transport_def upd_transport_def do_stop_def close_channel_def
      open_internal_def Let_def\<close>)

lemma timers_ok_io_requests:
  "timers_ok sv \<Longrightarrow> list_all positive_request reqs \<Longrightarrow> timers_ok (io_requests k reqs sv)"
  unfolding io_requests_def by (induction reqs arbitrary: sv) (simp_all add: timers_ok_io_request)

lemma timers_ok_consume:
  "timers_ok sv \<Longrightarrow> positive_code code \<Longrightarrow> timers_ok (consume code k n sv)"
proof (induction code k n sv rule: consume.induct)
  case (1 code k n sv)
  show ?case
  proof (cases "sv_deal sv = [] \<or> n = 0")
    case True
    with 1(2) show ?thesis by (subst consume.simps) (auto split: list.split)
  next
    case False
    then obtain ev evs where d: "sv_deal sv = ev # evs" and "n \<noteq> 0" by (cases "sv_deal sv") auto
    have "list_all positive_request (snd (on_event code ev (sv_app sv)))"
      using 1(3) by (simp add: positive_code_def)
    then have "timers_ok (handle_event code k ev (sv\<lparr>sv_deal := evs\<rparr>))"
      using 1(2) by (auto simp: handle_event_def split: prod.split intro!: timers_ok_io_requests)
    then show ?thesis
      using 1(1) [OF d \<open>n \<noteq> 0\<close> _ 1(3)] d \<open>n \<noteq> 0\<close> by (subst consume.simps) simp
  qed
qed

lemma timers_ok_deferred:
  "timers_ok sv \<Longrightarrow> positive_code code \<Longrightarrow> timers_ok (process_deferred_events code k sv)"
  by (simp add: process_deferred_events_def dispatch_def Let_def timers_ok_consume)

lemma io_turn_total:
  assumes "positive_code code" and "timers_ok sv" and "k_time k \<le> k_now k"
  shows "\<exists>left sv'. io_turn code k sv = Some (left, sv') \<and> timers_ok sv'"
proof -
  define sv1 where "sv1 = (case k_resolved k of None \<Rightarrow> sv | Some r \<Rightarrow> query_done (k_now k) r sv)"
  have 1: "timers_ok sv1" using assms(2) by (auto simp: sv1_def query_done_def split: option.split sum.split)
  define sv2 where "sv2 = (if k_signal k then let (a, reqs) = on_signal code (sv_app sv1) in io_requests k reqs (sv1\<lparr>sv_app := a\<rparr>)
                else sv1)"
  have "list_all positive_request (snd (on_signal code (sv_app sv1)))" using assms(1) by (simp add: positive_code_def)
  then have 2: "timers_ok sv2" using 1 by (auto simp: sv2_def split: prod.split intro!: timers_ok_io_requests)
  obtain usec sv3 where 3: "get_timeout (sv_wait_duration (sv2\<lparr>sv_current_time := k_time k\<rparr>)) (sv2\<lparr>sv_current_time := k_time k\<rparr>) = (usec, sv3)"
    by (cases "get_timeout (sv_wait_duration (sv2\<lparr>sv_current_time := k_time k\<rparr>)) (sv2\<lparr>sv_current_time := k_time k\<rparr>)")
  have sv3: "timers_ok sv3" "sv_current_time sv3 = k_time k"
    using 2 3 by (auto simp: get_timeout_def Let_def split: if_splits)
  have t: "io_turn code k sv = (case (if usec > 0 then k_poll k else PollOk) of
           PollError e \<Rightarrow> Some (e = EBADF, sv3)
         | PollOk \<Rightarrow> map_option (\<lambda>sv. (False, process_deferred_events code k sv))
               (process_timers code k (process_channels k (process_transports k sv3))))"
    by (simp only: io_turn_def Let_def 3 [unfolded sv2_def Let_def] sv1_def [symmetric] prod.case)
  let ?sv4 = "process_channels k (process_transports k sv3)"
  have pt: "calm_timers sv3 (process_transports k sv3)" by (simp add: calm_clocks)
  have "calm_timers sv3 ?sv4"
    using pt sv3(2) assms(3) by (intro calm_trans [OF pt calm_process_channels]) (simp add: calm_timers_def)
  then have 4: "timers_ok ?sv4" "sv_current_time ?sv4 \<le> k_now k"
    using sv3 assms(3) by (simp_all add: calm_timers_def)
  obtain n sv5 where "timers_loop code k 0 ?sv4 = Some (n, sv5)" "timers_ok sv5"
    using timers_loop_total [OF assms(1) 4(2,1)] by blast
  then have "\<exists>sv6. process_timers code k ?sv4 = Some sv6 \<and> timers_ok sv6"
    using 4(1) by (auto simp: process_timers_def sort_timers_def timers_ok_def)
  then show ?thesis
    using sv3(1) timers_ok_deferred [OF _ assms(1)] unfolding t by (auto split: poll_result.split)
qed

lemma io_run_total:
  assumes "positive_code code" and "\<forall>k\<in>set ks. k_time k \<le> k_now k" and "timers_ok sv"
  shows "io_run code ks sv \<noteq> None"
  using assms(2,3)
proof (induction ks arbitrary: sv)
  case (Cons k ks)
  then obtain left sv1 where "io_turn code k sv = Some (left, sv1)" "timers_ok sv1"
    using io_turn_total [OF assms(1) Cons.prems(2), of k] by auto
  with Cons show ?case by auto
qed simp

text \<open>What the program asked for before it started the service.\<close>

definition prepared :: "'ep kernel \<Rightarrow> sv_request list \<Rightarrow> 'a \<Rightarrow> ('ep, 'a) io_service" where
  "prepared k reqs a = sv_start (io_requests k reqs (new_io_service a))"

text \<open>C16. The io service keeps running and delivers the events of a connection in order, whatever
  the system does and whatever the program calls. For every program whose timers have positive
  durations and every sequence of outcomes of the system calls, no turn of the loop gets stuck
  in its timers, and the handler sees events in this order only: the connection opens, packets
  come while it is open, it closes, and only then may it open again; failures to open are
  reported only while it is not open.\<close>
theorem event_order:
  assumes "positive_code code" and "list_all positive_request reqs" and "\<forall>k\<in>set ks. k_time k \<le> k_now k"
  shows "\<exists>running sv. io_run code ks (prepared k0 reqs a) = Some (running, sv) \<and>
    link_after False (delivered sv) \<noteq> None"
proof -
  have "timers_ok (new_io_service a)" by (simp add: timers_ok_def new_io_service_def)
  then have t: "timers_ok (prepared k0 reqs a)"
    using timers_ok_io_requests [OF _ assms(2)] by (simp add: prepared_def sv_start_def)
  have l: "link_inv (prepared k0 reqs a)"
    by (simp add: prepared_def sv_start_def link_inv_io_requests link_inv_new)
  obtain running sv where r: "io_run code ks (prepared k0 reqs a) = Some (running, sv)"
    using io_run_total [OF assms(1,3) t] by auto
  have "link_after False (fired sv) \<noteq> None" by (rule link_inv_io_run [OF r l])
  then have "link_after False (delivered sv) \<noteq> None"
    by (auto simp: fired_def link_after_append split: option.splits)
  with r show ?thesis by blast
qed

text \<open>A program that answers every packet, and a system where the connection is made at once.\<close>

definition echo_code :: "nat client_code" where
  "echo_code = \<lparr>on_event = (\<lambda>ev a. case ev of Ev_Open st t \<Rightarrow> (t, []) | Ev_Packet p \<Rightarrow> (a, [ReqWrite a p]) | _ \<Rightarrow> (a, [])),
     on_timer = (\<lambda>n a. (False, a, [])), on_signal = (\<lambda>a. (a, [ReqClose a, ReqStop]))\<rparr>"

definition quiet_kernel :: "nat kernel" where
  "quiet_kernel = \<lparr>k_time = 0, k_now = 0, k_poll = PollOk, k_recv = (\<lambda>_. RecvFailed 11), k_send = (\<lambda>_. Accepted 0),
     k_as_in = (\<lambda>_ port. Some port), k_set_port = (\<lambda>port _. port), k_resolved = None, k_popen = (\<lambda>_. 0),
     k_bind = (\<lambda>_ _. 0), k_connect = (\<lambda>_. 0), k_ready = True, k_so_error = Some 0, k_signal = False\<rparr>"

lemma echo_positive: "positive_code echo_code"
  by (simp add: positive_code_def echo_code_def split: net_event.split)

theorem event_order_witness:
  "\<exists>running sv. io_run echo_code [quiet_kernel, quiet_kernel\<lparr>k_time := 5, k_now := 6, k_signal := True\<rparr>]
      (prepared quiet_kernel [ReqEndpoint ''127.0.0.1'' 7000, ReqSchedule 0 33333, ReqOpen] 0) = Some (running, sv) \<and>
    link_after False (delivered sv) \<noteq> None"
  using event_order [of echo_code "[ReqEndpoint ''127.0.0.1'' 7000, ReqSchedule 0 33333, ReqOpen]"
      "[quiet_kernel, quiet_kernel\<lparr>k_time := 5, k_now := 6, k_signal := True\<rparr>]" quiet_kernel 0]
  by (simp add: echo_positive quiet_kernel_def)

end
