(* ===== verification/BattleRoom.thy ===== *)
theory BattleRoom
  imports PbBattle Float32 "HOL-Library.Signed_Division"
begin

section \<open>A battle room\<close>

text \<open>
  \<open>battle/src/battle/BattleRoom.cpp\<close>, \<open>.h\<close> and \<open>BattleTypes.h\<close>: one battle with its world,
  its players, the input they send, the fixed step and the snapshot of the world.

  The game world (\<open>mugen\<close>, of the client's repository) is the record \<open>mugen\<close> of the functions
  the room calls on it, over a world type \<open>'w\<close>; entities are named by their ids. Coordinates
  are the 32-bit integers the room computes with; the additions and multiplications wrap where
  C++ leaves an overflow undefined.
\<close>

subsection \<open>The world the room drives\<close>

record GameMapComponent =
  spawnPoints :: "(i32 \<times> i32) list"
  scope_x :: i32
  scope_y :: i32
  scope_width :: i32
  scope_height :: i32

record 'w mugen =
  GameWord_new :: 'w
  GameWord_init :: "u64 \<Rightarrow> 'w \<Rightarrow> bool \<times> 'w"
  GameWord_loadMap :: "i32 \<Rightarrow> 'w \<Rightarrow> bool \<times> 'w"
  GameWord_update :: "f32 \<Rightarrow> 'w \<Rightarrow> 'w"
  GameWord_serialize :: "'w \<Rightarrow> bytes"
  resolvePlayableRoleId :: "i32 \<Rightarrow> i32"
  getRoleConfigById :: "i32 \<Rightarrow> bool"
  spawnRolePlayerActor :: "i32 \<Rightarrow> i32 \<Rightarrow> i32 \<Rightarrow> i64 \<Rightarrow> bytes \<Rightarrow> 'w \<Rightarrow> u32 option \<times> 'w"
  notifyEntityReady :: "u32 \<Rightarrow> 'w \<Rightarrow> 'w"
  getEntity :: "u32 \<Rightarrow> 'w \<Rightarrow> bool"
  hasInputComponent :: "u32 \<Rightarrow> 'w \<Rightarrow> bool"
  setKeyDown :: "u32 \<Rightarrow> u32 \<Rightarrow> 'w \<Rightarrow> 'w"
  getDirector :: "'w \<Rightarrow> u32 option"
  directorMapEntityId :: "u32 \<Rightarrow> 'w \<Rightarrow> u32 option"   \<comment> \<open>of its \<open>DirectorComponent\<close>, if any\<close>
  gameMapComponent :: "u32 \<Rightarrow> 'w \<Rightarrow> GameMapComponent option"
  INVALID_ENTITY_ID :: u32

subsection \<open>Data\<close>

record BattleRoomConfig =
  cfg_battleId :: u32
  cfg_mapId :: i32
  cfg_randomSeed :: u64
  cfg_mode :: string
  cfg_maxPlayers :: u32

definition default_BattleRoomConfig :: BattleRoomConfig where
  "default_BattleRoomConfig = \<lparr>cfg_battleId = 0, cfg_mapId = 1, cfg_randomSeed = 0, cfg_mode = ''duel'',
     cfg_maxPlayers = 2\<rparr>"

record PlayerSlot =
  slot_sessionId :: u32
  slot_playerId :: i64
  slot_name :: bytes
  slot_classId :: i32
  slot_actorId :: u32
  slot_lastClientFrame :: u32

record 'w BattleRoom =
  room_config :: BattleRoomConfig
  room_world :: "'w option"
  room_players :: "(u32, PlayerSlot) umap"
  room_serverFrame :: u32
  room_elapsed :: f32

definition new_BattleRoom :: "'w BattleRoom" where
  "new_BattleRoom = \<lparr>room_config = default_BattleRoomConfig, room_world = None, room_players = [],
     room_serverFrame = 0, room_elapsed = f32_zero\<rparr>"

abbreviation battleId :: "'w BattleRoom \<Rightarrow> u32" where
  "battleId room \<equiv> cfg_battleId (room_config room)"

subsection \<open>Operations\<close>

definition init_room :: "'w mugen \<Rightarrow> BattleRoomConfig \<Rightarrow> 'w BattleRoom \<Rightarrow> bool \<times> 'w BattleRoom" where
  "init_room mg config room =
     (let room = room\<lparr>room_config := config, room_world := Some (GameWord_new mg)\<rparr>;
          (ok, w) = GameWord_init mg (cfg_randomSeed config) (GameWord_new mg);
          (ok, w) = (if \<not> ok then (False, w) else GameWord_loadMap mg (cfg_mapId config) w)
      in if \<not> ok then (False, room\<lparr>room_world := None\<rparr>) else (True, room\<lparr>room_world := Some w\<rparr>))"

definition shutdown_room :: "'w BattleRoom \<Rightarrow> 'w BattleRoom" where
  "shutdown_room room = room\<lparr>room_players := [], room_world := None\<rparr>"

definition hasPlayer :: "u32 \<Rightarrow> 'w BattleRoom \<Rightarrow> bool" where
  "hasPlayer sid room \<longleftrightarrow> umap_find (room_players room) sid \<noteq> None"

definition isFull :: "'w BattleRoom \<Rightarrow> bool" where
  "isFull room \<longleftrightarrow> unat (cfg_maxPlayers (room_config room)) \<le> length (room_players room)"

definition isEmpty :: "'w BattleRoom \<Rightarrow> bool" where
  "isEmpty room \<longleftrightarrow> room_players room = []"

text \<open>C++'s integer division truncates.\<close>

definition i32_div :: "i32 \<Rightarrow> int \<Rightarrow> i32" where
  "i32_div a b = word_of_int (sint a sdiv b)"

definition mapComponent :: "'w mugen \<Rightarrow> 'w \<Rightarrow> GameMapComponent option" where
  "mapComponent mg w =
     (case getDirector mg w of None \<Rightarrow> None
      | Some director \<Rightarrow>
          (case directorMapEntityId mg director w of None \<Rightarrow> None
           | Some mapEntity \<Rightarrow> if getEntity mg mapEntity w then gameMapComponent mg mapEntity w else None))"

definition resolveSpawnPoint :: "'w mugen \<Rightarrow> nat \<Rightarrow> 'w BattleRoom \<Rightarrow> i32 \<times> i32" where
  "resolveSpawnPoint mg slotIndex room =
     (case room_world room of None \<Rightarrow> (0, 0)
      | Some w \<Rightarrow>
          (case mapComponent mg w of None \<Rightarrow> (0, 0)
           | Some mapComp \<Rightarrow>
               (case spawnPoints mapComp of
                  (x, y) # _ \<Rightarrow> (x + of_nat slotIndex * 200, y)
                | [] \<Rightarrow>
                    if slotIndex = 0 then
                      (scope_x mapComp + i32_div (scope_width mapComp) 4,
                       scope_y mapComp + i32_div (scope_height mapComp) 2)
                    else
                      (scope_x mapComp + i32_div (scope_width mapComp * 3) 4 + of_nat (slotIndex - 1) * 200,
                       scope_y mapComp + i32_div (scope_height mapComp) 2))))"

definition addPlayer :: "'w mugen \<Rightarrow> BattlePlayerSpec \<Rightarrow> 'w BattleRoom \<Rightarrow> bool \<times> 'w BattleRoom" where
  "addPlayer mg spec room =
     (case room_world room of None \<Rightarrow> (False, room)
      | Some w \<Rightarrow>
          if isFull room then (False, room)
          else if hasPlayer (session_id spec) room then (True, room)
          else let roleId = resolvePlayableRoleId mg (class_id spec)
            in if \<not> getRoleConfigById mg roleId then (False, room)
               else let slotIndex = length (room_players room);
                        (spawnX, spawnY) = resolveSpawnPoint mg slotIndex room;
                        (actor, w) = spawnRolePlayerActor mg roleId spawnX spawnY (player_id spec) (name spec) w
                 in case actor of None \<Rightarrow> (False, room\<lparr>room_world := Some w\<rparr>)
                    | Some actorId \<Rightarrow>
                        let w = notifyEntityReady mg actorId w;
                            slot = \<lparr>slot_sessionId = session_id spec, slot_playerId = player_id spec,
                                    slot_name = name spec, slot_classId = class_id spec, slot_actorId = actorId,
                                    slot_lastClientFrame = 0\<rparr>
                        in (True, room\<lparr>room_world := Some w,
                                       room_players := umap_emplace (session_id spec) slot (room_players room)\<rparr>))"

definition removePlayer :: "u32 \<Rightarrow> 'w BattleRoom \<Rightarrow> 'w BattleRoom" where
  "removePlayer sid room = room\<lparr>room_players := umap_erase sid (room_players room)\<rparr>"

definition applyInput :: "'w mugen \<Rightarrow> u32 \<Rightarrow> u32 \<Rightarrow> u32 \<Rightarrow> 'w BattleRoom \<Rightarrow> 'w BattleRoom" where
  "applyInput mg sid clientFrame inputMask room =
     (case umap_find (room_players room) sid of None \<Rightarrow> room
      | Some slot \<Rightarrow>
          (case room_world room of None \<Rightarrow> room
           | Some w \<Rightarrow>
               if \<not> getEntity mg (slot_actorId slot) w then room
               else if \<not> hasInputComponent mg (slot_actorId slot) w then room
               else room\<lparr>room_world := Some (setKeyDown mg (slot_actorId slot) inputMask w),
                         room_players := umap_assign sid (slot\<lparr>slot_lastClientFrame := clientFrame\<rparr>)
                                           (room_players room)\<rparr>))"

definition tick_room :: "'w mugen \<Rightarrow> f32 \<Rightarrow> 'w BattleRoom \<Rightarrow> 'w BattleRoom" where
  "tick_room mg fixedDt room =
     (case room_world room of None \<Rightarrow> room
      | Some w \<Rightarrow>
          if isEmpty room then room
          else room\<lparr>room_elapsed := f32_add (room_elapsed room) fixedDt,
                    room_serverFrame := room_serverFrame room + 1,
                    room_world := Some (GameWord_update mg fixedDt w)\<rparr>)"

definition serializeWorld :: "'w mugen \<Rightarrow> 'w BattleRoom \<Rightarrow> bytes" where
  "serializeWorld mg room = (case room_world room of None \<Rightarrow> [] | Some w \<Rightarrow> GameWord_serialize mg w)"

definition lastClientFrame :: "u32 \<Rightarrow> 'w BattleRoom \<Rightarrow> u32" where
  "lastClientFrame sid room =
     (case umap_find (room_players room) sid of Some slot \<Rightarrow> slot_lastClientFrame slot | None \<Rightarrow> 0)"

definition actorIdForSession :: "'w mugen \<Rightarrow> u32 \<Rightarrow> 'w BattleRoom \<Rightarrow> u32" where
  "actorIdForSession mg sid room =
     (case umap_find (room_players room) sid of Some slot \<Rightarrow> slot_actorId slot | None \<Rightarrow> INVALID_ENTITY_ID mg)"

subsection \<open>The invariant of a room\<close>

text \<open>
  A room that \<open>init\<close> accepted: it has a world, its player table has one entry per session,
  each slot names its session, and no more players than the configuration allows.
\<close>

definition room_ok :: "'w BattleRoom \<Rightarrow> bool" where
  "room_ok room \<longleftrightarrow> room_world room \<noteq> None \<and> umap_ok (room_players room) \<and>
     length (room_players room) \<le> unat (cfg_maxPlayers (room_config room)) \<and>
     (\<forall>sid slot. umap_find (room_players room) sid = Some slot \<longrightarrow> slot_sessionId slot = sid)"

definition seats :: "'w BattleRoom \<Rightarrow> u32 set" where
  "seats room = dom (umap_find (room_players room))"

lemma hasPlayer_seats: "hasPlayer sid room \<longleftrightarrow> sid \<in> seats room"
  by (simp add: hasPlayer_def seats_def dom_def)

lemma isEmpty_seats: "isEmpty room \<longleftrightarrow> seats room = {}"
  by (cases "room_players room") (auto simp: isEmpty_def seats_def dom_map_of_conv_image_fst simp del: dom_eq_empty_conv)

lemma card_seats: "umap_ok (room_players room) \<Longrightarrow> card (seats room) = length (room_players room)"
  by (metis seats_def distinct_card dom_map_of_conv_image_fst length_map set_map)

text \<open>What \<open>addPlayer\<close> does, by cases.\<close>

lemma addPlayer_cases:
  obtains (same) "snd (addPlayer mg spec room) = room"
      and "fst (addPlayer mg spec room) \<Longrightarrow> hasPlayer (session_id spec) room"
  | (world) w where "addPlayer mg spec room = (False, room\<lparr>room_world := Some w\<rparr>)"
      and "\<not> hasPlayer (session_id spec) room"
  | (joined) w slot where "addPlayer mg spec room =
        (True, room\<lparr>room_world := Some w, room_players := umap_emplace (session_id spec) slot (room_players room)\<rparr>)"
      and "slot_sessionId slot = session_id spec" and "slot_lastClientFrame slot = 0" and "\<not> isFull room"
      and "\<not> hasPlayer (session_id spec) room"
proof (cases "room_world room")
  case None
  then show ?thesis by (intro same) (simp_all add: addPlayer_def)
next
  case (Some w)
  let ?role = "resolvePlayableRoleId mg (class_id spec)"
  obtain x y where xy: "resolveSpawnPoint mg (length (room_players room)) room = (x, y)" by fastforce
  obtain actor w' where sp: "spawnRolePlayerActor mg ?role x y (player_id spec) (name spec) w = (actor, w')"
    by fastforce
  consider "isFull room \<or> hasPlayer (session_id spec) room \<or> \<not> getRoleConfigById mg ?role"
    | "\<not> isFull room" "\<not> hasPlayer (session_id spec) room" "getRoleConfigById mg ?role" by blast
  then show ?thesis
  proof cases
    case 1
    then show ?thesis by (intro same) (auto simp: addPlayer_def Some Let_def split: if_splits)
  next
    case 2
    note eq = addPlayer_def [of mg spec room, unfolded Some option.case Let_def xy prod.case sp]
    show ?thesis
    proof (cases actor)
      case None
      with 2 eq show ?thesis by (intro world [of w']) simp_all
    next
      case (Some a)
      with 2 eq show ?thesis by (intro joined) auto
    qed
  qed
qed

lemma room_ok_addPlayer [inv_intros]:
  assumes "room_ok room" shows "room_ok (snd (addPlayer mg spec room))"
proof (cases rule: addPlayer_cases [of mg spec room])
  case same
  with assms show ?thesis by simp
next
  case (world w)
  with assms show ?thesis by (simp add: room_ok_def)
next
  case (joined w slot)
  with assms show ?thesis
    by (auto simp: room_ok_def isFull_def hasPlayer_def umap_emplace_find length_umap_emplace)
qed

lemma room_ok_removePlayer [inv_intros]: "room_ok room \<Longrightarrow> room_ok (removePlayer sid room)"
  using length_umap_erase_le [of sid "room_players room"]
  by (auto simp: room_ok_def removePlayer_def split: if_splits)

lemma room_ok_applyInput [inv_intros]: "room_ok room \<Longrightarrow> room_ok (applyInput mg sid cf keys room)"
  by (auto simp: room_ok_def applyInput_def length_umap_assign simp del: map_of_eq_Some_iff Some_eq_map_of_iff
      split: option.splits if_splits)

lemma room_ok_tick [inv_intros]: "room_ok room \<Longrightarrow> room_ok (tick_room mg dt room)"
  by (auto simp: room_ok_def tick_room_def split: option.splits)

lemma room_ok_init [inv_intros]: "init_room mg config new_BattleRoom = (True, room) \<Longrightarrow> room_ok room"
  by (auto simp: room_ok_def init_room_def new_BattleRoom_def Let_def split: prod.splits if_splits)

lemma room_config_simps [frame_simps]:
  "room_config (snd (addPlayer mg spec room)) = room_config room"
  "room_config (removePlayer sid room) = room_config room"
  "room_config (applyInput mg sid cf keys room) = room_config room"
  "room_config (tick_room mg dt room) = room_config room"
  by (cases rule: addPlayer_cases [of mg spec room])
     (auto simp: removePlayer_def applyInput_def tick_room_def split: option.splits)

lemma seats_addPlayer:
  "seats (snd (addPlayer mg spec room)) =
     (if fst (addPlayer mg spec room) then insert (session_id spec) (seats room) else seats room)"
proof (cases rule: addPlayer_cases [of mg spec room])
  case same
  then show ?thesis by (auto simp: hasPlayer_seats)
next
  case (world w)
  then show ?thesis by (simp add: seats_def)
next
  case (joined w slot)
  then show ?thesis by (auto simp: seats_def umap_emplace_find hasPlayer_def)
qed

lemma seats_removePlayer: "seats (removePlayer sid room) = seats room - {sid}"
  by (auto simp: seats_def removePlayer_def split: if_splits)

lemma seats_applyInput [frame_simps]: "seats (applyInput mg sid cf keys room) = seats room"
  by (auto simp: seats_def applyInput_def split: option.splits if_splits)

lemma seats_tick [frame_simps]: "seats (tick_room mg dt room) = seats room"
  by (auto simp: seats_def tick_room_def split: option.splits)

lemma seats_init: "init_room mg config new_BattleRoom = (True, room) \<Longrightarrow> seats room = {} \<and> room_config room = config"
  by (auto simp: seats_def init_room_def new_BattleRoom_def Let_def split: prod.splits if_splits)

subsection \<open>A small world for the concrete instances\<close>

text \<open>Actors with their keys and a count of the updates; one map with one spawn point.\<close>

definition sample_mugen :: "((u32, u32) umap \<times> nat) mugen" where
  "sample_mugen = \<lparr>GameWord_new = ([], 0), GameWord_init = (\<lambda>_ w. (True, w)),
     GameWord_loadMap = (\<lambda>m w. (m = 1, w)), GameWord_update = (\<lambda>_ w. (fst w, Suc (snd w))),
     GameWord_serialize = (\<lambda>w. replicate (length (fst w)) 1), resolvePlayableRoleId = (\<lambda>c. c),
     getRoleConfigById = (\<lambda>r. r \<noteq> 0),
     spawnRolePlayerActor = (\<lambda>_ _ _ _ _ w. (Some (of_nat (Suc (length (fst w)))),
        (fst w @ [(of_nat (Suc (length (fst w))), 0)], snd w))),
     notifyEntityReady = (\<lambda>_ w. w), getEntity = (\<lambda>e w. e = 80 \<or> umap_find (fst w) e \<noteq> None),
     hasInputComponent = (\<lambda>e w. umap_find (fst w) e \<noteq> None),
     setKeyDown = (\<lambda>e k w. (umap_assign e k (fst w), snd w)), getDirector = (\<lambda>_. Some 90),
     directorMapEntityId = (\<lambda>_ _. Some 80),
     gameMapComponent = (\<lambda>_ _. Some \<lparr>spawnPoints = [(100, 50)], scope_x = 0, scope_y = 0,
        scope_width = 800, scope_height = 600\<rparr>), INVALID_ENTITY_ID = 0\<rparr>"

definition sample_room :: "((u32, u32) umap \<times> nat) BattleRoom" where
  "sample_room = snd (init_room sample_mugen (default_BattleRoomConfig\<lparr>cfg_battleId := 7\<rparr>) new_BattleRoom)"

definition sample_spec :: "u32 \<Rightarrow> BattlePlayerSpec" where
  "sample_spec sid = \<lparr>session_id = sid, player_id = 5, class_id = 1, name = [], character_id = 0\<rparr>"

definition sample_slot :: PlayerSlot where
  "sample_slot = \<lparr>slot_sessionId = 42, slot_playerId = 5, slot_name = [], slot_classId = 1, slot_actorId = 1,
     slot_lastClientFrame = 0\<rparr>"

lemma sample_room_eq: "sample_room = \<lparr>room_config = default_BattleRoomConfig\<lparr>cfg_battleId := 7\<rparr>,
   room_world = Some ([], 0), room_players = [], room_serverFrame = 0, room_elapsed = f32_zero\<rparr>"
  by (simp add: sample_room_def init_room_def new_BattleRoom_def sample_mugen_def default_BattleRoomConfig_def)

lemma sample_room_ok: "room_ok sample_room"
  by (simp add: sample_room_eq room_ok_def)

subsection \<open>Joining, input and the fixed step\<close>

text \<open>Joining a room. A player who joins anew takes a free seat: the room was below its
  limit, gains exactly this seat with no input acknowledged yet, and every other seat is
  unchanged. When joining fails no seat changes. A player who already has a seat in a room
  with free seats is accepted and nothing changes, no second actor is spawned.\<close>
theorem addPlayer_effect:
  assumes "room_ok room" and "addPlayer mg spec room = (ok, room')"
  shows "room_ok room'
    \<and> (ok \<and> \<not> hasPlayer (session_id spec) room \<longrightarrow>
         length (room_players room) < unat (cfg_maxPlayers (room_config room))
         \<and> seats room' = insert (session_id spec) (seats room)
         \<and> length (room_players room') = Suc (length (room_players room))
         \<and> lastClientFrame (session_id spec) room' = 0)
    \<and> (\<not> ok \<longrightarrow> room_players room' = room_players room)
    \<and> (hasPlayer (session_id spec) room \<longrightarrow> room' = room \<and> (\<not> isFull room \<longrightarrow> ok))
    \<and> (\<forall>sid. sid \<noteq> session_id spec \<longrightarrow> umap_find (room_players room') sid = umap_find (room_players room) sid)"
proof -
  note ok = room_ok_addPlayer [OF assms(1), of mg spec, unfolded assms(2) snd_conv]
  show ?thesis
  proof (cases rule: addPlayer_cases [of mg spec room])
    case same
    moreover have "hasPlayer (session_id spec) room \<Longrightarrow> \<not> isFull room \<Longrightarrow> fst (addPlayer mg spec room)"
      using assms(1) by (auto simp: addPlayer_def room_ok_def)
    ultimately show ?thesis using ok assms(2) by simp
  next
    case (world w)
    then show ?thesis using ok assms(2) by auto
  next
    case (joined w slot)
    then show ?thesis
      using ok assms(2) seats_addPlayer [of mg spec room]
      by (auto simp: umap_emplace_find length_umap_emplace hasPlayer_def isFull_def lastClientFrame_def)
  qed
qed

theorem addPlayer_effect_witness:
  "seats (snd (addPlayer sample_mugen (sample_spec 42) sample_room)) = insert 42 (seats sample_room)"
proof -
  let ?r = "addPlayer sample_mugen (sample_spec 42) sample_room"
  have r: "?r = (fst ?r, snd ?r)" by simp
  have "fst ?r"
    by (simp add: addPlayer_def sample_room_eq sample_mugen_def sample_spec_def isFull_def hasPlayer_def
        default_BattleRoomConfig_def case_prod_beta Let_def)
  moreover have "\<not> hasPlayer (session_id (sample_spec 42)) sample_room"
    by (simp add: sample_room_eq hasPlayer_def)
  ultimately show ?thesis
    using addPlayer_effect [OF sample_room_ok r] by (simp add: sample_spec_def)
qed

text \<open>Input reaches only its sender's actor and slot.\<close>

lemma applyInput_own:
  "applyInput mg sid cf keys room = room \<or>
    (\<exists>slot w. umap_find (room_players room) sid = Some slot \<and> room_world room = Some w \<and>
       applyInput mg sid cf keys room = room\<lparr>room_world := Some (setKeyDown mg (slot_actorId slot) keys w),
         room_players := umap_assign sid (slot\<lparr>slot_lastClientFrame := cf\<rparr>) (room_players room)\<rparr>)"
  by (auto simp: applyInput_def split: option.splits)

lemma tick_nonempty:
  assumes "room_world room = Some w" and "\<not> isEmpty room"
  shows "tick_room mg dt room = room\<lparr>room_elapsed := f32_add (room_elapsed room) dt,
    room_serverFrame := room_serverFrame room + 1, room_world := Some (GameWord_update mg dt w)\<rparr>"
  using assms by (simp add: tick_room_def)

text \<open>The fixed step. After \<open>n\<close> ticks a room with a player has advanced its world by
  exactly \<open>n\<close> updates with the given step and its frame counter by \<open>n\<close> (modulo \<open>2 ^ 32\<close>),
  with its players as they were; a room without players stands still, whatever \<open>n\<close>.\<close>
theorem tick_many:
  assumes "room_world room = Some w"
  shows "(\<not> isEmpty room \<longrightarrow>
      room_world ((tick_room mg dt ^^ n) room) = Some ((GameWord_update mg dt ^^ n) w)
      \<and> room_serverFrame ((tick_room mg dt ^^ n) room) = room_serverFrame room + of_nat n
      \<and> room_players ((tick_room mg dt ^^ n) room) = room_players room
      \<and> room_config ((tick_room mg dt ^^ n) room) = room_config room)
    \<and> (isEmpty room \<longrightarrow> (tick_room mg dt ^^ n) room = room)"
proof (cases "isEmpty room")
  case True
  then have "tick_room mg dt room = room" by (simp add: tick_room_def assms)
  then have "(tick_room mg dt ^^ n) room = room" by (induction n) simp_all
  with True show ?thesis by simp
next
  case False
  then show ?thesis
  proof (induction n)
    case (Suc n)
    let ?r = "(tick_room mg dt ^^ n) room"
    from Suc have "room_world ?r = Some ((GameWord_update mg dt ^^ n) w)" "\<not> isEmpty ?r"
      by (simp_all add: isEmpty_def)
    from tick_nonempty [OF this] Suc show ?case by simp
  qed (simp add: assms)
qed

theorem tick_many_witness:
  "room_serverFrame ((tick_room sample_mugen (f32_of_int 1) ^^ 5)
      (sample_room\<lparr>room_players := [(42, sample_slot)]\<rparr>)) = 5"
  using tick_many [where room = "sample_room\<lparr>room_players := [(42, sample_slot)]\<rparr>" and w = "([], 0)"
      and mg = sample_mugen and dt = "f32_of_int 1" and n = 5]
  by (simp add: sample_room_eq isEmpty_def)

text \<open>Players of one room spawn apart: on a map with a spawn point, two seats of different
  index get the same height and positions exactly \<open>200\<close> units apart per index, never the
  same position, for indices below \<open>2 ^ 32 div 200\<close>.\<close>
theorem spawn_points_distinct:
  assumes "room_world room = Some w" and "mapComponent mg w = Some mc" and "spawnPoints mc = (x, y) # ps"
    and "i < j" and "j < 2 ^ 32 div 200"
  shows "fst (resolveSpawnPoint mg i room) \<noteq> fst (resolveSpawnPoint mg j room)
    \<and> snd (resolveSpawnPoint mg i room) = y \<and> snd (resolveSpawnPoint mg j room) = y
    \<and> fst (resolveSpawnPoint mg j room) - fst (resolveSpawnPoint mg i room) = of_nat (200 * (j - i))"
proof -
  have at: "resolveSpawnPoint mg k room = (x + of_nat k * 200, y)" for k
    using assms(1-3) by (simp add: resolveSpawnPoint_def)
  have diff: "(of_nat j * 200 :: i32) - of_nat i * 200 = of_nat (200 * (j - i))"
    using assms(4) by (simp add: of_nat_diff algebra_simps)
  have "200 * (j - i) < 2 ^ LENGTH(32)" "0 < 200 * (j - i)"
    using assms(4,5) by simp_all
  then have "(of_nat (200 * (j - i)) :: i32) \<noteq> 0"
    by (simp only: word_of_nat_eq_0_iff) (simp add: nat_dvd_not_less)
  with diff have "(of_nat i * 200 :: i32) \<noteq> of_nat j * 200" by auto
  then show ?thesis using diff by (simp add: at)
qed

theorem spawn_points_distinct_witness:
  "fst (resolveSpawnPoint sample_mugen 1 sample_room) - fst (resolveSpawnPoint sample_mugen 0 sample_room) = 200"
proof -
  have w: "room_world sample_room = Some ([], 0)" by (simp add: sample_room_eq)
  have m: "mapComponent sample_mugen ([], 0) = Some \<lparr>spawnPoints = [(100, 50)], scope_x = 0, scope_y = 0,
      scope_width = 800, scope_height = 600\<rparr>"
    by (simp add: mapComponent_def sample_mugen_def)
  show ?thesis using spawn_points_distinct [OF w m, of 100 50 "[]" 0 1] by simp
qed

end
