(* ===== verification/BattleSync.thy ===== *)
theory BattleSync
  imports ClientProps BattleRoom
begin

section \<open>Snapshots\<close>

text \<open>
  \<open>battle/src/battle/BattleSync.cpp\<close>: the snapshot of a room's world, pushed to each of its
  players with the acknowledgement of that player's input.

  \<open>battle_env\<close> collects what the battle server uses of other code: the client's environment,
  the game world, the messages whose generated code is not in the repository
  (\<open>client_battle.proto\<close>, \<open>game_types.proto\<close>) and the loaders of the game's content.
\<close>

record ('u, 'w) battle_env =
  cenv :: "'u env"
  world :: "'w mugen"
  parse_BattlePlayerSpec :: "bytes \<Rightarrow> BattlePlayerSpec option"
  ser_BattleSnapshotPush :: "u32 \<Rightarrow> u32 \<Rightarrow> u64 \<Rightarrow> bytes \<Rightarrow> u32 \<Rightarrow> bytes option"
  parse_BattleInputPush :: "bytes \<Rightarrow> (u32 \<times> u32 \<times> u32 \<times> u64) option"
  mountContentRoot :: "string \<Rightarrow> bool"
  load_config :: "string \<Rightarrow> bool"
  load_avatar :: "string \<Rightarrow> bool"

definition BattleSnapshotPush_Id :: u16 where "BattleSnapshotPush_Id = 20013"
definition BattleInputPush_Id :: u16 where "BattleInputPush_Id = 20012"

text \<open>\<open>static_cast<uint64_t>(room.elapsed() * 1000.0f)\<close>, undefined out of range.\<close>

definition server_time_ms :: "'w BattleRoom \<Rightarrow> u64" where
  "server_time_ms room =
     (case f32_to_u64 (f32_mul (room_elapsed room) (f32_of_int 1000)) of Some t \<Rightarrow> t | None \<Rightarrow> 0)"

definition sendSnapshot :: "('u, 'w) battle_env \<Rightarrow> 'w BattleRoom \<Rightarrow> ('u, 'a) client_scheme \<Rightarrow>
    ('u, 'a) client_scheme" where
  "sendSnapshot env room s =
     (if isEmpty room then s
      else let worldDump = serializeWorld (world env) room
        in fold (\<lambda>(sid, slot) s. snd (sendPush (cenv env) sid BattleSnapshotPush_Id
             (ser_BattleSnapshotPush env (battleId room) (room_serverFrame room) (server_time_ms room)
                worldDump (slot_lastClientFrame slot)) s)) (room_players room) s)"

subsection \<open>What a snapshot sends\<close>

lemma fold_sendPush_emit:
  "\<exists>acts. fold (\<lambda>(sid, slot) s. snd (sendPush env sid mid (f slot) s)) ps s = emit acts s"
proof (induction ps arbitrary: s)
  case Nil
  then show ?case by (auto intro: exI [of _ "[]"])
next
  case (Cons p ps)
  obtain sid slot where p: "p = (sid, slot)" by fastforce
  obtain acts where "snd (sendPush env sid mid (f slot) s) = emit acts s" using sendPush_emit by blast
  with Cons [of "emit acts s"] p show ?case by auto
qed

lemma sendSnapshot_emit: "\<exists>acts. sendSnapshot env room s = emit acts s"
proof (cases "isEmpty room")
  case True
  then show ?thesis by (auto simp: sendSnapshot_def intro: exI [of _ "[]"])
next
  case False
  then show ?thesis
    using fold_sendPush_emit [of "cenv env" BattleSnapshotPush_Id] by (simp add: sendSnapshot_def Let_def)
qed

text \<open>The write a push makes.\<close>

lemma sendPush_write:
  assumes "m_transport s = Some t"
  shows "snd (sendPush env sid mid (Some pl) s) =
    emit [YWrite t (encodeBackendFrame kBackendCmdBusiness mid 0 sid pl)
      (write_result env (io s) (encodeBackendFrame kBackendCmdBusiness mid 0 sid pl))] s"
  using assms by (simp add: sendPush_def sendToClient_def sendMessage_def sendFrame_def Let_def)

text \<open>The decoded frames a trace writes on a transport.\<close>

fun frames_written :: "nat \<Rightarrow> 'u action list \<Rightarrow> (frame_error + BackendFrame) list" where
  "frames_written t [] = []"
| "frames_written t (YWrite t' bs r # acts) =
     (if t' = t then decodeBackendFrame bs # frames_written t acts else frames_written t acts)"
| "frames_written t (_ # acts) = frames_written t acts"

lemma frames_written_append [simp]: "frames_written t (xs @ ys) = frames_written t xs @ frames_written t ys"
  by (induction t xs rule: frames_written.induct) auto

lemma fold_sendPush_frames:
  assumes "m_transport s = Some t"
    and "\<forall>(sid, slot) \<in> set ps. \<exists>pl. f slot = Some pl \<and> length pl + kBackendFrameHeaderSize \<le> 2 ^ 20"
  shows "\<exists>acts. fold (\<lambda>(sid, slot) s. snd (sendPush env sid mid (f slot) s)) ps s = emit acts s \<and>
    frames_written t acts = map (\<lambda>(sid, slot). Inr \<lparr>cmd = kBackendCmdBusiness, msgId = mid, serial = 0,
      sessionId = sid, payload = the (f slot)\<rparr>) ps"
  using assms
proof (induction ps arbitrary: s)
  case Nil
  then show ?case by (auto intro: exI [of _ "[]"])
next
  case (Cons p ps)
  obtain sid slot where p: "p = (sid, slot)" by fastforce
  with Cons.prems(2) obtain pl where pl: "f slot = Some pl" "length pl + kBackendFrameHeaderSize \<le> 2 ^ 20" by auto
  let ?bs = "encodeBackendFrame kBackendCmdBusiness mid 0 sid pl"
  let ?w = "YWrite t ?bs (write_result env (io s) ?bs)"
  have "m_transport (emit [?w] s) = Some t" using Cons.prems(1) by (simp add: frame_simps)
  then obtain acts where acts: "fold (\<lambda>(sid, slot) s. snd (sendPush env sid mid (f slot) s)) ps (emit [?w] s)
      = emit acts (emit [?w] s)" "frames_written t acts = map (\<lambda>(sid, slot). Inr \<lparr>cmd = kBackendCmdBusiness, msgId = mid,
      serial = 0, sessionId = sid, payload = the (f slot)\<rparr>) ps"
    using Cons.IH [of "emit [?w] s"] Cons.prems(2) by auto
  have "fold (\<lambda>(sid, slot) s. snd (sendPush env sid mid (f slot) s)) (p # ps) s = emit (?w # acts) s"
    using acts(1) by (simp add: p pl(1) sendPush_write [OF Cons.prems(1)])
  then show ?case
    using acts(2) decode_encoded [OF pl(2), where rest = "[]"] by (intro exI [of _ "?w # acts"]) (simp add: p pl(1))
qed

text \<open>
  An environment for the concrete instances: the sample world, the wire format, and messages
  whose serializations hold one byte of their interesting field.
\<close>

definition sample_env :: "('u, (u32, u32) umap \<times> nat) battle_env" where
  "sample_env = \<lparr>cenv = wire_env, world = sample_mugen,
     parse_BattlePlayerSpec = (\<lambda>bs. case bs of [b] \<Rightarrow> Some (sample_spec (ucast b)) | _ \<Rightarrow> None),
     ser_BattleSnapshotPush = (\<lambda>bid fr time dump ack. Some (ucast ack # dump)),
     parse_BattleInputPush = (\<lambda>bs. case bs of [a, b, c] \<Rightarrow> Some (ucast a, ucast b, ucast c, 0) | _ \<Rightarrow> None),
     mountContentRoot = (\<lambda>_. True), load_config = (\<lambda>_. True), load_avatar = (\<lambda>_. True)\<rparr>"

end
