(* ===== verification/BattleRoomManager.thy ===== *)
theory BattleRoomManager
  imports BattleRoom
begin

section \<open>The room manager\<close>

text \<open>
  \<open>battle/src/battle/BattleRoomManager.cpp\<close> and \<open>.h\<close>: all rooms of the server, the routing
  from sessions to rooms and the capacity control. A \<open>BattleRoom*\<close> is the key of the room in
  \<open>m_rooms\<close>, under which the room it points to is read and written back.

  What the manager needs of a room is the locale \<open>seated_rooms\<close>: seats, the room's id, and how
  joining and leaving change them. Inside it the routing invariant is shown to survive every
  change of the two maps; it is interpreted on \<open>BattleRoom\<close>'s operations.
\<close>

subsection \<open>State and operations\<close>

record 'w BattleRoomManager =
  m_maxRooms :: u32
  m_maxSessions :: u32
  m_rooms :: "(u32, 'w BattleRoom) umap"
  m_sessionToRoom :: "(u32, u32) umap"

definition new_BattleRoomManager :: "u32 \<Rightarrow> u32 \<Rightarrow> 'w BattleRoomManager" where
  "new_BattleRoomManager maxRooms maxSessions =
     \<lparr>m_maxRooms = maxRooms, m_maxSessions = maxSessions, m_rooms = [], m_sessionToRoom = []\<rparr>"

definition findRoom :: "u32 \<Rightarrow> 'w BattleRoomManager \<Rightarrow> 'w BattleRoom option" where
  "findRoom bid m = umap_find (m_rooms m) bid"

definition findRoomBySession :: "u32 \<Rightarrow> 'w BattleRoomManager \<Rightarrow> 'w BattleRoom option" where
  "findRoomBySession sid m =
     (case umap_find (m_sessionToRoom m) sid of None \<Rightarrow> None | Some bid \<Rightarrow> findRoom bid m)"

definition roomCount :: "'w BattleRoomManager \<Rightarrow> nat" where
  "roomCount m = length (m_rooms m)"

definition activeSessionCount :: "'w BattleRoomManager \<Rightarrow> u32" where
  "activeSessionCount m = of_nat (length (m_sessionToRoom m))"

definition canAcceptSession :: "u32 \<Rightarrow> 'w BattleRoomManager \<Rightarrow> bool" where
  "canAcceptSession sid m =
     (if umap_find (m_sessionToRoom m) sid \<noteq> None then True
      else if unat (m_maxRooms m) \<le> length (m_rooms m) then False
      else activeSessionCount m < m_maxSessions m)"

text \<open>\<open>Some\<close> of the room's key, or \<open>None\<close> for the null pointer.\<close>

definition createRoom :: "'w mugen \<Rightarrow> BattleRoomConfig \<Rightarrow> 'w BattleRoomManager \<Rightarrow>
    u32 option \<times> 'w BattleRoomManager" where
  "createRoom mg config m =
     (if cfg_battleId config = 0 then (None, m)
      else if umap_find (m_rooms m) (cfg_battleId config) \<noteq> None then (Some (cfg_battleId config), m)
      else if unat (m_maxRooms m) \<le> length (m_rooms m) then (None, m)
      else let (ok, room) = init_room mg config new_BattleRoom
        in if \<not> ok then (None, m)
           else (Some (cfg_battleId config), m\<lparr>m_rooms := umap_emplace (cfg_battleId config) room (m_rooms m)\<rparr>))"

definition addPlayerToRoom :: "'w mugen \<Rightarrow> u32 \<Rightarrow> BattlePlayerSpec \<Rightarrow> 'w BattleRoomManager \<Rightarrow>
    bool \<times> 'w BattleRoomManager" where
  "addPlayerToRoom mg key spec m =
     (case umap_find (m_rooms m) key of None \<Rightarrow> (False, m)
      | Some room \<Rightarrow>
          if umap_find (m_sessionToRoom m) (session_id spec) \<noteq> None then (True, m)
          else if \<not> canAcceptSession (session_id spec) m then (False, m)
          else let (ok, room) = addPlayer mg spec room;
                   m = m\<lparr>m_rooms := umap_assign key room (m_rooms m)\<rparr>
            in if \<not> ok then (False, m)
               else (True, m\<lparr>m_sessionToRoom := umap_assign (session_id spec) (battleId room) (m_sessionToRoom m)\<rparr>))"

definition removePlayerFromRoom :: "u32 \<Rightarrow> 'w BattleRoomManager \<Rightarrow> 'w BattleRoomManager" where
  "removePlayerFromRoom sid m =
     (case umap_find (m_sessionToRoom m) sid of None \<Rightarrow> m
      | Some bid \<Rightarrow>
          let m = (case findRoom bid m of None \<Rightarrow> m
                   | Some room \<Rightarrow>
                       let room = removePlayer sid room;
                           m = m\<lparr>m_rooms := umap_assign bid room (m_rooms m)\<rparr>
                       in if isEmpty room then m\<lparr>m_rooms := umap_erase (battleId room) (m_rooms m)\<rparr> else m)
          in m\<lparr>m_sessionToRoom := umap_erase sid (m_sessionToRoom m)\<rparr>)"

definition tickAll :: "'w mugen \<Rightarrow> f32 \<Rightarrow> 'w BattleRoomManager \<Rightarrow> 'w BattleRoomManager" where
  "tickAll mg fixedDt m = m\<lparr>m_rooms := map (\<lambda>(k, room). (k, tick_room mg fixedDt room)) (m_rooms m)\<rparr>"

text \<open>\<open>applyInput\<close> on the room a session is in, written back under its key.\<close>

definition applyInputAt :: "'w mugen \<Rightarrow> u32 \<Rightarrow> u32 \<Rightarrow> u32 \<Rightarrow> u32 \<Rightarrow> 'w BattleRoomManager \<Rightarrow> 'w BattleRoomManager" where
  "applyInputAt mg key sid clientFrame inputMask m =
     (case umap_find (m_rooms m) key of None \<Rightarrow> m
      | Some room \<Rightarrow> m\<lparr>m_rooms := umap_assign key (applyInput mg sid clientFrame inputMask room) (m_rooms m)\<rparr>)"

subsection \<open>What the manager needs of a room\<close>

locale seated_rooms =
  fixes good :: "'r \<Rightarrow> bool" and rid :: "'r \<Rightarrow> u32" and seats_of :: "'r \<Rightarrow> u32 set"
    and join :: "'p \<Rightarrow> 'r \<Rightarrow> bool \<times> 'r" and pid :: "'p \<Rightarrow> u32" and leave :: "u32 \<Rightarrow> 'r \<Rightarrow> 'r"
  assumes join_good: "good r \<Longrightarrow> good (snd (join p r))" and join_rid: "rid (snd (join p r)) = rid r"
    and join_seats: "seats_of (snd (join p r)) = (if fst (join p r) then insert (pid p) (seats_of r) else seats_of r)"
    and leave_good: "good r \<Longrightarrow> good (leave s r)" and leave_rid: "rid (leave s r) = rid r"
    and leave_seats: "seats_of (leave s r) = seats_of r - {s}"

text \<open>
  The routing invariant: a room is stored under its own id, which is not 0, and is good; a
  session is routed to a room exactly when it has a seat there.
\<close>

definition routed :: "('r \<Rightarrow> bool) \<Rightarrow> ('r \<Rightarrow> u32) \<Rightarrow> ('r \<Rightarrow> u32 set) \<Rightarrow> (u32 \<Rightarrow> 'r option) \<Rightarrow> (u32 \<Rightarrow> u32 option) \<Rightarrow> bool" where
  "routed good rid seats_of rooms route \<longleftrightarrow>
     (\<forall>k r. rooms k = Some r \<longrightarrow> good r \<and> rid r = k \<and> k \<noteq> 0) \<and>
     (\<forall>s k. route s = Some k \<longleftrightarrow> (\<exists>r. rooms k = Some r \<and> s \<in> seats_of r))"

context seated_rooms begin

abbreviation "consistent \<equiv> routed good rid seats_of"

lemma routed_seat: "consistent rooms route \<Longrightarrow> rooms k = Some r \<Longrightarrow> s \<in> seats_of r \<Longrightarrow> route s = Some k"
  by (auto simp: routed_def)

lemma routed_new:
  assumes "consistent rooms route" and "rooms (rid r) = None" and "good r" and "rid r \<noteq> 0" and "seats_of r = {}"
  shows "consistent (rooms(rid r \<mapsto> r)) route"
  using assms by (auto simp: routed_def)

lemma routed_update:
  assumes "consistent rooms route" and "rooms k = Some r" and "good r'" and "rid r' = rid r" and "seats_of r' = seats_of r"
  shows "consistent (rooms(k \<mapsto> r')) route"
  using assms by (auto simp: routed_def)

lemma routed_join:
  assumes "consistent rooms route" and "rooms k = Some r" and "route (pid p) = None"
  shows "fst (join p r) \<Longrightarrow> consistent (rooms(k \<mapsto> snd (join p r))) (route(pid p \<mapsto> k))"
    and "\<not> fst (join p r) \<Longrightarrow> consistent (rooms(k \<mapsto> snd (join p r))) route"
proof -
  show "consistent (rooms(k \<mapsto> snd (join p r))) route" if "\<not> fst (join p r)"
    using that assms join_seats [of p r] join_rid [of p r] join_good [of r p]
    by (intro routed_update [of rooms route k r]) (auto simp: routed_def)
  show "consistent (rooms(k \<mapsto> snd (join p r))) (route(pid p \<mapsto> k))" if "fst (join p r)"
    using that assms join_seats [of p r] join_rid [of p r] join_good [of r p] routed_seat [OF assms(1)]
    by (force simp: routed_def)
qed

lemma routed_leave:
  assumes "consistent rooms route" and "route s = Some k" and "rooms k = Some r"
  shows "consistent (rooms(k \<mapsto> leave s r)) (route(s := None))"
    and "seats_of (leave s r) = {} \<Longrightarrow> consistent (rooms(k := None)) (route(s := None))"
proof -
  have other: "k' = k" if "rooms k' = Some r'" and "s \<in> seats_of r'" for k' r'
    using routed_seat [OF assms(1) that] assms(2) by simp
  have good: "good r" "rid r = k" "k \<noteq> 0" and route: "\<And>s k. route s = Some k \<longleftrightarrow> (\<exists>r. rooms k = Some r \<and> s \<in> seats_of r)"
    using assms(1,3) by (auto simp: routed_def)
  note r' = leave_seats [of s r] leave_rid [of s r] leave_good [OF good(1), of s]
  have rest: "good r' \<and> rid r' = k' \<and> k' \<noteq> 0" if "rooms k' = Some r'" for k' r'
    using assms(1) that by (auto simp: routed_def)
  have seat: "((route(s := None)) s' = Some k') = (\<exists>r'. (rooms(k \<mapsto> leave s r)) k' = Some r' \<and> s' \<in> seats_of r')" for s' k'
    using route [of s' k'] assms(3) r'(1) other by (cases "s' = s"; cases "k' = k") auto
  have "good r' \<and> rid r' = k' \<and> k' \<noteq> 0" if "(rooms(k \<mapsto> leave s r)) k' = Some r'" for k' r'
    using that rest [of k' r'] good r' by (auto split: if_splits)
  with seat show "consistent (rooms(k \<mapsto> leave s r)) (route(s := None))"
    unfolding routed_def by blast
  show "consistent (rooms(k := None)) (route(s := None))" if "seats_of (leave s r) = {}"
  proof -
    have "((route(s := None)) s' = Some k') = (\<exists>r'. (rooms(k := None)) k' = Some r' \<and> s' \<in> seats_of r')" for s' k'
      using seat [of s' k'] that by (cases "k' = k") auto
    moreover have "good r' \<and> rid r' = k' \<and> k' \<noteq> 0" if "(rooms(k := None)) k' = Some r'" for k' r'
      using that rest [of k' r'] by (auto split: if_splits)
    ultimately show ?thesis unfolding routed_def by blast
  qed
qed

end

interpretation room: seated_rooms room_ok battleId seats "addPlayer mg" session_id removePlayer for mg
  by unfold_locales (simp_all add: inv_intros frame_simps seats_addPlayer seats_removePlayer)

subsection \<open>The invariant of the manager\<close>

definition manager_ok :: "'w BattleRoomManager \<Rightarrow> bool" where
  "manager_ok m \<longleftrightarrow> umap_ok (m_rooms m) \<and> umap_ok (m_sessionToRoom m) \<and>
     routed room_ok battleId seats (umap_find (m_rooms m)) (umap_find (m_sessionToRoom m)) \<and>
     length (m_rooms m) \<le> unat (m_maxRooms m) \<and> length (m_sessionToRoom m) \<le> unat (m_maxSessions m)"

lemma manager_ok_new [inv_intros]: "manager_ok (new_BattleRoomManager maxRooms maxSessions)"
  by (simp add: manager_ok_def new_BattleRoomManager_def routed_def)

lemma manager_ok_createRoom [inv_intros]:
  assumes "manager_ok m" shows "manager_ok (snd (createRoom mg config m))"
proof -
  obtain ok r where i: "init_room mg config new_BattleRoom = (ok, r)" by fastforce
  let ?k = "cfg_battleId config"
  show ?thesis
  proof (cases "?k \<noteq> 0 \<and> umap_find (m_rooms m) ?k = None \<and> \<not> unat (m_maxRooms m) \<le> length (m_rooms m) \<and> ok")
    case False
    with assms show ?thesis by (auto simp: createRoom_def i)
  next
    case True
    note r = seats_init [of mg config r] room_ok_init [of mg config r]
    have "routed room_ok battleId seats ((umap_find (m_rooms m))(?k \<mapsto> r)) (umap_find (m_sessionToRoom m))"
      using True assms i r room.routed_new [of "umap_find (m_rooms m)" "umap_find (m_sessionToRoom m)" r]
      by (simp add: manager_ok_def)
    moreover have "umap_find (umap_emplace ?k r (m_rooms m)) = (umap_find (m_rooms m))(?k \<mapsto> r)"
      using True by (auto simp: umap_emplace_find fun_eq_iff)
    moreover have "createRoom mg config m = (Some ?k, m\<lparr>m_rooms := umap_emplace ?k r (m_rooms m)\<rparr>)"
      using True i by (simp add: createRoom_def)
    ultimately show ?thesis
      using True assms by (simp add: manager_ok_def length_umap_emplace del: fun_upd_apply)
  qed
qed

lemma manager_okD:
  assumes "manager_ok m"
  shows "umap_ok (m_rooms m)" and "umap_ok (m_sessionToRoom m)"
    and "routed room_ok battleId seats (umap_find (m_rooms m)) (umap_find (m_sessionToRoom m))"
    and "length (m_rooms m) \<le> unat (m_maxRooms m)" and "length (m_sessionToRoom m) \<le> unat (m_maxSessions m)"
  using assms by (simp_all add: manager_ok_def)

lemma manager_ok_room:
  assumes "manager_ok m" and "umap_find (m_rooms m) k = Some r"
  shows "room_ok r" and "battleId r = k" and "k \<noteq> 0"
  using manager_okD(3) [OF assms(1)] assms(2) unfolding routed_def by blast+

lemma activeSessionCount_nat:
  assumes "manager_ok m"
  shows "unat (activeSessionCount m) = length (m_sessionToRoom m)"
proof -
  have "length (m_sessionToRoom m) < 2 ^ LENGTH(32)"
    using manager_okD(5) [OF assms] unsigned_less [of "m_maxSessions m", where 'a = nat] by simp
  then show ?thesis by (simp only: activeSessionCount_def unat_of_nat mod_less)
qed

lemma manager_ok_update_room:
  assumes "manager_ok m" and "umap_find (m_rooms m) k = Some r"
    and "room_ok r'" and "battleId r' = battleId r" and "seats r' = seats r"
  shows "manager_ok (m\<lparr>m_rooms := umap_assign k r' (m_rooms m)\<rparr>)"
  using room.routed_update [OF manager_okD(3) [OF assms(1)] assms(2-5)] manager_okD [OF assms(1)] assms(2)
  by (simp add: manager_ok_def length_umap_assign del: fun_upd_apply map_of_eq_Some_iff)

lemma manager_ok_addPlayerToRoom [inv_intros]:
  assumes "manager_ok m" shows "manager_ok (snd (addPlayerToRoom mg key spec m))"
proof (cases "umap_find (m_rooms m) key")
  case None
  with assms show ?thesis by (simp add: addPlayerToRoom_def)
next
  case (Some r)
  obtain ok r' where a: "addPlayer mg spec r = (ok, r')" by fastforce
  show ?thesis
  proof (cases "umap_find (m_sessionToRoom m) (session_id spec) = None \<and> canAcceptSession (session_id spec) m")
    case False
    with assms show ?thesis by (auto simp: addPlayerToRoom_def Some)
  next
    case True
    note inv = manager_okD [OF assms]
    note join = room.routed_join [where mg = mg, OF inv(3) Some conjunct1 [OF True], unfolded a fst_conv snd_conv]
    have bid: "battleId r' = key"
      using manager_ok_room [OF assms Some] room_config_simps(1) [of mg spec r] by (simp add: a)
    have res: "addPlayerToRoom mg key spec m = (if ok then (True, m\<lparr>m_rooms := umap_assign key r' (m_rooms m),
        m_sessionToRoom := umap_assign (session_id spec) key (m_sessionToRoom m)\<rparr>)
      else (False, m\<lparr>m_rooms := umap_assign key r' (m_rooms m)\<rparr>))"
      using True by (simp add: addPlayerToRoom_def Some a bid)
    have cap: "length (m_sessionToRoom m) < unat (m_maxSessions m)"
      using True activeSessionCount_nat [OF assms] by (auto simp: canAcceptSession_def word_less_nat_alt split: if_splits)
    show ?thesis
      using join inv cap True Some unfolding res
      by (cases ok) (simp_all add: manager_ok_def length_umap_assign del: fun_upd_apply map_of_eq_Some_iff)
  qed
qed

lemma manager_ok_removePlayer [inv_intros]:
  assumes "manager_ok m" shows "manager_ok (removePlayerFromRoom sid m)"
proof (cases "umap_find (m_sessionToRoom m) sid")
  case None
  with assms show ?thesis by (simp add: removePlayerFromRoom_def)
next
  case (Some k)
  note inv = manager_okD [OF assms]
  obtain r where r: "umap_find (m_rooms m) k = Some r" using inv(3) Some unfolding routed_def by blast
  have bid: "battleId (removePlayer sid r) = k"
    using manager_ok_room [OF assms r] by (simp add: frame_simps)
  note leave = room.routed_leave [OF inv(3) Some r]
  have len: "length (umap_erase sid (m_sessionToRoom m)) \<le> unat (m_maxSessions m)"
    "length (umap_erase k (umap_assign k (removePlayer sid r) (m_rooms m))) \<le> unat (m_maxRooms m)"
    using inv(4,5) length_umap_erase_le [of sid "m_sessionToRoom m"]
      length_umap_erase_le [of k "umap_assign k (removePlayer sid r) (m_rooms m)"] r
    by (simp_all add: length_umap_assign del: map_of_eq_Some_iff)
  have res: "removePlayerFromRoom sid m = m\<lparr>m_rooms := (if isEmpty (removePlayer sid r)
        then umap_erase k (umap_assign k (removePlayer sid r) (m_rooms m))
        else umap_assign k (removePlayer sid r) (m_rooms m)),
      m_sessionToRoom := umap_erase sid (m_sessionToRoom m)\<rparr>"
    by (simp add: removePlayerFromRoom_def Some findRoom_def r bid)
  show ?thesis
    using leave inv len r unfolding res isEmpty_seats
    by (cases "seats (removePlayer sid r) = {}")
      (simp_all add: manager_ok_def length_umap_assign fun_upd_def [symmetric] del: fun_upd_apply map_of_eq_Some_iff)
qed

lemma manager_ok_tickAll [inv_intros]:
  assumes "manager_ok m" shows "manager_ok (tickAll mg dt m)"
proof -
  have find: "umap_find (map (\<lambda>(k, r). (k, tick_room mg dt r)) ps) k = map_option (tick_room mg dt) (umap_find ps k)"
    for ps :: "(u32, 'a BattleRoom) umap" and k
    by (rule map_of_map_snd)
  have "routed room_ok battleId seats (\<lambda>k. map_option (tick_room mg dt) (umap_find (m_rooms m) k)) (umap_find (m_sessionToRoom m))"
    using manager_okD(3) [OF assms] by (auto simp: routed_def frame_simps intro!: room_ok_tick)
  moreover have "umap_ok (map (\<lambda>(k, r). (k, tick_room mg dt r)) (m_rooms m))"
    using manager_okD(1) [OF assms] by (simp only: map_fst_map_snd)
  ultimately show ?thesis
    using manager_okD [OF assms] by (simp add: manager_ok_def tickAll_def find [abs_def] del: map_map)
qed

lemma manager_ok_applyInputAt [inv_intros]:
  assumes "manager_ok m" shows "manager_ok (applyInputAt mg key sid cf keys m)"
proof (cases "umap_find (m_rooms m) key")
  case None
  with assms show ?thesis by (simp add: applyInputAt_def)
next
  case (Some r)
  show ?thesis
    using manager_ok_update_room [OF assms Some room_ok_applyInput [OF manager_ok_room(1) [OF assms Some]]]
    by (simp add: applyInputAt_def Some frame_simps)
qed

subsection \<open>Routing and capacity\<close>

text \<open>The calls the server makes, and their execution in any order.\<close>

datatype manager_op =
    OpCreate BattleRoomConfig
  | OpJoin u32 BattlePlayerSpec
  | OpLeave u32
  | OpInput u32 u32 u32 u32
  | OpTick f32

fun manager_step :: "'w mugen \<Rightarrow> manager_op \<Rightarrow> 'w BattleRoomManager \<Rightarrow> 'w BattleRoomManager" where
  "manager_step mg (OpCreate config) m = snd (createRoom mg config m)"
| "manager_step mg (OpJoin key spec) m = snd (addPlayerToRoom mg key spec m)"
| "manager_step mg (OpLeave sid) m = removePlayerFromRoom sid m"
| "manager_step mg (OpInput key sid clientFrame inputMask) m = applyInputAt mg key sid clientFrame inputMask m"
| "manager_step mg (OpTick dt) m = tickAll mg dt m"

lemma manager_ok_step [inv_intros]: "manager_ok m \<Longrightarrow> manager_ok (manager_step mg x m)"
  by (cases x) (auto intro: inv_intros)

lemma manager_ok_run: "manager_ok m \<Longrightarrow> manager_ok (fold (manager_step mg) xs m)"
  by (induction xs arbitrary: m) (auto intro: inv_intros)

lemma manager_limits [frame_simps]:
  "m_maxRooms (manager_step mg x m) = m_maxRooms m" "m_maxSessions (manager_step mg x m) = m_maxSessions m"
  by (cases x; auto simp: createRoom_def addPlayerToRoom_def removePlayerFromRoom_def applyInputAt_def tickAll_def
      Let_def split: option.splits prod.splits)+

lemma manager_limits_run [frame_simps]:
  "m_maxRooms (fold (manager_step mg) xs m) = m_maxRooms m"
  "m_maxSessions (fold (manager_step mg) xs m) = m_maxSessions m"
  by (induction xs arbitrary: m) (simp_all add: frame_simps)

text \<open>The sessions the manager counts are the players of all its rooms together.\<close>

lemma sessions_are_players:
  assumes "manager_ok m"
  shows "unat (activeSessionCount m) = (\<Sum>(k, room) \<leftarrow> m_rooms m. length (room_players room))"
proof -
  note inv = manager_okD [OF assms]
  have ok: "room_ok r" if "(k, r) \<in> set (m_rooms m)" for k r
    using manager_ok_room(1) [OF assms] inv(1) that by simp
  have dist: "distinct (m_rooms m)" using inv(1) by (simp add: distinct_map)
  have "dom (umap_find (m_sessionToRoom m)) = (\<Union>p \<in> set (m_rooms m). seats (snd p))"
    using inv(1,3) by (fastforce simp: routed_def)
  then have "length (m_sessionToRoom m) = card (\<Union>p \<in> set (m_rooms m). seats (snd p))"
    using inv(2) by (metis distinct_card dom_map_of_conv_image_fst length_map set_map)
  also have "\<dots> = (\<Sum>p \<in> set (m_rooms m). card (seats (snd p)))"
  proof (rule card_UN_disjoint)
    show "\<forall>p \<in> set (m_rooms m). finite (seats (snd p))"
      by (simp add: seats_def finite_dom_map_of)
    have "s \<notin> seats (snd q)" if "p \<in> set (m_rooms m)" "q \<in> set (m_rooms m)" "p \<noteq> q" "s \<in> seats (snd p)" for p q s
    proof
      assume "s \<in> seats (snd q)"
      moreover have find: "umap_find (m_rooms m) (fst x) = Some (snd x)" if "x \<in> set (m_rooms m)" for x
        using map_of_is_SomeI [OF inv(1), of "fst x" "snd x"] that by simp
      ultimately have "fst p = fst q"
        using room.routed_seat [OF inv(3) find] that by (metis option.inject)
      with find [OF that(1)] find [OF that(2)] that(3) show False by (simp add: prod_eq_iff)
    qed
    then show "\<forall>p \<in> set (m_rooms m). \<forall>q \<in> set (m_rooms m). p \<noteq> q \<longrightarrow> seats (snd p) \<inter> seats (snd q) = {}"
      by blast
  qed simp
  also have "\<dots> = (\<Sum>p \<in> set (m_rooms m). length (room_players (snd p)))"
    using ok by (intro sum.cong refl card_seats) (auto simp: room_ok_def)
  also have "\<dots> = (\<Sum>p \<leftarrow> m_rooms m. length (room_players (snd p)))"
    by (rule sum_list_distinct_conv_sum_set [OF dist, symmetric])
  finally show ?thesis by (simp add: activeSessionCount_nat [OF assms] case_prod_unfold)
qed

text \<open>C5. Routing and capacity, in every state the manager can reach by any sequence of
  creations, joins, departures, inputs and ticks, for any game world: a session is routed to
  a room exactly when it has a seat in that room, so it has a seat in at most one; every room
  is stored under its own, non-zero id; there are never more rooms than \<open>maxRooms\<close>, more
  routed sessions than \<open>maxSessions\<close>, or more players in a room than its limit; and the
  sessions counted are the players of all rooms together.\<close>
theorem manager_invariant:
  fixes mg :: "'w mugen"
  defines "reached \<equiv> \<lambda>xs maxRooms maxSessions. fold (manager_step mg) xs (new_BattleRoomManager maxRooms maxSessions)"
  shows "(findRoomBySession sid (reached xs maxRooms maxSessions) = Some room \<longrightarrow> hasPlayer sid room)
    \<and> (findRoom k (reached xs maxRooms maxSessions) = Some room \<longrightarrow>
         k \<noteq> 0 \<and> battleId room = k \<and> length (room_players room) \<le> unat (cfg_maxPlayers (room_config room))
         \<and> (hasPlayer sid room \<longrightarrow> findRoomBySession sid (reached xs maxRooms maxSessions) = Some room))
    \<and> roomCount (reached xs maxRooms maxSessions) \<le> unat maxRooms
    \<and> unat (activeSessionCount (reached xs maxRooms maxSessions)) \<le> unat maxSessions
    \<and> unat (activeSessionCount (reached xs maxRooms maxSessions))
         = (\<Sum>(k, room) \<leftarrow> m_rooms (reached xs maxRooms maxSessions). length (room_players room))"
proof -
  let ?m = "reached xs maxRooms maxSessions"
  have ok: "manager_ok ?m" unfolding reached_def by (intro manager_ok_run manager_ok_new)
  note inv = manager_okD [OF ok]
  have limits: "m_maxRooms ?m = maxRooms" "m_maxSessions ?m = maxSessions"
    by (simp_all add: reached_def frame_simps new_BattleRoomManager_def)
  have "findRoomBySession sid ?m = Some room \<longrightarrow> hasPlayer sid room"
    using inv(3) by (auto simp: routed_def findRoomBySession_def findRoom_def hasPlayer_seats
        simp del: map_of_eq_Some_iff split: option.splits)
  moreover have "findRoom k ?m = Some room \<longrightarrow> k \<noteq> 0 \<and> battleId room = k
       \<and> length (room_players room) \<le> unat (cfg_maxPlayers (room_config room))
       \<and> (hasPlayer sid room \<longrightarrow> findRoomBySession sid ?m = Some room)"
    using manager_ok_room [OF ok] room.routed_seat [OF inv(3)]
    by (auto simp: findRoomBySession_def findRoom_def hasPlayer_seats room_ok_def)
  ultimately show ?thesis
    using inv(4,5) activeSessionCount_nat [OF ok] sessions_are_players [OF ok] limits by (simp add: roomCount_def)
qed

lemma removePlayer_lookup:
  assumes "manager_ok m"
  shows "(umap_find (m_sessionToRoom m) sid = None \<longrightarrow> removePlayerFromRoom sid m = m)
    \<and> (\<forall>k. umap_find (m_sessionToRoom m) sid = Some k \<longrightarrow>
         (\<exists>r. findRoom k m = Some r \<and>
            findRoom k (removePlayerFromRoom sid m) = (if seats r = {sid} then None else Some (removePlayer sid r)) \<and>
            (\<forall>k'. k' \<noteq> k \<longrightarrow> findRoom k' (removePlayerFromRoom sid m) = findRoom k' m)))
    \<and> umap_find (m_sessionToRoom (removePlayerFromRoom sid m)) = (umap_find (m_sessionToRoom m))(sid := None)"
proof (cases "umap_find (m_sessionToRoom m) sid")
  case None
  then show ?thesis by (auto simp: removePlayerFromRoom_def fun_eq_iff)
next
  case (Some k)
  obtain r where r: "umap_find (m_rooms m) k = Some r" "sid \<in> seats r"
    using manager_okD(3) [OF assms] Some unfolding routed_def by blast
  have bid: "battleId (removePlayer sid r) = k"
    using manager_ok_room [OF assms r(1)] by (simp add: frame_simps)
  have last: "isEmpty (removePlayer sid r) \<longleftrightarrow> seats r = {sid}"
    using r(2) by (auto simp: isEmpty_seats seats_removePlayer)
  show ?thesis
    using Some r(1) bid last by (simp add: removePlayerFromRoom_def findRoom_def del: map_of_eq_Some_iff)
qed

definition sample_config :: "u32 \<Rightarrow> BattleRoomConfig" where
  "sample_config bid = default_BattleRoomConfig\<lparr>cfg_battleId := bid\<rparr>"

definition sample_manager :: "((u32, u32) umap \<times> nat) BattleRoomManager" where
  "sample_manager = fold (manager_step sample_mugen)
     [OpCreate (sample_config 7), OpJoin 7 (sample_spec 42)] (new_BattleRoomManager 2 10)"

lemma sample_manager_ok: "manager_ok sample_manager"
  unfolding sample_manager_def by (intro manager_ok_run manager_ok_new)

lemma sample_manager_eq: "sample_manager = \<lparr>m_maxRooms = 2, m_maxSessions = 10,
   m_rooms = [(7, \<lparr>room_config = sample_config 7, room_world = Some ([(1, 0)], 0),
      room_players = [(42, \<lparr>slot_sessionId = 42, slot_playerId = 5, slot_name = [], slot_classId = 1,
         slot_actorId = 1, slot_lastClientFrame = 0\<rparr>)], room_serverFrame = 0, room_elapsed = f32_zero\<rparr>)],
   m_sessionToRoom = [(42, 7)]\<rparr>"
  by (simp add: sample_manager_def createRoom_def addPlayerToRoom_def new_BattleRoomManager_def sample_config_def
      init_room_def new_BattleRoom_def sample_mugen_def sample_spec_def default_BattleRoomConfig_def umap_emplace_def
      canAcceptSession_def activeSessionCount_def addPlayer_def isFull_def hasPlayer_def case_prod_beta Let_def)

theorem manager_invariant_witness:
  "\<exists>room. findRoomBySession 42 sample_manager = Some room \<and> hasPlayer 42 room \<and> battleId room = 7
     \<and> unat (activeSessionCount sample_manager) \<le> 10"
proof -
  obtain room where r: "findRoomBySession 42 sample_manager = Some room" "findRoom 7 sample_manager = Some room"
    by (simp add: sample_manager_eq findRoomBySession_def findRoom_def)
  then show ?thesis
    using manager_invariant [of 42 sample_mugen "[OpCreate (sample_config 7), OpJoin 7 (sample_spec 42)]" 2 10 room 7]
    unfolding sample_manager_def [symmetric] by auto
qed

subsection \<open>A room without players\<close>

text \<open>No operation destroys it, and none but a join of this room fills it.\<close>

lemma empty_room_step:
  assumes "manager_ok m" and "findRoom k m = Some room" and "isEmpty room"
    and "\<forall>spec. x \<noteq> OpJoin k spec"
  shows "findRoom k (manager_step mg x m) = Some room"
proof -
  have noseat: "umap_find (m_sessionToRoom m) s \<noteq> Some k" for s
    using manager_okD(3) [OF assms(1)] assms(2,3) unfolding routed_def isEmpty_seats findRoom_def by auto
  have world: "room_world room \<noteq> None"
    using manager_ok_room(1) [OF assms(1)] assms(2) by (simp add: findRoom_def room_ok_def)
  show ?thesis
  proof (cases x)
    case (OpCreate config)
    with assms(2) show ?thesis
      by (auto simp: createRoom_def findRoom_def umap_emplace_find Let_def split: prod.splits option.splits)
  next
    case (OpJoin key spec)
    with assms(2,4) show ?thesis
      by (auto simp: addPlayerToRoom_def findRoom_def Let_def split: prod.splits option.splits)
  next
    case (OpLeave sid)
    with assms(2) show ?thesis
      using noseat [of sid] removePlayer_lookup [OF assms(1), of sid]
      by (cases "umap_find (m_sessionToRoom m) sid") (simp_all add: findRoom_def del: map_of_eq_Some_iff, metis)
  next
    case (OpInput key sid clientFrame inputMask)
    with assms(2,3) show ?thesis
      by (auto simp: applyInputAt_def findRoom_def isEmpty_def applyInput_def split: option.splits)
  next
    case (OpTick dt)
    with assms(2,3) world show ?thesis
      by (auto simp: tickAll_def findRoom_def map_of_map_snd tick_room_def simp del: map_of_eq_Some_iff)
  qed
qed

subsection \<open>The effect of one join\<close>

lemma addPlayerToRoom_effect:
  assumes "manager_ok m" and "addPlayerToRoom mg key spec m = (ok, m')"
  shows "k \<noteq> key \<Longrightarrow> findRoom k m' = findRoom k m"
    and "sid \<noteq> session_id spec \<Longrightarrow> umap_find (m_sessionToRoom m') sid = umap_find (m_sessionToRoom m) sid"
    and "umap_find (m_sessionToRoom m) (session_id spec) \<noteq> None \<Longrightarrow> m' = m \<and> (findRoom key m \<noteq> None \<longrightarrow> ok)"
    and "umap_find (m_sessionToRoom m) (session_id spec) = None \<Longrightarrow>
      umap_find (m_sessionToRoom m') (session_id spec) = (if ok then Some key else None)"
proof -
  have bid: "battleId (snd (addPlayer mg spec r)) = key" if "umap_find (m_rooms m) key = Some r" for r
    using manager_ok_room(2) [OF assms(1) that] by (simp add: frame_simps)
  show "k \<noteq> key \<Longrightarrow> findRoom k m' = findRoom k m"
    and "sid \<noteq> session_id spec \<Longrightarrow> umap_find (m_sessionToRoom m') sid = umap_find (m_sessionToRoom m) sid"
    and "umap_find (m_sessionToRoom m) (session_id spec) \<noteq> None \<Longrightarrow> m' = m \<and> (findRoom key m \<noteq> None \<longrightarrow> ok)"
    and "umap_find (m_sessionToRoom m) (session_id spec) = None \<Longrightarrow>
      umap_find (m_sessionToRoom m') (session_id spec) = (if ok then Some key else None)"
    using assms(2) bid
    by (auto simp: addPlayerToRoom_def findRoom_def Let_def split: option.splits prod.splits if_splits)
qed

end
