(* ===== verification/BattleServer.thy ===== *)
theory BattleServer
  imports BattleSync BattleRoomManager
begin

section \<open>The battle server\<close>

text \<open>
  \<open>battle/src/BattleServer.cpp\<close> and \<open>.h\<close>: the delegate of the backend client that creates
  battles, applies input, ticks the rooms and reports the load.

  The server's members extend the client's record, so that the callbacks, which use
  \<open>m_backend\<close>, and the client, which calls them, work on one state. \<open>fault\<close> is a ghost
  field: it is set where the code would dereference the null \<open>m_roomManager\<close> or divide an
  integer by zero. \<open>stop\<close> is only ever called back into with \<open>onSessionOffline\<close> and
  \<open>onShutdown\<close>, the \<open>shutdown_callbacks\<close>.
\<close>

subsection \<open>Data\<close>

record BattleServerConfig =
  cfg_server_instanceId :: u32
  cfg_server_gatewayHost :: string
  cfg_server_gatewayPort :: i32
  cfg_reconnectInterval :: f32
  cfg_tickRate :: i32
  cfg_snapshotIntervalFrames :: i32
  cfg_maxBattles :: u32
  cfg_maxSessions :: u32
  cfg_loadReportInterval :: f32
  cfg_contentRoot :: string

definition default_BattleServerConfig :: BattleServerConfig where
  "default_BattleServerConfig = \<lparr>cfg_server_instanceId = 1, cfg_server_gatewayHost = ''127.0.0.1'',
     cfg_server_gatewayPort = 17100, cfg_reconnectInterval = f32_of_int 3, cfg_tickRate = 30,
     cfg_snapshotIntervalFrames = 10, cfg_maxBattles = 100, cfg_maxSessions = 200,
     cfg_loadReportInterval = f32_of_int 5, cfg_contentRoot = ''../../AxmolFighter-Client/Content''\<rparr>"

record ('u, 'w) server = "'u client" +
  server_config :: BattleServerConfig
  m_roomManager :: "'w BattleRoomManager option"
  server_running :: bool
  m_randomSeed :: u64
  m_loadReportTimer :: f32
  fault :: bool

definition new_server :: "('u, 'w) server" where
  "new_server = client.extend (init_client default_BackendConfig)
     (server.fields default_BattleServerConfig None False 0xBA771E f32_zero False)"

subsection \<open>Session and connection callbacks\<close>

definition server_onSessionOffline :: "('u, 'w) battle_env \<Rightarrow> u32 \<Rightarrow> ('u, 'w) server \<Rightarrow> ('u, 'w) server" where
  "server_onSessionOffline env sid s =
     (case m_roomManager s of None \<Rightarrow> s
      | Some mgr \<Rightarrow>
          let s = s\<lparr>m_roomManager := Some (removePlayerFromRoom sid mgr)\<rparr>
          in snd (unbindService (cenv env) sid kServiceIdBattle s))"

definition shutdown_callbacks :: "('u, 'w) battle_env \<Rightarrow> ('u, 'w) server delegate" where
  "shutdown_callbacks env = default_delegate\<lparr>onSessionOffline := server_onSessionOffline env\<rparr>"

definition shutdown :: "('u, 'w) battle_env \<Rightarrow> ('u, 'w) server \<Rightarrow> ('u, 'w) server" where
  "shutdown env s = stop (Some (shutdown_callbacks env)) (s\<lparr>server_running := False\<rparr>)"

definition server_onDisconnected :: "('u, 'w) battle_env \<Rightarrow> ('u, 'w) server \<Rightarrow> ('u, 'w) server" where
  "server_onDisconnected env s = shutdown env (s\<lparr>m_roomManager := None\<rparr>)"

definition server_onServerOffline :: "('u, 'w) battle_env \<Rightarrow> u32 \<Rightarrow> u32 \<Rightarrow> ('u, 'w) server \<Rightarrow> ('u, 'w) server" where
  "server_onServerOffline env svc ins s = (if svc = kServiceIdGame then shutdown env s else s)"

subsection \<open>Creating a battle\<close>

definition SerializeToString_BattleCreateResp :: "pb_rt \<Rightarrow> BattleCreateResp \<Rightarrow> bytes option" where
  "SerializeToString_BattleCreateResp r m =
     serialize_to_string (BattleCreateResp_ByteSizeLong r m) (BattleCreateResp_serialize r m)"

text \<open>The response message of \<open>makeBattleCreateResp\<close>.\<close>

definition battle_create_resp :: "('u, 'w) battle_env \<Rightarrow> i32 \<Rightarrow> string \<Rightarrow> 'w BattleRoom option \<Rightarrow> u32 \<Rightarrow>
    ('u, 'w) server \<Rightarrow> BattleCreateResp" where
  "battle_create_resp env code message room requesterActorId s =
     (let resp = BattleCreateResp_default\<lparr>BattleCreateResp_code := code,
            BattleCreateResp_message := str_bytes message\<rparr>
      in case room of None \<Rightarrow> resp
         | Some room \<Rightarrow>
             resp\<lparr>BattleCreateResp_battle_id := battleId room,
               BattleCreateResp_battle_instance_id := cfg_server_instanceId (server_config s),
               BattleCreateResp_server_frame := room_serverFrame room,
               BattleCreateResp_world_dump := serializeWorld (world env) room,
               BattleCreateResp_actor_entity_id := requesterActorId,
               BattleCreateResp_players := map (\<lambda>(sid, slot). BattlePlayerSpawn_default
                 \<lparr>BattlePlayerSpawn_session_id := sid, BattlePlayerSpawn_actor_entity_id := slot_actorId slot\<rparr>)
                 (room_players room)\<rparr>)"

definition makeBattleCreateResp :: "('u, 'w) battle_env \<Rightarrow> i32 \<Rightarrow> string \<Rightarrow> 'w BattleRoom option \<Rightarrow> u32 \<Rightarrow>
    ('u, 'w) server \<Rightarrow> SerializedMessage option" where
  "makeBattleCreateResp env code message room requesterActorId s =
     makeSerializedMessage BattleCreateResp_Id
       (SerializeToString_BattleCreateResp (rt (cenv env)) (battle_create_resp env code message room requesterActorId s))"

text \<open>The loop over the players of a request, for the new room \<open>key\<close>.\<close>

fun join_players :: "'w mugen \<Rightarrow> u32 \<Rightarrow> u32 \<Rightarrow> BattlePlayerSpec list \<Rightarrow> bool \<times> u32 \<times> 'w BattleRoomManager \<Rightarrow>
    bool \<times> u32 \<times> 'w BattleRoomManager" where
  "join_players mg frameSession key [] acc = acc"
| "join_players mg frameSession key (player # players) (joined, requesterActorId, mgr) =
     (let (ok, mgr) = addPlayerToRoom mg key player mgr
      in if \<not> ok then join_players mg frameSession key players (joined, requesterActorId, mgr)
         else if session_id player = frameSession \<or> frameSession = 0 then
           join_players mg frameSession key players (True,
             (case findRoom key mgr of None \<Rightarrow> INVALID_ENTITY_ID mg
              | Some room \<Rightarrow> actorIdForSession mg (session_id player) room), mgr)
         else join_players mg frameSession key players (joined, requesterActorId, mgr))"

definition onBattleCreate :: "('u, 'w) battle_env \<Rightarrow> BackendFrame \<Rightarrow> ('u, 'w) server \<Rightarrow>
    SerializedMessage option \<times> ('u, 'w) server" where
  "onBattleCreate env frame s =
     (case BattleCreateReq_parse (rt (cenv env)) (parse_BattlePlayerSpec env) (payload frame) of
        None \<Rightarrow> (makeBattleCreateResp env 1 ''invalid BattleCreateReq'' None 0 s, s)
      | Some req \<Rightarrow>
          (case m_roomManager s of None \<Rightarrow> (None, s\<lparr>fault := True\<rparr>)
           | Some mgr \<Rightarrow>
               (case findRoom (BattleCreateReq_battle_id req) mgr of
                  Some existing \<Rightarrow>
                    (makeBattleCreateResp env 0 '''' (Some existing)
                       (actorIdForSession (world env) (sessionId frame) existing) s, s)
                | None \<Rightarrow>
                    let (seed, s) = (if BattleCreateReq_random_seed req \<noteq> 0 then (BattleCreateReq_random_seed req, s)
                                     else (m_randomSeed s + 1, s\<lparr>m_randomSeed := m_randomSeed s + 1\<rparr>));
                        roomConfig = \<lparr>cfg_battleId = BattleCreateReq_battle_id req,
                          cfg_mapId = (if sint (BattleCreateReq_map_id req) \<le> 0 then 1 else BattleCreateReq_map_id req),
                          cfg_randomSeed = seed, cfg_mode = ''duel'', cfg_maxPlayers = 2\<rparr>;
                        (room, mgr) = createRoom (world env) roomConfig mgr
                    in case room of
                      None \<Rightarrow> let s = s\<lparr>m_roomManager := Some mgr\<rparr>
                              in (makeBattleCreateResp env 3 ''create battle failed'' None 0 s, s)
                    | Some key \<Rightarrow>
                        let (joined, requesterActorId, mgr) =
                              join_players (world env) (sessionId frame) key (BattleCreateReq_players req) (False, 0, mgr);
                            s = s\<lparr>m_roomManager := Some mgr\<rparr>
                        in if \<not> joined \<and> BattleCreateReq_players req \<noteq> [] then
                             (makeBattleCreateResp env 4 ''battle is full or spawn failed'' None 0 s, s)
                           else (case findRoom key mgr of None \<Rightarrow> (None, s)
                             | Some room \<Rightarrow>
                                 let s = sendSnapshot env room s
                                 in (makeBattleCreateResp env 0 '''' (Some room) requesterActorId s, s)))))"

subsection \<open>Requests, pushes and input\<close>

definition server_onServerRequest :: "('u, 'w) battle_env \<Rightarrow> ServerSource \<Rightarrow> BackendFrame \<Rightarrow> ('u, 'w) server \<Rightarrow>
    SerializedMessage option \<times> ('u, 'w) server" where
  "server_onServerRequest env source frame s =
     (if msgId frame = BattleCreateReq_Id then onBattleCreate env frame s else (None, s))"

text \<open>\<open>room\<close> is the room stored under the session's route, so input goes to that key.\<close>

definition onBattleInput :: "('u, 'w) battle_env \<Rightarrow> u32 \<Rightarrow> BackendFrame \<Rightarrow> ('u, 'w) server \<Rightarrow> ('u, 'w) server" where
  "onBattleInput env sid frame s =
     (case parse_BattleInputPush env (payload frame) of None \<Rightarrow> s
      | Some (battle_id, client_frame, input_mask, _) \<Rightarrow>
          (case m_roomManager s of None \<Rightarrow> s\<lparr>fault := True\<rparr>
           | Some mgr \<Rightarrow>
               (case (umap_find (m_sessionToRoom mgr) sid, findRoomBySession sid mgr) of
                  (Some key, Some room) \<Rightarrow>
                    if battleId room \<noteq> battle_id then s
                    else s\<lparr>m_roomManager := Some (applyInputAt (world env) key sid client_frame input_mask mgr)\<rparr>
                | _ \<Rightarrow> s)))"

definition server_onClientPush :: "('u, 'w) battle_env \<Rightarrow> u32 \<Rightarrow> BackendFrame \<Rightarrow> ('u, 'w) server \<Rightarrow> ('u, 'w) server" where
  "server_onClientPush env sid frame s =
     (if msgId frame = BattleInputPush_Id then onBattleInput env sid frame s else s)"

text \<open>The delegate; the callbacks that only log are the defaults.\<close>

definition battle_delegate :: "('u, 'w) battle_env \<Rightarrow> ('u, 'w) server delegate" where
  "battle_delegate env = default_delegate\<lparr>
     onDisconnected := server_onDisconnected env, onSessionOffline := server_onSessionOffline env,
     onClientPush := server_onClientPush env, onServerRequest := server_onServerRequest env,
     onServerOffline := server_onServerOffline env\<rparr>"

subsection \<open>The tick\<close>

text \<open>Integer division as the code computes it; \<open>None\<close> for a divisor of zero.\<close>

definition div_or_fault :: "nat \<Rightarrow> nat \<Rightarrow> nat option" where
  "div_or_fault a b = (if b = 0 then None else Some (a div b))"

definition mod_or_fault :: "u32 \<Rightarrow> u32 \<Rightarrow> u32 option" where
  "mod_or_fault a b = (if b = 0 then None else Some (a mod b))"

definition sendLoadReport :: "('u, 'w) battle_env \<Rightarrow> ('u, 'w) server \<Rightarrow> ('u, 'w) server" where
  "sendLoadReport env s =
     (case m_roomManager s of None \<Rightarrow> s\<lparr>fault := True\<rparr>
      | Some mgr \<Rightarrow>
          let maxBattles = cfg_maxBattles (server_config s);
              score = (if maxBattles = 0 then Some 100
                else map_option of_nat (div_or_fault (roomCount mgr * 100) (unat maxBattles)) :: u32 option);
              accepting = canAcceptSession 0 mgr
          in case score of None \<Rightarrow> s\<lparr>fault := True\<rparr>
             | Some loadScore \<Rightarrow>
                 snd (reportLoad (cenv env) (if loadScore > 100 then 100 else loadScore) accepting
                   (str_bytes (if accepting then '''' else ''battle server capacity is full'')) s))"

definition snapshot_step :: "('u, 'w) battle_env \<Rightarrow> i32 \<Rightarrow> 'w BattleRoom \<Rightarrow> ('u, 'w) server \<Rightarrow> ('u, 'w) server" where
  "snapshot_step env snapshotInterval room s =
     (if isEmpty room then s
      else case mod_or_fault (room_serverFrame room) snapshotInterval of
        None \<Rightarrow> s\<lparr>fault := True\<rparr>
      | Some r \<Rightarrow> if r \<noteq> 0 then s else sendSnapshot env room s)"

definition tick :: "('u, 'w) battle_env \<Rightarrow> f32 \<Rightarrow> ('u, 'w) server \<Rightarrow> ('u, 'w) server" where
  "tick env dt s =
     (case m_roomManager s of None \<Rightarrow> s
      | Some mgr \<Rightarrow>
          let timer = f32_add (m_loadReportTimer s) dt;
              s = s\<lparr>m_loadReportTimer := timer\<rparr>;
              s = (if f32_le (cfg_loadReportInterval (server_config s)) timer
                   then sendLoadReport env (s\<lparr>m_loadReportTimer := f32_zero\<rparr>) else s);
              mgr = tickAll (world env) dt mgr;
              s = s\<lparr>m_roomManager := Some mgr\<rparr>;
              frames = cfg_snapshotIntervalFrames (server_config s);
              snapshotInterval = (if sint frames > 0 then frames else 1)
          in fold (\<lambda>(_, room) s. snapshot_step env snapshotInterval room s) (m_rooms mgr) s)"

subsection \<open>Start and run\<close>

definition backend_config :: "BattleServerConfig \<Rightarrow> BackendConfig" where
  "backend_config c =
     (let accepting = (cfg_maxBattles c > 0 \<and> cfg_maxSessions c > 0)
      in default_BackendConfig\<lparr>cfg_serviceId := kServiceIdBattle, cfg_instanceId := cfg_server_instanceId c,
           cfg_gatewayHost := cfg_server_gatewayHost c, cfg_gatewayPort := cfg_server_gatewayPort c,
           cfg_initialLoadScore := 0, cfg_initialAcceptingBindings := accepting,
           cfg_initialLoadMessage := str_bytes (if accepting then '''' else ''battle server capacity is full'')\<rparr>)"

definition init_server :: "('u, 'w) battle_env \<Rightarrow> BattleServerConfig \<Rightarrow> ('u, 'w) server \<Rightarrow> bool \<times> ('u, 'w) server" where
  "init_server env config s =
     (let s = s\<lparr>server_config := config\<rparr>
      in if cfg_contentRoot config \<noteq> [] \<and> \<not> mountContentRoot env (cfg_contentRoot config) then (False, s)
         else if cfg_contentRoot config \<noteq> [] \<and> \<not> load_config env ''/mugen/config/config.bin'' then (False, s)
         else if cfg_contentRoot config \<noteq> [] \<and> \<not> load_avatar env ''/mugen/config/avatar.bin'' then (False, s)
         else let s = s\<lparr>m_roomManager := Some (new_BattleRoomManager (cfg_maxBattles config) (cfg_maxSessions config))\<rparr>
           in client_init (backend_config config) s)"

text \<open>\<open>run\<close> up to the loop of the io service; \<open>now\<close> is the clock at its start.\<close>

definition run_server :: "int \<Rightarrow> ('u, 'w) server \<Rightarrow> ('u, 'w) server" where
  "run_server now s =
     (let s = s\<lparr>server_running := True\<rparr>
      in if cfg_tickRate (server_config s) = 0 then s\<lparr>fault := True\<rparr>
         else start now (emit [YSchedule (1000000 sdiv sint (cfg_tickRate (server_config s)))] s))"

text \<open>The tick timer's callback; \<open>True\<close> ends the timer.\<close>

definition tick_timer :: "('u, 'w) battle_env \<Rightarrow> ('u, 'w) server \<Rightarrow> bool \<times> ('u, 'w) server" where
  "tick_timer env s =
     (if \<not> server_running s then (True, s)
      else (False, tick env (f32_div (f32_of_int 1) (f32_of_int (sint (cfg_tickRate (server_config s))))) s))"

end
