(* ===== verification/ServerInvariant.thy ===== *)
theory ServerInvariant
  imports BattleServer
begin

section \<open>The invariant of the server\<close>

text \<open>
  The state the server keeps across every event: the client's and the room manager's
  invariants, its configuration, and, while frames can arrive, a live room manager and no
  fault. The callbacks of \<open>BattleServer\<close> satisfy the contract of \<open>ClientContract\<close>: the
  interpretations below discharge it, and the properties of the running server follow.
\<close>

subsection \<open>The invariant\<close>

definition manager_inv :: "BattleServerConfig \<Rightarrow> 'w BattleRoomManager \<Rightarrow> bool" where
  "manager_inv c m \<longleftrightarrow> manager_ok m \<and> m_maxRooms m = cfg_maxBattles c \<and> m_maxSessions m = cfg_maxSessions c"

definition server_inv :: "BattleServerConfig \<Rightarrow> ('u, 'w) server \<Rightarrow> bool" where
  "server_inv c s \<longleftrightarrow> client_ok s \<and> server_config s = c \<and> m_config s = backend_config c \<and>
     (\<forall>mgr. m_roomManager s = Some mgr \<longrightarrow> manager_inv c mgr)"

definition serving :: "BattleServerConfig \<Rightarrow> ('u, 'w) server \<Rightarrow> bool" where
  "serving c s \<longleftrightarrow> server_inv c s \<and> m_roomManager s \<noteq> None \<and> \<not> fault s"

lemma manager_inv_step: "manager_inv c m \<Longrightarrow> manager_inv c (manager_step mg x m)"
  by (simp add: manager_inv_def frame_simps inv_intros)

lemmas manager_inv_ops = manager_inv_step [where x = "OpCreate config" for config, simplified]
  manager_inv_step [where x = "OpJoin key spec" for key spec, simplified]
  manager_inv_step [where x = "OpLeave sid" for sid, simplified]
  manager_inv_step [where x = "OpInput key sid cf keys" for key sid cf keys, simplified]
  manager_inv_step [where x = "OpTick dt" for dt, simplified]

lemma manager_inv_join_players:
  "manager_inv c (snd (snd acc)) \<Longrightarrow> manager_inv c (snd (snd (join_players mg fs key ps acc)))"
proof (induction mg fs key ps acc rule: join_players.induct)
  case (2 mg fs key p ps j a m)
  then show ?case
    using manager_inv_ops(2) [of c m mg key p] by (auto simp: Let_def split: prod.splits)
qed simp

lemma emit_server_simps [frame_simps]:
  "server_config (emit acts s) = server_config s" "m_roomManager (emit acts s) = m_roomManager s"
  "server_running (emit acts s) = server_running s" "m_randomSeed (emit acts s) = m_randomSeed s"
  "m_loadReportTimer (emit acts s) = m_loadReportTimer s" "fault (emit acts s) = fault s"
  by (simp_all add: emit_def)

lemma server_inv_emit [simp]: "server_inv c (emit acts s) = server_inv c s"
  by (simp add: server_inv_def client_ok_def frame_simps)

lemma serving_emit [simp]: "serving c (emit acts s) = serving c s"
  by (simp add: serving_def frame_simps)

lemma inv_set_manager:
  assumes "manager_inv c m"
  shows "server_inv c s \<Longrightarrow> server_inv c (s\<lparr>m_roomManager := Some m\<rparr>)"
    and "serving c s \<Longrightarrow> serving c (s\<lparr>m_roomManager := Some m\<rparr>)"
  using assms by (simp_all add: server_inv_def serving_def client_ok_def)

lemma inv_sendSnapshot [simp]:
  "server_inv c (sendSnapshot env room s) = server_inv c s" "serving c (sendSnapshot env room s) = serving c s"
  using sendSnapshot_emit [of env room s] by auto

subsection \<open>The callbacks keep it\<close>

lemma server_invD: "server_inv c s \<Longrightarrow> m_roomManager s = Some mgr \<Longrightarrow> manager_inv c mgr"
  and servingD: "serving c s \<Longrightarrow> server_inv c s"
  and serving_manager: "serving c s \<Longrightarrow> \<exists>mgr. m_roomManager s = Some mgr"
  by (auto simp: server_inv_def serving_def)

lemma onSessionOffline_eq:
  "\<exists>acts. server_onSessionOffline env sid s =
     (case m_roomManager s of None \<Rightarrow> s
      | Some mgr \<Rightarrow> emit acts (s\<lparr>m_roomManager := Some (removePlayerFromRoom sid mgr)\<rparr>))"
proof (cases "m_roomManager s")
  case None
  then show ?thesis by (simp add: server_onSessionOffline_def)
next
  case (Some mgr)
  then show ?thesis
    using unbindService_emit [of "cenv env" sid kServiceIdBattle
        "s\<lparr>m_roomManager := Some (removePlayerFromRoom sid mgr)\<rparr>"]
    by (simp add: server_onSessionOffline_def)
qed

lemma onSessionOffline_inv:
  shows "server_inv c s \<Longrightarrow> server_inv c (server_onSessionOffline env sid s)"
    and "serving c s \<Longrightarrow> serving c (server_onSessionOffline env sid s)"
proof -
  obtain acts where eq: "server_onSessionOffline env sid s =
     (case m_roomManager s of None \<Rightarrow> s
      | Some mgr \<Rightarrow> emit acts (s\<lparr>m_roomManager := Some (removePlayerFromRoom sid mgr)\<rparr>))"
    using onSessionOffline_eq [of env sid s] by blast
  show "server_inv c s \<Longrightarrow> server_inv c (server_onSessionOffline env sid s)"
    unfolding eq using server_invD [of c s] by (auto intro!: inv_set_manager manager_inv_ops split: option.split)
  show "serving c s \<Longrightarrow> serving c (server_onSessionOffline env sid s)"
    unfolding eq using server_invD [OF servingD, of c s]
    by (auto intro!: inv_set_manager manager_inv_ops split: option.split)
qed

lemma onBattleInput_inv:
  shows "server_inv c s \<Longrightarrow> server_inv c (onBattleInput env sid frame s)"
    and "serving c s \<Longrightarrow> serving c (onBattleInput env sid frame s)"
proof -
  have set: "server_inv c s \<Longrightarrow> m_roomManager s = Some mgr \<Longrightarrow>
      server_inv c (s\<lparr>m_roomManager := Some (applyInputAt (world env) key sid cf keys mgr)\<rparr>) \<and>
      (serving c s \<longrightarrow> serving c (s\<lparr>m_roomManager := Some (applyInputAt (world env) key sid cf keys mgr)\<rparr>))"
    for mgr key cf keys
    by (simp add: inv_set_manager manager_inv_ops server_invD)
  have flt: "server_inv c (s\<lparr>fault := True\<rparr>) = server_inv c s" by (simp add: server_inv_def client_ok_def)
  show "server_inv c s \<Longrightarrow> server_inv c (onBattleInput env sid frame s)"
    using set by (auto simp: onBattleInput_def flt split: option.splits)
  show "serving c s \<Longrightarrow> serving c (onBattleInput env sid frame s)"
    using set servingD [of c s] serving_manager [of c s] by (auto simp: onBattleInput_def split: option.splits)
qed

lemma set_same_manager:
  "m_roomManager s = Some mgr \<Longrightarrow> s = emit [] (s\<lparr>m_randomSeed := m_randomSeed s, m_roomManager := Some mgr\<rparr>)"
  by simp

lemma createRoom_find:
  "createRoom mg config m = (Some k, m') \<Longrightarrow> k = cfg_battleId config \<and> (\<exists>r. findRoom k m' = Some r)"
  by (auto simp: createRoom_def findRoom_def umap_emplace_find Let_def split: if_splits prod.splits option.splits)

lemma addPlayerToRoom_find:
  "findRoom k m = Some r \<Longrightarrow> \<exists>r'. findRoom k (snd (addPlayerToRoom mg key spec m)) = Some r'"
  by (auto simp: addPlayerToRoom_def findRoom_def Let_def split: option.splits prod.splits)

lemma join_players_find:
  "findRoom k (snd (snd acc)) = Some r \<Longrightarrow> \<exists>r'. findRoom k (snd (snd (join_players mg fs key ps acc))) = Some r'"
proof (induction mg fs key ps acc arbitrary: r rule: join_players.induct)
  case (2 mg fs key p ps j a m)
  obtain ok m1 where add: "addPlayerToRoom mg key p m = (ok, m1)" by fastforce
  obtain r1 where "findRoom k m1 = Some r1"
    using addPlayerToRoom_find [of k m r mg key p] 2(4) add by auto
  then show ?case using 2(1-3) add by (auto split: prod.splits)
qed simp

text \<open>The configuration of the room a request asks for, given the seed.\<close>

definition requested_room :: "BattleCreateReq \<Rightarrow> u64 \<Rightarrow> BattleRoomConfig" where
  "requested_room req seed = \<lparr>cfg_battleId = BattleCreateReq_battle_id req,
     cfg_mapId = (if sint (BattleCreateReq_map_id req) \<le> 0 then 1 else BattleCreateReq_map_id req),
     cfg_randomSeed = (if BattleCreateReq_random_seed req \<noteq> 0 then BattleCreateReq_random_seed req else seed + 1),
     cfg_mode = ''duel'', cfg_maxPlayers = 2\<rparr>"

definition next_seed :: "BattleCreateReq \<Rightarrow> u64 \<Rightarrow> u64" where
  "next_seed req seed = (if BattleCreateReq_random_seed req \<noteq> 0 then seed else seed + 1)"

text \<open>The outcomes of a creation.\<close>

lemma onBattleCreate_cases [consumes 1]:
  assumes "m_roomManager s = Some mgr"
  obtains
    (invalid) "BattleCreateReq_parse (rt (cenv env)) (parse_BattlePlayerSpec env) (payload frame) = None"
      and "onBattleCreate env frame s = (makeBattleCreateResp env 1 ''invalid BattleCreateReq'' None 0 s, s)"
  | (existing) req room
    where "BattleCreateReq_parse (rt (cenv env)) (parse_BattlePlayerSpec env) (payload frame) = Some req"
      and "findRoom (BattleCreateReq_battle_id req) mgr = Some room"
      and "onBattleCreate env frame s = (makeBattleCreateResp env 0 '''' (Some room)
             (actorIdForSession (world env) (sessionId frame) room) s, s)"
  | (failed) req m1 s1
    where "BattleCreateReq_parse (rt (cenv env)) (parse_BattlePlayerSpec env) (payload frame) = Some req"
      and "findRoom (BattleCreateReq_battle_id req) mgr = None"
      and "createRoom (world env) (requested_room req (m_randomSeed s)) mgr = (None, m1)"
      and "s1 = s\<lparr>m_randomSeed := next_seed req (m_randomSeed s), m_roomManager := Some m1\<rparr>"
      and "onBattleCreate env frame s = (makeBattleCreateResp env 3 ''create battle failed'' None 0 s1, s1)"
  | (nobody) req key m1 a m2 s1
    where "BattleCreateReq_parse (rt (cenv env)) (parse_BattlePlayerSpec env) (payload frame) = Some req"
      and "findRoom (BattleCreateReq_battle_id req) mgr = None" and "key = BattleCreateReq_battle_id req"
      and "createRoom (world env) (requested_room req (m_randomSeed s)) mgr = (Some key, m1)"
      and "join_players (world env) (sessionId frame) key (BattleCreateReq_players req) (False, 0, m1) = (False, a, m2)"
      and "BattleCreateReq_players req \<noteq> []"
      and "s1 = s\<lparr>m_randomSeed := next_seed req (m_randomSeed s), m_roomManager := Some m2\<rparr>"
      and "onBattleCreate env frame s = (makeBattleCreateResp env 4 ''battle is full or spawn failed'' None 0 s1, s1)"
  | (created) req key m1 j a m2 room s1
    where "BattleCreateReq_parse (rt (cenv env)) (parse_BattlePlayerSpec env) (payload frame) = Some req"
      and "findRoom (BattleCreateReq_battle_id req) mgr = None" and "key = BattleCreateReq_battle_id req"
      and "createRoom (world env) (requested_room req (m_randomSeed s)) mgr = (Some key, m1)"
      and "join_players (world env) (sessionId frame) key (BattleCreateReq_players req) (False, 0, m1) = (j, a, m2)"
      and "j \<or> BattleCreateReq_players req = []" and "findRoom key m2 = Some room"
      and "s1 = sendSnapshot env room (s\<lparr>m_randomSeed := next_seed req (m_randomSeed s), m_roomManager := Some m2\<rparr>)"
      and "onBattleCreate env frame s = (makeBattleCreateResp env 0 '''' (Some room) a s1, s1)"
proof (cases "BattleCreateReq_parse (rt (cenv env)) (parse_BattlePlayerSpec env) (payload frame)")
  case None
  then show ?thesis by (intro invalid) (simp_all add: onBattleCreate_def)
next
  case (Some req)
  show ?thesis
  proof (cases "findRoom (BattleCreateReq_battle_id req) mgr")
    case room: (Some room)
    with Some show ?thesis by (intro existing) (simp_all add: onBattleCreate_def assms)
  next
    case None
    obtain r m1 where cr: "createRoom (world env) (requested_room req (m_randomSeed s)) mgr = (r, m1)" by fastforce
    have seed: "(if BattleCreateReq_random_seed req \<noteq> 0 then (BattleCreateReq_random_seed req, s)
        else (m_randomSeed s + 1, s\<lparr>m_randomSeed := m_randomSeed s + 1\<rparr>))
      = (cfg_randomSeed (requested_room req (m_randomSeed s)), s\<lparr>m_randomSeed := next_seed req (m_randomSeed s)\<rparr>)"
      by (simp add: requested_room_def next_seed_def)
    have config: "\<lparr>cfg_battleId = BattleCreateReq_battle_id req,
        cfg_mapId = (if sint (BattleCreateReq_map_id req) \<le> 0 then 1 else BattleCreateReq_map_id req),
        cfg_randomSeed = cfg_randomSeed (requested_room req (m_randomSeed s)), cfg_mode = ''duel'', cfg_maxPlayers = 2\<rparr>
      = requested_room req (m_randomSeed s)"
      by (simp add: requested_room_def)
    note unf = onBattleCreate_def [of env frame s, unfolded Some assms option.case None seed Let_def prod.case config cr]
    show ?thesis
    proof (cases r)
      case r: None
      show ?thesis using unf cr Some None unfolding r option.case by (intro failed) simp_all
    next
      case r: (Some key)
      have key: "key = BattleCreateReq_battle_id req"
        using createRoom_find [of "world env" "requested_room req (m_randomSeed s)" mgr key m1] cr r
        by (simp add: requested_room_def)
      obtain j a m2 where jp: "join_players (world env) (sessionId frame) key (BattleCreateReq_players req) (False, 0, m1)
          = (j, a, m2)" by (metis prod_cases3)
      obtain room where room: "findRoom key m2 = Some room"
        using createRoom_find [of "world env" "requested_room req (m_randomSeed s)" mgr key m1] cr r
          join_players_find [of key "(False, 0, m1)" _ "world env" "sessionId frame" key "BattleCreateReq_players req"] jp
        by auto
      note unf = unf [unfolded r option.case jp prod.case room]
      show ?thesis
      proof (cases "\<not> j \<and> BattleCreateReq_players req \<noteq> []")
        case True
        then show ?thesis using unf cr Some None key jp r by (intro nobody) simp_all
      next
        case False
        then show ?thesis using unf cr Some None key jp r room by (intro created) auto
      qed
    qed
  qed
qed

text \<open>The state after creating a battle: the room manager, the seed and the trace change.\<close>

lemma onBattleCreate_state:
  assumes "m_roomManager s = Some mgr"
  shows "\<exists>seed mgr' acts. snd (onBattleCreate env frame s) =
      emit acts (s\<lparr>m_randomSeed := seed, m_roomManager := Some mgr'\<rparr>) \<and> (\<forall>c. manager_inv c mgr \<longrightarrow> manager_inv c mgr')"
proof -
  have same: "\<exists>seed mgr' acts. s = emit acts (s\<lparr>m_randomSeed := seed, m_roomManager := Some mgr'\<rparr>)
      \<and> (\<forall>c. manager_inv c mgr \<longrightarrow> manager_inv c mgr')"
    using set_same_manager [OF assms] by metis
  have create: "manager_inv c mgr \<Longrightarrow> manager_inv c m1" if "createRoom mg config mgr = (r, m1)" for c mg config r m1
    using manager_inv_ops(1) [of c mgr mg config] that by simp
  have join: "manager_inv c m1 \<Longrightarrow> manager_inv c m2" if "join_players mg fs key ps (False, 0, m1) = (j, a, m2)"
    for c mg fs key ps m1 j a m2
    using manager_inv_join_players [of c "(False, 0, m1)" mg fs key ps] that by simp
  from assms show ?thesis
  proof (cases rule: onBattleCreate_cases [where env = env and frame = frame])
    case invalid
    then show ?thesis using same by simp
  next
    case (existing req room)
    then show ?thesis using same by simp
  next
    case (failed req m1 s1)
    then show ?thesis using create by (metis emit_Nil snd_conv)
  next
    case (nobody req key m1 a m2 s1)
    then show ?thesis using create join by (metis emit_Nil snd_conv)
  next
    case (created req key m1 j a m2 room s1)
    obtain acts where "s1 = emit acts (s\<lparr>m_randomSeed := next_seed req (m_randomSeed s), m_roomManager := Some m2\<rparr>)"
      using sendSnapshot_emit created(8) by metis
    then show ?thesis using create [OF created(4)] join [OF created(5)] created(9) by (metis snd_conv)
  qed
qed

lemma onBattleCreate_no_manager:
  "m_roomManager s = None \<Longrightarrow> snd (onBattleCreate env frame s) = s \<or> snd (onBattleCreate env frame s) = s\<lparr>fault := True\<rparr>"
  by (simp add: onBattleCreate_def split: option.split)

lemma onBattleCreate_inv:
  shows "server_inv c s \<Longrightarrow> server_inv c (snd (onBattleCreate env frame s))"
    and "serving c s \<Longrightarrow> serving c (snd (onBattleCreate env frame s))"
proof -
  have seed: "server_inv c (s\<lparr>m_randomSeed := x\<rparr>) = server_inv c s" "serving c (s\<lparr>m_randomSeed := x\<rparr>) = serving c s"
    for s :: "('a, 'b) server" and x
    by (simp_all add: server_inv_def serving_def client_ok_def)
  have flt: "server_inv c (s\<lparr>fault := True\<rparr>) = server_inv c s" by (simp add: server_inv_def client_ok_def)
  show inv: "server_inv c (snd (onBattleCreate env frame s))" if "server_inv c s"
  proof (cases "m_roomManager s")
    case None
    then show ?thesis using onBattleCreate_no_manager [OF None, of env frame] that flt by auto
  next
    case (Some mgr)
    then show ?thesis
      using onBattleCreate_state [OF Some, of env frame] server_invD [OF that Some] that
      by (auto simp: inv_set_manager seed)
  qed
  show "serving c (snd (onBattleCreate env frame s))" if serving: "serving c s"
  proof -
    obtain mgr where mgr: "m_roomManager s = Some mgr" using serving_manager [OF serving] by blast
    then show ?thesis
      using onBattleCreate_state [OF mgr, of env frame] server_invD [OF servingD [OF serving] mgr] serving
      by (auto simp: inv_set_manager seed)
  qed
qed

subsection \<open>The contract, discharged\<close>

text \<open>The client's own updates.\<close>

lemma server_inv_conn: "server_inv c s \<Longrightarrow> server_inv c (s\<lparr>m_transport := t, m_state := st, m_running := r,
    m_lastRpcUpdate := n, io := io s @ acts\<rparr>)"
  by (simp add: server_inv_def client_ok_def)

lemma serving_conn: "serving c s \<Longrightarrow> serving c (s\<lparr>m_transport := t, m_state := st, m_running := r,
    m_lastRpcUpdate := n, io := io s @ acts\<rparr>)"
  by (simp add: serving_def server_inv_conn)

lemma server_inv_rpc: "server_inv c s \<Longrightarrow> rpc_ok q \<Longrightarrow> server_inv c (s\<lparr>m_rpc := q\<rparr>)"
  by (simp add: server_inv_def client_ok_def)

lemma serving_rpc: "serving c s \<Longrightarrow> rpc_ok q \<Longrightarrow> serving c (s\<lparr>m_rpc := q\<rparr>)"
  by (simp add: serving_def server_inv_rpc)

lemma server_inv_sessions: "server_inv c s \<Longrightarrow> distinct xs \<Longrightarrow> server_inv c (s\<lparr>m_onlineSessions := xs\<rparr>)"
  by (simp add: server_inv_def client_ok_def)

lemma serving_sessions: "serving c s \<Longrightarrow> distinct xs \<Longrightarrow> serving c (s\<lparr>m_onlineSessions := xs\<rparr>)"
  by (simp add: serving_def server_inv_sessions)

lemma server_inv_client: "server_inv c s \<Longrightarrow> client_ok s"
  by (simp add: server_inv_def)

lemma server_inv_running [simp]: "server_inv c (s\<lparr>server_running := b\<rparr>) = server_inv c s"
  "serving c (s\<lparr>server_running := b\<rparr>) = serving c s"
  by (simp_all add: server_inv_def serving_def client_ok_def)

lemmas own_updates = server_inv_conn serving_conn server_inv_rpc serving_rpc server_inv_sessions serving_sessions
  server_inv_client servingD [THEN server_inv_client]

interpretation stopping: packet_delegate "shutdown_callbacks env" "server_inv c" for env c
  by unfold_locales (auto simp: shutdown_callbacks_def default_delegate_def intro: own_updates onSessionOffline_inv)

interpretation stopping_live: packet_delegate "shutdown_callbacks env" "serving c" for env c
  by unfold_locales (auto simp: shutdown_callbacks_def default_delegate_def intro: own_updates onSessionOffline_inv)

lemma shutdown_inv:
  shows "server_inv c s \<Longrightarrow> server_inv c (shutdown env s)" and "serving c s \<Longrightarrow> serving c (shutdown env s)"
  by (simp_all add: shutdown_def stopping.inv_stop stopping_live.inv_stop)

lemma onDisconnected_inv: "server_inv c s \<Longrightarrow> server_inv c (server_onDisconnected env s)"
  unfolding server_onDisconnected_def by (rule shutdown_inv) (simp add: server_inv_def client_ok_def)

lemma onServerRequest_inv:
  shows "server_inv c s \<Longrightarrow> server_inv c (snd (server_onServerRequest env src frame s))"
    and "serving c s \<Longrightarrow> serving c (snd (server_onServerRequest env src frame s))"
  by (simp_all add: server_onServerRequest_def onBattleCreate_inv)

lemma onClientPush_inv:
  shows "server_inv c s \<Longrightarrow> server_inv c (server_onClientPush env sid frame s)"
    and "serving c s \<Longrightarrow> serving c (server_onClientPush env sid frame s)"
  by (simp_all add: server_onClientPush_def onBattleInput_inv)

lemma onServerOffline_inv:
  shows "server_inv c s \<Longrightarrow> server_inv c (server_onServerOffline env svc ins s)"
    and "serving c s \<Longrightarrow> serving c (server_onServerOffline env svc ins s)"
  by (simp_all add: server_onServerOffline_def shutdown_inv)

interpretation events: backend_delegate "battle_delegate env" "server_inv c" for env c
  by unfold_locales (auto simp: battle_delegate_def default_delegate_def
    intro: own_updates onSessionOffline_inv onServerRequest_inv onClientPush_inv onServerOffline_inv onDisconnected_inv)

interpretation packets: packet_delegate "battle_delegate env" "serving c" for env c
  by unfold_locales (auto simp: battle_delegate_def default_delegate_def
    intro: own_updates onSessionOffline_inv onServerRequest_inv onClientPush_inv onServerOffline_inv)

interpretation passive_stop: passive_delegate "shutdown_callbacks env" for env
proof
  fix s :: "('a, 'b) server" and sid
  obtain acts where "server_onSessionOffline env sid s =
     (case m_roomManager s of None \<Rightarrow> s
      | Some mgr \<Rightarrow> emit acts (s\<lparr>m_roomManager := Some (removePlayerFromRoom sid mgr)\<rparr>))"
    using onSessionOffline_eq [of env sid s] by blast
  then show "keeps_client s (onSessionOffline (shutdown_callbacks env) sid s)"
    by (auto simp: shutdown_callbacks_def keeps_client_def core_eq_iff frame_simps split: option.split)
qed (simp add: shutdown_callbacks_def default_delegate_def)

subsection \<open>The tick\<close>

lemma sendLoadReport_emit:
  "m_roomManager s = Some mgr \<Longrightarrow> \<exists>acts. sendLoadReport env s = emit acts s"
  by (cases "cfg_maxBattles (server_config s) = 0")
    (simp_all add: sendLoadReport_def div_or_fault_def unat_eq_zero Let_def reportLoad_emit)

lemma snapshot_step_emit: "k \<noteq> 0 \<Longrightarrow> \<exists>acts. snapshot_step env k room s = emit acts s"
  using sendSnapshot_emit [of env room s] by (auto simp: snapshot_step_def mod_or_fault_def intro: exI [of _ "[]"])

lemma fold_snapshot_step_emit: "k \<noteq> 0 \<Longrightarrow> \<exists>acts. fold (\<lambda>(_, room) s. snapshot_step env k room s) ps s = emit acts s"
proof (induction ps arbitrary: s)
  case Nil
  then show ?case by (auto intro: exI [of _ "[]"])
next
  case (Cons p ps)
  obtain acts where "snapshot_step env k (snd p) s = emit acts s" using snapshot_step_emit [OF Cons.prems] by blast
  with Cons.IH [OF Cons.prems, of "emit acts s"] show ?case by (auto simp: case_prod_beta)
qed

text \<open>A tick changes the load report's timer, the rooms and the trace.\<close>

lemma tick_state:
  assumes "m_roomManager s = Some mgr"
  shows "\<exists>timer acts. tick env dt s =
    emit acts (s\<lparr>m_loadReportTimer := timer, m_roomManager := Some (tickAll (world env) dt mgr)\<rparr>)"
proof -
  let ?t = "f32_add (m_loadReportTimer s) dt"
  define s1 where "s1 = (if f32_le (cfg_loadReportInterval (server_config s)) ?t
    then sendLoadReport env (s\<lparr>m_loadReportTimer := f32_zero\<rparr>) else s\<lparr>m_loadReportTimer := ?t\<rparr>)"
  have "\<exists>timer acts. s1 = emit acts (s\<lparr>m_loadReportTimer := timer\<rparr>)"
    using sendLoadReport_emit [of "s\<lparr>m_loadReportTimer := f32_zero\<rparr>" mgr env] assms
    by (auto simp: s1_def intro: exI [of _ "[]"]) (metis emit_Nil)
  then obtain timer acts where s1: "s1 = emit acts (s\<lparr>m_loadReportTimer := timer\<rparr>)" by blast
  define k where "k = (if sint (cfg_snapshotIntervalFrames (server_config s1)) > 0
    then cfg_snapshotIntervalFrames (server_config s1) else 1)"
  have k: "k \<noteq> 0" by (auto simp: k_def)
  have "tick env dt s = fold (\<lambda>(_, room) s. snapshot_step env k room s) (m_rooms (tickAll (world env) dt mgr))
      (s1\<lparr>m_roomManager := Some (tickAll (world env) dt mgr)\<rparr>)"
    by (simp add: tick_def assms Let_def s1_def k_def)
  then obtain acts' where "tick env dt s = emit acts' (s1\<lparr>m_roomManager := Some (tickAll (world env) dt mgr)\<rparr>)"
    using fold_snapshot_step_emit [OF k] by metis
  then have "tick env dt s = emit (acts @ acts') (s\<lparr>m_loadReportTimer := timer, m_roomManager := Some (tickAll (world env) dt mgr)\<rparr>)"
    by (simp add: s1 emit_def)
  then show ?thesis by blast
qed

lemma tick_inv:
  shows "server_inv c s \<Longrightarrow> server_inv c (tick env dt s)" and "serving c s \<Longrightarrow> serving c (tick env dt s)"
proof -
  have timer: "server_inv c (s\<lparr>m_loadReportTimer := x\<rparr>) = server_inv c s" "serving c (s\<lparr>m_loadReportTimer := x\<rparr>) = serving c s"
    for s :: "('a, 'b) server" and x
    by (simp_all add: server_inv_def serving_def client_ok_def)
  show inv: "server_inv c (tick env dt s)" if "server_inv c s"
  proof (cases "m_roomManager s")
    case (Some mgr)
    then show ?thesis
      using tick_state [OF Some, of env dt] manager_inv_ops(5) [OF server_invD [OF that Some], of "world env" dt] that
      by (auto simp: inv_set_manager timer)
  qed (use that in \<open>simp add: tick_def\<close>)
  show "serving c (tick env dt s)" if serving: "serving c s"
  proof -
    obtain mgr where mgr: "m_roomManager s = Some mgr" using serving_manager [OF serving] by blast
    then show ?thesis
      using tick_state [OF mgr, of env dt] manager_inv_ops(5) [OF server_invD [OF servingD [OF serving] mgr], of "world env" dt]
        serving
      by (auto simp: inv_set_manager timer)
  qed
qed

lemma tick_timer_inv:
  shows "server_inv c s \<Longrightarrow> server_inv c (snd (tick_timer env s))" and "serving c s \<Longrightarrow> serving c (snd (tick_timer env s))"
  by (simp_all add: tick_timer_def tick_inv)

subsection \<open>The running server\<close>

text \<open>
  The events of the io service's loop, in the order yasio delivers those of one connection:
  it opens or fails, packets arrive while it is open, and it closes; timers and signals come
  at any time. \<open>reach env c l s\<close>: the server configured with \<open>c\<close> and started at some time can
  be in state \<open>s\<close> with the link in state \<open>l\<close>.
\<close>

datatype link = LinkIdle | LinkUp | LinkDown

inductive reach :: "('u, 'w) battle_env \<Rightarrow> BattleServerConfig \<Rightarrow> link \<Rightarrow> ('u, 'w) server \<Rightarrow> bool"
  for env :: "('u, 'w) battle_env" and c :: BattleServerConfig where
  start: "init_server env c new_server = (True, s) \<Longrightarrow> cfg_tickRate c \<noteq> 0 \<Longrightarrow> reach env c LinkIdle (run_server now s)"
| opened: "reach env c LinkIdle s \<Longrightarrow>
    reach env c LinkUp (handleNetworkEvent (cenv env) (Some (battle_delegate env)) (Ev_Open 0 t) s)"
| failed: "reach env c LinkIdle s \<Longrightarrow> status \<noteq> 0 \<Longrightarrow>
    reach env c LinkDown (handleNetworkEvent (cenv env) (Some (battle_delegate env)) (Ev_Open status t) s)"
| packet: "reach env c LinkUp s \<Longrightarrow>
    reach env c LinkUp (handleNetworkEvent (cenv env) (Some (battle_delegate env)) (Ev_Packet body) s)"
| closed: "reach env c LinkUp s \<Longrightarrow>
    reach env c LinkDown (handleNetworkEvent (cenv env) (Some (battle_delegate env)) (Ev_Close status) s)"
| rpc_timer: "reach env c l s \<Longrightarrow> reach env c l (snd (rpcTimer now s))"
| tick_timer: "reach env c l s \<Longrightarrow> reach env c l (snd (tick_timer env s))"
| signalled: "reach env c l s \<Longrightarrow> reach env c l (shutdown env s)"

inductive_cases reach_idleE: "reach env c LinkIdle s"

lemma init_server_inv:
  assumes "init_server env c new_server = (True, s)"
  shows "serving c s" and "\<not> server_running s"
proof -
  have s: "s = new_server\<lparr>server_config := c, m_roomManager := Some (new_BattleRoomManager (cfg_maxBattles c) (cfg_maxSessions c)),
      m_config := backend_config c\<rparr>"
    using assms by (auto simp: init_server_def client_init_def Let_def split: if_splits)
  show "serving c s" "\<not> server_running s"
    by (simp_all add: s serving_def server_inv_def client_ok_def manager_inv_def manager_ok_new new_server_def
        server.defs client.defs init_client_def rpc_ok_init) (simp_all add: new_BattleRoomManager_def)
qed

lemma run_server_inv:
  assumes "serving c s" and "cfg_tickRate c \<noteq> 0" shows "serving c (run_server now s)"
proof -
  have "server_config s = c" using assms(1) by (simp add: serving_def server_inv_def)
  then show ?thesis
    using assms by (auto simp: run_server_def Let_def intro!: packets.inv_start)
qed

text \<open>Once the link is down, nothing can fault.\<close>

definition calm :: "BattleServerConfig \<Rightarrow> ('u, 'w) server \<Rightarrow> bool" where
  "calm c s \<longleftrightarrow> server_inv c s \<and> \<not> fault s"

lemma serving_calm: "serving c s \<Longrightarrow> calm c s"
  by (simp add: serving_def calm_def)

lemma onSessionOffline_calm: "calm c s \<Longrightarrow> calm c (server_onSessionOffline env sid s)"
  using onSessionOffline_inv(1) [of c s env sid] onSessionOffline_eq [of env sid s]
  by (auto simp: calm_def frame_simps split: option.splits)

lemma calm_client: "calm c s \<Longrightarrow> client_ok s"
  and calm_conn: "calm c s \<Longrightarrow> calm c (s\<lparr>m_transport := t, m_state := st, m_running := r,
    m_lastRpcUpdate := n, io := io s @ acts\<rparr>)"
  and calm_rpc: "calm c s \<Longrightarrow> rpc_ok q \<Longrightarrow> calm c (s\<lparr>m_rpc := q\<rparr>)"
  and calm_sessions: "calm c s \<Longrightarrow> distinct xs \<Longrightarrow> calm c (s\<lparr>m_onlineSessions := xs\<rparr>)"
  by (auto simp: calm_def intro: own_updates)

interpretation calming: packet_delegate "shutdown_callbacks env" "calm c" for env c
  by unfold_locales (auto simp: shutdown_callbacks_def default_delegate_def
    intro: calm_client calm_conn calm_rpc calm_sessions onSessionOffline_calm)

lemma shutdown_calm: "calm c s \<Longrightarrow> calm c (shutdown env s)"
  unfolding shutdown_def by (rule calming.inv_stop) (simp add: calm_def)

lemma tick_timer_calm: "calm c s \<Longrightarrow> calm c (snd (tick_timer env s))"
proof (cases "m_roomManager s")
  case None
  then show "calm c s \<Longrightarrow> ?thesis" by (simp add: tick_timer_def tick_def)
next
  case (Some mgr)
  then show "calm c s \<Longrightarrow> ?thesis"
    using tick_timer_inv(2) [of c s env] serving_calm by (auto simp: serving_def calm_def)
qed

lemma close_event_calm:
  assumes "serving c s"
  shows "calm c (handleNetworkEvent (cenv env) (Some (battle_delegate env)) (Ev_Close status) s)"
proof -
  let ?s = "rpcFailAll ''gateway disconnected'' (stopAllSessions (Some (battle_delegate env))
    (s\<lparr>m_transport := None, m_state := Disconnected\<rparr>))"
  have "serving c ?s"
    by (intro packets.inv_rpcFailAll packets.inv_stopAllSessions packets.inv_state packets.inv_transport assms)
  then have "calm c (?s\<lparr>m_roomManager := None\<rparr>)"
    by (simp add: serving_def calm_def server_inv_def client_ok_def)
  then have "calm c (server_onDisconnected env ?s)" by (simp add: server_onDisconnected_def shutdown_calm)
  then show ?thesis
    by (simp add: onGatewayDisconnected_def notify_def battle_delegate_def calming.inv_handleConnectionFailure)
qed

lemma reach_inv: "reach env c l s \<Longrightarrow> calm c s \<and> (l \<noteq> LinkDown \<longrightarrow> serving c s)"
proof (induction rule: reach.induct)
  case (start s now)
  then show ?case using init_server_inv(1) run_server_inv serving_calm by blast
next
  case (opened s t)
  then show ?case using packets.inv_open_event serving_calm by blast
next
  case (failed s status t)
  then show ?case using packets.inv_open_event serving_calm by blast
next
  case (packet s body)
  then show ?case using packets.inv_onRecvFrame serving_calm by (metis handleNetworkEvent.simps(3) link.distinct(5))
next
  case (closed s status)
  then show ?case using close_event_calm by blast
next
  case (rpc_timer l s now)
  then show ?case using packets.inv_rpcTimer calming.inv_rpcTimer by blast
next
  case (tick_timer l s)
  then show ?case using tick_timer_calm tick_timer_inv(2) by blast
next
  case (signalled l s)
  then show ?case using shutdown_calm shutdown_inv(2) by blast
qed

text \<open>C1. Safety of the running server: in every state it can reach from a start with a tick
  rate other than 0, by any frames, timers and signals in the order of one connection, no null
  room manager is dereferenced and no integer is divided by zero (the divisors are the
  tick rate, \<open>max_battles\<close> and the snapshot interval, 0 included in the last two); request ids and
  online sessions are well-formed; the configuration is the loaded one; and the room manager keeps routing, seats and capacity
  consistent, with the configured limits.\<close>
theorem server_safe:
  assumes "reach env c l s"
  shows "\<not> fault s \<and> server_config s = c \<and> distinct (m_onlineSessions s) \<and> rpc_ok (m_rpc s)
    \<and> (l \<noteq> LinkDown \<longrightarrow> m_roomManager s \<noteq> None)
    \<and> (\<forall>mgr. m_roomManager s = Some mgr \<longrightarrow> manager_ok mgr \<and> roomCount mgr \<le> unat (cfg_maxBattles c)
         \<and> unat (activeSessionCount mgr) \<le> unat (cfg_maxSessions c))"
proof -
  note inv = reach_inv [OF assms]
  have "manager_ok mgr \<and> roomCount mgr \<le> unat (cfg_maxBattles c)
      \<and> unat (activeSessionCount mgr) \<le> unat (cfg_maxSessions c)" if "m_roomManager s = Some mgr" for mgr
  proof -
    have "manager_inv c mgr" using inv server_invD [OF _ that] by (simp add: calm_def)
    then show ?thesis
      using activeSessionCount_nat [of mgr] manager_okD(4,5) [of mgr] by (auto simp: manager_inv_def roomCount_def)
  qed
  then show ?thesis using inv by (auto simp: calm_def serving_def server_inv_def client_ok_def)
qed

lemma sample_init:
  "init_server sample_env default_BattleServerConfig new_server =
     (True, snd (init_server sample_env default_BattleServerConfig new_server))"
  by (simp add: init_server_def client_init_def sample_env_def)

theorem server_safe_witness:
  "\<not> fault (shutdown sample_env (handleNetworkEvent (cenv sample_env) (Some (battle_delegate sample_env)) (Ev_Packet [102, 0, 101])
      (handleNetworkEvent (cenv sample_env) (Some (battle_delegate sample_env)) (Ev_Open 0 1)
        (run_server 0 (snd (init_server sample_env default_BattleServerConfig new_server)))))
    :: (nat, (u32, u32) umap \<times> nat) server)"
  by (rule server_safe [THEN conjunct1])
     (rule reach.signalled reach.packet reach.opened reach.start sample_init | simp add: default_BattleServerConfig_def)+

end
