(* ===== verification/ServerProps.thy ===== *)
theory ServerProps
  imports ServerInvariant
begin

section \<open>What the battle server does\<close>

text \<open>
  The behaviour of \<open>BattleServer\<close> event by event: creating a battle and its answers, the rooms
  a failed creation leaves behind, players leaving, input, ticks, load reports, and how the
  server stops.
\<close>

subsection \<open>Creating a battle\<close>

lemma sendSnapshot_manager [frame_simps]: "m_roomManager (sendSnapshot env room s) = m_roomManager s"
  using sendSnapshot_emit [of env room s] by (auto simp: frame_simps)

lemma serving_manager_ok:
  "serving c s \<Longrightarrow> m_roomManager s = Some mgr \<Longrightarrow> manager_ok mgr"
  using server_invD [OF servingD] by (auto simp: manager_inv_def)

lemma create_keeps_ok:
  assumes "manager_ok mgr" and "createRoom mg config mgr = (r, m1)"
    and "join_players mg fs key ps (False, 0, m1) = (j, a, m2)"
  shows "manager_ok m2"
proof -
  let ?c = "default_BattleServerConfig\<lparr>cfg_maxBattles := m_maxRooms mgr, cfg_maxSessions := m_maxSessions mgr\<rparr>"
  have "manager_inv ?c mgr" using assms(1) by (simp add: manager_inv_def)
  then have "manager_inv ?c m1" using manager_inv_ops(1) [of ?c mgr mg config] assms(2) by simp
  then show ?thesis using manager_inv_join_players [of ?c "(False, 0, m1)" mg fs key ps] assms(3) by (simp add: manager_inv_def)
qed

text \<open>A serving server with a registered client, for the concrete instances.\<close>

definition sample_config_server :: "u32 \<Rightarrow> BattleServerConfig" where
  "sample_config_server n = default_BattleServerConfig\<lparr>cfg_maxBattles := n\<rparr>"

definition sample_server :: "u32 \<Rightarrow> u32 list \<Rightarrow> (nat, (u32, u32) umap \<times> nat) server" where
  "sample_server n online = (snd (init_server sample_env (sample_config_server n) new_server))
     \<lparr>m_transport := Some 1, m_state := Registered, m_running := True, server_running := True,
      m_onlineSessions := online\<rparr>"

lemma sample_server_eq:
  "m_roomManager (sample_server n online) = Some (new_BattleRoomManager n 200)"
  "m_transport (sample_server n online) = Some 1" "m_state (sample_server n online) = Registered"
  "m_running (sample_server n online)" "server_running (sample_server n online)"
  "m_onlineSessions (sample_server n online) = online" "server_config (sample_server n online) = sample_config_server n"
  "m_rpc (sample_server n online) = init_rpc" "m_randomSeed (sample_server n online) = 0xBA771E"
  by (simp_all add: sample_server_def init_server_def client_init_def sample_env_def sample_config_server_def
      default_BattleServerConfig_def new_server_def init_client_def client.defs server.defs Let_def)

lemma sample_serving: "distinct online \<Longrightarrow> serving (sample_config_server n) (sample_server n online)"
proof -
  have i: "init_server sample_env (sample_config_server n) new_server =
      (True, snd (init_server sample_env (sample_config_server n) new_server) :: (nat, (u32, u32) umap \<times> nat) server)"
    by (simp add: init_server_def client_init_def sample_env_def)
  show "distinct online \<Longrightarrow> ?thesis"
    using init_server_inv(1) [OF i] by (simp add: sample_server_def serving_def server_inv_def client_ok_def)
qed

subsection \<open>What a creation changes\<close>

lemma createRoom_effect:
  assumes "createRoom mg config m = (r, m')" and "findRoom (cfg_battleId config) m = None"
  shows "m_sessionToRoom m' = m_sessionToRoom m" and "k \<noteq> cfg_battleId config \<Longrightarrow> findRoom k m' = findRoom k m"
    and "r = Some key \<Longrightarrow> key = cfg_battleId config \<and> (\<exists>room. findRoom key m' = Some room \<and> isEmpty room)"
    and "r = None \<Longrightarrow> m' = m"
  using assms seats_init [of mg config]
  by (auto simp: createRoom_def findRoom_def umap_emplace_find isEmpty_seats Let_def split: if_splits prod.splits option.splits)

lemma join_players_effect:
  assumes "manager_ok m" and "join_players mg fs key ps (j, a, m) = (j', a', m')"
  shows "manager_ok m' \<and> (\<forall>k. k \<noteq> key \<longrightarrow> findRoom k m' = findRoom k m)
    \<and> (\<forall>sid. umap_find (m_sessionToRoom m) sid \<noteq> None \<longrightarrow> umap_find (m_sessionToRoom m') sid = umap_find (m_sessionToRoom m) sid)
    \<and> (\<forall>sid k. umap_find (m_sessionToRoom m) sid = None \<and> umap_find (m_sessionToRoom m') sid = Some k \<longrightarrow>
         k = key \<and> sid \<in> session_id ` set ps)"
  using assms
proof (induction ps arbitrary: j a m)
  case (Cons p ps)
  obtain ok m1 where add: "addPlayerToRoom mg key p m = (ok, m1)" by fastforce
  note eff = addPlayerToRoom_effect [OF Cons.prems(1) add]
  have ok1: "manager_ok m1" using manager_ok_addPlayerToRoom [OF Cons.prems(1), of mg key p] add by simp
  obtain j1 a1 where rest: "join_players mg fs key ps (j1, a1, m1) = (j', a', m')"
    using Cons.prems(2) add by (auto simp: Let_def split: if_splits)
  note IH = Cons.IH [OF ok1 rest]
  have keep: "umap_find (m_sessionToRoom m1) sid = umap_find (m_sessionToRoom m) sid"
    if "umap_find (m_sessionToRoom m) sid \<noteq> None" for sid
    using that eff(2) [of sid] eff(3) by (cases "sid = session_id p") auto
  have new: "k = key \<and> sid = session_id p"
    if "umap_find (m_sessionToRoom m) sid = None" "umap_find (m_sessionToRoom m1) sid = Some k" for sid k
    using that eff(2) [of sid] eff(4) by (cases "sid = session_id p") (auto split: if_splits)
  have "k = key \<and> sid \<in> session_id ` set (p # ps)"
    if "umap_find (m_sessionToRoom m) sid = None" "umap_find (m_sessionToRoom m') sid = Some k" for sid k
    using IH new that by (cases "umap_find (m_sessionToRoom m1) sid") force+
  then have "\<forall>sid k. umap_find (m_sessionToRoom m) sid = None \<and> umap_find (m_sessionToRoom m') sid = Some k \<longrightarrow>
      k = key \<and> sid \<in> session_id ` set (p # ps)" by blast
  moreover have "\<forall>sid. umap_find (m_sessionToRoom m) sid \<noteq> None \<longrightarrow>
      umap_find (m_sessionToRoom m') sid = umap_find (m_sessionToRoom m) sid"
    using IH keep by metis
  ultimately show ?case using IH eff(1) by simp
qed auto

text \<open>Joining one player, and a request's players, seen from the room they join.\<close>

lemma addPlayerToRoom_room:
  assumes "findRoom key m = Some r" and "addPlayerToRoom mg key spec m = (ok, m')"
  shows "\<exists>r'. findRoom key m' = Some r' \<and> room_config r' = room_config r
    \<and> (\<forall>sid. umap_find (m_sessionToRoom m) sid \<noteq> None \<longrightarrow> actorIdForSession mg sid r' = actorIdForSession mg sid r)"
proof (cases "m' = m")
  case True
  with assms(1) show ?thesis by blast
next
  case False
  then have new: "umap_find (m_sessionToRoom m) (session_id spec) = None"
    using assms by (auto simp: addPlayerToRoom_def findRoom_def split: if_splits)
  have "umap_find (room_players (snd (addPlayer mg spec r))) sid = umap_find (room_players r) sid"
    if "sid \<noteq> session_id spec" for sid
    using that by (cases rule: addPlayer_cases [of mg spec r]) (auto simp: umap_emplace_find split: option.split)
  then have "\<forall>sid. umap_find (m_sessionToRoom m) sid \<noteq> None \<longrightarrow>
      actorIdForSession mg sid (snd (addPlayer mg spec r)) = actorIdForSession mg sid r"
    using new by (metis actorIdForSession_def)
  moreover have "findRoom key m' = Some (snd (addPlayer mg spec r))"
    using assms False by (auto simp: addPlayerToRoom_def findRoom_def Let_def split: if_splits prod.splits)
  ultimately show ?thesis by (auto simp: room_config_simps)
qed

text \<open>The players of a request its sender speaks for: with session 0, another server, all of
  them. \<open>seated\<close> are those of them that have a room.\<close>

definition seated :: "u32 \<Rightarrow> BattlePlayerSpec list \<Rightarrow> 'w BattleRoomManager \<Rightarrow> u32 set" where
  "seated fs ps m = {sid. (fs = 0 \<or> sid = fs) \<and> sid \<in> session_id ` set ps \<and> umap_find (m_sessionToRoom m) sid \<noteq> None}"

lemma join_players_room:
  assumes "manager_ok m" and "findRoom key m = Some r" and "join_players mg fs key ps (j, a, m) = (j', a', m')"
  shows "\<exists>r'. findRoom key m' = Some r' \<and> room_config r' = room_config r
    \<and> (\<forall>sid. umap_find (m_sessionToRoom m) sid \<noteq> None \<longrightarrow> actorIdForSession mg sid r' = actorIdForSession mg sid r)
    \<and> (j' \<longleftrightarrow> j \<or> seated fs ps m' \<noteq> {})
    \<and> (if seated fs ps m' = {} then a' = a else \<exists>sid \<in> seated fs ps m'. a' = actorIdForSession mg sid r')"
  using assms
proof (induction ps arbitrary: j a m r)
  case Nil
  then show ?case by (simp add: seated_def)
next
  case (Cons p ps)
  let ?sid = "session_id p"
  obtain ok m1 where add: "addPlayerToRoom mg key p m = (ok, m1)" by fastforce
  note eff = addPlayerToRoom_effect [OF Cons.prems(1) add]
  have ok1: "manager_ok m1" using manager_ok_addPlayerToRoom [OF Cons.prems(1), of mg key p] add by simp
  obtain r1 where r1: "findRoom key m1 = Some r1" "room_config r1 = room_config r"
    "\<forall>sid. umap_find (m_sessionToRoom m) sid \<noteq> None \<longrightarrow> actorIdForSession mg sid r1 = actorIdForSession mg sid r"
    using addPlayerToRoom_room [OF Cons.prems(2) add] by blast
  have ok: "ok \<longleftrightarrow> umap_find (m_sessionToRoom m1) ?sid \<noteq> None"
    using eff(3,4) Cons.prems(2) by (cases "umap_find (m_sessionToRoom m) ?sid") auto
  have grows: "umap_find (m_sessionToRoom m1) sid \<noteq> None" if "umap_find (m_sessionToRoom m) sid \<noteq> None" for sid
    using that eff(2) [of sid] eff(3) by (cases "sid = ?sid") auto
  let ?speaks = "ok \<and> (?sid = fs \<or> fs = 0)"
  obtain j1 a1 where rest: "join_players mg fs key ps (j1, a1, m1) = (j', a', m')"
    and j1: "j1 = (j \<or> ?speaks)" and a1: "a1 = (if ?speaks then actorIdForSession mg ?sid r1 else a)"
    using Cons.prems(3) add r1(1) by (auto simp: Let_def split: if_splits)
  obtain r' where r': "findRoom key m' = Some r'" "room_config r' = room_config r1"
    "\<forall>sid. umap_find (m_sessionToRoom m1) sid \<noteq> None \<longrightarrow> actorIdForSession mg sid r' = actorIdForSession mg sid r1"
    "j' \<longleftrightarrow> j1 \<or> seated fs ps m' \<noteq> {}"
    "if seated fs ps m' = {} then a' = a1 else \<exists>sid \<in> seated fs ps m'. a' = actorIdForSession mg sid r'"
    using Cons.IH [OF ok1 r1(1) rest] by blast
  have keep: "umap_find (m_sessionToRoom m') sid = umap_find (m_sessionToRoom m1) sid"
    if "umap_find (m_sessionToRoom m1) sid \<noteq> None" for sid
    using join_players_effect [OF ok1 rest] that by blast
  have seated: "seated fs (p # ps) m' = (if ?speaks then insert ?sid (seated fs ps m') else seated fs ps m')"
  proof (cases ok)
    case True
    then have "umap_find (m_sessionToRoom m') ?sid \<noteq> None" using ok keep by auto
    then show ?thesis using True by (auto simp: seated_def)
  next
    case False
    have "?sid \<in> session_id ` set ps" if "umap_find (m_sessionToRoom m') ?sid \<noteq> None"
      using join_players_effect [OF ok1 rest] that False ok by (metis not_Some_eq)
    then show ?thesis using False by (auto simp: seated_def)
  qed
  have "\<forall>sid. umap_find (m_sessionToRoom m) sid \<noteq> None \<longrightarrow> actorIdForSession mg sid r' = actorIdForSession mg sid r"
    using r'(3) r1(3) grows by metis
  moreover have "if seated fs (p # ps) m' = {} then a' = a
      else \<exists>sid \<in> seated fs (p # ps) m'. a' = actorIdForSession mg sid r'"
    using r'(3,5) ok a1 unfolding seated by (cases "seated fs ps m' = {}") auto
  moreover have "j' \<longleftrightarrow> j \<or> seated fs (p # ps) m' \<noteq> {}" using r'(4) j1 unfolding seated by auto
  ultimately show ?case using r'(1,2) r1(2) by auto
qed

text \<open>C3. Every request to create a battle is answered, for its reason. Code 1: the request is
  unreadable; nothing changes. Code 0 for an id already stored: the answer describes that room;
  nothing changes. Code 3: the id is 0, \<open>max_battles\<close> rooms are stored or the world cannot be
  initialised for the requested configuration; no room changes. Otherwise a room with the
  requested id and configuration is stored, and the answer is code 4 without a room when players
  are named and none the sender speaks for has a room now, and else code 0 with that room: the
  requester's actor is the one a player it speaks for has there, or 0 when no player is named.\<close>
theorem battle_create_answer:
  assumes "serving c s" and "m_roomManager s = Some mgr" and "onBattleCreate env frame s = (answer, s')"
  shows "case BattleCreateReq_parse (rt (cenv env)) (parse_BattlePlayerSpec env) (payload frame) of
      None \<Rightarrow> answer = makeBattleCreateResp env 1 ''invalid BattleCreateReq'' None 0 s' \<and> s' = s
    | Some req \<Rightarrow>
        let bid = BattleCreateReq_battle_id req; config = requested_room req (m_randomSeed s);
            players = BattleCreateReq_players req
        in case findRoom bid mgr of
          Some room \<Rightarrow> battleId room = bid \<and> s' = s
            \<and> answer = makeBattleCreateResp env 0 [] (Some room) (actorIdForSession (world env) (sessionId frame) room) s'
        | None \<Rightarrow> \<exists>mgr'. m_roomManager s' = Some mgr' \<and>
            (if bid = 0 \<or> unat (cfg_maxBattles c) \<le> roomCount mgr \<or> \<not> fst (init_room (world env) config new_BattleRoom)
             then answer = makeBattleCreateResp env 3 ''create battle failed'' None 0 s' \<and> mgr' = mgr
             else \<exists>room. findRoom bid mgr' = Some room \<and> room_config room = config \<and> battleId room = bid \<and>
               (if players \<noteq> [] \<and> seated (sessionId frame) players mgr' = {}
                then answer = makeBattleCreateResp env 4 ''battle is full or spawn failed'' None 0 s'
                else \<exists>actor. answer = makeBattleCreateResp env 0 [] (Some room) actor s' \<and>
                  (if players = [] then actor = 0
                   else \<exists>sid \<in> seated (sessionId frame) players mgr'. actor = actorIdForSession (world env) sid room)))"
proof -
  note ok = serving_manager_ok [OF assms(1,2)]
  have max: "m_maxRooms mgr = cfg_maxBattles c"
    using server_invD [OF servingD [OF assms(1)] assms(2)] by (simp add: manager_inv_def)
  have refused: "createRoom (world env) config mgr = (None, m1) \<longleftrightarrow>
      (cfg_battleId config = 0 \<or> unat (cfg_maxBattles c) \<le> roomCount mgr \<or> \<not> fst (init_room (world env) config new_BattleRoom)) \<and> m1 = mgr"
    if "findRoom (cfg_battleId config) mgr = None" for config m1
    using that by (auto simp: createRoom_def findRoom_def max roomCount_def Let_def split: prod.splits)
  have stored: "\<exists>room. findRoom key m2 = Some room \<and> room_config room = config
      \<and> (j \<longleftrightarrow> seated (sessionId frame) ps m2 \<noteq> {})
      \<and> (if seated (sessionId frame) ps m2 = {} then a = 0
         else \<exists>sid \<in> seated (sessionId frame) ps m2. a = actorIdForSession (world env) sid room)"
    if cr: "createRoom (world env) config mgr = (Some key, m1)" and none: "findRoom (cfg_battleId config) mgr = None"
      and jp: "join_players (world env) (sessionId frame) key ps (False, 0, m1) = (j, a, m2)" for config key m1 ps j a m2
  proof -
    have ok1: "manager_ok m1" using manager_ok_createRoom [OF ok, of "world env" config] cr by simp
    obtain r where r: "findRoom key m1 = Some r" "room_config r = config"
      using cr none seats_init [of "world env" config]
      by (auto simp: createRoom_def findRoom_def umap_emplace_find Let_def split: if_splits prod.splits option.splits)
    from join_players_room [OF ok1 r(1) jp] r(2) show ?thesis by (elim exE conjE) (rule exI, intro conjI, assumption+, simp_all)
  qed
  from assms(2) show ?thesis
  proof (cases rule: onBattleCreate_cases [where env = env and frame = frame])
    case invalid
    with assms(3) show ?thesis by auto
  next
    case (existing req room)
    then have "battleId room = BattleCreateReq_battle_id req"
      using manager_ok_room(2) [OF ok] by (simp add: findRoom_def)
    with existing assms(3) show ?thesis by (auto simp: Let_def)
  next
    case (failed req m1 s1)
    then show ?thesis
      using assms(3) refused [of "requested_room req (m_randomSeed s)" m1]
      by (auto simp: Let_def requested_room_def)
  next
    case (nobody req key m1 a m2 s1)
    have bid: "cfg_battleId (requested_room req (m_randomSeed s)) = BattleCreateReq_battle_id req"
      by (simp add: requested_room_def)
    obtain room where room: "findRoom key m2 = Some room" "room_config room = requested_room req (m_randomSeed s)"
      "seated (sessionId frame) (BattleCreateReq_players req) m2 = {}"
      using stored [OF nobody(4) _ nobody(5)] nobody(2) bid by auto
    have "\<not> (BattleCreateReq_battle_id req = 0 \<or> unat (cfg_maxBattles c) \<le> roomCount mgr
        \<or> \<not> fst (init_room (world env) (requested_room req (m_randomSeed s)) new_BattleRoom))"
      using refused [of "requested_room req (m_randomSeed s)" mgr] nobody(2,4) bid by auto
    then show ?thesis
      using nobody room assms(3) bid by (auto simp: Let_def intro!: exI [of _ m2] exI [of _ room])
  next
    case (created req key m1 j a m2 room s1)
    have bid: "cfg_battleId (requested_room req (m_randomSeed s)) = BattleCreateReq_battle_id req"
      by (simp add: requested_room_def)
    have room: "room_config room = requested_room req (m_randomSeed s)"
      "j \<longleftrightarrow> seated (sessionId frame) (BattleCreateReq_players req) m2 \<noteq> {}"
      "if seated (sessionId frame) (BattleCreateReq_players req) m2 = {} then a = 0
         else \<exists>sid \<in> seated (sessionId frame) (BattleCreateReq_players req) m2. a = actorIdForSession (world env) sid room"
      using stored [OF created(4) _ created(5)] created(2,7) bid by auto
    have "\<not> (BattleCreateReq_battle_id req = 0 \<or> unat (cfg_maxBattles c) \<le> roomCount mgr
        \<or> \<not> fst (init_room (world env) (requested_room req (m_randomSeed s)) new_BattleRoom))"
      using refused [of "requested_room req (m_randomSeed s)" mgr] created(2,4) bid by auto
    moreover have "if BattleCreateReq_players req = [] then a = 0
      else \<exists>sid \<in> seated (sessionId frame) (BattleCreateReq_players req) m2. a = actorIdForSession (world env) sid room"
    proof (cases "BattleCreateReq_players req = []")
      case True
      then show ?thesis using room(3) by (simp add: seated_def)
    next
      case False
      then show ?thesis using room(2,3) created(6) by (simp only: if_False simp_thms)
    qed
    moreover have "\<not> (BattleCreateReq_players req \<noteq> [] \<and> seated (sessionId frame) (BattleCreateReq_players req) m2 = {})"
      using room(2) created(6) by blast
    ultimately show ?thesis
      using created(1,2,3,7,8,9) room(1) assms(3) bid
      by (auto simp: Let_def frame_simps intro!: exI [of _ m2] exI [of _ room] exI [of _ a])
  qed
qed

text \<open>C4. Creating a battle disturbs no other: whatever the request and its outcome, every room
  stored before is stored unchanged after, every session that had a room keeps it, and a
  session that gets a room is one the request names and gets the requested one.\<close>
theorem battle_create_isolated:
  assumes "serving c s" and "m_roomManager s = Some mgr" and "onBattleCreate env frame s = (answer, s')"
  shows "\<exists>mgr'. m_roomManager s' = Some mgr' \<and> (\<forall>k r. findRoom k mgr = Some r \<longrightarrow> findRoom k mgr' = Some r)
    \<and> (\<forall>sid k. umap_find (m_sessionToRoom mgr) sid = Some k \<longrightarrow> umap_find (m_sessionToRoom mgr') sid = Some k)
    \<and> (\<forall>sid k. umap_find (m_sessionToRoom mgr) sid = None \<and> umap_find (m_sessionToRoom mgr') sid = Some k \<longrightarrow>
         (\<exists>req. BattleCreateReq_parse (rt (cenv env)) (parse_BattlePlayerSpec env) (payload frame) = Some req
            \<and> k = BattleCreateReq_battle_id req \<and> sid \<in> session_id ` set (BattleCreateReq_players req)))"
proof -
  note ok = serving_manager_ok [OF assms(1,2)]
  have join: "(\<forall>k r. findRoom k mgr = Some r \<longrightarrow> findRoom k m2 = Some r)
    \<and> (\<forall>sid k. umap_find (m_sessionToRoom mgr) sid = Some k \<longrightarrow> umap_find (m_sessionToRoom m2) sid = Some k)
    \<and> (\<forall>sid k. umap_find (m_sessionToRoom mgr) sid = None \<and> umap_find (m_sessionToRoom m2) sid = Some k \<longrightarrow>
         k = key \<and> sid \<in> session_id ` set ps)"
    if "createRoom mg config mgr = (Some key, m1)" "findRoom (cfg_battleId config) mgr = None"
      "join_players mg fs key ps (False, 0, m1) = (j, a, m2)" for mg config key m1 fs ps j a m2
  proof -
    note cr = createRoom_effect [OF that(1,2)]
    have "manager_ok m1" using manager_ok_createRoom [OF ok, of mg config] that(1) by simp
    from join_players_effect [OF this that(3)] show ?thesis using cr that(2) by (metis option.distinct(1) option.inject)
  qed
  from assms(2) show ?thesis
  proof (cases rule: onBattleCreate_cases [where env = env and frame = frame])
    case invalid
    then show ?thesis using assms(2,3) by auto
  next
    case (existing req room)
    then show ?thesis using assms(2,3) by auto
  next
    case (failed req m1 s1)
    have "m1 = mgr" using createRoom_effect(4) [OF failed(3)] failed(2) by (simp add: requested_room_def)
    then show ?thesis using failed(4,5) assms(2,3) by auto
  next
    case (nobody req key m1 a m2 s1)
    then show ?thesis
      using join [OF nobody(4) _ nobody(5)] assms(3) by (auto simp: requested_room_def)
  next
    case (created req key m1 j a m2 room s1)
    then show ?thesis
      using join [OF created(4) _ created(5)] assms(3) by (auto simp: requested_room_def frame_simps)
  qed
qed

text \<open>A server for \<open>n\<close> battles whose room 7 has the player 42, for the concrete instances.\<close>

definition busy_manager :: "u32 \<Rightarrow> ((u32, u32) umap \<times> nat) BattleRoomManager" where
  "busy_manager n = sample_manager\<lparr>m_maxRooms := n, m_maxSessions := 200\<rparr>"

definition busy_server :: "u32 \<Rightarrow> (nat, (u32, u32) umap \<times> nat) server" where
  "busy_server n = (sample_server n [42])\<lparr>m_roomManager := Some (busy_manager n)\<rparr>"

lemma busy_server_eq:
  "m_roomManager (busy_server n) = Some (busy_manager n)" "m_transport (busy_server n) = Some 1"
  "m_state (busy_server n) = Registered" "m_running (busy_server n)" "server_running (busy_server n)"
  "m_onlineSessions (busy_server n) = [42]" "server_config (busy_server n) = sample_config_server n"
  "m_rpc (busy_server n) = init_rpc" "m_randomSeed (busy_server n) = 0xBA771E"
  by (simp_all add: busy_server_def sample_server_eq)

lemma busy_serving: "0 < n \<Longrightarrow> serving (sample_config_server n) (busy_server n)"
proof -
  assume "0 < n"
  then have "manager_inv (sample_config_server n) (busy_manager n)"
    using sample_manager_ok by (simp add: manager_inv_def manager_ok_def busy_manager_def sample_manager_eq
        sample_config_server_def default_BattleServerConfig_def word_less_nat_alt Suc_le_eq)
  then show ?thesis unfolding busy_server_def by (rule inv_set_manager(2)) (rule sample_serving, simp)
qed

theorem battle_create_isolated_witness:
  "\<exists>mgr'. m_roomManager (snd (onBattleCreate sample_env
      \<lparr>cmd = 101, msgId = 60000, serial = - 1, sessionId = 0, payload = []\<rparr> (busy_server 2))) = Some mgr'
    \<and> findRoom 7 mgr' = findRoom 7 sample_manager"
proof -
  let ?r = "onBattleCreate sample_env \<lparr>cmd = 101, msgId = 60000, serial = - 1, sessionId = 0, payload = []\<rparr> (busy_server 2)"
  have "?r = (fst ?r, snd ?r)" by simp
  from battle_create_isolated [OF busy_serving busy_server_eq(1) this] show ?thesis
    by (auto simp: busy_manager_def sample_manager_eq findRoom_def)
qed

subsection \<open>Battles nobody can play\<close>

lemma join_players_refused:
  "\<forall>p \<in> set ps. addPlayerToRoom mg key p m = (False, m) \<Longrightarrow> join_players mg fs key ps (j, a, m) = (j, a, m)"
  by (induction ps) (auto simp: Let_def)

text \<open>C33. The last battle a server has capacity for always fails. When a request is granted
  the room that reaches \<open>max_battles\<close> and its players have no room yet, it is answered with
  code 4, and the room just created stays stored, empty, and keeps the server full. With
  \<open>max_battles = 1\<close> the very first battle fails.\<close>
theorem last_battle_fails:
  assumes "m_roomManager s = Some mgr" and "Suc (roomCount mgr) = unat (m_maxRooms mgr)"
    and "BattleCreateReq_parse (rt (cenv env)) (parse_BattlePlayerSpec env) (payload frame) = Some req"
    and "findRoom (BattleCreateReq_battle_id req) mgr = None" and "BattleCreateReq_players req \<noteq> []"
    and "\<forall>p \<in> set (BattleCreateReq_players req). umap_find (m_sessionToRoom mgr) (session_id p) = None"
    and "createRoom (world env) (requested_room req (m_randomSeed s)) mgr = (Some key, m1)"
  shows "\<exists>s'. onBattleCreate env frame s =
      (makeBattleCreateResp env 4 ''battle is full or spawn failed'' None 0 s', s')
    \<and> m_roomManager s' = Some m1 \<and> roomCount m1 = unat (m_maxRooms m1)
    \<and> (\<exists>room. findRoom (BattleCreateReq_battle_id req) m1 = Some room \<and> isEmpty room)"
proof -
  have id: "cfg_battleId (requested_room req (m_randomSeed s)) = BattleCreateReq_battle_id req"
    by (simp add: requested_room_def)
  note cr = createRoom_effect [OF assms(7), unfolded id, OF assms(4)]
  have key: "key = BattleCreateReq_battle_id req" using cr(3) by blast
  have full: "roomCount m1 = unat (m_maxRooms m1)"
    using assms(2,4,7) by (auto simp: createRoom_def findRoom_def roomCount_def length_umap_emplace Let_def id
        split: if_splits prod.splits)
  have "addPlayerToRoom (world env) key p m1 = (False, m1)" if "p \<in> set (BattleCreateReq_players req)" for p
    using cr(1,3) full assms(6) that
    by (auto simp: addPlayerToRoom_def findRoom_def canAcceptSession_def roomCount_def split: option.split)
  then have join: "join_players (world env) (sessionId frame) key (BattleCreateReq_players req) (False, 0, m1) = (False, 0, m1)"
    by (intro join_players_refused) blast
  from assms(1) show ?thesis
  proof (cases rule: onBattleCreate_cases [where env = env and frame = frame])
    case (nobody req' key' m1' a m2 s1)
    have "req' = req" "key' = key" "m1' = m1" using nobody(1,4) assms(3,7) by simp_all
    then have "m2 = m1" using nobody(5) join by simp
    with nobody(7,8) full cr(3) key show ?thesis by simp
  next
    case (created req' key' m1' j a m2 room s1)
    have "req' = req" "key' = key" "m1' = m1" using created(1,4) assms(3,7) by simp_all
    with created(5,6) join assms(5) show ?thesis by simp
  qed (use assms(3,4,7) in simp_all)
qed

definition sample_req :: "u32 \<Rightarrow> u32 \<Rightarrow> BattleCreateReq" where
  "sample_req bid sid = BattleCreateReq_default\<lparr>BattleCreateReq_battle_id := bid,
     BattleCreateReq_players := [sample_spec sid]\<rparr>"

definition sample_frame :: "u32 \<Rightarrow> u32 \<Rightarrow> BackendFrame" where
  "sample_frame bid sid = \<lparr>cmd = kBackendCmdBusiness, msgId = BattleCreateReq_Id, serial = - 1, sessionId = 0,
     payload = BattleCreateReq_serialize wire_rt (\<lambda>p. [ucast (session_id p)]) (sample_req bid sid)\<rparr>"

lemma sample_env_simps [simp]: "cenv sample_env = wire_env" "world sample_env = sample_mugen"
  "parse_BattlePlayerSpec sample_env [b] = Some (sample_spec (ucast b))"
  by (simp_all add: sample_env_def)

lemma sample_frame_parse:
  assumes "ucast (ucast sid :: u8) = sid"
  shows "BattleCreateReq_parse wire_rt (parse_BattlePlayerSpec sample_env) (payload (sample_frame bid sid)) = Some (sample_req bid sid)"
proof -
  have "BattleCreateReq_ok wire_rt (parse_BattlePlayerSpec sample_env) (\<lambda>p. [ucast (session_id p)]) (sample_req bid sid)"
    using assms by (simp add: BattleCreateReq_ok_def sample_req_def BattleCreateReq_default_def sample_spec_def)
  from wire.BattleCreateReq_roundtrip [OF this] show ?thesis by (simp add: sample_frame_def)
qed

theorem last_battle_fails_witness:
  "\<exists>s'. onBattleCreate sample_env (sample_frame 9 43) (sample_server 1 []) =
      (makeBattleCreateResp sample_env 4 (''battle is full or spawn failed'') None 0 s', s')"
proof -
  have cr: "createRoom sample_mugen (requested_room (sample_req 9 43) 0xBA771E) (new_BattleRoomManager 1 200) =
    (Some 9, snd (createRoom sample_mugen (requested_room (sample_req 9 43) 0xBA771E) (new_BattleRoomManager 1 200)))"
    by (simp add: createRoom_def requested_room_def new_BattleRoomManager_def init_room_def sample_req_def
        sample_mugen_def new_BattleRoom_def BattleCreateReq_default_def)
  show ?thesis
    using last_battle_fails [of "sample_server 1 []" "new_BattleRoomManager 1 200" sample_env
        "sample_frame 9 43" "sample_req 9 43" 9] sample_frame_parse [of 43 9] cr
    by (auto simp: sample_server_eq roomCount_def new_BattleRoomManager_def findRoom_def sample_req_def)
qed

theorem battle_create_answer_witness:
  "fst (onBattleCreate sample_env (sample_frame 9 43) (sample_server 0 []))
    = makeBattleCreateResp sample_env 3 (''create battle failed'') None 0 (snd (onBattleCreate sample_env (sample_frame 9 43) (sample_server 0 [])))"
proof -
  have "findRoom 9 (new_BattleRoomManager 0 200) = (None :: ((u32, u32) umap \<times> nat) BattleRoom option)"
    "roomCount (new_BattleRoomManager 0 200 :: ((u32, u32) umap \<times> nat) BattleRoomManager) = 0"
    by (simp_all add: findRoom_def new_BattleRoomManager_def roomCount_def)
  moreover have "BattleCreateReq_parse wire_rt (parse_BattlePlayerSpec (sample_env :: (nat, (u32, u32) umap \<times> nat) battle_env)) (payload (sample_frame 9 43)) = Some (sample_req 9 43)"
    by (rule sample_frame_parse) simp
  ultimately show ?thesis
    using battle_create_answer [OF sample_serving sample_server_eq(1) prod.collapse [symmetric], of "[]" sample_env "sample_frame 9 43" 0]
    by (simp add: Let_def sample_config_server_def sample_req_def BattleCreateReq_default_def)
qed

text \<open>C34. A battle can be reported as created with nobody in it. When a request of another
  server (session 0) for a battle that is not stored and whose room can be created names
  players who all already have a room elsewhere, joining reports success without taking a seat:
  the answer is code 0 with the invalid entity id as the requester's actor, no player is listed,
  and the new room is stored empty.\<close>
theorem ghost_battle:
  assumes "serving c s" and "m_roomManager s = Some mgr"
    and "BattleCreateReq_parse (rt (cenv env)) (parse_BattlePlayerSpec env) (payload frame) = Some req"
    and "findRoom (BattleCreateReq_battle_id req) mgr = None" and "BattleCreateReq_players req \<noteq> []"
    and "\<forall>p \<in> set (BattleCreateReq_players req). umap_find (m_sessionToRoom mgr) (session_id p) \<noteq> None"
    and "sessionId frame = 0"
    and "createRoom (world env) (requested_room req (m_randomSeed s)) mgr = (Some key, m1)"
  shows "\<exists>s' room. onBattleCreate env frame s =
      (makeBattleCreateResp env 0 [] (Some room) (INVALID_ENTITY_ID (world env)) s', s')
    \<and> m_roomManager s' = Some m1 \<and> findRoom (BattleCreateReq_battle_id req) m1 = Some room \<and> isEmpty room"
proof -
  have id: "cfg_battleId (requested_room req (m_randomSeed s)) = BattleCreateReq_battle_id req"
    by (simp add: requested_room_def)
  note cr = createRoom_effect [OF assms(8), unfolded id, OF assms(4)]
  obtain room where room: "key = BattleCreateReq_battle_id req" "findRoom key m1 = Some room" "isEmpty room"
    using cr(3) by blast
  have noseat: "umap_find (room_players room) sid = None" for sid using room(3) by (simp add: isEmpty_def)
  have add: "addPlayerToRoom (world env) key p m1 = (True, m1)" if "p \<in> set (BattleCreateReq_players req)" for p
    using assms(6) that room(2) cr(1) by (auto simp: addPlayerToRoom_def findRoom_def)
  have join: "join_players (world env) 0 key ps (j, a, m1) =
      (if ps = [] then (j, a, m1) else (True, INVALID_ENTITY_ID (world env), m1))"
    if "set ps \<subseteq> set (BattleCreateReq_players req)" for ps j a
    using that by (induction ps arbitrary: j a) (auto simp: add room(2) actorIdForSession_def noseat)
  from assms(2) show ?thesis
  proof (cases rule: onBattleCreate_cases [where env = env and frame = frame])
    case (nobody req' key' m1' a m2 s1)
    have "req' = req" "key' = key" "m1' = m1" using nobody(1,4) assms(3,8) by simp_all
    with nobody(5) join [of "BattleCreateReq_players req"] assms(5,7) show ?thesis by simp
  next
    case (created req' key' m1' j a m2 room' s1)
    have "req' = req" "key' = key" "m1' = m1" using created(1,4) assms(3,8) by simp_all
    with created(5) join [of "BattleCreateReq_players req"] assms(5,7)
    have "m2 = m1" "a = INVALID_ENTITY_ID (world env)" by simp_all
    with created(7,8,9) room \<open>key' = key\<close> show ?thesis by (auto simp: frame_simps)
  qed (use assms(3,4,8) in simp_all)
qed

theorem ghost_battle_witness:
  "\<exists>s' room. onBattleCreate sample_env (sample_frame 8 42) (busy_server 3) =
      (makeBattleCreateResp sample_env 0 [] (Some room) 0 s', s') \<and> isEmpty room"
proof -
  let ?cr = "createRoom sample_mugen (requested_room (sample_req 8 42) 0xBA771E) (busy_manager 3)"
  have cr: "?cr = (Some 8, snd ?cr)"
    by (simp add: createRoom_def requested_room_def busy_manager_def sample_manager_eq init_room_def sample_req_def
        sample_mugen_def new_BattleRoom_def BattleCreateReq_default_def)
  have "INVALID_ENTITY_ID sample_mugen = 0" by (simp add: sample_mugen_def)
  then show ?thesis
    using ghost_battle [OF busy_serving busy_server_eq(1), of 3 sample_env "sample_frame 8 42" "sample_req 8 42" 8 "snd ?cr"]
      sample_frame_parse [of 42 8] cr
    by (auto simp: busy_server_eq busy_manager_def sample_manager_eq findRoom_def sample_req_def sample_spec_def
        sample_frame_def BattleCreateReq_default_def)
qed

subsection \<open>The empty room stays on the server\<close>

text \<open>The events of a running server whose connection lasts.\<close>

datatype server_event =
    SE_Packet bytes
  | SE_RpcTimer int
  | SE_Tick
  | SE_Signal

fun on_event :: "('u, 'w) battle_env \<Rightarrow> server_event \<Rightarrow> ('u, 'w) server \<Rightarrow> ('u, 'w) server" where
  "on_event env (SE_Packet body) s = handleNetworkEvent (cenv env) (Some (battle_delegate env)) (Ev_Packet body) s"
| "on_event env (SE_RpcTimer now) s = snd (rpcTimer now s)"
| "on_event env SE_Tick s = snd (tick_timer env s)"
| "on_event env SE_Signal s = shutdown env s"

definition holds_empty :: "BattleServerConfig \<Rightarrow> u32 \<Rightarrow> 'w BattleRoom \<Rightarrow> ('u, 'w) server \<Rightarrow> bool" where
  "holds_empty c k room s \<longleftrightarrow> serving c s \<and> isEmpty room \<and>
     (\<exists>mgr. m_roomManager s = Some mgr \<and> findRoom k mgr = Some room)"

lemma holds_empty_step:
  assumes "holds_empty c k room s" and "m_roomManager s = Some mgr" and "\<forall>spec. x \<noteq> OpJoin k spec"
  shows "findRoom k (manager_step mg x mgr) = Some room"
  using assms empty_room_step [OF serving_manager_ok, of c s mgr k room x mg] by (auto simp: holds_empty_def)

lemma holds_empty_emit [simp]: "holds_empty c k room (emit acts s) = holds_empty c k room s"
  by (simp add: holds_empty_def frame_simps)

lemma holds_empty_conn: "holds_empty c k room s \<Longrightarrow> holds_empty c k room (s\<lparr>m_transport := t, m_state := st,
    m_running := r, m_lastRpcUpdate := n, io := io s @ acts\<rparr>)"
  and holds_empty_rpc: "holds_empty c k room s \<Longrightarrow> rpc_ok q \<Longrightarrow> holds_empty c k room (s\<lparr>m_rpc := q\<rparr>)"
  and holds_empty_sessions: "holds_empty c k room s \<Longrightarrow> distinct xs \<Longrightarrow> holds_empty c k room (s\<lparr>m_onlineSessions := xs\<rparr>)"
  and holds_empty_client: "holds_empty c k room s \<Longrightarrow> client_ok s"
  by (auto simp: holds_empty_def intro: own_updates)

lemma holds_empty_offline:
  assumes "holds_empty c k room s" shows "holds_empty c k room (server_onSessionOffline env sid s)"
  using onSessionOffline_eq [of env sid s] onSessionOffline_inv(2) [of c s env sid] assms
    holds_empty_step [OF assms, of _ "OpLeave sid"]
  by (auto simp: holds_empty_def frame_simps split: option.splits)

interpretation emptied_stop: packet_delegate "shutdown_callbacks env" "holds_empty c k room" for env c k room
  by unfold_locales (auto simp: shutdown_callbacks_def default_delegate_def
    intro: holds_empty_conn holds_empty_rpc holds_empty_sessions holds_empty_client holds_empty_offline)

lemma holds_empty_shutdown: "holds_empty c k room s \<Longrightarrow> holds_empty c k room (shutdown env s)"
  unfolding shutdown_def by (rule emptied_stop.inv_stop) (simp add: holds_empty_def)

lemma holds_empty_input:
  assumes "holds_empty c k room s" shows "holds_empty c k room (onBattleInput env sid frame s)"
proof -
  obtain mgr where mgr: "m_roomManager s = Some mgr" using assms by (auto simp: holds_empty_def)
  have "findRoom k (applyInputAt (world env) key sid cf keys mgr) = Some room" for key cf keys
    using holds_empty_step [OF assms mgr, of "OpInput key sid cf keys" "world env"] by simp
  then show ?thesis
    using onBattleInput_inv(2) [of c s env sid frame] assms
    by (auto simp: holds_empty_def onBattleInput_def mgr split: option.splits if_splits)
qed

lemma holds_empty_create:
  assumes "holds_empty c k room s" shows "holds_empty c k room (snd (onBattleCreate env frame s))"
proof -
  obtain mgr where mgr: "m_roomManager s = Some mgr" and find: "findRoom k mgr = Some room"
    using assms by (auto simp: holds_empty_def)
  have serving: "serving c s" using assms by (simp add: holds_empty_def)
  have join: "findRoom k m2 = Some room" if "createRoom mg config mgr = (Some key, m1)" "key = cfg_battleId config"
    "findRoom key mgr = None" "join_players mg fs key ps (False, 0, m1) = (j, a, m2)" for mg config key m1 fs ps j a m2
  proof -
    have ne: "k \<noteq> key" using that(3) find by auto
    have "manager_ok m1"
      using manager_ok_createRoom [OF serving_manager_ok [OF serving mgr], of mg config] that(1) by simp
    then have "findRoom k m2 = findRoom k m1" using join_players_effect [OF _ that(4)] ne by blast
    also have "findRoom k m1 = Some room" using createRoom_effect(2) [OF that(1)] that(2,3) ne find by simp
    finally show ?thesis .
  qed
  have "\<exists>mgr'. m_roomManager (snd (onBattleCreate env frame s)) = Some mgr' \<and> findRoom k mgr' = Some room"
    using mgr
  proof (cases rule: onBattleCreate_cases [where env = env and frame = frame])
    case (failed req m1 s1)
    have "m1 = mgr" using createRoom_effect(4) [OF failed(3)] failed(2) by (simp add: requested_room_def)
    then show ?thesis using failed find by simp
  next
    case (nobody req key m1 a m2 s1)
    then show ?thesis using join [OF nobody(4) _ _ nobody(5)] by (simp add: requested_room_def)
  next
    case (created req key m1 j a m2 room' s1)
    then show ?thesis using join [OF created(4) _ _ created(5)] by (simp add: requested_room_def frame_simps)
  qed (use mgr find in simp_all)
  then show ?thesis using onBattleCreate_inv(2) [OF serving, of env frame] assms by (simp add: holds_empty_def)
qed

interpretation emptied: packet_delegate "battle_delegate env" "holds_empty c k room" for env c k room
  by unfold_locales (auto simp: battle_delegate_def default_delegate_def server_onServerRequest_def
    server_onClientPush_def server_onServerOffline_def intro: holds_empty_conn holds_empty_rpc holds_empty_sessions
    holds_empty_client holds_empty_offline holds_empty_create holds_empty_input holds_empty_shutdown)

lemma holds_empty_tick:
  assumes "holds_empty c k room s" shows "holds_empty c k room (snd (tick_timer env s))"
proof (cases "server_running s")
  case True
  obtain mgr where mgr: "m_roomManager s = Some mgr" using assms by (auto simp: holds_empty_def)
  let ?dt = "f32_div (f32_of_int 1) (f32_of_int (sint (cfg_tickRate (server_config s))))"
  have "findRoom k (tickAll (world env) ?dt mgr) = Some room"
    using holds_empty_step [OF assms mgr, of "OpTick ?dt" "world env"] by simp
  then show ?thesis
    using tick_state [OF mgr, of env ?dt] tick_timer_inv(2) [of c s env] assms True
    by (auto simp: holds_empty_def tick_timer_def frame_simps)
qed (use assms in \<open>simp add: tick_timer_def\<close>)

lemma holds_empty_event: "holds_empty c k room s \<Longrightarrow> holds_empty c k room (on_event env ev s)"
  by (cases ev) (simp_all add: holds_empty_tick holds_empty_shutdown emptied.inv_onRecvFrame emptied.inv_rpcTimer)

text \<open>C35. A room left empty stays on the server for as long as its connection lasts: no frame
  of a client, of the gateway or of another server (requests to create battles, this one
  included, players coming and going, input), no tick, timer or shutdown signal removes or
  fills it, and it counts against \<open>max_battles\<close> throughout.\<close>
theorem empty_room_leaks:
  assumes "serving c s" and "m_roomManager s = Some mgr" and "findRoom k mgr = Some room" and "isEmpty room"
  shows "\<exists>mgr'. m_roomManager (fold (on_event env) evs s) = Some mgr' \<and> findRoom k mgr' = Some room"
proof -
  have "holds_empty c k room (fold (on_event env) evs s)"
    using assms by (induction evs rule: rev_induct) (simp add: holds_empty_def, simp add: holds_empty_event)
  then show ?thesis by (auto simp: holds_empty_def)
qed

theorem empty_room_leaks_witness:
  "\<exists>mgr'. m_roomManager (fold (on_event sample_env) [SE_Tick, SE_Packet [1, 2, 3], SE_Signal]
      ((busy_server 3)\<lparr>m_roomManager := Some (snd (createRoom sample_mugen (sample_config 8) (busy_manager 3)))\<rparr>))
      = Some mgr' \<and> findRoom 8 mgr' \<noteq> None"
proof -
  let ?m = "snd (createRoom sample_mugen (sample_config 8) (busy_manager 3))"
  let ?s = "(busy_server 3)\<lparr>m_roomManager := Some ?m\<rparr>"
  have "manager_inv (sample_config_server 3) ?m"
    using server_invD [OF servingD [OF busy_serving] busy_server_eq(1)] by (intro manager_inv_ops) simp
  then have serving: "serving (sample_config_server 3) ?s"
    by (rule inv_set_manager(2)) (simp add: busy_serving)
  have "findRoom 8 ?m = Some \<lparr>room_config = sample_config 8, room_world = Some ([], 0), room_players = [],
      room_serverFrame = 0, room_elapsed = f32_zero\<rparr>"
    by (simp add: createRoom_def busy_manager_def sample_manager_eq init_room_def sample_mugen_def new_BattleRoom_def
        sample_config_def default_BattleRoomConfig_def findRoom_def umap_emplace_def)
  moreover have "m_roomManager ?s = Some ?m" by simp
  ultimately show ?thesis
    using empty_room_leaks [OF serving, of ?m 8 _ sample_env "[SE_Tick, SE_Packet [1, 2, 3], SE_Signal]"]
    by (force simp: isEmpty_def simp del: fold_simps)
qed

end
