(* ===== verification/ControlRequests.thy ===== *)
theory ControlRequests
  imports ClientProps
begin

section \<open>The control requests of a backend\<close>

text \<open>
  What \<open>bindService\<close>, \<open>unbindService\<close>, \<open>kickSession\<close> and \<open>reportLoad\<close> of
  \<open>framework/BackendClient.cpp\<close> write, as the gateway reads it.
\<close>

lemma sendMessage_wrote:
  assumes "m_transport s = Some t" and "n = length p" and "n + kBackendFrameHeaderSize \<le> 2 ^ 20"
  shows "wrote_frame t \<lparr>cmd = c, msgId = mid, serial = ser, sessionId = sid, payload = p\<rparr> s
    (snd (sendMessage env c sid ser mid (serialize_to_string n p) s))"
proof -
  have "serialize_to_string n p = Some p" using assms(2,3) by (simp add: serialize_to_string_def)
  then show ?thesis
    using sendFrame_wrote [OF assms(1), of p c mid ser sid env] assms(2,3) by (simp add: sendMessage_def)
qed

definition bind_req :: "u32 \<Rightarrow> u32 \<Rightarrow> i32 \<Rightarrow> BindServiceReq" where
  "bind_req sid svc target = \<lparr>BindServiceReq_session_id = sid, BindServiceReq_service_id = svc,
     BindServiceReq_target_instance_id = target, BindServiceReq_unknown = []\<rparr>"

definition unbind_req :: "u32 \<Rightarrow> u32 \<Rightarrow> UnbindServiceReq" where
  "unbind_req sid svc = \<lparr>UnbindServiceReq_session_id = sid, UnbindServiceReq_service_id = svc, UnbindServiceReq_unknown = []\<rparr>"

definition kick_req :: "u32 \<Rightarrow> KickSessionReq" where
  "kick_req sid = \<lparr>KickSessionReq_session_id = sid, KickSessionReq_unknown = []\<rparr>"

definition load_report :: "u32 \<Rightarrow> bool \<Rightarrow> bytes \<Rightarrow> ServiceLoadReportPush" where
  "load_report score accepting msg = \<lparr>ServiceLoadReportPush_load_score = min score 100,
     ServiceLoadReportPush_accepting_bindings = accepting, ServiceLoadReportPush_message = msg, ServiceLoadReportPush_unknown = []\<rparr>"

text \<open>Written on \<open>t\<close> as one control frame that \<open>parse\<close> reads as \<open>m\<close>.\<close>

definition sent_control :: "nat \<Rightarrow> u16 \<Rightarrow> (bytes \<Rightarrow> 'm option) \<Rightarrow> 'm \<Rightarrow> ('u, 'a) client_scheme \<Rightarrow> ('u, 'a) client_scheme \<Rightarrow> bool" where
  "sent_control t mid parse m s s' \<longleftrightarrow> (\<exists>p. wrote_frame t
     \<lparr>cmd = kBackendCmdControl, msgId = mid, serial = 0, sessionId = 0, payload = p\<rparr> s s' \<and> parse p = Some m)"

lemma sent_controlI:
  assumes "m_transport s = Some t" and "n = length p" and "n + kBackendFrameHeaderSize \<le> 2 ^ 20" and "parse p = Some m"
  shows "sent_control t mid parse m s (snd (sendMessage env kBackendCmdControl 0 0 mid (serialize_to_string n p) s))"
  unfolding sent_control_def using sendMessage_wrote [OF assms(1-3)] assms(4) by blast

lemma bindService_sent:
  assumes "pb_laws (rt env)" and "m_transport s = Some t"
  shows "sent_control t BindServiceReq_Id (BindServiceReq_parse (rt env)) (bind_req sid svc target) s (snd (bindService env sid svc target s))"
proof -
  let ?m = "bind_req sid svc target"
  have "BindServiceReq_ByteSizeLong (rt env) ?m \<le> 23"
    using pb_laws.uint32_bound [OF assms(1), of sid] pb_laws.uint32_bound [OF assms(1), of svc] pb_laws.int32_bound [OF assms(1), of target]
    by (simp add: bind_req_def BindServiceReq_ByteSizeLong_def)
  moreover have "BindServiceReq_parse (rt env) (BindServiceReq_serialize (rt env) ?m) = Some ?m"
    by (rule pb_laws.BindServiceReq_roundtrip [OF assms(1)]) (use assms in \<open>simp add: BindServiceReq_ok_def bind_req_def\<close>)
  moreover have "BindServiceReq_default\<lparr>BindServiceReq_session_id := sid, BindServiceReq_service_id := svc, BindServiceReq_target_instance_id := target\<rparr> = ?m"
    by (simp add: BindServiceReq_default_def bind_req_def)
  ultimately show ?thesis
    using sent_controlI [OF assms(2) pb_laws.BindServiceReq_size [OF assms(1), of ?m], where parse = "BindServiceReq_parse (rt env)" and m = ?m and env = env]
    by (simp add: bindService_def Let_def SerializeToString_BindServiceReq_def kBackendFrameHeaderSize_def)
qed

lemma unbindService_sent:
  assumes "pb_laws (rt env)" and "m_transport s = Some t"
  shows "sent_control t UnbindServiceReq_Id (UnbindServiceReq_parse (rt env)) (unbind_req sid svc) s (snd (unbindService env sid svc s))"
proof -
  let ?m = "unbind_req sid svc"
  have "UnbindServiceReq_ByteSizeLong (rt env) ?m \<le> 12"
    using pb_laws.uint32_bound [OF assms(1), of sid] pb_laws.uint32_bound [OF assms(1), of svc]
    by (simp add: unbind_req_def UnbindServiceReq_ByteSizeLong_def)
  moreover have "UnbindServiceReq_parse (rt env) (UnbindServiceReq_serialize (rt env) ?m) = Some ?m"
    by (rule pb_laws.UnbindServiceReq_roundtrip [OF assms(1)]) (use assms in \<open>simp add: UnbindServiceReq_ok_def unbind_req_def\<close>)
  moreover have "UnbindServiceReq_default\<lparr>UnbindServiceReq_session_id := sid, UnbindServiceReq_service_id := svc\<rparr> = ?m"
    by (simp add: UnbindServiceReq_default_def unbind_req_def)
  ultimately show ?thesis
    using sent_controlI [OF assms(2) pb_laws.UnbindServiceReq_size [OF assms(1), of ?m], where parse = "UnbindServiceReq_parse (rt env)" and m = ?m and env = env]
    by (simp add: unbindService_def Let_def SerializeToString_UnbindServiceReq_def kBackendFrameHeaderSize_def)
qed

lemma kickSession_sent:
  assumes "pb_laws (rt env)" and "m_transport s = Some t"
  shows "sent_control t KickSessionReq_Id (KickSessionReq_parse (rt env)) (kick_req sid) s (snd (kickSession env sid s))"
proof -
  let ?m = "kick_req sid"
  have "KickSessionReq_ByteSizeLong (rt env) ?m \<le> 6"
    using pb_laws.uint32_bound [OF assms(1), of sid]
    by (simp add: kick_req_def KickSessionReq_ByteSizeLong_def)
  moreover have "KickSessionReq_parse (rt env) (KickSessionReq_serialize (rt env) ?m) = Some ?m"
    by (rule pb_laws.KickSessionReq_roundtrip [OF assms(1)]) (use assms in \<open>simp add: KickSessionReq_ok_def kick_req_def\<close>)
  moreover have "KickSessionReq_default\<lparr>KickSessionReq_session_id := sid\<rparr> = ?m"
    by (simp add: KickSessionReq_default_def kick_req_def)
  ultimately show ?thesis
    using sent_controlI [OF assms(2) pb_laws.KickSessionReq_size [OF assms(1), of ?m], where parse = "KickSessionReq_parse (rt env)" and m = ?m and env = env]
    by (simp add: kickSession_def Let_def SerializeToString_KickSessionReq_def kBackendFrameHeaderSize_def)
qed

lemma reportLoad_sent:
  assumes "pb_laws (rt env)" and "m_transport s = Some t"
    and "length msg \<le> 1000" and "VerifyUTF8 (rt env) msg"
  shows "sent_control t ServiceLoadReportPush_Id (ServiceLoadReportPush_parse (rt env)) (load_report score accepting msg) s (snd (reportLoad env score accepting msg s))"
proof -
  let ?m = "load_report score accepting msg"
  have "ServiceLoadReportPush_ByteSizeLong (rt env) ?m \<le> 1100"
    using pb_laws.uint32_bound [OF assms(1), of "min score 100"] pb_laws.block_bound [OF assms(1), of "length msg"] assms(3)
    by (simp add: load_report_def ServiceLoadReportPush_ByteSizeLong_def)
  moreover have "ServiceLoadReportPush_parse (rt env) (ServiceLoadReportPush_serialize (rt env) ?m) = Some ?m"
    by (rule pb_laws.ServiceLoadReportPush_roundtrip [OF assms(1)]) (use assms in \<open>simp add: ServiceLoadReportPush_ok_def load_report_def\<close>)
  moreover have "ServiceLoadReportPush_default\<lparr>ServiceLoadReportPush_load_score := (if score > 100 then 100 else score), ServiceLoadReportPush_accepting_bindings := accepting, ServiceLoadReportPush_message := msg\<rparr> = ?m"
    by (auto simp: ServiceLoadReportPush_default_def load_report_def min_def not_less)
  ultimately show ?thesis
    using sent_controlI [OF assms(2) pb_laws.ServiceLoadReportPush_size [OF assms(1), of ?m], where parse = "ServiceLoadReportPush_parse (rt env)" and m = ?m and env = env]
    by (simp add: reportLoad_def Let_def SerializeToString_ServiceLoadReportPush_def kBackendFrameHeaderSize_def)
qed

text \<open>C37. A backend's control requests reach the gateway as they were made. With a connection,
  binding a session to a service, unbinding it, kicking a session and reporting the load each
  write exactly one control frame, which the gateway parses back to the arguments, the load
  score cut to 100; without one nothing is written and the call reports failure.\<close>
theorem control_requests_sent:
  assumes "pb_laws (rt env)" and "length msg \<le> 1000" and "VerifyUTF8 (rt env) msg"
  shows "case m_transport s of
      None \<Rightarrow> bindService env sid svc target s = (False, s) \<and> unbindService env sid svc s = (False, s)
        \<and> kickSession env sid s = (False, s) \<and> reportLoad env score accepting msg s = (False, s)
    | Some t \<Rightarrow>
        sent_control t BindServiceReq_Id (BindServiceReq_parse (rt env)) (bind_req sid svc target) s (snd (bindService env sid svc target s))
        \<and> sent_control t UnbindServiceReq_Id (UnbindServiceReq_parse (rt env)) (unbind_req sid svc) s (snd (unbindService env sid svc s))
        \<and> sent_control t KickSessionReq_Id (KickSessionReq_parse (rt env)) (kick_req sid) s (snd (kickSession env sid s))
        \<and> sent_control t ServiceLoadReportPush_Id (ServiceLoadReportPush_parse (rt env)) (load_report score accepting msg) s
            (snd (reportLoad env score accepting msg s))"
proof (cases "m_transport s")
  case None
  then show ?thesis
    by (simp add: bindService_def unbindService_def kickSession_def reportLoad_def sendMessage_def sendFrame_def Let_def split: option.split)
next
  case (Some t)
  then show ?thesis
    using bindService_sent [OF assms(1) Some] unbindService_sent [OF assms(1) Some] kickSession_sent [OF assms(1) Some]
      reportLoad_sent [OF assms(1) Some assms(2,3)] by simp
qed

theorem control_requests_sent_witness:
  "sent_control 0 BindServiceReq_Id (BindServiceReq_parse wire_rt) (bind_req 42 1 (- 1)) (registered_client 0 [42] :: nat client)
     (snd (bindService wire_env 42 1 (- 1) (registered_client 0 [42])))"
  using control_requests_sent [where env = wire_env and msg = "[]" and s = "registered_client 0 [42] :: nat client"
      and sid = 42 and svc = 1 and target = "- 1"]
  by simp

end
