(* ===== verification/ServerEvents.thy ===== *)
theory ServerEvents
  imports ServerProps ControlRequests
begin

section \<open>Players, connections and the clock of the battle server\<close>

text \<open>
  \<open>BattleServer\<close> frame by frame and tick by tick: a player's input, a player leaving, losing
  the gateway, stopping, and the frames a tick writes.
\<close>

subsection \<open>Input\<close>

lemma processFrame_push:
  assumes "m_state s = Registered" and "cmd fr = kBackendCmdBusiness" and "serial fr = 0"
    and "sessionId fr \<in> set (m_onlineSessions s)"
  shows "processFrame env (Some dl) fr s = onClientPush dl (sessionId fr) fr s"
  using assms processFrame_business [of s fr env "Some dl"]
  by (simp add: unmatched_def processClientFrame_def)

text \<open>C9. A player moves only its own actor. An input frame of an online session changes the
  server in one way only: when the session's player is in the battle the frame names, that
  battle's room takes the input, which sets the keys of that session's own actor and the frame
  acknowledged to it, or nothing. No other room, no route, no other player, no session and
  nothing of the connection changes, nothing is written, and a frame that names another
  battle than the session's own has no effect.\<close>
theorem input_own_room:
  assumes "serving c s" and "m_roomManager s = Some mgr" and "m_state s = Registered"
    and "cmd fr = kBackendCmdBusiness" and "msgId fr = BattleInputPush_Id" and "serial fr = 0"
    and "sessionId fr \<in> set (m_onlineSessions s)"
    and "parse_BattleInputPush env (payload fr) = Some (bid, cf, keys, t)"
    and "processFrame (cenv env) (Some (battle_delegate env)) fr s = s'"
  shows "if umap_find (m_sessionToRoom mgr) (sessionId fr) = Some bid
    then \<exists>mgr' room. s' = s\<lparr>m_roomManager := Some mgr'\<rparr> \<and> findRoom bid mgr = Some room \<and> hasPlayer (sessionId fr) room
      \<and> findRoom bid mgr' = Some (applyInput (world env) (sessionId fr) cf keys room)
      \<and> (applyInput (world env) (sessionId fr) cf keys room = room \<or>
          (\<exists>slot w. umap_find (room_players room) (sessionId fr) = Some slot \<and> room_world room = Some w \<and>
             applyInput (world env) (sessionId fr) cf keys room = room\<lparr>room_world := Some (setKeyDown (world env) (slot_actorId slot) keys w),
               room_players := umap_assign (sessionId fr) (slot\<lparr>slot_lastClientFrame := cf\<rparr>) (room_players room)\<rparr>))
      \<and> (\<forall>k. k \<noteq> bid \<longrightarrow> findRoom k mgr' = findRoom k mgr) \<and> m_sessionToRoom mgr' = m_sessionToRoom mgr
    else s' = s"
proof -
  note ok = serving_manager_ok [OF assms(1,2)]
  have s': "s' = onBattleInput env (sessionId fr) fr s"
    using assms(9) processFrame_push [OF assms(3,4,6,7), of "cenv env" "battle_delegate env"]
    by (simp add: battle_delegate_def server_onClientPush_def assms(5))
  show ?thesis
  proof (cases "umap_find (m_sessionToRoom mgr) (sessionId fr)")
    case None
    then show ?thesis by (simp add: s' onBattleInput_def assms(2,8) findRoomBySession_def)
  next
    case (Some k)
    then obtain room where room: "umap_find (m_rooms mgr) k = Some room" "sessionId fr \<in> seats room"
      using manager_okD(3) [OF ok] unfolding routed_def by metis
    note id = manager_ok_room(2) [OF ok room(1)]
    have find: "findRoomBySession (sessionId fr) mgr = Some room" "findRoom k mgr = Some room"
      by (simp_all only: findRoomBySession_def Some option.case findRoom_def room(1))
    let ?mgr' = "applyInputAt (world env) k (sessionId fr) cf keys mgr"
    have eq: "s' = (if k = bid then s\<lparr>m_roomManager := Some ?mgr'\<rparr> else s)"
      by (simp only: s' onBattleInput_def assms(2,8) option.case prod.case Some find id) simp
    have rooms: "findRoom j ?mgr' = (if j = k then Some (applyInput (world env) (sessionId fr) cf keys room) else findRoom j mgr)" for j
      by (simp only: applyInputAt_def room(1) option.case) (simp add: findRoom_def)
    have routes: "m_sessionToRoom ?mgr' = m_sessionToRoom mgr"
      by (simp add: applyInputAt_def split: option.split)
    show ?thesis
    proof (cases "k = bid")
      case True
      then show ?thesis
        by (simp only: Some eq simp_thms if_True, intro exI [of _ ?mgr'] exI [of _ room] conjI refl)
           (use find(2) room(2) applyInput_own [of "world env" "sessionId fr" cf keys room] in \<open>auto simp: rooms [unfolded True] routes [unfolded True] hasPlayer_seats\<close>)
    qed (simp add: Some eq)
  qed
qed

theorem input_own_room_witness:
  "\<exists>mgr'. m_roomManager (processFrame (cenv sample_env) (Some (battle_delegate sample_env))
      \<lparr>cmd = 101, msgId = 20012, serial = 0, sessionId = 42, payload = [7, 9, 3]\<rparr> (busy_server 2)) = Some mgr'
    \<and> findRoom 7 mgr' = Some (applyInput sample_mugen 42 9 3 (the (findRoom 7 (busy_manager 2))))"
  using input_own_room [OF busy_serving busy_server_eq(1) busy_server_eq(3), of 2
      "\<lparr>cmd = 101, msgId = 20012, serial = 0, sessionId = 42, payload = [7, 9, 3]\<rparr>" sample_env 7 9 3 0]
  by (auto simp: cmd_consts BattleInputPush_Id_def busy_server_eq busy_manager_def sample_manager_eq)
     (auto simp: sample_env_def)

subsection \<open>A player leaves\<close>

text \<open>A control frame whose serial matches no pending request, by its message id.\<close>

lemma processFrame_offline:
  assumes "m_state s = Registered" and "cmd fr = kBackendCmdControl" and "msgId fr = SessionOfflinePush_Id"
    and "unmatched fr s" and "SessionOfflinePush_parse (rt env) (payload fr) = Some push"
  shows "processFrame env dl fr s = stopSession dl (SessionOfflinePush_session_id push) s"
  using unmatched_resolve [OF assms(4)] assms
  by (simp add: processFrame_def onGatewayFrame_def handleControlFrame_def SessionOnlinePush_Id_def SessionOfflinePush_Id_def)

text \<open>Leaving, seen from the lookups.\<close>

lemma removePlayer_routes:
  assumes "manager_ok m"
  shows "umap_find (m_sessionToRoom (removePlayerFromRoom sid m)) x = (if x = sid then None else umap_find (m_sessionToRoom m) x)"
  using manager_okD(2) [OF assms]
  by (auto simp: removePlayerFromRoom_def Let_def simp del: map_of_eq_Some_iff Some_eq_map_of_iff split: option.splits)

lemma removePlayer_rooms:
  assumes "manager_ok m"
  shows "findRoomBySession sid (removePlayerFromRoom sid m) = None
    \<and> (\<forall>x. x \<noteq> sid \<longrightarrow> umap_find (m_sessionToRoom (removePlayerFromRoom sid m)) x = umap_find (m_sessionToRoom m) x)
    \<and> (\<forall>k room. findRoom k m = Some room \<longrightarrow> findRoom k (removePlayerFromRoom sid m) =
        (if \<not> hasPlayer sid room then Some room else if seats room = {sid} then None else Some (removePlayer sid room)))"
proof -
  have seat: "umap_find (m_sessionToRoom m) sid = Some k" if "findRoom k m = Some room" "hasPlayer sid room" for k room
    using manager_okD(3) [OF assms] that unfolding routed_def findRoom_def hasPlayer_seats by metis
  have noseat: "umap_find (m_sessionToRoom m) sid \<noteq> Some k" if "findRoom k m = Some room" "\<not> hasPlayer sid room" for k room
    using manager_okD(3) [OF assms] that unfolding routed_def findRoom_def hasPlayer_seats by force
  have "findRoom k (removePlayerFromRoom sid m) =
      (if \<not> hasPlayer sid room then Some room else if seats room = {sid} then None else Some (removePlayer sid room))"
    if "findRoom k m = Some room" for k room
  proof (cases "umap_find (m_sessionToRoom m) sid")
    case None
    then show ?thesis using removePlayer_lookup [OF assms, of sid] seat [OF that] that by auto
  next
    case (Some j)
    then show ?thesis
      using removePlayer_lookup [OF assms, of sid] seat [OF that] noseat [OF that] that by (cases "j = k") auto
  qed
  then show ?thesis by (simp add: removePlayer_routes [OF assms] findRoomBySession_def)
qed

text \<open>C10. A player that goes offline leaves no trace. The gateway's push for an online session
  takes the session off the online list and out of its room (the room itself too when it was
  the last player), and writes exactly one control frame, which the gateway parses as the
  request to unbind that session from the battle service. Other rooms and other sessions stay.\<close>
theorem player_offline:
  assumes "serving c s" and "m_roomManager s = Some mgr" and "m_state s = Registered" and "m_transport s = Some t"
    and "cmd fr = kBackendCmdControl" and "msgId fr = SessionOfflinePush_Id" and "unmatched fr s"
    and "SessionOfflinePush_parse (rt (cenv env)) (payload fr) = Some push"
    and "sid = SessionOfflinePush_session_id push" and "sid \<in> set (m_onlineSessions s)"
    and "pb_laws (rt (cenv env))"
    and "processFrame (cenv env) (Some (battle_delegate env)) fr s = s'"
  shows "set (m_onlineSessions s') = set (m_onlineSessions s) - {sid}
    \<and> (\<exists>mgr'. m_roomManager s' = Some mgr' \<and> findRoomBySession sid mgr' = None
        \<and> (\<forall>x. x \<noteq> sid \<longrightarrow> umap_find (m_sessionToRoom mgr') x = umap_find (m_sessionToRoom mgr) x)
        \<and> (\<forall>k room. findRoom k mgr = Some room \<longrightarrow> findRoom k mgr' =
             (if \<not> hasPlayer sid room then Some room else if seats room = {sid} then None else Some (removePlayer sid room))))
    \<and> (\<exists>s0. io s0 = io s \<and> sent_control t UnbindServiceReq_Id (UnbindServiceReq_parse (rt (cenv env)))
          (unbind_req sid kServiceIdBattle) s0 s')"
proof -
  note ok = serving_manager_ok [OF assms(1,2)]
  let ?s0 = "s\<lparr>m_onlineSessions := removeAll sid (m_onlineSessions s), m_roomManager := Some (removePlayerFromRoom sid mgr)\<rparr>"
  have s': "s' = snd (unbindService (cenv env) sid kServiceIdBattle ?s0)"
    using assms(12) processFrame_offline [OF assms(3,5-8), of "Some (battle_delegate env)"] assms(2,9,10)
    by (simp add: stopSession_def notify_def battle_delegate_def server_onSessionOffline_def)
  obtain acts where acts: "s' = emit acts ?s0" using unbindService_emit s' by metis
  have wrote: "\<exists>s0. io s0 = io s \<and> sent_control t UnbindServiceReq_Id (UnbindServiceReq_parse (rt (cenv env)))
      (unbind_req sid kServiceIdBattle) s0 s'"
    using unbindService_sent [OF assms(11), of ?s0 t sid kServiceIdBattle] s' assms(4) by (intro exI [of _ ?s0]) simp
  show ?thesis
    using wrote removePlayer_rooms [OF ok, of sid] by (auto simp: acts frame_simps)
qed

definition offline_frame :: "u32 \<Rightarrow> BackendFrame" where
  "offline_frame sid = \<lparr>cmd = 102, msgId = 109, serial = 0, sessionId = 0,
     payload = SessionOfflinePush_serialize wire_rt \<lparr>SessionOfflinePush_session_id = sid, SessionOfflinePush_unknown = []\<rparr>\<rparr>"

lemma rt_wire_env [simp]: "rt wire_env = wire_rt"
  by (simp add: wire_env_def)

lemma offline_frame_parse:
  "SessionOfflinePush_parse wire_rt (payload (offline_frame sid)) =
     Some \<lparr>SessionOfflinePush_session_id = sid, SessionOfflinePush_unknown = []\<rparr>"
  by (simp add: offline_frame_def wire.SessionOfflinePush_roundtrip SessionOfflinePush_ok_def)

theorem player_offline_witness:
  "m_onlineSessions (processFrame (cenv sample_env) (Some (battle_delegate sample_env)) (offline_frame 42) (busy_server 2)) = []
    \<and> (\<exists>mgr'. m_roomManager (processFrame (cenv sample_env) (Some (battle_delegate sample_env)) (offline_frame 42) (busy_server 2))
         = Some mgr' \<and> findRoom 7 mgr' = None)"
proof -
  let ?s = "processFrame (cenv sample_env) (Some (battle_delegate sample_env)) (offline_frame 42) (busy_server 2)"
  have "findRoom 7 (busy_manager 2) \<noteq> None" by (simp add: busy_manager_def sample_manager_eq findRoom_def)
  then obtain room where room: "findRoom 7 (busy_manager 2) = Some room" by blast
  then have seats: "seats room = {42}"
    by (auto simp: busy_manager_def sample_manager_eq findRoom_def seats_def split: if_splits)
  have frame: "cmd (offline_frame 42) = kBackendCmdControl" "msgId (offline_frame 42) = SessionOfflinePush_Id"
    "unmatched (offline_frame 42) (busy_server 2)"
    by (simp_all add: offline_frame_def cmd_consts SessionOfflinePush_Id_def unmatched_def)
  have parse: "SessionOfflinePush_parse (rt (cenv sample_env)) (payload (offline_frame 42)) =
      Some \<lparr>SessionOfflinePush_session_id = 42, SessionOfflinePush_unknown = []\<rparr>"
    and laws: "pb_laws (rt (cenv sample_env))"
    by (simp_all add: offline_frame_parse wire.pb_laws_axioms)
  have "set (m_onlineSessions ?s) = {} \<and> (\<exists>mgr'. m_roomManager ?s = Some mgr' \<and> findRoom 7 mgr' =
      (if \<not> hasPlayer 42 room then Some room else if seats room = {42} then None else Some (removePlayer 42 room)))"
    using player_offline [OF busy_serving busy_server_eq(1,3,2) frame parse _ _ laws refl, of 42] room
    by (auto simp: busy_server_eq simp del: if_split)
  with seats show ?thesis by (simp add: hasPlayer_seats)
qed

subsection \<open>Losing the gateway\<close>

lemma unbindService_closed: "m_transport s = None \<Longrightarrow> snd (unbindService env sid svc s) = s"
  by (simp add: unbindService_def sendMessage_def sendFrame_def Let_def split: option.split)

text \<open>Without a transport, sessions going offline only leave their rooms.\<close>

lemma fold_offline_closed:
  assumes "m_transport s = None"
  shows "\<exists>mgr. fold (server_onSessionOffline env) sids s = s\<lparr>m_roomManager := mgr\<rparr>"
  using assms
proof (induction sids arbitrary: s)
  case Nil
  have "s = s\<lparr>m_roomManager := m_roomManager s\<rparr>" by simp
  then show ?case unfolding fold_simps id_apply by (rule exI)
next
  case (Cons sid sids)
  have "\<exists>mgr. server_onSessionOffline env sid s = s\<lparr>m_roomManager := mgr\<rparr>"
  proof (cases "m_roomManager s")
    case None
    then have "server_onSessionOffline env sid s = s\<lparr>m_roomManager := m_roomManager s\<rparr>"
      by (simp add: server_onSessionOffline_def)
    then show ?thesis by (rule exI)
  next
    case (Some mgr)
    with Cons.prems show ?thesis by (auto simp: server_onSessionOffline_def unbindService_closed)
  qed
  then obtain mgr where "server_onSessionOffline env sid s = s\<lparr>m_roomManager := mgr\<rparr>" by blast
  then show ?case using Cons.IH [of "s\<lparr>m_roomManager := mgr\<rparr>"] Cons.prems by auto
qed

text \<open>C12. Losing the gateway ends the battle server cleanly. When the connection closes, for any
  reason, every pending request's callback is called exactly once, in order, with
  \<open>gateway disconnected\<close> and no response; then the io service is stopped, once, if it was
  running; no battle, no online session, no pending request and no transport is left, and
  nothing is written.\<close>
theorem gateway_lost:
  fixes s :: "('u, 'w) server"
  shows "handleNetworkEvent (cenv env) (Some (battle_delegate env)) (Ev_Close status) s =
     (emit (failed_calls ''gateway disconnected'' s @ (if m_running s then [YStop] else [])) s)
       \<lparr>m_transport := None, m_state := Disconnected, m_rpc := (m_rpc s)\<lparr>m_pending := []\<rparr>, m_running := False,
        m_onlineSessions := [], m_roomManager := None, server_running := False\<rparr>"
proof -
  let ?s0 = "s\<lparr>m_transport := None, m_state := Disconnected, m_onlineSessions := []\<rparr>"
  obtain mgr where mgr: "fold (server_onSessionOffline env) (m_onlineSessions s) ?s0 = ?s0\<lparr>m_roomManager := mgr\<rparr>"
    using fold_offline_closed [of ?s0 env "m_onlineSessions s"] by auto
  have "onSessionOffline (battle_delegate env) = server_onSessionOffline env"
    by (simp add: battle_delegate_def)
  then have all: "stopAllSessions (Some (battle_delegate env)) (s\<lparr>m_transport := None, m_state := Disconnected\<rparr>) =
      ?s0\<lparr>m_roomManager := mgr\<rparr>"
    using mgr by (simp add: stopAllSessions_def)
  have disc: "onDisconnected (battle_delegate env) = server_onDisconnected env"
    by (simp add: battle_delegate_def)
  have none: "m_onlineSessions x = [] \<Longrightarrow> stopAllSessions dl x = x" for dl and x :: "('u, 'w) server"
    by (simp add: stopAllSessions_def Let_def split: option.split)
  show ?thesis
    by (simp add: onGatewayDisconnected_def all none notify_def disc rpcFailAll_eq server_onDisconnected_def shutdown_def
        stop_def shutdown_callbacks_def default_delegate_def closeTransport_def
        handleConnectionFailure_def failed_calls_def emit_def)
qed

subsection \<open>Stopping\<close>






subsection \<open>What a tick writes\<close>

definition load_push :: "'w BattleRoomManager \<Rightarrow> ServiceLoadReportPush" where
  "load_push mgr = \<lparr>
     ServiceLoadReportPush_load_score =
       (if m_maxRooms mgr = 0 then 100 else of_nat (roomCount mgr * 100 div unat (m_maxRooms mgr))),
     ServiceLoadReportPush_accepting_bindings = canAcceptSession 0 mgr,
     ServiceLoadReportPush_message = (if canAcceptSession 0 mgr then [] else str_bytes ''battle server capacity is full''),
     ServiceLoadReportPush_unknown = []\<rparr>"

lemma load_score_bound:
  assumes "manager_ok mgr" shows "unat (ServiceLoadReportPush_load_score (load_push mgr)) \<le> 100"
proof (cases "m_maxRooms mgr = 0")
  case False
  let ?q = "roomCount mgr * 100 div unat (m_maxRooms mgr)"
  have "roomCount mgr \<le> unat (m_maxRooms mgr)" using manager_okD(4) [OF assms] by (simp add: roomCount_def)
  then have "?q \<le> unat (m_maxRooms mgr) * 100 div unat (m_maxRooms mgr)" by (intro div_le_mono mult_le_mono1)
  also have "\<dots> = 100" using False by (simp add: unat_eq_zero)
  finally have "?q \<le> 100" .
  then show ?thesis using False by (simp add: load_push_def unsigned_of_nat take_bit_nat_eq_self)
qed (simp add: load_push_def)

lemma sendLoadReport_frames:
  assumes "manager_ok mgr" and "m_roomManager s = Some mgr" and "m_transport s = Some t"
    and "m_maxRooms mgr = cfg_maxBattles (server_config s)" and "pb_laws (rt (cenv env))"
  shows "\<exists>acts. sendLoadReport env s = emit acts s \<and>
    frames_written t acts = [Inr \<lparr>cmd = kBackendCmdControl, msgId = ServiceLoadReportPush_Id, serial = 0, sessionId = 0,
      payload = ServiceLoadReportPush_serialize (rt (cenv env)) (load_push mgr)\<rparr>]"
proof -
  let ?m = "load_push mgr" and ?rt = "rt (cenv env)"
  have mlen: "length (ServiceLoadReportPush_message ?m) \<le> 30" by (simp add: load_push_def str_bytes_def)
  have unk: "ServiceLoadReportPush_unknown ?m = []" by (simp add: load_push_def)
  from mlen have "LengthDelimitedSize ?rt (length (ServiceLoadReportPush_message ?m)) \<le> length (ServiceLoadReportPush_message ?m) + 5"
    by (intro pb_laws.block_bound [OF assms(5)]) simp
  with mlen have size: "ServiceLoadReportPush_ByteSizeLong ?rt ?m \<le> 50"
    using pb_laws.uint32_bound [OF assms(5), of "ServiceLoadReportPush_load_score ?m"]
    by (simp add: ServiceLoadReportPush_ByteSizeLong_def unk)
  then have len: "length (ServiceLoadReportPush_serialize ?rt ?m) + kBackendFrameHeaderSize \<le> 2 ^ 20"
    by (simp add: pb_laws.ServiceLoadReportPush_size [OF assms(5)] kBackendFrameHeaderSize_def)
  have ser: "SerializeToString_ServiceLoadReportPush ?rt ?m = Some (ServiceLoadReportPush_serialize ?rt ?m)"
    using size by (simp add: SerializeToString_ServiceLoadReportPush_def serialize_to_string_def)
  have score: "\<not> 100 < ServiceLoadReportPush_load_score ?m"
    using load_score_bound [OF assms(1)] by (simp add: word_less_nat_alt)
  have "sendLoadReport env s = snd (sendMessage (cenv env) kBackendCmdControl 0 0 ServiceLoadReportPush_Id
      (SerializeToString_ServiceLoadReportPush ?rt ?m) s)"
    using score assms(2,4)
    by (auto simp: sendLoadReport_def div_or_fault_def unat_eq_zero reportLoad_def Let_def load_push_def ServiceLoadReportPush_default_def str_bytes_def)
  then show ?thesis
    using sendFrame_wrote [OF assms(3) len, of kBackendCmdControl ServiceLoadReportPush_Id 0 0 "cenv env"] ser
    by (auto simp: sendMessage_def wrote_frame_def)
qed

text \<open>The frames of one room's snapshot, and those a tick sends for it.\<close>

definition snapshot_of :: "('u, 'w) battle_env \<Rightarrow> 'w BattleRoom \<Rightarrow> PlayerSlot \<Rightarrow> bytes option" where
  "snapshot_of env room slot = ser_BattleSnapshotPush env (battleId room) (room_serverFrame room) (server_time_ms room)
     (serializeWorld (world env) room) (slot_lastClientFrame slot)"

definition snapshot_frames_of :: "('u, 'w) battle_env \<Rightarrow> 'w BattleRoom \<Rightarrow> (frame_error + BackendFrame) list" where
  "snapshot_frames_of env room = map (\<lambda>(sid, slot). Inr \<lparr>cmd = kBackendCmdBusiness, msgId = BattleSnapshotPush_Id,
     serial = 0, sessionId = sid, payload = the (snapshot_of env room slot)\<rparr>) (room_players room)"

definition snapshot_due :: "u32 \<Rightarrow> 'w BattleRoom \<Rightarrow> bool" where
  "snapshot_due interval room \<longleftrightarrow> \<not> isEmpty room \<and> room_serverFrame room mod interval = 0"

definition sendable :: "('u, 'w) battle_env \<Rightarrow> 'w BattleRoom \<Rightarrow> bool" where
  "sendable env room \<longleftrightarrow> (\<forall>(sid, slot) \<in> set (room_players room).
     \<exists>p. snapshot_of env room slot = Some p \<and> length p + kBackendFrameHeaderSize \<le> 2 ^ 20)"

lemma snapshot_step_frames:
  assumes "m_transport s = Some t" and "sendable env room" and "k \<noteq> 0"
  shows "\<exists>acts. snapshot_step env k room s = emit acts s \<and>
    frames_written t acts = (if snapshot_due k room then snapshot_frames_of env room else [])"
proof (cases "snapshot_due k room")
  case False
  then consider "isEmpty room" | "room_serverFrame room mod k \<noteq> 0" by (auto simp: snapshot_due_def)
  then have "snapshot_step env k room s = s"
    by cases (simp_all add: snapshot_step_def mod_or_fault_def assms(3))
  with False show ?thesis by (intro exI [of _ "[]"]) simp
next
  case True
  have "\<forall>(sid, slot) \<in> set (room_players room). \<exists>p. ser_BattleSnapshotPush env (battleId room) (room_serverFrame room)
      (server_time_ms room) (serializeWorld (world env) room) (slot_lastClientFrame slot) = Some p
      \<and> length p + kBackendFrameHeaderSize \<le> 2 ^ 20"
    using assms(2) by (simp add: sendable_def snapshot_of_def)
  from fold_sendPush_frames [OF assms(1) this, of "cenv env" BattleSnapshotPush_Id] show ?thesis
    using True assms(3) by (simp add: snapshot_step_def mod_or_fault_def snapshot_due_def sendSnapshot_def snapshot_frames_of_def snapshot_of_def)
qed

lemma fold_snapshot_frames:
  assumes "m_transport s = Some t" and "\<forall>(k, room) \<in> set rooms. sendable env room" and "n \<noteq> 0"
  shows "\<exists>acts. fold (\<lambda>(_, room) s. snapshot_step env n room s) rooms s = emit acts s \<and>
    frames_written t acts = concat (map (\<lambda>(_, room). snapshot_frames_of env room) (filter (\<lambda>(_, room). snapshot_due n room) rooms))"
  using assms
proof (induction rooms arbitrary: s)
  case Nil
  then show ?case by (auto intro: exI [of _ "[]"])
next
  case (Cons p rooms)
  obtain k room where p: "p = (k, room)" by fastforce
  obtain acts where a: "snapshot_step env n room s = emit acts s"
    "frames_written t acts = (if snapshot_due n room then snapshot_frames_of env room else [])"
    using snapshot_step_frames [of s t env room n] Cons.prems p by auto
  have "m_transport (emit acts s) = Some t" "\<forall>(k, room) \<in> set rooms. sendable env room" "n \<noteq> 0"
    using Cons.prems by (simp_all add: frame_simps)
  from Cons.IH [OF this] obtain acts' where a': "fold (\<lambda>(_, room) s. snapshot_step env n room s) rooms (emit acts s) = emit acts' (emit acts s)"
    "frames_written t acts' = concat (map (\<lambda>(_, room). snapshot_frames_of env room) (filter (\<lambda>(_, room). snapshot_due n room) rooms))"
    by blast
  show ?case using a a' by (intro exI [of _ "acts @ acts'"]) (simp add: p)
qed

text \<open>C11. The frames of a tick. A tick advances every room by one fixed step and writes, in
  order: when the load report's interval has passed, one report, which the gateway reads as
  the share of rooms in use (at most 100) and whether a new session would be accepted; then,
  for each room that has players and whose new frame number is a multiple of the snapshot
  interval, one snapshot for each of its players; and nothing else. The report's timer restarts
  when the report is written and otherwise accumulates the step.\<close>
theorem tick_frames:
  assumes "serving c s" and "m_roomManager s = Some mgr" and "m_transport s = Some t"
    and "pb_laws (rt (cenv env))" and "VerifyUTF8 (rt (cenv env)) (ServiceLoadReportPush_message (load_push mgr))"
    and "\<forall>(k, room) \<in> set (m_rooms (tickAll (world env) dt mgr)). sendable env room"
    and "due \<longleftrightarrow> f32_le (cfg_loadReportInterval c) (f32_add (m_loadReportTimer s) dt)"
    and "interval = of_int (max 1 (sint (cfg_snapshotIntervalFrames c)))"
  shows "\<exists>acts p. tick env dt s = emit acts (s\<lparr>m_roomManager := Some (tickAll (world env) dt mgr),
         m_loadReportTimer := (if due then f32_zero else f32_add (m_loadReportTimer s) dt)\<rparr>)
    \<and> frames_written t acts =
        (if due then [Inr \<lparr>cmd = kBackendCmdControl, msgId = ServiceLoadReportPush_Id, serial = 0, sessionId = 0, payload = p\<rparr>] else [])
        @ concat (map (\<lambda>(_, room). snapshot_frames_of env room)
            (filter (\<lambda>(_, room). snapshot_due interval room) (m_rooms (tickAll (world env) dt mgr))))
    \<and> ServiceLoadReportPush_parse (rt (cenv env)) p = Some (load_push mgr)
    \<and> unat (ServiceLoadReportPush_load_score (load_push mgr)) \<le> 100"
proof -
  note ok = serving_manager_ok [OF assms(1,2)]
  have c: "server_config s = c" "m_maxRooms mgr = cfg_maxBattles c"
    using assms(1) server_invD [OF servingD [OF assms(1)] assms(2)]
    by (simp_all add: serving_def server_inv_def manager_inv_def)
  let ?t = "f32_add (m_loadReportTimer s) dt" and ?m = "tickAll (world env) dt mgr"
  let ?p = "ServiceLoadReportPush_serialize (rt (cenv env)) (load_push mgr)"
  let ?s = "s\<lparr>m_loadReportTimer := if due then f32_zero else ?t\<rparr>"
  let ?load = "if due then [Inr \<lparr>cmd = kBackendCmdControl, msgId = ServiceLoadReportPush_Id, serial = 0, sessionId = 0,
    payload = ?p\<rparr>] else []"
  obtain acts where acts: "(if due then sendLoadReport env ?s else ?s) = emit acts ?s" "frames_written t acts = ?load"
  proof (cases due)
    case True
    with sendLoadReport_frames [OF ok, of ?s t env] assms(2,3,4) c that show ?thesis by auto
  next
    case False
    then show ?thesis using that [of "[]"] by simp
  qed
  let ?s1 = "(emit acts ?s)\<lparr>m_roomManager := Some ?m\<rparr>"
  have interval: "interval = (if sint (cfg_snapshotIntervalFrames c) > 0 then cfg_snapshotIntervalFrames c else 1)"
    by (simp add: assms(8) max_def)
  then have nz: "interval \<noteq> 0" by auto
  have "m_transport ?s1 = Some t" using assms(3) by (simp add: frame_simps)
  from fold_snapshot_frames [OF this assms(6) nz] obtain acts' where acts':
    "fold (\<lambda>(_, room) s. snapshot_step env interval room s) (m_rooms ?m) ?s1 = emit acts' ?s1"
    "frames_written t acts' = concat (map (\<lambda>(_, room). snapshot_frames_of env room)
      (filter (\<lambda>(_, room). snapshot_due interval room) (m_rooms ?m)))" by blast
  have "tick env dt s = (let s1 = (if due then sendLoadReport env ?s else ?s);
      frames = cfg_snapshotIntervalFrames (server_config s1)
    in fold (\<lambda>(_, room) s. snapshot_step env (if sint frames > 0 then frames else 1) room s) (m_rooms ?m)
         (s1\<lparr>m_roomManager := Some ?m\<rparr>))"
    by (cases due) (simp_all add: tick_def assms(2,7) c Let_def)
  moreover note interval
  moreover have "server_config (emit acts ?s) = c" using c(1) by (simp add: frame_simps)
  ultimately have tick: "tick env dt s = emit acts' ?s1"
    using acts'(1) unfolding acts(1) Let_def by presburger
  have p: "ServiceLoadReportPush_parse (rt (cenv env)) ?p = Some (load_push mgr)"
    using assms(5) by (intro pb_laws.ServiceLoadReportPush_roundtrip [OF assms(4)])
      (auto simp: ServiceLoadReportPush_ok_def load_push_def str_bytes_def)
  show ?thesis
    using tick p acts(2) acts'(2) load_score_bound [OF ok]
    by (intro exI [of _ "acts @ acts'"] exI [of _ ?p]) (simp add: emit_def)
qed

theorem tick_frames_witness:
  "\<exists>acts timer. tick sample_env f32_zero (busy_server 2) =
      emit acts ((busy_server 2)\<lparr>m_roomManager := Some (tickAll sample_mugen f32_zero (busy_manager 2)), m_loadReportTimer := timer\<rparr>)
    \<and> unat (ServiceLoadReportPush_load_score (load_push (busy_manager 2))) \<le> 100"
proof -
  have accept: "canAcceptSession 0 (busy_manager 2)"
    by (simp add: canAcceptSession_def busy_manager_def sample_manager_eq activeSessionCount_def)
  have utf8: "VerifyUTF8 (rt (cenv sample_env)) (ServiceLoadReportPush_message (load_push (busy_manager 2)))"
    by (simp add: load_push_def accept wire_rt_def)
  have laws: "pb_laws (rt (cenv sample_env))" by (simp add: wire.pb_laws_axioms)
  have send: "\<forall>(k, room) \<in> set (m_rooms (tickAll (world sample_env) f32_zero (busy_manager 2))). sendable sample_env room"
    by (simp add: tickAll_def busy_manager_def sample_manager_eq tick_room_def isEmpty_def sendable_def snapshot_of_def
        serializeWorld_def kBackendFrameHeaderSize_def) (simp add: sample_env_def sample_mugen_def)
  have pos: "0 < (2 :: u32)" by simp
  from tick_frames [OF busy_serving [OF pos] busy_server_eq(1,2) laws utf8 send refl refl] show ?thesis
    unfolding sample_env_simps by blast
qed

subsection \<open>Creating a battle, on the wire\<close>

lemma server_onServerRequest_create:
  "onServerRequest (battle_delegate env) src \<lparr>cmd = c, msgId = BattleCreateReq_Id, serial = i, sessionId = sid, payload = pl\<rparr> s =
     onBattleCreate env \<lparr>cmd = c, msgId = BattleCreateReq_Id, serial = i, sessionId = sid, payload = pl\<rparr> s"
  by (simp add: battle_delegate_def server_onServerRequest_def)

lemma server_state_connection:
  assumes "serving c s" and "onBattleCreate env fr s = (resp, s1)"
  shows "m_transport s1 = m_transport s" and "m_state s1 = m_state s" and "m_config s1 = m_config s"
proof -
  obtain mgr where mgr: "m_roomManager s = Some mgr" using serving_manager [OF assms(1)] by blast
  obtain seed mgr' acts where "s1 = emit acts (s\<lparr>m_randomSeed := seed, m_roomManager := Some mgr'\<rparr>)"
    using onBattleCreate_state [OF mgr, of env fr] assms(2) by auto
  then show "m_transport s1 = m_transport s" "m_state s1 = m_state s" "m_config s1 = m_config s"
    by (simp_all add: frame_simps)
qed

lemma makeBattleCreateResp_id: "makeBattleCreateResp env code message room actor s = Some resp \<Longrightarrow> sm_msgId resp = BattleCreateResp_Id"
  by (auto simp: makeBattleCreateResp_def makeSerializedMessage_def split: option.splits)

lemma battle_resp_id: "onBattleCreate env fr s = (Some resp, s1) \<Longrightarrow> sm_msgId resp = BattleCreateResp_Id"
  by (auto simp: onBattleCreate_def Let_def dest: makeBattleCreateResp_id [OF sym] makeBattleCreateResp_id
      split: option.splits prod.splits if_splits)

lemma sint_nonneg_small: "unat (n :: i32) < 2 ^ 31 \<Longrightarrow> 0 \<le> sint n"
proof -
  assume "unat n < 2 ^ 31"
  then have "int (unat n) < int (2 ^ 31)" by (simp only: of_nat_less_iff)
  then have "uint n < 2 ^ 31" by simp
  with uint_nonnegative [of n] have n: "- (2 ^ 31) \<le> uint n" "uint n < 2 ^ 31" by linarith+
  have "sint n = signed_take_bit 31 (uint n)" by (simp add: sint_uint)
  also have "\<dots> = uint n" by (rule signed_take_bit_int_eq_self [OF n])
  finally show ?thesis by simp
qed
text \<open>C2. A game server gets the answer to its request. The bytes the gateway forwards from
  the game server \<open>insA\<close>, holding a request to create a battle under the id \<open>i\<close>, run the
  creation once and then write one frame more: the gateway reads it as addressed to that same
  game server, and it holds the answer, under the id \<open>i\<close> that the game server's pending
  request has. The creation itself sees the serial \<open>-i\<close> and session 0. The game server is still
  registered and connected, and its instance id is below \<open>2 ^ 31\<close> (the gateway takes a larger one
  for a negative number and chooses a server itself); the request and the answer fit with
  their headers in a frame of 1 MiB, which an answer with a large dump of the world need not.\<close>
theorem battle_request_answered:
  assumes "serving c s" and "m_state s = Registered" and "m_transport s = Some t" and "pb_laws (rt (cenv env))"
    and "0 < sint i" and "length pl + 65 \<le> 2 ^ 20"
    and "onBattleCreate env \<lparr>cmd = kBackendCmdBusiness, msgId = BattleCreateReq_Id, serial = - i, sessionId = 0, payload = pl\<rparr> s
      = (Some resp, s1)" and "length (sm_payload resp) + 65 \<le> 2 ^ 20"
    and "unat insA < 2 ^ 31" and "findi (ucast kServiceIdGame) insA" and "opened (ucast kServiceIdGame) insA"
  shows "\<exists>bs w. handleNetworkEvent (cenv env) (Some (battle_delegate env)) (Ev_Packet (drop 4
        (forwarded (rt (cenv env)) kServiceIdBattle (cfg_server_instanceId c) kServiceIdGame insA
          (encodeBackendFrame kBackendCmdBusiness BattleCreateReq_Id (- i) 0 pl)))) s = emit [YWrite t bs w] s1
    \<and> gateway_receive (rt (cenv env)) (Some (kServiceIdBattle, cfg_server_instanceId c)) findi sel opened bs =
        Some (Inr (ucast kServiceIdGame, insA, forwarded (rt (cenv env)) kServiceIdGame insA kServiceIdBattle (cfg_server_instanceId c)
          (encodeBackendFrame kBackendCmdBusiness BattleCreateResp_Id i 0 (sm_payload resp))))"
proof -
  have "0 \<le> sint insA" using assms(9) by (intro sint_nonneg_small)
  then have sel: "select_target findi sel (ucast kServiceIdGame) insA = Inr insA"
    using assms(10) by (simp add: select_target_def)
  note conn = server_state_connection [OF assms(1,7)]
  have msg: "sm_msgId resp = BattleCreateResp_Id"
    using battle_resp_id [OF assms(7)] .
  let ?inner = "encodeBackendFrame kBackendCmdBusiness BattleCreateResp_Id i 0 (sm_payload resp)"
  obtain bs w where bs: "handleNetworkEvent (cenv env) (Some (battle_delegate env)) (Ev_Packet (drop 4
      (forwarded (rt (cenv env)) kServiceIdBattle (cfg_server_instanceId c) kServiceIdGame insA
          (encodeBackendFrame kBackendCmdBusiness BattleCreateReq_Id (- i) 0 pl)))) s = emit [YWrite t bs w] s1"
    "bs = encodeBackendFrame kBackendCmdControl ForwardToServerReq_Id i 0 (ForwardToServerReq_serialize (rt (cenv env))
      (forward_req (m_config s1) \<lparr>serviceId = kServiceIdGame, instanceId = insA\<rparr> ?inner))"
    using forwarded_request_served [OF assms(4,5,6,8,2), of s1 t "battle_delegate env" kServiceIdGame insA BattleCreateReq_Id
        kServiceIdBattle "cfg_server_instanceId c"] assms(3,7) conn(1)
    unfolding server_onServerRequest_create msg by auto
  have "length ?inner + 50 \<le> 2 ^ 20" using assms(8) by (simp add: length_encode)
  then have "gateway_receive (rt (cenv env)) (Some (kServiceIdBattle, cfg_server_instanceId c)) findi sel opened bs =
        Some (Inr (ucast kServiceIdGame, insA, forwarded (rt (cenv env)) kServiceIdGame insA kServiceIdBattle (cfg_server_instanceId c) ?inner))"
    using gateway_receive_forward [OF assms(4), of ?inner findi sel "\<lparr>serviceId = kServiceIdGame, instanceId = insA\<rparr>" insA opened]
      sel assms(11) bs(2) by simp
  with bs(1) show ?thesis by blast
qed

text \<open>An answer without a room is short.\<close>

lemma plain_answer:
  assumes "pb_laws (rt (cenv env))" and "length message \<le> 100"
  shows "\<exists>p. makeBattleCreateResp env code message None 0 s = Some \<lparr>sm_msgId = BattleCreateResp_Id, sm_payload = p\<rparr> \<and> length p \<le> 200"
proof -
  let ?rt = "rt (cenv env)" and ?m = "battle_create_resp env code message None 0 s"
  have "LengthDelimitedSize ?rt (length message) \<le> length message + 5"
    using assms(2) by (intro pb_laws.block_bound [OF assms(1)]) simp
  then have "BattleCreateResp_ByteSizeLong ?rt ?m \<le> 200"
    using pb_laws.int32_bound [OF assms(1), of code] assms(2)
    by (simp add: BattleCreateResp_ByteSizeLong_def battle_create_resp_def BattleCreateResp_default_def str_bytes_def)
  then show ?thesis
    using pb_laws.BattleCreateResp_size [OF assms(1), of ?m]
    by (simp add: makeBattleCreateResp_def makeSerializedMessage_def SerializeToString_BattleCreateResp_def serialize_to_string_def)
qed

theorem battle_request_answered_witness:
  "\<exists>p bs w. handleNetworkEvent (cenv sample_env) (Some (battle_delegate sample_env)) (Ev_Packet (drop 4
        (forwarded wire_rt kServiceIdBattle 1 kServiceIdGame 5
          (encodeBackendFrame kBackendCmdBusiness BattleCreateReq_Id (- 1) 0 (payload (sample_frame 9 43)))))) (sample_server 0 [])
      = emit [YWrite 1 bs w] ((sample_server 0 [])\<lparr>m_randomSeed := 0xBA771F, m_roomManager := Some (new_BattleRoomManager 0 200)\<rparr>)
    \<and> gateway_receive wire_rt (Some (kServiceIdBattle, 1)) (\<lambda>_ _. True) (\<lambda>_. None) (\<lambda>_ _. True) bs =
        Some (Inr (ucast kServiceIdGame, 5, forwarded wire_rt kServiceIdGame 5 kServiceIdBattle 1
          (encodeBackendFrame kBackendCmdBusiness BattleCreateResp_Id 1 0 p)))"
proof -
  let ?env = "sample_env :: (nat, (u32, u32) umap \<times> nat) battle_env"
  let ?s1 = "(sample_server 0 [])\<lparr>m_randomSeed := 0xBA771F, m_roomManager := Some (new_BattleRoomManager 0 200)\<rparr>"
  have laws: "pb_laws (rt (cenv ?env))" by (simp add: wire.pb_laws_axioms)
  obtain p where p: "makeBattleCreateResp ?env 3 ''create battle failed'' None 0 ?s1
      = Some \<lparr>sm_msgId = BattleCreateResp_Id, sm_payload = p\<rparr>" "length p \<le> 200"
    using plain_answer [OF laws, of "''create battle failed''" 3 ?s1] by auto
  have len: "length (payload (sample_frame 9 43)) + 65 \<le> 2 ^ 20"
    using wire.uint32_bound [of 9] wire.block_bound [of 1]
    by (simp add: sample_frame_def sample_req_def BattleCreateReq_default_def BattleCreateReq_serialize_def
        wire.uint32_size wire.message_size del: wire_env_simps)
  have parse: "BattleCreateReq_parse wire_rt (parse_BattlePlayerSpec ?env) (payload (sample_frame 9 43)) = Some (sample_req 9 43)"
    by (rule sample_frame_parse) simp
  have create: "onBattleCreate ?env \<lparr>cmd = kBackendCmdBusiness, msgId = BattleCreateReq_Id, serial = - 1, sessionId = 0,
      payload = payload (sample_frame 9 43)\<rparr> (sample_server 0 []) = (Some \<lparr>sm_msgId = BattleCreateResp_Id, sm_payload = p\<rparr>, ?s1)"
    using p(1)
    by (simp add: onBattleCreate_def Let_def parse sample_server_eq findRoom_def new_BattleRoomManager_def createRoom_def
        sample_req_def BattleCreateReq_default_def)
  have ins: "unat (5 :: u32) < 2 ^ 31" by simp
  have c: "cfg_server_instanceId (sample_config_server 0) = 1"
    by (simp add: sample_config_server_def default_BattleServerConfig_def)
  have small: "length (sm_payload \<lparr>sm_msgId = BattleCreateResp_Id, sm_payload = p\<rparr>) + 65 \<le> 2 ^ 20"
    using p(2) by simp
  have pos: "0 < sint (1 :: i32)" by simp
  show ?thesis
    using battle_request_answered [where opened = "\<lambda>_ _. True" and findi = "\<lambda>_ _. True" and sel = "\<lambda>_. None",
        OF sample_serving sample_server_eq(3,2) laws pos len create small ins]
    unfolding c rt_wire_env sample_env_simps SerializedMessage.simps by auto
qed

end
