(* ===== verification/IoSend.thy ===== *)
theory IoSend
  imports IoService ServerEvents
begin

section \<open>What leaves the socket\<close>

text \<open>
  The sending side of \<open>IoService\<close>: the bytes a connection accepts are those of the frames
  written, in order, and the frames reach a reading end (\<open>FrameStream\<close>) as they were written.
  And what it means for the battle server that closing a connection drops what is still queued:
  the frames its shutdown writes.
\<close>

subsection \<open>Sending in order\<close>

definition unsent :: "io_transport \<Rightarrow> bytes" where
  "unsent t = concat (map (\<lambda>op. drop (op_offset op) (op_buffer op)) (tr_send_queue t))"

definition send_inv :: "io_transport \<Rightarrow> bool" where
  "send_inv t \<longleftrightarrow> tr_sent t @ unsent t = tr_written t \<and>
     (\<forall>op \<in> set (tr_send_queue t). op_offset op < length (op_buffer op))"

text \<open>\<open>send\<close> accepts no more bytes than it is given.\<close>

definition accepted_fits :: "send_result \<Rightarrow> io_transport \<Rightarrow> bool" where
  "accepted_fits w t \<longleftrightarrow> (case (w, tr_send_queue t) of
     (Accepted n, op # _) \<Rightarrow> n \<le> length (op_buffer op) - op_offset op | _ \<Rightarrow> True)"

lemma tr_write_inv:
  "send_inv t \<Longrightarrow> buffer \<noteq> [] \<Longrightarrow> send_inv (tr_write buffer t)"
  by (auto simp: send_inv_def tr_write_def unsent_def)

lemma call_write_inv:
  assumes "send_inv t" and "tr_send_queue t = op # ops" and "accepted_fits w t" and "call_write w op t = (n, e, t')"
  shows "send_inv t'" and "tr_written t' = tr_written t"
    and "w = Accepted m \<Longrightarrow> length (unsent t') = length (unsent t) - m" and "n < 0 \<Longrightarrow> tr_sent t' = tr_sent t"
proof -
  have off: "op_offset op < length (op_buffer op)" and inv: "tr_sent t @ unsent t = tr_written t"
    and ops: "\<forall>op \<in> set ops. op_offset op < length (op_buffer op)"
    using assms(1,2) by (auto simp: send_inv_def)
  have "send_inv t' \<and> tr_written t' = tr_written t \<and> (w = Accepted m \<longrightarrow> length (unsent t') = length (unsent t) - m) \<and>
    (n < 0 \<longrightarrow> tr_sent t' = tr_sent t)"
  proof (cases w)
    case (SendFailed e')
    with assms(1,4) show ?thesis by (auto simp: call_write_def split: if_splits)
  next
    case (Accepted l)
    show ?thesis
    proof (cases "l = 0")
      case True
      with Accepted assms(1,4) show ?thesis by (auto simp: call_write_def)
    next
      case False
      let ?rest = "drop (op_offset op) (op_buffer op)"
      have l: "l \<le> length ?rest" using assms(2,3) Accepted by (simp add: accepted_fits_def)
      have u: "unsent t = ?rest @ concat (map (\<lambda>op. drop (op_offset op) (op_buffer op)) ops)"
        using assms(2) by (simp add: unsent_def)
      let ?t = "t\<lparr>tr_send_queue := op\<lparr>op_offset := op_offset op + l\<rparr> # ops, tr_sent := tr_sent t @ take l ?rest\<rparr>"
      have t': "t' = (if op_offset op + l = length (op_buffer op) then complete_op ?t else ?t)"
        using assms(2,4) Accepted False by (simp add: call_write_def Let_def)
      have "drop (op_offset op + l) (op_buffer op) = drop l ?rest" by (simp add: add.commute)
      then have u': "unsent t' = drop l ?rest @ concat (map (\<lambda>op. drop (op_offset op) (op_buffer op)) ops)"
        unfolding t' by (auto simp: unsent_def complete_op_def)
      have s': "tr_sent t' = tr_sent t @ take l ?rest" "tr_written t' = tr_written t"
        unfolding t' by (simp_all add: complete_op_def)
      have "tr_sent t' @ unsent t' = tr_sent t @ (take l ?rest @ drop l ?rest) @
          concat (map (\<lambda>op. drop (op_offset op) (op_buffer op)) ops)"
        unfolding s' u' by (simp only: append_assoc)
      also have "\<dots> = tr_written t'" by (simp only: append_take_drop_id inv [unfolded u] s'(2))
      finally have "tr_sent t' @ unsent t' = tr_written t'" .
      moreover have "\<forall>op \<in> set (tr_send_queue t'). op_offset op < length (op_buffer op)"
        using ops l off by (auto simp: t' complete_op_def)
      moreover have "\<not> n < 0" using assms(4) Accepted by (auto simp: call_write_def Let_def split: if_splits)
      ultimately show ?thesis
        using l Accepted unfolding send_inv_def u u' by (auto simp: t' complete_op_def)
    qed
  qed
  then show "send_inv t'" "tr_written t' = tr_written t" "w = Accepted m \<Longrightarrow> length (unsent t') = length (unsent t) - m"
    "n < 0 \<Longrightarrow> tr_sent t' = tr_sent t" by simp_all
qed

lemma send_inv_pollout: "send_inv (t\<lparr>tr_pollout := b\<rparr>) = send_inv t" "unsent (t\<lparr>tr_pollout := b\<rparr>) = unsent t"
  by (simp_all add: send_inv_def unsent_def)

lemma tr_do_write_step:
  assumes "send_inv t" and "accepted_fits w t" and "tr_do_write True w wait t = Inr (wait', t')"
  shows "send_inv t'" and "tr_written t' = tr_written t"
    and "w = Accepted m \<Longrightarrow> length (unsent t') = length (unsent t) - m"
proof -
  have "send_inv t' \<and> tr_written t' = tr_written t \<and> (w = Accepted m \<longrightarrow> length (unsent t') = length (unsent t) - m)"
  proof (cases "tr_send_queue t")
    case Nil
    with assms show ?thesis by (auto simp: tr_do_write_def Let_def send_inv_pollout unsent_def split: if_splits)
  next
    case (Cons op ops)
    obtain n e t1 where c: "call_write w op t = (n, e, t1)" by (cases "call_write w op t")
    note i = call_write_inv [OF assms(1) Cons assms(2) c]
    have "t' = t1 \<or> t' = t1\<lparr>tr_pollout := True\<rparr> \<or> t' = t1\<lparr>tr_pollout := False\<rparr>"
      using assms(3) Cons c by (auto simp: tr_do_write_def Let_def split: if_splits)
    then show ?thesis using i(1,2) i(3) [of m] by (elim disjE) (simp_all add: send_inv_pollout)
  qed
  then show "send_inv t'" "tr_written t' = tr_written t" "w = Accepted m \<Longrightarrow> length (unsent t') = length (unsent t) - m"
    by simp_all
qed

text \<open>A connection in use: frames are written, and the loop sends once in every turn.\<close>

datatype send_step = WriteFrame BackendFrame | SendTurn send_result

fun send_run :: "send_step list \<Rightarrow> io_transport \<Rightarrow> io_transport option" where
  "send_run [] t = Some t"
| "send_run (WriteFrame fr # ss) t = send_run ss (tr_write (encode_frame fr) t)"
| "send_run (SendTurn w # ss) t =
     (case tr_do_write True w 0 t of Inl t' \<Rightarrow> None | Inr (wait, t') \<Rightarrow> send_run ss t')"

fun sends_fit :: "send_step list \<Rightarrow> io_transport \<Rightarrow> bool" where
  "sends_fit [] t \<longleftrightarrow> True"
| "sends_fit (WriteFrame fr # ss) t \<longleftrightarrow> sends_fit ss (tr_write (encode_frame fr) t)"
| "sends_fit (SendTurn w # ss) t \<longleftrightarrow> accepted_fits w t \<and>
     (case tr_do_write True w 0 t of Inl t' \<Rightarrow> True | Inr (wait, t') \<Rightarrow> sends_fit ss t')"

fun frames_of :: "send_step list \<Rightarrow> BackendFrame list" where
  "frames_of [] = []"
| "frames_of (WriteFrame fr # ss) = fr # frames_of ss"
| "frames_of (SendTurn w # ss) = frames_of ss"

lemma frames_of_append: "frames_of (xs @ ys) = frames_of xs @ frames_of ys"
  by (induction xs rule: frames_of.induct) simp_all

lemma encode_frame_nonempty: "small_frame fr \<Longrightarrow> encode_frame fr \<noteq> []"
  using encode_frame_length(1) [of fr] by auto

lemma send_run_inv:
  assumes "send_inv t" and "send_run ss t = Some t'" and "sends_fit ss t" and "\<forall>fr\<in>set (frames_of ss). small_frame fr"
  shows "send_inv t' \<and> tr_written t' = tr_written t @ concat (map encode_frame (frames_of ss))"
  using assms
proof (induction ss t rule: send_run.induct)
  case (1 t)
  then show ?case by simp
next
  case (2 fr ss t)
  have "send_inv (tr_write (encode_frame fr) t)"
    using 2(2,5) by (intro tr_write_inv) (simp_all add: encode_frame_nonempty)
  moreover have "tr_written (tr_write (encode_frame fr) t) = tr_written t @ encode_frame fr"
    by (simp add: tr_write_def)
  ultimately show ?case using 2 by simp
next
  case (3 w ss t)
  then obtain wait t1 where t1: "tr_do_write True w 0 t = Inr (wait, t1)"
    by (auto split: sum.splits)
  with 3 tr_do_write_step(1,2) [OF 3(2) _ t1] show ?case by simp
qed

lemma send_run_append:
  "send_run (xs @ ys) t = (case send_run xs t of None \<Rightarrow> None | Some t' \<Rightarrow> send_run ys t')"
  by (induction xs t rule: send_run.induct) (simp_all split: sum.split prod.split)

lemma sends_fit_append:
  "send_run xs t = Some t' \<Longrightarrow> sends_fit (xs @ ys) t \<Longrightarrow> sends_fit xs t \<and> sends_fit ys t'"
  by (induction xs t rule: send_run.induct) (auto split: sum.splits)

lemma flush_all:
  assumes "send_inv t" and "send_run (map (SendTurn \<circ> Accepted) ns) t = Some t'"
    and "sends_fit (map (SendTurn \<circ> Accepted) ns) t" and "\<forall>n\<in>set ns. 0 < n" and "length (unsent t) \<le> length ns"
  shows "unsent t' = []"
  using assms
proof (induction ns arbitrary: t)
  case Nil
  then show ?case by simp
next
  case (Cons n ns)
  then obtain wait t1 where t1: "tr_do_write True (Accepted n) 0 t = Inr (wait, t1)"
    by (auto split: sum.splits)
  note s = tr_do_write_step [OF Cons.prems(1) _ t1]
  have "length (unsent t1) \<le> length ns"
    using s(3) [of n] Cons.prems by (auto split: sum.splits) 
  then show ?case using Cons.IH [of t1] s(1) Cons.prems t1 by simp
qed

text \<open>C15. Frames arrive as they were written. On a connection that stays open, whatever bytes the
  system accepts in each turn, the bytes that leave are the encodings of the frames written, in
  order, with nothing lost, doubled or mixed: they and the bytes still queued are the frames
  written. A peer that reads them with the same library, in pieces cut anywhere, handles the first
  of these frames, in order. Once turns that accept something outnumber the bytes queued, all has
  left, and a peer that has read all and polls once per frame has handled every frame.\<close>
theorem frames_arrive:
  assumes "send_run steps new_io_transport = Some t" and "sends_fit steps new_io_transport"
    and "\<forall>fr\<in>set (frames_of steps). small_frame fr"
    and "concat (map received rs) @ rest = tr_sent t" and "\<forall>r\<in>set rs. alive r"
    and "reads_fit client_uparams rs new_transport"
  shows "tr_sent t @ unsent t = concat (map encode_frame (frames_of steps)) \<and>
    (\<exists>k. k \<le> length (frames_of steps) \<and>
      fst (transport_events client_uparams rs new_transport) = map frame_event (take k (frames_of steps)) \<and>
      fold (handleNetworkEvent env dl) (map frame_event (take k (frames_of steps))) s
        = fold (processFrame env dl) (take k (frames_of steps)) s \<and>
      (unsent t = [] \<and> rest = [] \<and> (\<exists>rs'. rs = rs' @ replicate (length (frames_of steps)) (RecvFailed 11))
        \<longrightarrow> k = length (frames_of steps))) \<and>
    ((\<exists>steps' ns u. steps = steps' @ map (SendTurn \<circ> Accepted) ns \<and> (\<forall>n\<in>set ns. 0 < n) \<and>
        send_run steps' new_io_transport = Some u \<and> length (unsent u) \<le> length ns) \<longrightarrow> unsent t = [])"
proof (intro conjI)
  have new: "send_inv new_io_transport" by (simp add: send_inv_def new_io_transport_def unsent_def)
  note inv = send_run_inv [OF new assms(1-3)]
  have w: "tr_sent t @ unsent t = concat (map encode_frame (frames_of steps))"
    using inv by (simp add: send_inv_def new_io_transport_def)
  then show "tr_sent t @ unsent t = concat (map encode_frame (frames_of steps))" .
  have bytes: "concat (map received rs) @ rest @ unsent t = concat (map encode_frame (frames_of steps))"
    using assms(4) w by (metis append_assoc)
  from stream_frames [OF assms(3,5) bytes assms(6), of env dl s]
  show "\<exists>k. k \<le> length (frames_of steps) \<and>
      fst (transport_events client_uparams rs new_transport) = map frame_event (take k (frames_of steps)) \<and>
      fold (handleNetworkEvent env dl) (map frame_event (take k (frames_of steps))) s
        = fold (processFrame env dl) (take k (frames_of steps)) s \<and>
      (unsent t = [] \<and> rest = [] \<and> (\<exists>rs'. rs = rs' @ replicate (length (frames_of steps)) (RecvFailed 11))
        \<longrightarrow> k = length (frames_of steps))"
    by (metis append_Nil fst_conv)
  show "(\<exists>steps' ns u. steps = steps' @ map (SendTurn \<circ> Accepted) ns \<and> (\<forall>n\<in>set ns. 0 < n) \<and>
        send_run steps' new_io_transport = Some u \<and> length (unsent u) \<le> length ns) \<longrightarrow> unsent t = []"
  proof (intro impI, elim exE conjE)
    fix steps' ns u
    assume steps: "steps = steps' @ map (SendTurn \<circ> Accepted) ns" and ns: "\<forall>n\<in>set ns. 0 < n" "length (unsent u) \<le> length ns"
      and u: "send_run steps' new_io_transport = Some u"
    have t: "send_run (map (SendTurn \<circ> Accepted) ns) u = Some t" using assms(1) u by (simp add: steps send_run_append)
    have f: "sends_fit steps' new_io_transport" "sends_fit (map (SendTurn \<circ> Accepted) ns) u"
      using sends_fit_append [OF u] assms(2) by (simp_all add: steps)
    have "send_inv u" using send_run_inv [OF new u f(1)] assms(3) by (simp add: steps frames_of_append)
    then show "unsent t = []" by (rule flush_all [OF _ t f(2) ns])
  qed
qed

definition sample_steps :: "send_step list" where
  "sample_steps = [WriteFrame (hd sample_frames), SendTurn (Accepted 5), WriteFrame (last sample_frames),
     SendTurn (SendFailed 11), SendTurn (Accepted 12), SendTurn (Accepted 15)]"

lemma sample_frames_eq: "frames_of sample_steps = sample_frames"
  by (simp add: sample_steps_def sample_frames_def)

lemma sample_small: "\<forall>fr\<in>set sample_frames. small_frame fr"
  by (simp add: sample_frames_def small_frame_def kBackendFrameHeaderSize_def)

lemma sample_send:
  "\<exists>t. send_run sample_steps new_io_transport = Some t \<and> tr_sent t = concat (map encode_frame sample_frames) \<and>
     sends_fit sample_steps new_io_transport"
proof -
  have l: "length (encode_frame (hd sample_frames)) = 17" "length (encode_frame (last sample_frames)) = 15"
    using sample_small by (simp_all add: sample_frames_def encode_frame_length)
  have c: "concat (map encode_frame sample_frames) = encode_frame (hd sample_frames) @ encode_frame (last sample_frames)"
    by (simp add: sample_frames_def)
  obtain B1 where B1: "encode_frame (hd sample_frames) = B1" by simp
  obtain B2 where B2: "encode_frame (last sample_frames) = B2" by simp
  have "take 5 B1 @ take 12 (drop 5 B1) = take 17 B1" by (simp flip: take_add)
  then have s: "take 5 B1 @ take 12 (drop 5 B1) = B1" using l B1 by simp
  have t: "take 15 B2 = B2" using l B2 by simp
  have m: "not_send_error 11" by (simp add: not_send_error_def EWOULDBLOCK_def)
  show ?thesis
    unfolding c using l m s t unfolding sample_steps_def B1 B2
    by (simp add: B1 B2 new_io_transport_def tr_write_def tr_do_write_def call_write_def Let_def complete_op_def
        accepted_fits_def EWOULDBLOCK_def)
qed

theorem frames_arrive_witness:
  "\<exists>t. send_run sample_steps new_io_transport = Some t \<and>
     fst (transport_events client_uparams ([Received (tr_sent t)] @ [RecvFailed 11, RecvFailed 11]) new_transport)
       = map frame_event sample_frames"
proof -
  obtain t where t: "send_run sample_steps new_io_transport = Some t" "tr_sent t = concat (map encode_frame sample_frames)"
    "sends_fit sample_steps new_io_transport"
    using sample_send by blast
  let ?rs = "[Received (tr_sent t)] @ [RecvFailed 11, RecvFailed 11]"
  have l: "length (tr_sent t) = 32"
    using sample_small by (simp add: t(2) sample_frames_def encode_frame_length)
  have small: "\<forall>fr\<in>set (frames_of sample_steps). small_frame fr" using sample_small by (simp add: sample_frames_eq)
  have bytes: "concat (map received ?rs) @ [] = tr_sent t" by simp
  have alive: "\<forall>r\<in>set ?rs. alive r"
    using l by (auto simp: alive_def call_read_def not_recv_error_def)
  have fit: "reads_fit client_uparams ?rs new_transport"
    by (rule reads_fit_small) (simp add: l new_transport_def kMaxRcvbuf_def)
  have two: "\<exists>rs'. ?rs = rs' @ replicate (length (frames_of sample_steps)) (RecvFailed 11)"
    by (simp add: sample_frames_eq sample_frames_def)
  have written: "concat (map encode_frame (frames_of sample_steps)) = tr_sent t"
    by (simp add: sample_frames_eq t(2))
  note a = frames_arrive [OF t(1,3) small bytes alive fit, of wire_env None "init_client default_BackendConfig :: nat client"]
  then have "unsent t = []" unfolding written by simp
  with a two t(1) show ?thesis unfolding sample_frames_eq by (metis (no_types, lifting) order_refl take_all)
qed

end
