(* ===== verification/JsonEncodings.thy ===== *)
theory JsonEncodings
  imports Prelude
begin

section \<open>rapidjson: streams and encodings\<close>

text \<open>
  \<open>src/battle/3rd/rapidjson/stream.h\<close> and \<open>encodings.h\<close>: the stream over a zero-terminated
  string, the UTF-8 and UTF-16 encodings and the transcoder between them. \<open>char\<close> is a byte;
  output streams are the bytes put on them. The encoders assert that the code point is a scalar
  value: what the decoders accept is one (\<open>encodings_exact\<close>), and the text says nothing of others.
\<close>

unbundle bit_operations_syntax

subsection \<open>Streams\<close>

text \<open>
  \<open>GenericStringStream\<close>: the units from \<open>src_\<close> on, without the terminating zero, and the
  distance of \<open>src_\<close> from \<open>head_\<close>.
\<close>

record 'c string_stream =
  ss_src :: "'c list"
  ss_tell :: nat

definition Peek :: "'c::zero string_stream \<Rightarrow> 'c" where
  "Peek s = (case ss_src s of [] \<Rightarrow> 0 | c # _ \<Rightarrow> c)"

definition Take :: "'c::zero string_stream \<Rightarrow> 'c \<times> 'c string_stream" where
  "Take s = (Peek s, s\<lparr>ss_src := tl (ss_src s), ss_tell := ss_tell s + 1\<rparr>)"

definition Tell :: "'c string_stream \<Rightarrow> nat" where
  "Tell s = ss_tell s"

definition string_stream_of :: "'c list \<Rightarrow> 'c string_stream" where
  "string_stream_of cs = \<lparr>ss_src = cs, ss_tell = 0\<rparr>"

lemma Peek_simps [simp]:
  "Peek \<lparr>ss_src = [], ss_tell = n\<rparr> = 0" "Peek \<lparr>ss_src = c # cs, ss_tell = n\<rparr> = c"
  by (simp_all add: Peek_def)

lemma Take_simps [simp]:
  "Take \<lparr>ss_src = c # cs, ss_tell = n\<rparr> = (c, \<lparr>ss_src = cs, ss_tell = Suc n\<rparr>)"
  "Take \<lparr>ss_src = [], ss_tell = n\<rparr> = (0, \<lparr>ss_src = [], ss_tell = Suc n\<rparr>)"
  by (simp_all add: Take_def)

lemma Tell_simps [simp]: "Tell \<lparr>ss_src = cs, ss_tell = n\<rparr> = n"
  by (simp add: Tell_def)

subsection \<open>UTF-8\<close>

definition utf8_Encode :: "u32 \<Rightarrow> bytes" where
  "utf8_Encode cp =
     (if cp \<le> 0x7F then [ucast (cp AND 0xFF)]
      else if cp \<le> 0x7FF then
        [ucast (0xC0 OR (drop_bit 6 cp AND 0xFF)), ucast (0x80 OR (cp AND 0x3F))]
      else if cp \<le> 0xFFFF then
        [ucast (0xE0 OR (drop_bit 12 cp AND 0xFF)), ucast (0x80 OR (drop_bit 6 cp AND 0x3F)),
         ucast (0x80 OR (cp AND 0x3F))]
      else
        [ucast (0xF0 OR (drop_bit 18 cp AND 0xFF)), ucast (0x80 OR (drop_bit 12 cp AND 0x3F)),
         ucast (0x80 OR (drop_bit 6 cp AND 0x3F)), ucast (0x80 OR (cp AND 0x3F))])"

text \<open>The table of \<open>GetRange\<close>.\<close>

definition utf8_ranges :: "u8 list" where
  "utf8_ranges = replicate 128 0 @ replicate 16 0x10 @ replicate 16 0x40 @ replicate 32 0x20
     @ [8, 8] @ replicate 30 2
     @ [10] @ replicate 12 3 @ [4, 3, 3] @ [11, 6, 6, 6, 5] @ replicate 11 8"

definition GetRange :: "u8 \<Rightarrow> u8" where
  "GetRange c = utf8_ranges ! unat c"

text \<open>The masks of \<open>RAPIDJSON_TRANS\<close> for the bytes after the first one, by the first one's range.\<close>

definition utf8_masks :: "u8 \<Rightarrow> u8 list option" where
  "utf8_masks kind =
     (if kind = 2 then Some [0x70]
      else if kind = 3 then Some [0x70, 0x70]
      else if kind = 4 then Some [0x50, 0x70]
      else if kind = 5 then Some [0x10, 0x70, 0x70]
      else if kind = 6 then Some [0x70, 0x70, 0x70]
      else if kind = 10 then Some [0x20, 0x70]
      else if kind = 11 then Some [0x60, 0x70, 0x70]
      else None)"

text \<open>\<open>RAPIDJSON_COPY\<close> and \<open>RAPIDJSON_TRANS\<close> of \<open>Decode\<close>, for every mask.\<close>

fun utf8_tail :: "u8 list \<Rightarrow> u32 \<Rightarrow> bool \<Rightarrow> u8 string_stream \<Rightarrow> bool \<times> u32 \<times> u8 string_stream" where
  "utf8_tail [] cp result s = (result, cp, s)"
| "utf8_tail (m # ms) cp result s =
     (let (c, s) = Take s
      in utf8_tail ms (push_bit 6 cp OR (ucast c AND 0x3F)) (result \<and> GetRange c AND m \<noteq> 0) s)"

definition utf8_Decode :: "u8 string_stream \<Rightarrow> bool \<times> u32 \<times> u8 string_stream" where
  "utf8_Decode s =
     (let (c, s) = Take s
      in if c AND 0x80 = 0 then (True, ucast c, s)
         else let kind = GetRange c;
                  cp = (if kind \<ge> 32 then 0 else drop_bit (unat kind) 0xFF AND ucast c)
              in case utf8_masks kind of
                   Some ms \<Rightarrow> utf8_tail ms cp True s
                 | None \<Rightarrow> (False, cp, s))"

text \<open>The same macros of \<open>Validate\<close>: nothing is taken after a zero.\<close>

definition utf8_copy :: "u8 \<Rightarrow> u8 string_stream \<Rightarrow> bytes \<Rightarrow> u8 \<times> u8 string_stream \<times> bytes" where
  "utf8_copy c s os = (if c \<noteq> 0 then let (c, s) = Take s in (c, s, os @ [c]) else (c, s, os))"

fun utf8_check :: "u8 list \<Rightarrow> u8 \<Rightarrow> bool \<Rightarrow> u8 string_stream \<Rightarrow> bytes \<Rightarrow> bool \<times> u8 string_stream \<times> bytes" where
  "utf8_check [] c result s os = (result, s, os)"
| "utf8_check (m # ms) c result s os =
     (let (c, s, os) = utf8_copy c s os in utf8_check ms c (result \<and> GetRange c AND m \<noteq> 0) s os)"

definition utf8_Validate :: "u8 string_stream \<Rightarrow> bytes \<Rightarrow> bool \<times> u8 string_stream \<times> bytes" where
  "utf8_Validate s os =
     (let (c, s, os) = utf8_copy (- 1) s os
      in if c AND 0x80 = 0 then (True, s, os)
         else case utf8_masks (GetRange c) of
                Some ms \<Rightarrow> utf8_check ms c True s os
              | None \<Rightarrow> (False, s, os))"

subsection \<open>UTF-16\<close>

definition utf16_Encode :: "u32 \<Rightarrow> u16 list" where
  "utf16_Encode cp =
     (if cp \<le> 0xFFFF then [ucast cp]
      else let v = cp - 0x10000 in [ucast (drop_bit 10 v OR 0xD800), ucast ((v AND 0x3FF) OR 0xDC00)])"

definition utf16_Decode :: "u16 string_stream \<Rightarrow> bool \<times> u32 \<times> u16 string_stream" where
  "utf16_Decode s =
     (let (c, s) = Take s
      in if c < 0xD800 \<or> c > 0xDFFF then (True, ucast c, s)
         else if c \<le> 0xDBFF then
           let cp = push_bit 10 (ucast c AND 0x3FF); (c, s) = Take s;
               cp = (cp OR (ucast c AND 0x3FF)) + 0x10000
           in (c \<ge> 0xDC00 \<and> c \<le> 0xDFFF, cp, s)
         else (False, 0, s))"

definition utf16_Validate :: "u16 string_stream \<Rightarrow> u16 list \<Rightarrow> bool \<times> u16 string_stream \<times> u16 list" where
  "utf16_Validate s os =
     (let (c, s) = Take s; os = os @ [c]
      in if c < 0xD800 \<or> c > 0xDFFF then (True, s, os)
         else if c \<le> 0xDBFF then
           let (c, s) = Take s; os = os @ [c] in (c \<ge> 0xDC00 \<and> c \<le> 0xDFFF, s, os)
         else (False, s, os))"

subsection \<open>The transcoder\<close>

definition transcode_8_16 :: "u8 string_stream \<Rightarrow> u16 list \<Rightarrow> bool \<times> u8 string_stream \<times> u16 list" where
  "transcode_8_16 s os =
     (let (ok, cp, s) = utf8_Decode s in if \<not> ok then (False, s, os) else (True, s, os @ utf16_Encode cp))"

definition transcode_16_8 :: "u16 string_stream \<Rightarrow> bytes \<Rightarrow> bool \<times> u16 string_stream \<times> bytes" where
  "transcode_16_8 s os =
     (let (ok, cp, s) = utf16_Decode s in if \<not> ok then (False, s, os) else (True, s, os @ utf8_Encode cp))"

text \<open>With the same encoding on both sides one unit is copied.\<close>

definition transcode_8_8 :: "u8 string_stream \<Rightarrow> bytes \<Rightarrow> bool \<times> u8 string_stream \<times> bytes" where
  "transcode_8_8 s os = (let (c, s) = Take s in (True, s, os @ [c]))"


subsection \<open>What is decoded\<close>

text \<open>The arithmetic of the bytes.\<close>

lemma and_3F [simp]: "x AND 0x3F = take_bit 6 (x::'a::len word)"
  by (simp add: take_bit_eq_mask mask_eq_exp_minus_1)

lemma and_FF [simp]: "x AND 0xFF = take_bit 8 (x::'a::len word)"
  by (simp add: take_bit_eq_mask mask_eq_exp_minus_1)

lemma u8_lt: "unat (c::u8) < 256"
proof -
  have "unat c < 2 ^ LENGTH(8)"
    by (rule unsigned_less)
  then show ?thesis
    by simp
qed

lemma unat_ucast_u8: "unat (ucast (x::u32) :: u8) = unat x mod 256"
  by (simp add: unsigned_ucast_eq take_bit_eq_mod)

lemma or_add_word:
  assumes "take_bit k H = 0" "unat x < 2 ^ k"
  shows "H OR x = H + (x::'a::len word)"
proof -
  have "take_bit k (unat x) = unat x"
    using assms(2) by (simp add: take_bit_nat_eq_self)
  then have "take_bit k x = x"
    by (metis unsigned_take_bit_eq unsigned_word_eqI)
  then have "bit x n \<Longrightarrow> n < k" for n
    by (metis bit_take_bit_iff)
  moreover have "bit H n \<Longrightarrow> k \<le> n" for n
    using assms(1) by (metis bit_0_eq bit_take_bit_iff bot_apply bot_bool_def leI)
  ultimately have "H AND x = 0"
    by (intro bit_word_eqI) (simp add: bit_simps, meson leD)
  then show ?thesis
    by (simp add: disjunctive_add_eq_or)
qed

lemma or_byte:
  assumes "take_bit k H = 0" "unat x < 2 ^ k" "unat H + unat x < 256"
  shows "unat (ucast (H OR x) :: u8) = unat H + unat (x::u32)"
  using assms by (simp add: or_add_word unat_ucast_u8 unat_word_ariths)

lemma unat_take6 [simp]: "unat (take_bit 6 (x::'a::len word)) = unat x mod 64"
  by (simp add: unsigned_take_bit_eq) (simp add: take_bit_eq_mod)

lemma unat_take8 [simp]: "unat (take_bit 8 (x::'a::len word)) = unat x mod 256"
  by (simp add: unsigned_take_bit_eq) (simp add: take_bit_eq_mod)

lemma unat_drop: "unat (drop_bit n (x::'a::len word)) = unat x div 2 ^ n"
  by (simp add: unat_drop_bit_eq drop_bit_nat_def)

lemma tail_byte: "unat (ucast (0x80 OR take_bit 6 (x::u32)) :: u8) = 128 + unat x mod 64"
  using or_byte [of 6 "0x80" "take_bit 6 x"] by simp

lemma head_bytes:
  "unat x < 128 \<Longrightarrow> unat (ucast (take_bit 8 (x::u32)) :: u8) = unat x"
  "unat x < 32 \<Longrightarrow> unat (ucast (0xC0 OR take_bit 8 (x::u32)) :: u8) = 192 + unat x"
  "unat x < 16 \<Longrightarrow> unat (ucast (0xE0 OR take_bit 8 (x::u32)) :: u8) = 224 + unat x"
  "unat x < 8 \<Longrightarrow> unat (ucast (0xF0 OR take_bit 8 (x::u32)) :: u8) = 240 + unat x"
  using or_byte [of 5 "0xC0" "take_bit 8 x"] or_byte [of 4 "0xE0" "take_bit 8 x"]
    or_byte [of 3 "0xF0" "take_bit 8 x"] by (simp_all add: unat_ucast_u8)

text \<open>The bytes \<open>utf8_Encode\<close> puts, as numbers.\<close>

definition utf8_bytes :: "nat \<Rightarrow> nat list" where
  "utf8_bytes n =
     (if n < 0x80 then [n]
      else if n < 0x800 then [192 + n div 64, 128 + n mod 64]
      else if n < 0x10000 then [224 + n div 4096, 128 + n div 64 mod 64, 128 + n mod 64]
      else [240 + n div 262144, 128 + n div 4096 mod 64, 128 + n div 64 mod 64, 128 + n mod 64])"

lemma utf8_Encode_bytes:
  assumes "unat cp < 0x110000"
  shows "map unat (utf8_Encode cp) = utf8_bytes (unat cp)"
proof -
  have le: "cp \<le> 0x7F \<longleftrightarrow> unat cp < 0x80" "cp \<le> 0x7FF \<longleftrightarrow> unat cp < 0x800" "cp \<le> 0xFFFF \<longleftrightarrow> unat cp < 0x10000"
    by (auto simp: word_le_nat_alt)
  show ?thesis
    using assms by (simp add: utf8_Encode_def utf8_bytes_def le head_bytes tail_byte unat_drop)
qed

text \<open>The table, by the bytes' numbers.\<close>

definition utf8_range :: "nat \<Rightarrow> u8" where
  "utf8_range n =
     (if n < 0x80 then 0 else if n < 0x90 then 0x10 else if n < 0xA0 then 0x40 else if n < 0xC0 then 0x20
      else if n < 0xC2 then 8 else if n < 0xE0 then 2 else if n = 0xE0 then 10 else if n < 0xED then 3
      else if n = 0xED then 4 else if n < 0xF0 then 3 else if n = 0xF0 then 11 else if n < 0xF4 then 6
      else if n = 0xF4 then 5 else 8)"

lemma GetRange_eq: "GetRange c = utf8_range (unat c)"
proof -
  have "list_all (\<lambda>n. utf8_ranges ! n = utf8_range n) [0..<256]"
    by code_simp
  then have "\<And>n. n < 256 \<Longrightarrow> utf8_ranges ! n = utf8_range n"
    by (simp add: list_all_iff)
  then show ?thesis
    using u8_lt [of c] by (simp add: GetRange_def)
qed

text \<open>The well-formed byte sequences of one character (RFC 3629) and the character they are.\<close>

fun utf8_char :: "nat list \<Rightarrow> nat option" where
  "utf8_char [a] = (if a < 0x80 then Some a else None)"
| "utf8_char [a, b] = (if 0xC2 \<le> a \<and> a < 0xE0 \<and> 0x80 \<le> b \<and> b < 0xC0 then Some ((a - 0xC0) * 64 + (b - 0x80)) else None)"
| "utf8_char [a, b, c] =
     (if (a = 0xE0 \<and> 0xA0 \<le> b \<or> 0xE1 \<le> a \<and> a < 0xED \<or> a = 0xED \<and> b < 0xA0 \<or> 0xEE \<le> a \<and> a < 0xF0)
        \<and> 0x80 \<le> b \<and> b < 0xC0 \<and> 0x80 \<le> c \<and> c < 0xC0
      then Some ((a - 0xE0) * 4096 + (b - 0x80) * 64 + (c - 0x80)) else None)"
| "utf8_char [a, b, c, d] =
     (if (a = 0xF0 \<and> 0x90 \<le> b \<or> 0xF1 \<le> a \<and> a < 0xF4 \<or> a = 0xF4 \<and> b < 0x90)
        \<and> 0x80 \<le> b \<and> b < 0xC0 \<and> 0x80 \<le> c \<and> c < 0xC0 \<and> 0x80 \<le> d \<and> d < 0xC0
      then Some ((a - 0xF0) * 262144 + (b - 0x80) * 4096 + (c - 0x80) * 64 + (d - 0x80)) else None)"
| "utf8_char _ = None"

definition scalar :: "nat \<Rightarrow> bool" where
  "scalar n \<longleftrightarrow> n < 0x110000 \<and> \<not> (0xD800 \<le> n \<and> n < 0xE000)"

lemma sixes:
  fixes n :: nat
  shows "n = n div 64 * 64 + n mod 64" "n div 64 = n div 4096 * 64 + n div 64 mod 64"
    "n div 4096 = n div 262144 * 64 + n div 4096 mod 64"
  using div_mult_mod_eq [of "n div 64" 64] div_mult_mod_eq [of "n div 4096" 64]
  by (simp_all add: div_mult2_eq [symmetric])

lemma utf8_char_bytes:
  assumes "scalar n"
  shows "utf8_char (utf8_bytes n) = Some n"
proof -
  define a b c d where "a = n div 262144" and "b = n div 4096 mod 64" and "c = n div 64 mod 64" and "d = n mod 64"
  have n: "n = a * 262144 + b * 4096 + c * 64 + d"
    using sixes [of n] unfolding a_def b_def c_def d_def by linarith
  have q: "n div 64 = a * 4096 + b * 64 + c" "n div 4096 = a * 64 + b"
    using sixes [of n] unfolding a_def b_def c_def by linarith+
  have bounds: "b < 64" "c < 64" "d < 64"
    by (simp_all add: b_def c_def d_def)
  consider "n < 0x80" | "0x80 \<le> n" "n < 0x800" | "0x800 \<le> n" "n < 0x10000" | "0x10000 \<le> n"
    by linarith
  then show ?thesis
  proof cases
    case 1
    then show ?thesis by (simp add: utf8_bytes_def)
  next
    case 2
    then have ab: "a = 0" "b = 0" using n by linarith+
    with 2 have *: "a = 0" "b = 0" "2 \<le> c" "c < 32" using n bounds by linarith+
    have "utf8_bytes n = [192 + c, 128 + d]"
      using 2 q(1) * by (simp add: utf8_bytes_def d_def)
    then show ?thesis using * n bounds by simp
  next
    case 3
    then have "a = 0" using n by linarith
    with 3 have *: "a = 0" "b < 16" "b = 0 \<longrightarrow> 32 \<le> c" "b = 13 \<longrightarrow> c < 32"
      using n bounds assms unfolding scalar_def by linarith+
    have "utf8_bytes n = [224 + b, 128 + c, 128 + d]"
      using 3 q(2) * by (simp add: utf8_bytes_def c_def d_def)
    moreover have "b = 0 \<and> 32 \<le> c \<or> 1 \<le> b \<and> b < 13 \<or> b = 13 \<and> c < 32 \<or> 14 \<le> b \<and> b < 16"
      using * by linarith
    ultimately show ?thesis using * n bounds by auto
  next
    case 4
    then have *: "a < 5" "a = 0 \<longrightarrow> 16 \<le> b" "a = 4 \<longrightarrow> b < 16"
      using n bounds assms unfolding scalar_def by linarith+
    have "utf8_bytes n = [240 + a, 128 + b, 128 + c, 128 + d]"
      using 4 by (simp add: utf8_bytes_def a_def b_def c_def d_def)
    moreover have "a = 0 \<and> 16 \<le> b \<or> 1 \<le> a \<and> a < 4 \<or> a = 4 \<and> b < 16"
      using * by linarith
    ultimately show ?thesis using * n bounds by auto
  qed
qed

lemma sixes_digits:
  assumes "b < 64" "c < 64" "d < (64::nat)" and n: "n = a * 262144 + b * 4096 + c * 64 + d"
  shows "n mod 64 = d" "n div 64 mod 64 = c" "n div 4096 mod 64 = b" "n div 262144 = a"
    "n div 64 = a * 4096 + b * 64 + c" "n div 4096 = a * 64 + b"
proof -
  have step: "m mod 64 = r \<and> m div 64 = q" if "m = q * 64 + r" "r < 64" for m q r :: nat
    using that by simp
  have 1: "n mod 64 = d \<and> n div 64 = a * 4096 + b * 64 + c"
    by (rule step) (use assms in simp_all)
  have 2: "n div 64 mod 64 = c \<and> n div 64 div 64 = a * 64 + b"
    by (rule step) (use assms 1 in simp_all)
  then have 3: "n div 4096 = a * 64 + b"
    by (simp add: div_mult2_eq [symmetric])
  have 4: "n div 4096 mod 64 = b \<and> n div 4096 div 64 = a"
    by (rule step) (use assms 3 in simp_all)
  then have "n div 262144 = a"
    by (simp add: div_mult2_eq [symmetric])
  then show "n mod 64 = d" "n div 64 mod 64 = c" "n div 4096 mod 64 = b" "n div 262144 = a"
    "n div 64 = a * 4096 + b * 64 + c" "n div 4096 = a * 64 + b"
    using 1 2 3 4 by simp_all
qed

lemma utf8_char_sound:
  assumes "utf8_char bs = Some n"
  shows "scalar n \<and> utf8_bytes n = bs"
proof (cases bs rule: utf8_char.cases)
  case (1 a)
  then show ?thesis using assms by (simp add: scalar_def utf8_bytes_def split: if_splits)
next
  case (2 a b)
  then obtain a' b' where ab: "a = 192 + a'" "b = 128 + b'"
    using assms by (auto split: if_splits simp: le_iff_add)
  then have "2 \<le> a'" "a' < 32" "b' < 64" "n = 0 * 262144 + 0 * 4096 + a' * 64 + b'"
    using 2 assms by (simp_all split: if_splits)
  then show ?thesis
    using 2 ab sixes_digits [of 0 a' b' n 0] by (simp add: scalar_def utf8_bytes_def)
next
  case (3 a b c)
  then obtain a' b' c' where abc: "a = 224 + a'" "b = 128 + b'" "c = 128 + c'"
    using assms by (auto split: if_splits simp: le_iff_add)
  then have *: "a' < 16" "b' < 64" "c' < 64" "n = 0 * 262144 + a' * 4096 + b' * 64 + c'"
    "a' = 0 \<longrightarrow> 32 \<le> b'" "a' = 13 \<longrightarrow> b' < 32"
    using 3 assms by (auto split: if_splits)
  then have "0x800 \<le> n" "n < 0x10000"
    by linarith+
  moreover have "\<not> (0xD800 \<le> n \<and> n < 0xE000)"
    using * by (cases "a' = 13"; cases "a' < 13") linarith+
  ultimately have "scalar n" "0x800 \<le> n" "n < 0x10000"
    by (auto simp: scalar_def)
  then show ?thesis
    using 3 abc * sixes_digits [of a' b' c' n 0] by (simp add: utf8_bytes_def)
next
  case (4 a b c d)
  then obtain a' b' c' d' where abcd: "a = 240 + a'" "b = 128 + b'" "c = 128 + c'" "d = 128 + d'"
    using assms by (auto split: if_splits simp: le_iff_add)
  then have *: "a' < 5" "b' < 64" "c' < 64" "d' < 64" "n = a' * 262144 + b' * 4096 + c' * 64 + d'"
    "a' = 0 \<longrightarrow> 16 \<le> b'" "a' = 4 \<longrightarrow> b' < 16"
    using 4 assms by (auto split: if_splits)
  then have "0x10000 \<le> n" "n < 0x110000"
    by linarith+
  then show ?thesis
    using 4 abcd * sixes_digits [of b' c' d' n a'] by (simp add: scalar_def utf8_bytes_def)
qed (use assms in simp_all)

lemma masks:
  "utf8_range n AND 0x70 \<noteq> 0 \<longleftrightarrow> 0x80 \<le> n \<and> n < 0xC0"
  "utf8_range n AND 0x50 \<noteq> 0 \<longleftrightarrow> 0x80 \<le> n \<and> n < 0xA0"
  "utf8_range n AND 0x10 \<noteq> 0 \<longleftrightarrow> 0x80 \<le> n \<and> n < 0x90"
  "utf8_range n AND 0x20 \<noteq> 0 \<longleftrightarrow> 0xA0 \<le> n \<and> n < 0xC0"
  "utf8_range n AND 0x60 \<noteq> 0 \<longleftrightarrow> 0x90 \<le> n \<and> n < 0xC0"
  by (simp_all add: utf8_range_def)

lemma unat_ucast_u32: "unat (ucast (c::u8) :: u32) = unat c"
  using u8_lt [of c] by (simp add: unsigned_ucast_eq take_bit_nat_eq_self)

lemma acc_step:
  assumes "unat cp < 2 ^ 26"
  shows "unat (push_bit 6 cp OR take_bit 6 (ucast (c::u8)) :: u32) = unat cp * 64 + unat c mod 64"
proof -
  have "unat (push_bit 6 cp) = unat cp * 64"
    using assms by (simp add: push_bit_eq_mult unat_word_ariths)
  moreover have "push_bit 6 cp OR take_bit 6 (ucast c) = push_bit 6 cp + take_bit 6 (ucast c)"
    by (rule or_add_word [of 6]) (simp add: take_bit_push_bit, simp)
  moreover have "unat (take_bit 6 (ucast c :: u32)) = unat c mod 64"
    by (simp add: unat_ucast_u32)
  ultimately show ?thesis
    using assms by (simp add: unat_word_ariths)
qed

text \<open>The first byte of several, and the bytes after it.\<close>

lemma list_all_uptD: "list_all P [a..<b] \<Longrightarrow> a \<le> n \<Longrightarrow> n < b \<Longrightarrow> P n"
  by (auto simp: list_all_iff)

lemma ucast_of_nat: "(ucast (c::u8) :: 'a::len word) = of_nat (unat c)"
  by (simp add: unsigned_def)

lemma head_value:
  fixes c :: u8
  assumes "0xC2 \<le> unat c" "unat c < 0xF5"
  shows "unat (drop_bit (unat (utf8_range (unat c))) 0xFF AND ucast c :: u32) =
    (if unat c < 0xE0 then unat c - 0xC0 else if unat c < 0xF0 then unat c - 0xE0 else unat c - 0xF0)"
proof -
  have "list_all (\<lambda>n. unat (drop_bit (unat (utf8_range n)) 0xFF AND of_nat n :: u32) =
    (if n < 0xE0 then n - 0xC0 else if n < 0xF0 then n - 0xE0 else n - 0xF0)) [0xC2..<0xF5]"
    by code_simp
  from list_all_uptD [OF this assms] show ?thesis
    unfolding ucast_of_nat [where 'a = 32] .
qed

lemma high_bit: "c AND 0x80 = 0 \<longleftrightarrow> unat (c::u8) < 0x80"
proof -
  have "list_all (\<lambda>n. ((of_nat n :: u8) AND 0x80 = 0) = (n < 0x80)) [0..<256]"
    by code_simp
  from list_all_uptD [OF this le0 u8_lt [of c]] show ?thesis
    by simp
qed

lemma utf8_tail_ok:
  "fst (utf8_tail ms cp r \<lparr>ss_src = cs, ss_tell = n\<rparr>) \<longleftrightarrow>
     r \<and> length ms \<le> length cs \<and> (\<forall>i<length ms. GetRange (cs ! i) AND ms ! i \<noteq> 0)"
proof (induction ms arbitrary: cp r cs n)
  case (Cons m ms)
  show ?case
  proof (cases cs)
    case Nil
    have "GetRange 0 AND m = 0"
      by (simp add: GetRange_eq utf8_range_def)
    then show ?thesis
      using Cons [of _ False "[]"] Nil by (simp add: case_prod_beta)
  next
    case (Cons d ds)
    then show ?thesis
      using Cons.IH by (auto simp: case_prod_beta nth_Cons less_Suc_eq_0_disj)
  qed
qed simp

lemma utf8_masks_range:
  "utf8_masks (utf8_range n) =
     (if 0xC2 \<le> n \<and> n < 0xE0 then Some [0x70]
      else if n = 0xE0 then Some [0x20, 0x70] else if n = 0xED then Some [0x50, 0x70]
      else if 0xE1 \<le> n \<and> n < 0xF0 then Some [0x70, 0x70]
      else if n = 0xF0 then Some [0x60, 0x70, 0x70] else if n = 0xF4 then Some [0x10, 0x70, 0x70]
      else if 0xF1 \<le> n \<and> n < 0xF4 then Some [0x70, 0x70, 0x70] else None)"
  by (simp add: utf8_masks_def utf8_range_def)

lemma utf8_Decode_multi:
  assumes "0xC2 \<le> unat c" "unat c < 0xF5"
  shows "\<exists>h. unat h = (if unat c < 0xE0 then unat c - 0xC0 else if unat c < 0xF0 then unat c - 0xE0 else unat c - 0xF0)
    \<and> utf8_Decode \<lparr>ss_src = c # cs, ss_tell = n\<rparr> =
        utf8_tail (the (utf8_masks (utf8_range (unat c)))) h True \<lparr>ss_src = cs, ss_tell = Suc n\<rparr>"
proof -
  have "\<not> utf8_range (unat c) \<ge> 32"
    using assms by (simp add: utf8_range_def)
  moreover have "utf8_masks (utf8_range (unat c)) \<noteq> None"
    using assms by (simp add: utf8_masks_range)
  ultimately show ?thesis
    using assms head_value [OF assms]
    by (auto simp: utf8_Decode_def high_bit GetRange_eq Let_def split: option.splits)
qed

lemma word_nat_eqI: "unat w = v \<Longrightarrow> w = of_nat v"
  by auto

lemma tail_mod: "0x80 \<le> n \<Longrightarrow> n < 0xC0 \<Longrightarrow> n mod 64 = n - (0x80::nat)"
  by (simp add: le_mod_geq)

lemma utf8_Decode_complete:
  assumes "utf8_char (map unat bs) = Some v"
  shows "utf8_Decode \<lparr>ss_src = bs @ ds, ss_tell = n\<rparr> = (True, of_nat v, \<lparr>ss_src = ds, ss_tell = n + length bs\<rparr>)"
proof (cases "map unat bs" rule: utf8_char.cases)
  case (1 a)
  then obtain c where "bs = [c]" "unat c = a" by (auto simp: map_eq_Cons_conv)
  with 1 assms show ?thesis
    by (auto simp: utf8_Decode_def high_bit ucast_of_nat split: if_splits)
next
  case (2 a b)
  then obtain c d where bs: "bs = [c, d]" by (auto simp: map_eq_Cons_conv)
  have c: "0xC2 \<le> unat c" "unat c < 0xE0" "0x80 \<le> unat d" "unat d < 0xC0"
    and v: "v = (unat c - 0xC0) * 64 + (unat d - 0x80)"
    using assms unfolding bs by (simp_all split: if_splits)
  obtain h where h: "unat h = unat c - 0xC0" and D: "utf8_Decode \<lparr>ss_src = c # d # ds, ss_tell = n\<rparr> =
      utf8_tail [0x70] h True \<lparr>ss_src = d # ds, ss_tell = Suc n\<rparr>"
    using utf8_Decode_multi [of c "d # ds" n] c by (auto simp: utf8_masks_range)
  have "push_bit 6 h OR take_bit 6 (ucast d) = (of_nat v :: u32)"
    by (rule word_nat_eqI) (use c h v in \<open>simp add: acc_step tail_mod\<close>)
  then show ?thesis
    unfolding bs using D c by (simp add: GetRange_eq masks)
next
  case (3 a b e)
  then obtain c d f where bs: "bs = [c, d, f]" by (auto simp: map_eq_Cons_conv)
  have c: "0xE0 \<le> unat c" "unat c < 0xF0" "0x80 \<le> unat d" "unat d < 0xC0" "0x80 \<le> unat f" "unat f < 0xC0"
    "unat c = 0xE0 \<Longrightarrow> 0xA0 \<le> unat d" "unat c = 0xED \<Longrightarrow> unat d < 0xA0"
    and v: "v = (unat c - 0xE0) * 4096 + (unat d - 0x80) * 64 + (unat f - 0x80)"
    using assms unfolding bs by (simp_all split: if_splits) linarith+
  obtain h where h: "unat h = unat c - 0xE0" and D: "utf8_Decode \<lparr>ss_src = c # d # f # ds, ss_tell = n\<rparr> =
      utf8_tail (the (utf8_masks (utf8_range (unat c)))) h True \<lparr>ss_src = d # f # ds, ss_tell = Suc n\<rparr>"
    using utf8_Decode_multi [of c "d # f # ds" n] c by auto
  define x where "x = push_bit 6 h OR take_bit 6 (ucast d :: u32)"
  obtain c' d' f' where u: "unat c = 0xE0 + c'" "unat d = 0x80 + d'" "unat f = 0x80 + f'"
    using c(1,3,5) le_Suc_ex by metis
  have x: "unat x = c' * 64 + d'"
    using c h u by (simp add: acc_step tail_mod x_def)
  have "push_bit 6 x OR take_bit 6 (ucast f) = (of_nat v :: u32)"
    by (rule word_nat_eqI) (use c x v u in \<open>simp add: acc_step tail_mod\<close>)
  then show ?thesis
    unfolding bs x_def using D c by (auto simp: GetRange_eq masks utf8_masks_range split: if_splits)
next
  case (4 a b e g)
  then obtain c d f k where bs: "bs = [c, d, f, k]" by (auto simp: map_eq_Cons_conv)
  have c: "0xF0 \<le> unat c" "unat c < 0xF5" "0x80 \<le> unat d" "unat d < 0xC0" "0x80 \<le> unat f" "unat f < 0xC0"
    "0x80 \<le> unat k" "unat k < 0xC0" "unat c = 0xF0 \<Longrightarrow> 0x90 \<le> unat d" "unat c = 0xF4 \<Longrightarrow> unat d < 0x90"
    and v: "v = (unat c - 0xF0) * 262144 + (unat d - 0x80) * 4096 + (unat f - 0x80) * 64 + (unat k - 0x80)"
    using assms unfolding bs by (simp_all split: if_splits) linarith+
  obtain h where h: "unat h = unat c - 0xF0" and D: "utf8_Decode \<lparr>ss_src = c # d # f # k # ds, ss_tell = n\<rparr> =
      utf8_tail (the (utf8_masks (utf8_range (unat c)))) h True \<lparr>ss_src = d # f # k # ds, ss_tell = Suc n\<rparr>"
    using utf8_Decode_multi [of c "d # f # k # ds" n] c by auto
  define x where "x = push_bit 6 h OR take_bit 6 (ucast d :: u32)"
  define y where "y = push_bit 6 x OR take_bit 6 (ucast f :: u32)"
  obtain c' d' f' k' where u: "unat c = 0xF0 + c'" "unat d = 0x80 + d'" "unat f = 0x80 + f'" "unat k = 0x80 + k'"
    using c(1,3,5,7) le_Suc_ex by metis
  have x: "unat x = c' * 64 + d'"
    using c h u by (simp add: acc_step tail_mod x_def)
  have y: "unat y = c' * 4096 + d' * 64 + f'"
    using c x u by (simp add: acc_step tail_mod y_def)
  have "push_bit 6 y OR take_bit 6 (ucast k) = (of_nat v :: u32)"
    by (rule word_nat_eqI) (use c y v u in \<open>simp add: acc_step tail_mod\<close>)
  then show ?thesis
    unfolding bs x_def y_def using D c by (auto simp: GetRange_eq masks utf8_masks_range split: if_splits)
qed (use assms in simp_all)

lemma utf8_Decode_sound:
  assumes "utf8_Decode \<lparr>ss_src = c # cs, ss_tell = n\<rparr> = (True, cp, s)"
  shows "\<exists>bs ds v. c # cs = bs @ ds \<and> utf8_char (map unat bs) = Some v"
proof -
  have ok: "unat c < 0x80 \<or> (\<exists>ms. utf8_masks (utf8_range (unat c)) = Some ms \<and> length ms \<le> length cs \<and>
      (\<forall>i<length ms. utf8_range (unat (cs ! i)) AND ms ! i \<noteq> 0))"
    using assms utf8_tail_ok [of _ _ True cs "Suc n"]
    by (auto simp: utf8_Decode_def high_bit GetRange_eq Let_def split: if_splits option.splits) (metis fst_conv)+
  have split1: "1 \<le> length cs \<Longrightarrow> cs = cs ! 0 # drop 1 cs" and split2: "2 \<le> length cs \<Longrightarrow> cs = cs ! 0 # cs ! 1 # drop 2 cs"
    and split3: "3 \<le> length cs \<Longrightarrow> cs = cs ! 0 # cs ! 1 # cs ! 2 # drop 3 cs"
    by (cases cs; cases "tl cs"; cases "tl (tl cs)"; force)+
  show ?thesis
  proof (cases "unat c < 0x80")
    case True
    then show ?thesis by (intro exI [of _ "[c]"] exI [of _ cs]) simp
  next
    case False
    then obtain ms where ms: "utf8_masks (utf8_range (unat c)) = Some ms" "length ms \<le> length cs"
      and m: "\<And>i. i < length ms \<Longrightarrow> utf8_range (unat (cs ! i)) AND ms ! i \<noteq> 0"
      using ok by auto
    consider "0xC2 \<le> unat c" "unat c < 0xE0" | "0xE0 \<le> unat c" "unat c < 0xF0" | "0xF0 \<le> unat c" "unat c < 0xF5"
      using ms(1) by (auto simp: utf8_masks_range split: if_splits)
    then show ?thesis
    proof cases
      case 1
      then have "ms = [0x70]" using ms by (simp add: utf8_masks_range)
      then show ?thesis
        using 1 ms m [of 0] split1 by (intro exI [of _ "[c, cs ! 0]"] exI [of _ "drop 1 cs"]) (simp add: masks)
    next
      case 2
      then have "length ms = 2" "ms ! 1 = 0x70" "ms ! 0 = (if unat c = 0xE0 then 0x20 else if unat c = 0xED then 0x50 else 0x70)"
        using ms by (auto simp: utf8_masks_range split: if_splits)
      then show ?thesis
        using 2 ms m [of 0] m [of 1] split2
        by (intro exI [of _ "[c, cs ! 0, cs ! 1]"] exI [of _ "drop 2 cs"]) (auto simp: masks split: if_splits)
    next
      case 3
      then have "length ms = 3" "ms ! 1 = 0x70" "ms ! 2 = 0x70"
        "ms ! 0 = (if unat c = 0xF0 then 0x60 else if unat c = 0xF4 then 0x10 else 0x70)"
        using ms by (auto simp: utf8_masks_range split: if_splits)
      then show ?thesis
        using 3 ms m [of 0] m [of 1] m [of 2] split3
        by (intro exI [of _ "[c, cs ! 0, cs ! 1, cs ! 2]"] exI [of _ "drop 3 cs"]) (auto simp: masks split: if_splits)
    qed
  qed
qed

lemma scalar_utf8_char: "scalar n \<longleftrightarrow> utf8_char (utf8_bytes n) = Some n"
  using utf8_char_bytes utf8_char_sound by blast

lemma unat_eqI: "unat v = unat w \<Longrightarrow> v = w"
  by (metis unsigned_word_eqI)

lemma map_unat_eq: "map unat xs = map unat ys \<longleftrightarrow> xs = (ys :: 'a::len word list)"
  by (simp add: inj_map_eq_map inj_unsigned)

lemma utf8_Decode_iff:
  "utf8_Decode \<lparr>ss_src = c # cs, ss_tell = n\<rparr> = (True, cp, s) \<longleftrightarrow>
     scalar (unat cp) \<and> (\<exists>ds. c # cs = utf8_Encode cp @ ds \<and> s = \<lparr>ss_src = ds, ss_tell = n + length (utf8_Encode cp)\<rparr>)"
  (is "?D \<longleftrightarrow> ?E")
proof
  assume D: ?D
  then obtain bs ds v where bs: "c # cs = bs @ ds" "utf8_char (map unat bs) = Some v"
    using utf8_Decode_sound by blast
  then have sc: "scalar v" "utf8_bytes v = map unat bs"
    using utf8_char_sound by auto
  moreover have cp: "cp = of_nat v" "s = \<lparr>ss_src = ds, ss_tell = n + length bs\<rparr>"
    using utf8_Decode_complete [OF bs(2), of ds n] D bs(1) by auto
  moreover have v: "unat cp = v"
    using cp(1) sc(1) by (simp add: scalar_def unat_of_nat)
  ultimately have "map unat (utf8_Encode cp) = map unat bs"
    using utf8_Encode_bytes [of cp] by (simp add: scalar_def)
  then have "utf8_Encode cp = bs"
    by (simp only: map_unat_eq)
  then show ?E
    using bs cp sc v by auto
next
  assume E: ?E
  then have "utf8_char (map unat (utf8_Encode cp)) = Some (unat cp)"
    using utf8_Encode_bytes [of cp] utf8_char_bytes by (simp add: scalar_def)
  from utf8_Decode_complete [OF this] E show ?D
    by auto
qed

lemma utf8_tail_False: "\<not> fst (utf8_tail ms cp False s)"
  by (induction ms arbitrary: cp s) (simp_all add: case_prod_beta)

lemma utf8_check_False: "\<not> fst (utf8_check ms c False s os)"
  by (induction ms arbitrary: c s os) (simp_all add: case_prod_beta)

lemma utf8_check_iff:
  "c \<noteq> 0 \<Longrightarrow> utf8_check ms c r \<lparr>ss_src = cs, ss_tell = n\<rparr> os = (True, s', os') \<longleftrightarrow>
     (\<exists>cp'. utf8_tail ms cp r \<lparr>ss_src = cs, ss_tell = n\<rparr> = (True, cp', s')) \<and> os' = os @ take (length ms) cs"
proof (induction ms arbitrary: c cp r cs n os)
  case (Cons m ms)
  let ?t = "Take \<lparr>ss_src = cs, ss_tell = n\<rparr>"
  have zero: "GetRange 0 AND m = 0"
    by (simp add: GetRange_eq utf8_range_def)
  show ?case
  proof (cases "fst ?t = 0")
    case False
    then obtain d ds where d: "cs = d # ds" "d \<noteq> 0"
      by (cases cs) auto
    show ?thesis
      using Cons.prems d Cons.IH [OF d(2), where r = "r \<and> GetRange d AND m \<noteq> 0" and cs = ds and n = "Suc n"
          and os = "os @ [d]" and cp = "push_bit 6 cp OR take_bit 6 (ucast d)"]
      by (simp add: utf8_copy_def)
  next
    case True
    then have "\<not> fst (utf8_check (m # ms) c r \<lparr>ss_src = cs, ss_tell = n\<rparr> os)"
      "\<not> fst (utf8_tail (m # ms) cp r \<lparr>ss_src = cs, ss_tell = n\<rparr>)"
      using zero Cons.prems by (simp_all add: case_prod_beta utf8_copy_def utf8_tail_False utf8_check_False)
    then show ?thesis
      by auto
  qed
qed auto

lemma utf8_tail_tell: "ss_tell (snd (snd (utf8_tail ms cp r s))) = ss_tell s + length ms"
  by (induction ms arbitrary: cp r s) (simp_all add: case_prod_beta Take_def)

lemma utf8_Validate_iff:
  "utf8_Validate \<lparr>ss_src = c # cs, ss_tell = n\<rparr> os = (True, s, os') \<longleftrightarrow>
     (\<exists>cp. utf8_Decode \<lparr>ss_src = c # cs, ss_tell = n\<rparr> = (True, cp, s) \<and> os' = os @ utf8_Encode cp)"
proof -
  have "utf8_Validate \<lparr>ss_src = c # cs, ss_tell = n\<rparr> os = (True, s, os') \<longleftrightarrow>
     (\<exists>cp. utf8_Decode \<lparr>ss_src = c # cs, ss_tell = n\<rparr> = (True, cp, s)) \<and> os' = os @ take (ss_tell s - n) (c # cs)"
  proof (cases "c AND 0x80 = 0")
    case True
    then show ?thesis
      by (auto simp: utf8_Validate_def utf8_Decode_def utf8_copy_def)
  next
    case False
    then have "c \<noteq> 0" by auto
    show ?thesis
    proof (cases "utf8_masks (GetRange c)")
      case None
      then show ?thesis
        using False by (simp add: utf8_Validate_def utf8_Decode_def utf8_copy_def Let_def)
    next
      case (Some ms)
      let ?h = "if GetRange c \<ge> 32 then 0 else drop_bit (unat (GetRange c)) 0xFF AND ucast c :: u32"
      have "ss_tell s = Suc n + length ms" if "utf8_tail ms ?h True \<lparr>ss_src = cs, ss_tell = Suc n\<rparr> = (True, cp', s)" for cp'
        using utf8_tail_tell [of ms ?h True "\<lparr>ss_src = cs, ss_tell = Suc n\<rparr>"] unfolding that by simp
      then show ?thesis
        using False Some utf8_check_iff [OF \<open>c \<noteq> 0\<close>, of ms True cs "Suc n" "os @ [c]" s os' ?h]
        by (auto simp: utf8_Validate_def utf8_Decode_def utf8_copy_def Let_def)
    qed
  qed
  moreover have "take (ss_tell s - n) (c # cs) = utf8_Encode cp"
    if D: "utf8_Decode \<lparr>ss_src = c # cs, ss_tell = n\<rparr> = (True, cp, s)" for cp
  proof -
    obtain ds where 1: "c # cs = utf8_Encode cp @ ds" and 2: "s = \<lparr>ss_src = ds, ss_tell = n + length (utf8_Encode cp)\<rparr>"
      using D unfolding utf8_Decode_iff by (elim conjE exE)
    show ?thesis
      unfolding 1 2 by simp
  qed
  ultimately show ?thesis
    by metis
qed

text \<open>UTF-16.\<close>

lemma and_3FF [simp]: "x AND 0x3FF = take_bit 10 (x::'a::len word)"
  by (simp add: take_bit_eq_mask mask_eq_exp_minus_1)

lemma unat_take10 [simp]: "unat (take_bit 10 (x::'a::len word)) = unat x mod 1024"
  by (simp add: unsigned_take_bit_eq) (simp add: take_bit_eq_mod)

lemma u16_lt: "unat (c::u16) < 65536"
proof -
  have "unat c < 2 ^ LENGTH(16)"
    by (rule unsigned_less)
  then show ?thesis
    by simp
qed

lemma unat_ucast_u16: "unat (ucast (x::u32) :: u16) = unat x mod 65536"
  by (simp add: unsigned_ucast_eq take_bit_eq_mod)

lemma unat_u16_u32: "unat (ucast (c::u16) :: u32) = unat c"
  using u16_lt [of c] by (simp add: unsigned_ucast_eq take_bit_nat_eq_self)

definition utf16_units :: "nat \<Rightarrow> nat list" where
  "utf16_units n =
     (if n < 0x10000 then [n] else [0xD800 + (n - 0x10000) div 1024, 0xDC00 + (n - 0x10000) mod 1024])"

lemma utf16_Encode_units:
  assumes "unat cp < 0x110000"
  shows "map unat (utf16_Encode cp) = utf16_units (unat cp)"
proof (cases "cp \<le> 0xFFFF")
  case True
  then show ?thesis
    by (simp add: utf16_Encode_def utf16_units_def word_le_nat_alt unat_ucast_u16)
next
  case False
  then have ge: "\<not> unat cp < 0x10000"
    by (simp add: word_le_nat_alt)
  define v where "v = cp - 0x10000"
  have v: "unat v = unat cp - 0x10000"
    using ge unfolding v_def by (subst unat_sub) (simp_all add: word_le_nat_alt)
  then have lt: "unat (drop_bit 10 v) < 1024"
    using assms by (simp add: unat_drop)
  have "drop_bit 10 v OR 0xD800 = 0xD800 + drop_bit 10 v" "take_bit 10 v OR 0xDC00 = 0xDC00 + take_bit 10 v"
    using or_add_word [of 10 "0xD800" "drop_bit 10 v"] or_add_word [of 10 "0xDC00" "take_bit 10 v"] lt
    by (simp_all add: or.commute)
  then show ?thesis
    using False ge v lt by (simp add: utf16_Encode_def utf16_units_def Let_def unat_ucast_u16 unat_word_ariths unat_drop flip: v_def)
qed

lemma utf16_Decode_iff:
  "utf16_Decode \<lparr>ss_src = c # cs, ss_tell = n\<rparr> = (True, cp, s) \<longleftrightarrow>
     scalar (unat cp) \<and> (\<exists>ds. c # cs = utf16_Encode cp @ ds \<and> s = \<lparr>ss_src = ds, ss_tell = n + length (utf16_Encode cp)\<rparr>)"
  (is "?D \<longleftrightarrow> ?E")
proof -
  have units: "scalar (unat cp) \<Longrightarrow> map unat (utf16_Encode cp) = utf16_units (unat cp)" for cp
    by (simp add: utf16_Encode_units scalar_def)
  have cmp: "c < 0xD800 \<longleftrightarrow> unat c < 0xD800" "c > 0xDFFF \<longleftrightarrow> unat c > 0xDFFF" "c \<le> 0xDBFF \<longleftrightarrow> unat c \<le> 0xDBFF"
    "c \<ge> 0xDC00 \<longleftrightarrow> unat c \<ge> 0xDC00" "c \<le> 0xDFFF \<longleftrightarrow> unat c \<le> 0xDFFF" for c :: u16
    by (simp_all add: word_less_nat_alt word_le_nat_alt)
  define pair where "pair c d = (push_bit 10 (take_bit 10 (ucast c)) OR take_bit 10 (ucast d)) + (0x10000 :: u32)" for c d :: u16
  have pair: "unat (pair c d) = c' * 1024 + d' + 0x10000"
    if "unat c = 0xD800 + c'" "c' < 1024" "unat d = 0xDC00 + d'" "d' < 1024" for c d c' d'
  proof -
    have "unat c = 54 * 1024 + c'" "unat d = 55 * 1024 + d'"
      using that by simp_all
    then have "unat c mod 1024 = c'" "unat d mod 1024 = d'"
      using that(2,4) by (simp_all only: mod_mult_self3 mod_less)
    moreover have "push_bit 10 (take_bit 10 (ucast c)) OR take_bit 10 (ucast d) = push_bit 10 (take_bit 10 (ucast c)) + (take_bit 10 (ucast d) :: u32)"
      by (rule or_add_word [of 10]) (simp add: take_bit_push_bit, simp)
    ultimately show ?thesis
      using that unfolding pair_def by (simp add: push_bit_eq_mult unat_word_ariths unat_u16_u32)
  qed
  have eq: "utf16_Decode \<lparr>ss_src = c # cs, ss_tell = n\<rparr> =
      (if unat c < 0xD800 \<or> unat c > 0xDFFF then (True, ucast c, \<lparr>ss_src = cs, ss_tell = Suc n\<rparr>)
       else if unat c \<le> 0xDBFF then
         (case cs of [] \<Rightarrow> (False, pair c 0, \<lparr>ss_src = [], ss_tell = Suc (Suc n)\<rparr>)
          | d # ds \<Rightarrow> (unat d \<ge> 0xDC00 \<and> unat d \<le> 0xDFFF, pair c d, \<lparr>ss_src = ds, ss_tell = Suc (Suc n)\<rparr>))
       else (False, 0, \<lparr>ss_src = cs, ss_tell = Suc n\<rparr>))" for c cs
    by (simp add: utf16_Decode_def cmp pair_def Let_def split: list.splits)
  show ?thesis
  proof
    assume D: ?D
    consider "unat c < 0xD800 \<or> unat c > 0xDFFF" | d ds where "0xD800 \<le> unat c" "unat c \<le> 0xDBFF" "cs = d # ds" "unat d \<ge> 0xDC00" "unat d \<le> 0xDFFF"
      using D unfolding eq by (auto split: if_splits list.splits)
    then show ?E
    proof cases
      case 1
      then have cp: "cp = ucast c" "s = \<lparr>ss_src = cs, ss_tell = Suc n\<rparr>"
        using D unfolding eq by auto
      then have sc: "scalar (unat cp)"
        using 1 u16_lt [of c] by (auto simp: scalar_def unat_u16_u32)
      then have "map unat (utf16_Encode cp) = map unat [c]"
        using 1 u16_lt [of c] cp(1) by (simp add: units utf16_units_def unat_u16_u32)
      then have "utf16_Encode cp = [c]"
        by (simp only: map_unat_eq)
      then show ?E
        using sc cp by simp
    next
      case (2 d ds)
      then obtain c' d' where u: "unat c = 0xD800 + c'" "unat d = 0xDC00 + d'"
        using le_Suc_ex by metis
      then have cp: "cp = pair c d" "s = \<lparr>ss_src = ds, ss_tell = Suc (Suc n)\<rparr>" and v: "unat cp = c' * 1024 + d' + 0x10000"
        and lt: "c' < 1024" "d' < 1024"
        using D 2 pair [of c c' d d'] unfolding eq by auto
      then have sc: "scalar (unat cp)"
        by (simp add: scalar_def)
      then have "map unat (utf16_Encode cp) = map unat [c, d]"
        using u v lt by (simp add: units utf16_units_def)
      then have "utf16_Encode cp = [c, d]"
        by (simp only: map_unat_eq)
      then show ?E
        using sc cp 2 by simp
    qed
  next
    assume E: ?E
    then have sc: "scalar (unat cp)" and m: "map unat (utf16_Encode cp) = utf16_units (unat cp)"
      using units by auto
    obtain ds where ds: "c # cs = utf16_Encode cp @ ds" "s = \<lparr>ss_src = ds, ss_tell = n + length (utf16_Encode cp)\<rparr>"
      using E by (elim conjE exE)
    show ?D
    proof (cases "unat cp < 0x10000")
      case True
      then obtain e where e: "utf16_Encode cp = [e]" "unat e = unat cp"
        using m by (auto simp: utf16_units_def)
      then have "ucast e = cp"
        by (intro unat_eqI) (simp add: unat_u16_u32)
      then show ?D
        using ds e sc unfolding eq by (auto simp: scalar_def)
    next
      case False
      define w where "w = unat cp - 0x10000"
      have w: "unat cp = w + 0x10000" "w < 0x100000"
        using False sc by (auto simp: w_def scalar_def)
      then obtain e f where e: "utf16_Encode cp = [e, f]" "unat e = 0xD800 + w div 1024" "unat f = 0xDC00 + w mod 1024"
        using m by (auto simp: utf16_units_def)
      then have "unat (pair e f) = unat cp"
        using pair [OF e(2) _ e(3)] w by simp
      then have "pair e f = cp"
        by (rule unat_eqI)
      then show ?D
        using ds e w unfolding eq by auto
    qed
  qed
qed

text \<open>What one transcoder writes for a character the other reads back.\<close>

lemma transcode_back:
  assumes "scalar (unat cp)" "utf8_Encode cp = c # cs" "utf16_Encode cp = u # us"
  shows "transcode_8_16 \<lparr>ss_src = c # cs @ ds, ss_tell = n\<rparr> os = (True, \<lparr>ss_src = ds, ss_tell = n + Suc (length cs)\<rparr>, os @ u # us)"
    "transcode_16_8 \<lparr>ss_src = u # us @ es, ss_tell = n\<rparr> os' = (True, \<lparr>ss_src = es, ss_tell = n + Suc (length us)\<rparr>, os' @ c # cs)"
  using assms utf8_Decode_iff [of c "cs @ ds" n cp "\<lparr>ss_src = ds, ss_tell = n + Suc (length cs)\<rparr>"]
    utf16_Decode_iff [of u "us @ es" n cp "\<lparr>ss_src = es, ss_tell = n + Suc (length us)\<rparr>"]
  by (simp_all add: transcode_8_16_def transcode_16_8_def)

text \<open>C22. The codecs of JSON text accept exactly well-formed text. \<open>Decode\<close> of UTF-8 succeeds on a
  stream that is not at its end exactly when the stream starts with what \<open>Encode\<close> puts for the
  character it returns, the character is a Unicode scalar value (at most 0x10FFFF, no
  surrogate), and it takes exactly those bytes: overlong forms, surrogates, stray and missing
  continuation bytes, text cut by the end are all refused. \<open>Validate\<close> accepts the same streams
  and copies exactly the bytes it takes. The same of UTF-16 with its surrogate pairs.\<close>

theorem encodings_exact:
  "(utf8_Decode \<lparr>ss_src = c # cs, ss_tell = n\<rparr> = (True, cp, s) \<longleftrightarrow>
      scalar (unat cp) \<and> (\<exists>ds. c # cs = utf8_Encode cp @ ds \<and> s = \<lparr>ss_src = ds, ss_tell = n + length (utf8_Encode cp)\<rparr>)) \<and>
   (utf8_Validate \<lparr>ss_src = c # cs, ss_tell = n\<rparr> os = (True, s, os') \<longleftrightarrow>
      (\<exists>cp. utf8_Decode \<lparr>ss_src = c # cs, ss_tell = n\<rparr> = (True, cp, s) \<and> os' = os @ utf8_Encode cp)) \<and>
   (utf16_Decode \<lparr>ss_src = u # us, ss_tell = n\<rparr> = (True, cp, t) \<longleftrightarrow>
      scalar (unat cp) \<and> (\<exists>ds. u # us = utf16_Encode cp @ ds \<and> t = \<lparr>ss_src = ds, ss_tell = n + length (utf16_Encode cp)\<rparr>))"
  by (intro conjI utf8_Decode_iff utf8_Validate_iff utf16_Decode_iff)

end
