(* ===== verification/JsonReader.thy ===== *)
theory JsonReader
  imports JsonEncodings Float32
begin

section \<open>rapidjson: the reader\<close>

text \<open>
  \<open>src/battle/3rd/rapidjson/reader.h\<close>, \<open>internal/strtod.h\<close>, \<open>internal/pow10.h\<close>: the parser of
  JSON text, for the UTF-8 encoding on both sides and a stream over a zero-terminated string,
  with the recursive functions and the iterative ones. A handler is a function from the event
  and its state to its answer and its state. \<open>RAPIDJSON_PARSE_ERROR\<close> is the left result: the
  code, the offset and the handler's state. Not modelled: parsing in place, in full precision,
  and numbers as strings. Counts of elements are natural numbers: they fit 32 bits for texts below 4 GiB.
\<close>

unbundle bit_operations_syntax

subsection \<open>Doubles\<close>

text \<open>
  The values the parser computes with are not negative: finite ones in units of \<open>2 ^ -1074\<close>,
  and infinity. Operations round to 53 bits, ties to even.
\<close>

datatype magnitude = Mag nat | MagInf

datatype f64 = F64 bool magnitude | F64NaN

definition d_round :: "nat \<Rightarrow> nat \<Rightarrow> magnitude" where
  "d_round p q =
     (let s = bitlen (p div q) - 53; m = rne p (q * 2 ^ s) * 2 ^ s in if m \<ge> 2 ^ 2098 then MagInf else Mag m)"

definition d_of_nat :: "nat \<Rightarrow> magnitude" where
  "d_of_nat n = d_round (n * 2 ^ 1074) 1"

fun d_add :: "magnitude \<Rightarrow> magnitude \<Rightarrow> magnitude" where
  "d_add (Mag a) (Mag b) = d_round (a + b) 1"
| "d_add _ _ = MagInf"

text \<open>Products and quotients with a finite positive number.\<close>

fun d_mul :: "magnitude \<Rightarrow> magnitude \<Rightarrow> magnitude" where
  "d_mul (Mag a) (Mag b) = d_round (a * b) (2 ^ 1074)"
| "d_mul _ _ = MagInf"

fun d_div :: "magnitude \<Rightarrow> magnitude \<Rightarrow> magnitude" where
  "d_div (Mag a) (Mag b) = d_round (a * 2 ^ 1074) b"
| "d_div _ _ = MagInf"

definition d_positive :: "magnitude \<Rightarrow> bool" where
  "d_positive d \<longleftrightarrow> d \<noteq> Mag 0"

text \<open>The table of \<open>Pow10\<close>; its assertion fails outside 0 to 308.\<close>

definition Pow10 :: "nat \<Rightarrow> magnitude" where
  "Pow10 n = d_of_nat (10 ^ n)"

definition FastPath :: "magnitude \<Rightarrow> int \<Rightarrow> magnitude" where
  "FastPath d e =
     (if e < - 308 then Mag 0 else if e \<ge> 0 then d_mul d (Pow10 (nat e)) else d_div d (Pow10 (nat (- e))))"

definition StrtodNormalPrecision :: "magnitude \<Rightarrow> int \<Rightarrow> magnitude" where
  "StrtodNormalPrecision d p =
     (if p < - 308 then FastPath (FastPath d (- 308)) (p + 308) else FastPath d p)"

subsection \<open>Flags, events and errors\<close>

record parse_flags =
  kParseValidateEncodingFlag :: bool
  kParseIterativeFlag :: bool
  kParseStopWhenDoneFlag :: bool
  kParseCommentsFlag :: bool
  kParseTrailingCommasFlag :: bool
  kParseNanAndInfFlag :: bool
  kParseEscapedApostropheFlag :: bool

definition kParseNoFlags :: parse_flags where
  "kParseNoFlags = \<lparr>kParseValidateEncodingFlag = False, kParseIterativeFlag = False, kParseStopWhenDoneFlag = False,
     kParseCommentsFlag = False, kParseTrailingCommasFlag = False, kParseNanAndInfFlag = False,
     kParseEscapedApostropheFlag = False\<rparr>"

datatype json_event =
    H_Null | H_Bool bool | H_Int i32 | H_Uint u32 | H_Int64 i64 | H_Uint64 u64 | H_Double f64
  | H_String bytes | H_StartObject | H_Key bytes | H_EndObject nat | H_StartArray | H_EndArray nat

type_synonym 'h handler = "json_event \<Rightarrow> 'h \<Rightarrow> bool \<times> 'h"

datatype ParseErrorCode =
    kParseErrorDocumentEmpty | kParseErrorDocumentRootNotSingular | kParseErrorValueInvalid
  | kParseErrorObjectMissName | kParseErrorObjectMissColon | kParseErrorObjectMissCommaOrCurlyBracket
  | kParseErrorArrayMissCommaOrSquareBracket
  | kParseErrorStringUnicodeEscapeInvalidHex | kParseErrorStringUnicodeSurrogateInvalid
  | kParseErrorStringEscapeInvalid | kParseErrorStringMissQuotationMark | kParseErrorStringInvalidEncoding
  | kParseErrorNumberTooBig | kParseErrorNumberMissFraction | kParseErrorNumberMissExponent
  | kParseErrorTermination | kParseErrorUnspecificSyntaxError

type_synonym stream = "u8 string_stream"
type_synonym parse_error = "ParseErrorCode \<times> nat"

text \<open>\<open>RAPIDJSON_PARSE_ERROR_EARLY_RETURN\<close>: go on only without an error.\<close>

definition and_then :: "'e + 'a \<Rightarrow> ('a \<Rightarrow> 'e + 'b) \<Rightarrow> 'e + 'b" where
  "and_then r f = (case r of Inl e \<Rightarrow> Inl e | Inr x \<Rightarrow> f x)"

lemma and_then_simps [simp]: "and_then (Inl e) f = Inl e" "and_then (Inr x) f = f x"
  by (simp_all add: and_then_def)

text \<open>An event; the parsing ends at the offset when the handler says so.\<close>

definition send_event :: "'h handler \<Rightarrow> json_event \<Rightarrow> nat \<Rightarrow> stream \<times> 'h \<Rightarrow> parse_error \<times> 'h + stream \<times> 'h" where
  "send_event hnd ev off = (\<lambda>(s, h). let (ok, h) = hnd ev h in if ok then Inr (s, h) else Inl ((kParseErrorTermination, off), h))"

text \<open>A step that does not call the handler.\<close>

definition quiet :: "parse_error + stream \<Rightarrow> 'h \<Rightarrow> parse_error \<times> 'h + stream \<times> 'h" where
  "quiet r h = (case r of Inl e \<Rightarrow> Inl (e, h) | Inr s \<Rightarrow> Inr (s, h))"

lemma quiet_simps [simp]: "quiet (Inl e) h = Inl (e, h)" "quiet (Inr s) h = Inr (s, h)"
  by (simp_all add: quiet_def)

subsection \<open>Characters\<close>

definition Consume :: "u8 \<Rightarrow> stream \<Rightarrow> bool \<times> stream" where
  "Consume expect s = (if Peek s = expect then (True, snd (Take s)) else (False, s))"

lemma Peek_nonzero: "Peek s \<noteq> 0 \<Longrightarrow> length (ss_src (snd (Take s))) < length (ss_src s)"
  by (auto simp: Peek_def Take_def split: list.splits)

definition is_whitespace :: "u8 \<Rightarrow> bool" where
  "is_whitespace c \<longleftrightarrow> c = 32 \<or> c = 10 \<or> c = 13 \<or> c = 9"

definition is_digit :: "u8 \<Rightarrow> bool" where
  "is_digit c \<longleftrightarrow> 48 \<le> c \<and> c \<le> 57"

lemma class_nonzero [simp]: "\<not> is_whitespace 0" "\<not> is_digit 0"
  by (simp_all add: is_whitespace_def is_digit_def)

lemma class_shorter:
  "is_whitespace (Peek s) \<Longrightarrow> length (ss_src (snd (Take s))) < length (ss_src s)"
  "is_digit (Peek s) \<Longrightarrow> length (ss_src (snd (Take s))) < length (ss_src s)"
  by (metis Peek_nonzero class_nonzero)+

function SkipWhitespace :: "stream \<Rightarrow> stream" where
  "SkipWhitespace s = (if is_whitespace (Peek s) then SkipWhitespace (snd (Take s)) else s)"
  by pat_completeness auto

termination
  by (relation "measure (\<lambda>s. length (ss_src s))") (simp_all add: class_shorter)

declare SkipWhitespace.simps [simp del]


text \<open>The rest of a block comment after its start, and of a line comment.\<close>

function block_comment :: "stream \<Rightarrow> parse_error + stream" where
  "block_comment s =
     (if Peek s = 0 then Inl (kParseErrorUnspecificSyntaxError, Tell s)
      else if Peek s = 42 then
        let s = snd (Take s) in if Peek s = 47 then Inr (snd (Take s)) else block_comment s
      else block_comment (snd (Take s)))"
  by pat_completeness auto

termination
  by (relation "measure (\<lambda>s. length (ss_src s))") (auto simp: Peek_nonzero)

declare block_comment.simps [simp del]

function line_comment :: "stream \<Rightarrow> stream" where
  "line_comment s =
     (if Peek s = 0 then s
      else let (c, s') = Take s in if c \<noteq> 10 then line_comment s' else s')"
  by pat_completeness auto

termination
proof (relation "measure (\<lambda>s. length (ss_src s))")
  fix s x s' and c :: u8
  assume "Peek s \<noteq> 0" "x = Take s" "(c, s') = x"
  then show "(s', s) \<in> measure (\<lambda>s. length (ss_src s))"
    using Peek_nonzero [of s] by (metis in_measure snd_conv)
qed simp

declare line_comment.simps [simp del]

lemma SkipWhitespace_length: "length (ss_src (SkipWhitespace s)) \<le> length (ss_src s)"
proof (induction s rule: SkipWhitespace.induct)
  case (1 s)
  show ?case
    using 1 class_shorter(1) [of s]
    by (cases "is_whitespace (Peek s)") (auto simp: SkipWhitespace.simps [of s])
qed

lemma block_comment_length: "block_comment s = Inr t \<Longrightarrow> length (ss_src t) < length (ss_src s)"
proof (induction s rule: block_comment.induct)
  case (1 s)
  let ?s = "snd (Take s)"
  have nz: "Peek s \<noteq> 0"
    using "1.prems" by (auto simp: block_comment.simps [of s])
  note shorter = Peek_nonzero [OF nz]
  show ?case
  proof (cases "Peek s = 42 \<and> Peek ?s = 47")
    case True
    then have "t = snd (Take ?s)"
      using "1.prems" by (simp add: block_comment.simps [of s])
    moreover have "length (ss_src (snd (Take ?s))) < length (ss_src ?s)"
      using True by (simp add: Peek_nonzero)
    ultimately show ?thesis
      using shorter less_trans by blast
  next
    case False
    then have "block_comment ?s = Inr t"
      using "1.prems" nz by (auto simp: block_comment.simps [of s] Let_def split: if_splits)
    then have "length (ss_src t) < length (ss_src ?s)"
      using "1.IH" nz False by (cases "Peek s = 42") auto
    then show ?thesis
      using shorter by linarith
  qed
qed

lemma line_comment_length: "length (ss_src (line_comment s)) \<le> length (ss_src s)"
proof (induction s rule: line_comment.induct)
  case (1 s)
  show ?case
  proof (cases "Peek s = 0")
    case False
    have "length (ss_src (line_comment (snd (Take s)))) \<le> length (ss_src (snd (Take s)))" if "fst (Take s) \<noteq> 10"
      using 1 [OF False refl prod.collapse that] .
    then show ?thesis
      using False Peek_nonzero [OF False]
      by (cases "fst (Take s) = 10") (auto simp: line_comment.simps [of s] case_prod_beta)
  qed (simp add: line_comment.simps)
qed

function skip_comments :: "stream \<Rightarrow> parse_error + stream" where
  "skip_comments s =
     (if Peek s = 47 then
        let s = snd (Take s)
        in if Peek s = 42 then
             (case block_comment (snd (Take s)) of Inl e \<Rightarrow> Inl e | Inr s \<Rightarrow> skip_comments (SkipWhitespace s))
           else if Peek s = 47 then skip_comments (SkipWhitespace (line_comment (snd (Take s))))
           else Inl (kParseErrorUnspecificSyntaxError, Tell s)
      else Inr s)"
  by pat_completeness auto

termination
proof (relation "measure (\<lambda>s. length (ss_src s))")
  fix s t u
  assume "Peek s = (47::u8)" "t = snd (Take s)" "Peek t = 42" "block_comment (snd (Take t)) = Inr u"
  then have "length (ss_src u) < length (ss_src (snd (Take t)))" "length (ss_src t) < length (ss_src s)"
    "length (ss_src (snd (Take t))) < length (ss_src t)"
    by (simp_all add: Peek_nonzero block_comment_length)
  then show "(SkipWhitespace u, s) \<in> measure (\<lambda>s. length (ss_src s))"
    using SkipWhitespace_length [of u] by simp
next
  fix s t
  assume "Peek s = (47::u8)" "t = snd (Take s)" "Peek t = 47"
  then have "length (ss_src t) < length (ss_src s)" "length (ss_src (snd (Take t))) < length (ss_src t)"
    by (simp_all add: Peek_nonzero)
  then show "(SkipWhitespace (line_comment (snd (Take t))), s) \<in> measure (\<lambda>s. length (ss_src s))"
    using line_comment_length [of "snd (Take t)"] SkipWhitespace_length [of "line_comment (snd (Take t))"]
    by simp
qed simp

declare skip_comments.simps [simp del]

definition SkipWhitespaceAndComments :: "parse_flags \<Rightarrow> stream \<Rightarrow> parse_error + stream" where
  "SkipWhitespaceAndComments f s =
     (let s = SkipWhitespace s in if kParseCommentsFlag f then skip_comments s else Inr s)"

subsection \<open>Literals\<close>

fun Consume_all :: "u8 list \<Rightarrow> stream \<Rightarrow> bool \<times> stream" where
  "Consume_all [] s = (True, s)"
| "Consume_all (c # cs) s = (let (ok, s) = Consume c s in if ok then Consume_all cs s else (False, s))"

definition ParseLiteral :: "u8 list \<Rightarrow> json_event \<Rightarrow> 'h handler \<Rightarrow> stream \<times> 'h \<Rightarrow> parse_error \<times> 'h + stream \<times> 'h" where
  "ParseLiteral cs ev hnd = (\<lambda>(s, h).
     let (ok, s) = Consume_all cs (snd (Take s))
     in if ok then send_event hnd ev (Tell s) (s, h) else Inl ((kParseErrorValueInvalid, Tell s), h))"

definition ParseNull :: "'h handler \<Rightarrow> stream \<times> 'h \<Rightarrow> parse_error \<times> 'h + stream \<times> 'h" where
  "ParseNull = ParseLiteral [117, 108, 108] H_Null"

definition ParseTrue :: "'h handler \<Rightarrow> stream \<times> 'h \<Rightarrow> parse_error \<times> 'h + stream \<times> 'h" where
  "ParseTrue = ParseLiteral [114, 117, 101] (H_Bool True)"

definition ParseFalse :: "'h handler \<Rightarrow> stream \<times> 'h \<Rightarrow> parse_error \<times> 'h + stream \<times> 'h" where
  "ParseFalse = ParseLiteral [97, 108, 115, 101] (H_Bool False)"

subsection \<open>Strings\<close>

fun ParseHex4 :: "nat \<Rightarrow> nat \<Rightarrow> u32 \<Rightarrow> stream \<Rightarrow> parse_error + u32 \<times> stream" where
  "ParseHex4 0 escapeOffset codepoint s = Inr (codepoint, s)"
| "ParseHex4 (Suc n) escapeOffset codepoint s =
     (let c = Peek s; codepoint = push_bit 4 codepoint + ucast c
      in if 48 \<le> c \<and> c \<le> 57 then ParseHex4 n escapeOffset (codepoint - 48) (snd (Take s))
         else if 65 \<le> c \<and> c \<le> 70 then ParseHex4 n escapeOffset (codepoint - (65 - 10)) (snd (Take s))
         else if 97 \<le> c \<and> c \<le> 102 then ParseHex4 n escapeOffset (codepoint - (97 - 10)) (snd (Take s))
         else Inl (kParseErrorStringUnicodeEscapeInvalidHex, escapeOffset))"

text \<open>The character of an escape \<open>u\<close>, with its surrogate pair.\<close>

definition ParseUnicode :: "nat \<Rightarrow> stream \<Rightarrow> parse_error + u32 \<times> stream" where
  "ParseUnicode escapeOffset s =
     and_then (ParseHex4 4 escapeOffset 0 s) (\<lambda>(codepoint, s).
       if codepoint \<ge> 0xD800 \<and> codepoint \<le> 0xDFFF then
         if codepoint \<le> 0xDBFF then
           let (ok, s) = Consume_all [92, 117] s
           in if \<not> ok then Inl (kParseErrorStringUnicodeSurrogateInvalid, escapeOffset)
              else and_then (ParseHex4 4 escapeOffset 0 s) (\<lambda>(codepoint2, s).
                if codepoint2 < 0xDC00 \<or> codepoint2 > 0xDFFF
                then Inl (kParseErrorStringUnicodeSurrogateInvalid, escapeOffset)
                else Inr ((push_bit 10 (codepoint - 0xD800) OR (codepoint2 - 0xDC00)) + 0x10000, s))
         else Inl (kParseErrorStringUnicodeSurrogateInvalid, escapeOffset)
       else Inr (codepoint, s))"

text \<open>The table \<open>escape\<close>.\<close>

definition unescape :: "u8 \<Rightarrow> u8" where
  "unescape e =
     (if e = 34 then 34 else if e = 47 then 47 else if e = 92 then 92 else if e = 98 then 8
      else if e = 102 then 12 else if e = 110 then 10 else if e = 114 then 13 else if e = 116 then 9 else 0)"

lemma Take_length: "length (ss_src (snd (Take s))) \<le> length (ss_src s)"
  by (simp add: Take_def)

lemma Take_src [simp]: "ss_src (snd (Take s)) = tl (ss_src s)" "ss_tell (snd (Take s)) = Suc (ss_tell s)"
  by (simp_all add: Take_def)

lemma Consume_all_length: "length (ss_src (snd (Consume_all cs s))) \<le> length (ss_src s)"
proof (induction cs arbitrary: s)
  case (Cons c cs)
  then show ?case
    using Cons.IH [of "snd (Take s)"] by (auto simp: Consume_def Let_def intro: le_trans)
qed simp

lemma ParseHex4_length: "ParseHex4 n off cp s = Inr (v, t) \<Longrightarrow> length (ss_src t) \<le> length (ss_src s)"
proof (induction n arbitrary: cp s)
  case (Suc n)
  then obtain cp' where "ParseHex4 n off cp' (snd (Take s)) = Inr (v, t)"
    by (auto simp: Let_def split: if_splits)
  then show ?case
    using Suc.IH Take_length le_trans by blast
qed simp

lemma and_then_InrE:
  assumes "and_then r f = Inr y" obtains x where "r = Inr x" "f x = Inr y"
  using assms by (cases r) auto

lemma ParseUnicode_length: "ParseUnicode off s = Inr (cp, t) \<Longrightarrow> length (ss_src t) \<le> length (ss_src s)"
proof -
  assume "ParseUnicode off s = Inr (cp, t)"
  then obtain cp1 s1 where h1: "ParseHex4 4 off 0 s = Inr (cp1, s1)"
    and t: "t = s1 \<or> (\<exists>cp2. ParseHex4 4 off 0 (snd (Consume_all [92, 117] s1)) = Inr (cp2, t))"
    unfolding ParseUnicode_def
    by (elim and_then_InrE) (force simp: Let_def case_prod_beta elim!: and_then_InrE split: if_splits)
  show ?thesis
    using t ParseHex4_length [OF h1] Consume_all_length [of "[92, 117]" s1] by (auto dest!: ParseHex4_length)
qed

lemma utf8_copy_length: "length (ss_src (fst (snd (utf8_copy c s os)))) \<le> length (ss_src s)"
  by (simp add: utf8_copy_def case_prod_beta)

lemma utf8_check_length: "length (ss_src (fst (snd (utf8_check ms c r s os)))) \<le> length (ss_src s)"
proof (induction ms arbitrary: c r s os)
  case (Cons m ms)
  then show ?case
    using utf8_copy_length [of c s os] by (simp add: case_prod_beta order.trans [OF Cons.IH])
qed simp

lemma utf8_Validate_length:
  assumes "Peek s \<noteq> 0" shows "length (ss_src (fst (snd (utf8_Validate s os)))) < length (ss_src s)"
proof -
  have "length (ss_src (fst (snd (utf8_Validate s os)))) \<le> length (ss_src (snd (Take s)))"
    by (auto simp: utf8_Validate_def utf8_copy_def case_prod_beta intro: le_trans [OF utf8_check_length] split: option.split)
  then show ?thesis
    using Peek_nonzero [OF assms] by linarith
qed

text \<open>The transcoding of one character between the two UTF-8 sides.\<close>

definition transcode_char :: "parse_flags \<Rightarrow> stream \<Rightarrow> bytes \<Rightarrow> bool \<times> stream \<times> bytes" where
  "transcode_char f s os = (if kParseValidateEncodingFlag f then utf8_Validate s os else transcode_8_8 s os)"

lemma transcode_char_length:
  "Peek s \<noteq> 0 \<Longrightarrow> transcode_char f s os = (ok, t, os') \<Longrightarrow> length (ss_src t) < length (ss_src s)"
  using utf8_Validate_length [of s os] Peek_nonzero [of s]
  by (auto simp: transcode_char_def transcode_8_8_def case_prod_beta split: if_splits)

lemma transcode_char_decreases:
  "(True, y) = transcode_char f s os \<Longrightarrow> \<not> Peek s < 32 \<Longrightarrow> length (ss_src (fst y)) < length (ss_src s)"
  using transcode_char_length [of s f os True "fst y" "snd y"] by (cases "Peek s = 0") auto

function ParseStringToStream :: "parse_flags \<Rightarrow> stream \<Rightarrow> bytes \<Rightarrow> parse_error + bytes \<times> stream" where
  "ParseStringToStream f s os =
     (let c = Peek s
      in if c = 92 then
           let escapeOffset = Tell s; s = snd (Take s); e = Peek s
           in if unescape e \<noteq> 0 then ParseStringToStream f (snd (Take s)) (os @ [unescape e])
              else if kParseEscapedApostropheFlag f \<and> e = 39 then ParseStringToStream f (snd (Take s)) (os @ [39])
              else if e = 117 then
                (case ParseUnicode escapeOffset (snd (Take s)) of
                   Inl err \<Rightarrow> Inl err
                 | Inr (codepoint, s) \<Rightarrow> ParseStringToStream f s (os @ utf8_Encode codepoint))
              else Inl (kParseErrorStringEscapeInvalid, escapeOffset)
         else if c = 34 then Inr (os @ [0], snd (Take s))
         else if c < 32 then
           Inl (if c = 0 then kParseErrorStringMissQuotationMark else kParseErrorStringInvalidEncoding, Tell s)
         else case transcode_char f s os of
                (True, s, os) \<Rightarrow> ParseStringToStream f s os
              | (False, _, _) \<Rightarrow> Inl (kParseErrorStringInvalidEncoding, Tell s))"
  by pat_completeness auto

termination
proof (relation "measure (\<lambda>(f, s, os). length (ss_src s))", goal_cases)
  case (2 f s os c x xa e)
  then show ?case
    using Peek_nonzero [of s] by simp
next
  case (3 f s os c x xa e)
  then show ?case
    using Peek_nonzero [of s] by simp
next
  case (4 f s os c x xa e y cp t)
  then show ?case
    using Peek_nonzero [of s] ParseUnicode_length [of x "snd (Take xa)" cp t] by simp
next
  case 5
  then show ?case
    by (auto simp: case_prod_beta dest: transcode_char_decreases)
qed simp

declare ParseStringToStream.simps [simp del]

definition ParseString :: "parse_flags \<Rightarrow> bool \<Rightarrow> 'h handler \<Rightarrow> stream \<times> 'h \<Rightarrow> parse_error \<times> 'h + stream \<times> 'h" where
  "ParseString f isKey hnd = (\<lambda>(s, h).
     case ParseStringToStream f (snd (Take s)) [] of
       Inl e \<Rightarrow> Inl (e, h)
     | Inr (os, s) \<Rightarrow> let str = butlast os in send_event hnd (if isKey then H_Key str else H_String str) (Tell s) (s, h))"

subsection \<open>Numbers\<close>

text \<open>The local variables of \<open>ParseNumber\<close>.\<close>

record json_number =
  num_i :: u32
  num_i64 :: u64
  num_use64bit :: bool
  num_significandDigit :: nat
  num_useDouble :: bool
  num_d :: magnitude
  num_expFrac :: int

definition number_0 :: json_number where
  "number_0 = \<lparr>num_i = 0, num_i64 = 0, num_use64bit = False, num_significandDigit = 0, num_useDouble = False,
     num_d = Mag 0, num_expFrac = 0\<rparr>"

text \<open>The loop of the 32-bit part and the loop of the 64-bit part.\<close>

function digits32 :: "bool \<Rightarrow> json_number \<Rightarrow> stream \<Rightarrow> json_number \<times> stream" where
  "digits32 neg n s =
     (let c = Peek s; lim = (if neg then 214748364 else 429496729)
      in if \<not> is_digit c then (n, s)
         else if num_i n \<ge> lim \<and> (num_i n \<noteq> lim \<or> c > (if neg then 56 else 53))
         then (n\<lparr>num_i64 := ucast (num_i n), num_use64bit := True\<rparr>, s)
         else digits32 neg (n\<lparr>num_i := num_i n * 10 + ucast (c - 48),
                num_significandDigit := num_significandDigit n + 1\<rparr>) (snd (Take s)))"
  by pat_completeness auto

termination
  by (relation "measure (\<lambda>(neg, n, s). length (ss_src s))") (use class_shorter(2) in force)+

declare digits32.simps [simp del]

function digits64 :: "bool \<Rightarrow> json_number \<Rightarrow> stream \<Rightarrow> json_number \<times> stream" where
  "digits64 neg n s =
     (let c = Peek s; lim = (if neg then 0x0CCCCCCCCCCCCCCC else 0x1999999999999999)
      in if \<not> is_digit c then (n, s)
         else if num_i64 n \<ge> lim \<and> (num_i64 n \<noteq> lim \<or> c > (if neg then 56 else 53))
         then (n\<lparr>num_d := d_of_nat (unat (num_i64 n)), num_useDouble := True\<rparr>, s)
         else digits64 neg (n\<lparr>num_i64 := num_i64 n * 10 + ucast (c - 48),
                num_significandDigit := num_significandDigit n + 1\<rparr>) (snd (Take s)))"
  by pat_completeness auto

termination
  by (relation "measure (\<lambda>(neg, n, s). length (ss_src s))") (use class_shorter(2) in force)+

declare digits64.simps [simp del]

text \<open>\<open>d * 10 + digit\<close>.\<close>

definition d_digit :: "magnitude \<Rightarrow> u8 \<Rightarrow> magnitude" where
  "d_digit d c = d_add (d_mul d (d_of_nat 10)) (d_of_nat (unat (c - 48)))"

function digits_double :: "json_number \<Rightarrow> stream \<Rightarrow> json_number \<times> stream" where
  "digits_double n s =
     (if is_digit (Peek s) then digits_double (n\<lparr>num_d := d_digit (num_d n) (Peek s)\<rparr>) (snd (Take s)) else (n, s))"
  by pat_completeness auto

termination
  by (relation "measure (\<lambda>(n, s). length (ss_src s))") (use class_shorter(2) in force)+

declare digits_double.simps [simp del]

text \<open>The digits of the fraction: in 64 bits up to \<open>2 ^ 53 - 1\<close>, then in the double.\<close>

function frac64 :: "json_number \<Rightarrow> stream \<Rightarrow> json_number \<times> stream" where
  "frac64 n s =
     (if is_digit (Peek s) \<and> \<not> num_i64 n > 0x1FFFFFFFFFFFFF then
        let v = num_i64 n * 10 + ucast (Peek s - 48)
        in frac64 (n\<lparr>num_i64 := v, num_expFrac := num_expFrac n - 1,
             num_significandDigit := (if v \<noteq> 0 then num_significandDigit n + 1 else num_significandDigit n)\<rparr>)
             (snd (Take s))
      else (n, s))"
  by pat_completeness auto

termination
  by (relation "measure (\<lambda>(n, s). length (ss_src s))") (use class_shorter(2) in force)+

declare frac64.simps [simp del]

function frac_double :: "json_number \<Rightarrow> stream \<Rightarrow> json_number \<times> stream" where
  "frac_double n s =
     (if is_digit (Peek s) then
        if num_significandDigit n < 17 then
          let d = d_digit (num_d n) (Peek s)
          in frac_double (n\<lparr>num_d := d, num_expFrac := num_expFrac n - 1,
               num_significandDigit := (if d_positive d then num_significandDigit n + 1 else num_significandDigit n)\<rparr>)
               (snd (Take s))
        else frac_double n (snd (Take s))
      else (n, s))"
  by pat_completeness auto

termination
  by (relation "measure (\<lambda>(n, s). length (ss_src s))") (use class_shorter(2) in force)+

declare frac_double.simps [simp del]

definition ParseNanOrInf :: "bool \<Rightarrow> stream \<Rightarrow> parse_error + f64 \<times> stream" where
  "ParseNanOrInf neg s =
     (let (isN, s) = Consume 78 s
      in if isN then
           let (ok, s) = Consume_all [97, 78] s
           in if ok then Inr (F64NaN, s) else Inl (kParseErrorValueInvalid, Tell s)
         else
           let (ok, s) = Consume_all [73, 110, 102] s
           in if \<not> ok then Inl (kParseErrorValueInvalid, Tell s)
              else if Peek s = 105 then
                let (ok, s) = Consume_all [105, 110, 105, 116, 121] s
                in if ok then Inr (F64 neg MagInf, s) else Inl (kParseErrorValueInvalid, Tell s)
              else Inr (F64 neg MagInf, s))"

definition integer_part :: "parse_flags \<Rightarrow> bool \<Rightarrow> stream \<Rightarrow> parse_error + (json_number \<times> f64 option) \<times> stream" where
  "integer_part f neg s =
     (if Peek s = 48 then Inr ((number_0, None), snd (Take s))
      else if 49 \<le> Peek s \<and> Peek s \<le> 57 then
        let (n, s) = digits32 neg (number_0\<lparr>num_i := ucast (Peek s - 48)\<rparr>) (snd (Take s)) in Inr ((n, None), s)
      else if kParseNanAndInfFlag f \<and> (Peek s = 73 \<or> Peek s = 78) then
        and_then (ParseNanOrInf neg s) (\<lambda>(d, s). Inr ((number_0, Some d), s))
      else Inl (kParseErrorValueInvalid, Tell s))"

definition large_part :: "bool \<Rightarrow> json_number \<Rightarrow> stream \<Rightarrow> json_number \<times> stream" where
  "large_part neg n s =
     (let (n, s) = (if num_use64bit n then digits64 neg n s else (n, s))
      in if num_useDouble n then digits_double n s else (n, s))"

definition num_significand :: "json_number \<Rightarrow> nat" where
  "num_significand n = (if num_use64bit n then unat (num_i64 n) else unat (num_i n))"

definition fraction_part :: "json_number \<Rightarrow> stream \<Rightarrow> parse_error + json_number \<times> stream" where
  "fraction_part n s =
     (let (dot, s) = Consume 46 s
      in if \<not> dot then Inr (n, s)
         else if \<not> is_digit (Peek s) then Inl (kParseErrorNumberMissFraction, Tell s)
         else
           let (n, s) =
             (if num_useDouble n then (n, s)
              else let n = (if num_use64bit n then n else n\<lparr>num_i64 := ucast (num_i n)\<rparr>);
                       (n, s) = frac64 n s
                   in (n\<lparr>num_d := d_of_nat (unat (num_i64 n)), num_useDouble := True\<rparr>, s))
           in Inr (frac_double n s))"

function skip_digits :: "stream \<Rightarrow> stream" where
  "skip_digits s = (if is_digit (Peek s) then skip_digits (snd (Take s)) else s)"
  by pat_completeness auto

termination
  by (relation "measure (\<lambda>s. length (ss_src s))") (use class_shorter(2) in force)+

declare skip_digits.simps [simp del]

lemma skip_digits_length: "length (ss_src (skip_digits s)) \<le> length (ss_src s)"
proof (induction s rule: skip_digits.induct)
  case (1 s)
  then show ?case
    using class_shorter(2) [of s] by (cases "is_digit (Peek s)") (auto simp: skip_digits.simps [of s])
qed

text \<open>The digits of an exponent after its first; a negative one ends early, a positive one fails.\<close>

function exp_negative :: "int \<Rightarrow> int \<Rightarrow> stream \<Rightarrow> int \<times> stream" where
  "exp_negative maxExp exp s =
     (if is_digit (Peek s) then
        let exp = exp * 10 + uint (Peek s - 48); s = snd (Take s)
        in exp_negative maxExp exp (if exp > maxExp then skip_digits s else s)
      else (exp, s))"
  by pat_completeness auto

termination
proof (relation "measure (\<lambda>(maxExp, exp, s). length (ss_src s))", goal_cases)
  case (2 maxExp exp s x t)
  then show ?case
    using class_shorter(2) [of s] skip_digits_length [of t] by auto
qed simp

declare exp_negative.simps [simp del]

function exp_positive :: "int \<Rightarrow> int \<Rightarrow> stream \<Rightarrow> (int \<times> stream) option" where
  "exp_positive maxExp exp s =
     (if is_digit (Peek s) then
        let exp = exp * 10 + uint (Peek s - 48)
        in if exp > maxExp then None else exp_positive maxExp exp (snd (Take s))
      else Some (exp, s))"
  by pat_completeness auto

termination
  by (relation "measure (\<lambda>(maxExp, exp, s). length (ss_src s))") (use class_shorter(2) in force)+

declare exp_positive.simps [simp del]

definition exponent_part :: "nat \<Rightarrow> json_number \<Rightarrow> stream \<Rightarrow> parse_error + (int \<times> json_number) \<times> stream" where
  "exponent_part startOffset n s =
     (let (e, s) = Consume 101 s; (e, s) = (if e then (True, s) else Consume 69 s)
      in if \<not> e then Inr ((0, n), s)
         else
           let n = (if num_useDouble n then n else n\<lparr>num_d := d_of_nat (num_significand n), num_useDouble := True\<rparr>);
               (plus, s) = Consume 43 s; (expMinus, s) = (if plus then (False, s) else Consume 45 s)
           in if \<not> is_digit (Peek s) then Inl (kParseErrorNumberMissExponent, Tell s)
              else
                let exp = uint (Peek s - 48); s = snd (Take s)
                in if expMinus then
                     let (exp, s) = exp_negative ((num_expFrac n + 2147483639) div 10) exp s in Inr ((- exp, n), s)
                   else case exp_positive (308 - num_expFrac n) exp s of
                          None \<Rightarrow> Inl (kParseErrorNumberTooBig, startOffset)
                        | Some (exp, s) \<Rightarrow> Inr ((exp, n), s))"

text \<open>The event of the number.\<close>

definition number_event :: "bool \<Rightarrow> nat \<Rightarrow> int \<Rightarrow> json_number \<Rightarrow> parse_error + json_event" where
  "number_event neg startOffset exp n =
     (if num_useDouble n then
        let d = StrtodNormalPrecision (num_d n) (exp + num_expFrac n)
        in if d = MagInf then Inl (kParseErrorNumberTooBig, startOffset) else Inr (H_Double (F64 neg d))
      else if num_use64bit n then
        Inr (if neg then H_Int64 (NOT (num_i64 n) + 1) else H_Uint64 (num_i64 n))
      else Inr (if neg then H_Int (NOT (num_i n) + 1) else H_Uint (num_i n)))"

definition number_text :: "parse_flags \<Rightarrow> stream \<Rightarrow> parse_error + json_event \<times> stream" where
  "number_text f s =
     (let startOffset = Tell s; (neg, s) = Consume 45 s
      in and_then (integer_part f neg s) (\<lambda>((n, nanOrInf), s).
           case nanOrInf of
             Some d \<Rightarrow> Inr (H_Double d, s)
           | None \<Rightarrow>
               let (n, s) = large_part neg n s
               in and_then (fraction_part n s) (\<lambda>(n, s).
                  and_then (exponent_part startOffset n s) (\<lambda>((exp, n), s).
                  and_then (number_event neg startOffset exp n) (\<lambda>ev. Inr (ev, s))))))"

definition ParseNumber :: "parse_flags \<Rightarrow> 'h handler \<Rightarrow> stream \<times> 'h \<Rightarrow> parse_error \<times> 'h + stream \<times> 'h" where
  "ParseNumber f hnd = (\<lambda>(s, h).
     case number_text f s of Inl e \<Rightarrow> Inl (e, h) | Inr (ev, t) \<Rightarrow> send_event hnd ev (Tell s) (t, h))"

subsection \<open>Values\<close>

text \<open>The results of the functions with fuel: none when it runs out.\<close>

type_synonym 'h parsing = "(parse_error \<times> 'h + stream \<times> 'h) option"

definition continue :: "'h parsing \<Rightarrow> (stream \<times> 'h \<Rightarrow> 'h parsing) \<Rightarrow> 'h parsing" where
  "continue r k = (case r of None \<Rightarrow> None | Some (Inl e) \<Rightarrow> Some (Inl e) | Some (Inr x) \<Rightarrow> k x)"

lemma continue_simps [simp]:
  "continue None k = None" "continue (Some (Inl e)) k = Some (Inl e)" "continue (Some (Inr x)) k = k x"
  by (simp_all add: continue_def)

definition skip :: "parse_flags \<Rightarrow> stream \<times> 'h \<Rightarrow> parse_error \<times> 'h + stream \<times> 'h" where
  "skip f = (\<lambda>(s, h). quiet (SkipWhitespaceAndComments f s) h)"

text \<open>The colon between a key and its value, with the white space around it.\<close>

definition member_key :: "parse_flags \<Rightarrow> 'h handler \<Rightarrow> stream \<times> 'h \<Rightarrow> parse_error \<times> 'h + stream \<times> 'h" where
  "member_key f hnd x =
     and_then (ParseString f True hnd x) (\<lambda>x. and_then (skip f x) (\<lambda>(s, h).
       let (colon, s) = Consume 58 s
       in if colon then skip f (s, h) else Inl ((kParseErrorObjectMissColon, Tell s), h)))"

text \<open>A bracket and its event; behind a trailing comma the event comes first.\<close>

definition bracket :: "'h handler \<Rightarrow> json_event \<Rightarrow> stream \<times> 'h \<Rightarrow> parse_error \<times> 'h + stream \<times> 'h" where
  "bracket hnd ev = (\<lambda>(s, h). let s = snd (Take s) in send_event hnd ev (Tell s) (s, h))"

definition bracket_after :: "'h handler \<Rightarrow> json_event \<Rightarrow> stream \<times> 'h \<Rightarrow> parse_error \<times> 'h + stream \<times> 'h" where
  "bracket_after hnd ev = (\<lambda>(s, h). and_then (send_event hnd ev (Tell s) (s, h)) (\<lambda>(s, h). Inr (snd (Take s), h)))"

text \<open>The loops of \<open>ParseObject\<close> and \<open>ParseArray\<close> over members and elements, given the parser of a value.\<close>

primrec object_members ::
  "nat \<Rightarrow> parse_flags \<Rightarrow> 'h handler \<Rightarrow> (stream \<times> 'h \<Rightarrow> 'h parsing) \<Rightarrow> nat \<Rightarrow> stream \<times> 'h \<Rightarrow> 'h parsing" where
  "object_members 0 f hnd pv memberCount x = None"
| "object_members (Suc n) f hnd pv memberCount x =
     (if Peek (fst x) \<noteq> 34 then Some (Inl ((kParseErrorObjectMissName, Tell (fst x)), snd x))
      else
        continue (Some (member_key f hnd x)) (\<lambda>x.
        continue (pv x) (\<lambda>x.
        continue (Some (skip f x)) (\<lambda>(s, h).
          let c = Peek s
          in if c = 44 then
               continue (Some (skip f (snd (Take s), h))) (\<lambda>x.
                 if kParseTrailingCommasFlag f \<and> Peek (fst x) = 125
                 then Some (bracket_after hnd (H_EndObject (memberCount + 1)) x)
                 else object_members n f hnd pv (memberCount + 1) x)
             else if c = 125 then Some (bracket hnd (H_EndObject (memberCount + 1)) (s, h))
             else Some (Inl ((kParseErrorObjectMissCommaOrCurlyBracket, Tell s), h))))))"

definition ParseObject ::
  "nat \<Rightarrow> parse_flags \<Rightarrow> 'h handler \<Rightarrow> (stream \<times> 'h \<Rightarrow> 'h parsing) \<Rightarrow> stream \<times> 'h \<Rightarrow> 'h parsing" where
  "ParseObject n f hnd pv x =
     continue (Some (and_then (bracket hnd H_StartObject x) (skip f))) (\<lambda>(s, h).
       if Peek s = 125 then Some (bracket hnd (H_EndObject 0) (s, h)) else object_members n f hnd pv 0 (s, h))"

primrec array_elements ::
  "nat \<Rightarrow> parse_flags \<Rightarrow> 'h handler \<Rightarrow> (stream \<times> 'h \<Rightarrow> 'h parsing) \<Rightarrow> nat \<Rightarrow> stream \<times> 'h \<Rightarrow> 'h parsing" where
  "array_elements 0 f hnd pv elementCount x = None"
| "array_elements (Suc n) f hnd pv elementCount x =
     continue (pv x) (\<lambda>x.
     continue (Some (skip f x)) (\<lambda>(s, h).
       let c = Peek s
       in if c = 44 then
            continue (Some (skip f (snd (Take s), h))) (\<lambda>x.
              if kParseTrailingCommasFlag f \<and> Peek (fst x) = 93
              then Some (bracket_after hnd (H_EndArray (elementCount + 1)) x)
              else array_elements n f hnd pv (elementCount + 1) x)
          else if c = 93 then Some (bracket hnd (H_EndArray (elementCount + 1)) (s, h))
          else Some (Inl ((kParseErrorArrayMissCommaOrSquareBracket, Tell s), h))))"

definition ParseArray ::
  "nat \<Rightarrow> parse_flags \<Rightarrow> 'h handler \<Rightarrow> (stream \<times> 'h \<Rightarrow> 'h parsing) \<Rightarrow> stream \<times> 'h \<Rightarrow> 'h parsing" where
  "ParseArray n f hnd pv x =
     continue (Some (and_then (bracket hnd H_StartArray x) (skip f))) (\<lambda>(s, h).
       if Peek s = 93 then Some (bracket hnd (H_EndArray 0) (s, h)) else array_elements n f hnd pv 0 (s, h))"

primrec ParseValue :: "nat \<Rightarrow> parse_flags \<Rightarrow> 'h handler \<Rightarrow> stream \<times> 'h \<Rightarrow> 'h parsing" where
  "ParseValue 0 f hnd x = None"
| "ParseValue (Suc n) f hnd x =
     (let c = Peek (fst x)
      in if c = 110 then Some (ParseNull hnd x)
         else if c = 116 then Some (ParseTrue hnd x)
         else if c = 102 then Some (ParseFalse hnd x)
         else if c = 34 then Some (ParseString f False hnd x)
         else if c = 123 then ParseObject n f hnd (ParseValue n f hnd) x
         else if c = 91 then ParseArray n f hnd (ParseValue n f hnd) x
         else Some (ParseNumber f hnd x))"

text \<open>Fuel for a value at a stream.\<close>

definition stream_fuel :: "stream \<Rightarrow> nat" where
  "stream_fuel s = length (ss_src s) + 1"

definition recursive_parse :: "parse_flags \<Rightarrow> 'h handler \<Rightarrow> stream \<times> 'h \<Rightarrow> 'h parsing" where
  "recursive_parse f hnd x =
     continue (Some (skip f x)) (\<lambda>(s, h).
       if Peek s = 0 then Some (Inl ((kParseErrorDocumentEmpty, Tell s), h))
       else continue (ParseValue (stream_fuel s) f hnd (s, h)) (\<lambda>x.
         if kParseStopWhenDoneFlag f then Some (Inr x)
         else continue (Some (skip f x)) (\<lambda>(s, h).
           if Peek s \<noteq> 0 then Some (Inl ((kParseErrorDocumentRootNotSingular, Tell s), h)) else Some (Inr (s, h)))))"

end
