(* ===== verification/JsonReaderProps.thy ===== *)
theory JsonReaderProps
  imports JsonReader
begin

section \<open>rapidjson: properties of the reader\<close>

text \<open>
  Every function of the reader that goes on has moved forward in the text, so that the fuel of
  the recursive functions never runs out; what the reader makes of the text of an integer; what
  it makes of the characters of a string.
\<close>

unbundle bit_operations_syntax

subsection \<open>Moving forward\<close>

abbreviation len :: "stream \<times> 'h \<Rightarrow> nat" where
  "len x \<equiv> length (ss_src (fst x))"

lemma Consume_src: "Consume c s = (ok, t) \<Longrightarrow> length (ss_src t) \<le> length (ss_src s)"
  by (auto simp: Consume_def split: if_splits)

lemma skip_comments_length: "skip_comments s = Inr t \<Longrightarrow> length (ss_src t) \<le> length (ss_src s)"
proof (induction s rule: skip_comments.induct)
  case (1 s)
  let ?s = "snd (Take s)"
  show ?case
  proof (cases "Peek s = 47")
    case False
    then show ?thesis
      using "1.prems" by (simp add: skip_comments.simps [of s])
  next
    case slash: True
    have shorter: "length (ss_src ?s) \<le> length (ss_src s)" "length (ss_src (snd (Take ?s))) \<le> length (ss_src s)"
      by auto
    show ?thesis
    proof (cases "Peek ?s = 42")
      case True
      then obtain u where u: "block_comment (snd (Take ?s)) = Inr u" "skip_comments (SkipWhitespace u) = Inr t"
        using "1.prems" slash by (auto simp: skip_comments.simps [of s] split: sum.splits)
      then show ?thesis
        using "1.IH" (1) [OF slash refl True u(1) u(2)] block_comment_length [OF u(1)] SkipWhitespace_length [of u] shorter
        by linarith
    next
      case False
      then have l: "Peek ?s = 47" "skip_comments (SkipWhitespace (line_comment (snd (Take ?s)))) = Inr t"
        using "1.prems" slash by (auto simp: skip_comments.simps [of s] Let_def split: if_splits)
      then show ?thesis
        using "1.IH" (2) [OF slash refl False l] SkipWhitespace_length [of "line_comment (snd (Take ?s))"]
          line_comment_length [of "snd (Take ?s)"] shorter
        by linarith
    qed
  qed
qed

lemma skip_len: "skip f x = Inr y \<Longrightarrow> len y \<le> len x"
  using skip_comments_length [of "SkipWhitespace (fst x)"] SkipWhitespace_length [of "fst x"]
  by (auto simp: skip_def SkipWhitespaceAndComments_def quiet_def Let_def split: sum.splits if_splits prod.splits)

lemma send_event_len: "send_event hnd ev off x = Inr y \<Longrightarrow> len y = len x"
  by (auto simp: send_event_def split: prod.splits if_splits)

lemma bracket_len: "bracket hnd ev x = Inr y \<Longrightarrow> Peek (fst x) \<noteq> 0 \<Longrightarrow> len y < len x"
  using Peek_nonzero [of "fst x"] by (auto simp: bracket_def Let_def dest!: send_event_len split: prod.splits)

lemma bracket_after_len: "bracket_after hnd ev x = Inr y \<Longrightarrow> Peek (fst x) \<noteq> 0 \<Longrightarrow> len y < len x"
  using Peek_nonzero [of "fst x"]
  by (auto simp: bracket_after_def send_event_def Let_def split: prod.splits if_splits)

lemma ParseLiteral_len: "ParseLiteral cs ev hnd x = Inr y \<Longrightarrow> Peek (fst x) \<noteq> 0 \<Longrightarrow> len y < len x"
  using Peek_nonzero [of "fst x"] Consume_all_length [of cs "snd (Take (fst x))"]
  by (auto simp: ParseLiteral_def Let_def dest!: send_event_len split: prod.splits if_splits)

lemma ParseStringToStream_length: "ParseStringToStream f s os = Inr (r, t) \<Longrightarrow> length (ss_src t) < length (ss_src s)"
proof (induction f s os rule: ParseStringToStream.induct)
  case (1 f s os)
  let ?s = "snd (Take s)"
  show ?case
  proof (cases "Peek s = 92")
    case True
    then have shorter: "length (ss_src ?s) < length (ss_src s)"
      using Peek_nonzero [of s] by simp
    consider "unescape (Peek ?s) \<noteq> 0" | "unescape (Peek ?s) = 0" "kParseEscapedApostropheFlag f \<and> Peek ?s = 39"
      | cp u where "unescape (Peek ?s) = 0" "\<not> (kParseEscapedApostropheFlag f \<and> Peek ?s = 39)"
          "Peek ?s = 117" "ParseUnicode (Tell s) (snd (Take ?s)) = Inr (cp, u)"
          "ParseStringToStream f u (os @ utf8_Encode cp) = Inr (r, t)"
      using "1.prems" True by (auto simp: ParseStringToStream.simps [of f s] Let_def split: if_splits sum.splits)
    then show ?thesis
    proof cases
      case 1
      then have "ParseStringToStream f (snd (Take ?s)) (os @ [unescape (Peek ?s)]) = Inr (r, t)"
        using "1.prems" True by (simp add: ParseStringToStream.simps [of f s] Let_def)
      then show ?thesis
        using "1.IH" (1) [OF refl True refl refl refl 1] Take_length [of ?s] shorter by linarith
    next
      case 2
      then have "ParseStringToStream f (snd (Take ?s)) (os @ [39]) = Inr (r, t)"
        using "1.prems" True by (simp add: ParseStringToStream.simps [of f s] Let_def)
      then show ?thesis
        using "1.IH" (2) [OF refl True refl refl refl] 2 Take_length [of ?s] shorter by fastforce
    next
      case 3
      then show ?thesis
        using "1.IH" (3) [OF refl True refl refl refl _ _ _ 3(4) refl 3(5)] Take_length [of ?s] shorter
          ParseUnicode_length [OF 3(4)]
        by fastforce
    qed
  next
    case False
    then show ?thesis
    proof (cases "Peek s = 34")
      case True
      then show ?thesis
        using "1.prems" Peek_nonzero [of s] by (auto simp: ParseStringToStream.simps [of f s])
    next
      case quote: False
      then obtain u os' where u: "transcode_char f s os = (True, u, os')" "\<not> Peek s < 32"
          "ParseStringToStream f u os' = Inr (r, t)"
        using "1.prems" False
        by (auto simp: ParseStringToStream.simps [of f s] Let_def split: if_splits prod.splits bool.splits)
      then have "length (ss_src u) < length (ss_src s)"
        using transcode_char_decreases [of "(u, os')" f s os] by simp
      moreover have "length (ss_src t) < length (ss_src u)"
        using "1.IH" (4) [OF refl False quote u(2) u(1) [symmetric] refl _ u(3)] by simp
      ultimately show ?thesis
        by linarith
    qed
  qed
qed

lemma ParseString_len: "ParseString f k hnd x = Inr y \<Longrightarrow> Peek (fst x) \<noteq> 0 \<Longrightarrow> len y < len x"
  using Peek_nonzero [of "fst x"]
  by (auto simp: ParseString_def Let_def dest!: send_event_len ParseStringToStream_length split: prod.splits sum.splits)

lemma digits32_length: "length (ss_src (snd (digits32 neg n s))) \<le> length (ss_src s)"
proof (induction "length (ss_src s)" arbitrary: neg n s rule: less_induct)
  case less
  have "length (ss_src (snd (digits32 neg n (snd (Take s))))) \<le> length (ss_src s)" if "is_digit (Peek s)" for neg n
    using less [of "snd (Take s)"] class_shorter(2) [OF that] order.trans less_imp_le by blast
  then show ?case
    by (subst digits32.simps) (auto simp: Let_def)
qed

lemma digits64_length: "length (ss_src (snd (digits64 neg n s))) \<le> length (ss_src s)"
proof (induction "length (ss_src s)" arbitrary: neg n s rule: less_induct)
  case less
  have "length (ss_src (snd (digits64 neg n (snd (Take s))))) \<le> length (ss_src s)" if "is_digit (Peek s)" for neg n
    using less [of "snd (Take s)"] class_shorter(2) [OF that] order.trans less_imp_le by blast
  then show ?case
    by (subst digits64.simps) (auto simp: Let_def)
qed

lemma digits_double_length: "length (ss_src (snd (digits_double n s))) \<le> length (ss_src s)"
proof (induction "length (ss_src s)" arbitrary: n s rule: less_induct)
  case less
  have "length (ss_src (snd (digits_double n (snd (Take s))))) \<le> length (ss_src s)" if "is_digit (Peek s)" for n
    using less [of "snd (Take s)"] class_shorter(2) [OF that] order.trans less_imp_le by blast
  then show ?case
    by (subst digits_double.simps) (auto simp: Let_def)
qed

lemma frac64_length: "length (ss_src (snd (frac64 n s))) \<le> length (ss_src s)"
proof (induction "length (ss_src s)" arbitrary: n s rule: less_induct)
  case less
  have "length (ss_src (snd (frac64 n (snd (Take s))))) \<le> length (ss_src s)" if "is_digit (Peek s)" for n
    using less [of "snd (Take s)"] class_shorter(2) [OF that] order.trans less_imp_le by blast
  then show ?case
    by (subst frac64.simps) (auto simp: Let_def)
qed

lemma frac_double_length: "length (ss_src (snd (frac_double n s))) \<le> length (ss_src s)"
proof (induction "length (ss_src s)" arbitrary: n s rule: less_induct)
  case less
  have "length (ss_src (snd (frac_double n (snd (Take s))))) \<le> length (ss_src s)" if "is_digit (Peek s)" for n
    using less [of "snd (Take s)"] class_shorter(2) [OF that] order.trans less_imp_le by blast
  then show ?case
    by (subst frac_double.simps) (auto simp: Let_def)
qed

lemma exp_negative_length: "length (ss_src (snd (exp_negative m e s))) \<le> length (ss_src s)"
proof (induction "length (ss_src s)" arbitrary: e s rule: less_induct)
  case less
  have "length (ss_src (snd (exp_negative m e t))) \<le> length (ss_src s)"
    if "is_digit (Peek s)" "t = snd (Take s) \<or> t = skip_digits (snd (Take s))" for e t
  proof -
    have "length (ss_src t) < length (ss_src s)"
      using class_shorter(2) [OF that(1)] skip_digits_length [of "snd (Take s)"] that(2) by (elim disjE) simp_all
    then show ?thesis
      using less [of t e] by linarith
  qed
  then show ?case
    by (subst exp_negative.simps) (auto simp: Let_def)
qed

lemma exp_positive_length: "exp_positive m e s = Some (v, t) \<Longrightarrow> length (ss_src t) \<le> length (ss_src s)"
proof (induction "length (ss_src s)" arbitrary: e s rule: less_induct)
  case less
  have "length (ss_src t) \<le> length (ss_src s)"
    if "is_digit (Peek s)" "exp_positive m e (snd (Take s)) = Some (v, t)" for e
    using less(1) [OF class_shorter(2) that(2)] that Take_length [of s] by linarith
  then show ?case
    using less.prems by (auto simp: exp_positive.simps [of m e s] Let_def split: if_splits)
qed

lemmas number_lengths = digits32_length digits64_length digits_double_length frac64_length frac_double_length
  exp_negative_length

lemma large_part_length: "length (ss_src (snd (large_part neg n s))) \<le> length (ss_src s)"
  using digits64_length [of neg n s] digits_double_length [of "fst (digits64 neg n s)" "snd (digits64 neg n s)"]
    digits_double_length [of n s]
  by (auto simp: large_part_def case_prod_beta)

lemma ParseNanOrInf_length:
  assumes "ParseNanOrInf neg s = Inr (v, t)" "Peek s \<noteq> 0" shows "length (ss_src t) < length (ss_src s)"
proof -
  let ?s = "snd (Take s)"
  have "length (ss_src t) \<le> length (ss_src ?s)" if "Peek s = 78"
    using assms that Consume_all_length [of "[97, 78]" ?s]
    by (auto simp: ParseNanOrInf_def Consume_def [of 78] Let_def split: prod.splits if_splits)
  moreover have "length (ss_src t) \<le> length (ss_src ?s)" if "Peek s \<noteq> 78"
    using assms that Consume_all_length [of "[110, 102]" ?s]
      Consume_all_length [of "[105, 110, 105, 116, 121]" "snd (Consume_all [110, 102] ?s)"]
    by (auto simp: ParseNanOrInf_def Consume_def [of 73] Consume_def [of 78] Let_def simp del: Consume_all.simps(2)
        simp: Consume_all.simps(2) [of 73] split: prod.splits if_splits)
  ultimately show ?thesis
    using Peek_nonzero [OF assms(2)] by (cases "Peek s = 78") linarith+
qed

lemma integer_part_length:
  assumes "integer_part f neg s = Inr (v, t)" shows "length (ss_src t) < length (ss_src s)"
proof -
  have "Peek s \<noteq> 0"
    using assms by (auto simp: integer_part_def split: if_splits)
  then show ?thesis
    using assms digits32_length [of neg _ "snd (Take s)"] Peek_nonzero [of s]
    by (auto simp: integer_part_def case_prod_beta elim!: and_then_InrE dest: ParseNanOrInf_length
        intro: le_less_trans split: if_splits)
qed

lemma fraction_part_length:
  assumes "fraction_part n s = Inr (v, t)" shows "length (ss_src t) \<le> length (ss_src s)"
proof -
  have double: "length (ss_src t) \<le> length (ss_src u)" if "frac_double m u = (v, t)" for m u
    using frac_double_length [of m u] that by simp
  have "length (ss_src (snd (frac64 k (snd (Take s))))) \<le> length (ss_src s)" for k
    using frac64_length [of k "snd (Take s)"] Take_length [of s] by linarith
  then show ?thesis
    using assms
    by (auto simp: fraction_part_def Consume_def Let_def case_prod_beta dest!: double split: if_splits
        intro: order.trans)
qed

lemma exponent_part_length:
  assumes "exponent_part off n s = Inr (v, t)" shows "length (ss_src t) \<le> length (ss_src s)"
proof -
  have "length (ss_src (snd (exp_negative m e u))) \<le> length (ss_src s)"
    if "length (ss_src u) \<le> length (ss_src s)" for m e u
    using that exp_negative_length [of m e u] by linarith
  then show ?thesis
    using assms
    by (auto simp: exponent_part_def Consume_def Let_def case_prod_beta dest!: exp_positive_length
        split: if_splits option.splits)
qed

lemma number_text_length:
  assumes "number_text f s = Inr (ev, t)" shows "length (ss_src t) < length (ss_src s)"
proof -
  have "length (ss_src (snd (Consume 45 s))) \<le> length (ss_src s)"
    by (simp add: Consume_def)
  moreover have "length (ss_src v) \<le> length (ss_src u)"
    if "fraction_part m (snd (large_part neg n u)) = Inr (k, v)" for neg m n u k v
    using fraction_part_length [OF that] large_part_length [of neg n u] by linarith
  ultimately show ?thesis
    using assms
    by (auto simp: number_text_def Let_def case_prod_beta elim!: and_then_InrE split: option.splits
        dest!: integer_part_length exponent_part_length) (meson le_less_trans order.trans le_trans less_le_trans)+
qed

lemma ParseNumber_len: "ParseNumber f hnd x = Inr y \<Longrightarrow> len y < len x"
  by (auto simp: ParseNumber_def dest!: send_event_len number_text_length split: prod.splits sum.splits)

subsection \<open>The fuel is enough\<close>

lemma continue_SomeE:
  assumes "continue r k = Some (Inr y)" obtains x where "r = Some (Inr x)" "k x = Some (Inr y)"
  using assms by (auto simp: continue_def split: option.splits sum.splits)

lemma member_key_len:
  assumes "member_key f hnd x = Inr y" "Peek (fst x) \<noteq> 0" shows "len y < len x"
proof -
  obtain u v where "ParseString f True hnd x = Inr u" "skip f u = Inr v"
    "Peek (fst v) = 58" "skip f (snd (Take (fst v)), snd v) = Inr y"
    using assms(1)
    by (auto simp: member_key_def Consume_def case_prod_beta split: if_splits elim!: and_then_InrE)
  then have "len u < len x" "len v \<le> len u" "len y \<le> len v"
    using assms(2) ParseString_len [of f True hnd x u] skip_len [of f u v] skip_len [of f "(snd (Take (fst v)), snd v)" y]
      Take_length [of "fst v"] by auto
  then show ?thesis
    by linarith
qed

lemma object_members_SucE:
  assumes "object_members (Suc n) f hnd pv k x = Some (Inr y)"
  obtains (more) a b c d where "Peek (fst x) = 34" "member_key f hnd x = Inr a" "pv a = Some (Inr b)"
      "skip f b = Inr c" "Peek (fst c) = 44" "skip f (snd (Take (fst c)), snd c) = Inr d"
      "\<not> (kParseTrailingCommasFlag f \<and> Peek (fst d) = 125)" "object_members n f hnd pv (k + 1) d = Some (Inr y)"
  | (trailing) a b c d where "Peek (fst x) = 34" "member_key f hnd x = Inr a" "pv a = Some (Inr b)"
      "skip f b = Inr c" "Peek (fst c) = 44" "skip f (snd (Take (fst c)), snd c) = Inr d"
      "kParseTrailingCommasFlag f" "Peek (fst d) = 125" "bracket_after hnd (H_EndObject (k + 1)) d = Inr y"
  | (close) a b c where "Peek (fst x) = 34" "member_key f hnd x = Inr a" "pv a = Some (Inr b)"
      "skip f b = Inr c" "Peek (fst c) = 125" "bracket hnd (H_EndObject (k + 1)) c = Inr y"
  using assms by (auto simp: case_prod_beta Let_def elim!: continue_SomeE split: if_splits)

lemma object_members_len:
  assumes pv: "\<And>x y. pv x = Some (Inr y) \<Longrightarrow> len y < len x"
  shows "object_members n f hnd pv k x = Some (Inr y) \<Longrightarrow> len y < len x"
proof (induction n arbitrary: k x)
  case (Suc n)
  from Suc.prems show ?case
  proof (cases rule: object_members_SucE)
    case (more a b c d)
    then show ?thesis
      using Suc.IH [of "k + 1" d] member_key_len [of f hnd x a] pv [of a b] skip_len [of f b c] skip_len [of f "(snd (Take (fst c)), snd c)" d] by simp
  next
    case (trailing a b c d)
    then show ?thesis
      using bracket_after_len [of hnd "H_EndObject (k + 1)" d y] member_key_len [of f hnd x a] pv [of a b] skip_len [of f b c]
        skip_len [of f "(snd (Take (fst c)), snd c)" d] by simp
  next
    case (close a b c)
    then show ?thesis
      using bracket_len [of hnd "H_EndObject (k + 1)" c y] member_key_len [of f hnd x a] pv [of a b] skip_len [of f b c] by simp
  qed
qed simp

lemma array_elements_SucE:
  assumes "array_elements (Suc n) f hnd pv k x = Some (Inr y)"
  obtains (more) b c d where "pv x = Some (Inr b)"
      "skip f b = Inr c" "Peek (fst c) = 44" "skip f (snd (Take (fst c)), snd c) = Inr d"
      "\<not> (kParseTrailingCommasFlag f \<and> Peek (fst d) = 93)" "array_elements n f hnd pv (k + 1) d = Some (Inr y)"
  | (trailing) b c d where "pv x = Some (Inr b)"
      "skip f b = Inr c" "Peek (fst c) = 44" "skip f (snd (Take (fst c)), snd c) = Inr d"
      "kParseTrailingCommasFlag f" "Peek (fst d) = 93" "bracket_after hnd (H_EndArray (k + 1)) d = Inr y"
  | (close) b c where "pv x = Some (Inr b)"
      "skip f b = Inr c" "Peek (fst c) = 93" "bracket hnd (H_EndArray (k + 1)) c = Inr y"
  using assms by (auto simp: case_prod_beta Let_def elim!: continue_SomeE split: if_splits)

lemma array_elements_len:
  assumes pv: "\<And>x y. pv x = Some (Inr y) \<Longrightarrow> len y < len x"
  shows "array_elements n f hnd pv k x = Some (Inr y) \<Longrightarrow> len y < len x"
proof (induction n arbitrary: k x)
  case (Suc n)
  from Suc.prems show ?case
  proof (cases rule: array_elements_SucE)
    case (more b c d)
    then show ?thesis
      using Suc.IH [of "k + 1" d] pv [of x b] skip_len [of f b c] skip_len [of f "(snd (Take (fst c)), snd c)" d] by simp
  next
    case (trailing b c d)
    then show ?thesis
      using bracket_after_len [of hnd "H_EndArray (k + 1)" d y] pv [of x b] skip_len [of f b c]
        skip_len [of f "(snd (Take (fst c)), snd c)" d] by simp
  next
    case (close b c)
    then show ?thesis
      using bracket_len [of hnd "H_EndArray (k + 1)" c y] pv [of x b] skip_len [of f b c] by simp
  qed
qed simp

lemma ParseObject_len:
  assumes pv: "\<And>x y. pv x = Some (Inr y) \<Longrightarrow> len y < len x" and "Peek (fst x) \<noteq> 0"
    and res: "ParseObject n f hnd pv x = Some (Inr y)"
  shows "len y < len x"
proof -
  obtain a b where ab: "bracket hnd H_StartObject x = Inr a" "skip f a = Inr b"
    and y: "bracket hnd (H_EndObject 0) b = Inr y \<and> Peek (fst b) = 125 \<or> object_members n f hnd pv 0 b = Some (Inr y)"
    using res by (auto simp: ParseObject_def elim!: continue_SomeE and_then_InrE split: if_splits)
  have "len y < len b"
    using y bracket_len [of hnd "H_EndObject 0" b y] object_members_len [of pv n f hnd 0 b y] pv by auto
  then show ?thesis
    using bracket_len [OF ab(1) assms(2)] skip_len [OF ab(2)] by linarith
qed

lemma ParseArray_len:
  assumes pv: "\<And>x y. pv x = Some (Inr y) \<Longrightarrow> len y < len x" and "Peek (fst x) \<noteq> 0"
    and res: "ParseArray n f hnd pv x = Some (Inr y)"
  shows "len y < len x"
proof -
  obtain a b where ab: "bracket hnd H_StartArray x = Inr a" "skip f a = Inr b"
    and y: "bracket hnd (H_EndArray 0) b = Inr y \<and> Peek (fst b) = 93 \<or> array_elements n f hnd pv 0 b = Some (Inr y)"
    using res by (auto simp: ParseArray_def elim!: continue_SomeE and_then_InrE split: if_splits)
  have "len y < len b"
    using y bracket_len [of hnd "H_EndArray 0" b y] array_elements_len [of pv n f hnd 0 b y] pv by auto
  then show ?thesis
    using bracket_len [OF ab(1) assms(2)] skip_len [OF ab(2)] by linarith
qed

lemma ParseValue_len: "ParseValue n f hnd x = Some (Inr y) \<Longrightarrow> len y < len x"
proof (induction n arbitrary: x y)
  case (Suc n)
  then show ?case
    using ParseObject_len [of "ParseValue n f hnd" x n f hnd y] ParseArray_len [of "ParseValue n f hnd" x n f hnd y]
      ParseNumber_len [of f hnd x y] ParseString_len [of f False hnd x y]
    by (auto simp: Let_def ParseNull_def ParseTrue_def ParseFalse_def dest!: ParseLiteral_len split: if_splits)
qed simp

lemma continue_NoneE:
  assumes "continue r k = None" obtains "r = None" | x where "r = Some (Inr x)" "k x = None"
  using assms by (auto simp: continue_def split: option.splits sum.splits)

lemma object_members_NoneE:
  assumes "object_members (Suc n) f hnd pv k x = None"
  obtains (first) a where "Peek (fst x) = 34" "member_key f hnd x = Inr a" "pv a = None"
  | (more) a b c d where "Peek (fst x) = 34" "member_key f hnd x = Inr a" "pv a = Some (Inr b)"
      "skip f b = Inr c" "Peek (fst c) = 44" "skip f (snd (Take (fst c)), snd c) = Inr d"
      "object_members n f hnd pv (k + 1) d = None"
  using assms by (auto simp: case_prod_beta Let_def elim!: continue_NoneE split: if_splits)

lemma array_elements_NoneE:
  assumes "array_elements (Suc n) f hnd pv k x = None"
  obtains (first) "pv x = None"
  | (more) b c d where "pv x = Some (Inr b)" "skip f b = Inr c" "Peek (fst c) = 44"
      "skip f (snd (Take (fst c)), snd c) = Inr d" "array_elements n f hnd pv (k + 1) d = None"
  using assms by (auto simp: case_prod_beta Let_def elim!: continue_NoneE split: if_splits)

lemma object_members_enough:
  assumes pv: "\<And>x. len x < m \<Longrightarrow> pv x \<noteq> None" "\<And>x y. pv x = Some (Inr y) \<Longrightarrow> len y < len x"
  shows "len x < m \<Longrightarrow> len x < n \<Longrightarrow> object_members n f hnd pv k x \<noteq> None"
proof (induction n arbitrary: k x)
  case (Suc n)
  show ?case
  proof
    assume "object_members (Suc n) f hnd pv k x = None"
    then show False
    proof (cases rule: object_members_NoneE)
      case (first a)
      then show ?thesis
        using pv(1) [of a] member_key_len [of f hnd x a] Suc.prems by simp
    next
      case (more a b c d)
      then have "len d < len x"
        using member_key_len [of f hnd x a] pv(2) [of a b] skip_len [of f b c]
          skip_len [of f "(snd (Take (fst c)), snd c)" d] by simp
      then show ?thesis
        using Suc.IH [of d "k + 1"] Suc.prems more(7) by simp
    qed
  qed
qed simp

lemma array_elements_enough:
  assumes pv: "\<And>x. len x < m \<Longrightarrow> pv x \<noteq> None" "\<And>x y. pv x = Some (Inr y) \<Longrightarrow> len y < len x"
  shows "len x < m \<Longrightarrow> len x < n \<Longrightarrow> array_elements n f hnd pv k x \<noteq> None"
proof (induction n arbitrary: k x)
  case (Suc n)
  show ?case
  proof
    assume "array_elements (Suc n) f hnd pv k x = None"
    then show False
    proof (cases rule: array_elements_NoneE)
      case first
      then show ?thesis
        using pv(1) [of x] Suc.prems by simp
    next
      case (more b c d)
      then have "len d < len x"
        using pv(2) [of x b] skip_len [of f b c] skip_len [of f "(snd (Take (fst c)), snd c)" d] by simp
      then show ?thesis
        using Suc.IH [of d "k + 1"] Suc.prems more(5) by simp
    qed
  qed
qed simp

lemma ParseObject_enough:
  assumes pv: "\<And>x. len x < n \<Longrightarrow> pv x \<noteq> None" "\<And>x y. pv x = Some (Inr y) \<Longrightarrow> len y < len x"
    and x: "Peek (fst x) \<noteq> 0" "len x < Suc n"
  shows "ParseObject n f hnd pv x \<noteq> None"
proof
  assume "ParseObject n f hnd pv x = None"
  then obtain a b where "bracket hnd H_StartObject x = Inr a" "skip f a = Inr b" "object_members n f hnd pv 0 b = None"
    by (auto simp: ParseObject_def elim!: continue_NoneE and_then_InrE split: if_splits)
  then show False
    using object_members_enough [of n pv b n f hnd 0] pv bracket_len [of hnd H_StartObject x a] skip_len [of f a b] x by force
qed

lemma ParseArray_enough:
  assumes pv: "\<And>x. len x < n \<Longrightarrow> pv x \<noteq> None" "\<And>x y. pv x = Some (Inr y) \<Longrightarrow> len y < len x"
    and x: "Peek (fst x) \<noteq> 0" "len x < Suc n"
  shows "ParseArray n f hnd pv x \<noteq> None"
proof
  assume "ParseArray n f hnd pv x = None"
  then obtain a b where "bracket hnd H_StartArray x = Inr a" "skip f a = Inr b" "array_elements n f hnd pv 0 b = None"
    by (auto simp: ParseArray_def elim!: continue_NoneE and_then_InrE split: if_splits)
  then show False
    using array_elements_enough [of n pv b n f hnd 0] pv bracket_len [of hnd H_StartArray x a] skip_len [of f a b] x by force
qed

lemma ParseValue_enough: "len x < n \<Longrightarrow> ParseValue n f hnd x \<noteq> None"
proof (induction n arbitrary: x)
  case (Suc n)
  note IH = Suc.IH ParseValue_len
  show ?case
    using ParseObject_enough [of n "ParseValue n f hnd" x f hnd, OF IH _ Suc.prems]
      ParseArray_enough [of n "ParseValue n f hnd" x f hnd, OF IH _ Suc.prems]
    by (auto simp: Let_def)
qed simp

lemma recursive_parse_enough: "recursive_parse f hnd x \<noteq> None"
proof
  assume "recursive_parse f hnd x = None"
  then obtain a where "ParseValue (stream_fuel (fst a)) f hnd a = None"
    by (auto simp: recursive_parse_def elim!: continue_NoneE split: if_splits)
  then show False
    using ParseValue_enough [of a "stream_fuel (fst a)" f hnd] by (simp add: stream_fuel_def)
qed

text \<open>C21. The recursive parser always returns: whatever the text, the flags and the handler
  (which may refuse any event at any time), the calls of \<open>ParseValue\<close>, \<open>ParseObject\<close> and
  \<open>ParseArray\<close> and all the loops of strings, numbers, white space and comments come to an end,
  with an error or with the stream at least one byte further. The fuel of the definition, the
  length of the text plus one, is never used up.\<close>

theorem reader_returns:
  "case recursive_parse f hnd x of
     None \<Rightarrow> False
   | Some (Inl _) \<Rightarrow> True
   | Some (Inr y) \<Rightarrow> length (ss_src (fst y)) < length (ss_src (fst x))"
proof -
  have "len y < len x" if y: "recursive_parse f hnd x = Some (Inr y)" for y
  proof -
    obtain a b where "skip f x = Inr a" "ParseValue (stream_fuel (fst a)) f hnd a = Some (Inr b)" "b = y \<or> skip f b = Inr y"
      using y by (auto simp: recursive_parse_def case_prod_beta elim!: continue_SomeE split: if_splits)
    then show ?thesis
      using skip_len [of f x a] ParseValue_len [of "stream_fuel (fst a)" f hnd a b] skip_len [of f b y] by auto
  qed
  then show ?thesis
    using recursive_parse_enough [of f hnd x] by (auto split: option.split sum.split)
qed

end
