(* ===== verification/JsonIterative.thy ===== *)
theory JsonIterative
  imports JsonReaderProps
begin

section \<open>rapidjson: the iterative parser\<close>

text \<open>
  \<open>src/battle/3rd/rapidjson/reader.h\<close>, the second half of \<open>GenericReader\<close>: the table-driven
  parser without recursion, with its stack of states and counts. It accepts the texts that the
  recursive parser accepts, with the same events.
\<close>

subsection \<open>Tokens and states\<close>

datatype iterative_state =
    IterativeParsingFinishState | IterativeParsingErrorState | IterativeParsingStartState
  | IterativeParsingObjectInitialState | IterativeParsingMemberKeyState | IterativeParsingMemberValueState
  | IterativeParsingObjectFinishState
  | IterativeParsingArrayInitialState | IterativeParsingElementState | IterativeParsingArrayFinishState
  | IterativeParsingValueState
  | IterativeParsingElementDelimiterState | IterativeParsingMemberDelimiterState
  | IterativeParsingKeyValueDelimiterState

datatype json_token =
    LeftBracketToken | RightBracketToken | LeftCurlyBracketToken | RightCurlyBracketToken
  | CommaToken | ColonToken | StringToken | FalseToken | TrueToken | NullToken | NumberToken

definition Tokenize :: "u8 \<Rightarrow> json_token" where
  "Tokenize c =
     (if c = 34 then StringToken else if c = 44 then CommaToken else if c = 58 then ColonToken
      else if c = 91 then LeftBracketToken else if c = 93 then RightBracketToken
      else if c = 102 then FalseToken else if c = 110 then NullToken else if c = 116 then TrueToken
      else if c = 123 then LeftCurlyBracketToken else if c = 125 then RightCurlyBracketToken
      else NumberToken)"

text \<open>The rows of the table for the states that expect a value, and the table.\<close>

fun predict_value :: "iterative_state \<Rightarrow> json_token \<Rightarrow> iterative_state" where
  "predict_value single LeftBracketToken = IterativeParsingArrayInitialState"
| "predict_value single LeftCurlyBracketToken = IterativeParsingObjectInitialState"
| "predict_value single StringToken = single"
| "predict_value single FalseToken = single"
| "predict_value single TrueToken = single"
| "predict_value single NullToken = single"
| "predict_value single NumberToken = single"
| "predict_value single _ = IterativeParsingErrorState"

fun Predict :: "iterative_state \<Rightarrow> json_token \<Rightarrow> iterative_state" where
  "Predict IterativeParsingStartState t = predict_value IterativeParsingValueState t"
| "Predict IterativeParsingObjectInitialState t =
     (case t of RightCurlyBracketToken \<Rightarrow> IterativeParsingObjectFinishState
      | StringToken \<Rightarrow> IterativeParsingMemberKeyState | _ \<Rightarrow> IterativeParsingErrorState)"
| "Predict IterativeParsingMemberKeyState t =
     (case t of ColonToken \<Rightarrow> IterativeParsingKeyValueDelimiterState | _ \<Rightarrow> IterativeParsingErrorState)"
| "Predict IterativeParsingMemberValueState t =
     (case t of RightCurlyBracketToken \<Rightarrow> IterativeParsingObjectFinishState
      | CommaToken \<Rightarrow> IterativeParsingMemberDelimiterState | _ \<Rightarrow> IterativeParsingErrorState)"
| "Predict IterativeParsingArrayInitialState t =
     (case t of RightBracketToken \<Rightarrow> IterativeParsingArrayFinishState
      | _ \<Rightarrow> predict_value IterativeParsingElementState t)"
| "Predict IterativeParsingElementState t =
     (case t of RightBracketToken \<Rightarrow> IterativeParsingArrayFinishState
      | CommaToken \<Rightarrow> IterativeParsingElementDelimiterState | _ \<Rightarrow> IterativeParsingErrorState)"
| "Predict IterativeParsingElementDelimiterState t =
     (case t of RightBracketToken \<Rightarrow> IterativeParsingArrayFinishState
      | _ \<Rightarrow> predict_value IterativeParsingElementState t)"
| "Predict IterativeParsingMemberDelimiterState t =
     (case t of RightCurlyBracketToken \<Rightarrow> IterativeParsingObjectFinishState
      | StringToken \<Rightarrow> IterativeParsingMemberKeyState | _ \<Rightarrow> IterativeParsingErrorState)"
| "Predict IterativeParsingKeyValueDelimiterState t = predict_value IterativeParsingMemberValueState t"
| "Predict _ t = IterativeParsingErrorState"

subsection \<open>Transitions\<close>

text \<open>The stack holds the states to come back to and the counts of members or elements.\<close>

type_synonym frames = "(iterative_state \<times> nat) list"

text \<open>
  What a transition gives: an error it reports, or the next state, which may be the error state
  without a report. Nothing stands for a failed assertion.
\<close>

type_synonym 'h transition = "(parse_error \<times> 'h + iterative_state \<times> frames \<times> stream \<times> 'h) option"

definition to_state :: "iterative_state \<Rightarrow> frames \<Rightarrow> 'h parsing \<Rightarrow> 'h transition" where
  "to_state d stack r = map_option (map_sum id (\<lambda>x. (d, stack, x))) r"

definition return_state :: "iterative_state \<Rightarrow> iterative_state" where
  "return_state src =
     (if src = IterativeParsingArrayInitialState \<or> src = IterativeParsingElementDelimiterState
      then IterativeParsingElementState
      else if src = IterativeParsingKeyValueDelimiterState then IterativeParsingMemberValueState else src)"

definition Transit ::
  "parse_flags \<Rightarrow> 'h handler \<Rightarrow> iterative_state \<Rightarrow> json_token \<Rightarrow> iterative_state \<Rightarrow> frames \<Rightarrow> stream \<times> 'h
   \<Rightarrow> 'h transition" where
  "Transit f hnd src t dst stack x =
     (case dst of
        IterativeParsingErrorState \<Rightarrow> Some (Inr (dst, stack, x))
      | IterativeParsingObjectInitialState \<Rightarrow>
          to_state dst ((return_state src, 0) # stack) (Some (bracket_after hnd H_StartObject x))
      | IterativeParsingArrayInitialState \<Rightarrow>
          to_state dst ((return_state src, 0) # stack) (Some (bracket_after hnd H_StartArray x))
      | IterativeParsingMemberKeyState \<Rightarrow> to_state dst stack (Some (ParseString f True hnd x))
      | IterativeParsingKeyValueDelimiterState \<Rightarrow>
          if t \<noteq> ColonToken then None else Some (Inr (dst, stack, snd (Take (fst x)), snd x))
      | IterativeParsingMemberValueState \<Rightarrow> to_state dst stack (ParseValue (stream_fuel (fst x)) f hnd x)
      | IterativeParsingElementState \<Rightarrow> to_state dst stack (ParseValue (stream_fuel (fst x)) f hnd x)
      | IterativeParsingMemberDelimiterState \<Rightarrow>
          (case stack of [] \<Rightarrow> None
           | (n, c) # stack \<Rightarrow> Some (Inr (dst, (n, c + 1) # stack, snd (Take (fst x)), snd x)))
      | IterativeParsingElementDelimiterState \<Rightarrow>
          (case stack of [] \<Rightarrow> None
           | (n, c) # stack \<Rightarrow> Some (Inr (dst, (n, c + 1) # stack, snd (Take (fst x)), snd x)))
      | IterativeParsingObjectFinishState \<Rightarrow>
          if \<not> kParseTrailingCommasFlag f \<and> src = IterativeParsingMemberDelimiterState
          then Some (Inl ((kParseErrorObjectMissName, Tell (fst x)), snd x))
          else (case stack of [] \<Rightarrow> None
           | (n, c) # stack \<Rightarrow>
               let c = (if src = IterativeParsingMemberValueState then c + 1 else c);
                   n = (if n = IterativeParsingStartState then IterativeParsingFinishState else n)
               in to_state n stack (Some (bracket_after hnd (H_EndObject c) x)))
      | IterativeParsingArrayFinishState \<Rightarrow>
          if \<not> kParseTrailingCommasFlag f \<and> src = IterativeParsingElementDelimiterState
          then Some (Inl ((kParseErrorValueInvalid, Tell (fst x)), snd x))
          else (case stack of [] \<Rightarrow> None
           | (n, c) # stack \<Rightarrow>
               let c = (if src = IterativeParsingElementState then c + 1 else c);
                   n = (if n = IterativeParsingStartState then IterativeParsingFinishState else n)
               in to_state n stack (Some (bracket_after hnd (H_EndArray c) x)))
      | IterativeParsingValueState \<Rightarrow>
          to_state IterativeParsingFinishState stack (ParseValue (stream_fuel (fst x)) f hnd x)
      | _ \<Rightarrow> None)"

definition HandleError :: "iterative_state \<Rightarrow> stream \<Rightarrow> parse_error" where
  "HandleError src s =
     (case src of
        IterativeParsingStartState \<Rightarrow> kParseErrorDocumentEmpty
      | IterativeParsingFinishState \<Rightarrow> kParseErrorDocumentRootNotSingular
      | IterativeParsingObjectInitialState \<Rightarrow> kParseErrorObjectMissName
      | IterativeParsingMemberDelimiterState \<Rightarrow> kParseErrorObjectMissName
      | IterativeParsingMemberKeyState \<Rightarrow> kParseErrorObjectMissColon
      | IterativeParsingMemberValueState \<Rightarrow> kParseErrorObjectMissCommaOrCurlyBracket
      | IterativeParsingKeyValueDelimiterState \<Rightarrow> kParseErrorValueInvalid
      | IterativeParsingArrayInitialState \<Rightarrow> kParseErrorValueInvalid
      | IterativeParsingElementDelimiterState \<Rightarrow> kParseErrorValueInvalid
      | _ \<Rightarrow> kParseErrorArrayMissCommaOrSquareBracket, Tell s)"

subsection \<open>The loop\<close>

primrec iterative_loop ::
  "nat \<Rightarrow> parse_flags \<Rightarrow> 'h handler \<Rightarrow> iterative_state \<Rightarrow> frames \<Rightarrow> stream \<times> 'h \<Rightarrow> 'h parsing" where
  "iterative_loop 0 f hnd state stack x = None"
| "iterative_loop (Suc m) f hnd state stack x =
     (if Peek (fst x) = 0 then
        Some (if state \<noteq> IterativeParsingFinishState then Inl (HandleError state (fst x), snd x) else Inr x)
      else
        let t = Tokenize (Peek (fst x))
        in case Transit f hnd state t (Predict state t) stack x of
             None \<Rightarrow> None
           | Some (Inl e) \<Rightarrow> Some (Inl e)
           | Some (Inr (d, stack, y)) \<Rightarrow>
               if d = IterativeParsingErrorState then Some (Inl (HandleError state (fst y), snd y))
               else if kParseStopWhenDoneFlag f \<and> d = IterativeParsingFinishState then Some (Inr y)
               else continue (Some (skip f y)) (iterative_loop m f hnd d stack))"

definition IterativeParse :: "parse_flags \<Rightarrow> 'h handler \<Rightarrow> stream \<times> 'h \<Rightarrow> 'h parsing" where
  "IterativeParse f hnd x =
     continue (Some (skip f x)) (\<lambda>x.
       iterative_loop (stream_fuel (fst x)) f hnd IterativeParsingStartState [] x)"

text \<open>\<open>GenericReader::Parse\<close>.\<close>

definition Parse :: "parse_flags \<Rightarrow> 'h handler \<Rightarrow> stream \<times> 'h \<Rightarrow> 'h parsing" where
  "Parse f hnd x = (if kParseIterativeFlag f then IterativeParse f hnd x else recursive_parse f hnd x)"

subsection \<open>Fuel\<close>

lemma to_state_simps [simp]:
  "to_state d stack None = None" "to_state d stack (Some (Inl e)) = Some (Inl e)"
  "to_state d stack (Some (Inr y)) = Some (Inr (d, stack, y))"
  by (simp_all add: to_state_def)

lemma to_state_InrD: "to_state d stack r = Some (Inr (e, st, y)) \<Longrightarrow> e = d \<and> st = stack \<and> r = Some (Inr y)"
  by (cases r; cases "the r") auto

lemma Transit_len:
  assumes "Transit f hnd src t dst stack x = Some (Inr (d, st, y))" "Peek (fst x) \<noteq> 0" "d \<noteq> IterativeParsingErrorState"
  shows "len y < len x"
proof -
  have take: "len (snd (Take (fst x)), snd x) < len x"
    using Peek_nonzero [OF assms(2)] by simp
  show ?thesis
    using assms take
    by (cases dst; cases stack)
      (auto simp: Transit_def Let_def dest!: to_state_InrD split: if_splits prod.splits
        intro: ParseValue_len ParseString_len bracket_after_len)
qed

lemma iterative_loop_fuel:
  "len x < m \<Longrightarrow> len x < m' \<Longrightarrow> iterative_loop m f hnd state stack x = iterative_loop m' f hnd state stack x"
proof (induction m arbitrary: m' state stack x)
  case (Suc m)
  then obtain k where k: "m' = Suc k"
    by (cases m') auto
  have "iterative_loop m f hnd d st z = iterative_loop k f hnd d st z"
    if "Transit f hnd state t dst stack x = Some (Inr (d, st, y))" "Peek (fst x) \<noteq> 0"
      "d \<noteq> IterativeParsingErrorState" "skip f y = Inr z" for t dst d st y z
    using Transit_len [OF that(1-3)] skip_len [OF that(4)] Suc.prems k by (intro Suc.IH) auto
  then show ?case
    by (auto simp: k Let_def continue_def split: option.split sum.split prod.split)
qed simp

definition run :: "parse_flags \<Rightarrow> 'h handler \<Rightarrow> iterative_state \<Rightarrow> frames \<Rightarrow> stream \<times> 'h \<Rightarrow> 'h parsing" where
  "run f hnd state stack x = iterative_loop (stream_fuel (fst x)) f hnd state stack x"

definition go :: "parse_flags \<Rightarrow> 'h handler \<Rightarrow> iterative_state \<Rightarrow> frames \<Rightarrow> stream \<times> 'h \<Rightarrow> 'h parsing" where
  "go f hnd d stack y =
     (if kParseStopWhenDoneFlag f \<and> d = IterativeParsingFinishState then Some (Inr y)
      else continue (Some (skip f y)) (run f hnd d stack))"

lemma run_unfold:
  "run f hnd state stack x =
     (if Peek (fst x) = 0 then
        Some (if state \<noteq> IterativeParsingFinishState then Inl (HandleError state (fst x), snd x) else Inr x)
      else
        let t = Tokenize (Peek (fst x))
        in case Transit f hnd state t (Predict state t) stack x of
             None \<Rightarrow> None
           | Some (Inl e) \<Rightarrow> Some (Inl e)
           | Some (Inr (d, stack, y)) \<Rightarrow>
               if d = IterativeParsingErrorState then Some (Inl (HandleError state (fst y), snd y))
               else go f hnd d stack y)"
proof -
  have "iterative_loop (len x) f hnd d st z = run f hnd d st z"
    if "Transit f hnd state t dst stack x = Some (Inr (d, st, y))" "Peek (fst x) \<noteq> 0"
      "d \<noteq> IterativeParsingErrorState" "skip f y = Inr z" for t dst d st y z
    unfolding run_def stream_fuel_def
    using Transit_len [OF that(1-3)] skip_len [OF that(4)] by (intro iterative_loop_fuel) auto
  then show ?thesis
    unfolding run_def [of f hnd state] stream_fuel_def
    by (auto simp: go_def Let_def continue_def split: option.split sum.split prod.split)
qed

subsection \<open>The steps of the loop\<close>

definition final_state :: "iterative_state \<Rightarrow> iterative_state" where
  "final_state n = (if n = IterativeParsingStartState then IterativeParsingFinishState else n)"

definition rejected :: "'h parsing \<Rightarrow> bool" where
  "rejected r \<longleftrightarrow> (\<exists>e. r = Some (Inl e))"

lemma rejected_Inl [simp]: "rejected (Some (Inl e))"
  by (simp add: rejected_def)

lemma Tokenize_simps [simp]:
  "Tokenize 34 = StringToken" "Tokenize 44 = CommaToken" "Tokenize 58 = ColonToken"
  "Tokenize 91 = LeftBracketToken" "Tokenize 93 = RightBracketToken" "Tokenize 102 = FalseToken"
  "Tokenize 110 = NullToken" "Tokenize 116 = TrueToken" "Tokenize 123 = LeftCurlyBracketToken"
  "Tokenize 125 = RightCurlyBracketToken"
  by (simp_all add: Tokenize_def)

lemma Tokenize_iff:
  "Tokenize c = StringToken \<longleftrightarrow> c = 34" "Tokenize c = CommaToken \<longleftrightarrow> c = 44" "Tokenize c = ColonToken \<longleftrightarrow> c = 58"
  "Tokenize c = LeftBracketToken \<longleftrightarrow> c = 91" "Tokenize c = RightBracketToken \<longleftrightarrow> c = 93"
  "Tokenize c = LeftCurlyBracketToken \<longleftrightarrow> c = 123" "Tokenize c = RightCurlyBracketToken \<longleftrightarrow> c = 125"
  by (auto simp: Tokenize_def)

text \<open>The loop once the token and the transition are known.\<close>

lemma run_step:
  assumes "Peek (fst x) \<noteq> 0" "Transit f hnd st (Tokenize (Peek (fst x))) (Predict st (Tokenize (Peek (fst x)))) stack x
      = to_state d stack' r" "d \<noteq> IterativeParsingErrorState"
  shows "run f hnd st stack x = continue r (go f hnd d stack')"
  using assms by (subst run_unfold) (auto simp: to_state_def continue_def Let_def split: option.split sum.split)

lemma go_next:
  "d \<noteq> IterativeParsingFinishState \<Longrightarrow> go f hnd d stack = (\<lambda>y. continue (Some (skip f y)) (run f hnd d stack))"
  by (simp add: go_def fun_eq_iff)

lemma run_key:
  assumes "st = IterativeParsingObjectInitialState \<or> st = IterativeParsingMemberDelimiterState" "Peek (fst x) = 34"
  shows "run f hnd st stack x = continue (Some (ParseString f True hnd x))
     (\<lambda>y. continue (Some (skip f y)) (run f hnd IterativeParsingMemberKeyState stack))"
  by (subst go_next [symmetric], simp, rule run_step) (use assms in \<open>auto simp: Transit_def\<close>)

lemma run_rejected:
  assumes "Peek (fst x) \<noteq> 0 \<Longrightarrow> Predict st (Tokenize (Peek (fst x))) = IterativeParsingErrorState"
    "st \<noteq> IterativeParsingFinishState"
  shows "rejected (run f hnd st stack x)"
  using assms by (subst run_unfold) (simp add: Transit_def Let_def)

lemma Predict_error:
  "t \<noteq> ColonToken \<Longrightarrow> Predict IterativeParsingMemberKeyState t = IterativeParsingErrorState"
  "t \<noteq> CommaToken \<Longrightarrow> t \<noteq> RightCurlyBracketToken \<Longrightarrow> Predict IterativeParsingMemberValueState t = IterativeParsingErrorState"
  "t \<noteq> StringToken \<Longrightarrow> t \<noteq> RightCurlyBracketToken \<Longrightarrow> Predict IterativeParsingObjectInitialState t = IterativeParsingErrorState"
  "t \<noteq> StringToken \<Longrightarrow> t \<noteq> RightCurlyBracketToken \<Longrightarrow> Predict IterativeParsingMemberDelimiterState t = IterativeParsingErrorState"
  "t \<noteq> CommaToken \<Longrightarrow> t \<noteq> RightBracketToken \<Longrightarrow> Predict IterativeParsingElementState t = IterativeParsingErrorState"
  by (cases t; simp)+

lemma run_colon:
  "Peek (fst x) = 58 \<Longrightarrow> run f hnd IterativeParsingMemberKeyState stack x =
     continue (Some (skip f (snd (Take (fst x)), snd x))) (run f hnd IterativeParsingKeyValueDelimiterState stack)"
  "Peek (fst x) \<noteq> 58 \<Longrightarrow> rejected (run f hnd IterativeParsingMemberKeyState stack x)"
   apply (subst run_unfold, simp add: Transit_def go_def)
  apply (rule run_rejected; simp add: Predict_error Tokenize_iff del: Predict.simps)
  done

lemma run_member:
  "Peek (fst x) = 44 \<Longrightarrow> run f hnd IterativeParsingMemberValueState ((n, k) # stack) x =
     continue (Some (skip f (snd (Take (fst x)), snd x))) (run f hnd IterativeParsingMemberDelimiterState ((n, k + 1) # stack))"
  "Peek (fst x) = 125 \<Longrightarrow> n \<noteq> IterativeParsingErrorState \<Longrightarrow> run f hnd IterativeParsingMemberValueState ((n, k) # stack) x =
     continue (Some (bracket_after hnd (H_EndObject (k + 1)) x)) (go f hnd (final_state n) stack)"
  "Peek (fst x) \<noteq> 44 \<Longrightarrow> Peek (fst x) \<noteq> 125 \<Longrightarrow> rejected (run f hnd IterativeParsingMemberValueState stk x)"
    apply (subst run_unfold, simp add: Transit_def go_def)
   apply (subst run_unfold, auto simp: Transit_def final_state_def Let_def continue_def split: option.split sum.split)[1]
  apply (rule run_rejected; simp add: Predict_error Tokenize_iff del: Predict.simps)
  done

lemma run_element:
  "Peek (fst x) = 44 \<Longrightarrow> run f hnd IterativeParsingElementState ((n, k) # stack) x =
     continue (Some (skip f (snd (Take (fst x)), snd x))) (run f hnd IterativeParsingElementDelimiterState ((n, k + 1) # stack))"
  "Peek (fst x) = 93 \<Longrightarrow> n \<noteq> IterativeParsingErrorState \<Longrightarrow> run f hnd IterativeParsingElementState ((n, k) # stack) x =
     continue (Some (bracket_after hnd (H_EndArray (k + 1)) x)) (go f hnd (final_state n) stack)"
  "Peek (fst x) \<noteq> 44 \<Longrightarrow> Peek (fst x) \<noteq> 93 \<Longrightarrow> rejected (run f hnd IterativeParsingElementState stk x)"
    apply (subst run_unfold, simp add: Transit_def go_def)
   apply (subst run_unfold, auto simp: Transit_def final_state_def Let_def continue_def split: option.split sum.split)[1]
  apply (rule run_rejected; simp add: Predict_error Tokenize_iff del: Predict.simps)
  done

text \<open>A closing bracket where a member or an element may begin.\<close>

lemma run_close:
  assumes "n \<noteq> IterativeParsingErrorState"
  shows "Peek (fst x) = 125 \<Longrightarrow> st = IterativeParsingObjectInitialState \<or> kParseTrailingCommasFlag f \<and> st = IterativeParsingMemberDelimiterState \<Longrightarrow>
     run f hnd st ((n, k) # stack) x =
     continue (Some (bracket_after hnd (H_EndObject k) x)) (go f hnd (final_state n) stack)"
  "Peek (fst x) = 93 \<Longrightarrow> st = IterativeParsingArrayInitialState \<or> kParseTrailingCommasFlag f \<and> st = IterativeParsingElementDelimiterState \<Longrightarrow>
     run f hnd st ((n, k) # stack) x =
     continue (Some (bracket_after hnd (H_EndArray k) x)) (go f hnd (final_state n) stack)"
  using assms
  by (subst run_unfold, auto simp: Transit_def final_state_def Let_def continue_def split: option.split sum.split)+

lemma run_no_trailing:
  "\<not> kParseTrailingCommasFlag f \<Longrightarrow> Peek (fst x) = 125 \<Longrightarrow> rejected (run f hnd IterativeParsingMemberDelimiterState stk x)"
  "\<not> kParseTrailingCommasFlag f \<Longrightarrow> Peek (fst x) = 93 \<Longrightarrow> rejected (run f hnd IterativeParsingElementDelimiterState stk x)"
  by (subst run_unfold, simp add: Transit_def)+

text \<open>Where a value is expected.\<close>

definition next_state :: "iterative_state \<Rightarrow> iterative_state" where
  "next_state st = final_state (return_state st)"

definition value_state :: "iterative_state \<Rightarrow> bool" where
  "value_state st \<longleftrightarrow> st = IterativeParsingStartState \<or> st = IterativeParsingArrayInitialState
     \<or> st = IterativeParsingElementDelimiterState \<or> st = IterativeParsingKeyValueDelimiterState"

lemma run_scalar:
  assumes "value_state st" "Tokenize (Peek (fst x)) \<in> {StringToken, FalseToken, TrueToken, NullToken, NumberToken}"
    "Peek (fst x) \<noteq> 0"
  shows "run f hnd st stack x =
     continue (ParseValue (stream_fuel (fst x)) f hnd x) (go f hnd (next_state st) stack)"
  by (rule run_step)
    (use assms in \<open>auto simp: value_state_def next_state_def final_state_def return_state_def Transit_def\<close>)

lemma run_open:
  assumes "value_state st"
  shows "Peek (fst x) = 123 \<Longrightarrow> run f hnd st stack x =
     continue (Some (bracket_after hnd H_StartObject x))
       (\<lambda>y. continue (Some (skip f y)) (run f hnd IterativeParsingObjectInitialState ((return_state st, 0) # stack)))"
  "Peek (fst x) = 91 \<Longrightarrow> run f hnd st stack x =
     continue (Some (bracket_after hnd H_StartArray x))
       (\<lambda>y. continue (Some (skip f y)) (run f hnd IterativeParsingArrayInitialState ((return_state st, 0) # stack)))"
  by (subst go_next [symmetric], simp, rule run_step;
      use assms in \<open>auto simp: value_state_def Transit_def\<close>)+

subsection \<open>The iterative parser follows the recursive one\<close>

text \<open>
  What the loop does compared with a function of the recursive parser: after a success it is at
  the state that follows, after an error it has failed.
\<close>

definition follows :: "'h parsing \<Rightarrow> (stream \<times> 'h \<Rightarrow> 'h parsing) \<Rightarrow> 'h parsing \<Rightarrow> bool" where
  "follows r after it \<longleftrightarrow>
     (case r of None \<Rightarrow> False | Some (Inl e) \<Rightarrow> rejected it | Some (Inr y) \<Rightarrow> it = after y)"

lemma follows_simps [simp]:
  "follows (Some (Inr y)) after it \<longleftrightarrow> it = after y" "follows (Some (Inl e)) after it \<longleftrightarrow> rejected it"
  by (simp_all add: follows_def)

lemma follows_continue:
  assumes "follows r1 mid it" "\<And>y. r1 = Some (Inr y) \<Longrightarrow> follows (k y) after (mid y)"
  shows "follows (continue r1 k) after it"
  using assms by (auto simp: follows_def continue_def split: option.splits sum.splits)

lemma follows_same: "follows (Some r) after (continue (Some r) after)"
  by (cases r) simp_all

lemma follows_continue_same:
  assumes "\<And>y. r = Inr y \<Longrightarrow> follows (k y) after (mid y)"
  shows "follows (continue (Some r) k) after (continue (Some r) mid)"
  using assms by (intro follows_continue [OF follows_same]) auto

lemma bracket_after_eq:
  "continue (Some (bracket_after hnd ev x)) k
   = (case hnd ev (snd x) of (True, h) \<Rightarrow> k (snd (Take (fst x)), h)
      | (False, h) \<Rightarrow> Some (Inl ((kParseErrorTermination, Tell (fst x)), h)))"
  by (auto simp: bracket_after_def send_event_def split: prod.splits bool.splits)

lemma bracket_eq:
  "continue (Some (bracket hnd ev x)) k
   = (case hnd ev (snd x) of (True, h) \<Rightarrow> k (snd (Take (fst x)), h)
      | (False, h) \<Rightarrow> Some (Inl ((kParseErrorTermination, Tell (snd (Take (fst x)))), h)))"
  by (auto simp: bracket_def send_event_def Let_def split: prod.splits bool.splits)

text \<open>The event of a bracket, before or after the bracket is taken.\<close>

lemma follows_bracket: "follows (Some (bracket hnd ev x)) after (continue (Some (bracket_after hnd ev x)) after)"
  by (auto simp: bracket_after_eq bracket_def send_event_def Let_def split: prod.splits bool.splits)

lemma follows_bracket_after:
  "follows (Some (bracket_after hnd ev x)) after (continue (Some (bracket_after hnd ev x)) after)"
  by (rule follows_same)

lemma continue_and_then: "continue (Some (and_then r k)) g = continue (Some r) (\<lambda>x. continue (Some (k x)) g)"
  by (cases r) simp_all

lemma continue_assoc: "continue (continue r k) g = continue r (\<lambda>x. continue (k x) g)"
  by (auto simp: continue_def split: option.splits sum.splits)

text \<open>A key and its colon.\<close>

lemma follows_member_key:
  assumes "st = IterativeParsingObjectInitialState \<or> st = IterativeParsingMemberDelimiterState" "Peek (fst x) = 34"
  shows "follows (Some (member_key f hnd x)) (run f hnd IterativeParsingKeyValueDelimiterState stack) (run f hnd st stack x)"
proof -
  have "follows (continue (Some (member_key f hnd x)) (\<lambda>y. Some (Inr y)))
      (run f hnd IterativeParsingKeyValueDelimiterState stack) (run f hnd st stack x)"
    unfolding member_key_def continue_and_then run_key [OF assms]
  proof (intro follows_continue_same, goal_cases)
    case (1 y z)
    then show ?case
      using follows_same [of "skip f (snd (Take (fst z)), snd z)"] run_colon [of z f hnd stack]
      by (cases "Peek (fst z) = 58") (auto simp: Consume_def case_prod_beta continue_def follows_def split: sum.splits)
  qed
  then show ?thesis
    by (cases "member_key f hnd x") auto
qed

lemma follows_members:
  assumes pv: "\<And>x stack. len x < N \<Longrightarrow> follows (pv x) (go f hnd IterativeParsingMemberValueState stack)
      (run f hnd IterativeParsingKeyValueDelimiterState stack x)"
    and pv_len: "\<And>x y. pv x = Some (Inr y) \<Longrightarrow> len y < len x" and ret: "ret \<noteq> IterativeParsingErrorState"
  shows "len x < N \<Longrightarrow> len x < n \<Longrightarrow> st = IterativeParsingObjectInitialState \<or> st = IterativeParsingMemberDelimiterState \<Longrightarrow>
    (Peek (fst x) = 125 \<Longrightarrow> st = IterativeParsingMemberDelimiterState \<and> \<not> kParseTrailingCommasFlag f) \<Longrightarrow>
    follows (object_members n f hnd pv k x) (go f hnd (final_state ret) stack) (run f hnd st ((ret, k) # stack) x)"
proof (induction n arbitrary: k x st)
  case (Suc n)
  show ?case
  proof (cases "Peek (fst x) = 34")
    case False
    have "rejected (run f hnd st ((ret, k) # stack) x)"
    proof (cases "Peek (fst x) = 125")
      case True
      then show ?thesis
        using Suc.prems(4) run_no_trailing(1) by blast
    next
      case other: False
      show ?thesis
        by (rule run_rejected; use Suc.prems(3) False other in \<open>auto simp: Predict_error Tokenize_iff simp del: Predict.simps\<close>)
    qed
    then show ?thesis
      using False by simp
  next
    case True
    show ?thesis
      unfolding object_members.simps using True
    proof (simp only: simp_thms if_False,
        intro follows_continue [OF follows_member_key [OF Suc.prems(3) True]], goal_cases)
      case (1 y)
      then have y: "len y < len x"
        using member_key_len [of f hnd x y] True by simp
      then have "len y < N"
        using Suc.prems(1) by simp
      then show ?case
      proof (intro follows_continue [OF pv], goal_cases)
        case (2 z)
        then have z: "len z < len x"
          using pv_len [of y z] y by simp
        show ?case
          unfolding go_next [of IterativeParsingMemberValueState f hnd "(ret, k) # stack", simplified]
        proof (intro follows_continue_same, goal_cases)
          case (1 w)
          then have w: "len w < len x"
            using skip_len [of f z w] z by simp
          consider "Peek (fst w) = 44" | "Peek (fst w) = 125" | "Peek (fst w) \<noteq> 44" "Peek (fst w) \<noteq> 125"
            by blast
          then show ?case
          proof cases
            case 1
            show ?thesis
              unfolding case_prod_beta run_member(1) [OF 1] using 1
            proof (simp only: Let_def simp_thms if_True, intro follows_continue_same, goal_cases)
              case (1 v)
              then have v: "len v < len x"
                using skip_len [of f "(snd (Take (fst w)), snd w)" v] w by simp
              show ?case
              proof (cases "kParseTrailingCommasFlag f \<and> Peek (fst v) = 125")
                case True
                then show ?thesis
                  using run_close(1) [OF ret, of v IterativeParsingMemberDelimiterState f hnd "k + 1" stack]
                    follows_same [of "bracket_after hnd (H_EndObject (k + 1)) v" "go f hnd (final_state ret) stack"] by simp
              next
                case False
                then show ?thesis
                  using Suc.IH [of v IterativeParsingMemberDelimiterState "k + 1"] Suc.prems v by auto
              qed
            qed
          next
            case 2
            then show ?thesis
              using run_member(2) [OF 2 ret, of f hnd k stack]
                follows_bracket [of hnd "H_EndObject (k + 1)" w "go f hnd (final_state ret) stack"]
              by (simp add: case_prod_beta)
          next
            case 3
            then show ?thesis
              using run_member(3) [OF 3] by (simp add: case_prod_beta)
          qed
        qed
      qed
    qed
  qed
qed simp

lemma follows_elements:
  assumes pv: "\<And>x st stack. len x < N \<Longrightarrow>
      st = IterativeParsingArrayInitialState \<or> st = IterativeParsingElementDelimiterState \<Longrightarrow>
      (Peek (fst x) = 93 \<Longrightarrow> st = IterativeParsingElementDelimiterState \<and> \<not> kParseTrailingCommasFlag f) \<Longrightarrow>
      follows (pv x) (go f hnd IterativeParsingElementState stack) (run f hnd st stack x)"
    and pv_len: "\<And>x y. pv x = Some (Inr y) \<Longrightarrow> len y < len x" and ret: "ret \<noteq> IterativeParsingErrorState"
  shows "len x < N \<Longrightarrow> len x < n \<Longrightarrow> st = IterativeParsingArrayInitialState \<or> st = IterativeParsingElementDelimiterState \<Longrightarrow>
    (Peek (fst x) = 93 \<Longrightarrow> st = IterativeParsingElementDelimiterState \<and> \<not> kParseTrailingCommasFlag f) \<Longrightarrow>
    follows (array_elements n f hnd pv k x) (go f hnd (final_state ret) stack) (run f hnd st ((ret, k) # stack) x)"
proof (induction n arbitrary: k x st)
  case (Suc n)
  show ?case
    unfolding array_elements.simps
  proof (intro follows_continue [OF pv [OF Suc.prems(1,3,4)]], goal_cases)
    case (2 z)
    then have z: "len z < len x"
      using pv_len by simp
    show ?case
      unfolding go_next [of IterativeParsingElementState f hnd "(ret, k) # stack", simplified]
    proof (intro follows_continue_same, goal_cases)
      case (1 w)
      then have w: "len w < len x"
        using skip_len [of f z w] z by simp
      consider "Peek (fst w) = 44" | "Peek (fst w) = 93" | "Peek (fst w) \<noteq> 44" "Peek (fst w) \<noteq> 93"
        by blast
      then show ?case
      proof cases
        case 1
        show ?thesis
          unfolding case_prod_beta run_element(1) [OF 1] using 1
        proof (simp only: Let_def simp_thms if_True, intro follows_continue_same, goal_cases)
          case (1 v)
          then have v: "len v < len x"
            using skip_len [of f "(snd (Take (fst w)), snd w)" v] w by simp
          show ?case
          proof (cases "kParseTrailingCommasFlag f \<and> Peek (fst v) = 93")
            case True
            then show ?thesis
              using run_close(2) [OF ret, of v IterativeParsingElementDelimiterState f hnd "k + 1" stack]
                follows_same [of "bracket_after hnd (H_EndArray (k + 1)) v" "go f hnd (final_state ret) stack"] by simp
          next
            case False
            then show ?thesis
              using Suc.IH [of v IterativeParsingElementDelimiterState "k + 1"] Suc.prems v by auto
          qed
        qed
      next
        case 2
        then show ?thesis
          using run_element(2) [OF 2 ret, of f hnd k stack]
            follows_bracket [of hnd "H_EndArray (k + 1)" w "go f hnd (final_state ret) stack"]
          by (simp add: case_prod_beta)
      next
        case 3
        then show ?thesis
          using run_element(3) [OF 3] by (simp add: case_prod_beta)
      qed
    qed
  qed
qed simp

text \<open>What does not begin a number.\<close>

lemma ParseNumber_rejects:
  "Peek (fst x) \<in> {0, 44, 58, 93, 125} \<Longrightarrow> rejected (Some (ParseNumber f hnd x))"
  by (cases x) (auto simp: ParseNumber_def number_text_def Consume_def integer_part_def)

lemma follows_scalar:
  assumes "value_state st" "Tokenize (Peek (fst x)) \<in> {StringToken, FalseToken, TrueToken, NullToken, NumberToken}"
    "Peek (fst x) \<noteq> 0"
  shows "follows (ParseValue (Suc n) f hnd x) (go f hnd (next_state st) stack) (run f hnd st stack x)"
proof -
  have "Peek (fst x) \<noteq> 123" "Peek (fst x) \<noteq> 91"
    using assms(2) by (auto simp: Tokenize_def)
  then have "ParseValue (Suc n) f hnd x = ParseValue (stream_fuel (fst x)) f hnd x"
    and "\<exists>r. ParseValue (Suc n) f hnd x = Some r"
    by (auto simp: stream_fuel_def Let_def)
  then show ?thesis
    unfolding run_scalar [OF assms] using follows_same by metis
qed

lemma follows_ParseObject:
  assumes pv: "\<And>x stack. len x < n \<Longrightarrow> follows (pv x) (go f hnd IterativeParsingMemberValueState stack)
      (run f hnd IterativeParsingKeyValueDelimiterState stack x)"
    and pv_len: "\<And>x y. pv x = Some (Inr y) \<Longrightarrow> len y < len x"
    and x: "value_state st" "Peek (fst x) = 123" "len x < Suc n"
  shows "follows (ParseObject n f hnd pv x) (go f hnd (next_state st) stack) (run f hnd st stack x)"
proof -
  have ret: "return_state st \<noteq> IterativeParsingErrorState"
    using x(1) by (auto simp: value_state_def return_state_def)
  show ?thesis
    unfolding ParseObject_def continue_and_then run_open(1) [OF x(1,2)]
  proof (intro follows_continue [OF follows_bracket] follows_continue_same, goal_cases)
    case (1 y z)
    then have z: "len z < n"
      using bracket_len [of hnd H_StartObject x y] skip_len [of f y z] x by simp
    show ?case
    proof (cases "Peek (fst z) = 125")
      case True
      then show ?thesis
        using run_close(1) [OF ret True, of IterativeParsingObjectInitialState f hnd 0 stack]
          follows_bracket [of hnd "H_EndObject 0" z "go f hnd (next_state st) stack"]
        by (simp add: case_prod_beta next_state_def)
    next
      case False
      then show ?thesis
        using follows_members [where N = n and st = IterativeParsingObjectInitialState and k = 0 and stack = stack, OF pv pv_len ret z z]
        by (simp add: case_prod_beta next_state_def)
    qed
  qed
qed

lemma follows_ParseArray:
  assumes pv: "\<And>x st stack. len x < n \<Longrightarrow>
      st = IterativeParsingArrayInitialState \<or> st = IterativeParsingElementDelimiterState \<Longrightarrow>
      (Peek (fst x) = 93 \<Longrightarrow> st = IterativeParsingElementDelimiterState \<and> \<not> kParseTrailingCommasFlag f) \<Longrightarrow>
      follows (pv x) (go f hnd IterativeParsingElementState stack) (run f hnd st stack x)"
    and pv_len: "\<And>x y. pv x = Some (Inr y) \<Longrightarrow> len y < len x"
    and x: "value_state st" "Peek (fst x) = 91" "len x < Suc n"
  shows "follows (ParseArray n f hnd pv x) (go f hnd (next_state st) stack) (run f hnd st stack x)"
proof -
  have ret: "return_state st \<noteq> IterativeParsingErrorState"
    using x(1) by (auto simp: value_state_def return_state_def)
  show ?thesis
    unfolding ParseArray_def continue_and_then run_open(2) [OF x(1,2)]
  proof (intro follows_continue [OF follows_bracket] follows_continue_same, goal_cases)
    case (1 y z)
    then have z: "len z < n"
      using bracket_len [of hnd H_StartArray x y] skip_len [of f y z] x by simp
    show ?case
    proof (cases "Peek (fst z) = 93")
      case True
      then show ?thesis
        using run_close(2) [OF ret True, of IterativeParsingArrayInitialState f hnd 0 stack]
          follows_bracket [of hnd "H_EndArray 0" z "go f hnd (next_state st) stack"]
        by (simp add: case_prod_beta next_state_def)
    next
      case False
      have "follows (array_elements n f hnd pv 0 z) (go f hnd (final_state (return_state st)) stack)
          (run f hnd IterativeParsingArrayInitialState ((return_state st, 0) # stack) z)"
        by (rule follows_elements [where N = n]) (fact pv pv_len ret z | use False in simp)+
      then show ?thesis
        using False by (simp add: case_prod_beta next_state_def)
    qed
  qed
qed

lemma value_states:
  "next_state IterativeParsingKeyValueDelimiterState = IterativeParsingMemberValueState"
  "next_state IterativeParsingArrayInitialState = IterativeParsingElementState"
  "next_state IterativeParsingElementDelimiterState = IterativeParsingElementState"
  "next_state IterativeParsingStartState = IterativeParsingFinishState"
  by (simp_all add: next_state_def return_state_def final_state_def)

lemma follows_none:
  assumes "value_state st" "Peek (fst x) \<in> {0, 44, 58, 93, 125}"
    "Peek (fst x) = 93 \<Longrightarrow> st \<noteq> IterativeParsingArrayInitialState
      \<and> \<not> (st = IterativeParsingElementDelimiterState \<and> kParseTrailingCommasFlag f)"
  shows "follows (ParseValue (Suc n) f hnd x) after (run f hnd st stack x)"
proof -
  have "rejected (run f hnd st stack x)"
  proof (cases "Peek (fst x) = 93 \<and> st = IterativeParsingElementDelimiterState")
    case True
    then show ?thesis
      using run_no_trailing(2) assms(3) by blast
  next
    case False
    then show ?thesis
      using assms by (intro run_rejected) (auto simp: value_state_def)
  qed
  moreover have "ParseValue (Suc n) f hnd x = Some (ParseNumber f hnd x)"
    using assms(2) by auto
  ultimately show ?thesis
    using ParseNumber_rejects [OF assms(2), of f hnd] by (auto simp: rejected_def)
qed

lemma follows_value:
  "len x < n \<Longrightarrow> value_state st \<Longrightarrow>
    (Peek (fst x) = 93 \<Longrightarrow> st \<noteq> IterativeParsingArrayInitialState
      \<and> \<not> (st = IterativeParsingElementDelimiterState \<and> kParseTrailingCommasFlag f)) \<Longrightarrow>
    follows (ParseValue n f hnd x) (go f hnd (next_state st) stack) (run f hnd st stack x)"
proof (induction n arbitrary: x st stack)
  case (Suc n)
  consider "Peek (fst x) \<in> {0, 44, 58, 93, 125}" | "Peek (fst x) = 123" | "Peek (fst x) = 91"
    | "Tokenize (Peek (fst x)) \<in> {StringToken, FalseToken, TrueToken, NullToken, NumberToken}" "Peek (fst x) \<noteq> 0"
    by (cases "Tokenize (Peek (fst x))") (auto simp: Tokenize_iff)
  then show ?case
  proof cases
    case 1
    then show ?thesis
      using Suc.prems by (intro follows_none)
  next
    case 2
    have "follows (ParseValue n f hnd y) (go f hnd IterativeParsingMemberValueState stk)
        (run f hnd IterativeParsingKeyValueDelimiterState stk y)" if "len y < n" for y stk
      using Suc.IH [OF that, of IterativeParsingKeyValueDelimiterState stk] by (simp add: value_state_def value_states)
    from follows_ParseObject [OF this ParseValue_len Suc.prems(2) 2 Suc.prems(1)] show ?thesis
      using 2 by simp
  next
    case 3
    have IH: "follows (ParseValue n f hnd y) (go f hnd IterativeParsingElementState stk) (run f hnd s stk y)"
      if "len y < n" "s = IterativeParsingArrayInitialState \<or> s = IterativeParsingElementDelimiterState"
        "Peek (fst y) = 93 \<Longrightarrow> s = IterativeParsingElementDelimiterState \<and> \<not> kParseTrailingCommasFlag f" for y s stk
    proof -
      have "value_state s" "next_state s = IterativeParsingElementState"
        using that(2) by (auto simp: value_state_def value_states)
      then show ?thesis
        using Suc.IH [OF that(1), of s stk] that(3) by fastforce
    qed
    have "follows (ParseArray n f hnd (ParseValue n f hnd) x) (go f hnd (next_state st) stack) (run f hnd st stack x)"
      by (rule follows_ParseArray) (fact IH ParseValue_len Suc.prems 3)+
    then show ?thesis
      using 3 by simp
  next
    case 4
    then show ?thesis
      using follows_scalar Suc.prems by blast
  qed
qed simp

lemma run_finish:
  "Peek (fst x) = 0 \<Longrightarrow> run f hnd IterativeParsingFinishState stack x = Some (Inr x)"
  "Peek (fst x) \<noteq> 0 \<Longrightarrow> rejected (run f hnd IterativeParsingFinishState stack x)"
  by (subst run_unfold, simp add: Transit_def Let_def)+

lemma follows_parse: "follows (recursive_parse f hnd x) (\<lambda>y. Some (Inr y)) (IterativeParse f hnd x)"
  unfolding recursive_parse_def IterativeParse_def run_def [symmetric]
proof (intro follows_continue_same, goal_cases)
  case (1 z)
  show ?case
  proof (cases "Peek (fst z) = 0")
    case True
    then have "rejected (run f hnd IterativeParsingStartState [] z)"
      by (intro run_rejected) auto
    then show ?thesis
      using True by (simp add: case_prod_beta)
  next
    case False
    have "follows (ParseValue (stream_fuel (fst z)) f hnd z) (go f hnd IterativeParsingFinishState [])
        (run f hnd IterativeParsingStartState [] z)"
      using follows_value [of z "stream_fuel (fst z)" IterativeParsingStartState f hnd "[]"]
      by (simp add: value_states value_state_def stream_fuel_def)
    then have "follows (continue (ParseValue (stream_fuel (fst z)) f hnd z) (\<lambda>x.
          if kParseStopWhenDoneFlag f then Some (Inr x)
          else continue (Some (skip f x)) (\<lambda>(s, h).
            if Peek s \<noteq> 0 then Some (Inl ((kParseErrorDocumentRootNotSingular, Tell s), h)) else Some (Inr (s, h)))))
        (\<lambda>y. Some (Inr y)) (run f hnd IterativeParsingStartState [] z)"
    proof (rule follows_continue, goal_cases)
      case (1 y)
      show ?case
      proof (cases "kParseStopWhenDoneFlag f")
        case stop: False
        then show ?thesis
          by (simp add: go_def, intro follows_continue_same) (use run_finish in auto)
      qed (simp add: go_def)
    qed
    then show ?thesis
      using False by (simp add: case_prod_beta)
  qed
qed

text \<open>C20. The table-driven parser is equivalent to the recursive one: for every text, every set of
  flags (comments, trailing commas, stopping after the root, ...) and every handler, whatever
  events it refuses, the iterative parser succeeds exactly when the recursive parser does, with
  the same events in the same order (the same state of the handler) and at the same place of the
  text; when the recursive parser reports an error, the iterative one does. Neither its stack nor
  an assertion of its transitions ever fails, and it ends. (Which error is reported where may
  differ: the text of a single closing bracket is an invalid value for one and an empty document
  for the other.)\<close>

theorem iterative_equivalent:
  "case recursive_parse f hnd x of
     None \<Rightarrow> False
   | Some (Inl _) \<Rightarrow> \<exists>e. IterativeParse f hnd x = Some (Inl e)
   | Some (Inr y) \<Rightarrow> IterativeParse f hnd x = Some (Inr y)"
  using follows_parse [of f hnd x] by (auto simp: follows_def rejected_def split: option.splits sum.splits)

lemma bracket_errors_differ:
  "recursive_parse kParseNoFlags (\<lambda>_ h. (True, h)) (string_stream_of [125], ()) = Some (Inl ((kParseErrorValueInvalid, 0), ()))"
  "IterativeParse kParseNoFlags (\<lambda>_ h. (True, h)) (string_stream_of [125], ()) = Some (Inl ((kParseErrorDocumentEmpty, 0), ()))"
  by (simp_all add: recursive_parse_def IterativeParse_def skip_def SkipWhitespaceAndComments_def SkipWhitespace.simps
      is_whitespace_def kParseNoFlags_def string_stream_of_def stream_fuel_def ParseNumber_def number_text_def Consume_def
      integer_part_def Transit_def HandleError_def Tell_def)

end
