(* ===== verification/JsonDocument.thy ===== *)
theory JsonDocument
  imports JsonIterative
begin

section \<open>rapidjson: values and documents\<close>

text \<open>
  \<open>src/battle/3rd/rapidjson/document.h\<close>: the value, its constructors, the events it sends to a
  handler, equality, members and elements, and the document, the handler that builds a value
  from the events of the reader. A number is its flags and its 64 bits, or a double; the union
  of the sources is read through the flags. Not modelled: the capacities and the memory of
  containers and strings, and whether a string was copied.
\<close>

unbundle bit_operations_syntax

subsection \<open>Values\<close>

datatype number_data = NBits u64 | NDouble f64

datatype json_value =
    JNull | JFalse | JTrue
  | JObject "json_member list"
  | JArray "json_value list"
  | JString bytes
  | JNumber u16 number_data
and json_member = Member (member_name: json_value) (member_value: json_value)

definition kNumberType :: u16 where "kNumberType = 6"
definition kNumberFlag :: u16 where "kNumberFlag = 0x0010"
definition kIntFlag :: u16 where "kIntFlag = 0x0020"
definition kUintFlag :: u16 where "kUintFlag = 0x0040"
definition kInt64Flag :: u16 where "kInt64Flag = 0x0080"
definition kUint64Flag :: u16 where "kUint64Flag = 0x0100"
definition kDoubleFlag :: u16 where "kDoubleFlag = 0x0200"
definition kNumberIntFlag :: u16 where "kNumberIntFlag = kNumberType OR (kNumberFlag OR kIntFlag OR kInt64Flag)"
definition kNumberUintFlag :: u16 where
  "kNumberUintFlag = kNumberType OR (kNumberFlag OR kUintFlag OR kUint64Flag OR kInt64Flag)"
definition kNumberInt64Flag :: u16 where "kNumberInt64Flag = kNumberType OR (kNumberFlag OR kInt64Flag)"
definition kNumberUint64Flag :: u16 where "kNumberUint64Flag = kNumberType OR (kNumberFlag OR kUint64Flag)"
definition kNumberDoubleFlag :: u16 where "kNumberDoubleFlag = kNumberType OR (kNumberFlag OR kDoubleFlag)"

lemmas flag_defs = kNumberType_def kNumberFlag_def kIntFlag_def kUintFlag_def kInt64Flag_def kUint64Flag_def kDoubleFlag_def
  kNumberIntFlag_def kNumberUintFlag_def kNumberInt64Flag_def kNumberUint64Flag_def kNumberDoubleFlag_def

definition value_Bool :: "bool \<Rightarrow> json_value" where
  "value_Bool b = (if b then JTrue else JFalse)"

definition value_Int :: "i32 \<Rightarrow> json_value" where
  "value_Int i = JNumber (if 0 \<le>s i then kNumberIntFlag OR kUintFlag OR kUint64Flag else kNumberIntFlag) (NBits (scast i))"

definition value_Uint :: "u32 \<Rightarrow> json_value" where
  "value_Uint u = JNumber (if u AND 0x80000000 \<noteq> 0 then kNumberUintFlag else kNumberUintFlag OR kIntFlag OR kInt64Flag)
     (NBits (ucast u))"

definition value_Int64 :: "i64 \<Rightarrow> json_value" where
  "value_Int64 i =
     JNumber
       (if 0 \<le>s i then
          kNumberInt64Flag OR kNumberUint64Flag
          OR (if i AND 0xFFFFFFFF00000000 = 0 then kUintFlag else 0)
          OR (if i AND 0xFFFFFFFF80000000 = 0 then kIntFlag else 0)
        else kNumberInt64Flag OR (if 0xFFFFFFFF80000000 \<le>s i then kIntFlag else 0))
       (NBits i)"

definition value_Uint64 :: "u64 \<Rightarrow> json_value" where
  "value_Uint64 u =
     JNumber
       (kNumberUint64Flag
        OR (if u AND 0x8000000000000000 = 0 then kInt64Flag else 0)
        OR (if u AND 0xFFFFFFFF00000000 = 0 then kUintFlag else 0)
        OR (if u AND 0xFFFFFFFF80000000 = 0 then kIntFlag else 0))
       (NBits u)"

definition value_Double :: "f64 \<Rightarrow> json_value" where
  "value_Double d = JNumber kNumberDoubleFlag (NDouble d)"

definition has_flag :: "u16 \<Rightarrow> u16 \<Rightarrow> bool" where
  "has_flag flags k \<longleftrightarrow> flags AND k \<noteq> 0"

definition IsString :: "json_value \<Rightarrow> bool" where
  "IsString v = (case v of JString _ \<Rightarrow> True | _ \<Rightarrow> False)"

subsection \<open>Sending a value to a handler\<close>

definition and_also :: "(bool \<times> 'h) option \<Rightarrow> ('h \<Rightarrow> (bool \<times> 'h) option) \<Rightarrow> (bool \<times> 'h) option" where
  "and_also r k = (case r of None \<Rightarrow> None | Some (ok, h) \<Rightarrow> if ok then k h else Some (False, h))"

definition accept_number :: "'h handler \<Rightarrow> u16 \<Rightarrow> number_data \<Rightarrow> 'h \<Rightarrow> bool \<times> 'h" where
  "accept_number hnd flags n h =
     (case n of
        NDouble d \<Rightarrow> hnd (H_Double d) h
      | NBits b \<Rightarrow>
          if has_flag flags kIntFlag then hnd (H_Int (ucast b)) h
          else if has_flag flags kUintFlag then hnd (H_Uint (ucast b)) h
          else if has_flag flags kInt64Flag then hnd (H_Int64 b) h
          else hnd (H_Uint64 b) h)"

text \<open>Nothing stands for the failed assertion on a member's name.\<close>

fun Accept :: "'h handler \<Rightarrow> json_value \<Rightarrow> 'h \<Rightarrow> (bool \<times> 'h) option"
  and accept_members :: "'h handler \<Rightarrow> json_member list \<Rightarrow> 'h \<Rightarrow> (bool \<times> 'h) option"
  and accept_elements :: "'h handler \<Rightarrow> json_value list \<Rightarrow> 'h \<Rightarrow> (bool \<times> 'h) option" where
  "Accept hnd JNull h = Some (hnd H_Null h)"
| "Accept hnd JFalse h = Some (hnd (H_Bool False) h)"
| "Accept hnd JTrue h = Some (hnd (H_Bool True) h)"
| "Accept hnd (JObject ms) h =
     and_also (Some (hnd H_StartObject h)) (\<lambda>h. and_also (accept_members hnd ms h) (\<lambda>h. Some (hnd (H_EndObject (length ms)) h)))"
| "Accept hnd (JArray vs) h =
     and_also (Some (hnd H_StartArray h)) (\<lambda>h. and_also (accept_elements hnd vs h) (\<lambda>h. Some (hnd (H_EndArray (length vs)) h)))"
| "Accept hnd (JString str) h = Some (hnd (H_String str) h)"
| "Accept hnd (JNumber flags n) h = Some (accept_number hnd flags n h)"
| "accept_members hnd [] h = Some (True, h)"
| "accept_members hnd (Member n v # ms) h =
     (case n of
        JString str \<Rightarrow> and_also (Some (hnd (H_Key str) h)) (\<lambda>h. and_also (Accept hnd v h) (accept_members hnd ms))
      | _ \<Rightarrow> None)"
| "accept_elements hnd [] h = Some (True, h)"
| "accept_elements hnd (v # vs) h = and_also (Accept hnd v h) (accept_elements hnd vs)"

subsection \<open>The document as a handler\<close>

text \<open>The members of an object, from the values popped for them.\<close>

fun members_of :: "json_value list \<Rightarrow> json_member list" where
  "members_of (n # v # vs) = Member n v # members_of vs"
| "members_of _ = []"

text \<open>The stack of the document, its top first; nothing after a failed assertion.\<close>

type_synonym doc_stack = "json_value list option"

definition pop_into :: "nat \<Rightarrow> (json_value list \<Rightarrow> json_value) \<Rightarrow> json_value list \<Rightarrow> doc_stack" where
  "pop_into n build st = (if length st < n + 1 then None else Some (build (rev (take n st)) # drop (n + 1) st))"

fun doc_event :: "json_event \<Rightarrow> json_value list \<Rightarrow> doc_stack" where
  "doc_event H_Null st = Some (JNull # st)"
| "doc_event (H_Bool b) st = Some (value_Bool b # st)"
| "doc_event (H_Int i) st = Some (value_Int i # st)"
| "doc_event (H_Uint u) st = Some (value_Uint u # st)"
| "doc_event (H_Int64 i) st = Some (value_Int64 i # st)"
| "doc_event (H_Uint64 u) st = Some (value_Uint64 u # st)"
| "doc_event (H_Double d) st = Some (value_Double d # st)"
| "doc_event (H_String str) st = Some (JString str # st)"
| "doc_event (H_Key str) st = Some (JString str # st)"
| "doc_event H_StartObject st = Some (JObject [] # st)"
| "doc_event (H_EndObject memberCount) st = pop_into (2 * memberCount) (\<lambda>vs. JObject (members_of vs)) st"
| "doc_event H_StartArray st = Some (JArray [] # st)"
| "doc_event (H_EndArray elementCount) st = pop_into elementCount JArray st"

definition document :: "doc_stack handler" where
  "document ev st = (case st of None \<Rightarrow> (False, None) | Some st \<Rightarrow>
     (case doc_event ev st of None \<Rightarrow> (False, None) | Some st \<Rightarrow> (True, Some st)))"

text \<open>\<open>ParseStream\<close> on a string: the value, or the error. The assertion on the stack is its pattern.\<close>

definition ParseStream :: "parse_flags \<Rightarrow> bytes \<Rightarrow> (parse_error + json_value) option" where
  "ParseStream f text =
     (case Parse f document (string_stream_of text, Some []) of
        None \<Rightarrow> None
      | Some (Inl (e, st)) \<Rightarrow> if st = None then None else Some (Inl e)
      | Some (Inr (s, st)) \<Rightarrow> (case st of Some [v] \<Rightarrow> Some (Inr v) | _ \<Rightarrow> None))"

subsection \<open>Members and elements\<close>

definition StringEqual :: "json_value \<Rightarrow> json_value \<Rightarrow> bool option" where
  "StringEqual v w = (case (v, w) of (JString a, JString b) \<Rightarrow> Some (a = b) | _ \<Rightarrow> None)"

text \<open>The index of the first member with the name, the number of members without one.\<close>

fun DoFindMember :: "json_value \<Rightarrow> json_member list \<Rightarrow> nat option" where
  "DoFindMember n [] = Some 0"
| "DoFindMember n (m # ms) =
     (case StringEqual n (member_name m) of
        None \<Rightarrow> None
      | Some eq \<Rightarrow> if eq then Some 0 else map_option Suc (DoFindMember n ms))"

definition DoAddMember :: "json_value \<Rightarrow> json_value \<Rightarrow> json_member list \<Rightarrow> json_member list" where
  "DoAddMember n v ms = ms @ [Member n v]"

definition DoRemoveMember :: "nat \<Rightarrow> json_member list \<Rightarrow> json_member list" where
  "DoRemoveMember m ms =
     (let lst = length ms - 1 in butlast (if length ms > 1 \<and> m \<noteq> lst then ms[m := ms ! lst] else ms))"

definition DoEraseMembers :: "nat \<Rightarrow> nat \<Rightarrow> json_member list \<Rightarrow> json_member list" where
  "DoEraseMembers first lst ms = take first ms @ drop lst ms"

definition AddMember :: "json_value \<Rightarrow> json_value \<Rightarrow> json_value \<Rightarrow> json_value option" where
  "AddMember n v obj =
     (case obj of JObject ms \<Rightarrow> if IsString n then Some (JObject (DoAddMember n v ms)) else None | _ \<Rightarrow> None)"

definition FindMember :: "json_value \<Rightarrow> json_value \<Rightarrow> nat option" where
  "FindMember obj n = (case obj of JObject ms \<Rightarrow> if IsString n then DoFindMember n ms else None | _ \<Rightarrow> None)"

definition HasMember :: "json_value \<Rightarrow> json_value \<Rightarrow> bool option" where
  "HasMember obj n = (case obj of JObject ms \<Rightarrow> map_option (\<lambda>i. i \<noteq> length ms) (FindMember obj n) | _ \<Rightarrow> None)"

definition RemoveMember :: "json_value \<Rightarrow> json_value \<Rightarrow> (bool \<times> json_value) option" where
  "RemoveMember obj n =
     (case obj of
        JObject ms \<Rightarrow> map_option (\<lambda>i. if i \<noteq> length ms then (True, JObject (DoRemoveMember i ms)) else (False, obj)) (FindMember obj n)
      | _ \<Rightarrow> None)"

definition EraseMember :: "json_value \<Rightarrow> json_value \<Rightarrow> (bool \<times> json_value) option" where
  "EraseMember obj n =
     (case obj of
        JObject ms \<Rightarrow>
          map_option (\<lambda>i. if i \<noteq> length ms then (True, JObject (DoEraseMembers i (i + 1) ms)) else (False, obj)) (FindMember obj n)
      | _ \<Rightarrow> None)"

subsection \<open>Equality\<close>

definition f64_of_int :: "int \<Rightarrow> f64" where
  "f64_of_int z = F64 (z < 0) (d_of_nat (nat \<bar>z\<bar>))"

definition GetDouble :: "u16 \<Rightarrow> number_data \<Rightarrow> f64" where
  "GetDouble flags n =
     (case n of
        NDouble d \<Rightarrow> d
      | NBits b \<Rightarrow>
          if has_flag flags kIntFlag then f64_of_int (sint (ucast b :: i32))
          else if has_flag flags kUintFlag then f64_of_int (uint (ucast b :: u32))
          else if has_flag flags kInt64Flag then f64_of_int (sint b)
          else f64_of_int (uint b))"

definition f64_equal :: "f64 \<Rightarrow> f64 \<Rightarrow> bool" where
  "f64_equal a b =
     (case (a, b) of (F64 s x, F64 t y) \<Rightarrow> x = y \<and> (s = t \<or> x = Mag 0) | _ \<Rightarrow> False)"

definition number_equal :: "u16 \<Rightarrow> number_data \<Rightarrow> u16 \<Rightarrow> number_data \<Rightarrow> bool" where
  "number_equal fa a fb b =
     (case (a, b) of
        (NBits x, NBits y) \<Rightarrow> x = y
      | _ \<Rightarrow> f64_equal (GetDouble fa a) (GetDouble fb b))"

text \<open>\<open>operator==\<close>; nothing stands for the failed assertion on a name.\<close>

fun value_equal :: "json_value \<Rightarrow> json_value \<Rightarrow> bool option"
  and members_equal :: "json_member list \<Rightarrow> json_member list \<Rightarrow> bool option"
  and elements_equal :: "json_value list \<Rightarrow> json_value list \<Rightarrow> bool option" where
  "value_equal (JObject ms) w =
     (case w of JObject ns \<Rightarrow> if length ms \<noteq> length ns then Some False else members_equal ms ns | _ \<Rightarrow> Some False)"
| "value_equal (JArray vs) w =
     (case w of JArray ws \<Rightarrow> if length vs \<noteq> length ws then Some False else elements_equal vs ws | _ \<Rightarrow> Some False)"
| "value_equal (JString a) w = (case w of JString b \<Rightarrow> Some (a = b) | _ \<Rightarrow> Some False)"
| "value_equal (JNumber f a) w = (case w of JNumber g b \<Rightarrow> Some (number_equal f a g b) | _ \<Rightarrow> Some False)"
| "value_equal JNull w = Some (w = JNull)"
| "value_equal JFalse w = Some (w = JFalse)"
| "value_equal JTrue w = Some (w = JTrue)"
| "members_equal [] ns = Some True"
| "members_equal (Member n v # ms) ns =
     (case FindMember (JObject ns) n of
        None \<Rightarrow> None
      | Some i \<Rightarrow>
          if i = length ns then Some False
          else (case value_equal v (member_value (ns ! i)) of
                  Some True \<Rightarrow> members_equal ms ns
                | r \<Rightarrow> r))"
| "elements_equal (v # vs) (w # ws) = (case value_equal v w of Some True \<Rightarrow> elements_equal vs ws | r \<Rightarrow> r)"
| "elements_equal _ _ = Some True"

end
