(* ===== verification/JsonItoa.thy ===== *)
theory JsonItoa
  imports JsonEncodings
begin

section \<open>rapidjson: integers as text\<close>

text \<open>
  \<open>src/battle/3rd/rapidjson/internal/itoa.h\<close>: the conversions of 32-bit and 64-bit integers to
  decimal text, two digits at a time from a table, and that they write the decimal numeral. The
  text is what is written to the buffer.
\<close>

definition cDigitsLut :: bytes where
  "cDigitsLut = concat (map (\<lambda>n. [of_nat (48 + n div 10), of_nat (48 + n mod 10)]) [0..<100])"

definition lut :: "u32 \<Rightarrow> u8" where
  "lut i = cDigitsLut ! unat i"

definition u32toa :: "u32 \<Rightarrow> bytes" where
  "u32toa num =
     (if num < 10000 then
        let d1 = push_bit 1 (num div 100); d2 = push_bit 1 (num mod 100)
        in (if num \<ge> 1000 then [lut d1] else []) @ (if num \<ge> 100 then [lut (d1 + 1)] else [])
           @ (if num \<ge> 10 then [lut d2] else []) @ [lut (d2 + 1)]
      else if num < 100000000 then
        let b = num div 10000; c = num mod 10000;
            d1 = push_bit 1 (b div 100); d2 = push_bit 1 (b mod 100);
            d3 = push_bit 1 (c div 100); d4 = push_bit 1 (c mod 100)
        in (if num \<ge> 10000000 then [lut d1] else []) @ (if num \<ge> 1000000 then [lut (d1 + 1)] else [])
           @ (if num \<ge> 100000 then [lut d2] else []) @ [lut (d2 + 1)]
           @ [lut d3, lut (d3 + 1), lut d4, lut (d4 + 1)]
      else
        let a = num div 100000000; num = num mod 100000000;
            b = num div 10000; c = num mod 10000;
            d1 = push_bit 1 (b div 100); d2 = push_bit 1 (b mod 100);
            d3 = push_bit 1 (c div 100); d4 = push_bit 1 (c mod 100)
        in (if a \<ge> 10 then let i = push_bit 1 a in [lut i, lut (i + 1)] else [ucast (48 + a)])
           @ [lut d1, lut (d1 + 1), lut d2, lut (d2 + 1), lut d3, lut (d3 + 1), lut d4, lut (d4 + 1)])"

definition i32toa :: "i32 \<Rightarrow> bytes" where
  "i32toa num = (if num <s 0 then 45 # u32toa (NOT num + 1) else u32toa num)"

definition kTen8 :: u64 where "kTen8 = 100000000"
definition kTen16 :: u64 where "kTen16 = kTen8 * kTen8"

text \<open>The three ranges; the code that writes eight digits appears in two of them.\<close>

definition u64toa_small :: "u64 \<Rightarrow> bytes" where
  "u64toa_small num =
     (let v = ucast num :: u32
      in if v < 10000 then
           let d1 = push_bit 1 (v div 100); d2 = push_bit 1 (v mod 100)
           in (if v \<ge> 1000 then [lut d1] else []) @ (if v \<ge> 100 then [lut (d1 + 1)] else [])
              @ (if v \<ge> 10 then [lut d2] else []) @ [lut (d2 + 1)]
         else
           let b = v div 10000; c = v mod 10000;
               d1 = push_bit 1 (b div 100); d2 = push_bit 1 (b mod 100);
               d3 = push_bit 1 (c div 100); d4 = push_bit 1 (c mod 100)
           in (if num \<ge> 10000000 then [lut d1] else []) @ (if num \<ge> 1000000 then [lut (d1 + 1)] else [])
              @ (if num \<ge> 100000 then [lut d2] else []) @ [lut (d2 + 1)]
              @ [lut d3, lut (d3 + 1), lut d4, lut (d4 + 1)])"

definition eight_lut :: "u32 \<Rightarrow> bytes" where
  "eight_lut v =
     (let b = v div 10000; c = v mod 10000;
          d1 = push_bit 1 (b div 100); d2 = push_bit 1 (b mod 100);
          d3 = push_bit 1 (c div 100); d4 = push_bit 1 (c mod 100)
      in [lut d1, lut (d1 + 1), lut d2, lut (d2 + 1), lut d3, lut (d3 + 1), lut d4, lut (d4 + 1)])"

definition mid_lut :: "u64 \<Rightarrow> u32 \<Rightarrow> bytes" where
  "mid_lut num v0 =
     (let b0 = v0 div 10000; c0 = v0 mod 10000;
          d1 = push_bit 1 (b0 div 100); d2 = push_bit 1 (b0 mod 100);
          d3 = push_bit 1 (c0 div 100); d4 = push_bit 1 (c0 mod 100)
      in (if num \<ge> kTen8 * 10000000 then [lut d1] else []) @ (if num \<ge> kTen8 * 1000000 then [lut (d1 + 1)] else [])
         @ (if num \<ge> kTen8 * 100000 then [lut d2] else []) @ (if num \<ge> kTen8 * 10000 then [lut (d2 + 1)] else [])
         @ (if num \<ge> kTen8 * 1000 then [lut d3] else []) @ (if num \<ge> kTen8 * 100 then [lut (d3 + 1)] else [])
         @ (if num \<ge> kTen8 * 10 then [lut d4] else []) @ [lut (d4 + 1)])"

definition u64toa_mid :: "u64 \<Rightarrow> bytes" where
  "u64toa_mid num =
     (let v0 = ucast (num div kTen8) :: u32; v1 = ucast (num mod kTen8) :: u32
      in mid_lut num v0 @ eight_lut v1)"

definition head_lut :: "u32 \<Rightarrow> bytes" where
  "head_lut a =
     (if a < 10 then [ucast (48 + a)]
      else if a < 100 then let i = push_bit 1 a in [lut i, lut (i + 1)]
      else if a < 1000 then let i = push_bit 1 (a mod 100) in [ucast (48 + a div 100), lut i, lut (i + 1)]
      else let i = push_bit 1 (a div 100); j = push_bit 1 (a mod 100) in [lut i, lut (i + 1), lut j, lut (j + 1)])"

definition u64toa_large :: "u64 \<Rightarrow> bytes" where
  "u64toa_large num =
     (let a = ucast (num div kTen16) :: u32; num = num mod kTen16;
          v0 = ucast (num div kTen8) :: u32; v1 = ucast (num mod kTen8) :: u32
      in head_lut a @ eight_lut v0 @ eight_lut v1)"

definition u64toa :: "u64 \<Rightarrow> bytes" where
  "u64toa num =
     (if num < kTen8 then u64toa_small num
      else if num < kTen16 then u64toa_mid num
      else u64toa_large num)"

definition i64toa :: "i64 \<Rightarrow> bytes" where
  "i64toa num = (if num <s 0 then 45 # u64toa (NOT num + 1) else u64toa num)"

subsection \<open>Decimal numerals\<close>

abbreviation digit :: "nat \<Rightarrow> u8" where
  "digit n \<equiv> of_nat (48 + n)"

text \<open>The decimal numeral of a number, and with a fixed number of digits.\<close>

fun decimal :: "nat \<Rightarrow> bytes" where
  "decimal n = (if n < 10 then [digit n] else decimal (n div 10) @ [digit (n mod 10)])"

declare decimal.simps [simp del]

fun decw :: "nat \<Rightarrow> nat \<Rightarrow> bytes" where
  "decw 0 n = []"
| "decw (Suc k) n = decw k (n div 10) @ [digit (n mod 10)]"

lemma decw_add: "decw (j + k) n = decw j (n div 10 ^ k) @ decw k (n mod 10 ^ k)"
proof (induction k arbitrary: n)
  case (Suc k)
  have "n mod 10 ^ Suc k div 10 = n div 10 mod 10 ^ k" "n mod 10 ^ Suc k mod 10 = n mod 10"
    by (simp_all add: mod_mult2_eq mod_mod_cancel)
  then show ?case
    using Suc [of "n div 10"] by (simp add: div_mult2_eq)
qed simp

lemma decimal_decw: "10 ^ k \<le> n \<Longrightarrow> n < 10 ^ Suc k \<Longrightarrow> decimal n = decw (Suc k) n"
proof (induction k arbitrary: n)
  case 0
  then show ?case by (simp add: decimal.simps)
next
  case (Suc k)
  then have "10 ^ k \<le> n div 10" "n div 10 < 10 ^ Suc k"
    by auto
  then have "decimal (n div 10) = decw (Suc k) (n div 10)"
    by (rule Suc.IH)
  moreover have "\<not> n < 10"
    using Suc.prems(1) by (auto simp: not_less intro: order_trans [of 10 "10 ^ Suc k"])
  ultimately show ?case
    by (subst decimal.simps) simp
qed

text \<open>A number of more than \<open>k\<close> digits is the numeral of the rest and \<open>k\<close> digits.\<close>

lemma decimal_split:
  assumes "10 ^ k \<le> n"
  shows "decimal n = decimal (n div 10 ^ k) @ decw k (n mod 10 ^ k)"
proof -
  have "\<exists>m. 10 ^ m \<le> n div 10 ^ k \<and> n div 10 ^ k < 10 ^ Suc m"
    using assms ex_power_ivl1 [of 10 "n div 10 ^ k"] by (auto simp: Suc_le_eq div_greater_zero_iff)
  then obtain m where m: "10 ^ m \<le> n div 10 ^ k" "n div 10 ^ k < 10 ^ Suc m"
    by blast
  then have "10 ^ (m + k) \<le> n"
    by (metis less_eq_div_iff_mult_less_eq power_add zero_less_numeral zero_less_power)
  moreover have "n < 10 ^ (Suc m + k)"
    using m(2) by (simp add: div_less_iff_less_mult power_add)
  ultimately have "decimal n = decw (Suc (m + k)) n"
    by (intro decimal_decw) simp_all
  also have "\<dots> = decw (Suc m + k) n"
    by simp
  finally show ?thesis
    using decimal_decw [OF m] unfolding decw_add by simp
qed


subsection \<open>The conversions write the numeral\<close>

lemma nth_pairs:
  "i < m \<Longrightarrow> concat (map (\<lambda>n. [f n, g n]) [0..<m]) ! (2 * i) = f i
     \<and> concat (map (\<lambda>n. [f n, g n]) [0..<m]) ! (2 * i + 1) = g i"
proof (induction m)
  case (Suc m)
  have "length (concat (map (\<lambda>n. [f n, g n]) [0..<m])) = 2 * m"
    by (induction m) simp_all
  then show ?case
    using Suc by (cases "i = m") (simp_all add: nth_append)
qed simp

lemma push_bit_1: "push_bit 1 (x::'a::len word) = x * 2"
  by (simp add: push_bit_eq_mult)

lemma lut_digits:
  assumes "unat x < 100"
  shows "lut (x * 2) = digit (unat x div 10)" "lut (x * 2 + 1) = digit (unat x mod 10)"
proof -
  have "cDigitsLut ! (2 * unat x) = digit (unat x div 10)" "cDigitsLut ! (2 * unat x + 1) = digit (unat x mod 10)"
    using nth_pairs [OF assms, of "\<lambda>n. digit (n div 10)" "\<lambda>n. digit (n mod 10)"] unfolding cDigitsLut_def by simp_all
  moreover have "unat (x * 2) = 2 * unat x" "unat (x * 2 + 1) = 2 * unat x + 1"
    using assms by (simp_all add: unat_word_ariths)
  ultimately show "lut (x * 2) = digit (unat x div 10)" "lut (x * 2 + 1) = digit (unat x mod 10)"
    by (simp_all add: lut_def)
qed

lemma decimal_decw': "0 < k \<Longrightarrow> 10 ^ (k - 1) \<le> n \<Longrightarrow> n < 10 ^ k \<Longrightarrow> decimal n = decw k n"
  using decimal_decw [of "k - 1" n] by simp

lemma length_decw: "length (decw k n) = k"
  by (induction k arbitrary: n) simp_all

text \<open>Four digits by two table entries, and the same without leading zeros.\<close>

lemma decw2: "decw 2 n = [digit (n div 10 mod 10), digit (n mod 10)]"
  by (simp add: numeral_2_eq_2)

lemma decw4: "decw 4 n = decw 2 (n div 100) @ decw 2 (n mod 100)"
  using decw_add [of 2 2 n] by simp

lemma decw8: "decw 8 n = decw 4 (n div 10000) @ decw 4 (n mod 10000)"
  using decw_add [of 4 4 n] by simp

lemma decw16: "decw 16 n = decw 8 (n div 100000000) @ decw 8 (n mod 100000000)"
  using decw_add [of 8 8 n] by simp

lemma four_digits:
  assumes "unat b < 10000"
  shows "[lut (b div 100 * 2), lut (b div 100 * 2 + 1), lut (b mod 100 * 2), lut (b mod 100 * 2 + 1)] = decw 4 (unat b)"
proof -
  have lt: "unat (b div 100) < 100" "unat (b mod 100) < 100"
    using assms by (simp_all add: unat_div unat_mod)
  have "unat b div 100 div 10 mod 10 = unat b div 100 div 10"
    using assms by simp
  then show ?thesis
    using lut_digits [OF lt(1)] lut_digits [OF lt(2)] by (simp add: decw4 decw2 unat_div unat_mod)
qed

definition short_digits :: "bool \<Rightarrow> bool \<Rightarrow> bool \<Rightarrow> u32 \<Rightarrow> bytes" where
  "short_digits p q r b =
     (if p then [lut (b div 100 * 2)] else []) @ (if q then [lut (b div 100 * 2 + 1)] else [])
     @ (if r then [lut (b mod 100 * 2)] else []) @ [lut (b mod 100 * 2 + 1)]"

lemma short_digits:
  assumes "unat b < 10000" "p \<longleftrightarrow> 1000 \<le> unat b" "q \<longleftrightarrow> 100 \<le> unat b" "r \<longleftrightarrow> 10 \<le> unat b"
  shows "short_digits p q r b = decimal (unat b)"
proof -
  have four: "decw 4 (unat b) = [lut (b div 100 * 2), lut (b div 100 * 2 + 1), lut (b mod 100 * 2), lut (b mod 100 * 2 + 1)]"
    using four_digits [OF assms(1)] by simp
  have drop: "decw k n = drop j (decw (j + k) n)" if "n < 10 ^ k" for j k n
    using that by (simp add: decw_add length_decw)
  consider "unat b < 10" | "10 \<le> unat b" "unat b < 100" | "100 \<le> unat b" "unat b < 1000" | "1000 \<le> unat b"
    by linarith
  then show ?thesis
  proof cases
    case 1
    have "decimal (unat b) = decw 1 (unat b)"
      using 1 by (simp add: decimal.simps)
    then show ?thesis
      using 1 assms drop [of "unat b" 1 3] four by (simp add: short_digits_def)
  next
    case 2
    then have "decimal (unat b) = decw 2 (unat b)"
      using decimal_decw' [of 2 "unat b"] by simp
    then show ?thesis
      using 2 assms drop [of "unat b" 2 2] four by (simp add: short_digits_def)
  next
    case 3
    then have "decimal (unat b) = decw 3 (unat b)"
      using decimal_decw' [of 3 "unat b"] by simp
    then show ?thesis
      using 3 assms drop [of "unat b" 3 1] four by (simp add: short_digits_def)
  next
    case 4
    then have "decimal (unat b) = decw 4 (unat b)"
      using assms(1) decimal_decw' [of 4 "unat b"] 4 by simp
    then show ?thesis
      using 4 assms four by (simp add: short_digits_def)
  qed
qed

lemma u32_lt: "unat (x::u32) < 4294967296"
proof -
  have "unat x < 2 ^ LENGTH(32)"
    by (rule unsigned_less)
  then show ?thesis
    by simp
qed

lemma u64_lt: "unat (x::u64) < 18446744073709551616"
proof -
  have "unat x < 2 ^ LENGTH(64)"
    by (rule unsigned_less)
  then show ?thesis
    by simp
qed

lemma unat_u64_u32: "unat (x::u64) < 4294967296 \<Longrightarrow> unat (ucast x :: u32) = unat x"
  by (simp add: unsigned_ucast_eq take_bit_nat_eq_self)

lemma u32_thresholds [simp]:
  "x < 10000 \<longleftrightarrow> unat x < 10000" "x < 100000000 \<longleftrightarrow> unat x < 100000000"
  "x \<ge> 10 \<longleftrightarrow> 10 \<le> unat x" "x \<ge> 100 \<longleftrightarrow> 100 \<le> unat x" "x \<ge> 1000 \<longleftrightarrow> 1000 \<le> unat x"
  "x \<ge> 100000 \<longleftrightarrow> 100000 \<le> unat x" "x \<ge> 1000000 \<longleftrightarrow> 1000000 \<le> unat x" "x \<ge> 10000000 \<longleftrightarrow> 10000000 \<le> unat x"
  for x :: u32
  by (simp_all add: word_less_nat_alt word_le_nat_alt)

text \<open>Numbers below 10000, and of five to eight digits.\<close>

lemma eight_digits:
  assumes "unat v < 100000000" "10000 \<le> unat v"
    "p \<longleftrightarrow> 10000000 \<le> unat v" "q \<longleftrightarrow> 1000000 \<le> unat v" "r \<longleftrightarrow> 100000 \<le> unat v"
  shows "short_digits p q r (v div 10000) @ decw 4 (unat (v mod 10000)) = decimal (unat v)"
proof -
  have "short_digits p q r (v div 10000) = decimal (unat v div 10000)"
    using assms by (subst short_digits) (auto simp: unat_div)
  then show ?thesis
    using decimal_split [of 4 "unat v"] assms(2) by (simp add: unat_mod)
qed

lemma one_digit: "unat a < 10 \<Longrightarrow> (ucast (48 + (a::u32)) :: u8) = digit (unat a)"
  by (intro unat_eqI) (simp add: unat_ucast_u8 unat_word_ariths unat_of_nat)

lemma two_digits:
  assumes "unat a < 100"
  shows "(if a \<ge> 10 then [lut (a * 2), lut (a * 2 + 1)] else [ucast (48 + a)]) = decimal (unat a)"
proof (cases "10 \<le> unat a")
  case True
  then show ?thesis
    using assms decimal_decw' [of 2 "unat a"] by (simp add: lut_digits decw2)
next
  case False
  then show ?thesis
    using one_digit [of a] by (subst decimal.simps) simp
qed

lemma u32toa_decimal: "u32toa num = decimal (unat num)"
proof -
  consider "unat num < 10000" | "10000 \<le> unat num" "unat num < 100000000" | "100000000 \<le> unat num"
    by linarith
  then show ?thesis
  proof cases
    case 1
    have "u32toa num = short_digits (num \<ge> 1000) (num \<ge> 100) (num \<ge> 10) num"
      using 1 by (simp add: u32toa_def short_digits_def push_bit_1 Let_def)
    then show ?thesis
      using 1 by (simp add: short_digits)
  next
    case 2
    have "unat (num mod 10000) < 10000"
      by (simp add: unat_mod)
    then have "u32toa num = short_digits (num \<ge> 10000000) (num \<ge> 1000000) (num \<ge> 100000) (num div 10000) @ decw 4 (unat (num mod 10000))"
      using 2 by (simp add: u32toa_def short_digits_def push_bit_1 Let_def flip: four_digits)
    then show ?thesis
      using 2 by (simp add: eight_digits)
  next
    case 3
    define a where "a = num div 100000000"
    define v where "v = num mod 100000000"
    have v: "unat (v div 10000) < 10000" "unat (v mod 10000) < 10000" and a: "unat a < 100"
      using 3 u32_lt [of num] by (simp_all add: v_def a_def unat_div unat_mod)
    have "(if a \<ge> 10 then [lut (a * 2), lut (a * 2 + 1)] else [ucast (48 + a)]) = decimal (unat a)"
      using a by (rule two_digits)
    moreover have "u32toa num = (if a \<ge> 10 then [lut (a * 2), lut (a * 2 + 1)] else [ucast (48 + a)]) @ decw 4 (unat (v div 10000)) @ decw 4 (unat (v mod 10000))"
      using 3 by (simp add: u32toa_def push_bit_1 Let_def v flip: four_digits a_def v_def)
    moreover have "decw 4 (unat (v div 10000)) @ decw 4 (unat (v mod 10000)) = decw 8 (unat num mod 100000000)"
      by (simp add: decw8 v_def unat_div unat_mod)
    ultimately show ?thesis
      using decimal_split [of 8 "unat num"] 3 by (simp add: a_def unat_div)
  qed
qed

text \<open>Signed numbers: a minus and the numeral of the magnitude.\<close>

lemma unat_of_sint:
  fixes x :: "'a::len word"
  assumes "0 \<le> sint x"
  shows "unat x = nat (sint x)"
proof -
  have "sint x < 2 ^ LENGTH('a)"
    using sint_lt [of x] by (rule less_le_trans) simp
  then have "uint (word_of_int (sint x) :: 'a word) = sint x"
    using assms by (simp only: uint_word_of_int_eq take_bit_int_eq_self)
  then show ?thesis
    by (simp flip: nat_uint_eq)
qed

lemma unat_uminus_sint:
  fixes x :: "'a::len word"
  assumes "sint x < 0"
  shows "unat (- x) = nat (- sint x)"
proof -
  have "- sint x \<le> 2 ^ (LENGTH('a) - 1)"
    using sint_ge [of x] by simp
  also have "\<dots> < 2 ^ LENGTH('a)"
    by simp
  finally have "uint (word_of_int (- sint x) :: 'a word) = - sint x"
    using assms by (simp only: uint_word_of_int_eq take_bit_int_eq_self)
  then show ?thesis
    by (simp flip: nat_uint_eq)
qed

lemma negate_word: "NOT x + 1 = - (x :: 'a::len word)"
  by (simp add: minus_eq_not_plus_1)

definition signed_decimal :: "int \<Rightarrow> bytes" where
  "signed_decimal n = (if n < 0 then 45 # decimal (nat (- n)) else decimal (nat n))"

lemma i32toa_decimal: "i32toa num = signed_decimal (sint num)"
  by (simp add: i32toa_def signed_decimal_def word_sless_alt u32toa_decimal negate_word unat_uminus_sint flip: unat_of_sint)

lemma u64_thresholds [simp]:
  "x < 100000000 \<longleftrightarrow> unat x < 100000000" "x < 10000000000000000 \<longleftrightarrow> unat x < 10000000000000000"
  "x \<ge> 100000 \<longleftrightarrow> 100000 \<le> unat x" "x \<ge> 1000000 \<longleftrightarrow> 1000000 \<le> unat x" "x \<ge> 10000000 \<longleftrightarrow> 10000000 \<le> unat x"
  "x \<ge> 1000000000 \<longleftrightarrow> 1000000000 \<le> unat x" "x \<ge> 10000000000 \<longleftrightarrow> 10000000000 \<le> unat x"
  "x \<ge> 100000000000 \<longleftrightarrow> 100000000000 \<le> unat x" "x \<ge> 1000000000000 \<longleftrightarrow> 1000000000000 \<le> unat x"
  "x \<ge> 10000000000000 \<longleftrightarrow> 10000000000000 \<le> unat x" "x \<ge> 100000000000000 \<longleftrightarrow> 100000000000000 \<le> unat x"
  "x \<ge> 1000000000000000 \<longleftrightarrow> 1000000000000000 \<le> unat x"
  for x :: u64
  by (simp_all add: word_less_nat_alt word_le_nat_alt)

lemma u64toa_small_decimal:
  assumes "unat num < 100000000"
  shows "u64toa_small num = decimal (unat num)"
proof -
  define v where "v = (ucast num :: u32)"
  have v: "unat v = unat num"
    using assms by (simp add: v_def unat_u64_u32)
  have lt: "unat (v mod 10000) < 10000"
    by (simp add: unat_mod)
  show ?thesis
  proof (cases "unat v < 10000")
    case True
    then have "u64toa_small num = short_digits (v \<ge> 1000) (v \<ge> 100) (v \<ge> 10) v"
      by (simp add: u64toa_small_def short_digits_def push_bit_1 Let_def flip: v_def)
    then show ?thesis
      using True v by (simp add: short_digits)
  next
    case False
    then have "u64toa_small num = short_digits (num \<ge> 10000000) (num \<ge> 1000000) (num \<ge> 100000) (v div 10000) @ decw 4 (unat (v mod 10000))"
      using lt by (simp add: u64toa_small_def short_digits_def push_bit_1 Let_def flip: four_digits v_def)
    then show ?thesis
      using False assms v eight_digits [of v] by simp
  qed
qed

lemma eight_lut: "unat v < 100000000 \<Longrightarrow> eight_lut v = decw 8 (unat v)"
  using four_digits [of "v div 10000"] four_digits [of "v mod 10000"]
  by (simp add: eight_lut_def push_bit_1 Let_def decw8 unat_div unat_mod)

lemma mid_lut:
  assumes v: "unat v = unat num div 100000000" and "unat num < 10000000000000000"
  shows "mid_lut num v = decimal (unat v)"
proof -
  have num: "num \<ge> kTen8 * 10 \<longleftrightarrow> 10 \<le> unat v" "num \<ge> kTen8 * 100 \<longleftrightarrow> 100 \<le> unat v"
    "num \<ge> kTen8 * 1000 \<longleftrightarrow> 1000 \<le> unat v" "num \<ge> kTen8 * 10000 \<longleftrightarrow> 10000 \<le> unat v"
    "num \<ge> kTen8 * 100000 \<longleftrightarrow> 100000 \<le> unat v" "num \<ge> kTen8 * 1000000 \<longleftrightarrow> 1000000 \<le> unat v"
    "num \<ge> kTen8 * 10000000 \<longleftrightarrow> 10000000 \<le> unat v"
    by (simp_all add: v kTen8_def less_eq_div_iff_mult_less_eq)
  show ?thesis
  proof (cases "10000 \<le> unat v")
    case True
    have "unat (v mod 10000) < 10000"
      by (simp add: unat_mod)
    then have "mid_lut num v = short_digits (10000000 \<le> unat v) (1000000 \<le> unat v) (100000 \<le> unat v) (v div 10000)
        @ decw 4 (unat (v mod 10000))"
      using True by (simp add: mid_lut_def num short_digits_def push_bit_1 Let_def flip: four_digits)
    also have "\<dots> = decimal (unat v)"
      using True assms by (intro eight_digits) (simp_all add: v)
    finally show ?thesis .
  next
    case False
    then have "v mod 10000 = v"
      by (intro unat_eqI) (simp add: unat_mod)
    then have "mid_lut num v = short_digits (1000 \<le> unat v) (100 \<le> unat v) (10 \<le> unat v) v"
      using False by (simp add: mid_lut_def num short_digits_def push_bit_1 Let_def)
    then show ?thesis
      using False by (simp add: short_digits)
  qed
qed

lemma head_lut:
  assumes "unat a < 10000"
  shows "head_lut a = decimal (unat (a :: u32))"
proof -
  have lt: "a < 10 \<longleftrightarrow> unat a < 10" "a < 100 \<longleftrightarrow> unat a < 100" "a < 1000 \<longleftrightarrow> unat a < 1000"
    by (simp_all add: word_less_nat_alt)
  consider "unat a < 100" | "100 \<le> unat a" "unat a < 1000" | "1000 \<le> unat a"
    by linarith
  then show ?thesis
  proof cases
    case 1
    then show ?thesis
      using two_digits [of a] lt by (simp add: head_lut_def push_bit_1 Let_def split: if_splits)
  next
    case 2
    have "unat (a div 100) < 10" "unat (a mod 100) < 100"
      using 2 by (simp_all add: unat_div unat_mod)
    moreover have "decimal (unat a) = decimal (unat a div 100) @ decw 2 (unat a mod 100)"
      using decimal_split [of 2 "unat a"] 2 by simp
    moreover have "decimal (unat a div 100) = [digit (unat a div 100)]"
      using 2 by (subst decimal.simps) (simp add: div_less_iff_less_mult)
    ultimately show ?thesis
      using 2 lt one_digit [of "a div 100"] by (simp add: head_lut_def push_bit_1 Let_def lut_digits decw2 unat_div unat_mod)
  next
    case 3
    then show ?thesis
      using assms lt decimal_decw' [of 4 "unat a"] four_digits [of a] by (simp add: head_lut_def push_bit_1 Let_def)
  qed
qed

lemma u64toa_mid_decimal:
  assumes "100000000 \<le> unat num" "unat num < 10000000000000000"
  shows "u64toa_mid num = decimal (unat num)"
proof -
  have "unat (ucast (num div kTen8) :: u32) = unat num div 100000000" "unat (ucast (num mod kTen8) :: u32) = unat num mod 100000000"
    using assms by (simp_all add: kTen8_def unat_u64_u32 unat_div unat_mod)
  then show ?thesis
    using decimal_split [of 8 "unat num"] assms by (simp add: u64toa_mid_def mid_lut eight_lut)
qed

lemma u64toa_large_decimal:
  assumes "10000000000000000 \<le> unat num"
  shows "u64toa_large num = decimal (unat num)"
proof -
  define w where "w = num mod kTen16"
  have w: "unat w = unat num mod 10000000000000000"
    by (simp add: w_def kTen16_def kTen8_def unat_mod)
  have "unat (ucast (num div kTen16) :: u32) = unat num div 10000000000000000" "unat num div 10000000000000000 < 10000"
    using u64_lt [of num] by (simp_all add: kTen16_def kTen8_def unat_u64_u32 unat_div)
  moreover have "unat (ucast (w div kTen8) :: u32) = unat w div 100000000" "unat (ucast (w mod kTen8) :: u32) = unat w mod 100000000"
    using w by (simp_all add: kTen8_def unat_u64_u32 unat_div unat_mod)
  moreover have "unat w div 100000000 < 100000000"
    using w by simp
  ultimately have "u64toa_large num = decimal (unat num div 10000000000000000) @ decw 8 (unat w div 100000000) @ decw 8 (unat w mod 100000000)"
    by (simp add: u64toa_large_def head_lut eight_lut Let_def flip: w_def)
  then show ?thesis
    using decimal_split [of 16 "unat num"] assms by (simp add: decw16 w)
qed

lemma u64toa_decimal: "u64toa num = decimal (unat num)"
  by (simp add: u64toa_def u64toa_small_decimal u64toa_mid_decimal u64toa_large_decimal not_less kTen8_def kTen16_def)

lemma i64toa_decimal: "i64toa num = signed_decimal (sint num)"
  by (simp add: i64toa_def signed_decimal_def word_sless_alt u64toa_decimal negate_word unat_uminus_sint flip: unat_of_sint)

text \<open>C23. The fast integer conversions write exactly the decimal numeral: for every 32-bit and
  64-bit number, signed or not, the digits taken in pairs from the table, with the leading
  digits cut off by the comparisons with powers of ten, are those the reference definition
  \<open>decimal\<close> computes by repeated division (no leading zeros, \<open>0\<close> for zero), after a minus for a
  negative number, the least number included, whose magnitude does not fit its type.\<close>

theorem itoa_decimal:
  "u32toa a = decimal (unat a) \<and>
   i32toa b = (if sint b < 0 then 45 # decimal (nat (- sint b)) else decimal (nat (sint b))) \<and>
   u64toa c = decimal (unat c) \<and>
   i64toa d = (if sint d < 0 then 45 # decimal (nat (- sint d)) else decimal (nat (sint d)))"
  by (simp add: u32toa_decimal i32toa_decimal u64toa_decimal i64toa_decimal signed_decimal_def)

end
