(* ===== verification/JsonWriter.thy ===== *)
theory JsonWriter
  imports JsonDocument JsonItoa
begin

section \<open>rapidjson: the writer\<close>

text \<open>
  \<open>src/battle/3rd/rapidjson/writer.h\<close>: the handler that writes the events it gets as JSON text,
  for UTF-8 on both sides. The stream is the text put on it; flushing it does nothing more. The
  digits of a finite double (\<open>internal/dtoa.h\<close>, the Grisu2 algorithm) are not modelled: they are
  the argument \<open>dtoa\<close>. Strings end with a zero that is not part of them.
\<close>

unbundle bit_operations_syntax

subsection \<open>State\<close>

record write_flags =
  kWriteValidateEncodingFlag :: bool
  kWriteNanAndInfFlag :: bool
  kWriteNanAndInfNullFlag :: bool

datatype json_type = kNullType | kFalseType | kTrueType | kObjectType | kArrayType | kStringType | kNumType

record level =
  valueCount :: nat
  inArray :: bool

record json_writer =
  wr_out :: bytes
  level_stack :: "level list"
  maxDecimalPlaces :: int
  hasRoot :: bool

definition new_writer :: json_writer where
  "new_writer = \<lparr>wr_out = [], level_stack = [], maxDecimalPlaces = 324, hasRoot = False\<rparr>"

definition Reset :: "json_writer \<Rightarrow> json_writer" where
  "Reset w = w\<lparr>wr_out := [], hasRoot := False, level_stack := []\<rparr>"

definition IsComplete :: "json_writer \<Rightarrow> bool" where
  "IsComplete w \<longleftrightarrow> hasRoot w \<and> level_stack w = []"

subsection \<open>Values\<close>

definition WriteNull :: "bytes \<Rightarrow> bool \<times> bytes" where
  "WriteNull os = (True, os @ [110, 117, 108, 108])"

definition WriteBool :: "bool \<Rightarrow> bytes \<Rightarrow> bool \<times> bytes" where
  "WriteBool b os = (True, os @ (if b then [116, 114, 117, 101] else [102, 97, 108, 115, 101]))"

definition WriteInt :: "i32 \<Rightarrow> bytes \<Rightarrow> bool \<times> bytes" where
  "WriteInt i os = (True, os @ i32toa i)"

definition WriteUint :: "u32 \<Rightarrow> bytes \<Rightarrow> bool \<times> bytes" where
  "WriteUint u os = (True, os @ u32toa u)"

definition WriteInt64 :: "i64 \<Rightarrow> bytes \<Rightarrow> bool \<times> bytes" where
  "WriteInt64 i os = (True, os @ i64toa i)"

definition WriteUint64 :: "u64 \<Rightarrow> bytes \<Rightarrow> bool \<times> bytes" where
  "WriteUint64 u os = (True, os @ u64toa u)"

definition WriteDouble :: "write_flags \<Rightarrow> (f64 \<Rightarrow> int \<Rightarrow> bytes) \<Rightarrow> int \<Rightarrow> f64 \<Rightarrow> bytes \<Rightarrow> bool \<times> bytes" where
  "WriteDouble f dtoa places d os =
     (case d of
        F64 s (Mag m) \<Rightarrow> (True, os @ dtoa d places)
      | _ \<Rightarrow>
          if \<not> kWriteNanAndInfFlag f \<and> \<not> kWriteNanAndInfNullFlag f then (False, os)
          else if kWriteNanAndInfNullFlag f then (True, os @ [110, 117, 108, 108])
          else (True, os @ (case d of
                  F64NaN \<Rightarrow> [78, 97, 78]
                | F64 s m \<Rightarrow> (if s then [45] else []) @ [73, 110, 102, 105, 110, 105, 116, 121])))"

definition hexDigits :: bytes where
  "hexDigits = [48, 49, 50, 51, 52, 53, 54, 55, 56, 57, 65, 66, 67, 68, 69, 70]"

text \<open>The table \<open>escape\<close> of \<open>WriteString\<close>.\<close>

definition write_escape :: "u8 \<Rightarrow> u8" where
  "write_escape c =
     (if c = 8 then 98 else if c = 9 then 116 else if c = 10 then 110 else if c = 12 then 102 else if c = 13 then 114
      else if c < 32 then 117 else if c = 34 then 34 else if c = 92 then 92 else 0)"

text \<open>Escapes advance the stream by one, a character by at least one.\<close>

lemma utf8_copy_tell: "ss_tell s \<le> ss_tell (fst (snd (utf8_copy c s os)))"
  by (simp add: utf8_copy_def case_prod_beta)

lemma utf8_check_tell: "ss_tell s \<le> ss_tell (fst (snd (utf8_check ms c r s os)))"
proof (induction ms arbitrary: c r s os)
  case (Cons m ms)
  then show ?case
    using utf8_copy_tell [of s c os] by (simp add: case_prod_beta order.trans [OF _ Cons.IH])
qed simp

lemma transcode_tell:
  "(True, y) = (if v then utf8_Validate s os else transcode_8_8 s os) \<Longrightarrow> ss_tell s < ss_tell (fst y)"
  using utf8_check_tell [of "snd (Take s)" _ "fst (Take s)" True "os @ [fst (Take s)]"]
  by (force simp: transcode_8_8_def utf8_Validate_def utf8_copy_def case_prod_beta less_eq_Suc_le
      split: if_splits option.splits dest: arg_cong [where f = snd])

function write_chars :: "write_flags \<Rightarrow> nat \<Rightarrow> stream \<Rightarrow> bytes \<Rightarrow> bool \<times> bytes" where
  "write_chars f n s os =
     (if \<not> Tell s < n then (True, os)
      else
        let c = Peek s
        in if write_escape c \<noteq> 0 then
             write_chars f n (snd (Take s)) (os @ [92, write_escape c]
               @ (if write_escape c = 117 then [48, 48, hexDigits ! unat (drop_bit 4 c), hexDigits ! unat (c AND 0xF)] else []))
           else case (if kWriteValidateEncodingFlag f then utf8_Validate s os else transcode_8_8 s os) of
                  (True, s, os) \<Rightarrow> write_chars f n s os
                | (False, _, os) \<Rightarrow> (False, os))"
  by pat_completeness auto

termination
proof (relation "measure (\<lambda>(f, n, s, os). n - ss_tell s)", goal_cases)
  case (3 f n s os c p ok q t)
  then show ?case
    using transcode_tell by (force simp: Tell_def)
qed (auto simp: Tell_def)

declare write_chars.simps [simp del]

definition WriteString :: "write_flags \<Rightarrow> bytes \<Rightarrow> bytes \<Rightarrow> bool \<times> bytes" where
  "WriteString f str os =
     (let (ok, os) = write_chars f (length str) (string_stream_of str) (os @ [34]) in (ok, if ok then os @ [34] else os))"

subsection \<open>Events\<close>

definition Prefix :: "json_type \<Rightarrow> json_writer \<Rightarrow> json_writer option" where
  "Prefix t w =
     (case level_stack w of
        [] \<Rightarrow> if hasRoot w then None else Some (w\<lparr>hasRoot := True\<rparr>)
      | l # ls \<Rightarrow>
          let w = (if valueCount l > 0 then
                     w\<lparr>wr_out := wr_out w @ [if inArray l then 44 else if valueCount l mod 2 = 0 then 44 else 58]\<rparr>
                   else w)
          in if \<not> inArray l \<and> valueCount l mod 2 = 0 \<and> t \<noteq> kStringType then None
             else Some (w\<lparr>level_stack := l\<lparr>valueCount := valueCount l + 1\<rparr> # ls\<rparr>))"

definition write_scalar :: "json_type \<Rightarrow> (bytes \<Rightarrow> bool \<times> bytes) \<Rightarrow> json_writer \<Rightarrow> (bool \<times> json_writer) option" where
  "write_scalar t put w = map_option (\<lambda>w. let (ok, os) = put (wr_out w) in (ok, w\<lparr>wr_out := os\<rparr>)) (Prefix t w)"

definition write_start :: "json_type \<Rightarrow> bool \<Rightarrow> u8 \<Rightarrow> json_writer \<Rightarrow> (bool \<times> json_writer) option" where
  "write_start t arr c w = map_option (\<lambda>w. (True, w\<lparr>level_stack := \<lparr>valueCount = 0, inArray = arr\<rparr> # level_stack w,
     wr_out := wr_out w @ [c]\<rparr>)) (Prefix t w)"

definition write_end :: "bool \<Rightarrow> u8 \<Rightarrow> json_writer \<Rightarrow> (bool \<times> json_writer) option" where
  "write_end arr c w =
     (case level_stack w of
        [] \<Rightarrow> None
      | l # ls \<Rightarrow>
          if inArray l \<noteq> arr \<or> \<not> arr \<and> valueCount l mod 2 \<noteq> 0 then None
          else Some (True, w\<lparr>level_stack := ls, wr_out := wr_out w @ [c]\<rparr>))"

fun write_event ::
  "write_flags \<Rightarrow> (f64 \<Rightarrow> int \<Rightarrow> bytes) \<Rightarrow> json_event \<Rightarrow> json_writer \<Rightarrow> (bool \<times> json_writer) option" where
  "write_event f dtoa H_Null w = write_scalar kNullType WriteNull w"
| "write_event f dtoa (H_Bool b) w = write_scalar (if b then kTrueType else kFalseType) (WriteBool b) w"
| "write_event f dtoa (H_Int i) w = write_scalar kNumType (WriteInt i) w"
| "write_event f dtoa (H_Uint u) w = write_scalar kNumType (WriteUint u) w"
| "write_event f dtoa (H_Int64 i) w = write_scalar kNumType (WriteInt64 i) w"
| "write_event f dtoa (H_Uint64 u) w = write_scalar kNumType (WriteUint64 u) w"
| "write_event f dtoa (H_Double d) w = write_scalar kNumType (WriteDouble f dtoa (maxDecimalPlaces w) d) w"
| "write_event f dtoa (H_String str) w = write_scalar kStringType (WriteString f str) w"
| "write_event f dtoa (H_Key str) w = write_scalar kStringType (WriteString f str) w"
| "write_event f dtoa H_StartObject w = write_start kObjectType False 123 w"
| "write_event f dtoa (H_EndObject memberCount) w = write_end False 125 w"
| "write_event f dtoa H_StartArray w = write_start kArrayType True 91 w"
| "write_event f dtoa (H_EndArray elementCount) w = write_end True 93 w"

text \<open>The writer as a handler, nothing after a failed assertion; a value written by a new one.\<close>

definition writer :: "write_flags \<Rightarrow> (f64 \<Rightarrow> int \<Rightarrow> bytes) \<Rightarrow> json_writer option handler" where
  "writer f dtoa ev w =
     (case w of None \<Rightarrow> (False, None) | Some w \<Rightarrow>
        (case write_event f dtoa ev w of None \<Rightarrow> (False, None) | Some (ok, w) \<Rightarrow> (ok, Some w)))"

definition write_json :: "write_flags \<Rightarrow> (f64 \<Rightarrow> int \<Rightarrow> bytes) \<Rightarrow> json_value \<Rightarrow> (bool \<times> json_writer) option" where
  "write_json f dtoa v =
     (case Accept (writer f dtoa) v (Some new_writer) of
        Some (ok, Some w) \<Rightarrow> Some (ok, w)
      | _ \<Rightarrow> None)"

end
