(* ===== verification/JsonText.thy ===== *)
theory JsonText
  imports JsonWriter
begin

section \<open>rapidjson: the text of a value\<close>

text \<open>
  A reference definition of the compact JSON text of a value, and that the writer, driven by the
  events of \<open>Accept\<close>, writes it. The values are those without doubles whose numbers the
  constructors made and whose names are strings.
\<close>

unbundle bit_operations_syntax

subsection \<open>The reference definition\<close>

definition char_text :: "u8 \<Rightarrow> bytes" where
  "char_text c =
     (if write_escape c = 0 then [c]
      else [92, write_escape c]
        @ (if write_escape c = 117 then [48, 48, hexDigits ! unat (drop_bit 4 c), hexDigits ! unat (c AND 0xF)] else []))"

definition string_text :: "bytes \<Rightarrow> bytes" where
  "string_text str = [34] @ concat (map char_text str) @ [34]"

text \<open>The integer a number stands for.\<close>

definition number_int :: "u16 \<Rightarrow> u64 \<Rightarrow> int" where
  "number_int flags b =
     (if has_flag flags kIntFlag then sint (ucast b :: i32)
      else if has_flag flags kUintFlag then uint (ucast b :: u32)
      else if has_flag flags kInt64Flag then sint b
      else uint b)"

fun json_text :: "json_value \<Rightarrow> bytes" and members_text :: "json_member list \<Rightarrow> bytes"
  and elements_text :: "json_value list \<Rightarrow> bytes" where
  "json_text JNull = [110, 117, 108, 108]"
| "json_text JFalse = [102, 97, 108, 115, 101]"
| "json_text JTrue = [116, 114, 117, 101]"
| "json_text (JObject ms) = [123] @ members_text ms @ [125]"
| "json_text (JArray vs) = [91] @ elements_text vs @ [93]"
| "json_text (JString str) = string_text str"
| "json_text (JNumber flags n) = (case n of NBits b \<Rightarrow> signed_decimal (number_int flags b) | NDouble d \<Rightarrow> [])"
| "members_text [] = []"
| "members_text (Member n v # ms) =
     json_text n @ [58] @ json_text v @ (if ms = [] then [] else [44] @ members_text ms)"
| "elements_text [] = []"
| "elements_text (v # vs) = json_text v @ (if vs = [] then [] else [44] @ elements_text vs)"

fun plain :: "json_value \<Rightarrow> bool" and plain_members :: "json_member list \<Rightarrow> bool"
  and plain_elements :: "json_value list \<Rightarrow> bool" where
  "plain (JObject ms) = plain_members ms"
| "plain (JArray vs) = plain_elements vs"
| "plain (JNumber flags n) =
     (case n of
        NBits b \<Rightarrow> JNumber flags n = value_Uint64 b \<or> b <s 0 \<and> JNumber flags n = value_Int64 b
      | NDouble _ \<Rightarrow> False)"
| "plain _ = True"
| "plain_members [] = True"
| "plain_members (Member n v # ms) = (IsString n \<and> plain v \<and> plain_members ms)"
| "plain_elements [] = True"
| "plain_elements (v # vs) = (plain v \<and> plain_elements vs)"

subsection \<open>Strings\<close>

lemma write_chars_text:
  assumes "\<not> kWriteValidateEncodingFlag f"
  shows "write_chars f (t + length str) \<lparr>ss_src = str, ss_tell = t\<rparr> os = (True, os @ concat (map char_text str))"
proof (induction str arbitrary: t os)
  case Nil
  then show ?case
    by (subst write_chars.simps) simp
next
  case (Cons c str)
  show ?case
    using Cons [of "Suc t"] assms
    by (subst write_chars.simps) (simp add: char_text_def [of c] Let_def transcode_8_8_def)
qed

lemma WriteString_text:
  "\<not> kWriteValidateEncodingFlag f \<Longrightarrow> WriteString f str os = (True, os @ string_text str)"
  using write_chars_text [of f 0 str] by (simp add: WriteString_def string_text_def string_stream_of_def)

subsection \<open>Numbers\<close>

lemma writer_Some:
  "writer f dtoa ev (Some w)
    = (case write_event f dtoa ev w of None \<Rightarrow> (False, None) | Some (ok, w) \<Rightarrow> (ok, Some w))"
  by (simp add: writer_def)

lemma number_written:
  "Prefix kNumType w = Some t \<Longrightarrow> accept_number (writer f dtoa) flags (NBits b) (Some w)
    = (True, Some (t\<lparr>wr_out := wr_out t @ signed_decimal (number_int flags b)\<rparr>))"
  by (auto simp: accept_number_def writer_Some write_scalar_def WriteInt_def WriteUint_def WriteInt64_def WriteUint64_def
      number_int_def i32toa_decimal i64toa_decimal u32toa_decimal u64toa_decimal signed_decimal_def
      split: option.splits)

subsection \<open>Values\<close>

text \<open>
  The events of a value add its text where the prefix left the output; those of members and
  elements add theirs, with the separators, and count them.
\<close>

lemma accept_written:
  assumes f: "\<not> kWriteValidateEncodingFlag f"
  shows
  "plain v \<Longrightarrow> \<forall>ty. Prefix ty w = Some t \<Longrightarrow>
    Accept (writer f dtoa) v (Some w) = Some (True, Some (t\<lparr>wr_out := wr_out t @ json_text v\<rparr>))"
  "plain_members ms \<Longrightarrow> level_stack w = \<lparr>valueCount = 2 * k, inArray = False\<rparr> # ls \<Longrightarrow>
    accept_members (writer f dtoa) ms (Some w) = Some (True, Some (w\<lparr>
      level_stack := \<lparr>valueCount = 2 * (k + length ms), inArray = False\<rparr> # ls,
      wr_out := wr_out w @ (if k > 0 \<and> ms \<noteq> [] then [44] else []) @ members_text ms\<rparr>))"
  "plain_elements vs \<Longrightarrow> level_stack w = \<lparr>valueCount = k, inArray = True\<rparr> # ls \<Longrightarrow>
    accept_elements (writer f dtoa) vs (Some w) = Some (True, Some (w\<lparr>
      level_stack := \<lparr>valueCount = k + length vs, inArray = True\<rparr> # ls,
      wr_out := wr_out w @ (if k > 0 \<and> vs \<noteq> [] then [44] else []) @ elements_text vs\<rparr>))"
proof (induction v and ms and vs arbitrary: w t and w k ls and w k ls rule: json_text_members_text_elements_text.induct)
  case (4 ms)
  let ?w = "t\<lparr>level_stack := \<lparr>valueCount = 0, inArray = False\<rparr> # level_stack t, wr_out := wr_out t @ [123]\<rparr>"
  have "writer f dtoa H_StartObject (Some w) = (True, Some ?w)"
    using "4.prems" by (simp add: writer_Some write_start_def)
  moreover have "accept_members (writer f dtoa) ms (Some ?w) = Some (True, Some (?w\<lparr>
      level_stack := \<lparr>valueCount = 2 * length ms, inArray = False\<rparr> # level_stack t,
      wr_out := wr_out ?w @ members_text ms\<rparr>))"
    using "4.IH" [of ?w 0 "level_stack t"] "4.prems" by simp
  ultimately show ?case
    by (simp add: and_also_def writer_Some write_end_def)
next
  case (5 vs)
  let ?w = "t\<lparr>level_stack := \<lparr>valueCount = 0, inArray = True\<rparr> # level_stack t, wr_out := wr_out t @ [91]\<rparr>"
  have "writer f dtoa H_StartArray (Some w) = (True, Some ?w)"
    using "5.prems" by (simp add: writer_Some write_start_def)
  moreover have "accept_elements (writer f dtoa) vs (Some ?w) = Some (True, Some (?w\<lparr>
      level_stack := \<lparr>valueCount = length vs, inArray = True\<rparr> # level_stack t,
      wr_out := wr_out ?w @ elements_text vs\<rparr>))"
    using "5.IH" [of ?w 0 "level_stack t"] "5.prems" by simp
  ultimately show ?case
    by (simp add: and_also_def writer_Some write_end_def)
next
  case (7 flags n)
  then show ?case
    using number_written [of w t f dtoa flags] by (auto split: number_data.splits)
next
  case (9 n v ms)
  then obtain str where n: "n = JString str"
    by (auto simp: IsString_def split: json_value.splits)
  let ?key = "w\<lparr>level_stack := \<lparr>valueCount = 2 * k + 1, inArray = False\<rparr> # ls,
      wr_out := wr_out w @ (if k > 0 then [44] else []) @ string_text str\<rparr>"
  let ?colon = "w\<lparr>level_stack := \<lparr>valueCount = 2 * (k + 1), inArray = False\<rparr> # ls,
      wr_out := wr_out w @ (if k > 0 then [44] else []) @ string_text str @ [58]\<rparr>"
  let ?val = "?colon\<lparr>wr_out := wr_out ?colon @ json_text v\<rparr>"
  have "writer f dtoa (H_Key str) (Some w) = (True, Some ?key)"
    using "9.prems" by (auto simp: writer_Some write_scalar_def WriteString_text [OF f] Prefix_def)
  moreover have "Accept (writer f dtoa) v (Some ?key) = Some (True, Some ?val)"
    using "9.prems" by (intro "9.IH"(2)) (auto simp: Prefix_def)
  moreover have "accept_members (writer f dtoa) ms (Some ?val) = Some (True, Some (?val\<lparr>
      level_stack := \<lparr>valueCount = 2 * (k + 1 + length ms), inArray = False\<rparr> # ls,
      wr_out := wr_out ?val @ (if ms \<noteq> [] then [44] else []) @ members_text ms\<rparr>))"
    using "9.IH"(3) [of ?val "k + 1" ls] "9.prems" by (cases "k = 0"; cases "ms = []"; simp)
  ultimately show ?case
    by (cases "k = 0"; cases "ms = []"; simp add: n and_also_def)
next
  case (11 v vs)
  let ?comma = "w\<lparr>level_stack := \<lparr>valueCount = k + 1, inArray = True\<rparr> # ls,
      wr_out := wr_out w @ (if k > 0 then [44] else [])\<rparr>"
  let ?val = "?comma\<lparr>wr_out := wr_out ?comma @ json_text v\<rparr>"
  have "Accept (writer f dtoa) v (Some w) = Some (True, Some ?val)"
    using "11.prems" by (intro "11.IH"(1)) (auto simp: Prefix_def)
  moreover have "accept_elements (writer f dtoa) vs (Some ?val) = Some (True, Some (?val\<lparr>
      level_stack := \<lparr>valueCount = k + 1 + length vs, inArray = True\<rparr> # ls,
      wr_out := wr_out ?val @ (if vs \<noteq> [] then [44] else []) @ elements_text vs\<rparr>))"
    using "11.IH"(2) [of ?val "k + 1" ls] "11.prems" by (cases "k = 0"; cases "vs = []"; simp)
  ultimately show ?case
    by (cases "k = 0"; cases "vs = []"; simp add: and_also_def)
qed (simp_all add: writer_Some write_scalar_def WriteNull_def WriteBool_def WriteString_text [OF f])

lemma write_json_text:
  assumes "\<not> kWriteValidateEncodingFlag f" "plain v"
  shows "write_json f dtoa v = Some (True, new_writer\<lparr>wr_out := json_text v, hasRoot := True\<rparr>)"
proof -
  have "\<forall>ty. Prefix ty new_writer = Some (new_writer\<lparr>hasRoot := True\<rparr>)"
    by (simp add: Prefix_def new_writer_def)
  from accept_written(1) [OF assms this] show ?thesis
    by (simp add: write_json_def new_writer_def)
qed

end
