(* ===== verification/JsonNumbers.thy ===== *)
theory JsonNumbers
  imports JsonText
begin

section \<open>rapidjson: integers read and written\<close>

text \<open>
  The flags of a number are those of the integer it stands for, whichever constructor made it,
  and the reader makes of a decimal numeral the event of that integer, in the widths of the code.
\<close>

unbundle bit_operations_syntax

subsection \<open>Flags\<close>

lemma and_not_mask_zero: "(u AND NOT (mask k)) = 0 \<longleftrightarrow> unat u < 2 ^ k" for u :: "'a::len word"
proof -
  have "u = take_bit k u OR (u AND NOT (mask k))"
    by (rule bit_word_eqI) (auto simp: bit_simps)
  then have "(u AND NOT (mask k)) = 0 \<Longrightarrow> take_bit k u = u"
    by simp
  moreover have "take_bit k u = u \<Longrightarrow> (u AND NOT (mask k)) = 0"
    by (metis take_bit_eq_mask and.assoc bit.conj_cancel_right and_zero_eq)
  moreover have "take_bit k u = u \<longleftrightarrow> unat u < 2 ^ k"
    by (simp add: word_unat_eq_iff unsigned_take_bit_eq take_bit_nat_eq_self_iff)
  ultimately show ?thesis
    by blast
qed

lemma high_masks:
  "(0x8000000000000000 :: u64) = NOT (mask 63)" "(0xFFFFFFFF00000000 :: u64) = NOT (mask 32)"
  "(0xFFFFFFFF80000000 :: u64) = NOT (mask 31)" "(0x80000000 :: u32) = NOT (mask 31)"
  by (simp_all add: mask_eq_exp_minus_1)

lemma high_zero:
  "(u AND 0x8000000000000000) = 0 \<longleftrightarrow> unat u < 0x8000000000000000"
  "(u AND 0xFFFFFFFF00000000) = 0 \<longleftrightarrow> unat u < 0x100000000"
  "(u AND 0xFFFFFFFF80000000) = 0 \<longleftrightarrow> unat u < 0x80000000"
  "(v AND 0x80000000) = 0 \<longleftrightarrow> unat v < 0x80000000" for u :: u64 and v :: u32
  unfolding high_masks and_not_mask_zero by simp_all

text \<open>The signed value by the bits.\<close>

lemma sign_mod:
  assumes "0 \<le> x" "x < 2 * h"
  shows "(x + h) mod (2 * h) - h = (if x < h then x else x - 2 * (h :: int))"
proof (cases "x < h")
  case True
  then show ?thesis
    using assms by (simp add: mod_pos_pos_trivial)
next
  case False
  then have "(x + h) mod (2 * h) = (x - h + 2 * h) mod (2 * h)"
    by (simp add: algebra_simps)
  also have "\<dots> = (x - h) mod (2 * h)"
    by (rule mod_add_self2)
  also have "\<dots> = x - h"
    using assms False by (intro mod_pos_pos_trivial) auto
  finally show ?thesis
    using False by simp
qed

lemma sint_uint_cases:
  "sint b = (if uint b < 2 ^ (LENGTH('a) - 1) then uint b else uint b - 2 ^ LENGTH('a))" for b :: "'a::len word"
proof -
  define h :: int where "h = 2 ^ (LENGTH('a) - 1)"
  have two: "(2::int) ^ LENGTH('a) = 2 * h"
    unfolding h_def by (metis One_nat_def Suc_pred len_gt_0 power_Suc)
  have "sint b = (uint b + 2 ^ (LENGTH('a) - 1)) mod 2 ^ LENGTH('a) - 2 ^ (LENGTH('a) - 1)"
    by (simp add: sint_uint signed_take_bit_eq_take_bit_shift take_bit_eq_mod)
  also have "\<dots> = (uint b + h) mod (2 * h) - h"
    unfolding two h_def ..
  also have "\<dots> = (if uint b < h then uint b else uint b - 2 * h)"
    using uint_lt2p [of b] unfolding two by (intro sign_mod) auto
  finally show ?thesis
    unfolding two h_def .
qed

lemma unat_less_uint: "unat b < n \<longleftrightarrow> uint b < int n"
  by (metis of_nat_less_iff of_nat_unat)

lemma sint_nat:
  "sint b = (if unat b < 0x8000000000000000 then int (unat b) else int (unat b) - 0x10000000000000000)"
  "sint c = (if unat c < 0x80000000 then int (unat c) else int (unat c) - 0x100000000)" for b :: u64 and c :: u32
  unfolding unat_less_uint of_nat_unat using sint_uint_cases [of b] sint_uint_cases [of c] by auto

lemma unat_bounds: "unat b < 0x10000000000000000" "unat c < 0x100000000" for b :: u64 and c :: u32
  using unsigned_less [of b, where 'a = nat] unsigned_less [of c, where 'a = nat] by simp_all

definition number_of :: "int \<Rightarrow> json_value" where
  "number_of z = (if z < 0 then value_Int64 (word_of_int z) else value_Uint64 (word_of_int z))"

lemma sless_zero: "b <s 0 \<longleftrightarrow> sint b < 0" "0 \<le>s b \<longleftrightarrow> \<not> sint b < 0" for b :: "'a::len word"
  by (simp_all add: word_sless_alt word_sle_eq not_less)

lemma value_Uint64_number: "value_Uint64 u = number_of (uint u)"
  by (simp add: number_of_def)

lemma value_Int64_number: "value_Int64 i = number_of (sint i)"
proof (cases "sint i < 0")
  case False
  then have "unat i < 0x8000000000000000"
    using sint_nat(1) [of i] unat_bounds(1) [of i] by (simp split: if_splits)
  then show ?thesis
    using False
    by (simp add: number_of_def value_Int64_def value_Uint64_def sless_zero high_zero flag_defs)
qed (simp add: number_of_def)

lemma ucast_up: "unat (ucast u :: u64) = unat u" for u :: u32
  using unat_bounds(2) [of u] by (simp add: unsigned_ucast_eq take_bit_nat_eq_self_iff)

lemma value_Uint_number: "value_Uint u = number_of (uint u)"
  using unat_bounds(2) [of u]
  by (simp add: number_of_def value_Uint_def value_Uint64_def high_zero ucast_up flag_defs)

lemma i32_range: "- 0x80000000 \<le> sint i" "sint i < 0x80000000" for i :: i32
  using sint_greater_eq [of i] sint_less [of i] by simp_all

lemma sint_scast: "sint (scast i :: i64) = sint i" for i :: i32
  using i32_range [of i] by (simp add: signed_scast_eq signed_take_bit_int_eq_self)

lemma value_Int_number: "value_Int i = number_of (sint i)"
proof (cases "sint i < 0")
  case True
  then show ?thesis
    using i32_range [of i]
    by (simp add: number_of_def value_Int_def value_Int64_def sless_zero flag_defs word_sle_eq sint_scast)
next
  case False
  then have "unat i < 0x80000000"
    using sint_nat(2) [of i] unat_bounds(2) [of i] by (simp split: if_splits)
  moreover have "unat (scast i :: u64) = nat (sint i)"
    unfolding scast_eq unat_eq_nat_uint uint_word_of_int using False i32_range [of i] by (simp add: mod_pos_pos_trivial)
  ultimately show ?thesis
    using False i32_range [of i]
    by (simp add: number_of_def value_Int_def value_Uint64_def sless_zero high_zero flag_defs nat_less_iff)
qed

subsection \<open>The integer of a number\<close>

lemma ucast_low: "unat b < 0x100000000 \<Longrightarrow> uint (ucast b :: u32) = uint b" for b :: u64
  by (simp add: unsigned_ucast_eq take_bit_int_eq_self_iff unat_less_uint)

lemma sint_low: "unat b < 0x80000000 \<Longrightarrow> sint (ucast b :: u32) = uint b" for b :: u64
  using ucast_low [of b] sint_uint_cases [of "ucast b :: u32"] by (simp add: unat_less_uint)

lemma sint_mid: "unat b < 0x8000000000000000 \<Longrightarrow> sint b = uint b" for b :: u64
  using sint_uint_cases [of b] by (simp add: unat_less_uint)

lemma flags_Uint64:
  assumes v: "JNumber flags (NBits c) = value_Uint64 b"
  shows "number_int flags b = uint b"
proof -
  consider "unat b < 0x80000000" | "\<not> unat b < 0x80000000" "unat b < 0x100000000"
    | "\<not> unat b < 0x100000000" "unat b < 0x8000000000000000" | "\<not> unat b < 0x8000000000000000"
    by blast
  then show ?thesis
  proof cases
    case 1
    with v have "flags = 0x1F6"
      by (simp add: value_Uint64_def high_zero flag_defs)
    then show ?thesis
      using sint_low [OF 1] by (simp add: number_int_def has_flag_def flag_defs)
  next
    case 2
    with v have "flags = 0x1D6"
      by (simp add: value_Uint64_def high_zero flag_defs)
    then show ?thesis
      using ucast_low [OF 2(2)] by (simp add: number_int_def has_flag_def flag_defs)
  next
    case 3
    with v have "flags = 0x196"
      by (simp add: value_Uint64_def high_zero flag_defs)
    then show ?thesis
      using sint_mid [OF 3(2)] by (simp add: number_int_def has_flag_def flag_defs)
  next
    case 4
    with v have "flags = 0x116"
      by (simp add: value_Uint64_def high_zero flag_defs)
    then show ?thesis
      by (simp add: number_int_def has_flag_def flag_defs)
  qed
qed

lemma flags_Int64:
  assumes v: "JNumber flags (NBits c) = value_Int64 b" and neg: "b <s 0"
  shows "number_int flags b = sint b"
proof (cases "- 0x80000000 \<le> sint b")
  case True
  have "uint b = sint b + 0x10000000000000000"
    using neg uint_lt2p [of b] sint_uint_cases [of b] by (simp add: sless_zero split: if_splits)
  then have "uint (ucast b :: u32) = (sint b + 0x100000000 + 0xFFFFFFFF * 0x100000000) mod 0x100000000"
    by (simp add: unsigned_ucast_eq take_bit_eq_mod add.commute)
  also have "\<dots> = sint b + 0x100000000"
    using True neg unfolding mod_mult_self1 by (intro mod_pos_pos_trivial) (simp_all add: sless_zero)
  finally have "sint (ucast b :: u32) = sint b"
    using True sint_uint_cases [of "ucast b :: u32"] by simp
  moreover have "flags = 0xB6"
    using v neg True by (simp add: value_Int64_def sless_zero flag_defs word_sle_eq)
  ultimately show ?thesis
    by (simp add: number_int_def has_flag_def flag_defs)
next
  case False
  then have "flags = 0x96"
    using v neg by (simp add: value_Int64_def sless_zero flag_defs word_sle_eq)
  then show ?thesis
    by (simp add: number_int_def has_flag_def flag_defs)
qed

lemma plain_number:
  assumes "plain (JNumber flags (NBits b))"
  shows "JNumber flags (NBits b) = number_of (number_int flags b)" "- 0x8000000000000000 \<le> number_int flags b"
    "number_int flags b < 0x10000000000000000"
proof -
  have bounds: "- 0x8000000000000000 \<le> uint b" "uint b < 0x10000000000000000"
    "- 0x8000000000000000 \<le> sint b" "sint b < 0x10000000000000000"
    using uint_ge_0 [of b] uint_lt2p [of b] sint_greater_eq [of b] sint_less [of b] by (linarith | simp)+
  from assms consider "JNumber flags (NBits b) = value_Uint64 b" | "JNumber flags (NBits b) = value_Int64 b" "b <s 0"
    by auto
  then have "JNumber flags (NBits b) = number_of (number_int flags b) \<and> number_int flags b \<in> {uint b, sint b}"
    by cases (simp_all add: flags_Uint64 flags_Int64 flip: value_Uint64_number value_Int64_number)
  with bounds show "JNumber flags (NBits b) = number_of (number_int flags b)" "- 0x8000000000000000 \<le> number_int flags b"
    "number_int flags b < 0x10000000000000000"
    by auto
qed

subsection \<open>Reading digits\<close>

primrec digits_value :: "nat \<Rightarrow> bytes \<Rightarrow> nat" where
  "digits_value a [] = a"
| "digits_value a (c # cs) = digits_value (a * 10 + unat (c - 48)) cs"

lemma digits_value_append: "digits_value a (cs @ ds) = digits_value (digits_value a cs) ds"
  by (induction cs arbitrary: a) simp_all

lemma digits_value_ge: "a \<le> digits_value a cs"
proof (induction cs arbitrary: a)
  case (Cons c cs)
  show ?case
    using Cons [of "a * 10 + unat (c - 48)"] by simp
qed simp

lemma digit_unat:
  assumes "is_digit c"
  shows "unat (c - 48) = unat c - 48" "unat c \<le> 57" "48 \<le> unat c"
proof -
  have c: "48 \<le> c" "c \<le> 57"
    using assms unfolding is_digit_def by blast+
  have "unat (48::u8) = 48"
    by simp
  then show "unat (c - 48) = unat c - 48"
    using unat_sub [OF c(1)] by (simp only:)
  show "unat c \<le> 57" "48 \<le> unat c"
    using c unfolding word_le_nat_alt by simp_all
qed

lemma unat_step:
  fixes i :: "'a::len word" and d :: u8
  assumes "unat i * 10 + unat d < 2 ^ LENGTH('a)"
  shows "unat (i * 10 + ucast d) = unat i * 10 + unat d"
proof -
  have "i * 10 + ucast d = of_nat (unat i * 10 + unat d)"
    by simp
  then show ?thesis
    using assms by (simp only: unsigned_of_nat take_bit_nat_eq_self of_nat_id)
qed

lemma at_limit:
  fixes i lim :: "'a::len word"
  assumes "is_digit c" "unat k = 48 + e" "e \<le> 9"
  shows "(lim \<le> i \<and> (i \<noteq> lim \<or> k < c)) \<longleftrightarrow> unat lim * 10 + e < unat i * 10 + unat (c - 48)"
proof -
  define d where "d = unat (c - 48)"
  then have d: "d \<le> 9" "unat c = 48 + d"
    using digit_unat [OF assms(1)] by auto
  have "(y \<le> x \<and> (x \<noteq> y \<or> e < d)) \<longleftrightarrow> y * 10 + e < x * 10 + d" for x y :: nat
    using d(1) assms(3) by auto
  then show ?thesis
    by (simp add: word_le_nat_alt word_less_nat_alt word_unat_eq_iff assms(2) d(2) flip: d_def)
qed

lemma step32:
  fixes i :: u32
  assumes "is_digit c"
  shows "(214748364 \<le> i \<and> (i \<noteq> 214748364 \<or> 56 < c)) \<longleftrightarrow> 2147483648 < unat i * 10 + unat (c - 48)"
    "(429496729 \<le> i \<and> (i \<noteq> 429496729 \<or> 53 < c)) \<longleftrightarrow> 4294967295 < unat i * 10 + unat (c - 48)"
  using at_limit [OF assms, where k = 56 and e = 8 and lim = 214748364 and i = i]
    at_limit [OF assms, where k = 53 and e = 5 and lim = 429496729 and i = i] by simp_all

lemma step64:
  fixes i :: u64
  assumes "is_digit c"
  shows "(0x0CCCCCCCCCCCCCCC \<le> i \<and> (i \<noteq> 0x0CCCCCCCCCCCCCCC \<or> 56 < c)) \<longleftrightarrow> 0x8000000000000000 < unat i * 10 + unat (c - 48)"
    "(0x1999999999999999 \<le> i \<and> (i \<noteq> 0x1999999999999999 \<or> 53 < c)) \<longleftrightarrow> 0xFFFFFFFFFFFFFFFF < unat i * 10 + unat (c - 48)"
  using at_limit [OF assms, where k = 56 and e = 8 and lim = "0x0CCCCCCCCCCCCCCC" and i = i]
    at_limit [OF assms, where k = 53 and e = 5 and lim = "0x1999999999999999" and i = i] by simp_all

text \<open>One digit read: within the width, or the loop ends.\<close>

definition top32 :: "bool \<Rightarrow> nat" where "top32 neg = (if neg then 2147483648 else 4294967295)"
definition top64 :: "bool \<Rightarrow> nat" where "top64 neg = (if neg then 0x8000000000000000 else 0xFFFFFFFFFFFFFFFF)"

lemma digits32_digit:
  assumes "is_digit c"
  shows "digits32 neg n \<lparr>ss_src = c # cs, ss_tell = t\<rparr> =
    (if unat (num_i n) * 10 + unat (c - 48) > top32 neg
     then (n\<lparr>num_i64 := ucast (num_i n), num_use64bit := True\<rparr>, \<lparr>ss_src = c # cs, ss_tell = t\<rparr>)
     else digits32 neg (n\<lparr>num_i := num_i n * 10 + ucast (c - 48), num_significandDigit := num_significandDigit n + 1\<rparr>)
       \<lparr>ss_src = cs, ss_tell = Suc t\<rparr>)"
  using step32 [OF assms, of "num_i n"] assms
  by (subst digits32.simps) (cases neg; simp add: top32_def Let_def)

lemma digits64_digit:
  assumes "is_digit c"
  shows "digits64 neg n \<lparr>ss_src = c # cs, ss_tell = t\<rparr> =
    (if unat (num_i64 n) * 10 + unat (c - 48) > top64 neg
     then (n\<lparr>num_d := d_of_nat (unat (num_i64 n)), num_useDouble := True\<rparr>, \<lparr>ss_src = c # cs, ss_tell = t\<rparr>)
     else digits64 neg (n\<lparr>num_i64 := num_i64 n * 10 + ucast (c - 48), num_significandDigit := num_significandDigit n + 1\<rparr>)
       \<lparr>ss_src = cs, ss_tell = Suc t\<rparr>)"
  using step64 [OF assms, of "num_i64 n"] assms
  by (subst digits64.simps) (cases neg; simp add: top64_def Let_def)

definition at_end :: "bytes \<Rightarrow> bool" where
  "at_end rest \<longleftrightarrow> \<not> is_digit (Peek \<lparr>ss_src = rest, ss_tell = 0\<rparr>)"

lemma Peek_at: "Peek \<lparr>ss_src = rest, ss_tell = t\<rparr> = Peek \<lparr>ss_src = rest, ss_tell = 0\<rparr>"
  by (simp add: Peek_def)

lemma top_lt: "top32 neg < 2 ^ LENGTH(32)" "top64 neg < 2 ^ LENGTH(64)"
  by (simp_all add: top32_def top64_def)

lemma digits32_reads:
  "\<lbrakk>list_all is_digit cs; at_end rest; digits_value (unat (num_i n)) cs \<le> top32 neg\<rbrakk>
    \<Longrightarrow> digits32 neg n \<lparr>ss_src = cs @ rest, ss_tell = t\<rparr>
      = (n\<lparr>num_i := of_nat (digits_value (unat (num_i n)) cs), num_significandDigit := num_significandDigit n + length cs\<rparr>,
         \<lparr>ss_src = rest, ss_tell = t + length cs\<rparr>)"
proof (induction cs arbitrary: n t)
  case Nil
  then show ?case
    by (subst digits32.simps) (simp add: at_end_def Peek_at [of rest t])
next
  case (Cons c cs)
  let ?v = "unat (num_i n) * 10 + unat (c - 48)"
  have le: "?v \<le> top32 neg"
    using Cons.prems digits_value_ge [of ?v cs] by simp
  then have "unat (num_i n * 10 + ucast (c - 48)) = ?v"
    using top_lt(1) [of neg] by (intro unat_step) simp
  with le Cons.prems Cons.IH [of "n\<lparr>num_i := num_i n * 10 + ucast (c - 48), num_significandDigit := num_significandDigit n + 1\<rparr>" "Suc t"]
  show ?case
    by (simp add: digits32_digit)
qed

lemma digits64_reads:
  "\<lbrakk>list_all is_digit cs; at_end rest; digits_value (unat (num_i64 n)) cs \<le> top64 neg\<rbrakk>
    \<Longrightarrow> digits64 neg n \<lparr>ss_src = cs @ rest, ss_tell = t\<rparr>
      = (n\<lparr>num_i64 := of_nat (digits_value (unat (num_i64 n)) cs), num_significandDigit := num_significandDigit n + length cs\<rparr>,
         \<lparr>ss_src = rest, ss_tell = t + length cs\<rparr>)"
proof (induction cs arbitrary: n t)
  case Nil
  then show ?case
    by (subst digits64.simps) (simp add: at_end_def Peek_at [of rest t])
next
  case (Cons c cs)
  let ?v = "unat (num_i64 n) * 10 + unat (c - 48)"
  have le: "?v \<le> top64 neg"
    using Cons.prems digits_value_ge [of ?v cs] by simp
  then have "unat (num_i64 n * 10 + ucast (c - 48)) = ?v"
    using top_lt(2) [of neg] by (intro unat_step) simp
  with le Cons.prems Cons.IH [of "n\<lparr>num_i64 := num_i64 n * 10 + ucast (c - 48), num_significandDigit := num_significandDigit n + 1\<rparr>" "Suc t"]
  show ?case
    by (simp add: digits64_digit)
qed

text \<open>Where 32 bits end, the loop leaves the digits not read and their value.\<close>

lemma digits32_overflows:
  "\<lbrakk>list_all is_digit cs; unat (num_i n) \<le> top32 neg; digits_value (unat (num_i n)) cs > top32 neg\<rbrakk>
    \<Longrightarrow> \<exists>ds n' p. digits32 neg n \<lparr>ss_src = cs @ rest, ss_tell = t\<rparr>
        = (n'\<lparr>num_i64 := of_nat p, num_use64bit := True\<rparr>, \<lparr>ss_src = ds @ rest, ss_tell = t + (length cs - length ds)\<rparr>)
      \<and> length ds \<le> length cs \<and> list_all is_digit ds \<and> p \<le> top32 neg
      \<and> digits_value p ds = digits_value (unat (num_i n)) cs \<and> num_useDouble n' = num_useDouble n"
proof (induction cs arbitrary: n t)
  case (Cons c cs)
  let ?v = "unat (num_i n) * 10 + unat (c - 48)"
  have c: "is_digit c"
    using Cons.prems by simp
  show ?case
  proof (cases "?v > top32 neg")
    case True
    then show ?thesis
      using Cons.prems c
      by (intro exI [of _ "c # cs"] exI [of _ n] exI [of _ "unat (num_i n)"]) (simp add: digits32_digit)
  next
    case False
    let ?n = "n\<lparr>num_i := num_i n * 10 + ucast (c - 48), num_significandDigit := num_significandDigit n + 1\<rparr>"
    have v: "unat (num_i n * 10 + ucast (c - 48)) = ?v"
      using False top_lt(1) [of neg] by (intro unat_step) simp
    obtain ds n' p where "digits32 neg ?n \<lparr>ss_src = cs @ rest, ss_tell = Suc t\<rparr>
        = (n'\<lparr>num_i64 := of_nat p, num_use64bit := True\<rparr>, \<lparr>ss_src = ds @ rest, ss_tell = Suc t + (length cs - length ds)\<rparr>)"
      "length ds \<le> length cs" "list_all is_digit ds" "p \<le> top32 neg" "digits_value p ds = digits_value ?v cs"
      "num_useDouble n' = num_useDouble n"
      using Cons.IH [of ?n "Suc t"] Cons.prems False v by auto
    then show ?thesis
      using False c
      by (intro exI [of _ ds] exI [of _ n'] exI [of _ p]) (simp add: digits32_digit Suc_diff_le)
  qed
qed simp

subsection \<open>Reading an integer\<close>

lemma digit_char:
  assumes "k < 10" shows "is_digit (digit k)" "unat (digit k - 48) = k"
proof -
  have u: "unat (digit k) = 48 + k"
    using assms by (simp only: unsigned_of_nat) (simp add: take_bit_nat_eq_self)
  then show "is_digit (digit k)"
    unfolding is_digit_def word_le_nat_alt u using assms by simp
  then show "unat (digit k - 48) = k"
    using digit_unat(1) [of "digit k"] u by simp
qed

lemma decimal_read: "list_all is_digit (decimal n) \<and> digits_value 0 (decimal n) = n \<and> decimal n \<noteq> []"
proof (induction n rule: decimal.induct)
  case (1 n)
  then show ?case
    using digit_char [of n] digit_char [of "n mod 10"]
    by (cases "n < 10") (subst (1 2 3) decimal.simps; simp add: digits_value_append)+
qed

lemma decimal_first: "n > 0 \<Longrightarrow> hd (decimal n) \<noteq> 48"
proof (induction n rule: decimal.induct)
  case (1 n)
  show ?case
  proof (cases "n < 10")
    case True
    then have "unat (digit n - 48) = n"
      by (rule digit_char)
    then have "digit n \<noteq> 48"
      using 1 by auto
    with True show ?thesis
      by (subst decimal.simps) simp
  next
    case False
    then show ?thesis
      using 1 decimal_read [of "n div 10"] by (subst decimal.simps) simp
  qed
qed

text \<open>What may follow a number, and the number read.\<close>

definition ends_number :: "bytes \<Rightarrow> bool" where
  "ends_number rest \<longleftrightarrow> at_end rest \<and> Peek \<lparr>ss_src = rest, ss_tell = 0\<rparr> \<notin> {46, 101, 69}"

definition holds_integer :: "bool \<Rightarrow> nat \<Rightarrow> json_number \<Rightarrow> bool" where
  "holds_integer neg n m \<longleftrightarrow> \<not> num_useDouble m
     \<and> (if n \<le> top32 neg then \<not> num_use64bit m \<and> num_i m = of_nat n else num_use64bit m \<and> num_i64 m = of_nat n)"

lemma digits_read:
  assumes "list_all is_digit (c # cs)" "digits_value 0 (c # cs) = n" "n \<le> top64 neg" "at_end rest" "m = number_0\<lparr>num_i := ucast (c - 48)\<rparr>"
  shows "\<exists>k s. digits32 neg m \<lparr>ss_src = cs @ rest, ss_tell = t\<rparr> = (k, s)
    \<and> (\<exists>m'. large_part neg k s = (m', \<lparr>ss_src = rest, ss_tell = t + length cs\<rparr>) \<and> holds_integer neg n m')"
proof -
  have "unat (c - 48) \<le> 9"
    using digit_unat [of c] assms by simp
  then have c: "unat (num_i m) = unat (c - 48)" "unat (c - 48) \<le> top32 neg"
    using assms(5) by (auto simp: unsigned_ucast_eq take_bit_nat_eq_self top32_def)
  then have n: "digits_value (unat (num_i m)) cs = n"
    using assms by simp
  have flags: "\<not> num_use64bit m" "\<not> num_useDouble m"
    using assms by (simp_all add: number_0_def)
  show ?thesis
  proof (cases "n \<le> top32 neg")
    case True
    then show ?thesis
      using digits32_reads [of cs rest m neg t] assms n flags by (simp add: large_part_def holds_integer_def)
  next
    case False
    then obtain ds m' p where r: "digits32 neg m \<lparr>ss_src = cs @ rest, ss_tell = t\<rparr>
        = (m'\<lparr>num_i64 := of_nat p, num_use64bit := True\<rparr>, \<lparr>ss_src = ds @ rest, ss_tell = t + (length cs - length ds)\<rparr>)"
      and ds: "length ds \<le> length cs" "list_all is_digit ds" "p \<le> top32 neg" "digits_value p ds = n" "\<not> num_useDouble m'"
      using digits32_overflows [of cs m neg rest t] assms n c flags by auto
    have "unat (of_nat p :: u64) = p"
      using ds(3) top_lt(1) [of neg] by (simp only: unsigned_of_nat) (simp add: take_bit_nat_eq_self)
    then show ?thesis
      using r ds assms False
        digits64_reads [of ds rest "m'\<lparr>num_i64 := of_nat p, num_use64bit := True\<rparr>" neg "t + (length cs - length ds)"]
      by (simp add: large_part_def holds_integer_def)
  qed
qed

text \<open>The event of an integer, and a number read back.\<close>

definition int_event :: "int \<Rightarrow> json_event" where
  "int_event z =
     (if z < 0 then if - z \<le> 2147483648 then H_Int (word_of_int z) else H_Int64 (word_of_int z)
      else if z \<le> 4294967295 then H_Uint (word_of_int z) else H_Uint64 (word_of_int z))"

lemma magnitude_read:
  assumes "n \<le> top64 neg" "ends_number rest"
  shows "\<exists>k s. integer_part f neg \<lparr>ss_src = decimal n @ rest, ss_tell = t\<rparr> = Inr ((k, None), s)
    \<and> (\<exists>m. large_part neg k s = (m, \<lparr>ss_src = rest, ss_tell = t + length (decimal n)\<rparr>) \<and> holds_integer neg n m)"
proof (cases "n = 0")
  case True
  then have "decimal n = [48]"
    by (simp add: decimal.simps)
  then show ?thesis
    using True by (simp add: integer_part_def large_part_def number_0_def holds_integer_def)
next
  case False
  obtain c cs where d: "decimal n = c # cs"
    using decimal_read [of n] by (cases "decimal n") auto
  have digits: "list_all is_digit (c # cs)" "digits_value 0 (c # cs) = n" "c \<noteq> 48"
    using decimal_read [of n] decimal_first [of n] False by (auto simp: d)
  then have "49 \<le> c \<and> c \<le> 57"
    by (auto simp: is_digit_def word_le_nat_alt word_unat_eq_iff)
  with digits_read [OF digits(1,2) assms(1) _ refl, of rest "Suc t"] assms(2) digits(3) show ?thesis
    by (force simp: d integer_part_def ends_number_def)
qed

lemma number_text_decimal:
  assumes "n \<le> top64 neg" "ends_number rest" "s = \<lparr>ss_src = decimal n @ rest, ss_tell = t\<rparr>"
    "Consume 45 s0 = (neg, s)" "z = (if neg then - int n else int n)" "neg \<longrightarrow> n > 0"
  shows "number_text f s0 = Inr (int_event z, \<lparr>ss_src = rest, ss_tell = t + length (decimal n)\<rparr>)"
proof -
  obtain k u m where k: "integer_part f neg s = Inr ((k, None), u)"
    "large_part neg k u = (m, \<lparr>ss_src = rest, ss_tell = t + length (decimal n)\<rparr>)" and m: "holds_integer neg n m"
    using magnitude_read [OF assms(1,2)] assms(3) by metis
  have rest: "Peek \<lparr>ss_src = rest, ss_tell = r\<rparr> \<notin> {46, 101, 69}" for r
    using assms(2) Peek_at [of rest r] by (simp add: ends_number_def)
  have parts: "fraction_part m \<lparr>ss_src = rest, ss_tell = r\<rparr> = Inr (m, \<lparr>ss_src = rest, ss_tell = r\<rparr>)"
    "exponent_part off m \<lparr>ss_src = rest, ss_tell = r\<rparr> = Inr ((0, m), \<lparr>ss_src = rest, ss_tell = r\<rparr>)" for off r
    using rest [of r] by (simp_all add: fraction_part_def exponent_part_def Consume_def)
  have "number_event neg off 0 m = Inr (int_event z)" for off
    using m assms(5,6) by (auto simp: number_event_def holds_integer_def int_event_def top32_def negate_word)
  then show ?thesis
    using k parts assms(4) by (simp add: number_text_def)
qed

lemma number_text_integer:
  assumes "- 0x8000000000000000 \<le> z" "z < 0x10000000000000000" "ends_number rest"
  shows "number_text f \<lparr>ss_src = signed_decimal z @ rest, ss_tell = t\<rparr>
    = Inr (int_event z, \<lparr>ss_src = rest, ss_tell = t + length (signed_decimal z)\<rparr>)"
proof (cases "z < 0")
  case True
  then show ?thesis
    using assms number_text_decimal [of "nat (- z)" True rest _ "Suc t" _ z f]
    by (simp add: signed_decimal_def Consume_def top64_def)
next
  case False
  have "decimal (nat z) \<noteq> []" "list_all is_digit (decimal (nat z))"
    using decimal_read by blast+
  then have "Consume 45 \<lparr>ss_src = decimal (nat z) @ rest, ss_tell = t\<rparr> = (False, \<lparr>ss_src = decimal (nat z) @ rest, ss_tell = t\<rparr>)"
    by (cases "decimal (nat z)") (auto simp: Consume_def is_digit_def)
  then show ?thesis
    using False assms number_text_decimal [of "nat z" False rest _ t _ z f]
    by (simp add: signed_decimal_def top64_def)
qed

text \<open>The document makes the same number of it.\<close>

lemma doc_int_event:
  assumes "- 0x8000000000000000 \<le> z" "z < 0x10000000000000000"
  shows "doc_event (int_event z) st = Some (number_of z # st)"
  using assms
  by (simp add: int_event_def value_Uint_number value_Int_number value_Uint64_number value_Int64_number uint_word_of_int
      signed_of_int signed_take_bit_int_eq_self mod_pos_pos_trivial)

end
