(* ===== verification/JsonRoundTrip.thy ===== *)
theory JsonRoundTrip
  imports JsonNumbers
begin

section \<open>rapidjson: what is written is read back\<close>

text \<open>
  A value written by \<open>write_json\<close> and parsed by either parser into a document is the same value:
  strings with their escapes, numbers, members and elements, in this order.
\<close>

unbundle bit_operations_syntax

subsection \<open>Strings\<close>

lemma hex_digit_read:
  assumes "d < 16"
  shows "ParseHex4 (Suc n) off cp \<lparr>ss_src = hexDigits ! d # r, ss_tell = t\<rparr>
    = ParseHex4 n off (of_nat d + push_bit 4 cp) \<lparr>ss_src = r, ss_tell = Suc t\<rparr>"
proof -
  have "list_all (\<lambda>d. ParseHex4 (Suc n) off cp \<lparr>ss_src = hexDigits ! d # r, ss_tell = t\<rparr>
      = ParseHex4 n off (of_nat d + push_bit 4 cp) \<lparr>ss_src = r, ss_tell = Suc t\<rparr>) [0..<16]"
    by (simp add: upt_rec hexDigits_def Let_def)
  then show ?thesis
    using list_all_uptD [of _ 0 16 d] assms by blast
qed

lemma hex_read:
  fixes c :: u8
  assumes "c < 32"
  shows "ParseUnicode off \<lparr>ss_src = 48 # 48 # hexDigits ! unat (drop_bit 4 c) # hexDigits ! unat (c AND 0xF) # r, ss_tell = t\<rparr>
    = Inr (ucast c, \<lparr>ss_src = r, ss_tell = Suc (Suc (Suc (Suc t)))\<rparr>)"
proof -
  have c: "unat c < 32"
    using assms by (simp add: word_less_nat_alt)
  have "c AND 0xF = c mod 16"
    using take_bit_eq_mask [of 4 c] by (simp add: mask_eq_exp_minus_1 take_bit_eq_mod)
  then have h: "unat (drop_bit 4 c) = unat c div 16" "unat (c AND 0xF) = unat c mod 16"
    using unat_drop [of 4 c] by (simp_all add: unat_mod)
  have z: "48 = hexDigits ! 0"
    by (simp add: hexDigits_def)
  have four: "ParseHex4 4 = ParseHex4 (Suc (Suc (Suc (Suc 0))))"
    by (simp add: numeral_eq_Suc)
  have "ucast c = (of_nat (unat c mod 16 + 16 * (unat c div 16)) :: u32)"
    by (simp only: mod_mult_div_eq of_nat_unat)
  also have "\<dots> = of_nat (unat c mod 16) + of_nat (unat c div 16) * 16"
    by (simp only: of_nat_add of_nat_mult of_nat_numeral mult.commute [of 16])
  finally have sum: "(ucast c :: u32) = of_nat (unat c mod 16) + of_nat (unat c div 16) * 16" .
  have "ParseHex4 4 off 0 \<lparr>ss_src = 48 # 48 # hexDigits ! (unat c div 16) # hexDigits ! (unat c mod 16) # r, ss_tell = t\<rparr>
      = Inr (ucast c, \<lparr>ss_src = r, ss_tell = Suc (Suc (Suc (Suc t)))\<rparr>)"
    using c unfolding four z by (subst hex_digit_read, simp)+ (simp add: push_bit_eq_mult sum)
  moreover have "\<not> 0xD800 \<le> (ucast c :: u32)"
    using c by (simp add: word_le_nat_alt unat_ucast_u32)
  ultimately show ?thesis
    by (simp add: h ParseUnicode_def)
qed

text \<open>One character of a string, as it is written.\<close>

lemma control_encoded: "c < 32 \<Longrightarrow> utf8_Encode (ucast c) = [c]" for c :: u8
  using u8_lt [of c]
  by (auto simp: utf8_Encode_def word_le_nat_alt word_less_nat_alt unat_ucast_u32 unat_ucast_u8 intro!: unat_eqI)

lemma char_read:
  assumes "\<not> kParseValidateEncodingFlag f"
  shows "ParseStringToStream f \<lparr>ss_src = char_text c @ r, ss_tell = t\<rparr> os
    = ParseStringToStream f \<lparr>ss_src = r, ss_tell = t + length (char_text c)\<rparr> (os @ [c])"
proof -
  consider "write_escape c = 0" | "write_escape c = 117" | "write_escape c \<noteq> 0" "write_escape c \<noteq> 117"
    by blast
  then show ?thesis
  proof cases
    case 1
    then have "\<not> c < 32" "c \<noteq> 34" "c \<noteq> 92"
      by (auto simp: write_escape_def split: if_splits)
    with 1 show ?thesis
      using assms by (subst ParseStringToStream.simps) (simp add: char_text_def transcode_char_def transcode_8_8_def Let_def)
  next
    case 2
    then have "c < 32"
      by (auto simp: write_escape_def split: if_splits)
    with 2 show ?thesis
      by (subst ParseStringToStream.simps) (simp add: char_text_def unescape_def Let_def hex_read control_encoded)
  next
    case 3
    then have "unescape (write_escape c) = c" "c \<noteq> 0"
      by (auto simp: write_escape_def unescape_def split: if_splits)
    with 3 show ?thesis
      by (subst ParseStringToStream.simps) (simp add: char_text_def Let_def)
  qed
qed

lemma chars_read:
  assumes "\<not> kParseValidateEncodingFlag f"
  shows "ParseStringToStream f \<lparr>ss_src = concat (map char_text str) @ 34 # r, ss_tell = t\<rparr> os
    = Inr (os @ str @ [0], \<lparr>ss_src = r, ss_tell = t + length (concat (map char_text str)) + 1\<rparr>)"
proof (induction str arbitrary: t os)
  case Nil
  then show ?case
    by (subst ParseStringToStream.simps) simp
next
  case (Cons c str)
  then show ?case
    by (simp add: char_read [OF assms] add.assoc)
qed

lemma string_read:
  assumes "\<not> kParseValidateEncodingFlag f"
  shows "ParseString f k hnd (\<lparr>ss_src = string_text str @ r, ss_tell = t\<rparr>, h)
    = send_event hnd (if k then H_Key str else H_String str) (t + length (string_text str))
        (\<lparr>ss_src = r, ss_tell = t + length (string_text str)\<rparr>, h)"
  by (simp add: ParseString_def string_text_def chars_read [OF assms] add.assoc)

subsection \<open>White space and first characters\<close>

lemma skip_nothing:
  "\<not> is_whitespace c \<Longrightarrow> c \<noteq> 47 \<Longrightarrow> skip f (\<lparr>ss_src = c # r, ss_tell = t\<rparr>, h) = Inr (\<lparr>ss_src = c # r, ss_tell = t\<rparr>, h)"
  by (simp add: skip_def SkipWhitespaceAndComments_def SkipWhitespace.simps [of "\<lparr>ss_src = c # r, ss_tell = t\<rparr>"]
      skip_comments.simps [of "\<lparr>ss_src = c # r, ss_tell = t\<rparr>"] Let_def)

lemma skip_end: "skip f (\<lparr>ss_src = [], ss_tell = t\<rparr>, h) = Inr (\<lparr>ss_src = [], ss_tell = t\<rparr>, h)"
  by (simp add: skip_def SkipWhitespaceAndComments_def SkipWhitespace.simps [of "\<lparr>ss_src = [], ss_tell = t\<rparr>"]
      skip_comments.simps [of "\<lparr>ss_src = [], ss_tell = t\<rparr>"] Let_def)

lemma separators [simp]: "\<not> is_whitespace 34" "\<not> is_whitespace 58" "\<not> is_whitespace 44" "\<not> is_whitespace 93"
  "\<not> is_whitespace 125"
  by (simp_all add: is_whitespace_def)

definition starts_value :: "u8 \<Rightarrow> bool" where
  "starts_value c \<longleftrightarrow> c \<in> {110, 116, 102, 34, 123, 91, 45} \<or> is_digit c"

lemma starts_value_not:
  "starts_value c \<Longrightarrow> \<not> is_whitespace c \<and> c \<noteq> 47 \<and> c \<noteq> 93 \<and> c \<noteq> 125 \<and> c \<noteq> 0"
  by (auto simp: starts_value_def is_whitespace_def is_digit_def word_le_nat_alt)

lemma integer_first: "\<exists>c cs. signed_decimal z = c # cs \<and> (c = 45 \<or> is_digit c)"
  using decimal_read [of "nat z"] decimal_read [of "nat (- z)"]
  by (cases "decimal (nat z)") (auto simp: signed_decimal_def)

lemma value_first: "plain v \<Longrightarrow> \<exists>c cs. json_text v = c # cs \<and> starts_value c"
proof (cases v)
  case (JNumber flags n)
  moreover assume "plain v"
  ultimately obtain b where "json_text v = signed_decimal (number_int flags b)"
    by (auto split: number_data.splits)
  then show ?thesis
    using integer_first [of "number_int flags b"] by (auto simp: starts_value_def)
qed (auto simp: starts_value_def string_text_def)

lemma skip_value:
  assumes "plain v"
  shows "skip f (\<lparr>ss_src = json_text v @ r, ss_tell = t\<rparr>, h) = Inr (\<lparr>ss_src = json_text v @ r, ss_tell = t\<rparr>, h)"
    "Peek \<lparr>ss_src = json_text v @ r, ss_tell = t\<rparr> \<notin> {0, 93, 125}"
  using value_first [OF assms] starts_value_not by (auto simp: skip_nothing)

lemma document_Some:
  "document ev (Some st) = (case doc_event ev st of None \<Rightarrow> (False, None) | Some st \<Rightarrow> (True, Some st))"
  by (simp add: document_def)

lemma sent_to_document:
  "doc_event ev st = Some st' \<Longrightarrow> send_event document ev off (s, Some st) = Inr (s, Some st')"
  by (simp add: send_event_def document_Some)

subsection \<open>Values, members and elements\<close>

text \<open>The stack after members, and the value closed over them.\<close>

fun flat :: "json_member list \<Rightarrow> json_value list" where
  "flat [] = []"
| "flat (Member n v # ms) = n # v # flat ms"

lemma flat_length: "length (flat ms) = 2 * length ms"
  by (induction ms rule: flat.induct) simp_all

lemma members_of_flat: "members_of (flat ms) = ms"
  by (induction ms rule: flat.induct) simp_all

lemma flat_append: "flat (ms @ ns) = flat ms @ flat ns"
  by (induction ms rule: flat.induct) simp_all

lemma close_object:
  "doc_event (H_EndObject (length ms)) (rev (flat ms) @ JObject [] # st) = Some (JObject ms # st)"
  by (simp add: pop_into_def flat_length members_of_flat flip: flat_length)

lemma close_array:
  "doc_event (H_EndArray (length vs)) (rev vs @ JArray [] # st) = Some (JArray vs # st)"
  by (simp add: pop_into_def)

lemma ends_number_rest: "ends_number (93 # r)" "ends_number (125 # r)" "ends_number (44 # r)" "ends_number []"
  by (simp_all add: ends_number_def at_end_def is_digit_def)

lemma number_read:
  assumes "plain (JNumber flags n)" "ends_number r"
  shows "ParseNumber f document (\<lparr>ss_src = json_text (JNumber flags n) @ r, ss_tell = t\<rparr>, Some st)
    = Inr (\<lparr>ss_src = r, ss_tell = t + length (json_text (JNumber flags n))\<rparr>, Some (JNumber flags n # st))"
proof -
  obtain b where n: "n = NBits b"
    using assms(1) by (auto split: number_data.splits)
  define z where "z = number_int flags b"
  have z: "- 0x8000000000000000 \<le> z" "z < 0x10000000000000000" "number_of z = JNumber flags (NBits b)"
    using plain_number [OF assms(1) [unfolded n]] by (simp_all add: z_def)
  show ?thesis
    using number_text_integer [OF z(1,2) assms(2)] sent_to_document [OF doc_int_event [OF z(1,2)]]
    by (simp add: n ParseNumber_def z(3) flip: z_def)
qed

lemma bracket_document:
  "doc_event ev st = Some st' \<Longrightarrow>
    bracket document ev (\<lparr>ss_src = c # r, ss_tell = t\<rparr>, Some st) = Inr (\<lparr>ss_src = r, ss_tell = Suc t\<rparr>, Some st')"
  by (simp add: bracket_def sent_to_document)

lemma key_read:
  assumes "\<not> kParseValidateEncodingFlag f" "plain v"
  shows "member_key f document (\<lparr>ss_src = string_text str @ 58 # json_text v @ r, ss_tell = t\<rparr>, Some st)
    = Inr (\<lparr>ss_src = json_text v @ r, ss_tell = t + length (string_text str) + 1\<rparr>, Some (JString str # st))"
  by (simp add: member_key_def string_read [OF assms(1)] sent_to_document skip_nothing Consume_def skip_value [OF assms(2)])

lemma number_not_other:
  assumes "plain (JNumber flags n)"
  shows "Peek \<lparr>ss_src = json_text (JNumber flags n) @ r, ss_tell = t\<rparr> \<notin> {110, 116, 102, 34, 123, 91}"
proof -
  obtain b where "json_text (JNumber flags n) = signed_decimal (number_int flags b)"
    using assms by (auto split: number_data.splits)
  then show ?thesis
    using integer_first [of "number_int flags b"] by (auto simp: is_digit_def word_le_nat_alt)
qed

text \<open>A separator or the closing bracket behind a value.\<close>

lemma close_members: "doc_event (H_EndObject (length ms0 + 1)) (v # n # rev (flat ms0) @ JObject [] # st)
    = Some (JObject (ms0 @ [Member n v]) # st)"
  using close_object [of "ms0 @ [Member n v]" st] by (simp add: flat_append)

lemma close_elements: "doc_event (H_EndArray (length vs0 + 1)) (v # rev vs0 @ JArray [] # st) = Some (JArray (vs0 @ [v]) # st)"
  using close_array [of "vs0 @ [v]" st] by simp

lemma members_first: "plain_members ms \<Longrightarrow> ms \<noteq> [] \<Longrightarrow> \<exists>cs. members_text ms = 34 # cs"
  by (cases ms rule: flat.cases) (auto simp: IsString_def string_text_def split: json_value.splits)

lemma elements_first: "plain_elements vs \<Longrightarrow> vs \<noteq> [] \<Longrightarrow> \<exists>c cs. elements_text vs = c # cs \<and> starts_value c"
  using value_first by (cases vs) force+

lemma value_read:
  assumes f: "\<not> kParseValidateEncodingFlag f"
  shows
  "plain v \<Longrightarrow> ends_number r \<Longrightarrow> length (json_text v) < n \<Longrightarrow>
    ParseValue n f document (\<lparr>ss_src = json_text v @ r, ss_tell = t\<rparr>, Some st)
    = Some (Inr (\<lparr>ss_src = r, ss_tell = t + length (json_text v)\<rparr>, Some (v # st)))"
  "plain_members ms \<Longrightarrow> ms \<noteq> [] \<Longrightarrow> length (members_text ms) < n \<Longrightarrow> length (members_text ms) < k \<Longrightarrow>
    object_members k f document (ParseValue n f document) (length ms0)
      (\<lparr>ss_src = members_text ms @ 125 # r, ss_tell = t\<rparr>, Some (rev (flat ms0) @ JObject [] # st))
    = Some (Inr (\<lparr>ss_src = r, ss_tell = t + length (members_text ms) + 1\<rparr>, Some (JObject (ms0 @ ms) # st)))"
  "plain_elements vs \<Longrightarrow> vs \<noteq> [] \<Longrightarrow> length (elements_text vs) < n \<Longrightarrow> length (elements_text vs) < k \<Longrightarrow>
    array_elements k f document (ParseValue n f document) (length vs0)
      (\<lparr>ss_src = elements_text vs @ 93 # r, ss_tell = t\<rparr>, Some (rev vs0 @ JArray [] # st))
    = Some (Inr (\<lparr>ss_src = r, ss_tell = t + length (elements_text vs) + 1\<rparr>, Some (JArray (vs0 @ vs) # st)))"
proof (induction v and ms and vs arbitrary: n r t st and n k r t ms0 st and n k r t vs0 st
    rule: json_text_members_text_elements_text.induct)
  case (4 ms)
  obtain m where m: "n = Suc m" "length (members_text ms) < m"
    using "4.prems"(3) by (cases n) auto
  have start: "bracket document H_StartObject (\<lparr>ss_src = 123 # u, ss_tell = t\<rparr>, Some st)
      = Inr (\<lparr>ss_src = u, ss_tell = Suc t\<rparr>, Some (JObject [] # st))" for u
    by (simp add: bracket_document)
  show ?case
  proof (cases "ms = []")
    case True
    then show ?thesis
      using bracket_document [OF close_object [of "[]"]] by (simp add: m(1) ParseObject_def start skip_nothing)
  next
    case False
    then obtain cs where cs: "members_text ms = 34 # cs"
      using members_first [of ms] "4.prems"(1) by auto
    show ?thesis
      using "4.IH" [of m m "[]"] "4.prems" m(2) False
      by (simp add: m(1) ParseObject_def start skip_nothing cs)
  qed
next
  case (5 vs)
  obtain m where m: "n = Suc m" "length (elements_text vs) < m"
    using "5.prems"(3) by (cases n) auto
  have start: "bracket document H_StartArray (\<lparr>ss_src = 91 # u, ss_tell = t\<rparr>, Some st)
      = Inr (\<lparr>ss_src = u, ss_tell = Suc t\<rparr>, Some (JArray [] # st))" for u
    by (simp add: bracket_document)
  show ?case
  proof (cases "vs = []")
    case True
    then show ?thesis
      using bracket_document [OF close_array [of "[]"]] by (simp add: m(1) ParseArray_def start skip_nothing)
  next
    case False
    then obtain c cs where cs: "elements_text vs = c # cs" "starts_value c"
      using elements_first [of vs] "5.prems"(1) by auto
    show ?thesis
      using "5.IH" [of m m "[]"] "5.prems" m(2) False starts_value_not [OF cs(2)]
      by (simp add: m(1) ParseArray_def start skip_nothing cs(1))
  qed
next
  case (7 flags num)
  then obtain m where "n = Suc m"
    by (cases n) auto
  then show ?case
    using 7 number_not_other [of flags num r t] number_read [of flags num r f t st] by (auto simp: Let_def)
next
  case (9 nm v ms)
  obtain j where j: "k = Suc j"
    using "9.prems"(4) by (cases k) auto
  obtain str where nm: "nm = JString str"
    using "9.prems"(1) by (auto simp: IsString_def split: json_value.splits)
  define u where "u = (if ms = [] then 125 # r else 44 # members_text ms @ 125 # r)"
  have v: "plain v" "plain_members ms" "ends_number u" "length (json_text v) < n"
    using "9.prems" by (auto simp: u_def ends_number_rest)
  have peek: "Peek \<lparr>ss_src = string_text str @ w, ss_tell = t\<rparr> = 34" for w
    by (simp add: string_text_def)
  show ?case
  proof (cases "ms = []")
    case True
    then show ?thesis
      using "9.IH"(2) [OF v(1,3,4)] bracket_document [OF close_members [of ms0]]
      by (simp add: j nm peek key_read [OF f v(1)] u_def skip_nothing)
  next
    case False
    obtain cs where "members_text ms = 34 # cs"
      using members_first [of ms] v(2) False by auto
    then show ?thesis
      using "9.IH"(2) [OF v(1,3,4)] "9.IH"(3) [of n j "ms0 @ [Member nm v]"] "9.prems" v(2) False
      by (simp add: j nm peek key_read [OF f v(1)] u_def skip_nothing flat_append)
  qed
next
  case (11 v vs)
  obtain j where j: "k = Suc j"
    using "11.prems"(4) by (cases k) auto
  define u where "u = (if vs = [] then 93 # r else 44 # elements_text vs @ 93 # r)"
  have v: "plain v" "plain_elements vs" "ends_number u" "length (json_text v) < n"
    using "11.prems" by (auto simp: u_def ends_number_rest)
  show ?case
  proof (cases "vs = []")
    case True
    then show ?thesis
      using "11.IH"(1) [OF v(1,3,4)] bracket_document [OF close_elements [of vs0]]
      by (simp add: j u_def skip_nothing)
  next
    case False
    obtain c cs where "elements_text vs = c # cs" "starts_value c"
      using elements_first [of vs] v(2) False by auto
    then show ?thesis
      using "11.IH"(1) [OF v(1,3,4)] "11.IH"(2) [of n j "vs0 @ [v]"] "11.prems" v(2) False starts_value_not [of c]
      by (simp add: j u_def skip_nothing)
  qed
next
  case (1 n)
  show ?case using 1 f by (cases n) (simp_all add: ParseNull_def ParseLiteral_def Consume_def sent_to_document)
next
  case (2 n)
  show ?case using 2 f by (cases n) (simp_all add: ParseFalse_def ParseLiteral_def Consume_def sent_to_document value_Bool_def)
next
  case (3 n)
  show ?case using 3 f by (cases n) (simp_all add: ParseTrue_def ParseLiteral_def Consume_def sent_to_document value_Bool_def)
next
  case (6 str n)
  show ?case using 6 string_read [OF f, of False document str] by (cases n) (simp_all add: sent_to_document string_text_def)
qed simp_all

subsection \<open>Documents\<close>

lemma document_read:
  assumes "\<not> kParseValidateEncodingFlag f" "plain v"
  shows "Parse f document (string_stream_of (json_text v), Some [])
    = Some (Inr (\<lparr>ss_src = [], ss_tell = length (json_text v)\<rparr>, Some [v]))"
proof -
  have "recursive_parse f document (\<lparr>ss_src = json_text v, ss_tell = 0\<rparr>, Some [])
      = Some (Inr (\<lparr>ss_src = [], ss_tell = length (json_text v)\<rparr>, Some [v]))"
    using skip_value(2) [OF assms(2), where r = "[]"] value_read(1) [OF assms ends_number_rest(4), where t = 0 and st = "[]"]
    by (simp add: recursive_parse_def stream_fuel_def skip_end skip_value(1) [OF assms(2), where r = "[]", simplified]
        del: ParseValue.simps)
  then show ?thesis
    using follows_parse [of f document "(\<lparr>ss_src = json_text v, ss_tell = 0\<rparr>, Some [])"]
    by (simp add: Parse_def follows_def string_stream_of_def)
qed

text \<open>C17. What the writer writes is the JSON text of the value, and parsing it gives the value back.
  For every value of null, booleans, strings of any bytes, integers from - 2 ^ 63 to 2 ^ 64 - 1,
  arrays and objects nested in any way, the writer driven by the value's events succeeds with
  the document complete and the text of the reference definition \<open>json_text\<close> on its stream; and the
  document parsed from that text, by the recursive or by the iterative parser and under any
  combination of the other flags, is the same value: the same members in the same order, the
  same bytes of every string, and the same flags and bits of every number, whichever of the
  four integer events it went through. (With validation off; a string may be no valid UTF-8.)\<close>

theorem json_roundtrip:
  assumes "\<not> kWriteValidateEncodingFlag g" "\<not> kParseValidateEncodingFlag f" "plain v"
  shows "\<exists>w. write_json g dtoa v = Some (True, w) \<and> IsComplete w \<and> wr_out w = json_text v
    \<and> ParseStream f (wr_out w) = Some (Inr v)"
  using document_read [OF assms(2,3)] write_json_text [OF assms(1,3)]
  by (simp add: ParseStream_def IsComplete_def new_writer_def)

theorem json_roundtrip_witness:
  "\<exists>w. write_json \<lparr>kWriteValidateEncodingFlag = False, kWriteNanAndInfFlag = False, kWriteNanAndInfNullFlag = False\<rparr> (\<lambda>d n. [])
      (JObject [Member (JString [97, 10]) (JArray [value_Int64 (- 5), JTrue]), Member (JString []) (value_Uint64 300)]) = Some (True, w)
    \<and> IsComplete w \<and> wr_out w = json_text (JObject [Member (JString [97, 10]) (JArray [value_Int64 (- 5), JTrue]), Member (JString []) (value_Uint64 300)])
    \<and> ParseStream kParseNoFlags (wr_out w)
      = Some (Inr (JObject [Member (JString [97, 10]) (JArray [value_Int64 (- 5), JTrue]), Member (JString []) (value_Uint64 300)]))"
  by (rule json_roundtrip) (simp_all add: kParseNoFlags_def IsString_def value_Uint64_def value_Int64_def flag_defs sless_zero)

end
