(* ===== verification/JsonEquality.thy ===== *)
theory JsonEquality
  imports JsonDocument "HOL-Library.Finite_Map"
begin

section \<open>rapidjson: equality of values\<close>

text \<open>
  What \<open>operator==\<close> decides: a value's meaning forgets the order of members (an object is a finite
  map) and reads an integer by the function it is given, its 64 bits or the number. For objects with
  distinct names and without doubles it is equality of meanings by bits; the lemmas at the end show where it is not what its comment says.
\<close>

datatype 'n json_meaning =
    MNull | MBool bool | MNumber 'n | MString bytes | MArray "'n json_meaning list"
  | MObject "(bytes, 'n json_meaning) fmap"

definition name_of :: "json_value \<Rightarrow> bytes" where
  "name_of n = (case n of JString str \<Rightarrow> str | _ \<Rightarrow> [])"

fun meaning :: "(u16 \<Rightarrow> u64 \<Rightarrow> 'n) \<Rightarrow> json_value \<Rightarrow> 'n json_meaning"
  and meaning_members :: "(u16 \<Rightarrow> u64 \<Rightarrow> 'n) \<Rightarrow> json_member list \<Rightarrow> (bytes \<times> 'n json_meaning) list"
  and meaning_elements :: "(u16 \<Rightarrow> u64 \<Rightarrow> 'n) \<Rightarrow> json_value list \<Rightarrow> 'n json_meaning list" where
  "meaning f JNull = MNull"
| "meaning f JFalse = MBool False"
| "meaning f JTrue = MBool True"
| "meaning f (JObject ms) = MObject (fmap_of_list (meaning_members f ms))"
| "meaning f (JArray vs) = MArray (meaning_elements f vs)"
| "meaning f (JString str) = MString str"
| "meaning f (JNumber flags n) = MNumber (case n of NBits b \<Rightarrow> f flags b | NDouble _ \<Rightarrow> f flags 0)"
| "meaning_members f [] = []"
| "meaning_members f (Member n v # ms) = (name_of n, meaning f v) # meaning_members f ms"
| "meaning_elements f [] = []"
| "meaning_elements f (v # vs) = meaning f v # meaning_elements f vs"

text \<open>The two readings of an integer: its 64 bits, and the number it stands for, signed when the
  value says it is an \<open>int64_t\<close> (\<open>IsInt64\<close>), as every negative one does.\<close>

definition bits :: "u16 \<Rightarrow> u64 \<Rightarrow> u64" where
  "bits flags b = b"

definition int_value :: "u16 \<Rightarrow> u64 \<Rightarrow> int" where
  "int_value flags b = (if has_flag flags kInt64Flag then sint b else uint b)"

text \<open>Every number is an \<open>int64_t\<close>.\<close>

fun int64_numbers :: "json_value \<Rightarrow> bool" and int64_members :: "json_member list \<Rightarrow> bool"
  and int64_elements :: "json_value list \<Rightarrow> bool" where
  "int64_numbers (JObject ms) = int64_members ms"
| "int64_numbers (JArray vs) = int64_elements vs"
| "int64_numbers (JNumber flags n) = has_flag flags kInt64Flag"
| "int64_numbers _ = True"
| "int64_members [] = True"
| "int64_members (Member n v # ms) = (int64_numbers v \<and> int64_members ms)"
| "int64_elements [] = True"
| "int64_elements (v # vs) = (int64_numbers v \<and> int64_elements vs)"

text \<open>Names are strings and distinct; numbers are integers.\<close>

fun well_named :: "json_value \<Rightarrow> bool" and well_members :: "json_member list \<Rightarrow> bool"
  and well_elements :: "json_value list \<Rightarrow> bool" where
  "well_named (JObject ms) = (well_members ms \<and> distinct (map fst (meaning_members bits ms)))"
| "well_named (JArray vs) = well_elements vs"
| "well_named (JNumber flags n) = (case n of NBits _ \<Rightarrow> True | NDouble _ \<Rightarrow> False)"
| "well_named _ = True"
| "well_members [] = True"
| "well_members (Member n v # ms) = (IsString n \<and> well_named v \<and> well_members ms)"
| "well_elements [] = True"
| "well_elements (v # vs) = (well_named v \<and> well_elements vs)"

lemma length_meaning_members: "length (meaning_members f ms) = length ms"
proof (induction ms)
  case (Cons m ms)
  then show ?case
    by (cases m) simp
qed simp

lemma length_meaning_elements: "length (meaning_elements f vs) = length vs"
  by (induction vs) simp_all

subsection \<open>Finding a member\<close>

lemma member_found:
  "well_members ns \<Longrightarrow> \<exists>i. DoFindMember (JString str) ns = Some i \<and> i \<le> length ns
    \<and> (if i = length ns then map_of (meaning_members f ns) str = None
       else well_named (member_value (ns ! i)) \<and> map_of (meaning_members f ns) str = Some (meaning f (member_value (ns ! i))))"
proof (induction ns)
  case (Cons m ns)
  obtain k v where m: "m = Member (JString k) v" "well_named v" "well_members ns"
    using Cons.prems by (cases m) (auto simp: IsString_def split: json_value.splits)
  then obtain i where i: "DoFindMember (JString str) ns = Some i" "i \<le> length ns"
    "if i = length ns then map_of (meaning_members f ns) str = None
     else well_named (member_value (ns ! i)) \<and> map_of (meaning_members f ns) str = Some (meaning f (member_value (ns ! i)))"
    using Cons.IH by blast
  show ?case
  proof (cases "str = k")
    case True
    then show ?thesis
      using m by (intro exI [of _ 0]) (simp add: StringEqual_def name_of_def)
  next
    case False
    then show ?thesis
      using m(1) i by (intro exI [of _ "Suc i"]) (simp add: StringEqual_def name_of_def)
  qed
qed simp

subsection \<open>Maps from lists\<close>

text \<open>Two lists with distinct keys and the same length are the same map when one is part of the other.\<close>

lemma map_of_part:
  assumes "distinct (map fst xs)"
  shows "(\<forall>(k, x)\<in>set xs. map_of ys k = Some x) \<longleftrightarrow> map_of xs \<subseteq>\<^sub>m map_of ys"
proof
  assume "\<forall>(k, x)\<in>set xs. map_of ys k = Some x"
  then show "map_of xs \<subseteq>\<^sub>m map_of ys"
    using map_of_SomeD [of xs] by (fastforce simp: map_le_def)
next
  assume "map_of xs \<subseteq>\<^sub>m map_of ys"
  then show "\<forall>(k, x)\<in>set xs. map_of ys k = Some x"
    using map_of_is_SomeI [OF assms] by (force simp: map_le_def dom_def)
qed

lemma map_of_part_same:
  assumes "distinct (map fst xs)" "distinct (map fst ys)" "length xs = length ys" "map_of xs \<subseteq>\<^sub>m map_of ys"
  shows "map_of xs = map_of ys"
proof -
  have "card (fst ` set xs) = card (fst ` set ys)"
    using assms(1-3) by (metis distinct_card length_map set_map)
  moreover have "fst ` set xs \<subseteq> fst ` set ys"
    using map_le_implies_dom_le [OF assms(4)] by (simp add: dom_map_of_conv_image_fst)
  ultimately have "dom (map_of xs) = dom (map_of ys)"
    by (simp add: card_subset_eq dom_map_of_conv_image_fst)
  then show ?thesis
    using assms(4) by (intro map_le_antisym) (auto simp: map_le_def)
qed

lemma fmap_of_list_part:
  assumes "distinct (map fst xs)" "distinct (map fst ys)" "length xs = length ys"
  shows "(\<forall>(k, x)\<in>set xs. map_of ys k = Some x) \<longleftrightarrow> fmap_of_list xs = fmap_of_list ys"
proof -
  have "fmap_of_list xs = fmap_of_list ys \<longleftrightarrow> map_of xs = map_of ys"
    by (metis fmap_ext fmlookup_of_list)
  then show ?thesis
    unfolding map_of_part [OF assms(1)] using map_of_part_same [OF assms] by auto
qed

lemma length_fmap_of_list:
  assumes "distinct (map fst xs)" "distinct (map fst ys)" "fmap_of_list xs = fmap_of_list ys"
  shows "length xs = length ys"
proof -
  have "map_of xs = map_of ys"
    using assms(3) by (metis fmlookup_of_list)
  then have "fst ` set xs = fst ` set ys"
    by (metis dom_map_of_conv_image_fst)
  then show ?thesis
    using assms(1,2) by (metis distinct_card length_map set_map)
qed

subsection \<open>Equality\<close>

lemma literal_meaning: "MNull = meaning bits w \<longleftrightarrow> w = JNull" "MBool b = meaning bits w \<longleftrightarrow> w = value_Bool b"
  by (cases w; simp add: value_Bool_def)+

lemma equal_meaning:
  "well_named v \<Longrightarrow> well_named w \<Longrightarrow> value_equal v w = Some (meaning bits v = meaning bits w)"
  "well_members ms \<Longrightarrow> well_members ns \<Longrightarrow>
    members_equal ms ns = Some (\<forall>(k, x)\<in>set (meaning_members bits ms). map_of (meaning_members bits ns) k = Some x)"
  "well_elements vs \<Longrightarrow> well_elements ws \<Longrightarrow> length vs = length ws \<Longrightarrow>
    elements_equal vs ws = Some (meaning_elements bits vs = meaning_elements bits ws)"
proof (induction v w and ms ns and vs ws rule: value_equal_members_equal_elements_equal.induct)
  case (1 ms w)
  show ?case
  proof (cases w)
    case (JObject ns)
    then have "length ms \<noteq> length ns \<Longrightarrow> fmap_of_list (meaning_members bits ms) \<noteq> fmap_of_list (meaning_members bits ns)"
      using length_fmap_of_list [of "meaning_members bits ms" "meaning_members bits ns"] "1.prems" by (auto simp: length_meaning_members)
    then show ?thesis
      using JObject 1 fmap_of_list_part [of "meaning_members bits ms" "meaning_members bits ns"] by (simp add: length_meaning_members)
  qed simp_all
next
  case (2 vs w)
  then show ?case
    using length_meaning_elements [of bits] by (cases w) (auto dest: arg_cong [where f = length])
next
  case (4 f a w)
  then show ?case
    by (cases w) (auto simp: number_equal_def bits_def split: number_data.splits)
next
  case (9 n v ms ns)
  obtain str where n: "n = JString str"
    using "9.prems" by (auto simp: IsString_def split: json_value.splits)
  obtain i where i: "DoFindMember (JString str) ns = Some i"
    "if i = length ns then map_of (meaning_members bits ns) str = None
     else well_named (member_value (ns ! i)) \<and> map_of (meaning_members bits ns) str = Some (meaning bits (member_value (ns ! i)))"
    using member_found "9.prems" by blast
  then show ?case
    using 9 by (cases "i = length ns"; cases "meaning bits v = meaning bits (member_value (ns ! i))")
      (auto simp: n FindMember_def IsString_def name_of_def)
next
  case (10 v vs w ws)
  then show ?case
    by (cases "meaning bits v = meaning bits w") auto
qed (auto simp: literal_meaning value_Bool_def split: json_value.splits)

text \<open>Between \<open>int64_t\<close> numbers, the same bits are the same number.\<close>

lemma meaning_int64:
  "int64_numbers v \<Longrightarrow> meaning int_value v = map_json_meaning sint (meaning bits v)"
  "int64_members ms \<Longrightarrow> meaning_members int_value ms = map (\<lambda>(k, x). (k, map_json_meaning sint x)) (meaning_members bits ms)"
  "int64_elements vs \<Longrightarrow> meaning_elements int_value vs = map (map_json_meaning sint) (meaning_elements bits vs)"
proof (induction v and ms and vs rule: int64_numbers_int64_members_int64_elements.induct)
  case (1 ms)
  have "fmap_of_list (map (\<lambda>(k, x). (k, g x)) xs) = fmmap g (fmap_of_list xs)" for g and xs :: "(bytes \<times> u64 json_meaning) list"
    by (rule fmap_ext) (simp add: fmlookup_of_list map_of_map)
  with 1 show ?case by simp
next
  case (3 flags n)
  then show ?case by (auto simp: int_value_def bits_def split: number_data.split)
qed simp_all

lemma meaning_int64_eq:
  assumes "int64_numbers v" "int64_numbers w"
  shows "meaning int_value v = meaning int_value w \<longleftrightarrow> meaning bits v = meaning bits w"
proof -
  have "inj (sint :: u64 \<Rightarrow> int)" by (rule injI) (rule signed_word_eqI)
  then have "inj (map_json_meaning (sint :: u64 \<Rightarrow> int))" by (rule json_meaning.inj_map)
  then show ?thesis by (simp add: meaning_int64(1) assms inj_eq)
qed

text \<open>C18. What \<open>operator==\<close> decides. For all values without doubles whose objects have string
  names, each once, at every level, comparing them fails no assertion and is true exactly when
  they are the same up to the order of members, integers compared by their 64 bits: the same
  strings, literals and bits of integers, arrays equal element by element, and objects equal as
  finite maps. The answer does not depend on the side, although the quadratic search looks for the
  members of only one. Between values whose integers all are \<open>int64_t\<close> that is equality of
  the numbers; otherwise it need not be: -1 has the bits of 18446744073709551615 and equals it.\<close>

theorem equality_is_meaning:
  assumes "well_named v" "well_named w"
  shows "value_equal v w = Some (meaning bits v = meaning bits w) \<and> value_equal w v = value_equal v w
    \<and> (int64_numbers v \<and> int64_numbers w \<longrightarrow> value_equal v w = Some (meaning int_value v = meaning int_value w))
    \<and> value_equal (value_Int64 (- 1)) (value_Uint64 0xFFFFFFFFFFFFFFFF) = Some True"
proof -
  have "value_equal (value_Int64 (- 1)) (value_Uint64 0xFFFFFFFFFFFFFFFF) = Some True"
    by (simp add: value_Int64_def value_Uint64_def number_equal_def)
  with equal_meaning(1) [OF assms] equal_meaning(1) [OF assms(2,1)] meaning_int64_eq [of v w] show ?thesis by auto
qed

theorem equality_is_meaning_witness:
  "value_equal (JObject [Member (JString [97]) JNull, Member (JString [98]) (value_Int 1)])
      (JObject [Member (JString [98]) (value_Uint64 1), Member (JString [97]) JNull])
    = Some (meaning int_value (JObject [Member (JString [97]) JNull, Member (JString [98]) (value_Int 1)])
        = meaning int_value (JObject [Member (JString [98]) (value_Uint64 1), Member (JString [97]) JNull]))"
  by (rule equality_is_meaning [THEN conjunct2, THEN conjunct2, THEN conjunct1, THEN mp])
    (simp_all add: IsString_def name_of_def value_Int_def value_Uint64_def has_flag_def flag_defs)

text \<open>With repeated names it is not symmetric.\<close>

lemma repeated_names_not_symmetric:
  "value_equal (JObject [Member (JString [97]) JTrue, Member (JString [97]) JTrue])
     (JObject [Member (JString [97]) JTrue, Member (JString [98]) JTrue]) = Some True"
  "value_equal (JObject [Member (JString [97]) JTrue, Member (JString [98]) JTrue])
     (JObject [Member (JString [97]) JTrue, Member (JString [97]) JTrue]) = Some False"
  by (simp_all add: FindMember_def IsString_def StringEqual_def)

end
