(* ===== verification/JsonBigInteger.thy ===== *)
theory JsonBigInteger
  imports Prelude
begin

section \<open>rapidjson: big integers\<close>

text \<open>
  \<open>src/battle/3rd/rapidjson/internal/biginteger.h\<close>: the unsigned integers of up to 416 digits of 64
  bits the exact parsing of doubles computes with. The state is the list of the first \<open>count_\<close>
  digits, the lowest first; nothing stands for a failed assertion and for a write behind the
  array.
\<close>

unbundle bit_operations_syntax

subsection \<open>Operations\<close>

type_synonym big = "u64 list"

definition kCapacity :: nat where "kCapacity = 3328 div 8"
definition kTypeBit :: nat where "kTypeBit = 64"

definition PushBack :: "u64 \<Rightarrow> big \<Rightarrow> big option" where
  "PushBack digit ds = (if length ds < kCapacity then Some (ds @ [digit]) else None)"

definition IsZero :: "big \<Rightarrow> bool" where
  "IsZero ds \<longleftrightarrow> ds = [0]"

text \<open>The loop of \<open>operator+=\<close> from a digit on: the digits, and whether the last one gave a carry.\<close>

fun add_carry :: "u64 \<Rightarrow> big \<Rightarrow> big \<times> bool" where
  "add_carry u [] = ([], True)"
| "add_carry u (d # ds) =
     (let s = d + u in if s \<ge> d then (s # ds, False) else let (r, c) = add_carry 1 ds in (s # r, c))"

definition PlusU :: "u64 \<Rightarrow> big \<Rightarrow> big option" where
  "PlusU u ds = (let (r, c) = add_carry u ds in if c then PushBack 1 r else Some r)"

text \<open>\<open>MulAdd64\<close> with 128-bit arithmetic: the low and the high half; and its portable branch.\<close>

definition MulAdd64 :: "u64 \<Rightarrow> u64 \<Rightarrow> u64 \<Rightarrow> u64 \<times> u64" where
  "MulAdd64 a b k = (let p = ucast a * ucast b + ucast k :: 128 word in (ucast p, ucast (drop_bit 64 p)))"

definition MulAdd64_portable :: "u64 \<Rightarrow> u64 \<Rightarrow> u64 \<Rightarrow> u64 \<times> u64" where
  "MulAdd64_portable a b k =
     (let a0 = a AND 0xFFFFFFFF; a1 = drop_bit 32 a; b0 = b AND 0xFFFFFFFF; b1 = drop_bit 32 b;
          x0 = a0 * b0; x1 = a0 * b1; x2 = a1 * b0; x3 = a1 * b1;
          x1 = x1 + drop_bit 32 x0;
          x1 = x1 + x2;
          x3 = (if x1 < x2 then x3 + push_bit 32 1 else x3);
          lo = push_bit 32 x1 + (x0 AND 0xFFFFFFFF);
          hi = x3 + drop_bit 32 x1;
          lo = lo + k
      in (lo, if lo < k then hi + 1 else hi))"

fun mul64_digits :: "u64 \<Rightarrow> u64 \<Rightarrow> big \<Rightarrow> big \<times> u64" where
  "mul64_digits u k [] = ([], k)"
| "mul64_digits u k (d # ds) =
     (let (lo, hi) = MulAdd64 d u k; (r, k) = mul64_digits u hi ds in (lo # r, k))"

definition TimesU64 :: "u64 \<Rightarrow> big \<Rightarrow> big option" where
  "TimesU64 u ds =
     (if u = 0 then Some [0]
      else if u = 1 then Some ds
      else if ds = [1] then Some [u]
      else let (r, k) = mul64_digits u 0 ds in if k > 0 then PushBack k r else Some r)"

fun mul32_digits :: "u32 \<Rightarrow> u64 \<Rightarrow> big \<Rightarrow> big \<times> u64" where
  "mul32_digits u k [] = ([], k)"
| "mul32_digits u k (x # ds) =
     (let c = drop_bit 32 x; d = x AND 0xFFFFFFFF;
          uc = ucast u * c; ud = ucast u * d;
          p0 = ud + k;
          p1 = uc + drop_bit 32 p0;
          (r, k) = mul32_digits u (drop_bit 32 p1) ds
      in (((p0 AND 0xFFFFFFFF) OR push_bit 32 p1) # r, k))"

definition TimesU32 :: "u32 \<Rightarrow> big \<Rightarrow> big option" where
  "TimesU32 u ds =
     (if u = 0 then Some [0]
      else if u = 1 then Some ds
      else if ds = [1] then Some [ucast u]
      else let (r, k) = mul32_digits u 0 ds in if k > 0 then PushBack k r else Some r)"

text \<open>The digits shifted by less than a digit, the highest only when it is not zero.\<close>

fun shift_digits :: "nat \<Rightarrow> u64 \<Rightarrow> big \<Rightarrow> big" where
  "shift_digits interShift below [] =
     (let top = drop_bit (kTypeBit - interShift) below in if top \<noteq> 0 then [top] else [])"
| "shift_digits interShift below (d # ds) =
     (push_bit interShift d OR drop_bit (kTypeBit - interShift) below) # shift_digits interShift d ds"

definition ShiftLeft :: "nat \<Rightarrow> big \<Rightarrow> big option" where
  "ShiftLeft shift ds =
     (if IsZero ds \<or> shift = 0 then Some ds
      else
        let offset = shift div kTypeBit; interShift = shift mod kTypeBit
        in if \<not> length ds + offset \<le> kCapacity then None
           else if interShift = 0 then Some (replicate offset 0 @ ds)
           else if length ds + offset = kCapacity then None
           else Some (replicate offset 0 @ shift_digits interShift 0 ds))"

definition kPow5 :: "u32 list" where
  "kPow5 = [5, 25, 125, 625, 3125, 15625, 78125, 390625, 1953125, 9765625, 48828125, 244140625]"

fun times_pow5_27 :: "nat \<Rightarrow> big \<Rightarrow> (nat \<times> big) option" where
  "times_pow5_27 exp ds =
     (if exp \<ge> 27 then Option.bind (TimesU64 0x6765C793FA10079D ds) (times_pow5_27 (exp - 27)) else Some (exp, ds))"

fun times_pow5_13 :: "nat \<Rightarrow> big \<Rightarrow> (nat \<times> big) option" where
  "times_pow5_13 exp ds =
     (if exp \<ge> 13 then Option.bind (TimesU32 1220703125 ds) (times_pow5_13 (exp - 13)) else Some (exp, ds))"

declare times_pow5_27.simps [simp del] times_pow5_13.simps [simp del]

definition MultiplyPow5 :: "nat \<Rightarrow> big \<Rightarrow> big option" where
  "MultiplyPow5 exp ds =
     (if exp = 0 then Some ds
      else Option.bind (times_pow5_27 exp ds) (\<lambda>(exp, ds).
           Option.bind (times_pow5_13 exp ds) (\<lambda>(exp, ds).
           if exp > 0 then TimesU32 (kPow5 ! (exp - 1)) ds else Some ds)))"

text \<open>\<open>Compare\<close>, from the highest digit down.\<close>

fun compare_digits :: "big \<Rightarrow> big \<Rightarrow> int" where
  "compare_digits (a # as) (b # bs) = (if a \<noteq> b then if a < b then - 1 else 1 else compare_digits as bs)"
| "compare_digits _ _ = 0"

definition Compare :: "big \<Rightarrow> big \<Rightarrow> int" where
  "Compare a b =
     (if length a \<noteq> length b then if length a < length b then - 1 else 1 else compare_digits (rev a) (rev b))"

fun difference_digits :: "u64 \<Rightarrow> big \<Rightarrow> big \<Rightarrow> big" where
  "difference_digits borrow [] bs = []"
| "difference_digits borrow (a # as) bs =
     (let d = a - borrow;
          d = (case bs of [] \<Rightarrow> d | b # _ \<Rightarrow> d - b)
      in d # difference_digits (if d > a then 1 else 0) as (tl bs))"

text \<open>The count of the result is behind its last digit that is not zero, or the one it had.\<close>

definition digit_count :: "nat \<Rightarrow> big \<Rightarrow> nat" where
  "digit_count n ds = (let k = length (dropWhile (\<lambda>d. d = 0) (rev ds)) in if k = 0 then n else k)"

definition Difference :: "big \<Rightarrow> big \<Rightarrow> big \<Rightarrow> (bool \<times> big) option" where
  "Difference this rhs out =
     (let cmp = Compare this rhs
      in if cmp = 0 then None
         else
           let (a, b, ret) = (if cmp < 0 then (rhs, this, True) else (this, rhs, False));
               ds = difference_digits 0 a b
           in Some (ret, take (digit_count (length out) ds) (ds @ drop (length ds) out)))"

fun parse_digits :: "u64 \<Rightarrow> bytes \<Rightarrow> u64 option" where
  "parse_digits r [] = Some r"
| "parse_digits r (c # cs) = (if c \<ge> 48 \<and> c \<le> 57 then parse_digits (r * 10 + ucast (c - 48)) cs else None)"

definition ParseUint64 :: "bytes \<Rightarrow> u64 option" where
  "ParseUint64 cs = parse_digits 0 cs"

definition AppendDecimal64 :: "bytes \<Rightarrow> big \<Rightarrow> big option" where
  "AppendDecimal64 cs ds =
     Option.bind (ParseUint64 cs) (\<lambda>u.
       if IsZero ds then Some [u]
       else Option.bind (MultiplyPow5 (length cs) ds) (\<lambda>ds. Option.bind (ShiftLeft (length cs) ds) (PlusU u)))"

fun append_decimals :: "bytes \<Rightarrow> big \<Rightarrow> big option" where
  "append_decimals decimals ds =
     (if length decimals \<ge> 19 then Option.bind (AppendDecimal64 (take 19 decimals) ds) (append_decimals (drop 19 decimals))
      else if length decimals > 0 then AppendDecimal64 decimals ds
      else Some ds)"

declare append_decimals.simps [simp del]

definition BigInteger_of :: "bytes \<Rightarrow> big option" where
  "BigInteger_of decimals = (if length decimals > 0 then append_decimals decimals [0] else None)"

end
