(* ===== verification/JsonBigArith.thy ===== *)
theory JsonBigArith
  imports JsonBigInteger JsonNumbers
begin

section \<open>rapidjson: big integers are natural numbers\<close>

text \<open>
  The number the digits of a big integer stand for, and that every operation of \<open>JsonBigInteger\<close>
  computes with it what its name says, as long as the result has room.
\<close>

unbundle bit_operations_syntax

fun big_value :: "big \<Rightarrow> nat" where
  "big_value [] = 0"
| "big_value (d # ds) = unat d + 2 ^ 64 * big_value ds"

text \<open>The invariant: at least a digit, no leading zeros, within the array.\<close>

definition big_ok :: "big \<Rightarrow> bool" where
  "big_ok ds \<longleftrightarrow> ds \<noteq> [] \<and> (length ds > 1 \<longrightarrow> last ds \<noteq> 0) \<and> length ds \<le> kCapacity"

lemma big_value_append: "big_value (xs @ ys) = big_value xs + 2 ^ (64 * length xs) * big_value ys"
  by (induction xs) (simp_all add: power_add algebra_simps)

lemma u64_bound: "unat d < 2 ^ 64" for d :: u64
  using unsigned_less [of d, where 'a = nat] by simp

lemma big_value_less: "big_value xs < 2 ^ (64 * length xs)"
proof (induction xs)
  case (Cons x xs)
  have "unat x + 2 ^ 64 * big_value xs < 2 ^ 64 * (big_value xs + 1)"
    using u64_bound [of x] by simp
  also have "\<dots> \<le> 2 ^ 64 * 2 ^ (64 * length xs)"
    using Cons by (intro mult_le_mono2) simp
  finally show ?case
    by (simp add: power_add mult.commute)
qed simp

lemma big_value_lower:
  assumes "xs \<noteq> []" "last xs \<noteq> 0"
  shows "2 ^ (64 * (length xs - 1)) \<le> big_value xs"
proof -
  obtain ys y where xs: "xs = ys @ [y]" "y \<noteq> 0"
    using assms by (metis append_butlast_last_id)
  have "unat y \<ge> 1"
    using xs(2) by (simp add: Suc_le_eq unat_gt_0)
  then have "(2::nat) ^ (64 * length ys) * 1 \<le> 2 ^ (64 * length ys) * unat y"
    by (intro mult_le_mono2)
  also have "\<dots> \<le> big_value xs"
    by (simp add: xs(1) big_value_append)
  finally show ?thesis
    by (simp add: xs(1))
qed

text \<open>A value with room has a digit to spare.\<close>

definition big_room :: nat where
  "big_room = 2 ^ (64 * (kCapacity - 1))"

lemma room_length:
  assumes "xs \<noteq> []" "length xs > 1 \<longrightarrow> last xs \<noteq> 0" "big_value xs > 0" "big_value xs * 2 ^ (64 * k) < big_room"
  shows "length xs + k < kCapacity"
proof -
  have "2 ^ (64 * (length xs - 1)) \<le> big_value xs"
    using assms big_value_lower [of xs] by (cases "length xs > 1") auto
  then have "2 ^ (64 * (length xs - 1)) * 2 ^ (64 * k) \<le> big_value xs * 2 ^ (64 * k)"
    by (rule mult_le_mono1)
  then have "2 ^ (64 * (length xs - 1)) * 2 ^ (64 * k) < big_room"
    using assms(4) by (rule le_less_trans)
  then have "(2::nat) ^ (64 * (length xs - 1) + 64 * k) < 2 ^ (64 * (kCapacity - 1))"
    unfolding big_room_def power_add .
  then have "64 * (length xs - 1) + 64 * k < 64 * (kCapacity - 1)"
    by (rule power_less_imp_less_exp [rotated]) simp
  then show ?thesis
    using assms(1) by (cases xs) auto
qed

lemma pushed_fits:
  assumes "big_value (xs @ [y]) < big_room" "y \<noteq> 0" "xs \<noteq> []"
  shows "PushBack y xs = Some (xs @ [y])" "big_ok (xs @ [y])"
proof -
  have "big_value (xs @ [y]) > 0"
    using assms(2) by (simp add: big_value_append unat_gt_0)
  then have "length (xs @ [y]) + 0 < kCapacity"
    using assms by (intro room_length) auto
  then show "PushBack y xs = Some (xs @ [y])" "big_ok (xs @ [y])"
    using assms by (simp_all add: PushBack_def big_ok_def)
qed

subsection \<open>Addition\<close>

lemma unat_add_carry: "unat (d + u) + (if d + u \<ge> d then 0 else 2 ^ 64) = unat d + unat u" for d u :: u64
proof (cases "unat d + unat u < 2 ^ 64")
  case True
  then have "unat (d + u) = unat d + unat u"
    by (simp add: unat_word_ariths)
  then show ?thesis
    by (simp add: word_le_nat_alt)
next
  case False
  have "unat (d + u) = (unat d + unat u) mod 2 ^ 64"
    by (simp add: unat_word_ariths)
  also have "\<dots> = unat d + unat u - 2 ^ 64"
    using False u64_bound [of d] u64_bound [of u] by (simp add: le_mod_geq)
  finally show ?thesis
    using False u64_bound [of u] by (simp add: word_le_nat_alt)
qed

lemma add_carry_value:
  "add_carry u ds = (r, c) \<Longrightarrow> ds \<noteq> [] \<Longrightarrow>
    length r = length ds \<and> big_value r + (if c then 2 ^ (64 * length ds) else 0) = big_value ds + unat u
    \<and> (last ds \<noteq> 0 \<and> \<not> c \<longrightarrow> last r \<noteq> 0)"
proof (induction u ds arbitrary: r c rule: add_carry.induct)
  case (2 u d ds)
  note sum = unat_add_carry [of d u]
  show ?case
  proof (cases "d + u \<ge> d")
    case True
    then show ?thesis
      using 2 sum by (auto simp: word_le_nat_alt word_unat_eq_iff)
  next
    case False
    obtain r' where r: "add_carry 1 ds = (r', c)" "r = (d + u) # r'"
      using 2 False by (auto simp: Let_def split: prod.splits)
    show ?thesis
    proof (cases "ds = []")
      case True
      then show ?thesis
        using r False sum by simp
    next
      case ds: False
      have "length r' = length ds \<and> big_value r' + (if c then 2 ^ (64 * length ds) else 0) = big_value ds + unat (1::u64)
          \<and> (last ds \<noteq> 0 \<and> \<not> c \<longrightarrow> last r' \<noteq> 0)"
        using "2.IH" [OF refl False r(1) ds] .
      then show ?thesis
        using r(2) False sum ds by (auto simp: power_add)
    qed
  qed
qed simp

lemma PlusU_value:
  assumes "big_ok ds" "big_value ds + unat u < big_room"
  shows "\<exists>r. PlusU u ds = Some r \<and> big_ok r \<and> big_value r = big_value ds + unat u"
proof -
  obtain r c where r: "add_carry u ds = (r, c)"
    by (cases "add_carry u ds")
  note v = add_carry_value [OF r]
  have ds: "ds \<noteq> []"
    using assms(1) by (simp add: big_ok_def)
  show ?thesis
  proof (cases c)
    case True
    then have "big_value (r @ [1]) = big_value ds + unat u" "r \<noteq> []"
      using v ds by (auto simp: big_value_append)
    then show ?thesis
      using pushed_fits [of r 1] assms(2) True r by (simp add: PlusU_def)
  next
    case False
    then show ?thesis
      using v ds assms(1) r by (auto simp: PlusU_def big_ok_def)
  qed
qed

subsection \<open>Multiplication\<close>

lemma unat_u128: "unat (ucast a :: 128 word) = unat a" for a :: u64
  using u64_bound [of a] by (simp add: unsigned_ucast_eq take_bit_nat_eq_self)

lemma MulAdd64_value:
  assumes "MulAdd64 a b k = (lo, hi)"
  shows "unat lo + 2 ^ 64 * unat hi = unat a * unat b + unat k"
proof -
  define p where "p = (ucast a * ucast b + ucast k :: 128 word)"
  have "unat a * unat b \<le> (2 ^ 64 - 1) * (2 ^ 64 - 1)"
    using u64_bound [of a] u64_bound [of b] by (intro mult_le_mono) auto
  then have bound: "unat a * unat b + unat k < 2 ^ 128"
    using u64_bound [of k] by simp
  have "unat p = unat a * unat b + unat k"
    using bound by (simp add: p_def unat_word_ariths unat_u128)
  moreover have "unat lo = unat p mod 2 ^ 64" "unat hi = unat p div 2 ^ 64 mod 2 ^ 64"
  proof -
    have "lo = ucast p" "hi = ucast (drop_bit 64 p)"
      using assms by (simp_all add: MulAdd64_def Let_def flip: p_def)
    then show "unat lo = unat p mod 2 ^ 64" "unat hi = unat p div 2 ^ 64 mod 2 ^ 64"
      by (simp_all only: unsigned_ucast_eq unat_drop take_bit_eq_mod) simp_all
  qed
  moreover have "unat p div 2 ^ 64 < 2 ^ 64"
    using bound calculation(1) by (simp add: div_less_iff_less_mult)
  ultimately show ?thesis
    by simp
qed

lemma mul64_value:
  "mul64_digits u k ds = (r, h) \<Longrightarrow>
    length r = length ds \<and> big_value r + 2 ^ (64 * length ds) * unat h = big_value ds * unat u + unat k"
proof (induction u k ds arbitrary: r h rule: mul64_digits.induct)
  case (2 u k d ds)
  obtain lo hi r' where m: "MulAdd64 d u k = (lo, hi)" "mul64_digits u hi ds = (r', h)" "r = lo # r'"
    using "2.prems" by (auto split: prod.splits)
  have "length r' = length ds" "big_value r' + 2 ^ (64 * length ds) * unat h = big_value ds * unat u + unat hi"
    using "2.IH" [OF m(1)[symmetric] refl m(2)] by auto
  moreover have "unat lo + 2 ^ 64 * unat hi = unat d * unat u + unat k"
    by (rule MulAdd64_value [OF m(1)])
  ultimately show ?case
    by (auto simp: m(3) power_add algebra_simps)
qed simp

lemma last_by_value:
  assumes "length r > 1" "big_value r \<ge> 2 ^ (64 * (length r - 1))"
  shows "last r \<noteq> 0"
proof
  assume z: "last r = 0"
  have "r = butlast r @ [last r]"
    using assms(1) by (cases r) auto
  then have "big_value r = big_value (butlast r)"
    using z by (metis add_0_right big_value.simps big_value_append mult_0_right unsigned_0)
  then show False
    using assms(2) big_value_less [of "butlast r"] by simp
qed

lemma big_one: "big_ok [u]" "big_value [u] = unat u" "kCapacity = 416"
  by (simp_all add: big_ok_def kCapacity_def)

text \<open>Any loop over the digits that multiplies them, and the last carry pushed.\<close>

lemma product_pushed:
  assumes "big_ok ds" "length r = length ds" "big_value r + 2 ^ (64 * length ds) * unat h = big_value ds * n"
    "n > 0" "big_value ds * n < big_room"
  shows "\<exists>q. (if h > 0 then PushBack h r else Some r) = Some q \<and> big_ok q \<and> big_value q = big_value ds * n"
proof (cases "h > 0")
  case True
  then have "big_value (r @ [h]) = big_value ds * n" "r \<noteq> []" "h \<noteq> 0"
    using assms(1-3) by (auto simp: big_value_append big_ok_def)
  then show ?thesis
    using pushed_fits [of r h] assms(5) True by simp
next
  case False
  then have "h = 0"
    by (simp add: word_gt_0)
  then have v: "big_value r = big_value ds * n"
    using assms(3) by simp
  have "last r \<noteq> 0" if "length r > 1"
  proof (rule last_by_value [OF that])
    have "2 ^ (64 * (length ds - 1)) \<le> big_value ds"
      using assms(1,2) that by (intro big_value_lower) (auto simp: big_ok_def)
    also have "\<dots> \<le> big_value ds * n"
      using assms(4) by simp
    finally show "2 ^ (64 * (length r - 1)) \<le> big_value r"
      by (simp add: v assms(2))
  qed
  then show ?thesis
    using v \<open>h = 0\<close> assms(1,2) by (auto simp: big_ok_def)
qed

lemma TimesU64_value:
  assumes "big_ok ds" "big_value ds * unat u < big_room"
  shows "\<exists>q. TimesU64 u ds = Some q \<and> big_ok q \<and> big_value q = big_value ds * unat u"
proof -
  consider "u = 0" | "u = 1" | "u \<noteq> 0" "u \<noteq> 1" "ds = [1]" | "u \<noteq> 0" "u \<noteq> 1" "ds \<noteq> [1]"
    by blast
  then show ?thesis
  proof cases
    case 4
    obtain r h where m: "mul64_digits u 0 ds = (r, h)"
      by (cases "mul64_digits u 0 ds")
    have "big_value r + 2 ^ (64 * length ds) * unat h = big_value ds * unat u" "length r = length ds"
      using mul64_value [OF m] by auto
    then show ?thesis
      using product_pushed [OF assms(1), of r h "unat u"] assms(2) 4 m by (simp add: TimesU64_def unat_gt_0)
  qed (use assms(1) big_one in \<open>auto simp: TimesU64_def\<close>)
qed

subsection \<open>Shifts\<close>

lemma unat_push:
  fixes d :: u64
  assumes "s \<le> 64"
  shows "unat (push_bit s d) = 2 ^ s * (unat d mod 2 ^ (64 - s))"
proof -
  have "unat (push_bit s d) = take_bit LENGTH(64) (push_bit s (unat d))"
    by (rule unsigned_push_bit_eq)
  also have "\<dots> = (2 ^ s * unat d) mod 2 ^ 64"
    by (simp add: push_bit_eq_mult take_bit_eq_mod mult.commute)
  also have "\<dots> = (2 ^ s * unat d) mod (2 ^ s * 2 ^ (64 - s))"
    using assms by (simp only: flip: power_add) simp
  also have "\<dots> = 2 ^ s * (unat d mod 2 ^ (64 - s))"
    by (simp only: mult_mod_right)
  finally show ?thesis .
qed

lemma unat_shift_or:
  fixes d b :: u64
  assumes "s \<le> 64"
  shows "unat (push_bit s d OR drop_bit (64 - s) b) = 2 ^ s * (unat d mod 2 ^ (64 - s)) + unat b div 2 ^ (64 - s)"
proof -
  have "unat b < 2 ^ s * 2 ^ (64 - s)"
    using u64_bound [of b] assms by (simp flip: power_add)
  then have low: "unat (drop_bit (64 - s) b) < 2 ^ s"
    by (simp only: unat_drop) (simp add: div_less_iff_less_mult)
  have "unat d mod 2 ^ (64 - s) + 1 \<le> 2 ^ (64 - s)"
    by (simp add: Suc_le_eq)
  then have "2 ^ s * (unat d mod 2 ^ (64 - s) + 1) \<le> 2 ^ s * 2 ^ (64 - s)"
    by (rule mult_le_mono2)
  then have "unat (push_bit s d) + unat (drop_bit (64 - s) b) < 2 ^ 64"
    using low assms by (simp add: unat_push flip: power_add)
  moreover have "push_bit s d OR drop_bit (64 - s) b = push_bit s d + drop_bit (64 - s) b"
    using low by (intro or_add_word [of s]) (simp_all add: take_bit_push_bit)
  ultimately have "unat (push_bit s d OR drop_bit (64 - s) b) = unat (push_bit s d) + unat (drop_bit (64 - s) b)"
    by (simp add: unat_word_ariths)
  then show ?thesis
    using assms by (simp only: unat_push unat_drop)
qed

lemma shift_digits_value:
  assumes "s \<le> 64"
  shows "big_value (shift_digits s below ds) = 2 ^ s * big_value ds + unat below div 2 ^ (64 - s)"
proof (induction ds arbitrary: below)
  case Nil
  then show ?case
    by (auto simp: Let_def kTypeBit_def unat_drop simp flip: unat_drop)
next
  case (Cons d ds)
  have "2 ^ 64 * (unat d div 2 ^ (64 - s)) = 2 ^ s * (2 ^ (64 - s) * (unat d div 2 ^ (64 - s)))"
    using assms by (simp flip: power_add mult.assoc)
  then have "2 ^ s * (unat d mod 2 ^ (64 - s)) + 2 ^ 64 * (unat d div 2 ^ (64 - s)) = 2 ^ s * unat d"
    by (metis add.commute distrib_left mult_div_mod_eq)
  then show ?case
    using Cons [of d] assms by (simp add: unat_shift_or kTypeBit_def algebra_simps)
qed

lemma shift_digits_last:
  assumes "s \<le> 64"
  shows "last (x # xs) \<noteq> 0 \<Longrightarrow> shift_digits s below (x # xs) \<noteq> [] \<and> last (shift_digits s below (x # xs)) \<noteq> 0"
proof (induction xs arbitrary: x below)
  case Nil
  have "drop_bit (64 - s) x = 0 \<Longrightarrow> push_bit s x \<noteq> 0"
  proof
    assume z: "drop_bit (64 - s) x = 0" "push_bit s x = 0"
    then have "unat x div 2 ^ (64 - s) = 0" "2 ^ s * (unat x mod 2 ^ (64 - s)) = 0"
      using unat_drop [of "64 - s" x] unat_push [OF assms, of x] by simp_all
    then have "unat x = 0"
      using mult_div_mod_eq [of "2 ^ (64 - s)" "unat x"] by simp
    with Nil show False
      by (simp add: word_unat_eq_iff)
  qed
  then show ?case
    by (auto simp: Let_def kTypeBit_def or_eq_0_iff)
next
  case (Cons y ys)
  then show ?case
    by simp
qed

lemma replicate_zeros: "big_value (replicate n 0 @ xs) = 2 ^ (64 * n) * big_value xs"
  by (induction n) (simp_all add: power_add)

lemma length_shift_digits: "length (shift_digits s below ds) \<le> length ds + 1"
  by (induction ds arbitrary: below) (auto simp: Let_def)

lemma ShiftLeft_value:
  assumes "big_ok ds" "big_value ds * 2 ^ n < big_room"
  shows "\<exists>r. ShiftLeft n ds = Some r \<and> big_ok r \<and> big_value r = big_value ds * 2 ^ n"
proof (cases "IsZero ds \<or> n = 0")
  case True
  then show ?thesis
    using assms(1) by (auto simp: ShiftLeft_def IsZero_def)
next
  case False
  obtain x xs where ds: "ds = x # xs" "last ds \<noteq> 0"
    using assms(1) False by (cases ds) (auto simp: big_ok_def IsZero_def)
  then have "big_value ds \<ge> 2 ^ (64 * (length ds - 1))"
    by (intro big_value_lower) auto
  then have pos: "big_value ds > 0"
    by (rule less_le_trans [rotated]) simp
  define k where "k = n div 64"
  define s where "s = n mod 64"
  have n: "n = 64 * k + s" "s < 64"
    by (simp_all add: k_def s_def)
  have "big_value ds * 2 ^ (64 * k) \<le> big_value ds * 2 ^ n"
    by (simp add: n(1))
  then have "big_value ds * 2 ^ (64 * k) < big_room"
    using assms(2) by (rule le_less_trans)
  then have "length ds + k < kCapacity"
    using assms(1) pos by (intro room_length) (auto simp: big_ok_def)
  moreover have "big_value (replicate k 0 @ shift_digits s 0 ds) = big_value ds * 2 ^ n"
    using n(2) by (simp add: replicate_zeros shift_digits_value n(1) power_add)
  ultimately show ?thesis
    using shift_digits_last [of s x xs 0] length_shift_digits [of s 0 ds] False ds n
    by (auto simp: ShiftLeft_def kTypeBit_def Let_def big_ok_def replicate_zeros power_add simp flip: k_def s_def)
qed

subsection \<open>Multiplication by 32 bits, and the portable one\<close>

lemma unat_no_overflow:
  fixes a b :: u64
  shows "unat a * unat b < 2 ^ 64 \<Longrightarrow> unat (a * b) = unat a * unat b"
    "unat a + unat b < 2 ^ 64 \<Longrightarrow> unat (a + b) = unat a + unat b"
  by (simp_all add: unat_word_ariths)

lemma halves:
  fixes a :: u64
  shows "unat (a AND 0xFFFFFFFF) = unat a mod 2 ^ 32" "unat (drop_bit 32 a) = unat a div 2 ^ 32" "unat a div 2 ^ 32 < 2 ^ 32"
proof -
  have "a AND 0xFFFFFFFF = take_bit 32 a"
    using take_bit_eq_mask [of 32 a] by (simp add: mask_eq_exp_minus_1)
  then show "unat (a AND 0xFFFFFFFF) = unat a mod 2 ^ 32"
    by (simp add: unsigned_take_bit_eq) (simp add: take_bit_eq_mod)
  show "unat (drop_bit 32 a) = unat a div 2 ^ 32"
    by (rule unat_drop)
  show "unat a div 2 ^ 32 < 2 ^ 32"
    using u64_bound [of a] by (simp add: div_less_iff_less_mult)
qed

lemma product_small: "x < 2 ^ 32 \<Longrightarrow> y < 2 ^ 32 \<Longrightarrow> z < 2 ^ 32 \<Longrightarrow> x * y + z < (2 ^ 64 :: nat)"
proof -
  assume "x < 2 ^ 32" "y < 2 ^ 32" "z < (2 ^ 32 :: nat)"
  then have "x * y \<le> (2 ^ 32 - 1) * (2 ^ 32 - 1)"
    by (intro mult_le_mono) auto
  then show ?thesis
    using \<open>z < 2 ^ 32\<close> by simp
qed

lemma glued: "n * (p mod n) + n * n * (p div n) = n * (p :: nat)"
  by (metis add.commute distrib_left mult.assoc mult_div_mod_eq)

lemma mul32_step:
  fixes x k :: u64 and u :: u32
  assumes "k < 2 ^ 32"
  defines "p0 \<equiv> ucast u * (x AND 0xFFFFFFFF) + k"
  defines "p1 \<equiv> ucast u * drop_bit 32 x + drop_bit 32 p0"
  shows "unat ((p0 AND 0xFFFFFFFF) OR push_bit 32 p1) + 2 ^ 64 * unat (drop_bit 32 p1) = unat x * unat u + unat k"
    "drop_bit 32 p1 < 2 ^ 32"
proof -
  have u: "unat (ucast u :: u64) = unat u" "unat u < 2 ^ 32"
    using ucast_up [of u] unat_bounds(2) [of u] by simp_all
  have k: "unat k < 2 ^ 32"
    using assms(1) by (simp add: word_less_nat_alt)
  have d: "unat x mod 2 ^ 32 < 2 ^ 32"
    by simp
  have p0: "unat p0 = unat u * (unat x mod 2 ^ 32) + unat k"
    using product_small [OF u(2) d k] by (simp add: p0_def unat_no_overflow u(1) halves)
  have p1: "unat p1 = unat u * (unat x div 2 ^ 32) + unat p0 div 2 ^ 32"
    using product_small [OF u(2) halves(3) [of x] halves(3) [of p0]] by (simp add: p1_def unat_no_overflow u(1) halves)
  have low: "0xFFFFFFFF = (mask 32 :: u64)"
    by (simp add: mask_eq_exp_minus_1)
  have "(p0 AND 0xFFFFFFFF) OR push_bit 32 p1 = push_bit 32 p1 OR drop_bit (64 - 32) (push_bit 32 p0)"
    unfolding low by (rule bit_word_eqI) (auto simp: bit_simps)
  then have "unat ((p0 AND 0xFFFFFFFF) OR push_bit 32 p1) = 2 ^ 32 * (unat p1 mod 2 ^ 32) + unat p0 mod 2 ^ 32"
    using unat_shift_or [of 32 p1 "push_bit 32 p0"] unat_push [of 32 p0] by simp
  moreover have "2 ^ 64 * unat (drop_bit 32 p1) = 2 ^ 32 * (2 ^ 32 * (unat p1 div 2 ^ 32))"
    by (simp add: halves)
  ultimately have "unat ((p0 AND 0xFFFFFFFF) OR push_bit 32 p1) + 2 ^ 64 * unat (drop_bit 32 p1)
      = 2 ^ 32 * unat p1 + unat p0 mod 2 ^ 32"
    using glued [of "2 ^ 32" "unat p1"] by simp
  also have "\<dots> = unat u * (2 ^ 32 * (unat x div 2 ^ 32)) + unat p0"
    using mult_div_mod_eq [of "2 ^ 32" "unat p0"] by (simp add: p1 algebra_simps)
  also have "\<dots> = unat u * (2 ^ 32 * (unat x div 2 ^ 32) + unat x mod 2 ^ 32) + unat k"
    by (simp only: p0 distrib_left add.assoc)
  finally show "unat ((p0 AND 0xFFFFFFFF) OR push_bit 32 p1) + 2 ^ 64 * unat (drop_bit 32 p1) = unat x * unat u + unat k"
    by (simp only: mult_div_mod_eq mult.commute)
  show "drop_bit 32 p1 < 2 ^ 32"
    using halves(3) [of p1] by (simp add: word_less_nat_alt halves)
qed

lemma mul32_value:
  "mul32_digits u k ds = (r, h) \<Longrightarrow> k < 2 ^ 32 \<Longrightarrow>
    length r = length ds \<and> big_value r + 2 ^ (64 * length ds) * unat h = big_value ds * unat u + unat k"
proof (induction u k ds arbitrary: r h rule: mul32_digits.induct)
  case (2 u k x ds)
  define p0 where "p0 = ucast u * (x AND 0xFFFFFFFF) + k"
  define p1 where "p1 = ucast u * drop_bit 32 x + drop_bit 32 p0"
  obtain r' where r: "mul32_digits u (drop_bit 32 p1) ds = (r', h)" "r = ((p0 AND 0xFFFFFFFF) OR push_bit 32 p1) # r'"
    using "2.prems"(1) by (auto simp: Let_def p0_def p1_def split: prod.splits)
  note step = mul32_step [OF "2.prems"(2), of u x, folded p0_def, folded p1_def]
  have "length r' = length ds \<and> big_value r' + 2 ^ (64 * length ds) * unat h = big_value ds * unat u + unat (drop_bit 32 p1)"
    using "2.IH" [OF refl refl refl refl refl refl r(1) [unfolded p1_def p0_def] step(2) [unfolded p1_def p0_def],
        folded p0_def, folded p1_def] .
  then show ?case
    using step(1) by (auto simp: r(2) power_add algebra_simps)
qed simp

lemma TimesU32_value:
  assumes "big_ok ds" "big_value ds * unat u < big_room"
  shows "\<exists>q. TimesU32 u ds = Some q \<and> big_ok q \<and> big_value q = big_value ds * unat u"
proof -
  consider "u = 0" | "u = 1" | "u \<noteq> 0" "u \<noteq> 1" "ds = [1]" | "u \<noteq> 0" "u \<noteq> 1" "ds \<noteq> [1]"
    by blast
  then show ?thesis
  proof cases
    case 4
    obtain r h where m: "mul32_digits u 0 ds = (r, h)"
      by (cases "mul32_digits u 0 ds")
    have "big_value r + 2 ^ (64 * length ds) * unat h = big_value ds * unat u" "length r = length ds"
      using mul32_value [OF m] by auto
    then show ?thesis
      using product_pushed [OF assms(1), of r h "unat u"] assms(2) 4 m by (simp add: TimesU32_def unat_gt_0)
  qed (use assms(1) big_one ucast_up in \<open>auto simp: TimesU32_def\<close>)
qed

lemma portable_sum:
  fixes n s c x a0 a1 b0 b1 :: nat
  assumes "s + c * (n * n) = a0 * b1 + x div n + a1 * b0" "x = a0 * b0"
  shows "n * (s mod n) + x mod n + n * n * (a1 * b1 + c * n + s div n) = (a0 + n * a1) * (b0 + n * b1)"
proof -
  have "n * (s mod n) + x mod n + n * n * (a1 * b1 + c * n + s div n)
      = (n * (s mod n) + n * n * (s div n)) + n * (c * (n * n)) + x mod n + n * n * (a1 * b1)"
    by (simp add: algebra_simps)
  also have "\<dots> = n * (s + c * (n * n)) + x mod n + n * n * (a1 * b1)"
    unfolding glued by (simp add: algebra_simps)
  also have "\<dots> = (n * (x div n) + x mod n) + n * (a0 * b1 + a1 * b0) + n * n * (a1 * b1)"
    unfolding assms(1) by (simp add: algebra_simps)
  also have "\<dots> = (a0 + n * a1) * (b0 + n * b1)"
    unfolding mult_div_mod_eq assms(2) by (simp add: algebra_simps)
  finally show ?thesis .
qed

lemma parts_unique: "x < n \<Longrightarrow> x' < n \<Longrightarrow> x + n * y = x' + n * y' \<Longrightarrow> x = x' \<and> y = (y' :: nat)"
  by (metis add_cancel_right_right div_less div_mult_self2 gr_implies_not0 mod_less mod_mult_self2 add_0)

lemma MulAdd64_portable_value:
  assumes "MulAdd64_portable a b k = (lo, hi)"
  shows "unat lo + 2 ^ 64 * unat hi = unat a * unat b + unat k"
proof -
  define a0 a1 b0 b1 where parts: "a0 = unat a mod 2 ^ 32" "a1 = unat a div 2 ^ 32" "b0 = unat b mod 2 ^ 32" "b1 = unat b div 2 ^ 32"
  have small: "a0 < 2 ^ 32" "a1 < 2 ^ 32" "b0 < 2 ^ 32" "b1 < 2 ^ 32"
    unfolding parts using halves(3) by simp_all
  have w: "unat (a AND 0xFFFFFFFF) = a0" "unat (drop_bit 32 a) = a1" "unat (b AND 0xFFFFFFFF) = b0" "unat (drop_bit 32 b) = b1"
    by (simp_all add: halves parts)
  define x0 where "x0 = (a AND 0xFFFFFFFF) * (b AND 0xFFFFFFFF)"
  define x2 where "x2 = drop_bit 32 a * (b AND 0xFFFFFFFF)"
  define x3 where "x3 = drop_bit 32 a * drop_bit 32 b"
  define y where "y = (a AND 0xFFFFFFFF) * drop_bit 32 b + drop_bit 32 x0"
  define s where "s = y + x2"
  define c :: nat where "c = (if s < x2 then 1 else 0)"
  define z where "z = (if s < x2 then x3 + push_bit 32 1 else x3)"
  have x0: "unat x0 = a0 * b0" and x2: "unat x2 = a1 * b0" and x3: "unat x3 = a1 * b1"
    using product_small [OF small(1,3), of 0] product_small [OF small(2,3), of 0] product_small [OF small(2,4), of 0]
    by (simp_all add: x0_def x2_def x3_def unat_no_overflow w)
  have y: "unat y = a0 * b1 + unat x0 div 2 ^ 32"
    using product_small [OF small(1,4) halves(3) [of x0]] by (simp add: y_def unat_no_overflow w halves(2) [of x0])
  have s: "unat s + c * (2 ^ 32 * 2 ^ 32) = a0 * b1 + unat x0 div 2 ^ 32 + a1 * b0"
    using unat_add_carry [of x2 y] by (simp add: s_def c_def x2 y not_le add.commute split: if_splits)
  have "a1 * b1 + 2 ^ 32 < 2 ^ 64"
    using mult_le_mono [of a1 "2 ^ 32 - 1" b1 "2 ^ 32 - 1"] small by simp
  then have z: "unat z = a1 * b1 + c * 2 ^ 32"
    by (simp add: z_def c_def x3 unat_no_overflow)
  define lo0 where "lo0 = push_bit 32 s + (x0 AND 0xFFFFFFFF)"
  have "2 ^ 32 * (unat s mod 2 ^ 32) + unat x0 mod 2 ^ 32 < 2 ^ 64"
    using mult_le_mono2 [of "unat s mod 2 ^ 32" "2 ^ 32 - 1" "2 ^ 32"] by simp
  then have lo0: "unat lo0 = 2 ^ 32 * (unat s mod 2 ^ 32) + unat x0 mod 2 ^ 32"
    using unat_push [of 32 s] by (simp add: lo0_def unat_no_overflow halves(1) [of x0])
  have "unat lo0 + 2 ^ 32 * 2 ^ 32 * (unat z + unat s div 2 ^ 32) = (a0 + 2 ^ 32 * a1) * (b0 + 2 ^ 32 * b1)"
    unfolding lo0 z by (rule portable_sum [OF s x0])
  then have total: "unat lo0 + 2 ^ 64 * (unat z + unat s div 2 ^ 32) = unat a * unat b"
    by (simp add: parts)
  have "unat a * unat b \<le> (2 ^ 64 - 1) * (2 ^ 64 - 1)"
    using u64_bound [of a] u64_bound [of b] by (intro mult_le_mono) auto
  then have high: "unat z + unat s div 2 ^ 32 < 2 ^ 64 - 1"
    using total by simp
  define hi0 where "hi0 = z + drop_bit 32 s"
  have hi0: "unat hi0 = unat z + unat s div 2 ^ 32"
    using high by (simp add: hi0_def unat_no_overflow halves(2) [of s])
  have "(lo, hi) = (lo0 + k, if lo0 + k < k then hi0 + 1 else hi0)"
    unfolding assms [symmetric] MulAdd64_portable_def Let_def
    by (simp add: hi0_def lo0_def z_def s_def y_def x0_def x2_def x3_def)
  moreover have "unat (hi0 + 1) = unat hi0 + 1"
    using high by (intro trans [OF unat_no_overflow(2)]) (simp_all add: hi0)
  ultimately show ?thesis
    using unat_add_carry [of k lo0] total by (auto simp: add.commute [of k] hi0 not_le split: if_splits)
qed

lemma portable_same: "MulAdd64_portable a b k = MulAdd64 a b k"
proof -
  obtain lo hi where p: "MulAdd64_portable a b k = (lo, hi)"
    by (cases "MulAdd64_portable a b k")
  obtain lo' hi' where m: "MulAdd64 a b k = (lo', hi')"
    by (cases "MulAdd64 a b k")
  have "unat lo + 2 ^ 64 * unat hi = unat lo' + 2 ^ 64 * unat hi'"
    using MulAdd64_portable_value [OF p] MulAdd64_value [OF m] by simp
  then have "unat lo = unat lo' \<and> unat hi = unat hi'"
    by (rule parts_unique [OF u64_bound u64_bound])
  then show ?thesis
    by (simp add: p m word_unat_eq_iff)
qed

subsection \<open>Powers of five\<close>

lemma pow5_part:
  assumes "j \<le> n" "v * 5 ^ n < big_room"
  shows "v * 5 ^ j < big_room" "(5::nat) ^ n = 5 ^ j * 5 ^ (n - j)"
proof -
  show "(5::nat) ^ n = 5 ^ j * 5 ^ (n - j)"
    using assms(1) power_add [of "5::nat" j "n - j"] by (simp only: le_add_diff_inverse)
  have "v * 5 ^ j \<le> v * 5 ^ n"
    using assms(1) by (intro mult_le_mono2 power_increasing) auto
  then show "v * 5 ^ j < big_room"
    using assms(2) by (rule le_less_trans)
qed

lemma times_pow5_27_value:
  "big_ok ds \<Longrightarrow> big_value ds * 5 ^ n < big_room \<Longrightarrow>
    \<exists>m r. times_pow5_27 n ds = Some (m, r) \<and> big_ok r \<and> big_value r * 5 ^ m = big_value ds * 5 ^ n"
proof (induction n ds rule: times_pow5_27.induct)
  case (1 n ds)
  show ?case
  proof (cases "n \<ge> 27")
    case True
    note part = pow5_part [OF True "1.prems"(2)]
    have five: "unat (0x6765C793FA10079D :: u64) = 5 ^ 27"
      by simp
    obtain q where q: "TimesU64 0x6765C793FA10079D ds = Some q" "big_ok q" "big_value q = big_value ds * 5 ^ 27"
      using TimesU64_value [OF "1.prems"(1), of "0x6765C793FA10079D"] part(1) unfolding five by blast
    then have eq: "big_value q * 5 ^ (n - 27) = big_value ds * 5 ^ n"
      by (simp only: part(2) mult.assoc)
    then show ?thesis
      using "1.IH" [OF True q(1,2)] "1.prems"(2) True q(1) by (simp add: times_pow5_27.simps [of n ds])
  qed (use 1 in \<open>simp add: times_pow5_27.simps\<close>)
qed

lemma times_pow5_13_value:
  "big_ok ds \<Longrightarrow> big_value ds * 5 ^ n < big_room \<Longrightarrow>
    \<exists>m r. times_pow5_13 n ds = Some (m, r) \<and> m < 13 \<and> big_ok r \<and> big_value r * 5 ^ m = big_value ds * 5 ^ n"
proof (induction n ds rule: times_pow5_13.induct)
  case (1 n ds)
  show ?case
  proof (cases "n \<ge> 13")
    case True
    note part = pow5_part [OF True "1.prems"(2)]
    have five: "unat (1220703125 :: u32) = 5 ^ 13"
      by simp
    obtain q where q: "TimesU32 1220703125 ds = Some q" "big_ok q" "big_value q = big_value ds * 5 ^ 13"
      using TimesU32_value [OF "1.prems"(1), of 1220703125] part(1) unfolding five by blast
    then have eq: "big_value q * 5 ^ (n - 13) = big_value ds * 5 ^ n"
      by (simp only: part(2) mult.assoc)
    then show ?thesis
      using "1.IH" [OF True q(1,2)] "1.prems"(2) True q(1) by (simp add: times_pow5_13.simps [of n ds])
  qed (use 1 in \<open>simp add: times_pow5_13.simps\<close>)
qed

lemma kPow5_power:
  assumes "0 < m" "m < 13" shows "unat (kPow5 ! (m - 1)) = 5 ^ m"
proof -
  have "list_all (\<lambda>m. unat (kPow5 ! (m - 1)) = 5 ^ m) [1..<13]"
    by (simp add: upt_rec kPow5_def)
  then show ?thesis
    using assms list_all_uptD [of _ 1 13 m] by (simp add: Suc_le_eq)
qed

lemma MultiplyPow5_value:
  assumes "big_ok ds" "big_value ds * 5 ^ n < big_room"
  shows "\<exists>r. MultiplyPow5 n ds = Some r \<and> big_ok r \<and> big_value r = big_value ds * 5 ^ n"
proof -
  obtain i a where a: "times_pow5_27 n ds = Some (i, a)" "big_ok a" "big_value a * 5 ^ i = big_value ds * 5 ^ n"
    using times_pow5_27_value [OF assms] by blast
  obtain j b where b: "times_pow5_13 i a = Some (j, b)" "j < 13" "big_ok b" "big_value b * 5 ^ j = big_value ds * 5 ^ n"
    using times_pow5_13_value [OF a(2), of i] a(3) assms(2) by auto
  show ?thesis
  proof (cases "j = 0")
    case True
    then show ?thesis
      using a b assms(1) by (auto simp: MultiplyPow5_def)
  next
    case False
    then show ?thesis
      using a b assms TimesU32_value [OF b(3), of "kPow5 ! (j - 1)"] kPow5_power [of j] by (auto simp: MultiplyPow5_def)
  qed
qed

subsection \<open>Comparison\<close>

lemma leading_digit:
  assumes "v < n" "w < n" "x < (y :: nat)" shows "v + n * x < w + n * y"
proof -
  have "v + n * x < n * (x + 1)"
    using assms(1) by simp
  also have "\<dots> \<le> n * y"
    using assms(3) by (intro mult_le_mono2) simp
  finally show ?thesis
    by simp
qed

lemma compare_digits_value:
  "length xs = length ys \<Longrightarrow> compare_digits xs ys
    = (if big_value (rev xs) < big_value (rev ys) then - 1 else if big_value (rev xs) = big_value (rev ys) then 0 else 1)"
proof (induction xs ys rule: compare_digits.induct)
  case (1 a as b bs)
  have less: "big_value (rev as) < 2 ^ (64 * length as)" "big_value (rev bs) < 2 ^ (64 * length as)"
    using big_value_less [of "rev as"] big_value_less [of "rev bs"] "1.prems" by simp_all
  show ?case
  proof (cases "a = b")
    case True
    then show ?thesis
      using 1 by (simp add: big_value_append)
  next
    case False
    then consider "unat a < unat b" | "unat b < unat a"
      by (metis linorder_neqE_nat word_unat_eq_iff)
    then show ?thesis
      using leading_digit [OF less, of "unat a" "unat b"] leading_digit [OF less(2,1), of "unat b" "unat a"] False "1.prems"
      by cases (simp_all add: big_value_append word_less_nat_alt)
  qed
qed simp_all

lemma Compare_value:
  assumes "big_ok a" "big_ok b"
  shows "Compare a b = (if big_value a < big_value b then - 1 else if big_value a = big_value b then 0 else 1)"
proof -
  have shorter: "big_value x < big_value y" if "length x < length y" "big_ok x" "big_ok y" for x y
  proof -
    have "big_value x < 2 ^ (64 * length x)"
      by (rule big_value_less)
    also have "\<dots> \<le> 2 ^ (64 * (length y - 1))"
      using that(1) by (intro power_increasing) auto
    also have "\<dots> \<le> big_value y"
    proof (rule big_value_lower)
      show "y \<noteq> []" "last y \<noteq> 0"
        using that by (cases x; auto simp: big_ok_def)+
    qed
    finally show ?thesis .
  qed
  show ?thesis
    using compare_digits_value [of "rev a" "rev b"] shorter [of a b] shorter [of b a] assms
    by (auto simp: Compare_def)
qed

subsection \<open>Differences\<close>

text \<open>The borrow is lost when it meets a digit of all ones.\<close>

lemma difference_step:
  fixes a b borrow :: u64
  assumes "unat borrow + unat b < 2 ^ 64"
  shows "unat (a - borrow - b) + unat b + unat borrow = unat a + (if a - borrow - b > a then 2 ^ 64 else 0)"
proof -
  define e where "e = borrow + b"
  have e: "unat e = unat borrow + unat b" "a - borrow - b = a - e"
    using assms by (simp_all add: e_def unat_no_overflow)
  show ?thesis
  proof (cases "unat e \<le> unat a")
    case True
    then have "unat (a - e) = unat a - unat e"
      by (simp add: unat_sub word_le_nat_alt)
    then show ?thesis
      using True by (simp add: e word_less_nat_alt)
  next
    case False
    then have "unat (a - e) = 2 ^ 64 + unat a - unat e"
      by (simp add: unat_sub_if')
    then show ?thesis
      using False u64_bound [of e] by (simp add: e word_less_nat_alt)
  qed
qed

lemma difference_value:
  "\<lbrakk>length bs \<le> length as; unat borrow \<le> 1; 0xFFFFFFFFFFFFFFFF \<notin> set bs\<rbrakk> \<Longrightarrow>
    length (difference_digits borrow as bs) = length as
    \<and> (\<exists>c. big_value (difference_digits borrow as bs) + big_value bs + unat borrow = big_value as + c * 2 ^ (64 * length as))"
proof (induction borrow as bs rule: difference_digits.induct)
  case (2 borrow a as bs)
  define b where "b = (case bs of [] \<Rightarrow> 0 | b # _ \<Rightarrow> b)"
  define d where "d = a - borrow - b"
  have digits: "difference_digits borrow (a # as) bs = d # difference_digits (if d > a then 1 else 0) as (tl bs)"
    by (cases bs) (simp_all add: Let_def b_def d_def)
  have "b \<noteq> 0xFFFFFFFFFFFFFFFF"
    using "2.prems"(3) by (cases bs) (auto simp: b_def)
  then have "unat b \<noteq> 2 ^ 64 - 1"
    by (auto simp: word_unat_eq_iff)
  then have step: "unat d + unat b + unat borrow = unat a + (if d > a then 2 ^ 64 else 0)"
    unfolding d_def using u64_bound [of b] "2.prems"(2) by (intro difference_step) simp
  have bs: "big_value bs = unat b + 2 ^ 64 * big_value (tl bs)"
    by (cases bs) (simp_all add: b_def)
  define r where "r = difference_digits (if d > a then 1 else 0) as (tl bs)"
  have "d = (case bs of [] \<Rightarrow> a - borrow | b # _ \<Rightarrow> a - borrow - b)"
    by (cases bs) (simp_all add: b_def d_def)
  moreover have "length (tl bs) \<le> length as" "unat (if d > a then 1 else 0 :: u64) \<le> 1" "0xFFFFFFFFFFFFFFFF \<notin> set (tl bs)"
    using "2.prems" by (cases bs; auto)+
  ultimately obtain c where c: "length r = length as"
    "big_value r + big_value (tl bs) + unat (if d > a then 1 else 0 :: u64) = big_value as + c * 2 ^ (64 * length as)"
    using "2.IH" [OF refl, of d] unfolding r_def by blast
  have "big_value (d # r) + big_value bs + unat borrow
      = unat a + 2 ^ 64 * (big_value r + big_value (tl bs) + unat (if d > a then 1 else 0 :: u64))"
    using step by (simp add: bs algebra_simps)
  also have "\<dots> = big_value (a # as) + c * 2 ^ (64 * length (a # as))"
    unfolding c(2) by (simp add: power_add algebra_simps)
  finally show ?case
    unfolding digits r_def [symmetric] using c(1) by auto
qed simp

lemma big_value_zero: "\<forall>d\<in>set ds. d = 0 \<Longrightarrow> big_value ds = 0"
  by (induction ds) auto

text \<open>The digits up to the last one that is not zero.\<close>

lemma digit_count_value:
  assumes "big_value ds > 0"
  shows "digit_count n ds \<le> length ds" "big_value (take (digit_count n ds) ds) = big_value ds"
    "take (digit_count n ds) ds \<noteq> []" "last (take (digit_count n ds) ds) \<noteq> 0"
proof -
  define high where "high = takeWhile (\<lambda>d. d = 0) (rev ds)"
  define low where "low = dropWhile (\<lambda>d. d = 0) (rev ds)"
  have ds: "ds = rev low @ rev high"
    unfolding high_def low_def by (metis rev_append rev_rev_ident takeWhile_dropWhile_id)
  have zeros: "\<forall>d\<in>set (rev high). d = 0"
    by (auto simp: high_def dest: set_takeWhileD)
  have val: "big_value ds = big_value (rev low)"
    by (subst ds) (simp add: big_value_append big_value_zero [OF zeros])
  then have low: "low \<noteq> []"
    using assms by auto
  then have "hd low \<noteq> 0"
    unfolding low_def by (rule hd_dropWhile)
  moreover have "digit_count n ds = length low"
    using low by (simp add: digit_count_def flip: low_def)
  moreover have "take (length low) ds = rev low"
    by (subst ds) simp
  ultimately show "digit_count n ds \<le> length ds" "big_value (take (digit_count n ds) ds) = big_value ds"
    "take (digit_count n ds) ds \<noteq> []" "last (take (digit_count n ds) ds) \<noteq> 0"
    using low val by (simp_all add: last_rev) (subst ds, simp)
qed

lemma Difference_value:
  assumes "big_ok x" "big_ok y" "big_value x \<noteq> big_value y"
    "0xFFFFFFFFFFFFFFFF \<notin> set (if big_value x < big_value y then x else y)"
  shows "\<exists>r. Difference x y out = Some (big_value x < big_value y, r) \<and> big_ok r
    \<and> big_value r = (if big_value x < big_value y then big_value y - big_value x else big_value x - big_value y)"
proof -
  have main: "\<exists>r. take (digit_count n (difference_digits 0 a b)) (difference_digits 0 a b @ zs) = r
      \<and> big_ok r \<and> big_value r = big_value a - big_value b"
    if ab: "big_ok a" "big_ok b" "big_value b < big_value a" "0xFFFFFFFFFFFFFFFF \<notin> set b" for a b n zs
  proof -
    define ds where "ds = difference_digits 0 a b"
    have "length b \<le> length a"
    proof (rule ccontr)
      assume "\<not> length b \<le> length a"
      then have "big_value a < big_value b"
        using Compare_value [OF ab(1,2)] by (auto simp: Compare_def split: if_splits)
      with ab(3) show False
        by simp
    qed
    then obtain c where ds: "length ds = length a" "big_value ds + big_value b = big_value a + c * 2 ^ (64 * length a)"
      using difference_value [of b a 0] ab(4) by (auto simp: ds_def)
    have "c = 0"
    proof (rule ccontr)
      assume "c \<noteq> 0"
      then have "2 ^ (64 * length a) \<le> c * 2 ^ (64 * length a)"
        by simp
      then show False
        using ds(2) big_value_less [of ds, unfolded ds(1)] ab(3) by linarith
    qed
    then have val: "big_value ds = big_value a - big_value b" "big_value ds > 0"
      using ds(2) ab(3) by simp_all
    show ?thesis
      using digit_count_value [OF val(2), of n] val(1) ds(1) ab(1) by (auto simp: big_ok_def simp flip: ds_def)
  qed
  show ?thesis
  proof (cases "big_value x < big_value y")
    case True
    then show ?thesis
      using main [OF assms(2,1)] assms(4) Compare_value [OF assms(1,2)] by (simp add: Difference_def Let_def)
  next
    case False
    then show ?thesis
      using main [OF assms(1,2)] assms(3,4) Compare_value [OF assms(1,2)] by (simp add: Difference_def Let_def)
  qed
qed

text \<open>The borrow lost: \<open>2 ^ 128 - (2 ^ 128 - 2 ^ 64 + 1)\<close> is \<open>2 ^ 64 - 1\<close>, the result is \<open>2 ^ 128\<close> more.\<close>

lemma difference_wrong:
  "Difference [0, 0, 1] [1, 0xFFFFFFFFFFFFFFFF] [0] = Some (False, [0xFFFFFFFFFFFFFFFF, 0, 1])"
  by code_simp

subsection \<open>Decimal digits\<close>

lemma parse_digits_value:
  "list_all is_digit cs \<Longrightarrow> digits_value (unat r) cs < 2 ^ 64 \<Longrightarrow> \<exists>u. parse_digits r cs = Some u \<and> unat u = digits_value (unat r) cs"
proof (induction r cs rule: parse_digits.induct)
  case (2 r c cs)
  have "unat r * 10 + unat (c - 48) < 2 ^ LENGTH(64)"
    using "2.prems" digits_value_ge [of "unat r * 10 + unat (c - 48)" cs] by simp
  then have "unat (r * 10 + ucast (c - 48)) = unat r * 10 + unat (c - 48)"
    by (rule unat_step)
  then show ?case
    using 2 by (auto simp: is_digit_def)
qed simp

lemma digits_value_bound: "list_all is_digit cs \<Longrightarrow> digits_value a cs < (a + 1) * 10 ^ length cs"
proof (induction cs arbitrary: a)
  case (Cons c cs)
  have "unat (c - 48) \<le> 9"
    using Cons.prems digit_unat [of c] by simp
  then have "(a * 10 + unat (c - 48) + 1) * 10 ^ length cs \<le> (10 * (a + 1)) * 10 ^ length cs"
    by (intro mult_le_mono1) simp
  then have "digits_value (a * 10 + unat (c - 48)) cs < (10 * (a + 1)) * 10 ^ length cs"
    using Cons.IH [of "a * 10 + unat (c - 48)"] Cons.prems by simp
  then show ?case
    by (simp add: algebra_simps)
qed simp

lemma digits_value_shift: "digits_value a cs = a * 10 ^ length cs + digits_value 0 cs"
proof (induction cs arbitrary: a)
  case (Cons c cs)
  show ?case
    using Cons [of "a * 10 + unat (c - 48)"] Cons [of "unat (c - 48)"] by (simp add: algebra_simps)
qed simp

lemma AppendDecimal64_value:
  assumes "big_ok ds" "list_all is_digit cs" "length cs \<le> 19" "digits_value (big_value ds) cs < big_room"
  shows "\<exists>r. AppendDecimal64 cs ds = Some r \<and> big_ok r \<and> big_value r = digits_value (big_value ds) cs"
proof -
  have "digits_value 0 cs < 10 ^ length cs"
    using digits_value_bound [OF assms(2), of 0] by simp
  also have "\<dots> \<le> 10 ^ 19"
    using assms(3) by (rule power_increasing) simp
  finally have "digits_value 0 cs < 2 ^ 64"
    by simp
  then obtain u where u: "ParseUint64 cs = Some u" "unat u = digits_value 0 cs"
    using parse_digits_value [OF assms(2), of 0] by (auto simp: ParseUint64_def)
  show ?thesis
  proof (cases "IsZero ds")
    case True
    then show ?thesis
      using u by (auto simp: AppendDecimal64_def IsZero_def big_one)
  next
    case False
    have v: "digits_value (big_value ds) cs = big_value ds * 5 ^ length cs * 2 ^ length cs + unat u"
      using u(2) digits_value_shift [of "big_value ds" cs] by (simp flip: power_mult_distrib mult.assoc)
    then have room: "big_value ds * 5 ^ length cs * 2 ^ length cs < big_room"
      using assms(4) by simp
    have "big_value ds * 5 ^ length cs \<le> big_value ds * 5 ^ length cs * 2 ^ length cs"
      by simp
    then have "big_value ds * 5 ^ length cs < big_room"
      using room by (rule le_less_trans)
    then obtain a where a: "MultiplyPow5 (length cs) ds = Some a" "big_ok a" "big_value a = big_value ds * 5 ^ length cs"
      using MultiplyPow5_value [OF assms(1)] by blast
    obtain b where b: "ShiftLeft (length cs) a = Some b" "big_ok b" "big_value b = big_value a * 2 ^ length cs"
      using ShiftLeft_value [OF a(2), of "length cs"] room a(3) by auto
    show ?thesis
      using PlusU_value [OF b(2), of u] a b u(1) v assms(4) False by (simp add: AppendDecimal64_def)
  qed
qed

lemma append_decimals_value:
  "big_ok ds \<Longrightarrow> list_all is_digit cs \<Longrightarrow> digits_value (big_value ds) cs < big_room \<Longrightarrow>
    \<exists>r. append_decimals cs ds = Some r \<and> big_ok r \<and> big_value r = digits_value (big_value ds) cs"
proof (induction cs ds rule: append_decimals.induct)
  case (1 cs ds)
  show ?case
  proof (cases "length cs \<ge> 19")
    case True
    have split: "digits_value (big_value ds) cs = digits_value (digits_value (big_value ds) (take 19 cs)) (drop 19 cs)"
      by (metis append_take_drop_id digits_value_append)
    have digits: "list_all is_digit (take 19 cs)" "list_all is_digit (drop 19 cs)"
      using "1.prems"(2) by (metis append_take_drop_id list_all_append)+
    have "digits_value (big_value ds) (take 19 cs) < big_room"
      using "1.prems"(3) digits_value_ge [of _ "drop 19 cs"] unfolding split by (rule le_less_trans [rotated])
    then obtain q where q: "AppendDecimal64 (take 19 cs) ds = Some q" "big_ok q"
      "big_value q = digits_value (big_value ds) (take 19 cs)"
      using AppendDecimal64_value [OF "1.prems"(1) digits(1)] by auto
    show ?thesis
      using "1.IH" [OF True q(1,2) digits(2)] "1.prems"(3) q True by (simp add: append_decimals.simps [of cs ds] split)
  next
    case False
    then show ?thesis
      using "1.prems" AppendDecimal64_value [of ds cs] by (cases "cs = []") (auto simp: append_decimals.simps)
  qed
qed

lemma BigInteger_of_value:
  assumes "list_all is_digit cs" "cs \<noteq> []" "digits_value 0 cs < big_room"
  shows "\<exists>r. BigInteger_of cs = Some r \<and> big_ok r \<and> big_value r = digits_value 0 cs"
  using append_decimals_value [of "[0]" cs] assms by (simp add: BigInteger_of_def big_one)

end
