(* ===== verification/JsonStrtod.thy ===== *)
theory JsonStrtod
  imports JsonBigArith Complex_Main
begin

section \<open>rapidjson: exact rounding of decimals\<close>

text \<open>
  \<open>src/battle/3rd/rapidjson/internal/ieee754.h\<close> and the part of \<open>internal/strtod.h\<close> that decides with
  big integers which double is nearest to a decimal: the bits of a double, \<open>CheckWithinHalfULP\<close> and
  \<open>StrtodBigInteger\<close>. A double is its 64 bits. Nothing stands for a failed assertion. The first
  approximation comes from \<open>StrtodDiyFp\<close>, which is not modelled.
\<close>

unbundle bit_operations_syntax

subsection \<open>The bits of a double\<close>

definition Sign :: "u64 \<Rightarrow> bool" where
  "Sign u \<longleftrightarrow> u AND 0x8000000000000000 \<noteq> 0"

definition Significand :: "u64 \<Rightarrow> u64" where
  "Significand u = u AND 0x000FFFFFFFFFFFFF"

definition Exponent :: "u64 \<Rightarrow> int" where
  "Exponent u = uint (drop_bit 52 (u AND 0x7FF0000000000000)) - 0x3FF"

definition IsNormal :: "u64 \<Rightarrow> bool" where
  "IsNormal u \<longleftrightarrow> u AND 0x7FF0000000000000 \<noteq> 0 \<or> Significand u = 0"

definition IntegerSignificand :: "u64 \<Rightarrow> u64" where
  "IntegerSignificand u = (if IsNormal u then Significand u OR 0x0010000000000000 else Significand u)"

definition IntegerExponent :: "u64 \<Rightarrow> int" where
  "IntegerExponent u = (if IsNormal u then Exponent u else 1 - 0x3FF) - 52"

definition NextPositiveDouble :: "u64 \<Rightarrow> u64 option" where
  "NextPositiveDouble u = (if Sign u then None else Some (u + 1))"

subsection \<open>Comparing with half a unit in the last place\<close>

definition Min3 :: "int \<Rightarrow> int \<Rightarrow> int \<Rightarrow> int" where
  "Min3 a b c = (let m = a; m = (if m > b then b else m) in if m > c then c else m)"

definition scale_big :: "int \<Rightarrow> int \<Rightarrow> big \<Rightarrow> big option" where
  "scale_big exp5 exp2 ds = Option.bind (MultiplyPow5 (nat exp5) ds) (ShiftLeft (nat exp2))"

text \<open>The decimal, the approximation and half its unit, over a common factor.\<close>

definition scaled_numbers :: "u64 \<Rightarrow> big \<Rightarrow> int \<Rightarrow> (big \<times> big \<times> big) option" where
  "scaled_numbers b d dExp =
     (let bInt = IntegerSignificand b; bExp = IntegerExponent b; hExp = bExp - 1;
          (dS_Exp2, dS_Exp5, bS_Exp2, bS_Exp5, hS_Exp2, hS_Exp5) =
            (if dExp \<ge> 0 then (dExp, dExp, 0, 0, 0, 0) else (0, 0, - dExp, - dExp, - dExp, - dExp));
          (dS_Exp2, bS_Exp2, hS_Exp2) =
            (if bExp \<ge> 0 then (dS_Exp2, bS_Exp2 + bExp, hS_Exp2) else (dS_Exp2 - bExp, bS_Exp2, hS_Exp2 - bExp));
          (dS_Exp2, bS_Exp2, hS_Exp2) =
            (if hExp \<ge> 0 then (dS_Exp2, bS_Exp2, hS_Exp2 + hExp) else (dS_Exp2 - hExp, bS_Exp2 - hExp, hS_Exp2));
          common_Exp2 = Min3 dS_Exp2 bS_Exp2 hS_Exp2
      in Option.bind (scale_big dS_Exp5 (dS_Exp2 - common_Exp2) d) (\<lambda>dS.
         Option.bind (scale_big bS_Exp5 (bS_Exp2 - common_Exp2) [bInt]) (\<lambda>bS.
         Option.bind (scale_big hS_Exp5 (hS_Exp2 - common_Exp2) [1]) (\<lambda>hS. Some (dS, bS, hS)))))"

definition CheckWithinHalfULP :: "u64 \<Rightarrow> big \<Rightarrow> int \<Rightarrow> int option" where
  "CheckWithinHalfULP b d dExp =
     Option.bind (scaled_numbers b d dExp) (\<lambda>(dS, bS, hS).
     map_option (\<lambda>(_, delta). Compare delta hS) (Difference dS bS [0]))"

definition StrtodBigInteger :: "u64 \<Rightarrow> bytes \<Rightarrow> int \<Rightarrow> u64 option" where
  "StrtodBigInteger approx decimals dExp =
     Option.bind (BigInteger_of decimals) (\<lambda>dInt.
     Option.bind (CheckWithinHalfULP approx dInt dExp) (\<lambda>cmp.
       if cmp < 0 then Some approx
       else if cmp = 0 then if Significand approx AND 1 \<noteq> 0 then NextPositiveDouble approx else Some approx
       else NextPositiveDouble approx))"

subsection \<open>The value of a double\<close>

definition double_value :: "u64 \<Rightarrow> real" where
  "double_value u = real (unat (IntegerSignificand u)) * 2 powi IntegerExponent u"

text \<open>The fields of a positive double.\<close>

lemma unat_Significand: "unat (Significand u) = unat u mod 2 ^ 52"
proof -
  have "0x000FFFFFFFFFFFFF = (mask 52 :: u64)"
    by (simp add: mask_eq_exp_minus_1)
  then have "Significand u = take_bit 52 u"
    unfolding Significand_def by (simp only: take_bit_eq_mask)
  then show ?thesis
    by (simp add: unsigned_take_bit_eq) (simp add: take_bit_eq_mod)
qed

lemma unat_exponent_field:
  fixes u :: u64
  assumes "unat u < 2 ^ 63"
  shows "unat (u AND 0x7FF0000000000000) = 2 ^ 52 * (unat u div 2 ^ 52)"
proof -
  have field: "0x7FF0000000000000 = (push_bit 52 (mask 11) :: u64)"
    by (simp add: mask_eq_exp_minus_1)
  have eq: "u AND 0x7FF0000000000000 = push_bit 52 (take_bit 11 (drop_bit 52 u))"
    unfolding field by (rule bit_word_eqI) (auto simp: bit_simps)
  have less: "unat u div 2 ^ 52 < 2 ^ 11"
    using assms by (simp add: div_less_iff_less_mult)
  then have "unat (take_bit 11 (drop_bit 52 u)) = unat u div 2 ^ 52"
    by (simp only: unsigned_take_bit_eq unat_drop take_bit_nat_eq_self)
  then show ?thesis
    unfolding eq using unat_push [of 52 "take_bit 11 (drop_bit 52 u)"] less by simp
qed

lemma fields:
  assumes "0 < unat u" "unat u < 2 ^ 63"
  defines "e \<equiv> unat u div 2 ^ 52" and "m \<equiv> unat u mod 2 ^ 52"
  shows "unat (IntegerSignificand u) = (if e = 0 then m else 2 ^ 52 + m)"
    "IntegerExponent u = (if e = 0 then - 1074 else int e - 1075)"
proof -
  note field = unat_exponent_field [OF assms(2), folded e_def]
  have "e \<noteq> 0 \<or> m \<noteq> 0"
    using assms(1) mult_div_mod_eq [of "2 ^ 52" "unat u"] by (auto simp: e_def m_def)
  then have normal: "IsNormal u \<longleftrightarrow> e \<noteq> 0"
    using field unat_Significand [of u] unfolding m_def [symmetric] by (auto simp: IsNormal_def word_unat_eq_iff)
  have "unat (Significand u) < 2 ^ 52"
    by (simp add: unat_Significand)
  then have "0x0010000000000000 OR Significand u = 0x0010000000000000 + Significand u"
    by (intro or_add_word [of 52]) (simp_all add: take_bit_eq_mod word_unat_eq_iff)
  moreover have "unat (0x0010000000000000 + Significand u) = 2 ^ 52 + m"
    by (simp add: unat_no_overflow unat_Significand m_def)
  ultimately show "unat (IntegerSignificand u) = (if e = 0 then m else 2 ^ 52 + m)"
    using normal by (simp add: IntegerSignificand_def or.commute unat_Significand m_def)
  have "unat (drop_bit 52 (u AND 0x7FF0000000000000)) = e"
    using field by (simp only: unat_drop) simp
  then have "uint (drop_bit 52 (u AND 0x7FF0000000000000)) = int e"
    by (metis of_nat_unat uint_nat)
  then show "IntegerExponent u = (if e = 0 then - 1074 else int e - 1075)"
    using normal by (simp add: IntegerExponent_def Exponent_def)
qed

text \<open>The next double is one unit in the last place further.\<close>

definition ulp :: "u64 \<Rightarrow> real" where
  "ulp u = 2 powi IntegerExponent u"

lemma double_value_fields:
  assumes "0 < unat u" "unat u < 2 ^ 63" "unat u = 2 ^ 52 * e + m" "m < 2 ^ 52"
  shows "double_value u = real (if e = 0 then m else 2 ^ 52 + m) * 2 powi (if e = 0 then - 1074 else int e - 1075)"
    "ulp u = 2 powi (if e = 0 then - 1074 else int e - 1075)"
proof -
  have "unat u div 2 ^ 52 = e" "unat u mod 2 ^ 52 = m"
    using assms(3,4) by simp_all
  then show "double_value u = real (if e = 0 then m else 2 ^ 52 + m) * 2 powi (if e = 0 then - 1074 else int e - 1075)"
    "ulp u = 2 powi (if e = 0 then - 1074 else int e - 1075)"
    using fields [OF assms(1,2)] by (simp_all add: double_value_def ulp_def)
qed

lemma double_value_next:
  assumes "0 < unat u" "unat u + 1 < 2 ^ 63"
  shows "double_value (u + 1) = double_value u + ulp u"
proof -
  have next_u: "unat (u + 1) = unat u + 1"
    using assms(2) by (simp add: unat_no_overflow)
  define e where "e = unat u div 2 ^ 52"
  define m where "m = unat u mod 2 ^ 52"
  have u: "unat u = 2 ^ 52 * e + m" "m < 2 ^ 52"
    by (simp_all add: e_def m_def)
  have less: "unat u < 2 ^ 63"
    using assms(2) by simp
  note here = double_value_fields [OF assms(1) less u]
  show ?thesis
  proof (cases "m + 1 < 2 ^ 52")
    case True
    then show ?thesis
      using double_value_fields [of "u + 1" e "m + 1"] here next_u u assms(2) by (simp add: algebra_simps)
  next
    case False
    then have m: "m = 2 ^ 52 - 1"
      using u(2) by simp
    then have "unat (u + 1) = 2 ^ 52 * (e + 1) + 0"
      using next_u u(1) by simp
    then have there: "double_value (u + 1) = real (2 ^ 52) * 2 powi (int (e + 1) - 1075)"
      using double_value_fields [of "u + 1" "e + 1" 0] next_u assms(2) by simp
    show ?thesis
    proof (cases "e = 0")
      case True
      then show ?thesis
        using here there m by simp
    next
      case False
      have "(2::real) powi (int (e + 1) - 1075) = 2 powi (int e - 1075 + 1)"
        by (simp add: algebra_simps)
      also have "\<dots> = 2 * 2 powi (int e - 1075)"
        by (subst power_int_add_1) simp_all
      finally show ?thesis
        using here there m False by simp
    qed
  qed
qed

subsection \<open>Scaling\<close>

lemma scale_big_value:
  assumes "big_ok ds" "big_value ds < 2 ^ 2600" "0 \<le> exp5" "exp5 \<le> 2048" "0 \<le> exp2" "exp2 \<le> 8192"
  shows "\<exists>r. scale_big exp5 exp2 ds = Some r \<and> big_ok r \<and> real (big_value r) = real (big_value ds) * 5 powi exp5 * 2 powi exp2"
proof -
  define i where "i = nat exp5"
  define j where "j = nat exp2"
  have "(5::nat) ^ i \<le> 8 ^ i"
    by (rule power_mono) simp_all
  also have "(8::nat) ^ i = 2 ^ (3 * i)"
    by (simp add: power_mult)
  also have "\<dots> \<le> 2 ^ 6144"
    using assms(4) by (intro power_increasing) (simp_all add: i_def)
  finally have five: "(5::nat) ^ i \<le> 2 ^ 6144" .
  have two: "(2::nat) ^ j \<le> 2 ^ 8192"
    using assms(6) by (intro power_increasing) (simp_all add: j_def)
  have "big_value ds * 5 ^ i \<le> 2 ^ 2600 * 2 ^ 6144"
    using assms(2) five by (intro mult_le_mono) simp_all
  moreover from this two have "big_value ds * 5 ^ i * 2 ^ j \<le> 2 ^ 2600 * 2 ^ 6144 * 2 ^ 8192"
    by (rule mult_le_mono)
  moreover have "(2::nat) ^ 2600 * 2 ^ 6144 < big_room" "(2::nat) ^ 2600 * 2 ^ 6144 * 2 ^ 8192 < big_room"
    unfolding big_room_def kCapacity_def power_add [symmetric] by (rule power_strict_increasing; simp)+
  ultimately have room: "big_value ds * 5 ^ i < big_room" "big_value ds * 5 ^ i * 2 ^ j < big_room"
    by (blast intro: le_less_trans)+
  obtain a where a: "MultiplyPow5 i ds = Some a" "big_ok a" "big_value a = big_value ds * 5 ^ i"
    using MultiplyPow5_value [OF assms(1) room(1)] by blast
  obtain r where "ShiftLeft j a = Some r" "big_ok r" "big_value r = big_value a * 2 ^ j"
    using ShiftLeft_value [OF a(2), of j] room(2) a(3) by auto
  then show ?thesis
    using a assms(3,5) by (auto simp: scale_big_def power_int_def i_def j_def)
qed

lemma ten_powi: "(10::real) powi z = 5 powi z * 2 powi z"
  using power_int_mult_distrib [of "5::real" 2 z] by simp

lemma scaled_numbers_value:
  assumes "big_ok d" "big_value d < 2 ^ 2600" "\<bar>dExp\<bar> \<le> 2048" "\<bar>IntegerExponent b\<bar> \<le> 2000"
  defines "bExp \<equiv> IntegerExponent b"
  shows "\<exists>dS bS hS F. scaled_numbers b d dExp = Some (dS, bS, hS) \<and> big_ok dS \<and> big_ok bS \<and> big_ok hS \<and> F > 0
    \<and> real (big_value dS) = real (big_value d) * 10 powi dExp * F
    \<and> real (big_value bS) = double_value b * F
    \<and> real (big_value hS) = 2 powi (bExp - 1) * F"
proof -
  define p q w where pqw: "p = max 0 (- dExp)" "q = max 0 (- bExp)" "w = max 0 (1 - bExp)"
  define c where "c = Min3 (dExp + p + q + w) (p + (bExp + q) + w) (p + q + (bExp - 1 + w))"
  define F :: real where "F = 10 powi p * 2 powi (q + w - c)"
  have t1: "(if dExp \<ge> 0 then (dExp, dExp, 0, 0, 0, 0) else (0, 0, - dExp, - dExp, - dExp, - dExp)) = (dExp + p, dExp + p, p, p, p, p)"
    by (simp add: pqw)
  have t2: "(if bExp \<ge> 0 then (x, y + bExp, z) else (x - bExp, y, z - bExp)) = (x + q, y + (bExp + q), z + q)" for x y z
    by (simp add: pqw)
  have t3: "(if bExp - 1 \<ge> 0 then (x, y, z + (bExp - 1)) else (x - (bExp - 1), y - (bExp - 1), z))
      = (x + w, y + w, z + (bExp - 1 + w))" for x y z
    by (simp add: pqw)
  have eq: "scaled_numbers b d dExp =
      Option.bind (scale_big (dExp + p) (dExp + p + q + w - c) d) (\<lambda>dS.
      Option.bind (scale_big p (p + (bExp + q) + w - c) [IntegerSignificand b]) (\<lambda>bS.
      Option.bind (scale_big p (p + q + (bExp - 1 + w) - c) [1]) (\<lambda>hS. Some (dS, bS, hS))))"
    unfolding scaled_numbers_def Let_def bExp_def [symmetric] t1 prod.case t2 t3 c_def ..
  have c: "c \<le> dExp + p + q + w" "c \<le> p + (bExp + q) + w" "c \<le> p + q + (bExp - 1 + w)" "0 \<le> c"
    unfolding c_def Min3_def Let_def pqw by (auto simp: max_def)
  have range: "0 \<le> p" "p \<le> 2048" "0 \<le> dExp + p" "dExp + p \<le> 2048" "0 \<le> q" "q \<le> 2000" "0 \<le> w" "w \<le> 2001" "bExp + q \<le> 2000" "bExp - 1 + w \<le> 2000"
    using assms(3,4) by (auto simp: pqw bExp_def max_def)
  have "unat (IntegerSignificand b) < 2 ^ 64"
    by (rule u64_bound)
  also have "(2::nat) ^ 64 < 2 ^ 2600"
    by (rule power_strict_increasing) simp_all
  finally have B: "big_value [IntegerSignificand b] < 2 ^ 2600"
    by simp
  have one: "big_value [1] < 2 ^ 2600"
    using one_less_power [of "2::nat" 2600] by simp
  obtain dS where dS: "scale_big (dExp + p) (dExp + p + q + w - c) d = Some dS" "big_ok dS"
    "real (big_value dS) = real (big_value d) * 5 powi (dExp + p) * 2 powi (dExp + p + q + w - c)"
    using scale_big_value [OF assms(1,2), of "dExp + p" "dExp + p + q + w - c"] c range by auto
  obtain bS where bS: "scale_big p (p + (bExp + q) + w - c) [IntegerSignificand b] = Some bS" "big_ok bS"
    "real (big_value bS) = real (unat (IntegerSignificand b)) * 5 powi p * 2 powi (p + (bExp + q) + w - c)"
    using scale_big_value [OF big_one(1) B, of p "p + (bExp + q) + w - c"] c range by auto
  obtain hS where hS: "scale_big p (p + q + (bExp - 1 + w) - c) [1] = Some hS" "big_ok hS"
    "real (big_value hS) = 5 powi p * 2 powi (p + q + (bExp - 1 + w) - c)"
    using scale_big_value [OF big_one(1) one, of p "p + q + (bExp - 1 + w) - c"] c range by auto
  have split: "(2::real) powi x = 2 powi y * (2 powi p * 2 powi (q + w - c))" if "x = y + p + (q + w - c)" for x y
    unfolding that by (simp add: power_int_add mult.assoc)
  have "(2::real) powi (dExp + p + q + w - c) = 2 powi dExp * (2 powi p * 2 powi (q + w - c))"
    "(2::real) powi (p + (bExp + q) + w - c) = 2 powi bExp * (2 powi p * 2 powi (q + w - c))"
    "(2::real) powi (p + q + (bExp - 1 + w) - c) = 2 powi (bExp - 1) * (2 powi p * 2 powi (q + w - c))"
    by (rule split; simp)+
  then have "real (big_value dS) = real (big_value d) * 10 powi dExp * F" "real (big_value bS) = double_value b * F"
    "real (big_value hS) = 2 powi (bExp - 1) * F"
    unfolding dS(3) bS(3) hS(3) F_def ten_powi double_value_def bExp_def [symmetric]
    by (simp_all add: power_int_add)
  moreover have "F > 0"
    by (simp add: F_def)
  ultimately show ?thesis
    using eq dS bS hS by (intro exI [of _ dS] exI [of _ bS] exI [of _ hS] exI [of _ F]) simp
qed

subsection \<open>Rounding\<close>

text \<open>The scaled numbers have no digit of all ones: then \<open>Difference\<close> loses no borrow.\<close>

definition borrow_safe :: "u64 \<Rightarrow> big \<Rightarrow> int \<Rightarrow> bool" where
  "borrow_safe b d dExp =
     (case scaled_numbers b d dExp of None \<Rightarrow> True
      | Some (dS, bS, hS) \<Rightarrow> 0xFFFFFFFFFFFFFFFF \<notin> set dS \<and> 0xFFFFFFFFFFFFFFFF \<notin> set bS)"

lemma CheckWithinHalfULP_value:
  assumes "big_ok d" "big_value d < 2 ^ 2600" "\<bar>dExp\<bar> \<le> 2048" "\<bar>IntegerExponent b\<bar> \<le> 2000" "borrow_safe b d dExp"
    "x = real (big_value d) * 10 powi dExp" "x \<noteq> double_value b"
  shows "CheckWithinHalfULP b d dExp = Some (if \<bar>x - double_value b\<bar> < ulp b / 2 then - 1
    else if \<bar>x - double_value b\<bar> = ulp b / 2 then 0 else 1)"
proof -
  obtain dS bS hS F where s: "scaled_numbers b d dExp = Some (dS, bS, hS)" "big_ok dS" "big_ok bS" "big_ok hS" "F > 0"
    and v: "real (big_value dS) = x * F" "real (big_value bS) = double_value b * F"
      "real (big_value hS) = 2 powi (IntegerExponent b - 1) * F"
    using scaled_numbers_value [OF assms(1-4)] assms(6) by auto
  have half: "2 powi (IntegerExponent b - 1) = ulp b / 2"
    by (simp add: ulp_def power_int_diff)
  have less: "big_value dS < big_value bS \<longleftrightarrow> x < double_value b"
    using v(1,2) s(5) by (metis mult_less_cancel_right_pos of_nat_less_iff)
  have "big_value dS \<noteq> big_value bS"
    using v(1,2) s(5) assms(7) by (metis mult_right_cancel less_irrefl)
  moreover have "0xFFFFFFFFFFFFFFFF \<notin> set (if big_value dS < big_value bS then dS else bS)"
    using assms(5) s(1) by (simp add: borrow_safe_def)
  ultimately obtain r where r: "Difference dS bS [0] = Some (big_value dS < big_value bS, r)" "big_ok r"
    "big_value r = (if big_value dS < big_value bS then big_value bS - big_value dS else big_value dS - big_value bS)"
    using Difference_value [OF s(2,3)] by blast
  have "real (big_value r) = \<bar>real (big_value dS) - real (big_value bS)\<bar>"
    by (simp add: r(3) of_nat_diff)
  also have "\<dots> = \<bar>x - double_value b\<bar> * F"
    using s(5) by (simp add: v(1,2) abs_mult flip: left_diff_distrib)
  finally have diff: "real (big_value r) = \<bar>x - double_value b\<bar> * F" .
  have "big_value r < big_value hS \<longleftrightarrow> \<bar>x - double_value b\<bar> < ulp b / 2"
    using diff v(3) s(5) unfolding half by (metis mult_less_cancel_right_pos of_nat_less_iff)
  moreover have "big_value r = big_value hS \<longleftrightarrow> \<bar>x - double_value b\<bar> = ulp b / 2"
    using diff v(3) s(5) unfolding half by (metis mult_right_cancel of_nat_eq_iff less_irrefl)
  ultimately show ?thesis
    using Compare_value [OF r(2) s(4)] s(1) r(1) by (simp add: CheckWithinHalfULP_def)
qed

lemma odd_significand: "Significand u AND 1 \<noteq> 0 \<longleftrightarrow> odd (unat u)"
proof -
  have "unat (Significand u AND 1) = unat (Significand u) mod 2"
    by (simp add: and_one_eq unat_mod)
  also have "\<dots> = unat u mod 2"
    by (simp only: unat_Significand) (simp add: mod_mod_cancel)
  finally show ?thesis
    by (simp add: word_unat_eq_iff odd_iff_mod_2_eq_one)
qed

text \<open>C19. The slow path of the exact parser rounds a decimal to the nearest double, ties to even. For every
  numeral of up to 768 digits with a decimal exponent (up to 2048 either way), and every positive
  finite double strictly below the decimal by less than one unit in its last place, comparing with
  big integers (digits appended 19 at a time, powers of 5 and 2, difference and comparison) fails
  no assertion and returns that double or the next one, within half a unit of the decimal, and
  with an even significand when the decimal is halfway; so the doubles between which the decimal
  lies are decided exactly. The hypothesis on the scaled numbers leaves out the digits of all ones
  with which \<open>Difference\<close> can lose a borrow (\<open>difference_wrong\<close>).\<close>

theorem decimal_rounded:
  assumes "list_all is_digit decimals" "decimals \<noteq> []" "length decimals \<le> 768" "\<bar>dExp\<bar> \<le> 2048"
    and "0 < unat approx" "unat approx < 0x7FF0000000000000"
    and "x = real (digits_value 0 decimals) * 10 powi dExp"
    and "double_value approx < x" "x < double_value approx + ulp approx"
    and "\<And>d. BigInteger_of decimals = Some d \<Longrightarrow> borrow_safe approx d dExp"
  shows "\<exists>r. StrtodBigInteger approx decimals dExp = Some r \<and> (r = approx \<or> r = approx + 1)
    \<and> \<bar>double_value r - x\<bar> \<le> ulp approx / 2 \<and> (\<bar>double_value r - x\<bar> = ulp approx / 2 \<longrightarrow> even (unat r))"
proof -
  have "digits_value 0 decimals < 10 ^ length decimals"
    using digits_value_bound [OF assms(1), of 0] by simp
  also have "(10::nat) ^ length decimals \<le> 10 ^ 768"
    using assms(3) by (rule power_increasing) simp
  also have "(10::nat) ^ 768 = (10 ^ 3) ^ 256"
    by (simp only: power_mult [symmetric]) simp
  also have "(10 ^ 3) ^ 256 \<le> (2 ^ 10 :: nat) ^ 256"
    by (rule power_mono) simp_all
  also have "(2 ^ 10 :: nat) ^ 256 < 2 ^ 2600"
    unfolding power_mult [symmetric] by (rule power_strict_increasing) simp_all
  finally have small: "digits_value 0 decimals < 2 ^ 2600" .
  moreover have "(2::nat) ^ 2600 < big_room"
    unfolding big_room_def kCapacity_def by (rule power_strict_increasing) simp_all
  ultimately obtain d where d: "BigInteger_of decimals = Some d" "big_ok d" "big_value d = digits_value 0 decimals"
    using BigInteger_of_value [OF assms(1,2)] by (auto dest: less_trans)
  have less: "unat approx + 1 < 2 ^ 63" "unat approx < 2 ^ 63"
    using assms(6) by simp_all
  have "unat approx div 2 ^ 52 < 2 ^ 11"
    using less(2) by (simp add: div_less_iff_less_mult)
  then have "\<bar>IntegerExponent approx\<bar> \<le> 2000"
    using fields(2) [OF assms(5) less(2)] by auto
  then have check: "CheckWithinHalfULP approx d dExp = Some (if \<bar>x - double_value approx\<bar> < ulp approx / 2 then - 1
      else if \<bar>x - double_value approx\<bar> = ulp approx / 2 then 0 else 1)"
    using d small assms(4,7,8) assms(10) [OF d(1)] by (intro CheckWithinHalfULP_value) simp_all
  have "approx AND 0x8000000000000000 = 0"
    using less(2) by (simp add: high_zero)
  then have up: "NextPositiveDouble approx = Some (approx + 1)" "double_value (approx + 1) = double_value approx + ulp approx"
    "unat (approx + 1) = unat approx + 1"
    using double_value_next [OF assms(5) less(1)] less(1) by (simp_all add: NextPositiveDouble_def Sign_def unat_no_overflow)
  have "\<bar>x - double_value approx\<bar> = x - double_value approx" "\<bar>double_value approx + ulp approx - x\<bar> = double_value approx + ulp approx - x"
    "\<bar>double_value approx - x\<bar> = x - double_value approx"
    using assms(8,9) by simp_all
  then show ?thesis
    using assms(8,9) check d(1) up odd_significand [of approx] by (auto simp: StrtodBigInteger_def field_simps)
qed

text \<open>\<open>2 ^ 53 + 1\<close>, halfway between two doubles.\<close>

definition halfway :: bytes where
  "halfway = [57, 48, 48, 55, 49, 57, 57, 50, 53, 52, 55, 52, 48, 57, 57, 51]"

lemma halfway_read: "BigInteger_of halfway = Some [9007199254740993]"
  by code_simp

lemma halfway_safe: "borrow_safe 0x4340000000000000 [9007199254740993] 0"
  by code_simp

theorem decimal_rounded_witness:
  "\<exists>r. StrtodBigInteger 0x4340000000000000 halfway 0 = Some r \<and> (r = 0x4340000000000000 \<or> r = 0x4340000000000000 + 1)
    \<and> \<bar>double_value r - 9007199254740993\<bar> \<le> ulp 0x4340000000000000 / 2
    \<and> (\<bar>double_value r - 9007199254740993\<bar> = ulp 0x4340000000000000 / 2 \<longrightarrow> even (unat r))"
proof (rule decimal_rounded)
  have v: "double_value 0x4340000000000000 = 9007199254740992" "ulp 0x4340000000000000 = 2"
    by (simp_all add: double_value_def ulp_def IntegerSignificand_def IntegerExponent_def IsNormal_def Exponent_def Significand_def)
  show "double_value 0x4340000000000000 < 9007199254740993" "9007199254740993 < double_value 0x4340000000000000 + ulp 0x4340000000000000"
    by (simp_all add: v)
qed (simp_all add: halfway_read halfway_safe, simp_all add: halfway_def is_digit_def)

text \<open>
  Zero is taken for a normal number, with the hidden bit: every decimal below the smallest double is
  far from it, and would be rounded up from it.
\<close>

lemma zero_rounded_up:
  assumes "big_ok d" "big_value d < 2 ^ 2600" "\<bar>dExp\<bar> \<le> 2048" "borrow_safe 0 d dExp"
    "real (big_value d) * 10 powi dExp < 2 powi (- 1074)"
  shows "CheckWithinHalfULP 0 d dExp = Some 1"
proof -
  define y :: real where "y = 2 powi (- 1076)"
  have y: "y > 0" "2 powi (- 1074) = 4 * y" "2 powi (- 1075) = 2 * y"
    using power_int_add [of "2::real" 2 "- 1076"] power_int_add [of "2::real" 1 "- 1076"] by (simp_all add: y_def)
  have e: "IntegerExponent 0 = - 1075"
    by (simp add: IntegerExponent_def IsNormal_def Exponent_def Significand_def)
  have v: "double_value 0 = 2 ^ 53 * y" "ulp 0 = 2 * y"
    by (simp_all add: double_value_def ulp_def e y_def IntegerSignificand_def IsNormal_def Significand_def)
  then have "\<bar>real (big_value d) * 10 powi dExp - double_value 0\<bar> > ulp 0 / 2"
    using assms(5) y by simp
  moreover have "real (big_value d) * 10 powi dExp \<noteq> double_value 0"
    using assms(5) y v by auto
  ultimately show ?thesis
    using CheckWithinHalfULP_value [OF assms(1-3) _ assms(4) refl] by (simp add: e)
qed

end
