(* ===== verification/Lobby.thy ===== *)
theory Lobby
  imports BattleRoomManager
begin

section \<open>The lobby the room manager implements\<close>

text \<open>
  What \<open>battle/BattleRoomManager.cpp\<close> promises the server, without worlds, player slots and
  containers: which battles are open, with how many seats, and who sits where. Every call of the
  manager is one step of this lobby or none (\<open>lobby_sim\<close>), so what holds of all paths of the lobby
  holds of the manager.
\<close>

record lobby =
  open_rooms :: "u32 \<rightharpoonup> nat"
  seat_of :: "u32 \<rightharpoonup> u32"

definition empty_lobby :: lobby where
  "empty_lobby = \<lparr>open_rooms = Map.empty, seat_of = Map.empty\<rparr>"

definition seated_in :: "u32 \<Rightarrow> lobby \<Rightarrow> u32 set" where
  "seated_in k l = {sid. seat_of l sid = Some k}"

datatype lobby_act = Idle | Open u32 nat | Enter u32 u32 | Leave u32

text \<open>The steps of a lobby for at most \<open>R\<close> rooms and \<open>S\<close> sessions.\<close>

inductive lobby_step :: "nat \<Rightarrow> nat \<Rightarrow> lobby \<Rightarrow> lobby_act \<Rightarrow> lobby \<Rightarrow> bool" for R S where
  idle: "lobby_step R S l Idle l"
| opens: "k \<noteq> 0 \<Longrightarrow> open_rooms l k = None \<Longrightarrow> card (dom (open_rooms l)) < R \<Longrightarrow>
    lobby_step R S l (Open k n) (l\<lparr>open_rooms := (open_rooms l)(k \<mapsto> n)\<rparr>)"
| enters: "open_rooms l k = Some n \<Longrightarrow> seat_of l sid = None \<Longrightarrow> card (dom (seat_of l)) < S \<Longrightarrow>
    card (seated_in k l) < n \<Longrightarrow> lobby_step R S l (Enter sid k) (l\<lparr>seat_of := (seat_of l)(sid \<mapsto> k)\<rparr>)"
| leaves: "seat_of l sid = Some k \<Longrightarrow> seated_in k l \<noteq> {sid} \<Longrightarrow>
    lobby_step R S l (Leave sid) (l\<lparr>seat_of := (seat_of l)(sid := None)\<rparr>)"
| closes: "seat_of l sid = Some k \<Longrightarrow> seated_in k l = {sid} \<Longrightarrow>
    lobby_step R S l (Leave sid) (l\<lparr>seat_of := (seat_of l)(sid := None), open_rooms := (open_rooms l)(k := None)\<rparr>)"

inductive_cases lobby_stepE: "lobby_step R S l a l'"

fun lobby_path :: "nat \<Rightarrow> nat \<Rightarrow> lobby \<Rightarrow> lobby_act list \<Rightarrow> lobby \<Rightarrow> bool" where
  "lobby_path R S l [] l' \<longleftrightarrow> l' = l"
| "lobby_path R S l (a # as) l' \<longleftrightarrow> (\<exists>l1. lobby_step R S l a l1 \<and> lobby_path R S l1 as l')"

text \<open>
  The abstraction of a manager, and the action a call stands for: the one its result tells
  the caller of.
\<close>

definition room_limit :: "'w BattleRoom \<Rightarrow> nat" where
  "room_limit room = unat (cfg_maxPlayers (room_config room))"

definition abs_lobby :: "'w BattleRoomManager \<Rightarrow> lobby" where
  "abs_lobby m = \<lparr>open_rooms = (\<lambda>k. map_option room_limit (findRoom k m)), seat_of = umap_find (m_sessionToRoom m)\<rparr>"

fun act_of :: "'w mugen \<Rightarrow> manager_op \<Rightarrow> 'w BattleRoomManager \<Rightarrow> lobby_act" where
  "act_of mg (OpCreate config) m =
     (if findRoom (cfg_battleId config) m = None \<and> fst (createRoom mg config m) \<noteq> None
      then Open (cfg_battleId config) (unat (cfg_maxPlayers config)) else Idle)"
| "act_of mg (OpJoin key spec) m =
     (if umap_find (m_sessionToRoom m) (session_id spec) = None \<and> fst (addPlayerToRoom mg key spec m)
      then Enter (session_id spec) key else Idle)"
| "act_of mg (OpLeave sid) m = (if umap_find (m_sessionToRoom m) sid = None then Idle else Leave sid)"
| "act_of mg _ m = Idle"

fun acts_of :: "'w mugen \<Rightarrow> manager_op list \<Rightarrow> 'w BattleRoomManager \<Rightarrow> lobby_act list" where
  "acts_of mg [] m = []"
| "acts_of mg (x # xs) m = act_of mg x m # acts_of mg xs (manager_step mg x m)"

subsection \<open>The simulation\<close>

lemma abs_lobby_simps [simp]:
  "open_rooms (abs_lobby m) k = map_option room_limit (findRoom k m)"
  "seat_of (abs_lobby m) = umap_find (m_sessionToRoom m)"
  by (simp_all add: abs_lobby_def)

lemma abs_lobby_eqI:
  assumes "\<And>k. map_option room_limit (findRoom k m) = open_rooms l k" and "umap_find (m_sessionToRoom m) = seat_of l"
  shows "abs_lobby m = l"
  by (rule lobby.equality) (auto simp: assms)

lemma card_dom_umap: "umap_ok xs \<Longrightarrow> card (dom (umap_find xs)) = length xs"
  by (metis distinct_card dom_map_of_conv_image_fst length_map set_map)

lemma card_open_rooms: "manager_ok m \<Longrightarrow> card (dom (open_rooms (abs_lobby m))) = length (m_rooms m)"
  using card_dom_umap [OF manager_okD(1)] by (simp add: dom_def findRoom_def)

lemma card_seat_of: "manager_ok m \<Longrightarrow> card (dom (seat_of (abs_lobby m))) = length (m_sessionToRoom m)"
  using card_dom_umap [OF manager_okD(2)] by simp

lemma seated_in_seats:
  assumes "manager_ok m" and "findRoom k m = Some room"
  shows "seated_in k (abs_lobby m) = seats room" and "card (seated_in k (abs_lobby m)) = length (room_players room)"
proof -
  show *: "seated_in k (abs_lobby m) = seats room"
    using manager_okD(3) [OF assms(1)] assms(2) unfolding routed_def seated_in_def findRoom_def by auto
  show "card (seated_in k (abs_lobby m)) = length (room_players room)"
    using card_seats [of room] manager_ok_room(1) [OF assms(1), of k room] assms(2)
    by (simp add: * findRoom_def room_ok_def del: map_of_eq_Some_iff)
qed

lemma sim_create:
  assumes "manager_ok m"
  shows "lobby_step (unat (m_maxRooms m)) S (abs_lobby m) (act_of mg (OpCreate config) m) (abs_lobby (snd (createRoom mg config m)))"
proof (cases "findRoom (cfg_battleId config) m = None \<and> fst (createRoom mg config m) \<noteq> None")
  case True
  let ?k = "cfg_battleId config"
  obtain room where i: "init_room mg config new_BattleRoom = (True, room)" and c: "?k \<noteq> 0" "length (m_rooms m) < unat (m_maxRooms m)"
      "snd (createRoom mg config m) = m\<lparr>m_rooms := umap_emplace ?k room (m_rooms m)\<rparr>"
    using True by (auto simp: createRoom_def findRoom_def split: if_splits prod.splits)
  have "room_limit room = unat (cfg_maxPlayers config)"
    using seats_init [OF i] by (simp add: room_limit_def)
  then have "abs_lobby (snd (createRoom mg config m))
      = (abs_lobby m)\<lparr>open_rooms := (open_rooms (abs_lobby m))(?k \<mapsto> unat (cfg_maxPlayers config))\<rparr>"
    using True by (intro abs_lobby_eqI) (auto simp: c findRoom_def umap_emplace_find)
  then show ?thesis
    using True c card_open_rooms [OF assms] by (auto intro!: lobby_step.opens)
next
  case False
  then have "snd (createRoom mg config m) = m"
    by (auto simp: createRoom_def findRoom_def split: if_splits prod.splits)
  with False show ?thesis by (auto intro: lobby_step.idle)
qed


lemma sim_join:
  assumes "manager_ok m"
  shows "lobby_step R (unat (m_maxSessions m)) (abs_lobby m) (act_of mg (OpJoin key spec) m) (abs_lobby (snd (addPlayerToRoom mg key spec m)))"
proof (cases "umap_find (m_sessionToRoom m) (session_id spec) = None \<and> canAcceptSession (session_id spec) m \<and> findRoom key m \<noteq> None")
  case False
  then show ?thesis by (auto simp: addPlayerToRoom_def findRoom_def intro: lobby_step.idle split: option.splits)
next
  case True
  then obtain room where room: "findRoom key m = Some room" by auto
  obtain ok room' where a: "addPlayer mg spec room = (ok, room')" by fastforce
  note r = manager_ok_room [OF assms, of key room, folded findRoom_def, OF room]
  have noseat: "session_id spec \<notin> seats room"
    using room.routed_seat [OF manager_okD(3) [OF assms]] room True by (metis findRoom_def option.distinct(1))
  have config: "room_config room' = room_config room" using room_config_simps(1) [of mg spec room] by (simp add: a)
  have res: "addPlayerToRoom mg key spec m = (ok, if ok then m\<lparr>m_rooms := umap_assign key room' (m_rooms m),
        m_sessionToRoom := umap_assign (session_id spec) key (m_sessionToRoom m)\<rparr>
      else m\<lparr>m_rooms := umap_assign key room' (m_rooms m)\<rparr>)"
    using True room r(2) by (simp add: addPlayerToRoom_def findRoom_def a config)
  have rooms: "map_option room_limit (findRoom k (snd (addPlayerToRoom mg key spec m))) = map_option room_limit (findRoom k m)" for k
    using room config by (auto simp: res findRoom_def room_limit_def)
  show ?thesis
  proof (cases ok)
    case False
    have "abs_lobby (snd (addPlayerToRoom mg key spec m)) = abs_lobby m"
      using rooms False by (intro abs_lobby_eqI) (simp_all add: res)
    then show ?thesis using False by (simp add: res lobby_step.idle)
  next
    case True
    then have "\<not> isFull room"
      using noseat a by (cases rule: addPlayer_cases [of mg spec room]) (auto simp: hasPlayer_seats)
    then have "card (seated_in key (abs_lobby m)) < room_limit room"
      using seated_in_seats(2) [OF assms room] by (simp add: isFull_def room_limit_def)
    moreover have "length (m_sessionToRoom m) < unat (m_maxSessions m)"
      using \<open>_ \<and> canAcceptSession _ _ \<and> _\<close> activeSessionCount_nat [OF assms]
      by (auto simp: canAcceptSession_def word_less_nat_alt split: if_splits)
    moreover have "abs_lobby (snd (addPlayerToRoom mg key spec m))
        = (abs_lobby m)\<lparr>seat_of := (seat_of (abs_lobby m))(session_id spec \<mapsto> key)\<rparr>"
      using rooms True by (intro abs_lobby_eqI) (simp_all add: res fun_upd_def)
    ultimately show ?thesis
      using True \<open>umap_find _ _ = None \<and> _\<close> room card_seat_of [OF assms]
        lobby_step.enters [of "abs_lobby m" key "room_limit room" "session_id spec" "unat (m_maxSessions m)" R]
      by (simp add: res)
  qed
qed

lemma sim_leave:
  assumes "manager_ok m"
  shows "lobby_step R S (abs_lobby m) (act_of mg (OpLeave sid) m) (abs_lobby (removePlayerFromRoom sid m))"
proof (cases "umap_find (m_sessionToRoom m) sid")
  case None
  then show ?thesis by (simp add: removePlayerFromRoom_def lobby_step.idle)
next
  case (Some k)
  then obtain room where room: "findRoom k m = Some room"
    and eff: "findRoom k (removePlayerFromRoom sid m) = (if seats room = {sid} then None else Some (removePlayer sid room))"
      "\<And>k'. k' \<noteq> k \<Longrightarrow> findRoom k' (removePlayerFromRoom sid m) = findRoom k' m"
      "umap_find (m_sessionToRoom (removePlayerFromRoom sid m)) = (umap_find (m_sessionToRoom m))(sid := None)"
    using removePlayer_lookup [OF assms, of sid] by blast
  note seats = seated_in_seats(1) [OF assms room]
  have limit: "room_limit (removePlayer sid room) = room_limit room"
    by (simp add: room_limit_def room_config_simps)
  show ?thesis
  proof (cases "seats room = {sid}")
    case True
    then have "abs_lobby (removePlayerFromRoom sid m) = (abs_lobby m)\<lparr>seat_of := (seat_of (abs_lobby m))(sid := None),
        open_rooms := (open_rooms (abs_lobby m))(k := None)\<rparr>"
      using eff by (intro abs_lobby_eqI) auto
    with True Some seats show ?thesis using lobby_step.closes [of "abs_lobby m" sid k R S] by simp
  next
    case False
    have "abs_lobby (removePlayerFromRoom sid m) = (abs_lobby m)\<lparr>seat_of := (seat_of (abs_lobby m))(sid := None)\<rparr>"
    proof (rule abs_lobby_eqI)
      fix j
      show "map_option room_limit (findRoom j (removePlayerFromRoom sid m))
          = open_rooms ((abs_lobby m)\<lparr>seat_of := (seat_of (abs_lobby m))(sid := None)\<rparr>) j"
        using eff(1,2) room limit False by (cases "j = k") simp_all
    qed (simp add: eff(3) fun_eq_iff)
    with False Some seats show ?thesis using lobby_step.leaves [of "abs_lobby m" sid k R S] by simp
  qed
qed

lemma sim_input: "abs_lobby (applyInputAt mg key sid cf keys m) = abs_lobby m"
  by (rule abs_lobby_eqI)
     (auto simp: applyInputAt_def findRoom_def room_limit_def room_config_simps split: option.splits)

lemma sim_tick: "abs_lobby (tickAll mg dt m) = abs_lobby m"
  by (rule abs_lobby_eqI)
     (auto simp: tickAll_def findRoom_def map_of_map_snd room_limit_def [abs_def] room_config_simps option.map_comp comp_def)


lemma lobby_sim:
  assumes "manager_ok m"
  shows "lobby_step (unat (m_maxRooms m)) (unat (m_maxSessions m)) (abs_lobby m) (act_of mg x m) (abs_lobby (manager_step mg x m))"
  using sim_create [OF assms] sim_join [OF assms] sim_leave [OF assms]
  by (cases x) (simp_all add: sim_input sim_tick lobby_step.idle del: act_of.simps(1-3))

lemma lobby_sim_run:
  assumes "manager_ok m"
  shows "lobby_path (unat (m_maxRooms m)) (unat (m_maxSessions m)) (abs_lobby m) (acts_of mg xs m) (abs_lobby (fold (manager_step mg) xs m))"
  using assms
proof (induction xs arbitrary: m)
  case (Cons x xs)
  with lobby_sim [OF Cons.prems, of mg x] Cons.IH [OF manager_ok_step [OF Cons.prems], of mg x]
  show ?case by (auto simp: frame_simps)
qed simp


subsection \<open>What holds of every lobby\<close>

definition lobby_inv :: "nat \<Rightarrow> nat \<Rightarrow> lobby \<Rightarrow> bool" where
  "lobby_inv R S l \<longleftrightarrow> finite (dom (open_rooms l)) \<and> card (dom (open_rooms l)) \<le> R \<and>
     finite (dom (seat_of l)) \<and> card (dom (seat_of l)) \<le> S \<and>
     (\<forall>sid k. seat_of l sid = Some k \<longrightarrow> open_rooms l k \<noteq> None) \<and>
     (\<forall>k n. open_rooms l k = Some n \<longrightarrow> k \<noteq> 0 \<and> card (seated_in k l) \<le> n)"

lemma finite_seated_in: "finite (dom (seat_of l)) \<Longrightarrow> finite (seated_in k l)"
  by (rule finite_subset [of _ "dom (seat_of l)"]) (auto simp: seated_in_def)

lemma seated_in_upd:
  "seated_in k (l\<lparr>seat_of := (seat_of l)(sid \<mapsto> j)\<rparr>) = (if k = j then insert sid (seated_in k l) else seated_in k l - {sid})"
  "seated_in k (l\<lparr>seat_of := (seat_of l)(sid := None)\<rparr>) = seated_in k l - {sid}"
  "seated_in k (l\<lparr>open_rooms := f\<rparr>) = seated_in k l"
  by (auto simp: seated_in_def)

lemma seated_in_le:
  assumes "lobby_inv R S l" and "open_rooms l k = Some n" shows "card (seated_in k l - {sid}) \<le> n"
  using assms card_Diff1_le [of "seated_in k l" sid] unfolding lobby_inv_def by (meson le_trans)

lemma lobby_inv_step:
  assumes "lobby_step R S l a l'" and "lobby_inv R S l" shows "lobby_inv R S l'"
  using assms(1)
proof cases
  case idle
  with assms(2) show ?thesis by simp
next
  case (opens k n)
  with assms(2) have "seated_in k l = {}" by (fastforce simp: lobby_inv_def seated_in_def)
  with opens assms(2) show ?thesis by (auto simp: lobby_inv_def seated_in_upd card_insert_if dom_def [symmetric])
next
  case (enters k n sid)
  have "card (insert sid (seated_in k l)) \<le> n"
    using enters by (intro card_insert_le_m1) auto
  with enters assms(2) seated_in_le [OF assms(2)] show ?thesis
    unfolding lobby_inv_def by (simp add: seated_in_upd card_insert_if)
next
  case (leaves sid k)
  have "card (dom (seat_of l) - {sid}) \<le> S"
    using assms(2) card_Diff1_le [of "dom (seat_of l)" sid] by (simp add: lobby_inv_def)
  with leaves assms(2) seated_in_le [OF assms(2)] show ?thesis
    unfolding lobby_inv_def by (simp add: seated_in_upd)
next
  case (closes sid k)
  have "card (dom (seat_of l) - {sid}) \<le> S" "card (dom (open_rooms l) - {k}) \<le> R"
    using assms(2) card_Diff1_le [of "dom (seat_of l)" sid] card_Diff1_le [of "dom (open_rooms l)" k]
    by (simp_all add: lobby_inv_def)
  moreover have "seat_of l s \<noteq> Some k" if "s \<noteq> sid" for s
    using closes(4) that by (auto simp: seated_in_def)
  ultimately show ?thesis
    using closes assms(2) seated_in_le [OF assms(2)] unfolding lobby_inv_def by (simp add: seated_in_upd)
qed


lemma lobby_inv_path: "lobby_path R S l as l' \<Longrightarrow> lobby_inv R S l \<Longrightarrow> lobby_inv R S l'"
  by (induction as arbitrary: l) (auto dest: lobby_inv_step)

lemma lobby_inv_empty: "lobby_inv R S empty_lobby"
  by (simp add: lobby_inv_def empty_lobby_def)

lemma abs_lobby_new: "abs_lobby (new_BattleRoomManager maxRooms maxSessions) = empty_lobby"
  by (rule abs_lobby_eqI) (simp_all add: new_BattleRoomManager_def findRoom_def empty_lobby_def)

text \<open>C6. The room manager implements a lobby. Whatever sequence of calls the server makes and
  whatever the game worlds do, the manager's rooms and routes go along a path of the lobby
  from the empty one: a creation that returns a new room opens it, a join that returns true
  for a session without a room seats it in that room below its limit, a departure frees the
  seat and, of the last player, closes the room, and every other call or outcome (refusals,
  failed worlds, input, ticks) changes neither rooms nor seats. So the lobby's invariant holds.\<close>
theorem manager_refines_lobby:
  fixes mg :: "'w mugen" and xs :: "manager_op list" and maxRooms maxSessions :: u32
  defines "start \<equiv> new_BattleRoomManager maxRooms maxSessions :: 'w BattleRoomManager"
  shows "lobby_path (unat maxRooms) (unat maxSessions) empty_lobby (acts_of mg xs start) (abs_lobby (fold (manager_step mg) xs start))
    \<and> lobby_inv (unat maxRooms) (unat maxSessions) (abs_lobby (fold (manager_step mg) xs start))"
proof -
  have "lobby_path (unat maxRooms) (unat maxSessions) empty_lobby (acts_of mg xs start) (abs_lobby (fold (manager_step mg) xs start))"
    using lobby_sim_run [of start mg xs] manager_ok_new [of maxRooms maxSessions]
    by (simp add: start_def abs_lobby_new) (simp add: new_BattleRoomManager_def)
  with lobby_inv_path [OF this lobby_inv_empty] show ?thesis by blast
qed

end
