(* ===== verification/BattleClock.thy ===== *)
theory BattleClock
  imports BattleServer
begin

section \<open>The clock of a battle\<close>

text \<open>
  \<open>BattleRoom::tick\<close> adds the fixed step to \<open>m_elapsed\<close>, a \<open>float\<close>, and every snapshot carries
  it in milliseconds (\<open>BattleSync.cpp\<close>). How far this clock can go.
\<close>

text \<open>The step of \<open>BattleServer::run\<close>'s timer, \<open>1.0f / static_cast<float>(tickRate)\<close>.\<close>

definition fixed_step :: "int \<Rightarrow> f32" where
  "fixed_step rate = f32_div (f32_of_int 1) (f32_of_int rate)"

lemma tick_timer_fixed_step:
  "server_running s \<Longrightarrow> tick_timer env s = (False, tick env (fixed_step (sint (cfg_tickRate (server_config s)))) s)"
  by (simp add: tick_timer_def fixed_step_def)

lemma fixed_step_bounds:
  assumes "16 \<le> rate" and "rate < 2 ^ 24"
  obtains d where "fixed_step rate = Fin d" and "0 < d" and "d \<le> 2 ^ 145"
proof -
  let ?q = "nat (rate * f32_unit)"
  have q: "0 < ?q" using assms(1) by (simp add: f32_unit_def)
  have r: "fixed_step rate = f32_round (f32_unit * f32_unit) ?q"
    using assms by (simp add: fixed_step_def f32_of_int_small f32_unit_def)
  have "nat (f32_unit * f32_unit) \<le> 1 * 2 ^ 145 * ?q"
  proof -
    have "f32_unit * f32_unit = 2 ^ 145 * (16 * f32_unit)" by (simp add: f32_unit_def)
    also have "\<dots> \<le> 2 ^ 145 * (rate * f32_unit)"
      using assms by (intro mult_left_mono mult_right_mono) (simp_all add: f32_unit_def)
    finally show ?thesis by (simp add: nat_le_iff f32_unit_def)
  qed
  then obtain d where d: "f32_round (f32_unit * f32_unit) ?q = Fin d" "0 \<le> d" "d \<le> 2 ^ 145"
    using f32_round_le [OF q, of "f32_unit * f32_unit" 1 145] by (auto simp: f32_unit_def)
  have "?q \<le> nat (f32_unit * f32_unit)"
  proof (rule nat_mono)
    have "rate \<le> f32_unit" using assms(2) by (simp add: f32_unit_def)
    then show "rate * f32_unit \<le> f32_unit * f32_unit" by (rule mult_right_mono) (simp add: f32_unit_def)
  qed
  then have "0 < round_mag (nat (f32_unit * f32_unit)) ?q" by (rule round_mag_quotient_pos [OF q])
  then have "d \<noteq> 0" using d(1) by (auto simp: f32_round_def Let_def f32_unit_def split: if_splits)
  with d r show thesis by (intro that) simp_all
qed

text \<open>A clock within its bound that shows a single-precision number.\<close>

definition clock_at :: "'w BattleRoom \<Rightarrow> int \<Rightarrow> bool" where
  "clock_at room e \<longleftrightarrow> room_elapsed room = Fin e \<and> 0 \<le> e \<and> e \<le> 2 ^ 169 \<and> round_mag (nat e) (Suc 0) = nat e"

definition clock_ok :: "'w BattleRoom \<Rightarrow> bool" where
  "clock_ok room \<longleftrightarrow> (\<exists>e. clock_at room e)"

text \<open>Adding a step never turns the clock back, moves it while it shows less than \<open>2 ^ 24 - 1\<close>
  steps, and does not carry it past \<open>2 ^ 20\<close> seconds.\<close>

lemma clock_add:
  assumes "0 \<le> e" and "e \<le> 2 ^ 169" and "round_mag (nat e) (Suc 0) = nat e" and "0 < d" and "d \<le> 2 ^ 145"
  obtains v where "f32_add (Fin e) (Fin d) = Fin v" and "e \<le> v" and "v \<le> 2 ^ 169"
    and "round_mag (nat v) (Suc 0) = nat v" and "e < (2 ^ 24 - 1) * d \<longrightarrow> e < v"
proof -
  obtain v where v: "f32_add (Fin e) (Fin d) = Fin v" "0 \<le> v" "v \<le> 2 ^ (24 + 145)"
    using assms by (auto intro: f32_add_stall [of e 145 d])
  have sum: "nat (e + d) = nat e + nat d" using assms by (simp add: nat_add_distrib)
  have "e + d < 2 ^ 276" using assms(2,5) by simp
  then have eq: "v = int (round_mag (nat (e + d)) (Suc 0))"
    using v(1) assms(1,4) f32_round_Fin [of "e + d"] by (simp add: sgn_if)
  have "nat e \<le> round_mag (nat (e + d)) (Suc 0)"
    using round_mag_mono [of "nat e" "nat (e + d)"] assms(3) sum by simp
  then have mono: "e \<le> v" using assms(1) unfolding eq by linarith
  have "e < (2 ^ 24 - 1) * d \<longrightarrow> e < v"
  proof
    assume less: "e < (2 ^ 24 - 1) * d"
    have "2 ^ 24 * (e + d) \<le> 2 ^ 24 * v + (e + d)"
    proof -
      have "int (2 ^ 24 * nat (e + d)) \<le> int (2 ^ 24 * round_mag (nat (e + d)) (Suc 0) + nat (e + d))"
        by (rule of_nat_mono) (rule round_mag_lower)
      then show ?thesis using assms(1,4) by (simp add: eq)
    qed
    with less show "e < v" by simp
  qed
  moreover have "round_mag (nat v) (Suc 0) = nat v" by (simp add: eq round_mag_idem)
  ultimately show thesis using v mono by (intro that [of v]) simp_all
qed

lemma clock_tick:
  assumes "clock_at room e" and "16 \<le> rate" and "rate < 2 ^ 24" and "room_world room \<noteq> None" and "\<not> isEmpty room"
  obtains v where "clock_at (tick_room mg (fixed_step rate) room) v" and "e \<le> v"
    and "\<forall>d. fixed_step rate = Fin d \<longrightarrow> e < (2 ^ 24 - 1) * d \<longrightarrow> e < v"
proof -
  obtain d where d: "fixed_step rate = Fin d" "0 < d" "d \<le> 2 ^ 145" by (rule fixed_step_bounds [OF assms(2,3)])
  have e: "0 \<le> e" "e \<le> 2 ^ 169" "round_mag (nat e) (Suc 0) = nat e" "room_elapsed room = Fin e"
    using assms(1) by (simp_all add: clock_at_def)
  obtain v where v: "f32_add (Fin e) (Fin d) = Fin v" "e \<le> v" "v \<le> 2 ^ 169" "round_mag (nat v) (Suc 0) = nat v"
    "e < (2 ^ 24 - 1) * d \<longrightarrow> e < v"
    by (rule clock_add [OF e(1-3) d(2,3)])
  obtain w where w: "room_world room = Some w" using assms(4) by blast
  have "clock_at (tick_room mg (fixed_step rate) room) v"
    using e(1,4) v by (simp add: tick_nonempty [OF w assms(5)] clock_at_def d(1))
  then show thesis using v(2,5) d(1) by (intro that) simp_all
qed

lemma clock_ok_tick:
  assumes "clock_ok room" and "16 \<le> rate" and "rate < 2 ^ 24"
  shows "clock_ok (tick_room mg (fixed_step rate) room)"
proof (cases "room_world room \<noteq> None \<and> \<not> isEmpty room")
  case True
  obtain e where "clock_at room e" using assms(1) by (auto simp: clock_ok_def)
  from clock_tick [OF this assms(2,3)] True show ?thesis unfolding clock_ok_def by blast
next
  case False
  then have "tick_room mg (fixed_step rate) room = room" by (auto simp: tick_room_def split: option.split)
  with assms(1) show ?thesis by simp
qed

lemma server_time_bound:
  assumes "clock_ok room"
  shows "f32_to_u64 (f32_mul (room_elapsed room) (f32_of_int 1000)) = Some (server_time_ms room)
    \<and> unat (server_time_ms room) \<le> 1000 * 2 ^ 20"
proof -
  obtain e where e: "room_elapsed room = Fin e" "0 \<le> e" "e \<le> 2 ^ 169" using assms by (auto simp: clock_ok_def clock_at_def)
  have "nat (e * (1000 * f32_unit)) \<le> 1000 * 2 ^ 169 * nat f32_unit"
  proof -
    have "e * (1000 * f32_unit) \<le> 2 ^ 169 * (1000 * f32_unit)"
      using e(3) by (intro mult_right_mono) (simp_all add: f32_unit_def)
    then show ?thesis by (simp add: nat_le_iff f32_unit_def)
  qed
  then obtain v where v: "f32_round (e * (1000 * f32_unit)) (nat f32_unit) = Fin v" "0 \<le> v" "v \<le> int (1000 * 2 ^ 169)"
    using f32_round_le [of "nat f32_unit" "e * (1000 * f32_unit)" 1000 169] e(2) by (auto simp: f32_unit_def)
  have t: "0 \<le> v div f32_unit" "v div f32_unit \<le> 1000 * 2 ^ 20"
    using v(2,3) zdiv_mono1 [of v "1000 * 2 ^ 169" f32_unit] by (simp_all add: f32_unit_def pos_imp_zdiv_nonneg_iff)
  have "f32_to_u64 (Fin v) = Some (of_int (v div f32_unit))"
    using t v(2) by (cases "v = 0") (simp_all add: Let_def)
  moreover have "unat (of_int (v div f32_unit) :: u64) = nat (v div f32_unit)"
    using t by (simp add: unat_eq_nat_uint uint_word_of_int_eq take_bit_int_eq_self)
  ultimately show ?thesis
    using t v(1) by (simp add: server_time_ms_def e(1) f32_of_int_small nat_le_iff)
qed

lemma umap_assign_set: "(k, v) \<in> set (umap_assign j w xs) \<Longrightarrow> (k, v) \<in> set xs \<or> (k = j \<and> v = w)"
  by (induction xs) (auto split: if_splits)

lemma umap_erase_set: "(k, v) \<in> set (umap_erase j xs) \<Longrightarrow> (k, v) \<in> set xs"
  by (induction xs) (auto split: if_splits)

lemma clock_ok_step:
  assumes "\<forall>(k, room) \<in> set (m_rooms m). clock_ok room" and "\<forall>dt. x = OpTick dt \<longrightarrow> dt = fixed_step rate"
    and "16 \<le> rate" and "rate < 2 ^ 24"
  shows "\<forall>(k, room) \<in> set (m_rooms (manager_step mg x m)). clock_ok room"
proof (cases x)
  case (OpCreate config)
  have "clock_ok room" if "init_room mg config new_BattleRoom = (True, room)" for room
    using that by (auto simp: init_room_def new_BattleRoom_def clock_ok_def clock_at_def Let_def split: prod.splits if_splits)
  with OpCreate assms(1) show ?thesis
    by (auto simp: createRoom_def umap_emplace_def split: prod.splits option.splits)
next
  case (OpJoin key spec)
  have keep: "room_elapsed (snd (addPlayer mg spec room)) = room_elapsed room" for room
    by (cases rule: addPlayer_cases [of mg spec room]) simp_all
  have "clock_ok room'" if "addPlayer mg spec room = (ok, room')" "clock_ok room" for room ok room'
    using that keep [of room] by (simp add: clock_ok_def clock_at_def)
  with OpJoin assms(1) show ?thesis
    by (auto simp: addPlayerToRoom_def Let_def dest!: map_of_SomeD umap_assign_set split: prod.splits option.splits if_splits)
next
  case (OpLeave sid)
  with assms(1) show ?thesis
    by (auto simp: removePlayerFromRoom_def removePlayer_def findRoom_def clock_ok_def clock_at_def Let_def
        dest!: map_of_SomeD umap_assign_set umap_erase_set split: option.splits if_splits)
next
  case (OpInput key sid cf keys)
  with assms(1) show ?thesis
    by (auto simp: applyInputAt_def applyInput_def clock_ok_def clock_at_def dest!: map_of_SomeD umap_assign_set split: option.splits if_splits)
next
  case (OpTick dt)
  with assms show ?thesis by (auto simp: tickAll_def intro!: clock_ok_tick)
qed

text \<open>A bounded sequence that never falls is constant from some point on.\<close>

lemma bounded_mono_stops:
  fixes f :: "nat \<Rightarrow> int"
  assumes "\<And>n. f n \<le> f (Suc n)" and "\<And>n. 0 \<le> f n \<and> f n \<le> b"
  shows "\<exists>N. \<forall>n \<ge> N. f n = f N"
proof -
  have "range f \<subseteq> {0..b}" using assms(2) by auto
  then have fin: "finite (range f)" by (rule finite_subset) simp
  then obtain N where N: "f N = Max (range f)" using Max_in [OF fin] by fastforce
  have "f n = f N" if "N \<le> n" for n
    using lift_Suc_mono_le [of f, OF assms(1) that] Max_ge [OF fin, of "f n"] N by simp
  then show ?thesis by blast
qed

lemma clock_run:
  assumes "clock_ok room" and "16 \<le> rate" and "rate < 2 ^ 24" and "room_world room = Some w" and "\<not> isEmpty room"
    and "fixed_step rate = Fin d"
  obtains e where "\<And>n. clock_at ((tick_room mg (fixed_step rate) ^^ n) room) (e n)" and "\<And>n. e n \<le> e (Suc n)"
    and "\<And>n. e n < (2 ^ 24 - 1) * d \<Longrightarrow> e n < e (Suc n)"
proof -
  let ?r = "\<lambda>n. (tick_room mg (fixed_step rate) ^^ n) room"
  have live: "room_world (?r n) \<noteq> None" "\<not> isEmpty (?r n)" for n
    using tick_many [OF assms(4), where mg = mg and dt = "fixed_step rate" and n = n] assms(5) by (simp_all add: isEmpty_def)
  have ok: "clock_ok (?r n)" for n
    by (induction n) (simp_all add: assms(1) clock_ok_tick [OF _ assms(2,3)])
  define e where "e n = (SOME x. clock_at (?r n) x)" for n
  have at: "clock_at (?r n) (e n)" for n
    using ok [of n] unfolding clock_ok_def e_def by (rule someI_ex)
  have "e n \<le> e (Suc n) \<and> (e n < (2 ^ 24 - 1) * d \<longrightarrow> e n < e (Suc n))" for n
  proof -
    obtain v where v: "clock_at (?r (Suc n)) v" "e n \<le> v"
      "\<forall>d. fixed_step rate = Fin d \<longrightarrow> e n < (2 ^ 24 - 1) * d \<longrightarrow> e n < v"
      by (rule clock_tick [OF at [of n] assms(2,3) live(1) [of n] live(2) [of n], where mg = mg]) simp
    moreover have "v = e (Suc n)" using v(1) at [of "Suc n"] by (simp add: clock_at_def)
    ultimately show ?thesis using assms(6) by simp
  qed
  with at show thesis by (intro that) blast+
qed

text \<open>C32. The clock of a battle runs, and stops. At a tick rate from 16 to \<open>2 ^ 24\<close> (the default is
  30), take a room with a player in any state the room manager can reach, and let it tick. Its
  frame counter goes up by one with each tick, for ever (modulo \<open>2 ^ 32\<close>). Its elapsed time
  never falls, strictly rises with every tick while it is below \<open>2 ^ 24 - 1\<close> steps (6.4 days at 30),
  and never passes \<open>2 ^ 20\<close> seconds (12 days); so after some number of ticks it stands still for
  good, at no less than the first of these, and with it the time in milliseconds that the
  snapshots carry, which is always defined and at most 1048576000.\<close>
theorem battle_clock_stops:
  assumes "16 \<le> rate" and "rate < 2 ^ 24" and "\<forall>dt. OpTick dt \<in> set xs \<longrightarrow> dt = fixed_step rate"
    and "findRoom k (fold (manager_step mg) xs (new_BattleRoomManager maxRooms maxSessions)) = Some room"
    and "\<not> isEmpty room" and "\<And>n. after n = (tick_room mg (fixed_step rate) ^^ n) room"
  shows "\<exists>d e N. fixed_step rate = Fin d \<and> 0 < d \<and>
    (\<forall>n. room_elapsed (after n) = Fin (e n) \<and> 0 \<le> e n \<and> e n \<le> 2 ^ 20 * f32_unit \<and> e n \<le> e (Suc n) \<and>
      (e n < (2 ^ 24 - 1) * d \<longrightarrow> e n < e (Suc n)) \<and>
      room_serverFrame (after n) = room_serverFrame room + of_nat n \<and>
      f32_to_u64 (f32_mul (room_elapsed (after n)) (f32_of_int 1000)) = Some (server_time_ms (after n)) \<and>
      unat (server_time_ms (after n)) \<le> 1048576000 \<and>
      (N \<le> n \<longrightarrow> e n = e N \<and> server_time_ms (after n) = server_time_ms (after N))) \<and>
    (2 ^ 24 - 1) * d \<le> e N"
proof -
  let ?m = "fold (manager_step mg) xs (new_BattleRoomManager maxRooms maxSessions)"
  have "\<forall>(k, room) \<in> set (m_rooms m). clock_ok room \<Longrightarrow>
      \<forall>(k, room) \<in> set (m_rooms (fold (manager_step mg) xs m)). clock_ok room" for m
    using assms(3)
  proof (induction xs arbitrary: m)
    case (Cons x xs)
    then show ?case using clock_ok_step [OF Cons.prems(1) _ assms(1,2), of x mg] by simp
  qed simp
  from this [of "new_BattleRoomManager maxRooms maxSessions"] have ok: "clock_ok room"
    using assms(4) by (auto simp: findRoom_def new_BattleRoomManager_def dest!: map_of_SomeD)
  have "room_ok room"
    using manager_ok_room(1) [OF manager_ok_run [OF manager_ok_new]] assms(4) unfolding findRoom_def by blast
  then obtain w where w: "room_world room = Some w" by (auto simp: room_ok_def)
  obtain d where d: "fixed_step rate = Fin d" "0 < d" "d \<le> 2 ^ 145" by (rule fixed_step_bounds [OF assms(1,2)])
  obtain e where e: "\<And>n. clock_at (after n) (e n)" "\<And>n. e n \<le> e (Suc n)"
    "\<And>n. e n < (2 ^ 24 - 1) * d \<Longrightarrow> e n < e (Suc n)"
    using clock_run [OF ok assms(1,2) w assms(5) d(1), of mg] unfolding assms(6) by blast
  have range: "0 \<le> e n \<and> e n \<le> 2 ^ 169" for n using e(1) [of n] by (simp add: clock_at_def)
  obtain N where N: "\<And>n. N \<le> n \<Longrightarrow> e n = e N" using bounded_mono_stops [of e "2 ^ 169", OF e(2) range] by blast
  have late: "(2 ^ 24 - 1) * d \<le> e N" using e(3) [of N] N [of "Suc N"] by linarith
  have elapsed: "room_elapsed (after n) = Fin (e n)" for n using e(1) [of n] by (simp add: clock_at_def)
  have time: "f32_to_u64 (f32_mul (room_elapsed (after n)) (f32_of_int 1000)) = Some (server_time_ms (after n))
      \<and> unat (server_time_ms (after n)) \<le> 1048576000" for n
    using server_time_bound [of "after n"] e(1) [of n] by (auto simp: clock_ok_def)
  have same: "server_time_ms (after n) = server_time_ms (after N)" if "N \<le> n" for n
    using N [OF that] by (simp add: server_time_ms_def elapsed)
  have frame: "room_serverFrame (after n) = room_serverFrame room + of_nat n" for n
    using tick_many [OF w, where mg = mg and dt = "fixed_step rate" and n = n] assms(5) by (simp add: assms(6))
  have unit: "(2 :: int) ^ 169 = 2 ^ 20 * f32_unit" by (simp add: f32_unit_def)
  have "e n \<le> 2 ^ 20 * f32_unit" for n using range [of n] by (simp only: unit)
  then show ?thesis
    using d(1,2) elapsed range e(2,3) frame time N same late
    by (intro exI [of _ d] exI [of _ e] exI [of _ N] conjI allI impI) (assumption | blast)+
qed

text \<open>A room with one player at the default rate.\<close>

theorem battle_clock_stops_witness:
  "\<exists>room d e N. findRoom 7 sample_manager = Some room \<and> fixed_step 30 = Fin d \<and> 0 < d \<and> (2 ^ 24 - 1) * d \<le> e N
    \<and> (\<forall>n. room_elapsed ((tick_room sample_mugen (fixed_step 30) ^^ n) room) = Fin (e n))"
proof -
  obtain room where room: "findRoom 7 sample_manager = Some room" "\<not> isEmpty room"
    by (simp add: sample_manager_eq findRoom_def isEmpty_def)
  then have "findRoom 7 (fold (manager_step sample_mugen)
      [OpCreate (sample_config 7), OpJoin 7 (sample_spec 42)] (new_BattleRoomManager 2 10)) = Some room"
    by (simp add: sample_manager_def)
  from battle_clock_stops [OF _ _ _ this room(2) refl, of 30] room(1) show ?thesis by simp blast
qed

end
