(* ===== verification/BattleConfig.thy ===== *)
theory BattleConfig
  imports ServerInvariant
begin

section \<open>The configuration file\<close>

text \<open>
  \<open>battle/src/BattleConfigLoader.cpp\<close>: the reader of the configuration file, line by line,
  with the functions of the C++ library it uses (\<open>std::getline\<close>, \<open>find_first_not_of\<close>,
  \<open>std::stoul\<close>, \<open>std::stoi\<close>, \<open>std::stof\<close>), and \<open>main.cpp\<close>: the program around it. A file is
  its bytes, as a string. \<open>ulw\<close> is the width of \<open>unsigned long\<close>: 32 bits on Windows, 64 on
  Linux. The exceptions of \<open>std::stoul\<close> and its like are not caught anywhere, so they are the
  left results. Underflow is reported the way glibc does.
\<close>

datatype config_error = Invalid_argument | Out_of_range

subsection \<open>Numbers in strings\<close>

definition isspace :: "char \<Rightarrow> bool" where
  "isspace c \<longleftrightarrow> c \<in> {CHR '' '', CHR 0x09, CHR 0x0A, CHR 0x0B, CHR 0x0C, CHR 0x0D}"

definition isdigit :: "char \<Rightarrow> bool" where
  "isdigit c \<longleftrightarrow> 48 \<le> (of_char c :: nat) \<and> (of_char c :: nat) \<le> 57"

definition isxdigit :: "char \<Rightarrow> bool" where
  "isxdigit c \<longleftrightarrow> isdigit c \<or> (let n = (of_char c :: nat) in 65 \<le> n \<and> n \<le> 70 \<or> 97 \<le> n \<and> n \<le> 102)"

definition digit_value :: "char \<Rightarrow> nat" where
  "digit_value c = (let n = of_char c in if isdigit c then n - 48 else if n \<le> 70 then n - 55 else n - 87)"

definition number :: "nat \<Rightarrow> string \<Rightarrow> nat" where
  "number b ds = foldl (\<lambda>n c. b * n + digit_value c) 0 ds"

text \<open>An optional sign: whether it is a minus, and the rest.\<close>

definition sign :: "string \<Rightarrow> bool \<times> string" where
  "sign s = (case s of [] \<Rightarrow> (False, []) | c # cs \<Rightarrow>
     if c = CHR ''-'' then (True, cs) else if c = CHR ''+'' then (False, cs) else (False, s))"

definition signed :: "bool \<Rightarrow> nat \<Rightarrow> int" where
  "signed neg n = (if neg then - int n else int n)"

text \<open>The number \<open>strtol\<close> and \<open>strtoul\<close> read in base 10, before any limit; \<open>None\<close> without digits.\<close>

definition strto_int :: "string \<Rightarrow> int option" where
  "strto_int s = (let (neg, s) = sign (dropWhile isspace s); ds = takeWhile isdigit s
     in if ds = [] then None else Some (signed neg (number 10 ds)))"

text \<open>\<open>strtoul\<close> negates modulo the width.\<close>

definition stoul :: "nat \<Rightarrow> string \<Rightarrow> config_error + nat" where
  "stoul ulw s = (case strto_int s of None \<Rightarrow> Inl Invalid_argument
     | Some v \<Rightarrow> if \<bar>v\<bar> \<ge> 2 ^ ulw then Inl Out_of_range else Inr (nat (v mod 2 ^ ulw)))"

definition stoi :: "string \<Rightarrow> config_error + int" where
  "stoi s = (case strto_int s of None \<Rightarrow> Inl Invalid_argument
     | Some v \<Rightarrow> if - (2 ^ 31) \<le> v \<and> v < 2 ^ 31 then Inr v else Inl Out_of_range)"

text \<open>The float nearest to \<open>p / q\<close> units.\<close>

definition stof_result :: "int \<Rightarrow> nat \<Rightarrow> config_error + f32" where
  "stof_result p q = (case f32_round p q of
       Fin n \<Rightarrow> if \<bar>n\<bar> < 2 ^ 23 \<and> \<not> int q dvd p then Inl Out_of_range else Inr (Fin n)
     | _ \<Rightarrow> Inl Out_of_range)"

definition scaled :: "bool \<Rightarrow> nat \<Rightarrow> nat \<Rightarrow> int \<Rightarrow> config_error + f32" where
  "scaled neg n b e = (if e \<ge> 0 then stof_result (signed neg n * f32_unit * int b ^ nat e) 1
     else stof_result (signed neg n * f32_unit) (b ^ nat (- e)))"

definition lower :: "char \<Rightarrow> char" where
  "lower c = (let n = (of_char c :: nat) in if 65 \<le> n \<and> n \<le> 90 then char_of (n + 32) else c)"

text \<open>Digits with an optional point: those before it, those after it, the rest.\<close>

definition mantissa :: "(char \<Rightarrow> bool) \<Rightarrow> string \<Rightarrow> string \<times> string \<times> string" where
  "mantissa dig s = (let ip = takeWhile dig s; rest = dropWhile dig s
     in case rest of c # cs \<Rightarrow> if c = CHR ''.'' then (ip, takeWhile dig cs, dropWhile dig cs) else (ip, [], rest)
        | [] \<Rightarrow> (ip, [], []))"

text \<open>An optional exponent after the letter \<open>x\<close>; without digits it is none.\<close>

definition exponent :: "char \<Rightarrow> string \<Rightarrow> int" where
  "exponent x s = (case s of [] \<Rightarrow> 0 | c # cs \<Rightarrow>
     if lower c = x then (let (neg, cs) = sign cs; ds = takeWhile isdigit cs in signed neg (number 10 ds)) else 0)"

definition stof_decimal :: "bool \<Rightarrow> string \<Rightarrow> config_error + f32" where
  "stof_decimal neg s = (let (ip, fp, rest) = mantissa isdigit s
     in if ip = [] \<and> fp = [] then Inl Invalid_argument
        else scaled neg (number 10 (ip @ fp)) 10 (exponent (CHR ''e'') rest - int (length fp)))"

definition stof :: "string \<Rightarrow> config_error + f32" where
  "stof s = (let (neg, s) = sign (dropWhile isspace s)
     in if map lower (take 3 s) = ''inf'' then Inr (if neg then NInf else PInf)
        else if map lower (take 3 s) = ''nan'' then Inr FNaN
        else if map lower (take 2 s) = ''0x'' then
          (let (ip, fp, rest) = mantissa isxdigit (drop 2 s)
           in if ip = [] \<and> fp = [] then Inr f32_zero
              else scaled neg (number 16 (ip @ fp)) 2 (exponent (CHR ''p'') rest - 4 * int (length fp)))
        else stof_decimal neg s)"

subsection \<open>The loader\<close>

definition blank_char :: "char \<Rightarrow> bool" where
  "blank_char c \<longleftrightarrow> c \<in> {CHR '' '', CHR 0x09, CHR 0x0D, CHR 0x0A}"

definition trim :: "string \<Rightarrow> string" where
  "trim s = rev (dropWhile blank_char (rev (dropWhile blank_char s)))"

definition stripQuotes :: "string \<Rightarrow> string" where
  "stripQuotes s = (if length s \<ge> 2 \<and> hd s = CHR 0x22 \<and> last s = CHR 0x22 then butlast (tl s) else s)"

text \<open>The lines \<open>std::getline\<close> reads; the last one needs no newline.\<close>

definition newline :: char where "newline = CHR 0x0A"

function getlines :: "string \<Rightarrow> string list" where
  "getlines s = (if s = [] then [] else
     takeWhile (\<lambda>c. c \<noteq> newline) s # getlines (drop 1 (dropWhile (\<lambda>c. c \<noteq> newline) s)))"
  by pat_completeness auto

termination getlines
proof (relation "measure length")
  fix s :: string
  assume "s \<noteq> []"
  then show "(drop 1 (dropWhile (\<lambda>c. c \<noteq> newline) s), s) \<in> measure length"
    using length_dropWhile_le [of "\<lambda>c. c \<noteq> newline" s] by (cases s) (auto simp: diff_less_Suc)
qed simp

declare getlines.simps [simp del]

text \<open>An assignment whose value is converted; the exception of the conversion ends the loading.\<close>

definition assign :: "config_error + 'v \<Rightarrow> ('v \<Rightarrow> BattleServerConfig) \<Rightarrow> config_error + BattleServerConfig" where
  "assign r f = (case r of Inl e \<Rightarrow> Inl e | Inr v \<Rightarrow> Inr (f v))"

definition set_server :: "nat \<Rightarrow> string \<Rightarrow> string \<Rightarrow> BattleServerConfig \<Rightarrow> config_error + BattleServerConfig" where
  "set_server ulw key value c =
     (if key = ''instance_id'' then assign (stoul ulw value) (\<lambda>v. c\<lparr>cfg_server_instanceId := of_nat v\<rparr>)
      else if key = ''tick_rate'' then assign (stoi value) (\<lambda>v. c\<lparr>cfg_tickRate := of_int v\<rparr>)
      else if key = ''snapshot_interval_frames'' then assign (stoi value) (\<lambda>v. c\<lparr>cfg_snapshotIntervalFrames := of_int v\<rparr>)
      else if key = ''max_battles'' then assign (stoul ulw value) (\<lambda>v. c\<lparr>cfg_maxBattles := of_nat v\<rparr>)
      else if key = ''max_sessions'' then assign (stoul ulw value) (\<lambda>v. c\<lparr>cfg_maxSessions := of_nat v\<rparr>)
      else if key = ''load_report_interval'' then assign (stof value) (\<lambda>v. c\<lparr>cfg_loadReportInterval := v\<rparr>)
      else if key = ''content_root'' then Inr (c\<lparr>cfg_contentRoot := stripQuotes value\<rparr>)
      else Inr c)"

definition set_gateway :: "string \<Rightarrow> string \<Rightarrow> BattleServerConfig \<Rightarrow> config_error + BattleServerConfig" where
  "set_gateway key value c =
     (if key = ''host'' then Inr (c\<lparr>cfg_server_gatewayHost := stripQuotes value\<rparr>)
      else if key = ''port'' then assign (stoi value) (\<lambda>v. c\<lparr>cfg_server_gatewayPort := of_int v\<rparr>)
      else if key = ''reconnect_interval'' then assign (stof value) (\<lambda>v. c\<lparr>cfg_reconnectInterval := v\<rparr>)
      else Inr c)"

text \<open>One line: the section and the configuration after it.\<close>

definition config_line :: "nat \<Rightarrow> string \<Rightarrow> string \<times> BattleServerConfig \<Rightarrow> config_error + (string \<times> BattleServerConfig)" where
  "config_line ulw raw = (\<lambda>(section, c).
     let line = trim raw
     in if line = [] \<or> hd line = CHR 0x23 then Inr (section, c)
        else if hd line = CHR ''['' \<and> last line = CHR '']'' then Inr (butlast (tl line), c)
        else if CHR 0x3D \<notin> set line then Inr (section, c)
        else let key = trim (takeWhile (\<lambda>x. x \<noteq> CHR 0x3D) line);
                 value = trim (drop 1 (dropWhile (\<lambda>x. x \<noteq> CHR 0x3D) line));
                 r = (if section = ''server'' then set_server ulw key value c
                      else if section = ''gateway'' then set_gateway key value c
                      else Inr c)
             in case r of Inl e \<Rightarrow> Inl e | Inr c \<Rightarrow> Inr (section, c))"

fun config_lines :: "nat \<Rightarrow> string list \<Rightarrow> string \<times> BattleServerConfig \<Rightarrow> config_error + (string \<times> BattleServerConfig)" where
  "config_lines ulw [] acc = Inr acc"
| "config_lines ulw (l # ls) acc =
     (case config_line ulw l acc of Inl e \<Rightarrow> Inl e | Inr acc \<Rightarrow> config_lines ulw ls acc)"

text \<open>\<open>None\<close> is a file that cannot be opened.\<close>

definition loadBattleServerConfig :: "nat \<Rightarrow> string option \<Rightarrow> config_error + BattleServerConfig" where
  "loadBattleServerConfig ulw file =
     (case file of None \<Rightarrow> Inr default_BattleServerConfig
      | Some text \<Rightarrow> map_sum id snd (config_lines ulw (getlines text) ([], default_BattleServerConfig)))"

subsection \<open>The program\<close>

text \<open>
  The events the io service and the operating system deliver while \<open>run\<close> is in
  \<open>io_service::start\<close>, which returns once the service is stopped. The flag is \<open>g_exiting\<close>.
\<close>

datatype program_event = PE_Network net_event | PE_RpcTimer int | PE_Tick | PE_Signal

definition signalHandler :: "('u, 'w) battle_env \<Rightarrow> ('u, 'w) server \<times> bool \<Rightarrow> ('u, 'w) server \<times> bool" where
  "signalHandler env = (\<lambda>(s, g_exiting). (shutdown env s, True))"

fun program_step :: "('u, 'w) battle_env \<Rightarrow> program_event \<Rightarrow> ('u, 'w) server \<times> bool \<Rightarrow> ('u, 'w) server \<times> bool" where
  "program_step env (PE_Network ev) (s, g_exiting) =
     (handleNetworkEvent (cenv env) (Some (battle_delegate env)) ev s, g_exiting)"
| "program_step env (PE_RpcTimer now) (s, g_exiting) = (snd (rpcTimer now s), g_exiting)"
| "program_step env PE_Tick (s, g_exiting) = (snd (tick_timer env s), g_exiting)"
| "program_step env PE_Signal p = signalHandler env p"

definition service_stopped :: "('u, 'w) server \<Rightarrow> bool" where
  "service_stopped s \<longleftrightarrow> YStop \<in> set (io s)"

fun service_loop :: "('u, 'w) battle_env \<Rightarrow> program_event list \<Rightarrow> ('u, 'w) server \<times> bool \<Rightarrow> ('u, 'w) server \<times> bool" where
  "service_loop env [] p = p"
| "service_loop env (ev # evs) p =
     (if service_stopped (fst p) then p else service_loop env evs (program_step env ev p))"

text \<open>
  \<open>main\<close>, for the arguments \<open>argv\<close>, the files \<open>fs\<close>, the clock \<open>now\<close> when \<open>run\<close> starts and the
  events after. It ends with an exit code, by an exception of the loader, which nothing
  catches, or by the fault of \<open>run\<close>.
\<close>

datatype program_end = Exit int | Terminated config_error | Crashed

definition battle_main :: "('u, 'w) battle_env \<Rightarrow> nat \<Rightarrow> (string \<Rightarrow> string option) \<Rightarrow> string list \<Rightarrow> int \<Rightarrow>
    program_event list \<Rightarrow> program_end" where
  "battle_main env ulw fs argv now evs =
     (let configPath = (if length argv > 1 then argv ! 1 else ''config/battle.toml'')
      in case loadBattleServerConfig ulw (fs configPath) of Inl e \<Rightarrow> Terminated e
         | Inr config \<Rightarrow>
             let (ok, s) = init_server env config new_server
             in if \<not> ok then Exit 1
                else let s = run_server now s
                in if fault s then Crashed
                   else let (s, g_exiting) = service_loop env evs (s, False)
                        in Exit (if g_exiting then 0 else 1))"

end
