(* ===== verification/ConfigProps.thy ===== *)
theory ConfigProps
  imports BattleConfig ServerProps
begin

section \<open>What the loader reads and how the program ends\<close>

text \<open>
  A configuration written as a file is read back; what an inline comment does to a value; a
  tick rate of 0; and the exit code of \<open>main\<close>.
\<close>

subsection \<open>Lines and numbers\<close>

definition unlines :: "string list \<Rightarrow> string" where
  "unlines ls = concat (map (\<lambda>l. l @ [newline]) ls)"

lemma getlines_unlines: "\<forall>l \<in> set ls. newline \<notin> set l \<Longrightarrow> getlines (unlines ls) = ls"
proof (induction ls)
  case Nil
  then show ?case by (simp add: unlines_def getlines.simps)
next
  case (Cons l ls)
  then have "\<forall>c \<in> set l. c \<noteq> newline" by auto
  then have "takeWhile (\<lambda>c. c \<noteq> newline) (l @ newline # unlines ls) = l"
    "dropWhile (\<lambda>c. c \<noteq> newline) (l @ newline # unlines ls) = newline # unlines ls"
    by (simp_all add: takeWhile_append dropWhile_append)
  moreover have "unlines (l # ls) = l @ newline # unlines ls" by (simp add: unlines_def)
  ultimately show ?case using Cons by (simp add: getlines.simps [of "l @ newline # unlines ls"])
qed

lemma of_char_digit: "d < 10 \<Longrightarrow> (of_char (char_of (48 + d) :: char) :: nat) = 48 + d"
  by (simp add: of_char_of take_bit_nat_eq_self)

lemma isdigit_char: "d < 10 \<Longrightarrow> isdigit (char_of (48 + d))" "d < 10 \<Longrightarrow> digit_value (char_of (48 + d)) = d"
  by (simp_all add: isdigit_def digit_value_def of_char_digit)

lemma to_string_nat_digits: "list_all isdigit (to_string_nat n) \<and> to_string_nat n \<noteq> [] \<and> number 10 (to_string_nat n) = n"
proof (induction n rule: to_string_nat.induct)
  case (1 n)
  show ?case
  proof (cases "n < 10")
    case True
    then show ?thesis by (simp add: to_string_nat.simps [of n] isdigit_char number_def)
  next
    case False
    have "n mod 10 < 10" by simp
    with False 1 show ?thesis by (simp add: to_string_nat.simps [of n] isdigit_char number_def)
  qed
qed

lemma digit_not_special: "isdigit c \<Longrightarrow> \<not> isspace c \<and> c \<noteq> CHR ''-'' \<and> c \<noteq> CHR ''+'' \<and> \<not> blank_char c \<and> c \<noteq> newline"
  by (auto simp: isdigit_def isspace_def blank_char_def newline_def)

lemma takeWhile_digits: "list_all isdigit ds \<Longrightarrow> takeWhile isdigit ds = ds" "list_all isdigit ds \<Longrightarrow> dropWhile isdigit ds = []"
  by (simp_all add: list_all_iff)

lemma sign_digits: "list_all isdigit ds \<Longrightarrow> sign (dropWhile isspace ds) = (False, ds)"
  by (cases ds) (auto simp: sign_def dest: digit_not_special)

lemma strto_int_nat: "strto_int (to_string_nat n) = Some (int n)"
  using to_string_nat_digits [of n] by (simp add: strto_int_def sign_digits takeWhile_digits signed_def)

lemma stoul_nat: "n < 2 ^ ulw \<Longrightarrow> stoul ulw (to_string_nat n) = Inr n"
proof -
  assume n: "n < 2 ^ ulw"
  then have "int n < 2 ^ ulw" by (metis of_nat_less_iff of_nat_numeral of_nat_power)
  then show ?thesis by (simp add: stoul_def strto_int_nat)
qed

text \<open>An integer in decimal, with a minus where it is negative.\<close>

definition int_text :: "int \<Rightarrow> string" where
  "int_text v = (if v < 0 then CHR ''-'' # to_string_nat (nat (- v)) else to_string_nat (nat v))"

lemma strto_int_text: "strto_int (int_text v) = Some v"
proof (cases "v < 0")
  case True
  then show ?thesis
    using to_string_nat_digits [of "nat (- v)"]
    by (simp add: int_text_def strto_int_def sign_def isspace_def takeWhile_digits signed_def)
qed (simp add: int_text_def strto_int_nat)

lemma stoi_text: "stoi (int_text (sint (x :: i32))) = Inr (sint x)"
  using sint_ge [of x] sint_lt [of x] by (simp add: stoi_def strto_int_text)

text \<open>A decimal: whether it has a minus, the digits before the point and those behind it; the
  float nearest to it; and whether the conversion neither overflows nor loses digits to underflow.\<close>

type_synonym decimal = "bool \<times> string \<times> string"

fun decimal_text :: "decimal \<Rightarrow> string" where
  "decimal_text (neg, ip, fp) = (if neg then [CHR ''-''] else []) @ ip @ CHR ''.'' # fp"

fun decimal_float :: "decimal \<Rightarrow> f32" where
  "decimal_float (neg, ip, fp) = f32_round (signed neg (number 10 (ip @ fp)) * f32_unit) (10 ^ length fp)"

fun decimal_ok :: "decimal \<Rightarrow> bool" where
  "decimal_ok (neg, ip, fp) \<longleftrightarrow> ip \<noteq> [] \<and> list_all isdigit ip \<and> list_all isdigit fp \<and>
     (case decimal_float (neg, ip, fp) of
        Fin n \<Rightarrow> 2 ^ 23 \<le> \<bar>n\<bar> \<or> 10 ^ length fp dvd signed neg (number 10 (ip @ fp)) * f32_unit
      | _ \<Rightarrow> False)"

lemma lower_digits: "list_all (\<lambda>c. isdigit c \<or> c = CHR ''.'') ds \<Longrightarrow> map lower ds = ds"
  by (induction ds) (auto simp: lower_def isdigit_def)

lemma digits_not_word:
  assumes "list_all (\<lambda>c. isdigit c \<or> c = CHR ''.'') ds" and "\<not> list_all (\<lambda>c. isdigit c \<or> c = CHR ''.'') w"
  shows "map lower (take k ds) \<noteq> w"
proof -
  have "list_all (\<lambda>c. isdigit c \<or> c = CHR ''.'') (take k ds)" using assms(1) by (auto simp: list_all_iff dest: in_set_takeD)
  then show ?thesis using assms(2) lower_digits by metis
qed

lemma stof_text:
  assumes "decimal_ok d" shows "stof (decimal_text d) = Inr (decimal_float d)"
proof -
  obtain neg ip fp where d: "d = (neg, ip, fp)" by (metis prod_cases3)
  note ok = assms [unfolded d decimal_ok.simps]
  let ?s = "ip @ CHR ''.'' # fp" and ?p = "signed neg (number 10 (ip @ fp)) * f32_unit"
  have digits: "list_all (\<lambda>c. isdigit c \<or> c = CHR ''.'') ?s" using ok by (auto simp: list_all_iff)
  have words: "map lower (take k ?s) \<noteq> w" if "\<not> list_all (\<lambda>c. isdigit c \<or> c = CHR ''.'') w" for k w
    using digits_not_word [OF digits that] .
  have first: "sign (dropWhile isspace (decimal_text d)) = (neg, ?s)"
    using ok by (cases ip) (auto simp: d sign_def isspace_def dest: digit_not_special)
  have dot: "\<not> isdigit CHR ''.''" by (simp add: isdigit_def)
  then have "mantissa isdigit ?s = (ip, fp, [])"
    using ok by (auto simp: mantissa_def takeWhile_append takeWhile_digits dropWhile_append list_all_iff)
  then have "stof_decimal neg ?s = scaled neg (number 10 (ip @ fp)) 10 (- int (length fp))"
    using ok by (simp add: stof_decimal_def exponent_def)
  also have "\<dots> = stof_result ?p (10 ^ length fp)"
    by (cases fp) (simp_all add: scaled_def nat_add_distrib)
  also have "\<dots> = Inr (decimal_float d)"
    using ok by (auto simp: d stof_result_def split: f32.splits)
  finally show ?thesis using first words by (simp add: stof_def isdigit_def)
qed

subsection \<open>Assignments\<close>

lemma trim_id: "s \<noteq> [] \<Longrightarrow> \<not> blank_char (hd s) \<Longrightarrow> \<not> blank_char (last s) \<Longrightarrow> trim s = s"
proof -
  assume s: "s \<noteq> []" "\<not> blank_char (hd s)" "\<not> blank_char (last s)"
  have drop: "t \<noteq> [] \<Longrightarrow> \<not> blank_char (hd t) \<Longrightarrow> dropWhile blank_char t = t" for t by (cases t) simp_all
  show ?thesis using s by (simp add: trim_def drop hd_rev)
qed

lemma trim_drop_left: "blank_char c \<Longrightarrow> trim (c # s) = trim s"
  by (simp add: trim_def)

lemma trim_drop_right: "blank_char c \<Longrightarrow> s \<noteq> [] \<Longrightarrow> \<not> blank_char (hd s) \<Longrightarrow> trim (s @ [c]) = trim s"
  by (cases s) (simp_all add: trim_def)

text \<open>A word: no blank and no special character of the format.\<close>

definition word_char :: "char \<Rightarrow> bool" where
  "word_char c \<longleftrightarrow> \<not> blank_char c \<and> c \<noteq> CHR 0x3D \<and> c \<noteq> CHR 0x23 \<and> c \<noteq> CHR ''[''"

definition setting :: "string \<Rightarrow> string \<Rightarrow> string" where
  "setting key value = key @ CHR '' '' # CHR 0x3D # CHR '' '' # value"

lemma config_line_setting:
  assumes "key \<noteq> []" and "list_all word_char key" and "value \<noteq> []" and "\<not> blank_char (hd value)" and "\<not> blank_char (last value)"
  shows "config_line ulw (setting key value) (section, c) =
    (case (if section = ''server'' then set_server ulw key value c
           else if section = ''gateway'' then set_gateway key value c else Inr c)
     of Inl e \<Rightarrow> Inl e | Inr c \<Rightarrow> Inr (section, c))"
proof -
  have sp: "blank_char (CHR '' '')" by (simp add: blank_char_def)
  have hd: "word_char (hd key)" "word_char (last key)" using assms(1,2) by (auto simp: list_all_iff)
  then have line: "trim (setting key value) = setting key value"
    using assms by (intro trim_id) (auto simp: setting_def word_char_def)
  have key: "takeWhile (\<lambda>x. x \<noteq> CHR 0x3D) (setting key value) = key @ [CHR '' '']"
    "drop 1 (dropWhile (\<lambda>x. x \<noteq> CHR 0x3D) (setting key value)) = CHR '' '' # value"
    using assms(2) by (auto simp: setting_def takeWhile_append dropWhile_append list_all_iff word_char_def)
  have "trim (key @ [CHR '' '']) = key"
    using hd assms(1) trim_drop_right [OF sp, of key] trim_id [of key] by (simp add: word_char_def)
  moreover have "trim (CHR '' '' # value) = value" using assms(3-5) by (simp add: trim_drop_left [OF sp] trim_id)
  moreover have "setting key value \<noteq> []" "hd (setting key value) \<noteq> CHR 0x23" "hd (setting key value) \<noteq> CHR ''[''"
    "CHR 0x3D \<in> set (setting key value)"
    using hd(1) assms(1) by (auto simp: setting_def word_char_def)
  ultimately show ?thesis
    by (simp only: config_line_def Let_def prod.case line key if_False simp_thms)
qed

lemma config_line_section:
  assumes "list_all word_char title"
  shows "config_line ulw (CHR ''['' # title @ '']'') (section, c) = Inr (title, c)"
proof -
  have "trim (CHR ''['' # title @ '']'') = CHR ''['' # title @ '']''"
    by (rule trim_id) (simp_all add: blank_char_def)
  then show ?thesis by (simp add: config_line_def)
qed

subsection \<open>A whole file\<close>

definition quoted :: "string \<Rightarrow> string" where
  "quoted s = CHR 0x22 # s @ [CHR 0x22]"

lemma stripQuotes_quoted [simp]: "stripQuotes (quoted s) = s"
  by (simp add: stripQuotes_def quoted_def)

text \<open>
  The file of a configuration, with every key the loader knows, in the layout of the
  repository's own files; \<open>n\<close> and \<open>r\<close> are the decimals of its two intervals.
\<close>

definition config_file :: "BattleServerConfig \<Rightarrow> decimal \<Rightarrow> decimal \<Rightarrow> string list" where
  "config_file c n r =
     [''[server]'', setting ''instance_id'' (to_string_nat (unat (cfg_server_instanceId c))),
      setting ''tick_rate'' (int_text (sint (cfg_tickRate c))),
      setting ''snapshot_interval_frames'' (int_text (sint (cfg_snapshotIntervalFrames c))),
      setting ''max_battles'' (to_string_nat (unat (cfg_maxBattles c))),
      setting ''max_sessions'' (to_string_nat (unat (cfg_maxSessions c))),
      setting ''load_report_interval'' (decimal_text n),
      setting ''content_root'' (quoted (cfg_contentRoot c)),
      ''[gateway]'', setting ''host'' (quoted (cfg_server_gatewayHost c)),
      setting ''port'' (int_text (sint (cfg_server_gatewayPort c))),
      setting ''reconnect_interval'' (decimal_text r)]"

lemma to_string_nat_word: "to_string_nat n \<noteq> []" "\<not> blank_char (hd (to_string_nat n))" "\<not> blank_char (last (to_string_nat n))"
  "newline \<notin> set (to_string_nat n)"
proof -
  note ds = to_string_nat_digits [of n]
  then show ne: "to_string_nat n \<noteq> []" by simp
  have "isdigit (hd (to_string_nat n))" "isdigit (last (to_string_nat n))" "\<forall>c \<in> set (to_string_nat n). isdigit c"
    using ds ne by (simp_all add: list_all_iff)
  then show "\<not> blank_char (hd (to_string_nat n))" "\<not> blank_char (last (to_string_nat n))" "newline \<notin> set (to_string_nat n)"
    using digit_not_special by blast+
qed

lemma int_text_word: "int_text v \<noteq> []" "\<not> blank_char (hd (int_text v))" "\<not> blank_char (last (int_text v))"
  "newline \<notin> set (int_text v)"
  using to_string_nat_word by (simp_all add: int_text_def) (simp_all add: blank_char_def newline_def)

lemma decimal_text_word:
  assumes "decimal_ok d"
  shows "decimal_text d \<noteq> []" "\<not> blank_char (hd (decimal_text d))" "\<not> blank_char (last (decimal_text d))"
    "newline \<notin> set (decimal_text d)"
proof -
  obtain neg ip fp where d: "d = (neg, ip, fp)" by (metis prod_cases3)
  have ok: "ip \<noteq> []" "\<forall>c \<in> set ip \<union> set fp. isdigit c" using assms by (auto simp: d list_all_iff)
  have plain: "c \<noteq> newline" "\<not> blank_char c" if "c \<in> set (decimal_text d)" for c
  proof -
    have "isdigit c \<or> c = CHR ''-'' \<or> c = CHR ''.''" using that ok(2) by (auto simp: d split: if_splits)
    then show "c \<noteq> newline" "\<not> blank_char c"
      using digit_not_special [of c] by (auto simp: newline_def blank_char_def)
  qed
  show ne: "decimal_text d \<noteq> []" by (simp add: d)
  show "newline \<notin> set (decimal_text d)" using plain(1) by blast
  show "\<not> blank_char (hd (decimal_text d))" "\<not> blank_char (last (decimal_text d))"
    using plain(2) hd_in_set [OF ne] last_in_set [OF ne] by blast+
qed

lemma quoted_word: "quoted s \<noteq> []" "\<not> blank_char (hd (quoted s))" "\<not> blank_char (last (quoted s))"
  by (simp_all add: quoted_def blank_char_def)

lemma config_line_number:
  assumes "key \<noteq> []" and "list_all word_char key"
  shows "config_line ulw (setting key (to_string_nat n)) (section, c) =
    (case (if section = ''server'' then set_server ulw key (to_string_nat n) c
           else if section = ''gateway'' then set_gateway key (to_string_nat n) c else Inr c)
     of Inl e \<Rightarrow> Inl e | Inr c \<Rightarrow> Inr (section, c))"
  by (rule config_line_setting [OF assms to_string_nat_word(1,2,3)])

lemma config_line_string:
  assumes "key \<noteq> []" and "list_all word_char key"
  shows "config_line ulw (setting key (quoted v)) (section, c) =
    (case (if section = ''server'' then set_server ulw key (quoted v) c
           else if section = ''gateway'' then set_gateway key (quoted v) c else Inr c)
     of Inl e \<Rightarrow> Inl e | Inr c \<Rightarrow> Inr (section, c))"
  by (rule config_line_setting [OF assms quoted_word])

lemmas words = word_char_def blank_char_def
lemmas section_lines = config_line_section [where title = "''server''", simplified words, simplified]
  config_line_section [where title = "''gateway''", simplified words, simplified]

lemma config_line_int:
  assumes "key \<noteq> []" and "list_all word_char key"
  shows "config_line ulw (setting key (int_text v)) (section, c) =
    (case (if section = ''server'' then set_server ulw key (int_text v) c
           else if section = ''gateway'' then set_gateway key (int_text v) c else Inr c)
     of Inl e \<Rightarrow> Inl e | Inr c \<Rightarrow> Inr (section, c))"
  by (rule config_line_setting [OF assms int_text_word(1,2,3)])

lemma config_line_decimal:
  assumes "key \<noteq> []" and "list_all word_char key" and "decimal_ok d"
  shows "config_line ulw (setting key (decimal_text d)) (section, c) =
    (case (if section = ''server'' then set_server ulw key (decimal_text d) c
           else if section = ''gateway'' then set_gateway key (decimal_text d) c else Inr c)
     of Inl e \<Rightarrow> Inl e | Inr c \<Rightarrow> Inr (section, c))"
  by (rule config_line_setting [OF assms(1,2) decimal_text_word(1,2,3) [OF assms(3)]])

text \<open>C28. What is written in the configuration file is what the server runs with. The file that
  writes a configuration out with all its keys is loaded as exactly that configuration: every
  \<open>uint32_t\<close> in decimal; every \<open>int\<close>, negative ones with a minus; the two intervals, each the float
  nearest to the decimal written, with any digits before and behind the point, as long as that
  float neither overflows nor is inexact below the normal numbers; and the two strings in quotes,
  with any characters but newlines in them. \<open>unsigned long\<close> has at least 32 bits.\<close>
theorem config_written_is_read:
  assumes "32 \<le> ulw" and "decimal_ok n" and "cfg_loadReportInterval c = decimal_float n"
    and "decimal_ok r" and "cfg_reconnectInterval c = decimal_float r"
    and "newline \<notin> set (cfg_contentRoot c)" and "newline \<notin> set (cfg_server_gatewayHost c)"
  shows "loadBattleServerConfig ulw (Some (unlines (config_file c n r))) = Inr c"
proof -
  have "\<forall>l \<in> set (config_file c n r). newline \<notin> set l"
    using assms(6,7) to_string_nat_word(4) int_text_word(4) decimal_text_word(4) [OF assms(2)] decimal_text_word(4) [OF assms(4)]
    by (simp add: config_file_def setting_def quoted_def) (simp add: newline_def)
  note lines = getlines_unlines [OF this]
  have u32: "stoul ulw (to_string_nat (unat x)) = Inr (unat x)" for x :: u32
  proof (rule stoul_nat)
    have "unat x < 2 ^ 32" using unsigned_less [of x, where 'a = nat] by simp
    also have "\<dots> \<le> (2 :: nat) ^ ulw" using assms(1) by (intro power_increasing) auto
    finally show "unat x < 2 ^ ulw" .
  qed
  define d where "d = default_BattleServerConfig"
  have "config_lines ulw (config_file c n r) ([], d) = Inr (''gateway'', c)"
    using assms(3,5)
    by (simp add: config_file_def section_lines config_line_number config_line_int config_line_decimal [OF _ _ assms(2)]
        config_line_decimal [OF _ _ assms(4)] config_line_string words set_server_def set_gateway_def
        assign_def u32 stoi_text stof_text [OF assms(2)] stof_text [OF assms(4)])
  then show ?thesis by (simp add: loadBattleServerConfig_def lines d_def)
qed

text \<open>The default configuration but for a report every half second, and a tick rate of -1.\<close>

definition sample_file_config :: BattleServerConfig where
  "sample_file_config = default_BattleServerConfig\<lparr>cfg_tickRate := - 1, cfg_loadReportInterval := Fin (2 ^ 148)\<rparr>"

lemma sample_decimals:
  "number 10 (''0'' @ ''5'') = 5" "number 10 (''3'' @ ''0'') = 30" "list_all isdigit ''0''" "list_all isdigit ''5''" "list_all isdigit ''3''"
  by code_simp+

lemma sample_half: "decimal_float (False, ''0'', ''5'') = Fin (2 ^ 148)"
  and sample_three: "decimal_float (False, ''3'', ''0'') = f32_of_int 3"
proof -
  have "f32_round (2 ^ 148 * 10) 10 = f32_round (2 ^ 148) 1" "f32_round (3 * f32_unit * 10) 10 = f32_round (3 * f32_unit) 1"
    using f32_round_scale [of 10 "2 ^ 148"] f32_round_scale [of 10 "3 * f32_unit"] by (simp_all add: f32_unit_def)
  moreover have "f32_round (2 ^ 148) 1 = Fin (2 ^ 148)"
    using round_mag_exact [of 1 148] by (simp add: f32_round_Fin)
  ultimately show "decimal_float (False, ''0'', ''5'') = Fin (2 ^ 148)" "decimal_float (False, ''3'', ''0'') = f32_of_int 3"
    unfolding decimal_float.simps sample_decimals(1,2) by (simp_all add: signed_def f32_unit_def f32_of_int_def)
qed

theorem config_written_is_read_witness:
  "loadBattleServerConfig 64 (Some (unlines (config_file sample_file_config (False, ''0'', ''5'') (False, ''3'', ''0'')))) = Inr sample_file_config"
proof (rule config_written_is_read)
  have three: "f32_of_int 3 = Fin (3 * f32_unit)" by (rule f32_of_int_small) simp
  show "decimal_ok (False, ''0'', ''5'')" "decimal_ok (False, ''3'', ''0'')"
    unfolding decimal_ok.simps sample_half sample_three three by (simp_all add: isdigit_def f32_unit_def)
  show "cfg_loadReportInterval sample_file_config = decimal_float (False, ''0'', ''5'')"
    "cfg_reconnectInterval sample_file_config = decimal_float (False, ''3'', ''0'')"
    unfolding sample_half sample_three by (simp_all add: sample_file_config_def default_BattleServerConfig_def)
qed (simp_all add: sample_file_config_def default_BattleServerConfig_def newline_def)

subsection \<open>Inline comments\<close>

lemma main_init_failed:
  assumes "length argv > 1" and "loadBattleServerConfig ulw (fs (argv ! 1)) = Inr config"
    and "cfg_contentRoot config \<noteq> []" and "\<not> mountContentRoot env (cfg_contentRoot config)"
  shows "battle_main env ulw fs argv now evs = Exit 1"
  using assms by (simp add: battle_main_def init_server_def Let_def)

text \<open>C40. A comment after a value becomes part of the value. The line
  \<open>content_root = "dir"  # remark\<close>, as \<open>config/battle_2.toml\<close> has it, sets the content root
  to the text from the first quote to the end of the line, quotes and remark included (unless
  the remark happens to end in a quote); so unless that path can be mounted, the server
  started with this file exits with code 1.\<close>
theorem inline_comment_kept:
  assumes "newline \<notin> set dir" and "newline \<notin> set remark" and "remark \<noteq> []"
    and "\<not> blank_char (last remark)" and "last remark \<noteq> CHR 0x22"
    and "v = quoted dir @ ''  # '' @ remark" and "text = unlines [''[server]'', setting ''content_root'' v]"
    and "fs path = Some text" and "\<not> mountContentRoot env v"
  shows "loadBattleServerConfig ulw (Some text) = Inr (default_BattleServerConfig\<lparr>cfg_contentRoot := v\<rparr>)
    \<and> battle_main env ulw fs [prog, path] now evs = Exit 1"
proof -
  have "\<forall>l \<in> set [''[server]'', setting ''content_root'' v]. newline \<notin> set l"
    using assms(1,2,6) by (simp add: setting_def quoted_def) (simp add: newline_def)
  note lines = getlines_unlines [OF this]
  have v: "v \<noteq> []" "\<not> blank_char (hd v)" "\<not> blank_char (last v)" "last v \<noteq> CHR 0x22"
    using assms(3-6) by (simp_all add: quoted_def blank_char_def)
  have "stripQuotes v = v" using v(4) by (simp add: stripQuotes_def)
  then have load: "loadBattleServerConfig ulw (Some text) = Inr (default_BattleServerConfig\<lparr>cfg_contentRoot := v\<rparr>)"
    by (simp add: loadBattleServerConfig_def assms(7) lines section_lines config_line_setting [OF _ _ v(1-3)] words
        set_server_def)
  moreover have "battle_main env ulw fs [prog, path] now evs = Exit 1"
    by (rule main_init_failed [of "[prog, path]" ulw fs "default_BattleServerConfig\<lparr>cfg_contentRoot := v\<rparr>"]) (use load assms(8,9) v(1) in simp_all)
  ultimately show ?thesis ..
qed

theorem inline_comment_kept_witness:
  "battle_main (sample_env\<lparr>mountContentRoot := (\<lambda>p. p = ''Content'')\<rparr> :: (nat, (u32, u32) umap \<times> nat) battle_env) 64
     (\<lambda>_. Some (unlines [''[server]'', setting ''content_root'' (quoted ''Content'' @ ''  # assets'')])) [''battle'', ''b.toml''] 0 []
   = Exit 1"
  by (rule inline_comment_kept [where dir = "''Content''" and remark = "''assets''", THEN conjunct2, OF _ _ _ _ _ refl refl])
     (simp_all add: newline_def blank_char_def quoted_def)

subsection \<open>Exit codes\<close>

text \<open>A configured tick rate of 0 crashes the server: the loader accepts it, and \<open>run\<close>
  divides by it.\<close>
theorem zero_tick_rate_crashes:
  assumes "text = unlines [''[server]'', setting ''tick_rate'' ''0'', setting ''content_root'' (quoted [])]"
    and "fs path = Some text"
  shows "loadBattleServerConfig ulw (Some text) = Inr (default_BattleServerConfig\<lparr>cfg_tickRate := 0, cfg_contentRoot := []\<rparr>)
    \<and> battle_main env ulw fs [prog, path] now evs = Crashed"
proof -
  have "char_of (48 :: nat) = CHR ''0''" by code_simp
  then have zero: "''0'' = to_string_nat 0" by (simp add: to_string_nat.simps)
  have "\<forall>l \<in> set [''[server]'', setting ''tick_rate'' ''0'', setting ''content_root'' (quoted [])]. newline \<notin> set l"
    by (simp add: setting_def quoted_def newline_def)
  note lines = getlines_unlines [OF this]
  have "stoi (to_string_nat 0) = Inr 0" using strto_int_nat [of 0] by (simp add: stoi_def)
  then have load: "loadBattleServerConfig ulw (Some text) = Inr (default_BattleServerConfig\<lparr>cfg_tickRate := 0, cfg_contentRoot := []\<rparr>)"
    unfolding assms(1) loadBattleServerConfig_def option.case lines
    by (simp add: zero section_lines config_line_number config_line_string words set_server_def assign_def)
  then show ?thesis
    by (simp add: battle_main_def assms(2) init_server_def client_init_def run_server_def Let_def)
qed

theorem zero_tick_rate_crashes_witness:
  "battle_main (sample_env :: (nat, (u32, u32) umap \<times> nat) battle_env) 64
     (\<lambda>_. Some (unlines [''[server]'', setting ''tick_rate'' ''0'', setting ''content_root'' (quoted [])])) [''battle'', ''b.toml''] 0 []
   = Crashed"
  by (rule zero_tick_rate_crashes [where path = "''b.toml''", THEN conjunct2, OF refl]) simp

lemma service_loop_append:
  "service_loop env (xs @ ys) p = service_loop env ys (service_loop env xs p)"
proof (induction xs arbitrary: p)
  case (Cons x xs)
  have "service_stopped (fst p) \<Longrightarrow> service_loop env ys p = p" by (cases ys) simp_all
  with Cons show ?case by simp
qed simp

lemma service_loop_unsignalled:
  "PE_Signal \<notin> set evs \<Longrightarrow> snd (service_loop env evs (s, b)) = b"
proof (induction evs arbitrary: s)
  case (Cons ev evs)
  then show ?case by (cases ev) auto
qed simp

lemma service_loop_exiting: "snd (service_loop env evs (s, True))"
proof (induction evs arbitrary: s)
  case (Cons ev evs)
  then show ?case by (cases ev) (auto simp: signalHandler_def)
qed simp

text \<open>The exit code tells a requested stop from a lost connection. A server that could be
  configured and started exits with 0 exactly when the first termination signal comes while
  its service still runs; without one, or when the service has stopped before (the gateway
  gone, the registration refused, the game server offline), it exits with 1.\<close>
theorem exit_code:
  assumes "loadBattleServerConfig ulw (fs ''config/battle.toml'') = Inr config"
    and "init_server env config new_server = (True, s)" and "cfg_tickRate config \<noteq> 0"
    and "PE_Signal \<notin> set pre"
  shows "battle_main env ulw fs [prog] now pre = Exit 1
    \<and> battle_main env ulw fs [prog] now (pre @ PE_Signal # post) =
        Exit (if service_stopped (fst (service_loop env pre (run_server now s, False))) then 1 else 0)"
proof -
  have serving: "serving config (run_server now s)"
    by (rule run_server_inv [OF init_server_inv(1) [OF assms(2)] assms(3)])
  then have ok: "\<not> fault (run_server now s)" by (simp add: serving_def)
  have main: "battle_main env ulw fs [prog] now evs =
      Exit (if snd (service_loop env evs (run_server now s, False)) then 0 else 1)" for evs
    using ok by (simp add: battle_main_def assms(1,2) Let_def case_prod_beta)
  obtain s1 where s1: "service_loop env pre (run_server now s, False) = (s1, False)"
    using service_loop_unsignalled [OF assms(4), of env "run_server now s" False] by (metis prod.collapse)
  have "service_loop env (pre @ PE_Signal # post) (run_server now s, False) =
      (if service_stopped s1 then (s1, False) else service_loop env post (shutdown env s1, True))"
    by (simp add: service_loop_append s1 signalHandler_def)
  then show ?thesis using s1 by (simp add: main service_loop_exiting)
qed

theorem exit_code_witness:
  "battle_main (sample_env :: (nat, (u32, u32) umap \<times> nat) battle_env) 64 (\<lambda>_. None) [''battle''] 0 [PE_Signal] = Exit 0"
proof -
  let ?s = "snd (init_server sample_env default_BattleServerConfig new_server) :: (nat, (u32, u32) umap \<times> nat) server"
  have load: "loadBattleServerConfig 64 ((\<lambda>_. None) ''config/battle.toml'') = Inr default_BattleServerConfig"
    by (simp add: loadBattleServerConfig_def)
  have tick: "cfg_tickRate default_BattleServerConfig \<noteq> 0" by (simp add: default_BattleServerConfig_def)
  have fresh: "\<not> service_stopped (fst (service_loop sample_env [] (run_server 0 ?s, False)))"
    by (simp add: service_stopped_def run_server_def start_def startRpcTimer_def openConnection_def init_server_def
        client_init_def sample_env_def new_server_def client.defs server.defs init_client_def emit_def
        default_BattleServerConfig_def Let_def)
  show ?thesis
    using exit_code [where env = "sample_env :: (nat, (u32, u32) umap \<times> nat) battle_env", OF load sample_init tick, of "[]" "''battle''" 0 "[]"] fresh by simp
qed

end
