(* ===== verification/Spec2Isabelle.thy ===== *)
theory Spec2Isabelle
  imports Codec RpcManager PbProps ClientProps FrameStream IoService IoSend JsonRoundTrip JsonEquality JsonStrtod ControlRequests Lobby BattleClock ServerProps ServerEvents ConfigProps
begin

text \<open>
  The battle server of AxmolFighter (\<open>src/battle\<close>, C++), as definitions translated from its
  sources and the theorems that make it correct.

  \<^bold>\<open>The program.\<close> A battle server runs the fights of the game. It is a backend of a gateway: it
  opens one TCP connection to it, registers as service 1, and from then on reads and writes
  length-prefixed frames on that connection. A frame is a business frame (a client's, with the
  client's session, or the inside of a forwarded one) or a control frame (the gateway's pushes,
  forwarding between servers, pings). A game server asks it, through the gateway, to create a
  battle; clients push their input; a timer steps all battles and sends each player snapshots
  and the gateway a load report. Losing the gateway or the game server ends the process. It is
  one thread: the io service calls the frame handlers and the timers one after the other, and
  the only state shared between components is the records below, passed explicitly.

  \<^bold>\<open>Theories and sources\<close> (paths under \<open>src/battle/src\<close>).

  \<^item> \<open>Prelude\<close>: integer types as words, \<open>std::unordered_map\<close> as an association list with distinct
    keys in iteration order (\<open>umap\<close>), the collections \<open>inv_intros\<close>, \<open>frame_simps\<close>.
  \<^item> \<open>Codec\<close> -- \<open>framework/Protocol.h\<close>, \<open>BackendCodec\<close>: the frame's encoder and its decoders, byte
    by byte. What of a stream is decoded (\<open>decode_stream\<close>) and the converse (\<open>decode_inverse\<close>).
  \<^item> \<open>Float32\<close>: the \<open>float\<close> arithmetic the code does, as integers in units of \<open>2 ^ -149\<close> rounded to
    24 bits, ties to even; monotonicity, error and stall bounds of the rounding.
  \<^item> \<open>RpcManager\<close> -- \<open>framework/RpcManager\<close>: the table of pending requests; every callback exactly
    once, ids never reused while pending, timeouts that end every request.
  \<^item> \<open>PbRuntime\<close>, \<open>PbGateway\<close>, \<open>PbGatewayPush\<close>, \<open>PbBattle\<close>, \<open>PbProps\<close> -- \<open>protocol/*.pb.h\<close>,
    \<open>protocol/*.pb.cc\<close>: for each generated class its record, \<open>SharedCtor\<close>, \<open>Clear\<close>, the switch of
    \<open>_InternalParse\<close>, \<open>_InternalSerialize\<close>, \<open>ByteSizeLong\<close>, \<open>MergeFrom\<close>, \<open>CopyFrom\<close>. Round trips,
    sizes, merging, unknown fields, well-typedness of what is parsed.
  \<^item> \<open>BackendClient\<close> -- \<open>framework/BackendClient\<close>: the connection's state machine, dispatch, requests,
    replies, sessions, timers. \<open>ClientContract\<close>: its invariant and the contracts with its delegate.
    \<open>ClientProps\<close>, \<open>ControlRequests\<close>: what it writes and answers, end to end through the gateway.
  \<^item> \<open>FrameStream\<close> -- \<open>src/battle/3rd/yasio/yasio/io_service.cpp\<close>: the part of the network library
    that cuts the bytes of the connection into the frames the client handles, under the options
    the client sets; that it delivers the peer's frames for every cutting of the bytes.
  \<^item> \<open>IoService\<close> -- \<open>yasio/io_service.cpp\<close>, \<open>io_service.hpp\<close>, \<open>impl/concurrent_queue.hpp\<close>: the io
    service around it, for the one TCP client channel and the options the battle server uses: send
    queues, opening, resolving, connecting with its timeout, closing, timers, deferred events, the
    loop of \<open>run\<close>, stopping. That every turn ends and the events of a connection come in order.
    \<open>IoSend\<close>: that the frames written are the frames the peer reads.
  \<^item> \<open>BattleRoom\<close> -- \<open>battle/BattleRoom\<close>, \<open>BattleTypes.h\<close>: one battle. \<open>BattleRoomManager\<close> --
    \<open>battle/BattleRoomManager\<close>: all battles and the routes of sessions to them. \<open>Lobby\<close>: the
    abstract specification of the manager and the simulation. \<open>BattleSync\<close> -- \<open>battle/BattleSync\<close>.
  \<^item> \<open>BattleServer\<close> -- \<open>BattleServer\<close>: start, tick, stop, the delegate's callbacks, creation of
    battles. \<open>BattleClock\<close>: how far the battles' clock goes. \<open>ServerInvariant\<close>: the invariant and
    the reachable states. \<open>ServerProps\<close>: creating battles. \<open>ServerEvents\<close>: input, sessions,
    connections, ticks.
  \<^item> \<open>BattleConfig\<close>, \<open>ConfigProps\<close> -- \<open>BattleConfigLoader.cpp\<close>, \<open>main.cpp\<close>: the configuration file,
    the program and its exit code.

  \<^item> \<open>JsonEncodings\<close>, \<open>JsonItoa\<close>, \<open>JsonReader\<close>, \<open>JsonReaderProps\<close>, \<open>JsonIterative\<close> -- \<open>src/battle/3rd/rapidjson\<close>
    (\<open>encodings.h\<close>, \<open>stream.h\<close>, \<open>internal/itoa.h\<close>, \<open>reader.h\<close>, \<open>internal/strtod.h\<close>): the JSON
    library linked into the server. Exactness of the UTF-8 and UTF-16 decoders, the integer
    conversions against the decimal numeral, the parser of JSON texts, that it always returns, and
    that the table-driven parser is equivalent to the recursive one.
  \<^item> \<open>JsonDocument\<close>, \<open>JsonWriter\<close> -- \<open>document.h\<close>, \<open>writer.h\<close>: values, the events they send, the document
    that builds a value from the parser's events, members, equality; the writer. \<open>JsonText\<close>: the
    text of a value as a reference definition. \<open>JsonNumbers\<close>: integers, their flags and their
    digits. \<open>JsonRoundTrip\<close>: a value that is written is read back. \<open>JsonEquality\<close>: what
    \<open>operator==\<close> decides.
  \<^item> \<open>JsonBigInteger\<close>, \<open>JsonBigArith\<close>, \<open>JsonStrtod\<close> -- \<open>internal/biginteger.h\<close>, \<open>internal/ieee754.h\<close>,
    \<open>internal/strtod.h\<close>: the big integers of the exact parser, that they are natural numbers, and
    that the last step of the parser rounds a decimal to the nearest double.

  \<^bold>\<open>State and effects.\<close> A class is a record of its members under their names; \<open>server\<close> extends
  \<open>client\<close>, because the server is the delegate of the client it owns and the callbacks change both.
  A handler maps the state before to the state after. Calls of the network library are recorded
  in order in \<open>io\<close> (\<open>YWrite\<close> with the bytes and the result, \<open>YClose\<close>, \<open>YStop\<close>, \<open>YSchedule\<close>), as are
  calls of request callbacks (\<open>RpcCalled\<close>, \<open>RpcFailed\<close>), so that a theorem speaks of what was
  written and called and in which order. A \<open>BattleRoom*\<close> is its key in the manager's map. A
  dereferenced null pointer or an integer division by zero sets \<open>fault\<close>; \<open>server_safe\<close> excludes it.
  Failing operations return options, sums with an error, or the code's boolean.

  \<^bold>\<open>Interfaces.\<close> \<open>pb_laws\<close>: the documented laws of the protobuf runtime the generated code calls,
  interpreted by the wire encoding \<open>wire_rt\<close>. \<open>packet_delegate\<close>, \<open>backend_delegate\<close>,
  \<open>passive_delegate\<close>: what the client needs of its delegate, interpreted by the server's callbacks
  for each of the server's invariants. \<open>seated_rooms\<close>: what the manager needs of a room,
  interpreted by \<open>BattleRoom\<close>.

  \<^bold>\<open>Parameters.\<close> Code that is not in the repository: the game world \<open>mugen\<close> (a record of the
  functions the room calls, over any type of worlds), the message classes of the client's
  repository (\<open>BattlePlayerSpec\<close>, \<open>BattleInputPush\<close>, \<open>BattleSnapshotPush\<close>, \<open>CommonErrorResp\<close>,
  \<open>GatewayErrorResp\<close>: parsers and serializers), the protobuf runtime, the results of writes, the
  file system and the mounting of the content directory. Nothing is assumed of the world. The io
  service has the operating system as a parameter (\<open>kernel\<close>: clocks, sockets, polling, name
  queries, one record per turn of the loop) and the program it calls (\<open>client_code\<close>).

  \<^bold>\<open>Loops and fuel.\<close> The generated parse loops take the length of the input plus one as fuel;
  every pass consumes a byte, so more fuel changes nothing (\<open>parse_loop_fuel\<close>,
  \<open>repeated_field_fuel\<close>). The loop over expired timers may run for ever and is a
  \<open>partial_function\<close>; \<open>event_order\<close> proves that it ends when timers have positive durations. Every
  other loop is structural or has a termination proof; the io service's \<open>run\<close> takes the list of
  the system's answers, one per turn.

  \<^bold>\<open>The order of the properties.\<close> First the whole server: safety of every reachable state, requests
  to create battles answered and without effect on other battles, routing and its abstract
  specification, requests between servers, the exactly-once calls, input, departures, ticks,
  shutdown. Then the bytes of the connection, the codecs and the configuration, the client's
  handshake and replies, the single room, and last the properties that state a defect exactly:
  the last battle of the capacity fails and leaks its room, battles created with nobody in them,
  the clock that stops, responses matched by serial alone, a frame of length 0 that silences the
  connection, comments read as values.

  \<^bold>\<open>Not modelled.\<close> \<open>framework/Logger\<close> and all logging (no effect on the state); the accessors,
  arenas, reflection, descriptors and \<open>InternalSwap\<close> of the generated classes (no logic of their
  own: a field's accessor is its record selector); of the vendored library \<open>yasio\<close>
  server channels, UDP, KCP, SSL, multicast, c-ares, the socket and string utilities; of the
  vendored library \<open>rapidjson\<close> schemas, pointers, regular expressions, URIs, the shortest text of
  a double (an argument of the writer), the memory and capacities of values, other encodings,
  parsing in place and of numbers as strings, the first approximation of the exact parser, SIMD;
  the Rust programs under \<open>src/game\<close>, except the gateway's forwarding of a frame between servers,
  which the end-to-end properties need (\<open>handle_server_forward\<close> in \<open>ClientProps\<close>); signals arrive
  between events, not within one; signed overflow of request ids, undefined in C++, wraps.
\<close>

end
